(* ===== verification/Bones_Prelude.thy ===== *)
theory Bones_Prelude
  imports Main "HOL-Library.Word" "HOL-Library.AList" "HOL-Library.Product_Lexorder" "HOL-Library.Multiset"
begin

text \<open>
  Shared vocabulary of the development: the error values of the Go packages, the fixed-width
  integer conversions the code performs, the standard-library string and sorting routines it
  calls (\<^verbatim>\<open>strings.Split\<close>, \<^verbatim>\<open>strings.Join\<close>, \<^verbatim>\<open>strings.HasPrefix\<close>, \<^verbatim>\<open>sort.SliceStable\<close>) and the
  generic lemmas the component theories use.

  Conventions used everywhere:
  \<^item> a Go function returning \<open>(T, error)\<close> is a function into \<open>err + T\<close>; \<open>Inl\<close> is the non-nil error;
  \<^item> wrapping with \<^verbatim>\<open>fmt.Errorf("...: %w", e)\<close> keeps the identity \<^verbatim>\<open>errors.Is\<close> sees, so the model
    returns \<open>e\<close> itself; errors made by \<^verbatim>\<open>errors.New\<close> in place are \<open>EMsg\<close>;
  \<^item> a failed \<^verbatim>\<open>assert\<close> panics: \<open>EPanic\<close>, which no caller handles;
  \<^item> instants (\<^verbatim>\<open>time.Time\<close>, UTC) and durations are integers counting nanoseconds;
  \<^item> a Go string is a list of bytes, the HOL type \<open>string\<close>.
\<close>

section \<open>Names of the development's fact collections\<close>

named_theorems go_defs \<open>definitions of constants of the Go source, for evaluation\<close>

type_synonym time_ns = int
type_synonym duration = int

text \<open>The zero \<^verbatim>\<open>time.Time\<close> is 1 January of year 1, in nanoseconds before the Unix epoch.\<close>

definition zero_time :: time_ns where
  "zero_time = - 62135596800000000000"

section \<open>Error values\<close>

text \<open>What the code distinguishes of the errors of the JetStream client.\<close>

datatype kv_err =
    ErrKeyNotFound
  | ErrKeyExists
  | ErrWrongLastSequence
  | ErrNoKeysFound
  | ErrTransport string

datatype tasks_err =
    ErrAlreadyExists
  | ErrNotFound
  | ErrCASConflict
  | ErrValueTooLarge
  | ErrInvalidStatus
  | ErrInvalidTransition
  | ErrInvariant11
  | ErrClosed
  | ErrNoMutations
  | ErrEventLogDisabled

datatype holds_err = HErrHeldByAnother | HErrClosed

datatype coord_err =
    ErrHeldByAnother
  | ErrTaskNotFound
  | ErrTaskAlreadyClaimed
  | ErrAgentMismatch
  | ErrTaskAlreadyClosed
  | ErrNotHeld
  | ErrEpochStale
  | ErrClaimerLive
  | ErrTaskNotClaimed
  | ErrInvalidEdgeType
  | ErrAlreadyClaimer
  | ErrClaimCASNoOp

datatype swarm_err =
    SErrClosed
  | SErrNotFound
  | SErrCASConflict
  | ErrWorkspaceNotBootstrapped
  | ErrSessionNotFound
  | ErrSessionGone
  | ErrSessionAlreadyLive
  | ErrSessionForeignHost
  | ErrCrossHostOperation
  | ErrCloseRequiresArtifact
  | ErrAgentIDMissing

datatype dispatch_err = ErrNoManifest | ErrWaveIncomplete "string list" | ErrAllWavesComplete

datatype workspace_err = ErrAlreadyInitialized | ErrNoWorkspace | ErrLeafUnreachable | ErrLeafStartTimeout | ErrLegacyLayout

datatype registry_err = RErrNotFound | ErrLockHeld int

text \<open>What the code distinguishes of the errors of the operating system: \<^verbatim>\<open>os.ErrNotExist\<close> and the rest.\<close>

datatype os_err = NotExist | OSFailure string

datatype err =
    EKV kv_err
  | ETasks tasks_err
  | EHolds holds_err
  | ECoord coord_err
  | ESwarm swarm_err
  | EDispatch dispatch_err
  | EWorkspace workspace_err
  | ERegistry registry_err
  | EOS os_err
  | EInvalidPath string
  | EDecode
  | EMsg string
  | EPanic string

definition is_panic :: "err \<Rightarrow> bool" where
  "is_panic e = (case e of EPanic _ \<Rightarrow> True | _ \<Rightarrow> False)"

lemma is_panic_simps [simp]:
  "is_panic (EPanic x)" "\<not> is_panic (EKV k)" "\<not> is_panic (ETasks t)" "\<not> is_panic (EHolds h)"
  "\<not> is_panic (ECoord c)" "\<not> is_panic (ESwarm w)" "\<not> is_panic (EDispatch d)"
  "\<not> is_panic (EWorkspace v)" "\<not> is_panic (ERegistry r)" "\<not> is_panic (EOS o')"
  "\<not> is_panic (EInvalidPath p)" "\<not> is_panic EDecode" "\<not> is_panic (EMsg m)"
  by (simp_all add: is_panic_def)

section \<open>Fixed-width integers\<close>

text \<open>\<^verbatim>\<open>int\<close> is 64 bits wide: arithmetic wraps in two's complement. \<^verbatim>\<open>int32(x)\<close> keeps the low 32 bits.\<close>

definition go_int :: "int \<Rightarrow> int" where
  "go_int i = sint (word_of_int i :: 64 word)"

definition go_int32 :: "int \<Rightarrow> int" where
  "go_int32 i = sint (word_of_int i :: 32 word)"

lemma sint_word_of_int_small:
  assumes "- (2 ^ (LENGTH('a) - 1)) \<le> i" and "i < 2 ^ (LENGTH('a) - 1)"
  shows "sint (word_of_int i :: 'a::len word) = i"
  using assms by (simp add: sint_uint uint_word_of_int signed_take_bit_int_eq_self_iff
      signed_take_bit_take_bit min_def take_bit_eq_mod[symmetric] signed_take_bit_int_eq_self)

lemma go_int_id: "- (2 ^ 63) \<le> i \<Longrightarrow> i < 2 ^ 63 \<Longrightarrow> go_int i = i"
  unfolding go_int_def by (rule sint_word_of_int_small) simp_all

lemma go_int32_id: "- (2 ^ 31) \<le> i \<Longrightarrow> i < 2 ^ 31 \<Longrightarrow> go_int32 i = i"
  unfolding go_int32_def by (rule sint_word_of_int_small) simp_all

section \<open>strings\<close>

definition has_prefix :: "string \<Rightarrow> string \<Rightarrow> bool" where
  "has_prefix s p = (take (length p) s = p)"

text \<open>\<^verbatim>\<open>strings.TrimPrefix\<close>.\<close>

definition trim_prefix :: "string \<Rightarrow> string \<Rightarrow> string" where
  "trim_prefix s p = (if has_prefix s p then drop (length p) s else s)"

lemma has_prefix_iff: "has_prefix s p \<longleftrightarrow> (\<exists>r. s = p @ r)"
proof
  assume "has_prefix s p"
  then have "s = p @ drop (length p) s"
    unfolding has_prefix_def by (metis append_take_drop_id)
  then show "\<exists>r. s = p @ r" ..
qed (auto simp: has_prefix_def)

text \<open>\<^verbatim>\<open>strings.Split(s, c)\<close> for a one-byte separator, and \<^verbatim>\<open>strings.Join\<close>.\<close>

fun split_on :: "char \<Rightarrow> string \<Rightarrow> string list" where
  "split_on c [] = [[]]"
| "split_on c (x # xs) =
     (if x = c then [] # split_on c xs
      else case split_on c xs of [] \<Rightarrow> [[x]] | p # ps \<Rightarrow> (x # p) # ps)"

fun join_with :: "string \<Rightarrow> string list \<Rightarrow> string" where
  "join_with sep [] = []"
| "join_with sep [x] = x"
| "join_with sep (x # y # ys) = x @ sep @ join_with sep (y # ys)"

lemma split_on_nonempty [simp]: "split_on c s \<noteq> []"
  by (induction s) (auto split: list.splits)

lemma split_on_no_sep: "c \<notin> set s \<Longrightarrow> split_on c s = [s]"
  by (induction s) auto

lemma split_on_append_sep:
  "c \<notin> set p \<Longrightarrow> split_on c (p @ c # r) = p # split_on c r"
  by (induction p) auto

lemma split_on_join:
  assumes "xs \<noteq> []" and "\<forall>x\<in>set xs. c \<notin> set x"
  shows "split_on c (join_with [c] xs) = xs"
  using assms
proof (induction xs rule: induct_list012)
  case (3 x y zs)
  then show ?case by (simp add: split_on_append_sep)
qed (simp_all add: split_on_no_sep)

lemma join_with_append:
  "ps \<noteq> [] \<Longrightarrow> rs \<noteq> [] \<Longrightarrow> join_with sep (ps @ rs) = join_with sep ps @ sep @ join_with sep rs"
proof (induction ps rule: induct_list012)
  case (2 x)
  then show ?case by (cases rs) simp_all
qed simp_all

lemma join_split_on: "join_with [c] (split_on c s) = s"
proof (induction s)
  case (Cons x xs)
  obtain p ps where "split_on c xs = p # ps"
    by (meson neq_Nil_conv split_on_nonempty)
  with Cons show ?case by (cases ps) auto
qed simp

lemma split_on_parts: "p \<in> set (split_on c s) \<Longrightarrow> c \<notin> set p"
proof (induction s arbitrary: p)
  case (Cons x xs)
  then show ?case
    by (cases "split_on c xs") (auto split: if_splits)
qed simp

text \<open>\<^verbatim>\<open>strconv.Itoa\<close> for a natural number, and the test for a decimal digit.\<close>

definition digit_char :: "nat \<Rightarrow> char" where
  "digit_char d = char_of (48 + d)"

fun itoa :: "nat \<Rightarrow> string" where
  "itoa n = (if n < 10 then [digit_char n] else itoa (n div 10) @ [digit_char (n mod 10)])"

declare itoa.simps [simp del]

definition signed_itoa :: "int \<Rightarrow> string" where
  "signed_itoa i = (if i < 0 then ''-'' @ itoa (nat (- i)) else itoa (nat i))"

definition is_digit :: "char \<Rightarrow> bool" where
  "is_digit c = (48 \<le> (of_char c :: nat) \<and> (of_char c :: nat) \<le> 57)"

lemma of_char_digit [simp]: "d < 10 \<Longrightarrow> (of_char (digit_char d) :: nat) = 48 + d"
  by (simp add: digit_char_def)

lemma is_digit_char [simp]: "d < 10 \<Longrightarrow> is_digit (digit_char d)"
  by (simp add: is_digit_def)

lemma itoa_digits: "c \<in> set (itoa n) \<Longrightarrow> is_digit c"
proof (induction n rule: itoa.induct)
  case (1 n)
  then show ?case by (subst (asm) (2) itoa.simps) (auto split: if_splits)
qed

lemma itoa_nonempty [simp]: "itoa n \<noteq> []"
  by (simp add: itoa.simps [of n])

section \<open>sort.SliceStable\<close>

text \<open>
  \<^verbatim>\<open>sort.SliceStable(xs, less)\<close> keeps equal elements in their order. For a \<open>less\<close> that compares
  keys of a linear order the result is determined by that contract; the model inserts each
  element before the first one that is not less than it.
\<close>

fun insert_stable :: "('a \<Rightarrow> 'a \<Rightarrow> bool) \<Rightarrow> 'a \<Rightarrow> 'a list \<Rightarrow> 'a list" where
  "insert_stable lt x [] = [x]"
| "insert_stable lt x (y # ys) =
     (if lt y x then y # insert_stable lt x ys else x # y # ys)"

definition slice_stable :: "('a \<Rightarrow> 'a \<Rightarrow> bool) \<Rightarrow> 'a list \<Rightarrow> 'a list" where
  "slice_stable lt xs = foldr (insert_stable lt) xs []"

text \<open>
  The contract of a comparison function handed to \<^verbatim>\<open>sort.SliceStable\<close>: it orders by a key.
\<close>

locale keyed_less =
  fixes lt :: "'a \<Rightarrow> 'a \<Rightarrow> bool" and key :: "'a \<Rightarrow> 'k::linorder"
  assumes lt_key: "lt x y \<longleftrightarrow> key x < key y"
begin

lemma insert_stable_insort: "insert_stable lt x xs = insort_key key x xs"
  by (induction xs) (auto simp: lt_key not_le)

lemma slice_stable_sort_key: "slice_stable lt xs = sort_key key xs"
  unfolding slice_stable_def by (induction xs) (simp_all add: insert_stable_insort)

lemma slice_stable_set: "set (slice_stable lt xs) = set xs"
  by (simp add: slice_stable_sort_key)

lemma slice_stable_sorted: "sorted (map key (slice_stable lt xs))"
  by (simp add: slice_stable_sort_key)

lemma slice_stable_ties: "filter (\<lambda>y. key y = k) (slice_stable lt xs) = filter (\<lambda>y. key y = k) xs"
  unfolding slice_stable_sort_key by (rule sort_key_stable)

end

section \<open>Maps kept as association lists\<close>

text \<open>
  A Go map is an association list with distinct keys; \<open>map_of\<close> looks up, \<open>AList.update\<close> stores.
  Iteration order is unspecified in Go, so results the code reads off an iteration are stated
  up to order.
\<close>

lemma map_of_update [simp]: "map_of (AList.update k v m) = (map_of m)(k \<mapsto> v)"
  by (simp add: update_conv fun_eq_iff)

lemma distinct_update [simp]: "distinct (map fst m) \<Longrightarrow> distinct (map fst (AList.update k v m))"
  by (rule distinct_update)

lemma fst_set_update [simp]: "fst ` set (AList.update k v m) = insert k (fst ` set m)"
  by (metis dom_fun_upd option.discI dom_map_of_conv_image_fst map_of_update)

lemma update_empty_iff [simp]: "AList.update k v m = [] \<longleftrightarrow> False"
  by (cases m) auto

section \<open>Option and sum helpers\<close>

definition is_ok :: "'e + 'a \<Rightarrow> bool" where
  "is_ok r = (case r of Inl _ \<Rightarrow> False | Inr _ \<Rightarrow> True)"

lemma is_ok_simps [simp]: "\<not> is_ok (Inl e)" "is_ok (Inr x)"
  by (simp_all add: is_ok_def)

lemma is_ok_iff: "is_ok r \<longleftrightarrow> (\<exists>x. r = Inr x)"
  by (cases r) auto

end
