(* ===== verification/Go_Json.thy ===== *)
theory Go_Json
  imports Bones_Prelude
begin

text \<open>
  What the code uses of \<^verbatim>\<open>encoding/json\<close>. A stored value or a message body is the JSON document its
  bytes spell, a value of type \<open>json\<close>; \<open>JMalformed\<close> stands for bytes that are no JSON text, and
  \<open>JTime\<close> for a string in RFC 3339 form. The length of the text is not computed here: it is a
  parameter where the code reads it (the field \<open>js_Len\<close> of the substrate interface).

  \<^verbatim>\<open>json.Unmarshal(data, &v)\<close> stores into an existing \<open>v\<close>: \<open>null\<close> leaves a scalar alone and clears a
  pointer, slice or map, an object is merged into an existing map, a struct keeps the fields the
  document does not name. The functions \<open>into_*\<close> therefore take the old value. \<open>None\<close> is a non-nil
  error. Nil and empty slices (and maps) are identified, and a key is matched exactly as its tag
  spells it.
\<close>

datatype json =
    JNull
  | JBool bool
  | JNum int
  | JStr string
  | JTime time_ns
  | JArr "json list"
  | JObj "(string \<times> json) list"
  | JMalformed

section \<open>Unmarshalling into scalars, slices and maps\<close>

fun into_string :: "string \<Rightarrow> json \<Rightarrow> string option" where
  "into_string old JNull = Some old"
| "into_string old (JStr s) = Some s"
| "into_string old _ = None"

fun into_int :: "int \<Rightarrow> json \<Rightarrow> int option" where
  "into_int old JNull = Some old"
| "into_int old (JNum n) = Some n"
| "into_int old _ = None"

fun into_nat :: "nat \<Rightarrow> json \<Rightarrow> nat option" where
  "into_nat old JNull = Some old"
| "into_nat old (JNum n) = (if 0 \<le> n then Some (nat n) else None)"
| "into_nat old _ = None"

fun into_word :: "'w::len word \<Rightarrow> json \<Rightarrow> 'w word option" where
  "into_word old JNull = Some old"
| "into_word old (JNum n) = (if 0 \<le> n \<and> n < 2 ^ LENGTH('w) then Some (word_of_int n) else None)"
| "into_word old _ = None"

fun into_time :: "time_ns \<Rightarrow> json \<Rightarrow> time_ns option" where
  "into_time old JNull = Some old"
| "into_time old (JTime t) = Some t"
| "into_time old _ = None"

fun into_time_ptr :: "time_ns option \<Rightarrow> json \<Rightarrow> time_ns option option" where
  "into_time_ptr old JNull = Some None"
| "into_time_ptr old (JTime t) = Some (Some t)"
| "into_time_ptr old _ = None"

text \<open>Slice elements are decoded in place over the elements the slice already had.\<close>

fun into_elems :: "('a \<Rightarrow> json \<Rightarrow> 'a option) \<Rightarrow> 'a \<Rightarrow> 'a list \<Rightarrow> json list \<Rightarrow> 'a list option" where
  "into_elems f z olds [] = Some []"
| "into_elems f z olds (j # js) =
     (case f (case olds of [] \<Rightarrow> z | x # _ \<Rightarrow> x) j of
        None \<Rightarrow> None
      | Some x \<Rightarrow> map_option ((#) x) (into_elems f z (tl olds) js))"

fun into_slice :: "('a \<Rightarrow> json \<Rightarrow> 'a option) \<Rightarrow> 'a \<Rightarrow> 'a list \<Rightarrow> json \<Rightarrow> 'a list option" where
  "into_slice f z olds JNull = Some []"
| "into_slice f z olds (JArr js) = into_elems f z olds js"
| "into_slice f z olds _ = None"

type_synonym strmap = "(string \<times> string) list"

fun into_entries :: "strmap \<Rightarrow> (string \<times> json) list \<Rightarrow> strmap option" where
  "into_entries m [] = Some m"
| "into_entries m ((k, j) # kjs) =
     (case into_string [] j of
        None \<Rightarrow> None
      | Some v \<Rightarrow> into_entries (AList.update k v m) kjs)"

fun into_strmap :: "strmap \<Rightarrow> json \<Rightarrow> strmap option" where
  "into_strmap old JNull = Some []"
| "into_strmap old (JObj kjs) = into_entries old kjs"
| "into_strmap old _ = None"

text \<open>A struct: the document's members are stored one after the other by \<open>f\<close>, keyed by tag.\<close>

fun into_fields :: "(string \<Rightarrow> json \<Rightarrow> 'r \<Rightarrow> 'r option) \<Rightarrow> (string \<times> json) list \<Rightarrow> 'r \<Rightarrow> 'r option" where
  "into_fields f [] r = Some r"
| "into_fields f ((k, j) # kjs) r =
     (case f k j r of None \<Rightarrow> None | Some r' \<Rightarrow> into_fields f kjs r')"

fun into_struct :: "(string \<Rightarrow> json \<Rightarrow> 'r \<Rightarrow> 'r option) \<Rightarrow> 'r \<Rightarrow> json \<Rightarrow> 'r option" where
  "into_struct f r JNull = Some r"
| "into_struct f r (JObj kjs) = into_fields f kjs r"
| "into_struct f r _ = None"

section \<open>Marshalling\<close>

text \<open>A member with the option \<^verbatim>\<open>omitempty\<close> is left out at its zero value.\<close>

definition member :: "string \<Rightarrow> json \<Rightarrow> (string \<times> json) list" where
  "member k j = [(k, j)]"

definition member_omit :: "bool \<Rightarrow> string \<Rightarrow> json \<Rightarrow> (string \<times> json) list" where
  "member_omit z k j = (if z then [] else [(k, j)])"

definition json_word :: "'w::len word \<Rightarrow> json" where
  "json_word w = JNum (uint w)"

definition json_strings :: "string list \<Rightarrow> json" where
  "json_strings xs = JArr (map JStr xs)"

definition json_strmap :: "strmap \<Rightarrow> json" where
  "json_strmap m = JObj (map (\<lambda>(k, v). (k, JStr v)) m)"

fun json_time_ptr :: "time_ns option \<Rightarrow> json" where
  "json_time_ptr None = JNull"
| "json_time_ptr (Some t) = JTime t"

section \<open>Round trips\<close>

lemma into_word_json_word [simp]: "into_word old (json_word w) = Some w"
  by (simp add: json_word_def uint_bounded)

lemma into_nat_int [simp]: "into_nat old (JNum (int n)) = Some n"
  by simp

lemma into_time_ptr_json [simp]: "into_time_ptr old (json_time_ptr t) = Some t"
  by (cases t) auto

lemma into_elems_strings: "into_elems into_string z olds (map JStr xs) = Some xs"
  by (induction xs arbitrary: olds) auto

lemma into_slice_strings [simp]: "into_slice into_string z olds (json_strings xs) = Some xs"
  by (simp add: json_strings_def into_elems_strings)

lemma into_elems_map:
  "(\<And>x y. x \<in> set xs \<Longrightarrow> f y (g x) = Some x) \<Longrightarrow> into_elems f z olds (map g xs) = Some xs"
  by (induction xs arbitrary: olds) auto

text \<open>Decoding an object into a map overrides the old entries and keeps the others.\<close>

lemma map_of_into_entries:
  "into_entries m (map (\<lambda>(k, v). (k, JStr v)) n) = Some m' \<Longrightarrow>
   map_of m' = (map_of m)(map fst n [\<mapsto>] map snd n)"
  by (induction n arbitrary: m) (auto split: option.splits)

lemma into_entries_total: "\<exists>m'. into_entries m (map (\<lambda>(k, v). (k, JStr v)) n) = Some m'"
  by (induction n arbitrary: m) auto

lemma update_notin: "k \<notin> fst ` set m \<Longrightarrow> AList.update k v m = m @ [(k, v)]"
  by (induction m) auto

lemma into_entries_append:
  "distinct (map fst n) \<Longrightarrow> fst ` set m \<inter> fst ` set n = {} \<Longrightarrow>
   into_entries m (map (\<lambda>(k, v). (k, JStr v)) n) = Some (m @ n)"
proof (induction n arbitrary: m)
  case (Cons kv n)
  obtain k v where [simp]: "kv = (k, v)" by (cases kv)
  from Cons.prems have "k \<notin> fst ` set m" by auto
  then have "AList.update k v m = m @ [(k, v)]" by (rule update_notin)
  with Cons show ?case by force
qed simp

lemma into_strmap_json [simp]:
  "distinct (map fst m) \<Longrightarrow> into_strmap [] (json_strmap m) = Some m"
  by (simp add: json_strmap_def into_entries_append)

lemma into_fields_append:
  "into_fields f (xs @ ys) r = (case into_fields f xs r of None \<Rightarrow> None | Some r' \<Rightarrow> into_fields f ys r')"
  by (induction xs arbitrary: r) (auto split: option.splits)

lemma into_fields_inv:
  assumes "into_fields f kjs r = Some r'" and "P r" and "\<And>k j r r'. f k j r = Some r' \<Longrightarrow> P r \<Longrightarrow> P r'"
  shows "P r'"
  using assms(1,2)
proof (induction kjs arbitrary: r)
  case (Cons kj kjs)
  then show ?case
    using assms(3) by (cases kj) (auto split: option.splits)
qed simp

lemma into_fields_member:
  "f k j r = Some r' \<Longrightarrow> into_fields f (member k j @ ys) r = into_fields f ys r'"
  by (simp add: member_def)

lemma into_fields_member_omit:
  "f k j r = Some r' \<Longrightarrow> (z \<Longrightarrow> r' = r) \<Longrightarrow>
   into_fields f (member_omit z k j @ ys) r = into_fields f ys r'"
  by (simp add: member_omit_def)

lemma into_fields_member_last: "f k j r = Some r' \<Longrightarrow> into_fields f (member k j) r = Some r'"
  by (simp add: member_def)

lemma into_fields_member_omit_last:
  "f k j r = Some r' \<Longrightarrow> (z \<Longrightarrow> r' = r) \<Longrightarrow> into_fields f (member_omit z k j) r = Some r'"
  by (simp add: member_omit_def)

lemmas into_fields_simps =
  into_fields_member into_fields_member_omit into_fields_member_last into_fields_member_omit_last

text \<open>
  The contract of a wire format: what \<^verbatim>\<open>encode\<close> writes for a well-formed value, \<^verbatim>\<open>decode\<close> reads back.
\<close>

locale wire_format =
  fixes enc :: "'v \<Rightarrow> json" and dec :: "json \<Rightarrow> 'v option" and wf :: "'v \<Rightarrow> bool"
  assumes dec_enc: "wf v \<Longrightarrow> dec (enc v) = Some v"
begin

lemma enc_inj: "wf v \<Longrightarrow> wf w \<Longrightarrow> enc v = enc w \<Longrightarrow> v = w"
  by (metis dec_enc option.inject)

lemma dec_enc_eq: "wf v \<Longrightarrow> dec (enc v) = Some w \<Longrightarrow> w = v"
  by (simp add: dec_enc)

end

end
