(* ===== verification/JetStream.thy ===== *)
theory JetStream
  imports Go_Json
begin

text \<open>
  The substrate the program runs on. The NATS JetStream client (\<^verbatim>\<open>github.com/nats-io/nats.go/jetstream\<close>)
  is not part of the repository: its operations are the fields of the record \<open>sys\<close>, an argument of
  every definition that calls them, together with the wall clock and the length of a JSON text.
  Every call takes the state \<open>'s\<close> of the substrate and returns the state after the call, so other
  processes may act inside a call, before it takes effect.

  The locale \<open>jetstream\<close> collects the documented behaviour the code relies on: a read returns the
  latest entry of the key; \<^verbatim>\<open>Create\<close> succeeds only on a key without a live value; \<^verbatim>\<open>Update\<close> succeeds only
  against the latest revision; a revision identifies one entry of a key for ever; an append to the
  stream gets a fresh, greater sequence number; a transport error leaves open whether the
  write took place. \<open>rely\<close> is what other processes may do to the substrate between two steps.

  The second half is a substrate kept in memory, with a script of foreign writes, that satisfies
  the laws. It serves to evaluate the model and to show that the laws can hold.
\<close>

section \<open>The interface\<close>

datatype kv_op = KeyValuePut | KeyValueDelete | KeyValuePurge

record kv_entry =
  e_Value :: json
  e_Revision :: nat
  e_Operation :: kv_op

text \<open>Delivery policies of an ordered consumer, and what one \<^verbatim>\<open>Fetch\<close> returns.\<close>

datatype deliver_policy =
    DeliverAllPolicy
  | DeliverByStartSequencePolicy nat
  | DeliverByStartTimePolicy time_ns

record stream_msg =
  msg_Sequence :: nat
  msg_Subject :: string
  msg_Data :: json

datatype fetch_result = FetchErr kv_err | FetchBatch "stream_msg list" "kv_err option"

record 's sys =
  js_Get :: "'s \<Rightarrow> string \<Rightarrow> string \<Rightarrow> (kv_err + kv_entry) \<times> 's"
  js_Create :: "'s \<Rightarrow> string \<Rightarrow> string \<Rightarrow> json \<Rightarrow> (kv_err + nat) \<times> 's"
  js_Update :: "'s \<Rightarrow> string \<Rightarrow> string \<Rightarrow> json \<Rightarrow> nat \<Rightarrow> (kv_err + nat) \<times> 's"
  js_Put :: "'s \<Rightarrow> string \<Rightarrow> string \<Rightarrow> json \<Rightarrow> (kv_err + nat) \<times> 's"
  js_Delete :: "'s \<Rightarrow> string \<Rightarrow> string \<Rightarrow> nat option \<Rightarrow> (kv_err + unit) \<times> 's"
  js_Purge :: "'s \<Rightarrow> string \<Rightarrow> string \<Rightarrow> (kv_err + unit) \<times> 's"
  js_Keys :: "'s \<Rightarrow> string \<Rightarrow> (kv_err + string list) \<times> 's"
  js_Publish :: "'s \<Rightarrow> string \<Rightarrow> json \<Rightarrow> (kv_err + nat) \<times> 's"
  js_PurgeSubject :: "'s \<Rightarrow> string \<Rightarrow> nat \<Rightarrow> (kv_err + unit) \<times> 's"
  js_Consumer :: "'s \<Rightarrow> string \<Rightarrow> deliver_policy \<Rightarrow> (kv_err + fetch_result list) \<times> 's"
  js_Now :: "'s \<Rightarrow> time_ns"
  js_Len :: "json \<Rightarrow> nat"

section \<open>internal/jskv\<close>

definition MaxRetries :: nat where
  "MaxRetries = 8"

definition IsConflict :: "kv_err \<Rightarrow> bool" where
  "IsConflict e = (e = ErrKeyExists \<or> e = ErrWrongLastSequence)"

lemma IsConflict_simps [simp]:
  "IsConflict ErrKeyExists" "IsConflict ErrWrongLastSequence" "\<not> IsConflict ErrKeyNotFound"
  "\<not> IsConflict ErrNoKeysFound" "\<not> IsConflict (ErrTransport m)"
  by (simp_all add: IsConflict_def)

section \<open>Compare-and-swap loops\<close>

text \<open>
  The read-decide-write loops of \<^verbatim>\<open>tasks.update\<close> and \<^verbatim>\<open>holds.Announce\<close>: an attempt ends in a verdict
  (the pair \<open>(true, err)\<close> of the code) or in a conflict (\<open>(false, nil)\<close>), after which the loop tries
  again, \<open>n\<close> times in all. \<open>None\<close> is exhaustion.
\<close>

datatype 'a attempt = Verdict "err + 'a" | Conflict

fun retry :: "nat \<Rightarrow> ('s \<Rightarrow> 'a attempt \<times> 's) \<Rightarrow> 's \<Rightarrow> (err + 'a) option \<times> 's" where
  "retry 0 f s = (None, s)"
| "retry (Suc n) f s =
     (case f s of
        (Verdict r, s') \<Rightarrow> (Some r, s')
      | (Conflict, s') \<Rightarrow> retry n f s')"

lemma retry_verdict:
  assumes "retry n f s = (Some r, s')" and "P s"
    and "\<And>s1 s2. P s1 \<Longrightarrow> f s1 = (Conflict, s2) \<Longrightarrow> P s2"
  obtains s0 where "P s0" and "f s0 = (Verdict r, s')"
proof -
  have "\<exists>s0. P s0 \<and> f s0 = (Verdict r, s')"
    using assms(1,2)
  proof (induction n arbitrary: s)
    case (Suc n)
    then show ?case
      using assms(3) by (auto split: prod.splits attempt.splits)
  qed simp
  then show ?thesis using that by blast
qed

lemma retry_exhausted:
  assumes "retry n f s = (None, s')" and "P s"
    and "\<And>s1 s2. P s1 \<Longrightarrow> f s1 = (Conflict, s2) \<Longrightarrow> P s2"
  shows "P s'"
  using assms(1,2)
proof (induction n arbitrary: s)
  case (Suc n)
  then show ?case
    using assms(3) by (auto split: prod.splits attempt.splits)
qed simp

section \<open>Views and laws\<close>

type_synonym kv_view = "string \<Rightarrow> string \<Rightarrow> kv_entry option"

definition live :: "kv_entry option \<Rightarrow> bool" where
  "live e = (case e of None \<Rightarrow> False | Some x \<Rightarrow> e_Operation x = KeyValuePut)"

lemma live_simps [simp]:
  "\<not> live None" "live (Some x) \<longleftrightarrow> e_Operation x = KeyValuePut"
  by (simp_all add: live_def)

definition view_put :: "kv_view \<Rightarrow> string \<Rightarrow> string \<Rightarrow> kv_entry \<Rightarrow> kv_view" where
  "view_put v b k e = (\<lambda>b' k'. if b' = b \<and> k' = k then Some e else v b' k')"

lemma view_put_same [simp]: "view_put v b k e b k = Some e"
  by (simp add: view_put_def)

lemma view_put_other [simp]: "b' \<noteq> b \<or> k' \<noteq> k \<Longrightarrow> view_put v b k e b' k' = v b' k'"
  by (auto simp: view_put_def)

text \<open>A filter subject ending in \<^verbatim>\<open>.>\<close> matches every subject with one more token or several.\<close>

definition subject_matches :: "string \<Rightarrow> string \<Rightarrow> bool" where
  "subject_matches pat subj =
     (if length pat \<ge> 2 \<and> drop (length pat - 2) pat = ''.>''
      then has_prefix subj (butlast pat) \<and> length subj \<ge> length pat
      else subj = pat)"

fun batch_msgs :: "fetch_result list \<Rightarrow> stream_msg list" where
  "batch_msgs [] = []"
| "batch_msgs (FetchErr _ # fs) = batch_msgs fs"
| "batch_msgs (FetchBatch ms _ # fs) = ms @ batch_msgs fs"

definition put_entry :: "json \<Rightarrow> nat \<Rightarrow> kv_entry" where
  "put_entry j r = \<lparr>e_Value = j, e_Revision = r, e_Operation = KeyValuePut\<rparr>"

definition del_entry :: "kv_op \<Rightarrow> nat \<Rightarrow> kv_entry" where
  "del_entry oper r = \<lparr>e_Value = JNull, e_Revision = r, e_Operation = oper\<rparr>"

lemma del_entry_simps [simp]:
  "e_Revision (del_entry oper r) = r" "e_Operation (del_entry oper r) = oper"
  by (simp_all add: del_entry_def)

lemma put_entry_simps [simp]:
  "e_Value (put_entry j r) = j" "e_Revision (put_entry j r) = r"
  "e_Operation (put_entry j r) = KeyValuePut"
  by (simp_all add: put_entry_def)

text \<open>
  A substrate's observable part: what each bucket holds, the messages of the stream, and the last
  revision given out. \<open>wrote\<close>: between the two states exactly the entry \<open>e\<close> was stored at a key, under
  a fresh revision. \<open>later\<close>: whatever was stored meanwhile has a revision not seen before.
\<close>

record 's obs =
  o_view :: "'s \<Rightarrow> kv_view"
  o_strm :: "'s \<Rightarrow> stream_msg list"
  o_seqno :: "'s \<Rightarrow> nat"

definition wrote :: "'s obs \<Rightarrow> 's \<Rightarrow> 's \<Rightarrow> string \<Rightarrow> string \<Rightarrow> kv_entry \<Rightarrow> bool" where
  "wrote ob s1 s' b k e =
     (o_view ob s' = view_put (o_view ob s1) b k e \<and> o_strm ob s' = o_strm ob s1 \<and>
      o_seqno ob s1 < e_Revision e \<and> o_seqno ob s' = e_Revision e)"

definition later :: "'s obs \<Rightarrow> 's \<Rightarrow> 's \<Rightarrow> bool" where
  "later ob s s' =
     (o_seqno ob s \<le> o_seqno ob s' \<and>
      (\<forall>b k e. o_view ob s' b k = Some e \<longrightarrow> o_view ob s b k = Some e \<or> o_seqno ob s < e_Revision e))"

lemma later_refl [simp]: "later ob s s"
  by (simp add: later_def)

lemma later_trans [trans]: "later ob s s1 \<Longrightarrow> later ob s1 s2 \<Longrightarrow> later ob s s2"
  unfolding later_def by (meson le_trans le_less_trans)

lemma wrote_later: "wrote ob s s' b k e \<Longrightarrow> later ob s s'"
  by (auto simp: wrote_def later_def view_put_def)

locale jetstream =
  fixes js :: "'s sys" and ob :: "'s obs" and rely :: "'s \<Rightarrow> 's \<Rightarrow> bool"
  assumes rely_refl: "rely s s"
    and rely_trans: "rely s s1 \<Longrightarrow> rely s1 s2 \<Longrightarrow> rely s s2"
    and rely_later: "rely s s1 \<Longrightarrow> later ob s s1"
    and seqno_max: "o_view ob s b k = Some e \<Longrightarrow> e_Revision e \<le> o_seqno ob s"
    and get_ok: "js_Get js s b k = (Inr e, s') \<Longrightarrow> rely s s' \<and> o_view ob s' b k = Some e"
    and get_err: "js_Get js s b k = (Inl x, s') \<Longrightarrow>
      rely s s' \<and> (x = ErrKeyNotFound \<longrightarrow> \<not> live (o_view ob s' b k))"
    and create_ok: "js_Create js s b k j = (Inr r, s') \<Longrightarrow>
      \<exists>s1. rely s s1 \<and> \<not> live (o_view ob s1 b k) \<and> wrote ob s1 s' b k (put_entry j r)"
    and create_err: "js_Create js s b k j = (Inl x, s') \<Longrightarrow>
      rely s s' \<and> (x = ErrKeyExists \<longrightarrow> live (o_view ob s' b k)) \<or>
      (\<exists>m r s1. x = ErrTransport m \<and> rely s s1 \<and> \<not> live (o_view ob s1 b k) \<and>
         wrote ob s1 s' b k (put_entry j r))"
    and update_ok: "js_Update js s b k j rv = (Inr r, s') \<Longrightarrow>
      \<exists>s1 e. rely s s1 \<and> o_view ob s1 b k = Some e \<and> e_Revision e = rv \<and>
        wrote ob s1 s' b k (put_entry j r)"
    and update_err: "js_Update js s b k j rv = (Inl x, s') \<Longrightarrow>
      rely s s' \<or>
      (\<exists>m r s1 e. x = ErrTransport m \<and> rely s s1 \<and> o_view ob s1 b k = Some e \<and> e_Revision e = rv \<and>
         wrote ob s1 s' b k (put_entry j r))"
    and publish_ok: "js_Publish js s subj j = (Inr q, s') \<Longrightarrow>
      \<exists>s1. rely s s1 \<and> o_view ob s' = o_view ob s1 \<and> o_seqno ob s' = o_seqno ob s1 \<and>
        (\<forall>m \<in> set (o_strm ob s1). msg_Sequence m < q) \<and>
        o_strm ob s' = o_strm ob s1 @ [\<lparr>msg_Sequence = q, msg_Subject = subj, msg_Data = j\<rparr>]"
    and publish_err: "js_Publish js s subj j = (Inl x, s') \<Longrightarrow>
      \<exists>s1. rely s s1 \<and> o_view ob s' = o_view ob s1 \<and> o_seqno ob s' = o_seqno ob s1"
    and delete_ok: "js_Delete js s b k lr = (Inr u, s') \<Longrightarrow>
      \<exists>s1 r. rely s s1 \<and>
        (\<forall>rv. lr = Some rv \<longrightarrow> (\<exists>e. o_view ob s1 b k = Some e \<and> e_Revision e = rv)) \<and>
        wrote ob s1 s' b k (del_entry KeyValueDelete r)"
    and delete_err: "js_Delete js s b k lr = (Inl x, s') \<Longrightarrow>
      rely s s' \<or>
      (\<exists>m s1 r. x = ErrTransport m \<and> rely s s1 \<and>
        (\<forall>rv. lr = Some rv \<longrightarrow> (\<exists>e. o_view ob s1 b k = Some e \<and> e_Revision e = rv)) \<and>
        wrote ob s1 s' b k (del_entry KeyValueDelete r))"
    and purge_ok: "js_Purge js s b k = (Inr u, s') \<Longrightarrow>
      \<exists>s1 r. rely s s1 \<and> wrote ob s1 s' b k (del_entry KeyValuePurge r)"
    and purge_err: "js_Purge js s b k = (Inl x, s') \<Longrightarrow>
      rely s s' \<or>
      (\<exists>m s1 r. x = ErrTransport m \<and> rely s s1 \<and> wrote ob s1 s' b k (del_entry KeyValuePurge r))"
    and put_ok: "js_Put js s b k j = (Inr r, s') \<Longrightarrow>
      \<exists>s1. rely s s1 \<and> wrote ob s1 s' b k (put_entry j r)"
    and put_err: "js_Put js s b k j = (Inl x, s') \<Longrightarrow>
      rely s s' \<or> (\<exists>m r s1. x = ErrTransport m \<and> rely s s1 \<and> wrote ob s1 s' b k (put_entry j r))"
    and purge_subject: "js_PurgeSubject js s subj keep = (y, s') \<Longrightarrow>
      \<exists>s1. rely s s1 \<and> o_view ob s' = o_view ob s1 \<and> o_seqno ob s' = o_seqno ob s1 \<and>
        set (o_strm ob s') \<subseteq> set (o_strm ob s1) \<and>
        (\<forall>x \<in> set (o_strm ob s1). msg_Subject x \<noteq> subj \<longrightarrow> x \<in> set (o_strm ob s'))"
    and keys_ok: "js_Keys js s b = (Inr ks, s') \<Longrightarrow>
      rely s s' \<and> distinct ks \<and> set ks = {k. live (o_view ob s' b k)}"
    and keys_err: "js_Keys js s b = (Inl x, s') \<Longrightarrow>
      rely s s' \<and> (x = ErrNoKeysFound \<longrightarrow> (\<forall>k. \<not> live (o_view ob s' b k)))"
    and consumer_ok: "js_Consumer js s subj pol = (Inr fs, s') \<Longrightarrow>
      rely s s' \<and> set (batch_msgs fs) \<subseteq> {m \<in> set (o_strm ob s'). subject_matches subj (msg_Subject m)}"
    and consumer_err: "js_Consumer js s subj pol = (Inl x, s') \<Longrightarrow> rely s s'"
begin

text \<open>A revision seen once still names the same entry if it is the latest one later.\<close>

lemma same_revision:
  assumes "later ob s s'" and "o_view ob s b k = Some e" and "o_view ob s' b k = Some e'"
    and "e_Revision e' = e_Revision e"
  shows "e' = e"
proof -
  have "\<not> o_seqno ob s < e_Revision e'"
    using seqno_max [OF assms(2)] assms(4) by simp
  with assms(1,3) have "o_view ob s b k = Some e'"
    by (auto simp: later_def)
  with assms(2) show ?thesis by simp
qed

end

section \<open>A substrate in memory\<close>

text \<open>
  The write log of all buckets, newest write first: a write's revision is its position in the log.
  The stream keeps a slot per published message, empty once purged: a message's sequence number is
  its position. \<open>mem_script\<close> holds what other processes do: before each call its first action is taken.
\<close>

datatype env_action = EnvIdle | EnvPut string string json | EnvTick duration

type_synonym kv_log = "((string \<times> string) \<times> kv_op \<times> json) list"

record mem =
  mem_log :: kv_log
  mem_stream :: "(string \<times> json) option list"
  mem_now :: time_ns
  mem_script :: "env_action list"

fun log_view :: "kv_log \<Rightarrow> string \<times> string \<Rightarrow> kv_entry option" where
  "log_view [] bk = None"
| "log_view ((bk', oper, j) # l) bk =
     (if bk' = bk then Some \<lparr>e_Value = j, e_Revision = Suc (length l), e_Operation = oper\<rparr>
      else log_view l bk)"

fun number_msgs :: "nat \<Rightarrow> (string \<times> json) option list \<Rightarrow> stream_msg list" where
  "number_msgs n [] = []"
| "number_msgs n (None # l) = number_msgs (Suc n) l"
| "number_msgs n (Some (subj, j) # l) =
     \<lparr>msg_Sequence = Suc n, msg_Subject = subj, msg_Data = j\<rparr> # number_msgs (Suc n) l"

definition mem_view :: "mem \<Rightarrow> kv_view" where
  "mem_view s b k = log_view (mem_log s) (b, k)"

definition mem_strm :: "mem \<Rightarrow> stream_msg list" where
  "mem_strm s = number_msgs 0 (mem_stream s)"

definition mem_write :: "mem \<Rightarrow> string \<Rightarrow> string \<Rightarrow> kv_op \<Rightarrow> json \<Rightarrow> mem" where
  "mem_write s b k oper j = s\<lparr>mem_log := ((b, k), oper, j) # mem_log s\<rparr>"

definition mem_rev :: "mem \<Rightarrow> nat" where
  "mem_rev s = length (mem_log s)"

fun mem_act :: "env_action \<Rightarrow> mem \<Rightarrow> mem" where
  "mem_act EnvIdle s = s"
| "mem_act (EnvPut b k j) s = mem_write s b k KeyValuePut j"
| "mem_act (EnvTick d) s = s\<lparr>mem_now := mem_now s + d\<rparr>"

text \<open>Other processes obey the guarantee \<open>G\<close>: what they store under a key satisfies it.\<close>

type_synonym guarantee = "string \<Rightarrow> string \<Rightarrow> json \<Rightarrow> bool"

fun allowed :: "guarantee \<Rightarrow> env_action \<Rightarrow> bool" where
  "allowed G (EnvPut b k j) = G b k j"
| "allowed G _ = True"

definition mem_env :: "guarantee \<Rightarrow> mem \<Rightarrow> mem" where
  "mem_env G s =
     (case mem_script s of
        [] \<Rightarrow> s
      | a # as \<Rightarrow> let s' = s\<lparr>mem_script := as\<rparr> in if allowed G a then mem_act a s' else s')"

definition mem_get :: "guarantee \<Rightarrow> mem \<Rightarrow> string \<Rightarrow> string \<Rightarrow> (kv_err + kv_entry) \<times> mem" where
  "mem_get G s0 b k =
     (let s = mem_env G s0 in
      case mem_view s b k of
        Some e \<Rightarrow> if e_Operation e = KeyValuePut then (Inr e, s) else (Inl ErrKeyNotFound, s)
      | None \<Rightarrow> (Inl ErrKeyNotFound, s))"

definition mem_create :: "guarantee \<Rightarrow> mem \<Rightarrow> string \<Rightarrow> string \<Rightarrow> json \<Rightarrow> (kv_err + nat) \<times> mem" where
  "mem_create G s0 b k j =
     (let s = mem_env G s0 in
      if live (mem_view s b k) then (Inl ErrKeyExists, s)
      else (Inr (Suc (mem_rev s)), mem_write s b k KeyValuePut j))"

definition mem_update :: "guarantee \<Rightarrow> mem \<Rightarrow> string \<Rightarrow> string \<Rightarrow> json \<Rightarrow> nat \<Rightarrow> (kv_err + nat) \<times> mem" where
  "mem_update G s0 b k j rv =
     (let s = mem_env G s0 in
      case mem_view s b k of
        None \<Rightarrow> (Inl ErrWrongLastSequence, s)
      | Some e \<Rightarrow>
          if e_Revision e = rv then (Inr (Suc (mem_rev s)), mem_write s b k KeyValuePut j)
          else (Inl ErrWrongLastSequence, s))"

definition mem_put :: "guarantee \<Rightarrow> mem \<Rightarrow> string \<Rightarrow> string \<Rightarrow> json \<Rightarrow> (kv_err + nat) \<times> mem" where
  "mem_put G s0 b k j =
     (let s = mem_env G s0 in (Inr (Suc (mem_rev s)), mem_write s b k KeyValuePut j))"

definition mem_delete :: "guarantee \<Rightarrow> mem \<Rightarrow> string \<Rightarrow> string \<Rightarrow> nat option \<Rightarrow> (kv_err + unit) \<times> mem" where
  "mem_delete G s0 b k lr =
     (let s = mem_env G s0 in
      case lr of
        None \<Rightarrow> (Inr (), mem_write s b k KeyValueDelete JNull)
      | Some rv \<Rightarrow>
          (case mem_view s b k of
             None \<Rightarrow> (Inl ErrWrongLastSequence, s)
           | Some e \<Rightarrow>
               if e_Revision e = rv then (Inr (), mem_write s b k KeyValueDelete JNull)
               else (Inl ErrWrongLastSequence, s)))"

definition mem_purge :: "guarantee \<Rightarrow> mem \<Rightarrow> string \<Rightarrow> string \<Rightarrow> (kv_err + unit) \<times> mem" where
  "mem_purge G s0 b k = (let s = mem_env G s0 in (Inr (), mem_write s b k KeyValuePurge JNull))"

definition mem_keys :: "guarantee \<Rightarrow> mem \<Rightarrow> string \<Rightarrow> (kv_err + string list) \<times> mem" where
  "mem_keys G s0 b =
     (let s = mem_env G s0;
          ks = filter (\<lambda>k. live (mem_view s b k)) (remdups (map (snd \<circ> fst) (mem_log s)))
      in if ks = [] then (Inl ErrNoKeysFound, s) else (Inr ks, s))"

definition mem_publish :: "guarantee \<Rightarrow> mem \<Rightarrow> string \<Rightarrow> json \<Rightarrow> (kv_err + nat) \<times> mem" where
  "mem_publish G s0 subj j =
     (let s = mem_env G s0 in
      (Inr (Suc (length (mem_stream s))), s\<lparr>mem_stream := mem_stream s @ [Some (subj, j)]\<rparr>))"

fun purge_slots :: "string \<Rightarrow> nat \<Rightarrow> (string \<times> json) option list \<Rightarrow> (string \<times> json) option list" where
  "purge_slots subj n [] = []"
| "purge_slots subj n (x # xs) =
     (case (n, x) of
        (Suc m, Some (sj, j)) \<Rightarrow>
          if sj = subj then None # purge_slots subj m xs else x # purge_slots subj n xs
      | _ \<Rightarrow> x # purge_slots subj n xs)"

definition mem_purge_subject :: "guarantee \<Rightarrow> mem \<Rightarrow> string \<Rightarrow> nat \<Rightarrow> (kv_err + unit) \<times> mem" where
  "mem_purge_subject G s0 subj keep =
     (let s = mem_env G s0;
          n = length (filter (\<lambda>m. msg_Subject m = subj) (mem_strm s))
      in (Inr (), s\<lparr>mem_stream := purge_slots subj (n - keep) (mem_stream s)\<rparr>))"

definition mem_consumer :: "guarantee \<Rightarrow> mem \<Rightarrow> string \<Rightarrow> deliver_policy \<Rightarrow> (kv_err + fetch_result list) \<times> mem" where
  "mem_consumer G s0 subj pol =
     (let s = mem_env G s0;
          ms = filter (\<lambda>m. subject_matches subj (msg_Subject m)) (mem_strm s);
          ms' = (case pol of DeliverByStartSequencePolicy q \<Rightarrow> filter (\<lambda>m. q \<le> msg_Sequence m) ms | _ \<Rightarrow> ms)
      in (Inr [FetchBatch ms' None, FetchBatch [] None], s))"

definition mem_sys :: "guarantee \<Rightarrow> mem sys" where
  "mem_sys G =
     \<lparr>js_Get = mem_get G, js_Create = mem_create G, js_Update = mem_update G, js_Put = mem_put G,
      js_Delete = mem_delete G, js_Purge = mem_purge G, js_Keys = mem_keys G, js_Publish = mem_publish G,
      js_PurgeSubject = mem_purge_subject G, js_Consumer = mem_consumer G, js_Now = mem_now,
      js_Len = size\<rparr>"

definition mem_empty :: "time_ns \<Rightarrow> env_action list \<Rightarrow> mem" where
  "mem_empty t script = \<lparr>mem_log = [], mem_stream = [], mem_now = t, mem_script = script\<rparr>"

text \<open>What other processes may do: append writes that satisfy the guarantee (and publish, and let time pass).\<close>

definition mem_rely :: "guarantee \<Rightarrow> mem \<Rightarrow> mem \<Rightarrow> bool" where
  "mem_rely G s s' =
     (\<exists>l. mem_log s' = l @ mem_log s \<and> (\<forall>((b, k), oper, j) \<in> set l. oper = KeyValuePut \<and> G b k j))"

definition mem_obs :: "mem obs" where
  "mem_obs = \<lparr>o_view = mem_view, o_strm = mem_strm, o_seqno = mem_rev\<rparr>"

lemma mem_obs_simps [simp]:
  "o_view mem_obs = mem_view" "o_strm mem_obs = mem_strm" "o_seqno mem_obs = mem_rev"
  by (simp_all add: mem_obs_def)

lemmas mem_ops =
  mem_get_def mem_create_def mem_update_def mem_put_def mem_delete_def mem_purge_def mem_keys_def
  mem_publish_def mem_purge_subject_def mem_consumer_def

lemma mem_sys_simps [simp]:
  "js_Get (mem_sys G) = mem_get G" "js_Create (mem_sys G) = mem_create G" "js_Update (mem_sys G) = mem_update G"
  "js_Put (mem_sys G) = mem_put G" "js_Delete (mem_sys G) = mem_delete G" "js_Purge (mem_sys G) = mem_purge G"
  "js_Keys (mem_sys G) = mem_keys G" "js_Publish (mem_sys G) = mem_publish G"
  "js_PurgeSubject (mem_sys G) = mem_purge_subject G" "js_Consumer (mem_sys G) = mem_consumer G"
  "js_Now (mem_sys G) = mem_now" "js_Len (mem_sys G) = size"
  by (simp_all add: mem_sys_def)

lemma log_view_rev_le: "log_view l bk = Some e \<Longrightarrow> e_Revision e \<le> length l"
  by (induction l bk rule: log_view.induct) (auto split: if_splits)

lemma log_view_old:
  "log_view (l' @ l) bk = Some e \<Longrightarrow> e_Revision e \<le> length l \<Longrightarrow> log_view l bk = Some e"
proof (induction l')
  case (Cons x l')
  obtain bk' oper j where "x = (bk', oper, j)" by (cases x)
  with Cons show ?case by (auto split: if_splits)
qed simp

lemma log_view_key: "log_view l (b, k) = Some e \<Longrightarrow> k \<in> (snd \<circ> fst) ` set l"
  by (induction l "(b, k)" rule: log_view.induct) (auto split: if_splits)

lemma mem_rely_env: "mem_rely G s (mem_env G s)"
proof (cases "mem_script s")
  case (Cons a as)
  then show ?thesis by (cases a) (auto simp: mem_rely_def mem_env_def mem_write_def Let_def)
qed (simp add: mem_rely_def mem_env_def)

lemma mem_view_write:
  "mem_view (mem_write s b k oper j) =
     view_put (mem_view s) b k \<lparr>e_Value = j, e_Revision = Suc (mem_rev s), e_Operation = oper\<rparr>"
  by (auto simp: mem_view_def mem_write_def view_put_def mem_rev_def fun_eq_iff)

lemma mem_strm_write [simp]: "mem_strm (mem_write s b k oper j) = mem_strm s"
  by (simp add: mem_strm_def mem_write_def)

lemma number_msgs_append:
  "number_msgs n (xs @ [Some (subj, j)]) =
     number_msgs n xs @ [\<lparr>msg_Sequence = Suc (n + length xs), msg_Subject = subj, msg_Data = j\<rparr>]"
  by (induction n xs rule: number_msgs.induct) auto

lemma number_msgs_seq: "m \<in> set (number_msgs n xs) \<Longrightarrow> msg_Sequence m \<le> n + length xs"
  by (induction n xs rule: number_msgs.induct) auto

lemma mem_wrote:
  "wrote mem_obs s (mem_write s b k oper j) b k
     \<lparr>e_Value = j, e_Revision = Suc (mem_rev s), e_Operation = oper\<rparr>"
  by (simp add: wrote_def mem_view_write) (simp add: mem_rev_def mem_write_def)

lemmas mem_wrote_put = mem_wrote [where oper = KeyValuePut, folded put_entry_def]
lemmas mem_wrote_del = mem_wrote [where oper = KeyValueDelete and j = JNull, folded del_entry_def]
lemmas mem_wrote_purge = mem_wrote [where oper = KeyValuePurge and j = JNull, folded del_entry_def]

lemma mem_live_env: "mem_get G s b k = (Inl x, s') \<Longrightarrow> s' = mem_env G s \<and> \<not> live (mem_view s' b k)"
  by (auto simp: mem_get_def Let_def split: option.splits if_splits)

lemma mem_rely_later: "mem_rely G s s' \<Longrightarrow> later mem_obs s s'"
  using log_view_old [of _ "mem_log s"]
  by (fastforce simp: mem_rely_def later_def mem_view_def mem_rev_def not_less)

lemma mem_publish_strm:
  assumes "mem_publish G s subj j = (r, s')"
  shows "\<exists>q. r = Inr q \<and> mem_view s' = mem_view (mem_env G s) \<and> mem_rev s' = mem_rev (mem_env G s) \<and>
    (\<forall>m \<in> set (mem_strm (mem_env G s)). msg_Sequence m < q) \<and>
    mem_strm s' = mem_strm (mem_env G s) @ [\<lparr>msg_Sequence = q, msg_Subject = subj, msg_Data = j\<rparr>]"
  using assms number_msgs_seq [of _ 0 "mem_stream (mem_env G s)"]
  by (auto simp: mem_publish_def Let_def mem_view_def mem_rev_def mem_strm_def number_msgs_append
      less_Suc_eq_le fun_eq_iff)

lemma mem_keys_live:
  assumes "mem_keys G s b = (r, s')"
  shows "s' = mem_env G s"
    and "r = Inr ks \<Longrightarrow> distinct ks \<and> set ks = {k. live (mem_view s' b k)}"
    and "r = Inl x \<Longrightarrow> \<not> live (mem_view s' b k)"
  using assms log_view_key [of "mem_log (mem_env G s)" b]
  by (auto simp: mem_keys_def Let_def mem_view_def live_def filter_empty_conv
      split: if_splits option.splits) blast

lemma purge_slots_msgs:
  "set (number_msgs n (purge_slots subj k xs)) \<subseteq> set (number_msgs n xs)"
  "x \<in> set (number_msgs n xs) \<Longrightarrow> msg_Subject x \<noteq> subj \<Longrightarrow> x \<in> set (number_msgs n (purge_slots subj k xs))"
  by (induction n xs arbitrary: k rule: number_msgs.induct) (auto split: nat.splits)

lemma mem_purge_subject_strm:
  assumes "mem_purge_subject G s subj keep = (y, s')"
  shows "o_view mem_obs s' = o_view mem_obs (mem_env G s) \<and> o_seqno mem_obs s' = o_seqno mem_obs (mem_env G s) \<and>
    set (o_strm mem_obs s') \<subseteq> set (o_strm mem_obs (mem_env G s)) \<and>
    (\<forall>x \<in> set (o_strm mem_obs (mem_env G s)). msg_Subject x \<noteq> subj \<longrightarrow> x \<in> set (o_strm mem_obs s'))"
proof -
  from assms obtain k where s': "s' = (mem_env G s)\<lparr>mem_stream := purge_slots subj k (mem_stream (mem_env G s))\<rparr>"
    by (auto simp: mem_purge_subject_def Let_def)
  show ?thesis
    unfolding s' using purge_slots_msgs(1) [of 0 subj k "mem_stream (mem_env G s)"]
      purge_slots_msgs(2) [of _ 0 "mem_stream (mem_env G s)" subj k]
    by (auto simp: mem_view_def mem_rev_def mem_strm_def fun_eq_iff)
qed

interpretation mem: jetstream "mem_sys G" mem_obs "mem_rely G" for G
proof (unfold_locales, goal_cases)
  case (3 s s1) then show ?case by (rule mem_rely_later)
next
  case (4 s b k e) then show ?case
    using log_view_rev_le by (simp add: mem_view_def mem_rev_def)
next
  case (6 s b k x s') then show ?case using mem_rely_env [of G s] mem_live_env [of G s b k x s'] by auto
next
  case (7 s b k j r s') then show ?case
    using mem_rely_env [of G s] mem_wrote_put [of "mem_env G s" b k j]
    by (auto simp: mem_create_def Let_def split: if_splits)
next
  case (9 s b k j rv r s') then show ?case
    using mem_rely_env [of G s] mem_wrote_put [of "mem_env G s" b k j]
    by (auto simp: mem_update_def Let_def split: if_splits option.splits)
next
  case (11 s subj j q s') then show ?case using mem_rely_env [of G s] mem_publish_strm [of G s subj j] by auto
next
  case (13 s b k lr u s') then show ?case
    using mem_rely_env [of G s] mem_wrote_del [of "mem_env G s" b k]
    by (auto simp: mem_delete_def Let_def split: option.splits if_splits)
next
  case (15 s b k u s') then show ?case
    using mem_rely_env [of G s] mem_wrote_purge [of "mem_env G s" b k] by (auto simp: mem_purge_def Let_def)
next
  case (17 s b k j r s') then show ?case
    using mem_rely_env [of G s] mem_wrote_put [of "mem_env G s" b k j] by (auto simp: mem_put_def Let_def)
next
  case (19 s subj keep y s') then show ?case
    using mem_rely_env [of G s] mem_purge_subject_strm [of G s subj keep y s'] by (metis mem_sys_simps(9))
next
  case (20 s b ks s') then show ?case
    using mem_rely_env [of G s] mem_keys_live(1,2) [of G s b] by auto
next
  case (21 s b x s') then show ?case
    using mem_rely_env [of G s] mem_keys_live(1,3) [of G s b] by auto
qed (use mem_rely_env mem_publish_strm in \<open>auto simp: mem_rely_def mem_ops Let_def
  split: option.splits if_splits deliver_policy.splits\<close>)

section \<open>Undisturbed calls\<close>

text \<open>With an empty script no other process acts.\<close>

definition quiet :: "mem \<Rightarrow> bool" where
  "quiet s = (mem_script s = [])"

lemma quiet_env [simp]: "quiet s \<Longrightarrow> mem_env G s = s"
  by (simp add: quiet_def mem_env_def)

lemma quiet_write [simp]: "quiet (mem_write s b k oper j) = quiet s"
  by (simp add: quiet_def mem_write_def)

lemma mem_get_quiet:
  "quiet s \<Longrightarrow> mem_view s b k = Some e \<Longrightarrow> e_Operation e = KeyValuePut \<Longrightarrow> mem_get G s b k = (Inr e, s)"
  by (simp add: mem_get_def)

lemma mem_update_quiet:
  "quiet s \<Longrightarrow> mem_view s b k = Some e \<Longrightarrow>
   mem_update G s b k j (e_Revision e) = (Inr (Suc (mem_rev s)), mem_write s b k KeyValuePut j)"
  by (simp add: mem_update_def)

lemma mem_create_quiet:
  "quiet s \<Longrightarrow> \<not> live (mem_view s b k) \<Longrightarrow>
   mem_create G s b k j = (Inr (Suc (mem_rev s)), mem_write s b k KeyValuePut j)"
  by (simp add: mem_create_def)

end
