(* ===== verification/Task_Model.thy ===== *)
theory Task_Model
  imports Go_Json
begin

text \<open>
  The task record (\<^verbatim>\<open>internal/tasks/task.go\<close>): its fields, its JSON form, the comparison that guards
  closed records, and the checks every write passes (\<open>validateForCreate\<close>, \<open>validateTransition\<close> of
  \<^verbatim>\<open>internal/tasks/tasks.go\<close>). The lemmas show the wire format round trip, which records the checks
  admit, and that a closed record admits nothing but compaction metadata.
\<close>

section \<open>Status and edges\<close>

definition SchemaVersion :: int where
  "SchemaVersion = 4"

type_synonym Status = string

definition StatusOpen :: Status where "StatusOpen = ''open''"
definition StatusClaimed :: Status where "StatusClaimed = ''claimed''"
definition StatusClosed :: Status where "StatusClosed = ''closed''"

lemmas status_defs [go_defs] = StatusOpen_def StatusClaimed_def StatusClosed_def

lemma status_distinct [simp]:
  "StatusOpen \<noteq> StatusClaimed" "StatusClaimed \<noteq> StatusOpen"
  "StatusOpen \<noteq> StatusClosed" "StatusClosed \<noteq> StatusOpen"
  "StatusClaimed \<noteq> StatusClosed" "StatusClosed \<noteq> StatusClaimed"
  "StatusOpen \<noteq> []" "StatusClaimed \<noteq> []" "StatusClosed \<noteq> []"
  by (simp_all add: status_defs)

definition validStatus :: "Status \<Rightarrow> bool" where
  "validStatus s = (s = StatusOpen \<or> s = StatusClaimed \<or> s = StatusClosed)"

type_synonym EdgeType = string

definition EdgeBlocks :: EdgeType where "EdgeBlocks = ''blocks''"
definition EdgeDiscoveredFrom :: EdgeType where "EdgeDiscoveredFrom = ''discovered-from''"
definition EdgeSupersedes :: EdgeType where "EdgeSupersedes = ''supersedes''"
definition EdgeDuplicates :: EdgeType where "EdgeDuplicates = ''duplicates''"

lemmas edge_defs [go_defs] =
  EdgeBlocks_def EdgeDiscoveredFrom_def EdgeSupersedes_def EdgeDuplicates_def

lemma edge_distinct [simp]:
  "EdgeBlocks \<noteq> EdgeSupersedes" "EdgeSupersedes \<noteq> EdgeBlocks"
  "EdgeBlocks \<noteq> EdgeDuplicates" "EdgeDuplicates \<noteq> EdgeBlocks"
  "EdgeSupersedes \<noteq> EdgeDuplicates" "EdgeDuplicates \<noteq> EdgeSupersedes"
  "EdgeDiscoveredFrom \<noteq> EdgeBlocks" "EdgeDiscoveredFrom \<noteq> EdgeSupersedes"
  "EdgeDiscoveredFrom \<noteq> EdgeDuplicates"
  by (simp_all add: edge_defs)

record Edge =
  edge_Type :: EdgeType
  edge_Target :: string

section \<open>The record\<close>

record Task =
  t_ID :: string
  t_Title :: string
  t_Status :: Status
  t_ClaimedBy :: string
  t_Files :: "string list"
  t_Parent :: string
  t_Edges :: "Edge list"
  t_Context :: strmap
  t_CreatedAt :: time_ns
  t_UpdatedAt :: time_ns
  t_DeferUntil :: "time_ns option"
  t_ClosedAt :: "time_ns option"
  t_ClosedBy :: string
  t_ClosedReason :: string
  t_ClaimEpoch :: "64 word"
  t_OriginalSize :: "64 word"
  t_CompactLevel :: "8 word"
  t_CompactedAt :: "time_ns option"
  t_SchemaVersion :: int
  t_LastEventSeq :: nat

text \<open>The zero value \<^verbatim>\<open>Task{}\<close>.\<close>

definition zero_Task :: Task where
  "zero_Task =
     \<lparr>t_ID = [], t_Title = [], t_Status = [], t_ClaimedBy = [], t_Files = [], t_Parent = [],
      t_Edges = [], t_Context = [], t_CreatedAt = zero_time, t_UpdatedAt = zero_time,
      t_DeferUntil = None, t_ClosedAt = None, t_ClosedBy = [], t_ClosedReason = [],
      t_ClaimEpoch = 0, t_OriginalSize = 0, t_CompactLevel = 0, t_CompactedAt = None,
      t_SchemaVersion = 0, t_LastEventSeq = 0\<rparr>"

section \<open>JSON form\<close>

definition json_edge :: "Edge \<Rightarrow> json" where
  "json_edge e = JObj [(''type'', JStr (edge_Type e)), (''target'', JStr (edge_Target e))]"

definition edge_field :: "string \<Rightarrow> json \<Rightarrow> Edge \<Rightarrow> Edge option" where
  "edge_field k j e =
     (if k = ''type'' then map_option (\<lambda>x. e\<lparr>edge_Type := x\<rparr>) (into_string (edge_Type e) j)
      else if k = ''target'' then map_option (\<lambda>x. e\<lparr>edge_Target := x\<rparr>) (into_string (edge_Target e) j)
      else Some e)"

definition zero_Edge :: Edge where
  "zero_Edge = \<lparr>edge_Type = [], edge_Target = []\<rparr>"

definition into_edges :: "Edge list \<Rightarrow> json \<Rightarrow> Edge list option" where
  "into_edges olds j = into_slice (into_struct edge_field) zero_Edge olds j"

definition encode :: "Task \<Rightarrow> json" where
  "encode t = JObj
    (member ''id'' (JStr (t_ID t)) @
     member ''title'' (JStr (t_Title t)) @
     member ''status'' (JStr (t_Status t)) @
     member_omit (t_ClaimedBy t = []) ''claimed_by'' (JStr (t_ClaimedBy t)) @
     member ''files'' (json_strings (t_Files t)) @
     member_omit (t_Parent t = []) ''parent'' (JStr (t_Parent t)) @
     member_omit (t_Edges t = []) ''edges'' (JArr (map json_edge (t_Edges t))) @
     member_omit (t_Context t = []) ''context'' (json_strmap (t_Context t)) @
     member ''created_at'' (JTime (t_CreatedAt t)) @
     member ''updated_at'' (JTime (t_UpdatedAt t)) @
     member_omit (t_DeferUntil t = None) ''defer_until'' (json_time_ptr (t_DeferUntil t)) @
     member_omit (t_ClosedAt t = None) ''closed_at'' (json_time_ptr (t_ClosedAt t)) @
     member_omit (t_ClosedBy t = []) ''closed_by'' (JStr (t_ClosedBy t)) @
     member_omit (t_ClosedReason t = []) ''closed_reason'' (JStr (t_ClosedReason t)) @
     member_omit (t_ClaimEpoch t = 0) ''claim_epoch'' (json_word (t_ClaimEpoch t)) @
     member_omit (t_OriginalSize t = 0) ''original_size'' (json_word (t_OriginalSize t)) @
     member_omit (t_CompactLevel t = 0) ''compact_level'' (json_word (t_CompactLevel t)) @
     member_omit (t_CompactedAt t = None) ''compacted_at'' (json_time_ptr (t_CompactedAt t)) @
     member ''schema_version'' (JNum (t_SchemaVersion t)) @
     member_omit (t_LastEventSeq t = 0) ''last_event_seq'' (JNum (int (t_LastEventSeq t))))"

definition task_field :: "string \<Rightarrow> json \<Rightarrow> Task \<Rightarrow> Task option" where
  "task_field k j t =
     (if k = ''id'' then map_option (\<lambda>x. t\<lparr>t_ID := x\<rparr>) (into_string (t_ID t) j)
      else if k = ''title'' then map_option (\<lambda>x. t\<lparr>t_Title := x\<rparr>) (into_string (t_Title t) j)
      else if k = ''status'' then map_option (\<lambda>x. t\<lparr>t_Status := x\<rparr>) (into_string (t_Status t) j)
      else if k = ''claimed_by'' then map_option (\<lambda>x. t\<lparr>t_ClaimedBy := x\<rparr>) (into_string (t_ClaimedBy t) j)
      else if k = ''files'' then map_option (\<lambda>x. t\<lparr>t_Files := x\<rparr>) (into_slice into_string [] (t_Files t) j)
      else if k = ''parent'' then map_option (\<lambda>x. t\<lparr>t_Parent := x\<rparr>) (into_string (t_Parent t) j)
      else if k = ''edges'' then map_option (\<lambda>x. t\<lparr>t_Edges := x\<rparr>) (into_edges (t_Edges t) j)
      else if k = ''context'' then map_option (\<lambda>x. t\<lparr>t_Context := x\<rparr>) (into_strmap (t_Context t) j)
      else if k = ''created_at'' then map_option (\<lambda>x. t\<lparr>t_CreatedAt := x\<rparr>) (into_time (t_CreatedAt t) j)
      else if k = ''updated_at'' then map_option (\<lambda>x. t\<lparr>t_UpdatedAt := x\<rparr>) (into_time (t_UpdatedAt t) j)
      else if k = ''defer_until'' then map_option (\<lambda>x. t\<lparr>t_DeferUntil := x\<rparr>) (into_time_ptr (t_DeferUntil t) j)
      else if k = ''closed_at'' then map_option (\<lambda>x. t\<lparr>t_ClosedAt := x\<rparr>) (into_time_ptr (t_ClosedAt t) j)
      else if k = ''closed_by'' then map_option (\<lambda>x. t\<lparr>t_ClosedBy := x\<rparr>) (into_string (t_ClosedBy t) j)
      else if k = ''closed_reason'' then map_option (\<lambda>x. t\<lparr>t_ClosedReason := x\<rparr>) (into_string (t_ClosedReason t) j)
      else if k = ''claim_epoch'' then map_option (\<lambda>x. t\<lparr>t_ClaimEpoch := x\<rparr>) (into_word (t_ClaimEpoch t) j)
      else if k = ''original_size'' then map_option (\<lambda>x. t\<lparr>t_OriginalSize := x\<rparr>) (into_word (t_OriginalSize t) j)
      else if k = ''compact_level'' then map_option (\<lambda>x. t\<lparr>t_CompactLevel := x\<rparr>) (into_word (t_CompactLevel t) j)
      else if k = ''compacted_at'' then map_option (\<lambda>x. t\<lparr>t_CompactedAt := x\<rparr>) (into_time_ptr (t_CompactedAt t) j)
      else if k = ''schema_version'' then map_option (\<lambda>x. t\<lparr>t_SchemaVersion := x\<rparr>) (into_int (t_SchemaVersion t) j)
      else if k = ''last_event_seq'' then map_option (\<lambda>x. t\<lparr>t_LastEventSeq := x\<rparr>) (into_nat (t_LastEventSeq t) j)
      else Some t)"

definition decode :: "json \<Rightarrow> Task option" where
  "decode j = into_struct task_field zero_Task j"

text \<open>A map has distinct keys: the only well-formedness the association list needs.\<close>

definition wf_Task :: "Task \<Rightarrow> bool" where
  "wf_Task t = distinct (map fst (t_Context t))"

lemma into_entries_distinct:
  "into_entries m kjs = Some m' \<Longrightarrow> distinct (map fst m) \<Longrightarrow> distinct (map fst m')"
  by (induction m kjs rule: into_entries.induct) (auto split: option.splits)

lemma into_strmap_distinct:
  "into_strmap m j = Some m' \<Longrightarrow> distinct (map fst m) \<Longrightarrow> distinct (map fst m')"
  by (cases j) (auto dest: into_entries_distinct)

lemma task_field_wf: "task_field k j t = Some t' \<Longrightarrow> wf_Task t \<Longrightarrow> wf_Task t'"
  by (auto simp: task_field_def wf_Task_def dest: into_strmap_distinct split: if_splits)

lemma decode_wf: "decode j = Some t \<Longrightarrow> wf_Task t"
proof (cases j)
  case (JObj kjs)
  assume "decode j = Some t"
  with JObj have "into_fields task_field kjs zero_Task = Some t" by (simp add: decode_def)
  then show ?thesis
    by (rule into_fields_inv) (auto simp: wf_Task_def zero_Task_def dest: task_field_wf [unfolded wf_Task_def])
qed (auto simp: decode_def wf_Task_def zero_Task_def)

lemma into_edges_json [simp]: "into_edges olds (JArr (map json_edge es)) = Some es"
  unfolding into_edges_def into_slice.simps
  by (rule into_elems_map) (simp add: json_edge_def edge_field_def)

lemma decode_encode: "wf_Task t \<Longrightarrow> decode (encode t) = Some t"
  by (simp add: decode_def encode_def into_fields_simps task_field_def zero_Task_def wf_Task_def)

interpretation task_wire: wire_format encode decode wf_Task
  by unfold_locales (rule decode_encode)

text \<open>
  Additive evolution: a member the reader does not know is skipped, wherever it stands in the
  document, so a record written by a newer version is read as far as it is understood.
\<close>

definition task_tags :: "string list" where
  "task_tags =
     [''id'', ''title'', ''status'', ''claimed_by'', ''files'', ''parent'', ''edges'', ''context'',
      ''created_at'', ''updated_at'', ''defer_until'', ''closed_at'', ''closed_by'', ''closed_reason'',
      ''claim_epoch'', ''original_size'', ''compact_level'', ''compacted_at'', ''schema_version'',
      ''last_event_seq'']"

lemma task_field_unknown: "k \<notin> set task_tags \<Longrightarrow> task_field k j t = Some t"
  by (simp add: task_field_def task_tags_def)

lemma decode_skips_unknown:
  "k \<notin> set task_tags \<Longrightarrow> decode (JObj (xs @ (k, j) # ys)) = decode (JObj (xs @ ys))"
  by (simp add: decode_def into_fields_append task_field_unknown split: option.splits)

section \<open>Comparison on everything but compaction metadata\<close>

definition map_get :: "strmap \<Rightarrow> string \<Rightarrow> string" where
  "map_get m k = (case map_of m k of None \<Rightarrow> [] | Some v \<Rightarrow> v)"

definition eqNonCompaction :: "Task \<Rightarrow> Task \<Rightarrow> bool" where
  "eqNonCompaction t other =
     (if t_ID t \<noteq> t_ID other \<or> t_Title t \<noteq> t_Title other \<or> t_Status t \<noteq> t_Status other \<or>
         t_ClaimedBy t \<noteq> t_ClaimedBy other \<or> t_Parent t \<noteq> t_Parent other \<or>
         t_ClosedBy t \<noteq> t_ClosedBy other \<or> t_ClosedReason t \<noteq> t_ClosedReason other \<or>
         t_ClaimEpoch t \<noteq> t_ClaimEpoch other then False
      else if length (t_Files t) \<noteq> length (t_Files other) then False
      else if \<not> list_all2 (=) (t_Files t) (t_Files other) then False
      else if length (t_Edges t) \<noteq> length (t_Edges other) then False
      else if \<not> list_all2 (=) (t_Edges t) (t_Edges other) then False
      else if length (t_Context t) \<noteq> length (t_Context other) then False
      else if \<not> list_all (\<lambda>(k, v). map_get (t_Context other) k = v) (t_Context t) then False
      else if t_DeferUntil t \<noteq> t_DeferUntil other then False
      else if t_ClosedAt t \<noteq> t_ClosedAt other then False
      else t_CreatedAt t = t_CreatedAt other)"

lemma eqNonCompaction_iff:
  "eqNonCompaction t u \<longleftrightarrow>
     t_ID t = t_ID u \<and> t_Title t = t_Title u \<and> t_Status t = t_Status u \<and>
     t_ClaimedBy t = t_ClaimedBy u \<and> t_Parent t = t_Parent u \<and> t_ClosedBy t = t_ClosedBy u \<and>
     t_ClosedReason t = t_ClosedReason u \<and> t_ClaimEpoch t = t_ClaimEpoch u \<and>
     t_Files t = t_Files u \<and> t_Edges t = t_Edges u \<and>
     length (t_Context t) = length (t_Context u) \<and>
     (\<forall>(k, v) \<in> set (t_Context t). map_get (t_Context u) k = v) \<and>
     t_DeferUntil t = t_DeferUntil u \<and> t_ClosedAt t = t_ClosedAt u \<and>
     t_CreatedAt t = t_CreatedAt u"
  by (auto simp: eqNonCompaction_def list.rel_eq list_all_iff)

text \<open>
  The map comparison looks every key of the one map up in the other, where a missing key reads as
  the empty string: it is map equality unless an empty value is stored.
\<close>

lemma context_eq:
  assumes "distinct (map fst m)" and "distinct (map fst n)" and "length m = length n"
    and "\<forall>(k, v) \<in> set m. map_get n k = v" and "[] \<notin> snd ` set m"
  shows "map_of n = map_of m"
proof -
  have sub: "map_of n k = Some v" if "(k, v) \<in> set m" for k v
    using that assms(4,5) by (force simp: map_get_def split: option.splits)
  then have "set m \<subseteq> set n"
    by (meson map_of_SomeD subrelI)
  moreover have "card (set m) = card (set n)"
    using assms(1-3) by (metis distinct_card distinct_zipI1 zip_map_fst_snd)
  ultimately have "set m = set n"
    by (simp add: card_subset_eq)
  then show ?thesis
    using assms(1,2) by (metis map_of_eqI dom_map_of_conv_image_fst map_of_is_SomeI map_of_SomeD prod.collapse ext not_None_eq)
qed

section \<open>The checks in front of every write\<close>

definition checkInvariant11 :: "Task \<Rightarrow> tasks_err + unit" where
  "checkInvariant11 t =
     (let claimed = (t_Status t = StatusClaimed); hasAgent = (t_ClaimedBy t \<noteq> [])
      in if claimed \<noteq> hasAgent then Inl ErrInvariant11 else Inr ())"

definition validateForCreate :: "Task \<Rightarrow> tasks_err + unit" where
  "validateForCreate t =
     (if \<not> validStatus (t_Status t) then Inl ErrInvalidStatus else checkInvariant11 t)"

definition closedCompactionOnlyUpdate :: "Task \<Rightarrow> Task \<Rightarrow> bool" where
  "closedCompactionOnlyUpdate cur nxt = eqNonCompaction cur nxt"

definition legalTransition :: "Task \<Rightarrow> Task \<Rightarrow> bool" where
  "legalTransition cur nxt =
     (if t_Status cur = StatusClosed
      then t_Status nxt = StatusClosed \<and> closedCompactionOnlyUpdate cur nxt
      else if t_Status cur = t_Status nxt then True
      else if t_Status cur = StatusOpen \<and> t_Status nxt = StatusClaimed then True
      else if t_Status cur = StatusOpen \<and> t_Status nxt = StatusClosed then True
      else if t_Status cur = StatusClaimed \<and> t_Status nxt = StatusClosed then True
      else if t_Status cur = StatusClaimed \<and> t_Status nxt = StatusOpen then True
      else False)"

definition validateTransition :: "Task \<Rightarrow> Task \<Rightarrow> tasks_err + unit" where
  "validateTransition cur nxt =
     (if \<not> validStatus (t_Status nxt) then Inl ErrInvalidStatus
      else case checkInvariant11 nxt of
             Inl e \<Rightarrow> Inl e
           | Inr _ \<Rightarrow> if \<not> legalTransition cur nxt then Inl ErrInvalidTransition else Inr ())"

text \<open>What the checks establish: a record of known status whose claimant is set exactly when claimed.\<close>

definition valid_Task :: "Task \<Rightarrow> bool" where
  "valid_Task t = (validStatus (t_Status t) \<and> (t_Status t = StatusClaimed \<longleftrightarrow> t_ClaimedBy t \<noteq> []))"

lemma checkInvariant11_ok [simp]:
  "checkInvariant11 t = Inr u \<longleftrightarrow> (t_Status t = StatusClaimed \<longleftrightarrow> t_ClaimedBy t \<noteq> [])"
  by (auto simp: checkInvariant11_def Let_def)

lemma validateForCreate_ok: "validateForCreate t = Inr u \<longleftrightarrow> valid_Task t"
  by (auto simp: validateForCreate_def valid_Task_def)

lemma validateTransition_ok:
  "validateTransition cur nxt = Inr u \<longleftrightarrow> valid_Task nxt \<and> legalTransition cur nxt"
  by (auto simp: validateTransition_def valid_Task_def checkInvariant11_def Let_def)

text \<open>The lifecycle the comments describe, as a relation on records.\<close>

inductive lifecycle :: "Task \<Rightarrow> Task \<Rightarrow> bool" where
  edit: "t_Status t = t_Status u \<Longrightarrow> t_Status t \<noteq> StatusClosed \<Longrightarrow> lifecycle t u"
| claim: "t_Status t = StatusOpen \<Longrightarrow> t_Status u = StatusClaimed \<Longrightarrow> lifecycle t u"
| unclaim: "t_Status t = StatusClaimed \<Longrightarrow> t_Status u = StatusOpen \<Longrightarrow> lifecycle t u"
| close: "t_Status t \<in> {StatusOpen, StatusClaimed} \<Longrightarrow> t_Status u = StatusClosed \<Longrightarrow> lifecycle t u"
| compact: "t_Status t = StatusClosed \<Longrightarrow> eqNonCompaction t u \<Longrightarrow> lifecycle t u"

inductive_simps lifecycle_simps: "lifecycle t u"

lemma legalTransition_lifecycle: "legalTransition t u \<longleftrightarrow> lifecycle t u"
  by (auto simp: legalTransition_def closedCompactionOnlyUpdate_def lifecycle_simps eqNonCompaction_iff)

lemma lifecycle_closed: "lifecycle t u \<Longrightarrow> t_Status t = StatusClosed \<Longrightarrow> eqNonCompaction t u"
  by (auto simp: lifecycle_simps)

lemma lifecycle_reopen:
  "lifecycle t u \<Longrightarrow> t_Status t = StatusClosed \<Longrightarrow> t_Status u = StatusClosed"
  by (auto simp: lifecycle_simps eqNonCompaction_iff)

section \<open>Properties\<close>

text \<open>A record survives being stored and read: encoding and decoding give back exactly the records whose
  context map has distinct keys, and every record the decoder delivers is one of them, so a record that was
  read once can be stored and read again without change.\<close>

theorem task_round_trip:
  "(decode (encode t) = Some t \<longleftrightarrow> distinct (map fst (t_Context t))) \<and>
   (decode j = Some u \<longrightarrow> decode (encode u) = Some u)"
  using decode_encode decode_wf by (auto simp: wf_Task_def)

theorem task_round_trip_witness:
  "decode (encode (zero_Task\<lparr>t_ID := ''bones-1'', t_Context := [(''a'', ''b'')]\<rparr>)) =
   Some (zero_Task\<lparr>t_ID := ''bones-1'', t_Context := [(''a'', ''b'')]\<rparr>) \<and>
   decode (encode zero_Task) = Some zero_Task"
  using task_round_trip [of "zero_Task\<lparr>t_ID := ''bones-1'', t_Context := [(''a'', ''b'')]\<rparr>" "encode zero_Task" zero_Task]
    decode_encode [of zero_Task]
  by (simp add: wf_Task_def zero_Task_def)


end
