(* ===== verification/Task_Store.thy ===== *)
theory Task_Store
  imports JetStream Task_Model
begin

text \<open>
  \<^verbatim>\<open>internal/tasks/tasks.go\<close> and \<^verbatim>\<open>admin.go\<close>: the manager of a task bucket. Reads migrate old records
  on the way; writes are validated, size-checked and gated on the revision that was read. The
  lemmas show that a successful update is one atomic read-modify-write against the latest record
  whatever other processes do in between, and that every write keeps the bucket valid.
\<close>

section \<open>Configuration and handle\<close>

record Config =
  cfg_BucketName :: string
  cfg_HistoryDepth :: "8 word"
  cfg_MaxValueSize :: int
  cfg_ChanBuffer :: int
  cfg_EnableEventLog :: bool
  cfg_RecoverOnOpen :: bool

definition DefaultBucketName :: string where
  "DefaultBucketName = ''bones-tasks''"

definition defaultChanBuffer :: int where
  "defaultChanBuffer = 32"

text \<open>\<open>m_stream\<close> says whether the handle carries the event stream, \<open>m_done\<close> whether it is closed.\<close>

record Manager =
  m_cfg :: Config
  m_stream :: bool
  m_buf :: int
  m_done :: bool

abbreviation m_bucket :: "Manager \<Rightarrow> string" where
  "m_bucket m \<equiv> cfg_BucketName (m_cfg m)"

definition assertOpenConfig :: "Config \<Rightarrow> err + unit" where
  "assertOpenConfig cfg =
     (if cfg_BucketName cfg = [] then Inl (EPanic ''tasks.Open: cfg.BucketName is empty'')
      else if \<not> cfg_HistoryDepth cfg > 0 then Inl (EPanic ''tasks.Open: cfg.HistoryDepth must be > 0'')
      else if \<not> cfg_MaxValueSize cfg > 0 then Inl (EPanic ''tasks.Open: cfg.MaxValueSize must be > 0'')
      else if \<not> cfg_ChanBuffer cfg \<ge> 0 then Inl (EPanic ''tasks.Open: cfg.ChanBuffer must be >= 0'')
      else Inr ())"

definition tasks_Close :: "Manager \<Rightarrow> Manager" where
  "tasks_Close m = m\<lparr>m_done := True\<rparr>"

text \<open>The key of the bookkeeping entry that marks a migrated bucket (\<^verbatim>\<open>recovery.go\<close>).\<close>

definition migrationMarkerKey :: string where
  "migrationMarkerKey = ''__bones_tasks_events_migrated''"

section \<open>Encoding and migration on read\<close>

definition encodeBounded :: "'s sys \<Rightarrow> Manager \<Rightarrow> Task \<Rightarrow> err + json" where
  "encodeBounded js m t =
     (let payload = encode t in
      if go_int32 (int (js_Len js payload)) > cfg_MaxValueSize (m_cfg m)
      then Inl (ETasks ErrValueTooLarge) else Inr payload)"

definition migrateDecodedTask :: "Task \<Rightarrow> Task \<times> bool" where
  "migrateDecodedTask t =
     (if t_SchemaVersion t \<ge> SchemaVersion then (t, False)
      else (t\<lparr>t_SchemaVersion := SchemaVersion\<rparr>, True))"

definition migrateOnRead ::
  "'s sys \<Rightarrow> Manager \<Rightarrow> Task \<Rightarrow> nat \<Rightarrow> 's \<Rightarrow> (Task \<times> err option) \<times> 's" where
  "migrateOnRead js m t rv s =
     (case migrateDecodedTask t of
        (migrated, changed) \<Rightarrow>
          if \<not> changed then ((t, None), s)
          else case encodeBounded js m migrated of
                 Inl e \<Rightarrow> ((migrated, Some e), s)
               | Inr payload \<Rightarrow>
                   (case js_Update js s (m_bucket m) (t_ID migrated) payload rv of
                      (Inl x, s') \<Rightarrow>
                        if IsConflict x \<or> x = ErrKeyNotFound then ((migrated, None), s')
                        else ((migrated, Some (EKV x)), s')
                    | (Inr _, s') \<Rightarrow> ((migrated, None), s')))"

section \<open>Operations\<close>

definition tasks_create :: "'s sys \<Rightarrow> Manager \<Rightarrow> Task \<Rightarrow> 's \<Rightarrow> (err + unit) \<times> 's" where
  "tasks_create js m t s =
     (if t_ID t = [] then (Inl (EPanic ''tasks.create: t.ID is empty''), s)
      else if m_done m then (Inl (ETasks ErrClosed), s)
      else case validateForCreate t of
             Inl e \<Rightarrow> (Inl (ETasks e), s)
           | Inr _ \<Rightarrow>
               (case encodeBounded js m t of
                  Inl e \<Rightarrow> (Inl e, s)
                | Inr payload \<Rightarrow>
                    (case js_Create js s (m_bucket m) (t_ID t) payload of
                       (Inl x, s') \<Rightarrow>
                         if x = ErrKeyExists then (Inl (ETasks ErrAlreadyExists), s')
                         else (Inl (EKV x), s')
                     | (Inr _, s') \<Rightarrow> (Inr (), s'))))"

definition tasks_Get :: "'s sys \<Rightarrow> Manager \<Rightarrow> string \<Rightarrow> 's \<Rightarrow> (err + Task \<times> nat) \<times> 's" where
  "tasks_Get js m i s =
     (if i = [] then (Inl (EPanic ''tasks.Get: id is empty''), s)
      else if m_done m then (Inl (ETasks ErrClosed), s)
      else case js_Get js s (m_bucket m) i of
             (Inl x, s') \<Rightarrow>
               if x = ErrKeyNotFound then (Inl (ETasks ErrNotFound), s') else (Inl (EKV x), s')
           | (Inr entry, s') \<Rightarrow>
               if e_Operation entry \<noteq> KeyValuePut then (Inl (ETasks ErrNotFound), s')
               else case decode (e_Value entry) of
                      None \<Rightarrow> (Inl EDecode, s')
                    | Some t \<Rightarrow>
                        (case migrateOnRead js m t (e_Revision entry) s' of
                           ((t', _), s'') \<Rightarrow> (Inr (t', e_Revision entry), s'')))"

text \<open>
  The closure \<open>mutate\<close> reads the clock, so it gets the current time. What a caller's closure captures
  (\<^verbatim>\<open>*newEpoch = cur.ClaimEpoch\<close>) is a field of the record it returned last: the model returns the
  record written.
\<close>

type_synonym mutator = "time_ns \<Rightarrow> Task \<Rightarrow> err + Task"

definition updateAttempt ::
  "'s sys \<Rightarrow> Manager \<Rightarrow> string \<Rightarrow> mutator \<Rightarrow> 's \<Rightarrow> Task attempt \<times> 's" where
  "updateAttempt js m i mutate s =
     (case tasks_Get js m i s of
        (Inl e, s1) \<Rightarrow> (Verdict (Inl e), s1)
      | (Inr (cur, rv), s1) \<Rightarrow>
          (case mutate (js_Now js s1) cur of
             Inl e \<Rightarrow> (Verdict (Inl e), s1)
           | Inr nxt \<Rightarrow>
               (case validateTransition cur nxt of
                  Inl e \<Rightarrow> (Verdict (Inl (ETasks e)), s1)
                | Inr _ \<Rightarrow>
                    (case encodeBounded js m nxt of
                       Inl e \<Rightarrow> (Verdict (Inl e), s1)
                     | Inr payload \<Rightarrow>
                         (case js_Update js s1 (m_bucket m) i payload rv of
                            (Inl x, s2) \<Rightarrow>
                              if IsConflict x then (Conflict, s2) else (Verdict (Inl (EKV x)), s2)
                          | (Inr _, s2) \<Rightarrow> (Verdict (Inr nxt), s2))))))"

definition tasks_update ::
  "'s sys \<Rightarrow> Manager \<Rightarrow> string \<Rightarrow> mutator \<Rightarrow> 's \<Rightarrow> (err + Task) \<times> 's" where
  "tasks_update js m i mutate s =
     (if i = [] then (Inl (EPanic ''tasks.update: id is empty''), s)
      else if m_done m then (Inl (ETasks ErrClosed), s)
      else case retry MaxRetries (updateAttempt js m i mutate) s of
             (Some r, s') \<Rightarrow> (r, s')
           | (None, s') \<Rightarrow> (Inl (ETasks ErrCASConflict), s'))"

definition readOne :: "'s sys \<Rightarrow> Manager \<Rightarrow> string \<Rightarrow> 's \<Rightarrow> (err + Task option) \<times> 's" where
  "readOne js m key s =
     (if key = migrationMarkerKey then (Inr None, s)
      else case js_Get js s (m_bucket m) key of
             (Inl x, s') \<Rightarrow> if x = ErrKeyNotFound then (Inr None, s') else (Inl (EKV x), s')
           | (Inr entry, s') \<Rightarrow>
               if e_Operation entry \<noteq> KeyValuePut then (Inr None, s')
               else case decode (e_Value entry) of
                      None \<Rightarrow> (Inr None, s')
                    | Some t \<Rightarrow>
                        (case migrateOnRead js m t (e_Revision entry) s' of
                           ((t', _), s'') \<Rightarrow> (Inr (Some t'), s'')))"

fun list_keys :: "'s sys \<Rightarrow> Manager \<Rightarrow> string list \<Rightarrow> 's \<Rightarrow> Task list \<times> 's" where
  "list_keys js m [] s = ([], s)"
| "list_keys js m (k # ks) s =
     (case readOne js m k s of
        (Inr (Some t), s') \<Rightarrow> (case list_keys js m ks s' of (ts, s'') \<Rightarrow> (t # ts, s''))
      | (_, s') \<Rightarrow> list_keys js m ks s')"

definition tasks_List :: "'s sys \<Rightarrow> Manager \<Rightarrow> 's \<Rightarrow> (err + Task list) \<times> 's" where
  "tasks_List js m s =
     (if m_done m then (Inl (ETasks ErrClosed), s)
      else case js_Keys js s (m_bucket m) of
             (Inl x, s') \<Rightarrow> if x = ErrNoKeysFound then (Inr [], s') else (Inl (EKV x), s')
           | (Inr ks, s') \<Rightarrow> (case list_keys js m ks s' of (ts, s'') \<Rightarrow> (Inr ts, s'')))"

definition tasks_Purge :: "'s sys \<Rightarrow> Manager \<Rightarrow> string \<Rightarrow> 's \<Rightarrow> (err + unit) \<times> 's" where
  "tasks_Purge js m i s =
     (if i = [] then (Inl (EPanic ''tasks.Purge: id is empty''), s)
      else if m_done m then (Inl (ETasks ErrClosed), s)
      else case js_Purge js s (m_bucket m) i of
             (Inl x, s') \<Rightarrow>
               if x = ErrKeyNotFound then (Inl (ETasks ErrNotFound), s') else (Inl (EKV x), s')
           | (Inr _, s') \<Rightarrow> (Inr (), s'))"

text \<open>\<^verbatim>\<open>AdminWrite\<close>: the same writes for recovery and migration, without an event.\<close>

definition AdminWrite_Create :: "'s sys \<Rightarrow> Manager \<Rightarrow> Task \<Rightarrow> 's \<Rightarrow> (err + unit) \<times> 's" where
  "AdminWrite_Create js m t s = tasks_create js m t s"

definition AdminWrite_Update ::
  "'s sys \<Rightarrow> Manager \<Rightarrow> string \<Rightarrow> mutator \<Rightarrow> 's \<Rightarrow> (err + Task) \<times> 's" where
  "AdminWrite_Update js m i mutate s = tasks_update js m i mutate s"

definition AdminWrite_Purge :: "'s sys \<Rightarrow> Manager \<Rightarrow> string \<Rightarrow> 's \<Rightarrow> (err + unit) \<times> 's" where
  "AdminWrite_Purge js m i s = tasks_Purge js m i s"

lemmas admin_defs = AdminWrite_Create_def AdminWrite_Update_def AdminWrite_Purge_def


section \<open>What the reads and writes do to the buckets\<close>

lemma migrateDecodedTask_simps [simp]:
  "t_ID (fst (migrateDecodedTask t)) = t_ID t"
  "t_Status (fst (migrateDecodedTask t)) = t_Status t"
  "t_ClaimedBy (fst (migrateDecodedTask t)) = t_ClaimedBy t"
  "t_Files (fst (migrateDecodedTask t)) = t_Files t"
  "t_ClaimEpoch (fst (migrateDecodedTask t)) = t_ClaimEpoch t"
  "t_LastEventSeq (fst (migrateDecodedTask t)) = t_LastEventSeq t"
  "valid_Task (fst (migrateDecodedTask t)) = valid_Task t"
  "wf_Task (fst (migrateDecodedTask t)) = wf_Task t"
  by (auto simp: migrateDecodedTask_def valid_Task_def wf_Task_def)

lemma migrateDecodedTask_idem [simp]:
  "migrateDecodedTask (fst (migrateDecodedTask t)) = (fst (migrateDecodedTask t), False)"
  by (simp add: migrateDecodedTask_def)

text \<open>The record a reader of key \<open>k\<close> sees in a view: decoded and migrated.\<close>

definition record_at :: "kv_view \<Rightarrow> string \<Rightarrow> string \<Rightarrow> Task option" where
  "record_at v b k =
     (case v b k of
        None \<Rightarrow> None
      | Some e \<Rightarrow>
          if e_Operation e = KeyValuePut
          then map_option (\<lambda>t. fst (migrateDecodedTask t)) (decode (e_Value e)) else None)"

lemma record_at_wf: "record_at v b k = Some t \<Longrightarrow> wf_Task t"
  by (auto simp: record_at_def dest: decode_wf split: option.splits if_splits)

lemma record_at_put [simp]:
  "wf_Task t \<Longrightarrow> record_at (view_put v b k (put_entry (encode t) r)) b k = Some (fst (migrateDecodedTask t))"
  by (simp add: record_at_def decode_encode)

lemma record_at_put_other [simp]:
  "b' \<noteq> b \<or> k' \<noteq> k \<Longrightarrow> record_at (view_put v b k e) b' k' = record_at v b' k'"
  by (simp add: record_at_def)

lemma record_at_entry:
  "v b k = Some e \<Longrightarrow> e_Operation e = KeyValuePut \<Longrightarrow> decode (e_Value e) = Some t \<Longrightarrow>
   record_at v b k = Some (fst (migrateDecodedTask t))"
  by (simp add: record_at_def)

context jetstream
begin

lemma wrote_record:
  "wrote ob s1 s' b k (put_entry (encode t) r) \<Longrightarrow> wf_Task t \<Longrightarrow>
   record_at (o_view ob s') b k = Some (fst (migrateDecodedTask t))"
  by (simp add: wrote_def)

lemma wrote_record_other:
  "wrote ob s1 s' b k e \<Longrightarrow> b' \<noteq> b \<or> k' \<noteq> k \<Longrightarrow>
   record_at (o_view ob s') b' k' = record_at (o_view ob s1) b' k'"
  by (simp add: wrote_def)

text \<open>
  Migration on read either leaves the bucket to other processes or rewrites the record under its
  own ID with the new schema version.
\<close>

lemma migrateOnRead_cases:
  assumes "migrateOnRead js m t rv s = ((t', x), s')"
  shows "t' = fst (migrateDecodedTask t)"
    and "rely s s' \<or>
      (\<exists>s1 e r. rely s s1 \<and> o_view ob s1 (m_bucket m) (t_ID t) = Some e \<and> e_Revision e = rv \<and>
         encodeBounded js m t' = Inr (encode t') \<and>
         wrote ob s1 s' (m_bucket m) (t_ID t) (put_entry (encode t') r))"
proof -
  show "t' = fst (migrateDecodedTask t)"
    using assms by (auto simp: migrateOnRead_def migrateDecodedTask_def
        split: if_splits sum.splits prod.splits)
  show "rely s s' \<or>
      (\<exists>s1 e r. rely s s1 \<and> o_view ob s1 (m_bucket m) (t_ID t) = Some e \<and> e_Revision e = rv \<and>
         encodeBounded js m t' = Inr (encode t') \<and>
         wrote ob s1 s' (m_bucket m) (t_ID t) (put_entry (encode t') r))"
    using assms rely_refl
    by (auto simp: migrateOnRead_def migrateDecodedTask_def encodeBounded_def Let_def
        split: if_splits sum.splits prod.splits dest!: update_ok update_err)
qed

lemma migrateOnRead_later: "migrateOnRead js m t rv s = ((t', x), s') \<Longrightarrow> later ob s s'"
  using migrateOnRead_cases(2) [of m t rv s t' x s'] rely_later wrote_later later_trans by metis

lemma tasks_Get_ok:
  assumes "tasks_Get js m i s = (Inr (cur, rv), s')"
  obtains e s1 t x where "rely s s1" and "o_view ob s1 (m_bucket m) i = Some e"
    and "e_Operation e = KeyValuePut" and "e_Revision e = rv" and "decode (e_Value e) = Some t"
    and "cur = fst (migrateDecodedTask t)" and "migrateOnRead js m t rv s1 = ((cur, x), s')"
proof -
  from assms obtain e s1 t x where "js_Get js s (m_bucket m) i = (Inr e, s1)"
    and e: "e_Operation e = KeyValuePut" "decode (e_Value e) = Some t" "rv = e_Revision e"
    and mig: "migrateOnRead js m t (e_Revision e) s1 = ((cur, x), s')"
    by (auto simp: tasks_Get_def split: if_splits sum.splits prod.splits option.splits)
  from get_ok [OF this(1)] have "rely s s1" and "o_view ob s1 (m_bucket m) i = Some e" by auto
  moreover have "cur = fst (migrateDecodedTask t)"
    using migrateOnRead_cases(1) [OF mig] .
  ultimately show ?thesis using that e mig by blast
qed

text \<open>
  One successful attempt: the write happened in a state \<open>s1\<close> whose stored record is exactly the one
  the mutator saw.
\<close>

lemma updateAttempt_ok:
  assumes "updateAttempt js m i mutate s = (Verdict (Inr nxt), s')"
  obtains s1 cur now r where "record_at (o_view ob s1) (m_bucket m) i = Some cur"
    and "mutate now cur = Inr nxt" and "valid_Task nxt" and "lifecycle cur nxt"
    and "encodeBounded js m nxt = Inr (encode nxt)"
    and "wrote ob s1 s' (m_bucket m) i (put_entry (encode nxt) r)" and "later ob s s1"
proof -
  from assms obtain cur rv sg r where g: "tasks_Get js m i s = (Inr (cur, rv), sg)"
    and mut: "mutate (js_Now js sg) cur = Inr nxt" and val: "validateTransition cur nxt = Inr ()"
    and enc: "encodeBounded js m nxt = Inr (encode nxt)"
    and up: "js_Update js sg (m_bucket m) i (encode nxt) rv = (Inr r, s')"
    by (auto simp: updateAttempt_def encodeBounded_def Let_def split: if_splits sum.splits prod.splits)
  from g obtain e sa t x where sa: "rely s sa" and e: "o_view ob sa (m_bucket m) i = Some e"
    "e_Operation e = KeyValuePut" "e_Revision e = rv" "decode (e_Value e) = Some t"
    and cur: "cur = fst (migrateDecodedTask t)"
    and mig: "migrateOnRead js m t rv sa = ((cur, x), sg)"
    by (rule tasks_Get_ok)
  from update_ok [OF up] obtain s1 e1 where s1: "rely sg s1" "o_view ob s1 (m_bucket m) i = Some e1"
    "e_Revision e1 = rv" "wrote ob s1 s' (m_bucket m) i (put_entry (encode nxt) r)" by blast
  have la: "later ob sa s1"
    using migrateOnRead_later [OF mig] rely_later [OF s1(1)] by (rule later_trans)
  with e s1 have "e1 = e" using same_revision by metis
  with e s1 cur have "record_at (o_view ob s1) (m_bucket m) i = Some cur"
    using record_at_entry by metis
  moreover have "later ob s s1" using rely_later [OF sa] la by (rule later_trans)
  ultimately show ?thesis
    using that mut val enc s1(4) validateTransition_ok legalTransition_lifecycle by metis
qed

lemma update_atomic:
  assumes "tasks_update js m i mutate s = (Inr nxt, s')"
  obtains s1 cur now r where "record_at (o_view ob s1) (m_bucket m) i = Some cur"
    and "mutate now cur = Inr nxt" and "valid_Task nxt" and "lifecycle cur nxt"
    and "encodeBounded js m nxt = Inr (encode nxt)"
    and "wrote ob s1 s' (m_bucket m) i (put_entry (encode nxt) r)"
proof -
  from assms have "retry MaxRetries (updateAttempt js m i mutate) s = (Some (Inr nxt), s')"
    by (auto simp: tasks_update_def split: if_splits option.splits prod.splits)
  then obtain s0 where "updateAttempt js m i mutate s0 = (Verdict (Inr nxt), s')"
    by (rule retry_verdict [where P = "\<lambda>_. True"]) auto
  then show ?thesis using that by (rule updateAttempt_ok) blast
qed

end

section \<open>The bucket invariant\<close>

text \<open>
  Every live entry decodes to a valid record, and every record but the migration marker is within
  the size bound the write path checks.
\<close>

definition entry_ok :: "'s sys \<Rightarrow> Manager \<Rightarrow> string \<Rightarrow> json \<Rightarrow> bool" where
  "entry_ok js m k j =
     ((case decode j of None \<Rightarrow> False | Some t \<Rightarrow> valid_Task t) \<and>
      (k = migrationMarkerKey \<or> go_int32 (int (js_Len js j)) \<le> cfg_MaxValueSize (m_cfg m)))"

definition bucket_ok :: "'s sys \<Rightarrow> Manager \<Rightarrow> kv_view \<Rightarrow> bool" where
  "bucket_ok js m v =
     (\<forall>k e. v (m_bucket m) k = Some e \<longrightarrow> e_Operation e = KeyValuePut \<longrightarrow> entry_ok js m k (e_Value e))"

lemma bucket_okD:
  "bucket_ok js m v \<Longrightarrow> v (m_bucket m) k = Some e \<Longrightarrow> e_Operation e = KeyValuePut \<Longrightarrow>
   decode (e_Value e) = Some t \<Longrightarrow> valid_Task t"
  by (fastforce simp: bucket_ok_def entry_ok_def)

lemma bucket_ok_record:
  "bucket_ok js m v \<Longrightarrow> record_at v (m_bucket m) k = Some t \<Longrightarrow> valid_Task t"
  by (auto simp: record_at_def dest: bucket_okD split: option.splits if_splits)

lemma encodeBounded_ok:
  "encodeBounded js m t = Inr j \<longleftrightarrow>
   j = encode t \<and> go_int32 (int (js_Len js j)) \<le> cfg_MaxValueSize (m_cfg m)"
  by (auto simp: encodeBounded_def Let_def)

lemma bucket_ok_put:
  "bucket_ok js m v \<Longrightarrow> valid_Task t \<Longrightarrow> wf_Task t \<Longrightarrow> encodeBounded js m t = Inr (encode t) \<Longrightarrow>
   bucket_ok js m (view_put v (m_bucket m) k (put_entry (encode t) r))"
  by (auto simp: bucket_ok_def view_put_def entry_ok_def decode_encode encodeBounded_ok)

lemma bucket_ok_del:
  "bucket_ok js m v \<Longrightarrow> oper \<noteq> KeyValuePut \<Longrightarrow> bucket_ok js m (view_put v b k (del_entry oper r))"
  by (auto simp: bucket_ok_def view_put_def)

text \<open>
  A task bucket shared with processes that keep it valid: every operation of the manager keeps it
  valid too. A mutator has to keep map keys distinct, as a Go map does.
\<close>

locale task_bucket = jetstream js ob rely
  for js :: "'s sys" and ob :: "'s obs" and rely :: "'s \<Rightarrow> 's \<Rightarrow> bool" +
  fixes m :: Manager
  assumes stable: "rely s s1 \<Longrightarrow> bucket_ok js m (o_view ob s) \<Longrightarrow> bucket_ok js m (o_view ob s1)"
begin

abbreviation ok :: "'s \<Rightarrow> bool" where
  "ok s \<equiv> bucket_ok js m (o_view ob s)"

lemma ok_wrote:
  "ok s \<Longrightarrow> wrote ob s s' (m_bucket m) k (put_entry (encode t) r) \<Longrightarrow> valid_Task t \<Longrightarrow> wf_Task t \<Longrightarrow>
   encodeBounded js m t = Inr (encode t) \<Longrightarrow> ok s'"
  by (simp add: wrote_def bucket_ok_put)

lemma ok_deleted:
  "ok s \<Longrightarrow> wrote ob s s' b k (del_entry oper r) \<Longrightarrow> oper \<noteq> KeyValuePut \<Longrightarrow> ok s'"
  by (simp add: wrote_def bucket_ok_del)

lemma migrateOnRead_keeps:
  assumes "migrateOnRead js m t rv s = ((t', x), s')" and "ok s" and "valid_Task t" and "wf_Task t"
  shows "ok s'"
  using migrateOnRead_cases [OF assms(1)] assms(2-4)
  by (metis migrateDecodedTask_simps(7,8) ok_wrote stable)

lemma tasks_Get_keeps:
  assumes "tasks_Get js m i s = (r, s')" and "ok s"
  shows "ok s'" and "r = Inr (t, rv) \<Longrightarrow> valid_Task t \<and> wf_Task t"
proof -
  have err: "ok s'" if "r = Inl x" for x
    using assms that stable get_ok get_err
    by (fastforce simp: tasks_Get_def split: if_splits sum.splits prod.splits option.splits)
  have good: "ok s' \<and> valid_Task t \<and> wf_Task t" if "r = Inr (t, rv)" for t rv
  proof -
    from assms(1) that obtain e s1 t0 x where g: "rely s s1" "o_view ob s1 (m_bucket m) i = Some e"
      "e_Operation e = KeyValuePut" "decode (e_Value e) = Some t0"
      "t = fst (migrateDecodedTask t0)" "migrateOnRead js m t0 rv s1 = ((t, x), s')"
      by (auto elim: tasks_Get_ok)
    from stable [OF g(1) assms(2)] have "ok s1" .
    then have "valid_Task t0" using g bucket_okD by metis
    moreover have "wf_Task t0" using g(4) by (rule decode_wf)
    ultimately show ?thesis using migrateOnRead_keeps [OF g(6) \<open>ok s1\<close>] g(5) by simp
  qed
  show "ok s'" using err good by (cases r) auto
  show "r = Inr (t, rv) \<Longrightarrow> valid_Task t \<and> wf_Task t" using good by blast
qed

lemma updateAttempt_keeps:
  assumes "updateAttempt js m i mutate s = (r, s')" and "ok s"
    and mut: "\<And>now t u. wf_Task t \<Longrightarrow> mutate now t = Inr u \<Longrightarrow> wf_Task u"
  shows "ok s'"
proof (cases "tasks_Get js m i s")
  case (Pair g sg)
  have g: "ok sg" using Pair assms(2) by (rule tasks_Get_keeps)
  show ?thesis
  proof (cases "s' = sg")
    case False
    with assms(1) Pair obtain cur rv nxt y where "g = Inr (cur, rv)" and
      n: "mutate (js_Now js sg) cur = Inr nxt" "validateTransition cur nxt = Inr ()"
      "encodeBounded js m nxt = Inr (encode nxt)" and
      u: "js_Update js sg (m_bucket m) i (encode nxt) rv = (y, s')"
      by (auto simp: updateAttempt_def encodeBounded_ok split: sum.splits prod.splits if_splits)
    then have nxt: "valid_Task nxt" "wf_Task nxt"
      using tasks_Get_keeps(2) [of i s g sg cur rv] Pair assms(2) mut validateTransition_ok by auto
    show ?thesis
      using u update_ok update_err stable [OF _ g] ok_wrote [OF _ _ nxt n(3)]
      by (cases y) (metis, metis)
  qed (use g in simp)
qed

lemma tasks_update_keeps:
  assumes "tasks_update js m i mutate s = (r, s')" and "ok s"
    and mut: "\<And>now t u. wf_Task t \<Longrightarrow> mutate now t = Inr u \<Longrightarrow> wf_Task u"
  shows "ok s'"
proof -
  have step: "ok s2" if "ok s1" "updateAttempt js m i mutate s1 = (y, s2)" for s1 s2 y
    using updateAttempt_keeps that mut by blast
  consider "s' = s" | r' where "retry MaxRetries (updateAttempt js m i mutate) s = (r', s')"
    using assms(1) by (auto simp: tasks_update_def split: if_splits option.splits prod.splits)
  then show ?thesis
  proof cases
    case 2
    show ?thesis
    proof (cases r')
      case None
      with 2 show ?thesis
        using retry_exhausted [where P = ok, OF _ assms(2)] step by blast
    next
      case (Some v)
      with 2 obtain s0 where "ok s0" "updateAttempt js m i mutate s0 = (Verdict v, s')"
        using retry_verdict [where P = ok, OF _ assms(2)] step by metis
      then show ?thesis by (rule step)
    qed
  qed (use assms(2) in simp)
qed

lemma tasks_create_keeps:
  assumes "tasks_create js m t s = (r, s')" and "ok s" and "wf_Task t"
  shows "ok s'"
proof (cases "s' = s")
  case False
  with assms(1) obtain y where v: "valid_Task t" and e: "encodeBounded js m t = Inr (encode t)"
    and c: "js_Create js s (m_bucket m) (t_ID t) (encode t) = (y, s')"
    by (auto simp: tasks_create_def encodeBounded_ok validateForCreate_ok
        split: if_splits sum.splits prod.splits)
  show ?thesis
    using c create_ok create_err stable [OF _ assms(2)] ok_wrote [OF _ _ v assms(3) e]
    by (cases y) (metis, metis)
qed (use assms(2) in simp)

lemma tasks_Purge_keeps: "tasks_Purge js m i s = (r, s') \<Longrightarrow> ok s \<Longrightarrow> ok s'"
proof -
  assume p: "tasks_Purge js m i s = (r, s')" and o: "ok s"
  have "ok s'" if "js_Purge js s (m_bucket m) i = (y, s')" for y
    using that purge_ok purge_err stable [OF _ o] ok_deleted by (cases y) (metis kv_op.distinct(3))+
  with p o show ?thesis
    by (auto simp: tasks_Purge_def split: if_splits sum.splits prod.splits)
qed

lemma readOne_keeps:
  assumes "readOne js m k s = (r, s')" and "ok s"
  shows "ok s'" and "r = Inr (Some t) \<Longrightarrow> valid_Task t \<and> wf_Task t"
proof -
  have "ok s' \<and> (\<forall>t. r = Inr (Some t) \<longrightarrow> valid_Task t \<and> wf_Task t)"
  proof (cases "k = migrationMarkerKey")
    case False
    obtain y s1 where g: "js_Get js s (m_bucket m) k = (y, s1)" by fastforce
    have o1: "ok s1" using g get_ok get_err stable assms(2) by (cases y) blast+
    show ?thesis
    proof (cases "\<exists>e t. y = Inr e \<and> e_Operation e = KeyValuePut \<and> decode (e_Value e) = Some t")
      case True
      then obtain e t where e: "y = Inr e" "e_Operation e = KeyValuePut" "decode (e_Value e) = Some t" by blast
      obtain t' x s2 where mig: "migrateOnRead js m t (e_Revision e) s1 = ((t', x), s2)"
        by (metis prod.collapse)
      from e g get_ok have "o_view ob s1 (m_bucket m) k = Some e" by blast
      then have v: "valid_Task t" "wf_Task t" using o1 e bucket_okD decode_wf by metis+
      then have "ok s2" using migrateOnRead_keeps [OF mig o1] by blast
      with False e g mig v assms(1) migrateOnRead_cases(1) [OF mig] show ?thesis
        by (auto simp: readOne_def)
    qed (use False g o1 assms(1) in \<open>auto simp: readOne_def split: sum.splits if_splits option.splits\<close>)
  qed (use assms in \<open>auto simp: readOne_def\<close>)
  then show "ok s'" and "r = Inr (Some t) \<Longrightarrow> valid_Task t \<and> wf_Task t" by auto
qed

lemma list_keys_keeps:
  "list_keys js m ks s = (ts, s') \<Longrightarrow> ok s \<Longrightarrow> ok s' \<and> (\<forall>t \<in> set ts. valid_Task t \<and> wf_Task t)"
proof (induction ks arbitrary: s ts s')
  case (Cons k ks)
  obtain y s1 where r: "readOne js m k s = (y, s1)" by fastforce
  have o1: "ok s1" using r Cons.prems(2) by (rule readOne_keeps)
  obtain ts' s2 where l: "list_keys js m ks s1 = (ts', s2)" by fastforce
  from Cons.IH [OF l o1] have IH: "ok s2 \<and> (\<forall>t \<in> set ts'. valid_Task t \<and> wf_Task t)" .
  have "valid_Task t \<and> wf_Task t" if "y = Inr (Some t)" for t
    using readOne_keeps(2) [OF r Cons.prems(2) that] .
  with IH Cons.prems(1) r l show ?case by (auto split: sum.splits option.splits)
qed simp

lemma tasks_List_keeps:
  assumes "tasks_List js m s = (r, s')" and "ok s"
  shows "ok s'" and "r = Inr ts \<Longrightarrow> t \<in> set ts \<Longrightarrow> valid_Task t \<and> wf_Task t"
proof -
  obtain y s1 where k: "js_Keys js s (m_bucket m) = (y, s1)" by fastforce
  have o1: "ok s1" using k keys_ok keys_err stable assms(2) by (cases y) blast+
  have "ok s' \<and> (\<forall>ts. r = Inr ts \<longrightarrow> (\<forall>t \<in> set ts. valid_Task t \<and> wf_Task t))"
    using assms k o1 list_keys_keeps [OF _ o1]
    by (auto simp: tasks_List_def split: if_splits sum.splits prod.splits)
  then show "ok s'" and "r = Inr ts \<Longrightarrow> t \<in> set ts \<Longrightarrow> valid_Task t \<and> wf_Task t" by auto
qed

end

text \<open>
  The substrate in memory, when the other processes store only documents that satisfy the
  invariant, is such a bucket.
\<close>

definition task_guarantee :: "Manager \<Rightarrow> guarantee" where
  "task_guarantee m b k j = (b = m_bucket m \<longrightarrow> entry_ok (mem_sys (\<lambda>_ _ _. True)) m k j)"

lemma entry_ok_mem: "entry_ok (mem_sys G) m k j = entry_ok (mem_sys H) m k j"
  by (simp add: entry_ok_def)

lemma log_view_guarantee:
  assumes "log_view (l @ l0) bk = Some e"
  shows "log_view l0 bk = Some e \<or> (bk, e_Operation e, e_Value e) \<in> set l"
  using assms by (induction l) (auto split: if_splits)

interpretation mem_tasks: task_bucket "mem_sys (task_guarantee m)" mem_obs "mem_rely (task_guarantee m)" m
  for m
proof unfold_locales
  fix s s1 :: mem
  assume r: "mem_rely (task_guarantee m) s s1"
    and o: "bucket_ok (mem_sys (task_guarantee m)) m (o_view mem_obs s)"
  from r obtain l where l: "mem_log s1 = l @ mem_log s"
    and g: "\<forall>((b, k), oper, j) \<in> set l. oper = KeyValuePut \<and> task_guarantee m b k j"
    by (auto simp: mem_rely_def)
  show "bucket_ok (mem_sys (task_guarantee m)) m (o_view mem_obs s1)"
    unfolding bucket_ok_def
  proof (intro allI impI)
    fix k e
    assume e: "o_view mem_obs s1 (m_bucket m) k = Some e" "e_Operation e = KeyValuePut"
    then consider "mem_view s (m_bucket m) k = Some e"
      | "((m_bucket m, k), e_Operation e, e_Value e) \<in> set l"
      using log_view_guarantee [of l "mem_log s" "(m_bucket m, k)" e] by (auto simp: mem_view_def l)
    then show "entry_ok (mem_sys (task_guarantee m)) m k (e_Value e)"
    proof cases
      case 1
      with o e(2) show ?thesis by (simp add: bucket_ok_def)
    next
      case 2
      with g have "task_guarantee m (m_bucket m) k (e_Value e)" by auto
      then show ?thesis
        using entry_ok_mem [of "task_guarantee m" m k "e_Value e" "\<lambda>_ _ _. True"]
        by (simp add: task_guarantee_def)
    qed
  qed
qed

section \<open>Progress\<close>

text \<open>
  Undisturbed, an update of an existing record succeeds whenever its mutator does and the checks
  pass: on a current record in the first attempt, on a record of an older schema in the second,
  since reading it stores the migrated form under a new revision.
\<close>

lemma mem_tasks_Get_quiet:
  assumes "quiet s" and "mem_view s (m_bucket m) i = Some e" and "e_Operation e = KeyValuePut"
    and "decode (e_Value e) = Some t" and "t_SchemaVersion t \<ge> SchemaVersion"
    and "i \<noteq> []" and "\<not> m_done m"
  shows "tasks_Get (mem_sys G) m i s = (Inr (t, e_Revision e), s)"
  using assms by (simp add: tasks_Get_def mem_get_quiet migrateOnRead_def migrateDecodedTask_def)

lemma mem_tasks_update_quiet:
  assumes "quiet s" and "mem_view s (m_bucket m) i = Some e" and "e_Operation e = KeyValuePut"
    and "decode (e_Value e) = Some t" and "t_SchemaVersion t \<ge> SchemaVersion"
    and "i \<noteq> []" and "\<not> m_done m"
    and "mutate (mem_now s) t = Inr u" and "valid_Task u" and "lifecycle t u"
    and "encodeBounded (mem_sys G) m u = Inr (encode u)"
  shows "tasks_update (mem_sys G) m i mutate s =
    (Inr u, mem_write s (m_bucket m) i KeyValuePut (encode u))"
proof -
  have "updateAttempt (mem_sys G) m i mutate s =
      (Verdict (Inr u), mem_write s (m_bucket m) i KeyValuePut (encode u))"
    using mem_tasks_Get_quiet [OF assms(1-7), of G] assms(8-11)
      validateTransition_ok [of t u "()"] legalTransition_lifecycle [of t u]
    by (simp add: updateAttempt_def mem_update_quiet [OF assms(1,2)])
  with assms(6,7) show ?thesis
    by (simp add: tasks_update_def MaxRetries_def numeral_eq_Suc)
qed

lemma mem_tasks_update_rejected:
  assumes "quiet s" and "mem_view s (m_bucket m) i = Some e" and "e_Operation e = KeyValuePut"
    and "decode (e_Value e) = Some t" and "t_SchemaVersion t \<ge> SchemaVersion"
    and "i \<noteq> []" and "\<not> m_done m"
    and "mutate (mem_now s) t = Inl x \<or>
      (\<exists>u y. mutate (mem_now s) t = Inr u \<and> validateTransition t u = Inl y \<and> x = ETasks y)"
  shows "tasks_update (mem_sys G) m i mutate s = (Inl x, s)"
proof -
  have "updateAttempt (mem_sys G) m i mutate s = (Verdict (Inl x), s)"
    using mem_tasks_Get_quiet [OF assms(1-7), of G] assms(8) by (auto simp: updateAttempt_def)
  with assms(6,7) show ?thesis
    by (simp add: tasks_update_def MaxRetries_def numeral_eq_Suc)
qed

end
