(* ===== verification/Task_Events.thy ===== *)
theory Task_Events
  imports JetStream Task_Model
begin

text \<open>
  The task event log's vocabulary: \<^verbatim>\<open>internal/tasks/events.go\<close> (the envelope and the seven payloads),
  \<^verbatim>\<open>internal/timefmt\<close>'s \<^verbatim>\<open>LoggedTime\<close> as far as envelopes use it, and \<^verbatim>\<open>internal/tasks/tally.go\<close>.
  The lemmas show the round trip of every payload and of the envelope (whose timestamp keeps whole
  seconds only), and what the tally counts.
\<close>

section \<open>Event types\<close>

type_synonym EventType = "8 word"

definition EventTypeUnknown :: EventType where "EventTypeUnknown = 0"
definition EventTypeCreated :: EventType where "EventTypeCreated = 1"
definition EventTypeClaimed :: EventType where "EventTypeClaimed = 2"
definition EventTypeUnclaimed :: EventType where "EventTypeUnclaimed = 3"
definition EventTypeUpdated :: EventType where "EventTypeUpdated = 4"
definition EventTypeLinked :: EventType where "EventTypeLinked = 5"
definition EventTypeSlotChanged :: EventType where "EventTypeSlotChanged = 6"
definition EventTypeClosed :: EventType where "EventTypeClosed = 7"

lemmas event_type_defs [go_defs] =
  EventTypeUnknown_def EventTypeCreated_def EventTypeClaimed_def EventTypeUnclaimed_def
  EventTypeUpdated_def EventTypeLinked_def EventTypeSlotChanged_def EventTypeClosed_def

definition EventType_String :: "EventType \<Rightarrow> string" where
  "EventType_String t =
     (if t = EventTypeCreated then ''created''
      else if t = EventTypeClaimed then ''claimed''
      else if t = EventTypeUnclaimed then ''unclaimed''
      else if t = EventTypeUpdated then ''updated''
      else if t = EventTypeLinked then ''linked''
      else if t = EventTypeSlotChanged then ''slot_changed''
      else if t = EventTypeClosed then ''closed''
      else ''unknown'')"

definition EventType_Valid :: "EventType \<Rightarrow> bool" where
  "EventType_Valid t = (t \<ge> EventTypeCreated \<and> t \<le> EventTypeClosed)"

lemma event_type_distinct [simp]:
  "EventTypeCreated \<noteq> EventTypeClaimed" "EventTypeCreated \<noteq> EventTypeUnclaimed"
  "EventTypeCreated \<noteq> EventTypeUpdated" "EventTypeCreated \<noteq> EventTypeLinked"
  "EventTypeCreated \<noteq> EventTypeSlotChanged" "EventTypeCreated \<noteq> EventTypeClosed"
  "EventTypeClaimed \<noteq> EventTypeCreated" "EventTypeClaimed \<noteq> EventTypeUnclaimed"
  "EventTypeClaimed \<noteq> EventTypeUpdated" "EventTypeClaimed \<noteq> EventTypeLinked"
  "EventTypeClaimed \<noteq> EventTypeSlotChanged" "EventTypeClaimed \<noteq> EventTypeClosed"
  "EventTypeUnclaimed \<noteq> EventTypeCreated" "EventTypeUnclaimed \<noteq> EventTypeClaimed"
  "EventTypeUnclaimed \<noteq> EventTypeUpdated" "EventTypeUnclaimed \<noteq> EventTypeLinked"
  "EventTypeUnclaimed \<noteq> EventTypeSlotChanged" "EventTypeUnclaimed \<noteq> EventTypeClosed"
  "EventTypeUpdated \<noteq> EventTypeCreated" "EventTypeUpdated \<noteq> EventTypeClaimed"
  "EventTypeUpdated \<noteq> EventTypeUnclaimed" "EventTypeUpdated \<noteq> EventTypeLinked"
  "EventTypeUpdated \<noteq> EventTypeSlotChanged" "EventTypeUpdated \<noteq> EventTypeClosed"
  "EventTypeLinked \<noteq> EventTypeCreated" "EventTypeLinked \<noteq> EventTypeClaimed"
  "EventTypeLinked \<noteq> EventTypeUnclaimed" "EventTypeLinked \<noteq> EventTypeUpdated"
  "EventTypeLinked \<noteq> EventTypeSlotChanged" "EventTypeLinked \<noteq> EventTypeClosed"
  "EventTypeSlotChanged \<noteq> EventTypeCreated" "EventTypeSlotChanged \<noteq> EventTypeClaimed"
  "EventTypeSlotChanged \<noteq> EventTypeUnclaimed" "EventTypeSlotChanged \<noteq> EventTypeUpdated"
  "EventTypeSlotChanged \<noteq> EventTypeLinked" "EventTypeSlotChanged \<noteq> EventTypeClosed"
  "EventTypeClosed \<noteq> EventTypeCreated" "EventTypeClosed \<noteq> EventTypeClaimed"
  "EventTypeClosed \<noteq> EventTypeUnclaimed" "EventTypeClosed \<noteq> EventTypeUpdated"
  "EventTypeClosed \<noteq> EventTypeLinked" "EventTypeClosed \<noteq> EventTypeSlotChanged"
  by (simp_all add: event_type_defs)

lemma event_type_valid [simp]:
  "EventType_Valid EventTypeCreated" "EventType_Valid EventTypeClaimed" "EventType_Valid EventTypeUnclaimed"
  "EventType_Valid EventTypeUpdated" "EventType_Valid EventTypeLinked" "EventType_Valid EventTypeSlotChanged"
  "EventType_Valid EventTypeClosed" "\<not> EventType_Valid EventTypeUnknown"
  by (simp_all add: EventType_Valid_def event_type_defs)

text \<open>The seven defined types are exactly the valid ones, and exactly those with a name.\<close>

lemma EventType_Valid_iff:
  "EventType_Valid t \<longleftrightarrow>
   t \<in> {EventTypeCreated, EventTypeClaimed, EventTypeUnclaimed, EventTypeUpdated, EventTypeLinked,
        EventTypeSlotChanged, EventTypeClosed}"
proof
  assume "EventType_Valid t"
  then have "1 \<le> unat t" "unat t \<le> 7"
    by (simp_all add: EventType_Valid_def event_type_defs word_le_nat_alt)
  then have "unat t \<in> {1, 2, 3, 4, 5, 6, 7}" by auto
  then have "t \<in> word_of_nat ` {1, 2, 3, 4, 5, 6, 7}" by (rule image_eqI [rotated]) simp
  then show "t \<in> {EventTypeCreated, EventTypeClaimed, EventTypeUnclaimed, EventTypeUpdated, EventTypeLinked,
        EventTypeSlotChanged, EventTypeClosed}"
    by (simp add: event_type_defs)
qed auto

section \<open>Payloads\<close>

record CreatedPayload =
  cp_Title :: string
  cp_Slot :: string
  cp_Files :: "string list"
  cp_Snapshot :: "Task option"

record ClaimedPayload =
  clp_AgentID :: string
  clp_Slot :: string
  clp_ClaimEpoch :: "64 word"
  clp_PrevAgent :: string

record UnclaimedPayload =
  up_Reason :: string

record FieldChange =
  fc_Field :: string
  fc_Old :: json
  fc_New :: json

record UpdatedPayload =
  upd_Changes :: "FieldChange list"

record LinkedPayload =
  lp_OtherID :: string
  lp_EdgeType :: string

record SlotChangedPayload =
  sp_From :: string
  sp_To :: string

record ClosedPayload =
  clo_AgentID :: string
  clo_Reason :: string

datatype payload =
    PCreated CreatedPayload
  | PClaimed ClaimedPayload
  | PUnclaimed UnclaimedPayload
  | PUpdated UpdatedPayload
  | PLinked LinkedPayload
  | PSlotChanged SlotChangedPayload
  | PClosed ClosedPayload

text \<open>
  A \<^verbatim>\<open>json.RawMessage\<close> is the document itself. The zero value is no JSON text; it is written as \<open>null\<close>.
\<close>

definition json_raw :: "json \<Rightarrow> json" where
  "json_raw j = (if j = JMalformed then JNull else j)"

definition json_FieldChange :: "FieldChange \<Rightarrow> json" where
  "json_FieldChange c =
     JObj (member ''field'' (JStr (fc_Field c)) @ member ''old'' (json_raw (fc_Old c)) @
           member ''new'' (json_raw (fc_New c)))"

fun marshal_payload :: "payload \<Rightarrow> json" where
  "marshal_payload (PCreated p) =
     JObj (member ''title'' (JStr (cp_Title p)) @
           member_omit (cp_Slot p = []) ''slot'' (JStr (cp_Slot p)) @
           member_omit (cp_Files p = []) ''files'' (json_strings (cp_Files p)) @
           member_omit (cp_Snapshot p = None) ''snapshot''
             (case cp_Snapshot p of None \<Rightarrow> JNull | Some t \<Rightarrow> encode t))"
| "marshal_payload (PClaimed p) =
     JObj (member ''agent_id'' (JStr (clp_AgentID p)) @
           member_omit (clp_Slot p = []) ''slot'' (JStr (clp_Slot p)) @
           member ''claim_epoch'' (json_word (clp_ClaimEpoch p)) @
           member_omit (clp_PrevAgent p = []) ''prev_agent'' (JStr (clp_PrevAgent p)))"
| "marshal_payload (PUnclaimed p) = JObj (member ''reason'' (JStr (up_Reason p)))"
| "marshal_payload (PUpdated p) = JObj (member ''changes'' (JArr (map json_FieldChange (upd_Changes p))))"
| "marshal_payload (PLinked p) =
     JObj (member ''other_id'' (JStr (lp_OtherID p)) @ member ''edge_type'' (JStr (lp_EdgeType p)))"
| "marshal_payload (PSlotChanged p) =
     JObj (member_omit (sp_From p = []) ''from'' (JStr (sp_From p)) @ member ''to'' (JStr (sp_To p)))"
| "marshal_payload (PClosed p) =
     JObj (member ''agent_id'' (JStr (clo_AgentID p)) @ member ''reason'' (JStr (clo_Reason p)))"

fun into_task_ptr :: "Task option \<Rightarrow> json \<Rightarrow> Task option option" where
  "into_task_ptr old JNull = Some None"
| "into_task_ptr old j =
     map_option Some (into_struct task_field (case old of None \<Rightarrow> zero_Task | Some t \<Rightarrow> t) j)"

definition created_field :: "string \<Rightarrow> json \<Rightarrow> CreatedPayload \<Rightarrow> CreatedPayload option" where
  "created_field k j p =
     (if k = ''title'' then map_option (\<lambda>x. p\<lparr>cp_Title := x\<rparr>) (into_string (cp_Title p) j)
      else if k = ''slot'' then map_option (\<lambda>x. p\<lparr>cp_Slot := x\<rparr>) (into_string (cp_Slot p) j)
      else if k = ''files'' then map_option (\<lambda>x. p\<lparr>cp_Files := x\<rparr>) (into_slice into_string [] (cp_Files p) j)
      else if k = ''snapshot'' then map_option (\<lambda>x. p\<lparr>cp_Snapshot := x\<rparr>) (into_task_ptr (cp_Snapshot p) j)
      else Some p)"

definition claimed_field :: "string \<Rightarrow> json \<Rightarrow> ClaimedPayload \<Rightarrow> ClaimedPayload option" where
  "claimed_field k j p =
     (if k = ''agent_id'' then map_option (\<lambda>x. p\<lparr>clp_AgentID := x\<rparr>) (into_string (clp_AgentID p) j)
      else if k = ''slot'' then map_option (\<lambda>x. p\<lparr>clp_Slot := x\<rparr>) (into_string (clp_Slot p) j)
      else if k = ''claim_epoch'' then map_option (\<lambda>x. p\<lparr>clp_ClaimEpoch := x\<rparr>) (into_word (clp_ClaimEpoch p) j)
      else if k = ''prev_agent'' then map_option (\<lambda>x. p\<lparr>clp_PrevAgent := x\<rparr>) (into_string (clp_PrevAgent p) j)
      else Some p)"

definition unclaimed_field :: "string \<Rightarrow> json \<Rightarrow> UnclaimedPayload \<Rightarrow> UnclaimedPayload option" where
  "unclaimed_field k j p =
     (if k = ''reason'' then map_option (\<lambda>x. p\<lparr>up_Reason := x\<rparr>) (into_string (up_Reason p) j) else Some p)"

definition change_field :: "string \<Rightarrow> json \<Rightarrow> FieldChange \<Rightarrow> FieldChange option" where
  "change_field k j c =
     (if k = ''field'' then map_option (\<lambda>x. c\<lparr>fc_Field := x\<rparr>) (into_string (fc_Field c) j)
      else if k = ''old'' then Some (c\<lparr>fc_Old := j\<rparr>)
      else if k = ''new'' then Some (c\<lparr>fc_New := j\<rparr>)
      else Some c)"

definition zero_FieldChange :: FieldChange where
  "zero_FieldChange = \<lparr>fc_Field = [], fc_Old = JMalformed, fc_New = JMalformed\<rparr>"

definition updated_field :: "string \<Rightarrow> json \<Rightarrow> UpdatedPayload \<Rightarrow> UpdatedPayload option" where
  "updated_field k j p =
     (if k = ''changes''
      then map_option (\<lambda>x. p\<lparr>upd_Changes := x\<rparr>)
             (into_slice (into_struct change_field) zero_FieldChange (upd_Changes p) j)
      else Some p)"

definition linked_field :: "string \<Rightarrow> json \<Rightarrow> LinkedPayload \<Rightarrow> LinkedPayload option" where
  "linked_field k j p =
     (if k = ''other_id'' then map_option (\<lambda>x. p\<lparr>lp_OtherID := x\<rparr>) (into_string (lp_OtherID p) j)
      else if k = ''edge_type'' then map_option (\<lambda>x. p\<lparr>lp_EdgeType := x\<rparr>) (into_string (lp_EdgeType p) j)
      else Some p)"

definition slot_field :: "string \<Rightarrow> json \<Rightarrow> SlotChangedPayload \<Rightarrow> SlotChangedPayload option" where
  "slot_field k j p =
     (if k = ''from'' then map_option (\<lambda>x. p\<lparr>sp_From := x\<rparr>) (into_string (sp_From p) j)
      else if k = ''to'' then map_option (\<lambda>x. p\<lparr>sp_To := x\<rparr>) (into_string (sp_To p) j)
      else Some p)"

definition closed_field :: "string \<Rightarrow> json \<Rightarrow> ClosedPayload \<Rightarrow> ClosedPayload option" where
  "closed_field k j p =
     (if k = ''agent_id'' then map_option (\<lambda>x. p\<lparr>clo_AgentID := x\<rparr>) (into_string (clo_AgentID p) j)
      else if k = ''reason'' then map_option (\<lambda>x. p\<lparr>clo_Reason := x\<rparr>) (into_string (clo_Reason p) j)
      else Some p)"

section \<open>Envelopes\<close>

record EventEnvelope =
  ev_Type :: EventType
  ev_TaskID :: string
  ev_Timestamp :: time_ns
  ev_Payload :: json
  ev_StreamSeq :: nat

definition zero_EventEnvelope :: EventEnvelope where
  "zero_EventEnvelope =
     \<lparr>ev_Type = 0, ev_TaskID = [], ev_Timestamp = zero_time, ev_Payload = JMalformed, ev_StreamSeq = 0\<rparr>"

definition EncodeEnvelope :: "EventType \<Rightarrow> string \<Rightarrow> payload \<Rightarrow> time_ns \<Rightarrow> err + EventEnvelope" where
  "EncodeEnvelope t taskID p now =
     (if \<not> EventType_Valid t then Inl (EMsg ''tasks: invalid event type'')
      else if taskID = [] then Inl (EMsg ''tasks: event task_id is empty'')
      else Inr \<lparr>ev_Type = t, ev_TaskID = taskID, ev_Timestamp = now,
                ev_Payload = marshal_payload p, ev_StreamSeq = 0\<rparr>)"

definition EventSubject :: "string \<Rightarrow> string" where
  "EventSubject taskID = ''tasks.events.'' @ taskID"

definition AllEventsSubject :: string where
  "AllEventsSubject = ''tasks.events.>''"

definition EventStreamName :: string where
  "EventStreamName = ''tasks-events''"

fun decode_typed :: "'r \<Rightarrow> (string \<Rightarrow> json \<Rightarrow> 'r \<Rightarrow> 'r option) \<Rightarrow> ('r \<Rightarrow> payload) \<Rightarrow> json \<Rightarrow> err + payload" where
  "decode_typed z f c j = (case into_struct f z j of None \<Rightarrow> Inl EDecode | Some p \<Rightarrow> Inr (c p))"

definition DecodePayload :: "EventEnvelope \<Rightarrow> err + payload" where
  "DecodePayload env =
     (if \<not> EventType_Valid (ev_Type env) then Inl (EMsg ''tasks: decode envelope: invalid type'')
      else if ev_Type env = EventTypeCreated then
        decode_typed \<lparr>cp_Title = [], cp_Slot = [], cp_Files = [], cp_Snapshot = None\<rparr>
          created_field PCreated (ev_Payload env)
      else if ev_Type env = EventTypeClaimed then
        decode_typed \<lparr>clp_AgentID = [], clp_Slot = [], clp_ClaimEpoch = 0, clp_PrevAgent = []\<rparr>
          claimed_field PClaimed (ev_Payload env)
      else if ev_Type env = EventTypeUnclaimed then
        decode_typed \<lparr>up_Reason = []\<rparr> unclaimed_field PUnclaimed (ev_Payload env)
      else if ev_Type env = EventTypeUpdated then
        decode_typed \<lparr>upd_Changes = []\<rparr> updated_field PUpdated (ev_Payload env)
      else if ev_Type env = EventTypeLinked then
        decode_typed \<lparr>lp_OtherID = [], lp_EdgeType = []\<rparr> linked_field PLinked (ev_Payload env)
      else if ev_Type env = EventTypeSlotChanged then
        decode_typed \<lparr>sp_From = [], sp_To = []\<rparr> slot_field PSlotChanged (ev_Payload env)
      else if ev_Type env = EventTypeClosed then
        decode_typed \<lparr>clo_AgentID = [], clo_Reason = []\<rparr> closed_field PClosed (ev_Payload env)
      else Inl (EMsg ''tasks: decode envelope: unknown type''))"

text \<open>\<^verbatim>\<open>timefmt.Logged\<close> prints RFC 3339 without a fraction: the instant is cut to whole seconds.\<close>

definition logged :: "time_ns \<Rightarrow> time_ns" where
  "logged t = t - t mod 1000000000"

definition LoggedTime_MarshalJSON :: "time_ns \<Rightarrow> json" where
  "LoggedTime_MarshalJSON t = JTime (logged t)"

fun LoggedTime_UnmarshalJSON :: "json \<Rightarrow> time_ns option" where
  "LoggedTime_UnmarshalJSON JNull = Some zero_time"
| "LoggedTime_UnmarshalJSON (JTime t) = Some t"
| "LoggedTime_UnmarshalJSON _ = None"

definition MarshalEnvelope :: "EventEnvelope \<Rightarrow> json" where
  "MarshalEnvelope env =
     JObj (member ''type'' (json_word (ev_Type env)) @
           member ''task_id'' (JStr (ev_TaskID env)) @
           member ''timestamp'' (LoggedTime_MarshalJSON (ev_Timestamp env)) @
           member ''payload'' (json_raw (ev_Payload env)))"

definition envelope_field :: "string \<Rightarrow> json \<Rightarrow> EventEnvelope \<Rightarrow> EventEnvelope option" where
  "envelope_field k j env =
     (if k = ''type'' then map_option (\<lambda>x. env\<lparr>ev_Type := x\<rparr>) (into_word (ev_Type env) j)
      else if k = ''task_id'' then map_option (\<lambda>x. env\<lparr>ev_TaskID := x\<rparr>) (into_string (ev_TaskID env) j)
      else if k = ''timestamp'' then map_option (\<lambda>x. env\<lparr>ev_Timestamp := x\<rparr>) (LoggedTime_UnmarshalJSON j)
      else if k = ''payload'' then Some (env\<lparr>ev_Payload := j\<rparr>)
      else Some env)"

definition UnmarshalEnvelope :: "json \<Rightarrow> EventEnvelope option" where
  "UnmarshalEnvelope raw = into_struct envelope_field zero_EventEnvelope raw"

section \<open>Round trips\<close>

definition event_type_of :: "payload \<Rightarrow> EventType" where
  "event_type_of p =
     (case p of PCreated _ \<Rightarrow> EventTypeCreated | PClaimed _ \<Rightarrow> EventTypeClaimed
      | PUnclaimed _ \<Rightarrow> EventTypeUnclaimed | PUpdated _ \<Rightarrow> EventTypeUpdated
      | PLinked _ \<Rightarrow> EventTypeLinked | PSlotChanged _ \<Rightarrow> EventTypeSlotChanged
      | PClosed _ \<Rightarrow> EventTypeClosed)"

lemma event_type_of_simps [simp]:
  "event_type_of (PCreated a) = EventTypeCreated" "event_type_of (PClaimed b) = EventTypeClaimed"
  "event_type_of (PUnclaimed c) = EventTypeUnclaimed" "event_type_of (PUpdated d) = EventTypeUpdated"
  "event_type_of (PLinked e) = EventTypeLinked" "event_type_of (PSlotChanged f) = EventTypeSlotChanged"
  "event_type_of (PClosed g) = EventTypeClosed"
  by (simp_all add: event_type_of_def)

text \<open>Well-formed payloads: snapshots are well-formed records, changes carry JSON texts.\<close>

definition wf_payload :: "payload \<Rightarrow> bool" where
  "wf_payload p =
     (case p of
        PCreated c \<Rightarrow> (case cp_Snapshot c of None \<Rightarrow> True | Some t \<Rightarrow> wf_Task t)
      | PUpdated u \<Rightarrow> (\<forall>c \<in> set (upd_Changes u). fc_Old c \<noteq> JMalformed \<and> fc_New c \<noteq> JMalformed)
      | _ \<Rightarrow> True)"

lemma into_task_ptr_encode [simp]: "wf_Task t \<Longrightarrow> into_task_ptr None (encode t) = Some (Some t)"
  using decode_encode [of t] by (simp add: decode_def encode_def)

lemma into_changes_json:
  assumes "\<forall>c \<in> set cs. fc_Old c \<noteq> JMalformed \<and> fc_New c \<noteq> JMalformed"
  shows "into_slice (into_struct change_field) zero_FieldChange olds (JArr (map json_FieldChange cs)) = Some cs"
  unfolding into_slice.simps
  by (rule into_elems_map) (use assms in \<open>simp add: json_FieldChange_def change_field_def json_raw_def member_def\<close>)

lemma DecodePayload_marshal:
  assumes "ev_Type env = event_type_of p" and "ev_Payload env = marshal_payload p" and "wf_payload p"
  shows "DecodePayload env = Inr p"
proof (cases p)
  case (PCreated c)
  with assms show ?thesis
    by (cases "cp_Snapshot c")
      (simp_all add: DecodePayload_def into_fields_simps created_field_def wf_payload_def)
next
  case (PUpdated u)
  then have "into_slice (into_struct change_field) zero_FieldChange [] (JArr (map json_FieldChange (upd_Changes u)))
      = Some (upd_Changes u)"
    using assms(3) into_changes_json by (simp add: wf_payload_def)
  with PUpdated assms show ?thesis
    by (simp add: DecodePayload_def into_fields_simps updated_field_def)
qed (use assms in \<open>simp_all add: DecodePayload_def into_fields_simps claimed_field_def
    unclaimed_field_def linked_field_def slot_field_def closed_field_def\<close>)

lemma logged_idem [simp]: "logged (logged t) = logged t"
  by (simp add: logged_def minus_mod_eq_mult_div)

lemma logged_bounds: "logged t \<le> t" "t < logged t + 1000000000"
  using pos_mod_bound [of 1000000000 t] pos_mod_sign [of 1000000000 t] by (simp_all add: logged_def)

lemma logged_mono: "s \<le> t \<Longrightarrow> logged s \<le> logged t"
  by (simp add: logged_def minus_mod_eq_mult_div zdiv_mono1)

text \<open>What survives the stream of an envelope: everything but the fraction of a second.\<close>

lemma UnmarshalEnvelope_Marshal:
  assumes "ev_Payload env \<noteq> JMalformed"
  shows "UnmarshalEnvelope (MarshalEnvelope env) =
    Some (env\<lparr>ev_Timestamp := logged (ev_Timestamp env), ev_StreamSeq := 0\<rparr>)"
  using assms
  by (simp add: UnmarshalEnvelope_def MarshalEnvelope_def into_fields_simps envelope_field_def
      LoggedTime_MarshalJSON_def json_raw_def zero_EventEnvelope_def)

definition wf_envelope :: "EventEnvelope \<Rightarrow> bool" where
  "wf_envelope env =
     (ev_Payload env \<noteq> JMalformed \<and> ev_StreamSeq env = 0 \<and> logged (ev_Timestamp env) = ev_Timestamp env)"

interpretation envelope_wire: wire_format MarshalEnvelope UnmarshalEnvelope wf_envelope
proof
  fix env
  assume "wf_envelope env"
  then have "ev_Payload env \<noteq> JMalformed"
    and e: "env\<lparr>ev_Timestamp := logged (ev_Timestamp env), ev_StreamSeq := 0\<rparr> = env"
    by (simp_all add: wf_envelope_def)
  then show "UnmarshalEnvelope (MarshalEnvelope env) = Some env"
    using UnmarshalEnvelope_Marshal by metis
qed

interpretation payload_wire: wire_format marshal_payload
  "\<lambda>j. case DecodePayload (zero_EventEnvelope\<lparr>ev_Type := event_type_of p, ev_Payload := j\<rparr>) of
         Inl _ \<Rightarrow> None | Inr q \<Rightarrow> Some q"
  "\<lambda>q. event_type_of q = event_type_of p \<and> wf_payload q" for p
proof
  fix q
  assume q: "event_type_of q = event_type_of p \<and> wf_payload q"
  have "DecodePayload (zero_EventEnvelope\<lparr>ev_Type := event_type_of p, ev_Payload := marshal_payload q\<rparr>) = Inr q"
    by (rule DecodePayload_marshal) (use q in simp_all)
  then show "(case DecodePayload (zero_EventEnvelope\<lparr>ev_Type := event_type_of p, ev_Payload := marshal_payload q\<rparr>)
      of Inl _ \<Rightarrow> None | Inr q \<Rightarrow> Some q) = Some q"
    by simp
qed

lemma marshal_payload_json [simp]: "marshal_payload p \<noteq> JMalformed"
  by (cases p) auto

text \<open>The subjects: one per task, all under the stream's filter.\<close>

lemma EventSubject_inj [simp]: "EventSubject a = EventSubject b \<longleftrightarrow> a = b"
  by (simp add: EventSubject_def)

lemma EventSubject_matches: "i \<noteq> [] \<Longrightarrow> subject_matches AllEventsSubject (EventSubject i)"
  by (cases i) (simp_all add: subject_matches_def AllEventsSubject_def EventSubject_def has_prefix_def)

section \<open>The tally\<close>

record Tally =
  tal_Open :: int
  tal_Claimed :: int
  tal_Closed :: int
  tal_Total :: int

definition tally_event :: "(string \<times> Status) list \<Rightarrow> EventEnvelope \<Rightarrow> (string \<times> Status) list" where
  "tally_event statuses env =
     (if ev_Type env = EventTypeCreated
      then (if map_of statuses (ev_TaskID env) = None
            then AList.update (ev_TaskID env) StatusOpen statuses else statuses)
      else if ev_Type env = EventTypeClaimed then AList.update (ev_TaskID env) StatusClaimed statuses
      else if ev_Type env = EventTypeUnclaimed then AList.update (ev_TaskID env) StatusOpen statuses
      else if ev_Type env = EventTypeClosed then AList.update (ev_TaskID env) StatusClosed statuses
      else statuses)"

definition tally_status :: "Tally \<Rightarrow> Status \<Rightarrow> Tally" where
  "tally_status t s =
     (let t = (if s = StatusOpen then t\<lparr>tal_Open := tal_Open t + 1\<rparr>
               else if s = StatusClaimed then t\<lparr>tal_Claimed := tal_Claimed t + 1\<rparr>
               else if s = StatusClosed then t\<lparr>tal_Closed := tal_Closed t + 1\<rparr>
               else t)
      in t\<lparr>tal_Total := tal_Total t + 1\<rparr>)"

definition TaskTally :: "EventEnvelope list \<Rightarrow> Tally" where
  "TaskTally events =
     (let statuses = foldl tally_event [] events in
      foldl tally_status \<lparr>tal_Open = 0, tal_Claimed = 0, tal_Closed = 0, tal_Total = 0\<rparr> (map snd statuses))"

definition RecentActivityCount :: int where
  "RecentActivityCount = 20"

text \<open>
  The reference: the status a log gives one task, read from its own events alone. The tally counts
  the tasks of each status.
\<close>

fun status_after :: "Status option \<Rightarrow> EventEnvelope list \<Rightarrow> Status option" where
  "status_after st [] = st"
| "status_after st (env # envs) = status_after
     (if ev_Type env = EventTypeCreated then (if st = None then Some StatusOpen else st)
      else if ev_Type env = EventTypeClaimed then Some StatusClaimed
      else if ev_Type env = EventTypeUnclaimed then Some StatusOpen
      else if ev_Type env = EventTypeClosed then Some StatusClosed
      else st) envs"

definition log_status :: "EventEnvelope list \<Rightarrow> string \<Rightarrow> Status option" where
  "log_status events i = status_after None (filter (\<lambda>e. ev_TaskID e = i) events)"

definition tasks_with :: "EventEnvelope list \<Rightarrow> Status \<Rightarrow> string set" where
  "tasks_with events st = {i. log_status events i = Some st}"

lemma tally_events_status:
  "map_of (foldl tally_event m events) i =
   status_after (map_of m i) (filter (\<lambda>e. ev_TaskID e = i) events)"
proof (induction events arbitrary: m)
  case (Cons env events)
  then show ?case by (auto simp: tally_event_def)
qed simp

lemma tally_events_distinct:
  "distinct (map fst m) \<Longrightarrow> distinct (map fst (foldl tally_event m events))"
proof (induction events arbitrary: m)
  case (Cons env events)
  then show ?case by (simp add: tally_event_def)
qed simp

lemma status_after_valid:
  "status_after st es = Some s \<Longrightarrow> (\<And>x. st = Some x \<Longrightarrow> validStatus x) \<Longrightarrow> validStatus s"
  by (induction st es rule: status_after.induct) (auto simp: validStatus_def split: if_splits)

lemma foldl_tally_status:
  "foldl tally_status t ss =
   \<lparr>tal_Open = tal_Open t + int (count_list ss StatusOpen),
    tal_Claimed = tal_Claimed t + int (count_list ss StatusClaimed),
    tal_Closed = tal_Closed t + int (count_list ss StatusClosed),
    tal_Total = tal_Total t + int (length ss)\<rparr>"
  by (induction ss arbitrary: t) (auto simp: tally_status_def Let_def)

lemma count_snd_card:
  assumes "distinct (map fst m)"
  shows "count_list (map snd m) s = card {i. map_of m i = Some s}"
  using assms
proof (induction m)
  case (Cons kv m)
  obtain k v where [simp]: "kv = (k, v)" by (cases kv)
  have fin: "finite {i. map_of m i = Some s}"
    by (rule finite_subset [OF _ finite_dom_map_of [of m]]) auto
  have k: "map_of m k = None" using Cons.prems by (simp add: map_of_eq_None_iff)
  have "{i. map_of (kv # m) i = Some s} =
      (if v = s then insert k {i. map_of m i = Some s} else {i. map_of m i = Some s})"
    using k by auto
  then have "card {i. map_of (kv # m) i = Some s} =
      (if v = s then Suc (card {i. map_of m i = Some s}) else card {i. map_of m i = Some s})"
    using fin k by (simp only: split: if_split) (simp add: card_insert_if)
  with Cons show ?case by simp
qed simp

lemma TaskTally_counts:
  "TaskTally events =
   \<lparr>tal_Open = int (card (tasks_with events StatusOpen)),
    tal_Claimed = int (card (tasks_with events StatusClaimed)),
    tal_Closed = int (card (tasks_with events StatusClosed)),
    tal_Total = int (card {i. log_status events i \<noteq> None})\<rparr>"
proof -
  let ?m = "foldl tally_event [] events"
  have d: "distinct (map fst ?m)" by (rule tally_events_distinct) simp
  have st: "map_of ?m i = log_status events i" for i
    by (simp add: tally_events_status log_status_def)
  have "int (length ?m) = int (card (fst ` set ?m))"
    using d by (metis distinct_card length_map list.set_map)
  also have "fst ` set ?m = {i. log_status events i \<noteq> None}"
    by (simp add: st [symmetric] dom_map_of_conv_image_fst [symmetric] dom_def)
  finally show ?thesis
    using d by (simp add: TaskTally_def foldl_tally_status count_snd_card st tasks_with_def)
qed

text \<open>The buckets partition the tasks, as the comment on \<^verbatim>\<open>Total\<close> says.\<close>

lemma TaskTally_total:
  "tal_Total (TaskTally events) =
   tal_Open (TaskTally events) + tal_Claimed (TaskTally events) + tal_Closed (TaskTally events)"
proof -
  let ?m = "foldl tally_event [] events"
  have "validStatus v" if "(i, v) \<in> set ?m" for i v
  proof -
    from that have "map_of ?m i = Some v" by (simp add: tally_events_distinct)
    then have "status_after (map_of [] i) (filter (\<lambda>e. ev_TaskID e = i) events) = Some v"
      by (simp only: tally_events_status)
    then show ?thesis by (rule status_after_valid) simp
  qed
  then have v: "\<forall>v \<in> set (map snd ?m). validStatus v" by auto
  have "length ss = count_list ss StatusOpen + count_list ss StatusClaimed + count_list ss StatusClosed"
    if "\<forall>v \<in> set ss. validStatus v" for ss
    using that by (induction ss) (auto simp: validStatus_def)
  from this [OF v] show ?thesis by (simp add: TaskTally_def foldl_tally_status Let_def)
qed

section \<open>Properties\<close>

text \<open>An event survives the log: every payload that can be encoded is, for a non-empty task ID, and
  what is read back from the stream has the same type, task and payload.\<close>

theorem event_round_trip:
  assumes "wf_payload p" and "i \<noteq> []"
  shows "\<exists>env env'. EncodeEnvelope (event_type_of p) i p now = Inr env \<and>
    UnmarshalEnvelope (MarshalEnvelope env) = Some env' \<and> DecodePayload env' = Inr p \<and>
    ev_Type env' = event_type_of p \<and> ev_TaskID env' = i \<and> ev_Timestamp env' = logged now"
proof -
  have v: "EventType_Valid (event_type_of p)" by (cases p) simp_all
  define env where "env = \<lparr>ev_Type = event_type_of p, ev_TaskID = i, ev_Timestamp = now,
    ev_Payload = marshal_payload p, ev_StreamSeq = 0\<rparr>"
  have "EncodeEnvelope (event_type_of p) i p now = Inr env"
    using v assms(2) by (simp add: EncodeEnvelope_def env_def)
  moreover have "UnmarshalEnvelope (MarshalEnvelope env) =
      Some (env\<lparr>ev_Timestamp := logged now, ev_StreamSeq := 0\<rparr>)"
    using UnmarshalEnvelope_Marshal [of env] by (simp add: env_def)
  ultimately show ?thesis using assms(1) by (auto simp: DecodePayload_marshal env_def)
qed

theorem event_round_trip_witness:
  "\<exists>env env'. EncodeEnvelope EventTypeUnclaimed ''bones-1'' (PUnclaimed \<lparr>up_Reason = ''release''\<rparr>) 7 = Inr env \<and>
    UnmarshalEnvelope (MarshalEnvelope env) = Some env' \<and> DecodePayload env' = Inr (PUnclaimed \<lparr>up_Reason = ''release''\<rparr>)"
  using event_round_trip [of "PUnclaimed \<lparr>up_Reason = ''release''\<rparr>" "''bones-1''" 7]
  by (auto simp: wf_payload_def)

text \<open>The tally of a log counts the tasks by the status the log leaves them in: open, claimed and closed
  are the numbers of tasks whose events end in that status, and every task the log mentions is counted in
  exactly one of them.\<close>

theorem tally_counts_tasks:
  "TaskTally events =
   \<lparr>tal_Open = int (card (tasks_with events StatusOpen)),
    tal_Claimed = int (card (tasks_with events StatusClaimed)),
    tal_Closed = int (card (tasks_with events StatusClosed)),
    tal_Total = int (card {i. log_status events i \<noteq> None})\<rparr> \<and>
   tal_Total (TaskTally events) =
     tal_Open (TaskTally events) + tal_Claimed (TaskTally events) + tal_Closed (TaskTally events)"
  using TaskTally_counts TaskTally_total by blast

end
