(* ===== verification/Task_Tx.thy ===== *)
theory Task_Tx
  imports Task_Store Task_Events
begin

text \<open>
  \<^verbatim>\<open>internal/tasks/tx.go\<close>: the transactions through which every live mutation of a task goes. An
  operation publishes one event on the log and then applies its mutator to the stored record in the
  compare-and-swap loop of the store, stamping the event's sequence number on the record. The lemmas
  show this order for every operation: a record written by a transaction carries the number of an
  event published before, and a transaction that fails in the mutator has published its event
  nevertheless.
\<close>

section \<open>Transaction state\<close>

record Tx =
  tx_dirty :: bool
  tx_firstErr :: "err option"

definition markDirty :: "Tx \<Rightarrow> Tx" where
  "markDirty tx = tx\<lparr>tx_dirty := True\<rparr>"

definition recordErr :: "Tx \<Rightarrow> err \<Rightarrow> Tx" where
  "recordErr tx e = (if tx_firstErr tx = None then tx\<lparr>tx_firstErr := Some e\<rparr> else tx)"

definition Manager_Tx ::
  "Manager \<Rightarrow> string \<Rightarrow> (Tx \<Rightarrow> 's \<Rightarrow> (err + 'a) \<times> Tx \<times> 's) \<Rightarrow> 's \<Rightarrow> (err + 'a) \<times> 's" where
  "Manager_Tx m taskID fn s =
     (if taskID = [] then (Inl (EPanic ''tasks.Tx: taskID is empty''), s)
      else if m_done m then (Inl (ETasks ErrClosed), s)
      else case fn \<lparr>tx_dirty = False, tx_firstErr = None\<rparr> s of
             (Inl e, tx, s') \<Rightarrow> (Inl e, s')
           | (Inr a, tx, s') \<Rightarrow>
               (case tx_firstErr tx of
                  Some e \<Rightarrow> (Inl e, s')
                | None \<Rightarrow> if \<not> tx_dirty tx then (Inl (ETasks ErrNoMutations), s') else (Inr a, s')))"

section \<open>Operations\<close>

definition publish :: "'s sys \<Rightarrow> Manager \<Rightarrow> EventEnvelope \<Rightarrow> 's \<Rightarrow> (err + nat) \<times> 's" where
  "publish js m env s =
     (if \<not> m_stream m then (Inl (ETasks ErrEventLogDisabled), s)
      else case js_Publish js s (EventSubject (ev_TaskID env)) (MarshalEnvelope env) of
             (Inl x, s') \<Rightarrow> (Inl (EKV x), s')
           | (Inr q, s') \<Rightarrow> (Inr q, s'))"

text \<open>\<open>publish_event\<close> is the pair \<^verbatim>\<open>EncodeEnvelope\<close>, \<^verbatim>\<open>publish\<close> that every operation runs first.\<close>

definition publish_event ::
  "'s sys \<Rightarrow> Manager \<Rightarrow> EventType \<Rightarrow> string \<Rightarrow> payload \<Rightarrow> 's \<Rightarrow> (err + nat) \<times> 's" where
  "publish_event js m et taskID p s =
     (case EncodeEnvelope et taskID p (js_Now js s) of
        Inl e \<Rightarrow> (Inl e, s)
      | Inr env \<Rightarrow> publish js m env s)"

definition Tx_Create :: "'s sys \<Rightarrow> Manager \<Rightarrow> string \<Rightarrow> Task \<Rightarrow> Tx \<Rightarrow> 's \<Rightarrow> (err + unit) \<times> Tx \<times> 's" where
  "Tx_Create js m taskID t tx0 s =
     (let tx = markDirty tx0; failed = (\<lambda>e s'. (Inl e, recordErr tx e, s')) in
      if t_ID t \<noteq> taskID then failed (EMsg ''tasks.Tx.Create: t.ID != tx.taskID'') s
      else case validateForCreate t of
             Inl e \<Rightarrow> failed (ETasks e) s
           | Inr _ \<Rightarrow>
               (case publish_event js m EventTypeCreated (t_ID t)
                       (PCreated \<lparr>cp_Title = t_Title t, cp_Slot = [], cp_Files = t_Files t, cp_Snapshot = None\<rparr>) s of
                  (Inl e, s1) \<Rightarrow> failed e s1
                | (Inr q, s1) \<Rightarrow>
                    (case tasks_create js m (t\<lparr>t_LastEventSeq := q\<rparr>) s1 of
                       (Inl e, s2) \<Rightarrow> failed e s2
                     | (Inr u, s2) \<Rightarrow> (Inr u, tx, s2))))"

text \<open>
  The tail shared by the operations with a mutator: publish the event, wrap the mutator, update.
\<close>

definition tx_apply ::
  "'s sys \<Rightarrow> Manager \<Rightarrow> string \<Rightarrow> EventType \<Rightarrow> payload \<Rightarrow> (nat \<Rightarrow> mutator) \<Rightarrow> Tx \<Rightarrow> 's \<Rightarrow>
   (err + Task) \<times> Tx \<times> 's" where
  "tx_apply js m taskID et p wrapped tx s =
     (case publish_event js m et taskID p s of
        (Inl e, s1) \<Rightarrow> (Inl e, recordErr tx e, s1)
      | (Inr q, s1) \<Rightarrow>
          (case tasks_update js m taskID (wrapped q) s1 of
             (Inl e, s2) \<Rightarrow> (Inl e, recordErr tx e, s2)
           | (Inr t, s2) \<Rightarrow> (Inr t, tx, s2)))"

text \<open>The wrappers: \<^verbatim>\<open>next.UpdatedAt = time.Now(); next.LastEventSeq = seq\<close> (one clock reading per attempt).\<close>

definition stamped :: "mutator \<Rightarrow> nat \<Rightarrow> mutator" where
  "stamped mutate q now t =
     (case mutate now t of
        Inl e \<Rightarrow> Inl e
      | Inr nxt \<Rightarrow> Inr (nxt\<lparr>t_UpdatedAt := now, t_LastEventSeq := q\<rparr>))"

definition seq_stamped :: "mutator \<Rightarrow> nat \<Rightarrow> mutator" where
  "seq_stamped mutate q now t =
     (case mutate now t of Inl e \<Rightarrow> Inl e | Inr nxt \<Rightarrow> Inr (nxt\<lparr>t_LastEventSeq := q\<rparr>))"

record ClaimArgs =
  ca_AgentID :: string
  ca_Slot :: string
  ca_ClaimEpoch :: "64 word"
  ca_PrevAgent :: string
  ca_Mutate :: "mutator option"

definition Tx_Claim :: "'s sys \<Rightarrow> Manager \<Rightarrow> string \<Rightarrow> ClaimArgs \<Rightarrow> Tx \<Rightarrow> 's \<Rightarrow> (err + Task) \<times> Tx \<times> 's" where
  "Tx_Claim js m taskID args tx0 s =
     (let tx = markDirty tx0; failed = (\<lambda>e. (Inl e, recordErr tx e, s)) in
      if ca_AgentID args = [] then failed (EMsg ''tasks.Tx.Claim: AgentID is empty'')
      else case ca_Mutate args of
             None \<Rightarrow> failed (EMsg ''tasks.Tx.Claim: Mutate is nil'')
           | Some mutate \<Rightarrow>
               tx_apply js m taskID EventTypeClaimed
                 (PClaimed \<lparr>clp_AgentID = ca_AgentID args, clp_Slot = ca_Slot args,
                            clp_ClaimEpoch = ca_ClaimEpoch args, clp_PrevAgent = ca_PrevAgent args\<rparr>)
                 (stamped mutate) tx s)"

definition unclaim_default :: mutator where
  "unclaim_default now t = Inr (t\<lparr>t_Status := StatusOpen, t_ClaimedBy := []\<rparr>)"

definition Tx_Unclaim ::
  "'s sys \<Rightarrow> Manager \<Rightarrow> string \<Rightarrow> string \<Rightarrow> mutator option \<Rightarrow> Tx \<Rightarrow> 's \<Rightarrow> (err + Task) \<times> Tx \<times> 's" where
  "Tx_Unclaim js m taskID reason mutate tx0 s =
     tx_apply js m taskID EventTypeUnclaimed (PUnclaimed \<lparr>up_Reason = reason\<rparr>)
       (stamped (case mutate of Some f \<Rightarrow> f | None \<Rightarrow> unclaim_default)) (markDirty tx0) s"

definition Tx_Update ::
  "'s sys \<Rightarrow> Manager \<Rightarrow> string \<Rightarrow> mutator option \<Rightarrow> FieldChange list \<Rightarrow> Tx \<Rightarrow> 's \<Rightarrow> (err + Task) \<times> Tx \<times> 's" where
  "Tx_Update js m taskID mutate changes tx0 s =
     (let tx = markDirty tx0; failed = (\<lambda>e. (Inl e, recordErr tx e, s)) in
      if changes = [] then failed (EMsg ''tasks.Tx.Update: no field changes'')
      else case mutate of
             None \<Rightarrow> failed (EMsg ''tasks.Tx.Update: mutate is nil'')
           | Some f \<Rightarrow>
               tx_apply js m taskID EventTypeUpdated (PUpdated \<lparr>upd_Changes = changes\<rparr>) (stamped f) tx s)"

definition link_mutator :: "string \<Rightarrow> string \<Rightarrow> mutator" where
  "link_mutator otherID edgeType now t =
     Inr (t\<lparr>t_Edges := t_Edges t @ [\<lparr>edge_Type = edgeType, edge_Target = otherID\<rparr>]\<rparr>)"

definition Tx_Link ::
  "'s sys \<Rightarrow> Manager \<Rightarrow> string \<Rightarrow> string \<Rightarrow> string \<Rightarrow> Tx \<Rightarrow> 's \<Rightarrow> (err + Task) \<times> Tx \<times> 's" where
  "Tx_Link js m taskID otherID edgeType tx0 s =
     (let tx = markDirty tx0; failed = (\<lambda>e. (Inl e, recordErr tx e, s)) in
      if otherID = [] then failed (EMsg ''tasks.Tx.Link: otherID is empty'')
      else if edgeType = [] then failed (EMsg ''tasks.Tx.Link: edgeType is empty'')
      else tx_apply js m taskID EventTypeLinked
             (PLinked \<lparr>lp_OtherID = otherID, lp_EdgeType = edgeType\<rparr>)
             (stamped (link_mutator otherID edgeType)) tx s)"

definition Tx_SlotChange ::
  "'s sys \<Rightarrow> Manager \<Rightarrow> string \<Rightarrow> string \<Rightarrow> string \<Rightarrow> Tx \<Rightarrow> 's \<Rightarrow> (err + unit) \<times> Tx \<times> 's" where
  "Tx_SlotChange js m taskID from to tx0 s =
     (let tx = markDirty tx0 in
      if to = [] then (let e = EMsg ''tasks.Tx.SlotChange: to is empty'' in (Inl e, recordErr tx e, s))
      else case publish_event js m EventTypeSlotChanged taskID
                  (PSlotChanged \<lparr>sp_From = from, sp_To = to\<rparr>) s of
             (Inl e, s') \<Rightarrow> (Inl e, recordErr tx e, s')
           | (Inr _, s') \<Rightarrow> (Inr (), tx, s'))"

definition Tx_Close ::
  "'s sys \<Rightarrow> Manager \<Rightarrow> string \<Rightarrow> string \<Rightarrow> string \<Rightarrow> mutator option \<Rightarrow> Tx \<Rightarrow> 's \<Rightarrow> (err + Task) \<times> Tx \<times> 's" where
  "Tx_Close js m taskID agentID reason mutate tx0 s =
     (let tx = markDirty tx0 in
      case mutate of
        None \<Rightarrow> (let e = EMsg ''tasks.Tx.Close: mutate is nil'' in (Inl e, recordErr tx e, s))
      | Some f \<Rightarrow>
          tx_apply js m taskID EventTypeClosed
            (PClosed \<lparr>clo_AgentID = agentID, clo_Reason = reason\<rparr>) (seq_stamped f) tx s)"

definition FieldChangeFromAny :: "string \<Rightarrow> json \<Rightarrow> json \<Rightarrow> FieldChange" where
  "FieldChangeFromAny field oldV newV = \<lparr>fc_Field = field, fc_Old = oldV, fc_New = newV\<rparr>"

lemmas tx_ops =
  Tx_Create_def Tx_Claim_def Tx_Unclaim_def Tx_Update_def Tx_Link_def Tx_SlotChange_def Tx_Close_def

section \<open>Mutators\<close>

text \<open>A mutator that keeps map keys distinct, as any Go code does.\<close>

definition wf_mutator :: "mutator \<Rightarrow> bool" where
  "wf_mutator f = (\<forall>now t u. wf_Task t \<longrightarrow> f now t = Inr u \<longrightarrow> wf_Task u)"

lemma wf_mutatorD: "wf_mutator f \<Longrightarrow> wf_Task t \<Longrightarrow> f now t = Inr u \<Longrightarrow> wf_Task u"
  by (auto simp: wf_mutator_def)

lemma wf_stamped [simp]: "wf_mutator f \<Longrightarrow> wf_mutator (stamped f q)" "wf_mutator f \<Longrightarrow> wf_mutator (seq_stamped f q)"
  by (force simp: wf_mutator_def stamped_def seq_stamped_def wf_Task_def split: sum.splits)+

lemma wf_tx_mutators [simp]: "wf_mutator unclaim_default" "wf_mutator (link_mutator a b)"
  by (simp_all add: wf_mutator_def unclaim_default_def link_mutator_def wf_Task_def)

lemma stamped_ok:
  "stamped f q now t = Inr u \<longleftrightarrow> (\<exists>v. f now t = Inr v \<and> u = v\<lparr>t_UpdatedAt := now, t_LastEventSeq := q\<rparr>)"
  by (auto simp: stamped_def split: sum.splits)

lemma seq_stamped_ok:
  "seq_stamped f q now t = Inr u \<longleftrightarrow> (\<exists>v. f now t = Inr v \<and> u = v\<lparr>t_LastEventSeq := q\<rparr>)"
  by (auto simp: seq_stamped_def split: sum.splits)

text \<open>Both wrappers stamp the sequence number.\<close>

definition stamps :: "(nat \<Rightarrow> mutator) \<Rightarrow> bool" where
  "stamps w = (\<forall>q now t u. w q now t = Inr u \<longrightarrow> t_LastEventSeq u = q)"

lemma stamps_wrappers [simp]: "stamps (stamped f)" "stamps (seq_stamped f)"
  by (auto simp: stamps_def stamped_ok seq_stamped_ok)

section \<open>Publish, then write\<close>

text \<open>
  \<open>logged_event ob rely s q et i p s'\<close>: between \<open>s\<close> and \<open>s'\<close> an event of type \<open>et\<close> for task \<open>i\<close> with payload \<open>p\<close> was
  appended to the stream under number \<open>q\<close>, greater than every number before it, and nothing else
  happened but what other processes did before.
\<close>

definition logged_event ::
  "'s obs \<Rightarrow> ('s \<Rightarrow> 's \<Rightarrow> bool) \<Rightarrow> 's \<Rightarrow> nat \<Rightarrow> EventType \<Rightarrow> string \<Rightarrow> payload \<Rightarrow> 's \<Rightarrow> bool" where
  "logged_event ob rely s q et i p s' =
     (\<exists>s1 msg env. rely s s1 \<and> o_view ob s' = o_view ob s1 \<and> o_seqno ob s' = o_seqno ob s1 \<and>
        (\<forall>x \<in> set (o_strm ob s1). msg_Sequence x < q) \<and>
        o_strm ob s' = o_strm ob s1 @ [msg] \<and> msg_Sequence msg = q \<and>
        msg_Subject msg = EventSubject i \<and>
        UnmarshalEnvelope (msg_Data msg) = Some env \<and>
        ev_Type env = et \<and> ev_TaskID env = i \<and> ev_Payload env = marshal_payload p)"

context jetstream
begin

lemma publish_event_ok:
  assumes "publish_event js m et i p s = (Inr q, s')"
  shows "logged_event ob rely s q et i p s'"
proof -
  from assms obtain env where env: "EncodeEnvelope et i p (js_Now js s) = Inr env"
    and pub: "js_Publish js s (EventSubject (ev_TaskID env)) (MarshalEnvelope env) = (Inr q, s')"
    by (auto simp: publish_event_def publish_def split: sum.splits if_splits prod.splits)
  from env have e: "ev_Type env = et" "ev_TaskID env = i" "ev_Payload env = marshal_payload p"
    by (auto simp: EncodeEnvelope_def split: if_splits)
  from publish_ok [OF pub] obtain s1 where s1: "rely s s1" "o_view ob s' = o_view ob s1"
    "o_seqno ob s' = o_seqno ob s1" "\<forall>x \<in> set (o_strm ob s1). msg_Sequence x < q"
    "o_strm ob s' = o_strm ob s1 @
       [\<lparr>msg_Sequence = q, msg_Subject = EventSubject i, msg_Data = MarshalEnvelope env\<rparr>]"
    unfolding e by blast
  show ?thesis
    unfolding logged_event_def
    by (rule exI [of _ s1], rule exI,
        rule exI [of _ "env\<lparr>ev_Timestamp := logged (ev_Timestamp env), ev_StreamSeq := 0\<rparr>"], intro conjI, rule s1(1), rule s1(2), rule s1(3),
        rule s1(4), rule s1(5))
      (use e in \<open>simp_all add: UnmarshalEnvelope_Marshal\<close>)
qed

lemma publish_event_err:
  assumes "publish_event js m et i p s = (Inl x, s')"
  shows "\<exists>s1. rely s s1 \<and> o_view ob s' = o_view ob s1 \<and> o_seqno ob s' = o_seqno ob s1"
proof -
  consider "s' = s"
    | subj j y where "js_Publish js s subj j = (Inl y, s')"
    using assms by (auto simp: publish_event_def publish_def split: sum.splits if_splits prod.splits)
  then show ?thesis
  proof cases
    case 1 then show ?thesis using rely_refl by blast
  next
    case 2 then show ?thesis by (rule publish_err)
  qed
qed

text \<open>
  The contract of the tail: on success the event was logged, and then the record was replaced in one
  atomic step by what the mutator made of it, stamped with the event's number.
\<close>

lemma tx_apply_ok:
  assumes "tx_apply js m i et p w tx s = (Inr t, tx', s')"
  obtains q sp s1 cur now r where "logged_event ob rely s q et i p sp" and "tx' = tx"
    and "record_at (o_view ob s1) (m_bucket m) i = Some cur" and "w q now cur = Inr t"
    and "valid_Task t" and "lifecycle cur t"
    and "wrote ob s1 s' (m_bucket m) i (put_entry (encode t) r)"
proof -
  from assms obtain q sp where pe: "publish_event js m et i p s = (Inr q, sp)" and tx: "tx' = tx"
    and up: "tasks_update js m i (w q) sp = (Inr t, s')"
    by (auto simp: tx_apply_def split: sum.splits prod.splits)
  from up obtain s1 cur now r where "record_at (o_view ob s1) (m_bucket m) i = Some cur"
    and "w q now cur = Inr t" and "valid_Task t" and "lifecycle cur t"
    and "wrote ob s1 s' (m_bucket m) i (put_entry (encode t) r)"
    by (rule update_atomic)
  then show ?thesis using that publish_event_ok [OF pe] tx by blast
qed

lemma Manager_Tx_ok:
  "Manager_Tx m i fn s = (Inr a, s') \<Longrightarrow> \<exists>tx tx'. fn tx s = (Inr a, tx', s')"
  by (auto simp: Manager_Tx_def split: if_splits sum.splits prod.splits option.splits)

end

text \<open>Transactions keep the bucket valid, whether they succeed or fail.\<close>

context task_bucket
begin

lemma publish_event_keeps: "publish_event js m et i p s = (r, s') \<Longrightarrow> ok s \<Longrightarrow> ok s'"
proof -
  assume p: "publish_event js m et i p s = (r, s')" and o: "ok s"
  have "\<exists>s1. rely s s1 \<and> o_view ob s' = o_view ob s1"
    using p publish_event_err [of m et i p s _ s'] publish_event_ok [of m et i p s _ s']
    by (cases r) (blast, unfold logged_event_def, blast)
  then show ?thesis using stable [OF _ o] by auto
qed

lemma tx_apply_keeps:
  assumes "tx_apply js m i et p w tx s = (r, tx', s')" and "ok s" and "\<And>q. wf_mutator (w q)"
  shows "ok s'"
proof -
  obtain y sp where pe: "publish_event js m et i p s = (y, sp)" by fastforce
  have o: "ok sp" using pe assms(2) by (rule publish_event_keeps)
  have "ok s2" if "tasks_update js m i (w q) sp = (z, s2)" for q z s2
    using that o by (rule tasks_update_keeps) (use assms(3) in \<open>blast dest: wf_mutatorD\<close>)
  with assms(1) pe o show ?thesis by (auto simp: tx_apply_def split: sum.splits prod.splits)
qed

lemma Tx_Create_keeps:
  assumes "Tx_Create js m i t tx s = (r, tx', s')" and "ok s" and "wf_Task t"
  shows "ok s'"
proof -
  have w: "wf_Task (t\<lparr>t_LastEventSeq := q\<rparr>)" for q using assms(3) by (simp add: wf_Task_def)
  show ?thesis
    using assms(1,2) publish_event_keeps tasks_create_keeps [OF _ _ w]
    by (fastforce simp: Tx_Create_def Let_def split: if_splits sum.splits prod.splits)
qed

lemma Tx_Claim_keeps:
  "Tx_Claim js m i args tx s = (r, tx', s') \<Longrightarrow> ok s \<Longrightarrow>
   (\<And>f. ca_Mutate args = Some f \<Longrightarrow> wf_mutator f) \<Longrightarrow> ok s'"
  by (auto simp: Tx_Claim_def Let_def split: if_splits option.splits elim: tx_apply_keeps)

lemma Tx_Unclaim_keeps:
  "Tx_Unclaim js m i reason mf tx s = (r, tx', s') \<Longrightarrow> ok s \<Longrightarrow>
   (\<And>f. mf = Some f \<Longrightarrow> wf_mutator f) \<Longrightarrow> ok s'"
  by (auto simp: Tx_Unclaim_def elim!: tx_apply_keeps split: option.splits)

lemma Tx_Update_keeps:
  "Tx_Update js m i mf cs tx s = (r, tx', s') \<Longrightarrow> ok s \<Longrightarrow>
   (\<And>f. mf = Some f \<Longrightarrow> wf_mutator f) \<Longrightarrow> ok s'"
  by (auto simp: Tx_Update_def Let_def split: if_splits option.splits elim: tx_apply_keeps)

lemma Tx_Link_keeps: "Tx_Link js m i a b tx s = (r, tx', s') \<Longrightarrow> ok s \<Longrightarrow> ok s'"
  by (auto simp: Tx_Link_def Let_def split: if_splits elim: tx_apply_keeps)

lemma Tx_SlotChange_keeps: "Tx_SlotChange js m i a b tx s = (r, tx', s') \<Longrightarrow> ok s \<Longrightarrow> ok s'"
  by (auto simp: Tx_SlotChange_def Let_def split: if_splits sum.splits prod.splits dest: publish_event_keeps)

lemma Tx_Close_keeps:
  "Tx_Close js m i a b mf tx s = (r, tx', s') \<Longrightarrow> ok s \<Longrightarrow>
   (\<And>f. mf = Some f \<Longrightarrow> wf_mutator f) \<Longrightarrow> ok s'"
  by (auto simp: Tx_Close_def Let_def split: option.splits elim: tx_apply_keeps)

end

section \<open>Undisturbed transactions\<close>

definition mem_published :: "mem \<Rightarrow> EventType \<Rightarrow> string \<Rightarrow> payload \<Rightarrow> mem" where
  "mem_published s et i p = s\<lparr>mem_stream := mem_stream s @
     [Some (EventSubject i, MarshalEnvelope \<lparr>ev_Type = et, ev_TaskID = i, ev_Timestamp = mem_now s,
        ev_Payload = marshal_payload p, ev_StreamSeq = 0\<rparr>)]\<rparr>"

lemma mem_published_simps [simp]:
  "mem_log (mem_published s et i p) = mem_log s" "mem_view (mem_published s et i p) = mem_view s"
  "mem_now (mem_published s et i p) = mem_now s" "quiet (mem_published s et i p) = quiet s"
  "mem_rev (mem_published s et i p) = mem_rev s"
  by (simp_all add: mem_published_def mem_view_def fun_eq_iff quiet_def mem_rev_def)

lemma mem_publish_event_quiet:
  assumes "quiet s" and "m_stream m" and "i \<noteq> []" and "EventType_Valid et"
  shows "publish_event (mem_sys G) m et i p s = (Inr (Suc (length (mem_stream s))), mem_published s et i p)"
  using assms by (simp add: publish_event_def EncodeEnvelope_def publish_def mem_publish_def mem_published_def)

lemma mem_tx_apply_quiet:
  assumes "quiet s" and "mem_view s (m_bucket m) i = Some e" and "e_Operation e = KeyValuePut"
    and "decode (e_Value e) = Some t" and "t_SchemaVersion t \<ge> SchemaVersion"
    and "i \<noteq> []" and "\<not> m_done m" and "m_stream m" and "EventType_Valid et"
    and "w (Suc (length (mem_stream s))) (mem_now s) t = Inr u" and "valid_Task u" and "lifecycle t u"
    and "encodeBounded (mem_sys G) m u = Inr (encode u)"
  shows "tx_apply (mem_sys G) m i et p w tx s =
    (Inr u, tx, mem_write (mem_published s et i p) (m_bucket m) i KeyValuePut (encode u))"
  unfolding tx_apply_def mem_publish_event_quiet [OF assms(1,8,6,9)]
  using mem_tasks_update_quiet [of "mem_published s et i p" m i e t "w (Suc (length (mem_stream s)))" u G] assms
  by simp

lemma mem_tx_apply_rejected:
  assumes "quiet s" and "mem_view s (m_bucket m) i = Some e" and "e_Operation e = KeyValuePut"
    and "decode (e_Value e) = Some t" and "t_SchemaVersion t \<ge> SchemaVersion"
    and "i \<noteq> []" and "\<not> m_done m" and "m_stream m" and "EventType_Valid et"
    and "w (Suc (length (mem_stream s))) (mem_now s) t = Inl x"
  shows "tx_apply (mem_sys G) m i et p w tx s = (Inl x, recordErr tx x, mem_published s et i p)"
  unfolding tx_apply_def mem_publish_event_quiet [OF assms(1,8,6,9)]
  using mem_tasks_update_rejected [of "mem_published s et i p" m i e t "w (Suc (length (mem_stream s)))" x G] assms
  by simp

end
