(* ===== verification/Wspath.thy ===== *)
theory Wspath
  imports Bones_Prelude
begin

text \<open>
  \<^verbatim>\<open>internal/wspath/wspath.go\<close>: the typed key of a workspace file, with \<^verbatim>\<open>filepath.Clean\<close>,
  \<^verbatim>\<open>filepath.IsAbs\<close> and \<^verbatim>\<open>filepath.Join\<close> as they work on Unix. The lemmas show that a constructed path
  is canonical, that canonical paths are equal exactly when their components are, and that a relative
  path never leaves its workspace.
\<close>

section \<open>path/filepath\<close>

definition IsAbs :: "string \<Rightarrow> bool" where
  "IsAbs p = has_prefix p ''/''"

fun clean_parts :: "bool \<Rightarrow> string list \<Rightarrow> string list \<Rightarrow> string list" where
  "clean_parts rooted acc [] = rev acc"
| "clean_parts rooted acc (p # ps) =
     (if p = [] \<or> p = ''.'' then clean_parts rooted acc ps
      else if p = ''..'' then
        (case acc of
           [] \<Rightarrow> clean_parts rooted (if rooted then [] else [p]) ps
         | a # as \<Rightarrow> if a = ''..'' then clean_parts rooted (p # acc) ps else clean_parts rooted as ps)
      else clean_parts rooted (p # acc) ps)"

definition Clean :: "string \<Rightarrow> string" where
  "Clean p =
     (if p = [] then ''.''
      else let body = join_with ''/'' (clean_parts (IsAbs p) [] (split_on CHR ''/'' p)) in
           if IsAbs p then CHR ''/'' # body else if body = [] then ''.'' else body)"

definition Join :: "string \<Rightarrow> string \<Rightarrow> string" where
  "Join a b =
     (let es = filter (\<lambda>x. x \<noteq> []) [a, b] in if es = [] then [] else Clean (join_with ''/'' es))"

section \<open>wspath\<close>

record Path =
  path_abs :: string

definition wspath_New :: "string \<Rightarrow> err + Path" where
  "wspath_New p =
     (if p = [] then Inl (EInvalidPath ''empty input'')
      else if \<not> IsAbs p then Inl (EInvalidPath ''is not absolute'')
      else Inr \<lparr>path_abs = Clean p\<rparr>)"

definition NewRelative :: "string \<Rightarrow> string \<Rightarrow> err + Path" where
  "NewRelative workspaceDir rel =
     (if workspaceDir = [] then Inl (EInvalidPath ''workspaceDir is empty'')
      else if \<not> IsAbs workspaceDir then Inl (EInvalidPath ''workspaceDir is not absolute'')
      else if rel = [] then Inl (EInvalidPath ''rel is empty'')
      else if IsAbs rel then Inl (EInvalidPath ''rel is absolute (use New)'')
      else let root = Clean workspaceDir;
               joined = Clean (Join root rel)
           in if joined \<noteq> root \<and> \<not> has_prefix joined (root @ ''/'')
              then Inl (EInvalidPath ''escapes workspace'')
              else Inr \<lparr>path_abs = joined\<rparr>)"

definition AsKey :: "Path \<Rightarrow> string" where
  "AsKey p = path_abs p"

definition IsZero :: "Path \<Rightarrow> bool" where
  "IsZero p = (path_abs p = [])"

definition wspath_Must :: "string \<Rightarrow> err + Path" where
  "wspath_Must p = (case wspath_New p of Inl _ \<Rightarrow> Inl (EPanic ''wspath.Must'') | Inr x \<Rightarrow> Inr x)"

section \<open>Canonical absolute paths\<close>

definition good_part :: "string \<Rightarrow> bool" where
  "good_part p = (p \<noteq> [] \<and> CHR ''/'' \<notin> set p \<and> p \<noteq> ''.'' \<and> p \<noteq> ''..'')"

definition abs_path :: "string list \<Rightarrow> string" where
  "abs_path ps = CHR ''/'' # join_with ''/'' ps"

lemma IsAbs_Cons [simp]: "IsAbs (c # cs) \<longleftrightarrow> c = CHR ''/''" "\<not> IsAbs []"
  by (simp_all add: IsAbs_def has_prefix_def)

lemma IsAbs_abs_path [simp]: "IsAbs (abs_path ps)" "abs_path ps \<noteq> []"
  by (simp_all add: abs_path_def)

lemma clean_parts_good:
  "list_all good_part acc \<Longrightarrow> \<forall>p \<in> set ps. CHR ''/'' \<notin> set p \<Longrightarrow> list_all good_part (clean_parts True acc ps)"
proof (induction "True" acc ps rule: clean_parts.induct)
  case (2 acc p ps)
  then show ?case by (cases acc) (auto simp: good_part_def)
qed (simp add: list_all_rev)

lemma clean_parts_id:
  "list_all good_part ps \<Longrightarrow> clean_parts rooted acc ps = rev acc @ ps"
  by (induction ps arbitrary: acc) (auto simp: good_part_def)

lemma clean_parts_append:
  "clean_parts rooted acc (ps @ qs) = clean_parts rooted (rev (clean_parts rooted acc ps)) qs"
proof (induction rooted acc ps rule: clean_parts.induct)
  case (2 rooted acc p ps)
  then show ?case by (cases acc) auto
qed simp

lemma split_on_append: "split_on c (a @ c # r) = split_on c a @ split_on c r"
proof (induction a)
  case (Cons x a)
  then show ?case by (cases "split_on c a") auto
qed simp

lemma split_abs_path:
  "list_all good_part ps \<Longrightarrow> clean_parts True acc (split_on CHR ''/'' (abs_path ps)) = rev acc @ ps"
proof (cases ps)
  case (Cons p ps')
  assume g: "list_all good_part ps"
  then have "split_on CHR ''/'' (join_with ''/'' ps) = ps"
    using Cons by (intro split_on_join) (auto simp: list_all_iff good_part_def)
  with g show ?thesis using clean_parts_id [of ps True acc] by (simp add: abs_path_def)
qed (simp add: abs_path_def)

lemma Clean_abs:
  assumes "IsAbs p"
  obtains ps where "Clean p = abs_path ps" and "list_all good_part ps"
    and "ps = clean_parts True [] (split_on CHR ''/'' p)"
proof -
  let ?ps = "clean_parts True [] (split_on CHR ''/'' p)"
  have "list_all good_part ?ps"
    by (rule clean_parts_good) (auto dest: split_on_parts)
  moreover have "Clean p = abs_path ?ps"
    using assms by (cases p) (simp_all add: Clean_def abs_path_def Let_def)
  ultimately show ?thesis using that by blast
qed

lemma Clean_abs_path: "list_all good_part ps \<Longrightarrow> Clean (abs_path ps) = abs_path ps"
  using split_abs_path [of ps "[]"] by (simp add: Clean_def) (simp add: abs_path_def)

lemma Clean_idem_abs: "IsAbs p \<Longrightarrow> Clean (Clean p) = Clean p"
  using Clean_abs Clean_abs_path by metis

lemma abs_path_inj:
  assumes "list_all good_part ps" and "list_all good_part qs" and "abs_path ps = abs_path qs"
  shows "ps = qs"
proof -
  have "rev [] @ ps = rev [] @ qs"
    using split_abs_path [OF assms(1), of "[]"] split_abs_path [OF assms(2), of "[]"]
    unfolding assms(3) by (rule trans [OF sym])
  then show ?thesis by simp
qed

text \<open>A canonical path with a canonical path and a slash as prefix continues its components.\<close>

lemma abs_path_prefix:
  assumes "list_all good_part ps" and "list_all good_part qs"
    and "has_prefix (abs_path qs) (abs_path ps @ ''/'')"
  shows "\<exists>rs. qs = ps @ rs \<and> rs \<noteq> []"
proof -
  from assms(3) obtain r where r: "abs_path qs = abs_path ps @ CHR ''/'' # r"
    unfolding has_prefix_iff by auto
  have q: "qs \<noteq> []"
  proof
    assume "qs = []"
    with r have "length (abs_path ps @ CHR ''/'' # r) = 1" by (simp add: abs_path_def flip: r)
    then show False by (simp add: abs_path_def)
  qed
  have ns: "\<forall>p \<in> set ps. CHR ''/'' \<notin> set p" "\<forall>p \<in> set qs. CHR ''/'' \<notin> set p"
    using assms(1,2) by (auto simp: list_all_iff good_part_def)
  have "qs = split_on CHR ''/'' (join_with ''/'' qs)" using split_on_join [OF q ns(2)] by simp
  also have "\<dots> = split_on CHR ''/'' (join_with ''/'' ps @ CHR ''/'' # r)" using r by (simp add: abs_path_def)
  also have "\<dots> = split_on CHR ''/'' (join_with ''/'' ps) @ split_on CHR ''/'' r" by (rule split_on_append)
  finally have eq: "qs = split_on CHR ''/'' (join_with ''/'' ps) @ split_on CHR ''/'' r" .
  show ?thesis
  proof (cases "ps = []")
    case False
    with eq split_on_join [OF False ns(1)] show ?thesis by auto
  next
    case True
    with eq have "[] \<in> set qs" by simp
    with assms(2) show ?thesis by (auto simp: list_all_iff good_part_def)
  qed
qed

lemma abs_path_extend:
  "ps \<noteq> [] \<Longrightarrow> rs \<noteq> [] \<Longrightarrow> has_prefix (abs_path (ps @ rs)) (abs_path ps @ ''/'')"
proof -
  assume n: "ps \<noteq> []" "rs \<noteq> []"
  have "join_with ''/'' (ps @ rs) = join_with ''/'' ps @ ''/'' @ join_with ''/'' rs"
    using n by (rule join_with_append)
  then show ?thesis by (simp add: has_prefix_iff abs_path_def)
qed

section \<open>The constructors\<close>

lemma wspath_New_ok:
  assumes "wspath_New p = Inr x"
  obtains ps where "path_abs x = abs_path ps" and "list_all good_part ps" and "\<not> IsZero x"
proof -
  from assms have "IsAbs p" and x: "path_abs x = Clean p" by (auto simp: wspath_New_def split: if_splits)
  from this(1) obtain ps where "Clean p = abs_path ps" "list_all good_part ps" by (rule Clean_abs)
  then show ?thesis using that x IsAbs_abs_path(2) by (simp add: IsZero_def)
qed

lemma Join_abs: "rel \<noteq> [] \<Longrightarrow> Join (abs_path ps) rel = Clean (abs_path ps @ ''/'' @ rel)"
  by (simp add: Join_def)

lemma NewRelative_inside:
  assumes "NewRelative ws rel = Inr x"
  obtains ps rs where "Clean ws = abs_path ps" and "path_abs x = abs_path (ps @ rs)"
    and "list_all good_part (ps @ rs)"
proof -
  from assms have ws: "IsAbs ws" and rel: "rel \<noteq> []" and
    x: "path_abs x = Clean (Join (Clean ws) rel)" and
    ok: "path_abs x = Clean ws \<or> has_prefix (path_abs x) (Clean ws @ ''/'')"
    by (auto simp: NewRelative_def Let_def split: if_splits)
  from ws obtain ps where ps: "Clean ws = abs_path ps" "list_all good_part ps" by (rule Clean_abs)
  have "IsAbs (abs_path ps @ ''/'' @ rel)" by (simp add: abs_path_def)
  then have "IsAbs (Join (Clean ws) rel)"
    using ps(1) rel Join_abs Clean_abs IsAbs_abs_path(1) by metis
  then obtain qs where qs: "path_abs x = abs_path qs" "list_all good_part qs"
    using x Clean_abs by metis
  from ok show ?thesis
  proof
    assume "path_abs x = Clean ws"
    then show ?thesis using that [of ps "[]"] ps by simp
  next
    assume "has_prefix (path_abs x) (Clean ws @ ''/'')"
    then obtain rs where "qs = ps @ rs" using abs_path_prefix [OF ps(2) qs(2)] ps(1) qs(1) by auto
    then show ?thesis using that [of ps rs] ps(1) qs by simp
  qed
qed

text \<open>Components that never climb are accepted below every workspace but the file system root.\<close>

lemma NewRelative_accepts:
  assumes "IsAbs ws" and "Clean ws \<noteq> ''/''" and "list_all good_part rs" and "rs \<noteq> []"
  shows "NewRelative ws (join_with ''/'' rs) = Inr \<lparr>path_abs = Clean ws @ ''/'' @ join_with ''/'' rs\<rparr>"
proof -
  from assms(1) obtain ps where ps: "Clean ws = abs_path ps" "list_all good_part ps" by (rule Clean_abs)
  have pn: "ps \<noteq> []" using ps(1) assms(2) by (auto simp: abs_path_def)
  have j: "join_with ''/'' (ps @ rs) = join_with ''/'' ps @ ''/'' @ join_with ''/'' rs"
    using pn assms(4) by (rule join_with_append)
  have all: "list_all good_part (ps @ rs)" using ps(2) assms(3) by simp
  obtain r1 rs' where r: "rs = r1 # rs'" using assms(4) by (cases rs) auto
  have "r1 \<noteq> []" "CHR ''/'' \<notin> set r1" using assms(3) r by (auto simp: good_part_def)
  then have hd: "r1 \<noteq> []" "hd r1 \<noteq> CHR ''/''" using hd_in_set by fastforce+
  have ne: "join_with ''/'' rs \<noteq> []" "\<not> IsAbs (join_with ''/'' rs)"
    using hd r by (cases r1; cases rs'; simp)+
  have e: "abs_path ps @ ''/'' @ join_with ''/'' rs = abs_path (ps @ rs)" by (simp add: abs_path_def j)
  have J: "Clean (Join (Clean ws) (join_with ''/'' rs)) = abs_path (ps @ rs)"
    using Join_abs [OF ne(1), of ps] Clean_abs_path [OF all] ps(1) e by simp
  have p: "has_prefix (abs_path (ps @ rs)) (abs_path ps @ ''/'')" using pn assms(4) by (rule abs_path_extend)
  have "ws \<noteq> []" using assms(1) by (cases ws) auto
  with assms(1) ne J p ps(1) e show ?thesis by (simp add: NewRelative_def Let_def)
qed

section \<open>Properties\<close>

text \<open>A workspace path is canonical: what \<^verbatim>\<open>New\<close> accepts is an absolute path whose components are neither
  empty nor \<^verbatim>\<open>.\<close> nor \<^verbatim>\<open>..\<close>, and building a path from it again changes nothing.\<close>

theorem wspath_canonical:
  assumes "wspath_New p = Inr x"
  shows "\<exists>ps. path_abs x = abs_path ps \<and> list_all good_part ps \<and> wspath_New (path_abs x) = Inr x"
proof -
  from assms have a: "IsAbs p" and x: "x = \<lparr>path_abs = Clean p\<rparr>"
    by (auto simp: wspath_New_def split: if_splits)
  obtain ps where ps: "Clean p = abs_path ps" "list_all good_part ps" using Clean_abs [OF a] by metis
  have "wspath_New (Clean p) = Inr \<lparr>path_abs = Clean (Clean p)\<rparr>"
    using ps(1) by (simp add: wspath_New_def)
  then show ?thesis using ps x Clean_idem_abs [OF a] by auto
qed

theorem wspath_canonical_witness:
  "\<exists>ps. ''/w/b'' = abs_path ps \<and> list_all good_part ps \<and> wspath_New ''/w/b'' = Inr \<lparr>path_abs = ''/w/b''\<rparr>"
proof -
  have "wspath_New ''/w/./a/../b'' = Inr \<lparr>path_abs = ''/w/b''\<rparr>" by code_simp
  from wspath_canonical [OF this] show ?thesis by simp
qed

text \<open>A relative path cannot escape: what \<^verbatim>\<open>NewRelative\<close> accepts lies in the workspace directory, as a
  canonical path that extends the directory's own components.\<close>

theorem NewRelative_contained:
  assumes "NewRelative ws rel = Inr x"
  shows "\<exists>ps rs. Clean ws = abs_path ps \<and> path_abs x = abs_path (ps @ rs) \<and> list_all good_part (ps @ rs)"
  using NewRelative_inside [OF assms] by metis

theorem NewRelative_contained_witness:
  "\<exists>ps rs. Clean ''/w'' = abs_path ps \<and> ''/w/b'' = abs_path (ps @ rs) \<and> list_all good_part (ps @ rs)"
proof -
  have "NewRelative ''/w'' ''a/../b'' = Inr \<lparr>path_abs = ''/w/b''\<rparr>" by code_simp
  from NewRelative_contained [OF this] show ?thesis by simp
qed

text \<open>Every relative path of ordinary components is accepted under every workspace directory except the
  root of the file system, where the prefix test compares with two slashes and rejects even \<^verbatim>\<open>a\<close>.\<close>

theorem NewRelative_complete:
  "(IsAbs ws \<and> Clean ws \<noteq> ''/'' \<and> list_all good_part rs \<and> rs \<noteq> [] \<longrightarrow>
    NewRelative ws (join_with ''/'' rs) = Inr \<lparr>path_abs = Clean ws @ ''/'' @ join_with ''/'' rs\<rparr>) \<and>
   \<not> is_ok (NewRelative ''/'' ''a'')"
proof -
  have "\<not> is_ok (NewRelative ''/'' ''a'')" by code_simp
  then show ?thesis using NewRelative_accepts by blast
qed

theorem NewRelative_complete_witness:
  "NewRelative ''/w'' ''a/b'' = Inr \<lparr>path_abs = Clean ''/w'' @ ''/'' @ ''a/b''\<rparr>"
proof -
  have "Clean ''/w'' \<noteq> ''/''" by code_simp
  then show ?thesis using NewRelative_complete [of "''/w''" "[''a'', ''b'']"] by (simp add: good_part_def)
qed

end
