(* ===== verification/Holds.thy ===== *)
theory Holds
  imports JetStream Wspath
begin

text \<open>
  \<^verbatim>\<open>internal/holds\<close>: leases on files, kept in a bucket under a key made from the path. The lemmas
  show that a successful \<^verbatim>\<open>Announce\<close> never replaces another agent's unexpired hold, whatever happens
  between its read and its write, what \<^verbatim>\<open>WhoHas\<close> reports, and on which paths the key encoding is
  faithful.
\<close>

section \<open>Holds and their JSON form\<close>

record Hold =
  h_AgentID :: string
  h_ClaimedAt :: time_ns
  h_ExpiresAt :: time_ns
  h_CheckoutPath :: string
  h_TTL :: duration

definition zero_Hold :: Hold where
  "zero_Hold = \<lparr>h_AgentID = [], h_ClaimedAt = zero_time, h_ExpiresAt = zero_time, h_CheckoutPath = [], h_TTL = 0\<rparr>"

definition holds_encode :: "Hold \<Rightarrow> json" where
  "holds_encode h =
     JObj (member ''agent_id'' (JStr (h_AgentID h)) @ member ''claimed_at'' (JTime (h_ClaimedAt h)) @
           member ''expires_at'' (JTime (h_ExpiresAt h)) @ member ''checkout_path'' (JStr (h_CheckoutPath h)) @
           member ''ttl'' (JNum (h_TTL h)))"

definition hold_field :: "string \<Rightarrow> json \<Rightarrow> Hold \<Rightarrow> Hold option" where
  "hold_field k j h =
     (if k = ''agent_id'' then map_option (\<lambda>x. h\<lparr>h_AgentID := x\<rparr>) (into_string (h_AgentID h) j)
      else if k = ''claimed_at'' then map_option (\<lambda>x. h\<lparr>h_ClaimedAt := x\<rparr>) (into_time (h_ClaimedAt h) j)
      else if k = ''expires_at'' then map_option (\<lambda>x. h\<lparr>h_ExpiresAt := x\<rparr>) (into_time (h_ExpiresAt h) j)
      else if k = ''checkout_path'' then map_option (\<lambda>x. h\<lparr>h_CheckoutPath := x\<rparr>) (into_string (h_CheckoutPath h) j)
      else if k = ''ttl'' then map_option (\<lambda>x. h\<lparr>h_TTL := x\<rparr>) (into_int (h_TTL h) j)
      else Some h)"

definition holds_decode :: "json \<Rightarrow> Hold option" where
  "holds_decode j = into_struct hold_field zero_Hold j"

lemma holds_decode_encode [simp]: "holds_decode (holds_encode h) = Some h"
  by (simp add: holds_decode_def holds_encode_def into_fields_simps hold_field_def zero_Hold_def)

interpretation hold_wire: wire_format holds_encode holds_decode "\<lambda>_. True"
  by unfold_locales simp

section \<open>Keys\<close>

text \<open>\<^verbatim>\<open>url.PathEscape\<close>: letters, digits, \<^verbatim>\<open>-_.~\<close> and \<^verbatim>\<open>$&+:=@\<close> stay, every other byte becomes \<^verbatim>\<open>%XX\<close>.\<close>

definition shouldEscape :: "char \<Rightarrow> bool" where
  "shouldEscape c =
     (let n = (of_char c :: nat) in
      \<not> (65 \<le> n \<and> n \<le> 90 \<or> 97 \<le> n \<and> n \<le> 122 \<or> 48 \<le> n \<and> n \<le> 57 \<or> c \<in> set ''-_.~$&+:=@''))"

definition hex_digit :: "nat \<Rightarrow> char" where
  "hex_digit d = (if d < 10 then char_of (48 + d) else char_of (55 + d))"

definition escape_char :: "char \<Rightarrow> string" where
  "escape_char c =
     (if shouldEscape c then [CHR ''%'', hex_digit (of_char c div 16), hex_digit (of_char c mod 16)] else [c])"

definition PathEscape :: "string \<Rightarrow> string" where
  "PathEscape s = concat (map escape_char s)"

definition replace_char :: "char \<Rightarrow> char \<Rightarrow> string \<Rightarrow> string" where
  "replace_char a b s = map (\<lambda>c. if c = a then b else c) s"

definition keyOf :: "Path \<Rightarrow> string" where
  "keyOf p = replace_char CHR ''%'' CHR ''='' (PathEscape (AsKey p))"

definition unhex :: "char \<Rightarrow> nat option" where
  "unhex c =
     (let n = (of_char c :: nat) in
      if 48 \<le> n \<and> n \<le> 57 then Some (n - 48)
      else if 97 \<le> n \<and> n \<le> 102 then Some (n - 87)
      else if 65 \<le> n \<and> n \<le> 70 then Some (n - 55)
      else None)"

fun PathUnescape :: "string \<Rightarrow> string option" where
  "PathUnescape [] = Some []"
| "PathUnescape (c # cs) =
     (if c = CHR ''%'' then
        (case cs of
           x # y # rest \<Rightarrow>
             (case (unhex x, unhex y) of
                (Some a, Some b) \<Rightarrow> map_option ((#) (char_of (16 * a + b))) (PathUnescape rest)
              | _ \<Rightarrow> None)
         | _ \<Rightarrow> None)
      else map_option ((#) c) (PathUnescape cs))"

definition fileOf :: "string \<Rightarrow> string" where
  "fileOf key =
     (case PathUnescape (replace_char CHR ''='' CHR ''%'' key) of None \<Rightarrow> key | Some d \<Rightarrow> d)"

lemma unhex_hex_digit [simp]: "d < 16 \<Longrightarrow> unhex (hex_digit d) = Some d"
  by (simp add: unhex_def hex_digit_def Let_def)

lemma hex_digit_plain [simp]: "d < 16 \<Longrightarrow> hex_digit d \<noteq> CHR ''%'' \<and> hex_digit d \<noteq> CHR ''=''"
proof -
  assume d: "d < 16"
  then have "unhex (hex_digit d) = Some d" by simp
  then show ?thesis by (auto simp: unhex_def Let_def)
qed

lemma percent_escaped: "shouldEscape CHR ''%''"
  by (simp add: shouldEscape_def Let_def)

text \<open>Without an equals sign in the path, the rewritten percent signs are the only ones.\<close>

lemma replace_escape_char:
  assumes "c \<noteq> CHR ''=''"
  shows "replace_char CHR ''='' CHR ''%'' (replace_char CHR ''%'' CHR ''='' (escape_char c)) = escape_char c"
proof (cases "shouldEscape c")
  case True
  have "(of_char c :: nat) div 16 < 16" by (simp add: less_mult_imp_div_less)
  then show ?thesis using True by (simp add: escape_char_def replace_char_def)
next
  case False
  with percent_escaped assms show ?thesis by (auto simp: escape_char_def replace_char_def)
qed

lemma PathUnescape_escape_char: "PathUnescape (escape_char c @ cs) = map_option ((#) c) (PathUnescape cs)"
proof (cases "shouldEscape c")
  case True
  have "(of_char c :: nat) div 16 < 16" by (simp add: less_mult_imp_div_less)
  moreover have "16 * ((of_char c :: nat) div 16) + of_char c mod 16 = of_char c" by simp
  ultimately show ?thesis using True by (simp add: escape_char_def)
next
  case False
  with percent_escaped show ?thesis by (auto simp: escape_char_def)
qed

lemma PathUnescape_PathEscape: "PathUnescape (PathEscape s) = Some s"
  by (induction s) (simp_all add: PathEscape_def PathUnescape_escape_char)

lemma fileOf_keyOf:
  assumes "CHR ''='' \<notin> set (path_abs p)"
  shows "fileOf (keyOf p) = path_abs p"
proof -
  have "replace_char CHR ''='' CHR ''%'' (replace_char CHR ''%'' CHR ''='' (PathEscape s)) = PathEscape s"
    if "CHR ''='' \<notin> set s" for s
    using that
  proof (induction s)
    case (Cons c s)
    then have "c \<noteq> CHR ''=''" "CHR ''='' \<notin> set s" by auto
    with Cons.IH replace_escape_char [of c] show ?case by (simp add: PathEscape_def replace_char_def)
  qed (simp add: PathEscape_def replace_char_def)
  with assms show ?thesis by (simp add: fileOf_def keyOf_def AsKey_def PathUnescape_PathEscape)
qed

text \<open>So two such paths share a key only if they are the same file.\<close>

lemma keyOf_inj:
  assumes "CHR ''='' \<notin> set (path_abs p)" and "CHR ''='' \<notin> set (path_abs q)" and "keyOf p = keyOf q"
  shows "p = q"
proof -
  have "path_abs p = path_abs q" using assms fileOf_keyOf by metis
  then show ?thesis by simp
qed

section \<open>The manager\<close>

record HoldsManager =
  hm_Bucket :: string
  hm_HoldTTLMax :: duration
  hm_buf :: int
  hm_done :: bool

definition holds_defaultChanBuffer :: int where
  "holds_defaultChanBuffer = 32"

text \<open>The outcome of creating the bucket is the argument \<open>kv\<close>, \<open>None\<close> on success.\<close>

definition holds_Open :: "kv_err option \<Rightarrow> string \<Rightarrow> duration \<Rightarrow> int \<Rightarrow> err + HoldsManager" where
  "holds_Open kv bucket ttlMax chanBuffer =
     (if bucket = [] then Inl (EPanic ''holds.Open: cfg.Bucket is empty'')
      else if \<not> ttlMax > 0 then Inl (EPanic ''holds.Open: cfg.HoldTTLMax must be > 0'')
      else if \<not> chanBuffer \<ge> 0 then Inl (EPanic ''holds.Open: cfg.ChanBuffer must be >= 0'')
      else case kv of
             Some x \<Rightarrow> Inl (EKV x)
           | None \<Rightarrow> Inr \<lparr>hm_Bucket = bucket, hm_HoldTTLMax = ttlMax,
                          hm_buf = (if chanBuffer = 0 then holds_defaultChanBuffer else chanBuffer),
                          hm_done = False\<rparr>)"

definition holds_Close :: "HoldsManager \<Rightarrow> HoldsManager" where
  "holds_Close m = m\<lparr>hm_done := True\<rparr>"

definition probeKey :: string where
  "probeKey = ''_probe''"

definition Probe :: "'s sys \<Rightarrow> HoldsManager \<Rightarrow> 's \<Rightarrow> (err + unit) \<times> 's" where
  "Probe js m s =
     (if hm_done m then (Inl (EHolds HErrClosed), s)
      else case js_Get js s (hm_Bucket m) probeKey of
             (Inr _, s') \<Rightarrow> (Inr (), s')
           | (Inl x, s') \<Rightarrow> if x = ErrKeyNotFound then (Inr (), s') else (Inl (EKV x), s'))"

definition holds_stamped :: "Hold \<Rightarrow> time_ns \<Rightarrow> json" where
  "holds_stamped h now = holds_encode (h\<lparr>h_ClaimedAt := now, h_ExpiresAt := now + h_TTL h\<rparr>)"

definition casVacant :: "'s sys \<Rightarrow> HoldsManager \<Rightarrow> string \<Rightarrow> Hold \<Rightarrow> 's \<Rightarrow> unit attempt \<times> 's" where
  "casVacant js m key h s =
     (case js_Create js s (hm_Bucket m) key (holds_stamped h (js_Now js s)) of
        (Inl x, s') \<Rightarrow> if IsConflict x then (Conflict, s') else (Verdict (Inl (EKV x)), s')
      | (Inr _, s') \<Rightarrow> (Verdict (Inr ()), s'))"

definition casRevision :: "'s sys \<Rightarrow> HoldsManager \<Rightarrow> string \<Rightarrow> Hold \<Rightarrow> nat \<Rightarrow> 's \<Rightarrow> unit attempt \<times> 's" where
  "casRevision js m key h rv s =
     (case js_Update js s (hm_Bucket m) key (holds_stamped h (js_Now js s)) rv of
        (Inl x, s') \<Rightarrow> if IsConflict x then (Conflict, s') else (Verdict (Inl (EKV x)), s')
      | (Inr _, s') \<Rightarrow> (Verdict (Inr ()), s'))"

definition decideAnnounce ::
  "'s sys \<Rightarrow> HoldsManager \<Rightarrow> string \<Rightarrow> Hold \<Rightarrow> Hold \<Rightarrow> nat \<Rightarrow> 's \<Rightarrow> unit attempt \<times> 's" where
  "decideAnnounce js m key h existing rv s =
     (let now = js_Now js s;
          expired = h_ExpiresAt existing < now;
          sameAgent = h_AgentID existing = h_AgentID h
      in if sameAgent then casRevision js m key h rv s
         else if expired then casRevision js m key h rv s
         else (Verdict (Inl (EHolds HErrHeldByAnother)), s))"

definition announceAttempt :: "'s sys \<Rightarrow> HoldsManager \<Rightarrow> string \<Rightarrow> Hold \<Rightarrow> 's \<Rightarrow> unit attempt \<times> 's" where
  "announceAttempt js m key h s =
     (case js_Get js s (hm_Bucket m) key of
        (Inl x, s') \<Rightarrow> if x = ErrKeyNotFound then casVacant js m key h s' else (Verdict (Inl (EKV x)), s')
      | (Inr entry, s') \<Rightarrow>
          if e_Operation entry \<noteq> KeyValuePut then casRevision js m key h (e_Revision entry) s'
          else case holds_decode (e_Value entry) of
                 None \<Rightarrow> (Verdict (Inl EDecode), s')
               | Some existing \<Rightarrow> decideAnnounce js m key h existing (e_Revision entry) s')"

definition Announce :: "'s sys \<Rightarrow> HoldsManager \<Rightarrow> Path \<Rightarrow> Hold \<Rightarrow> 's \<Rightarrow> (err + unit) \<times> 's" where
  "Announce js m file h s =
     (if IsZero file then (Inl (EPanic ''holds.Announce: file is the zero Path''), s)
      else if h_AgentID h = [] then (Inl (EPanic ''holds.Announce: h.AgentID is empty''), s)
      else if \<not> h_TTL h > 0 then (Inl (EPanic ''holds.Announce: h.TTL must be > 0''), s)
      else if \<not> h_TTL h \<le> hm_HoldTTLMax m then (Inl (EPanic ''holds.Announce: h.TTL exceeds HoldTTLMax''), s)
      else if hm_done m then (Inl (EHolds HErrClosed), s)
      else case retry MaxRetries (announceAttempt js m (keyOf file) h) s of
             (Some r, s') \<Rightarrow> (r, s')
           | (None, s') \<Rightarrow> (Inl (EMsg ''holds.Announce: exhausted CAS retries''), s'))"

definition readHold :: "'s sys \<Rightarrow> HoldsManager \<Rightarrow> string \<Rightarrow> 's \<Rightarrow> (err + Hold option) \<times> 's" where
  "readHold js m key s =
     (case js_Get js s (hm_Bucket m) key of
        (Inl x, s') \<Rightarrow> if x = ErrKeyNotFound then (Inr None, s') else (Inl (EKV x), s')
      | (Inr entry, s') \<Rightarrow>
          if e_Operation entry \<noteq> KeyValuePut then (Inr None, s')
          else case holds_decode (e_Value entry) of
                 None \<Rightarrow> (Inl EDecode, s')
               | Some h \<Rightarrow> if h_ExpiresAt h < js_Now js s' then (Inr None, s') else (Inr (Some h), s'))"

definition holds_Release :: "'s sys \<Rightarrow> HoldsManager \<Rightarrow> Path \<Rightarrow> string \<Rightarrow> 's \<Rightarrow> (err + unit) \<times> 's" where
  "holds_Release js m file agent s =
     (if IsZero file then (Inl (EPanic ''holds.Release: file is the zero Path''), s)
      else if agent = [] then (Inl (EPanic ''holds.Release: agent is empty''), s)
      else if hm_done m then (Inl (EHolds HErrClosed), s)
      else case readHold js m (keyOf file) s of
             (Inl e, s') \<Rightarrow> (Inl e, s')
           | (Inr None, s') \<Rightarrow> (Inr (), s')
           | (Inr (Some existing), s') \<Rightarrow>
               if h_AgentID existing \<noteq> agent then (Inr (), s')
               else case js_Delete js s' (hm_Bucket m) (keyOf file) None of
                      (Inl x, s'') \<Rightarrow> if x = ErrKeyNotFound then (Inr (), s'') else (Inl (EKV x), s'')
                    | (Inr _, s'') \<Rightarrow> (Inr (), s''))"

definition WhoHas :: "'s sys \<Rightarrow> HoldsManager \<Rightarrow> Path \<Rightarrow> 's \<Rightarrow> (err + Hold option) \<times> 's" where
  "WhoHas js m file s =
     (if IsZero file then (Inl (EPanic ''holds.WhoHas: file is the zero Path''), s)
      else if hm_done m then (Inl (EHolds HErrClosed), s)
      else readHold js m (keyOf file) s)"

text \<open>\<^verbatim>\<open>subscribe.go\<close>: the translation of a watched entry.\<close>

datatype hold_EventKind = EventAnnounced | EventReleased

record hold_Event =
  he_File :: string
  he_Kind :: hold_EventKind
  he_Hold :: Hold

definition holds_translate :: "string \<Rightarrow> kv_entry \<Rightarrow> hold_Event option" where
  "holds_translate key entry =
     (let file = fileOf key in
      case e_Operation entry of
        KeyValuePut \<Rightarrow>
          map_option (\<lambda>h. \<lparr>he_File = file, he_Kind = EventAnnounced, he_Hold = h\<rparr>) (holds_decode (e_Value entry))
      | _ \<Rightarrow> Some \<lparr>he_File = file, he_Kind = EventReleased, he_Hold = zero_Hold\<rparr>)"

section \<open>Exclusion\<close>

text \<open>The hold stored at a key of a view.\<close>

definition hold_at :: "kv_view \<Rightarrow> string \<Rightarrow> string \<Rightarrow> Hold option" where
  "hold_at v b k =
     (case v b k of
        None \<Rightarrow> None
      | Some e \<Rightarrow> if e_Operation e = KeyValuePut then holds_decode (e_Value e) else None)"

lemma hold_at_put [simp]:
  "hold_at (view_put v b k (put_entry (holds_encode h) r)) b k = Some h"
  by (simp add: hold_at_def)

lemma hold_at_not_live: "\<not> live (v b k) \<Longrightarrow> hold_at v b k = None"
  by (auto simp: hold_at_def split: option.splits)

text \<open>Whom a hold lets in at an instant: its own agent, and everybody once it has expired.\<close>

definition admits :: "Hold option \<Rightarrow> string \<Rightarrow> time_ns \<Rightarrow> bool" where
  "admits ho agent now =
     (case ho of None \<Rightarrow> True | Some h \<Rightarrow> h_AgentID h = agent \<or> h_ExpiresAt h < now)"

context jetstream
begin

lemma casRevision_ok:
  assumes "casRevision js m key h rv s = (Verdict (Inr u), s')"
  obtains s1 e r where "rely s s1" and "o_view ob s1 (hm_Bucket m) key = Some e" and "e_Revision e = rv"
    and "wrote ob s1 s' (hm_Bucket m) key (put_entry (holds_stamped h (js_Now js s)) r)"
  using assms update_ok [of s "hm_Bucket m" key "holds_stamped h (js_Now js s)" rv]
  by (force simp: casRevision_def split: sum.splits prod.splits if_splits)

lemma announceAttempt_ok:
  assumes "announceAttempt js m key h s = (Verdict (Inr u), s')"
  shows "\<exists>s1 now r. admits (hold_at (o_view ob s1) (hm_Bucket m) key) (h_AgentID h) now \<and>
    wrote ob s1 s' (hm_Bucket m) key (put_entry (holds_stamped h now) r)"
proof (cases "js_Get js s (hm_Bucket m) key")
  case (Pair y sg)
  show ?thesis
  proof (cases y)
    case (Inl x)
    with assms Pair have "casVacant js m key h sg = (Verdict (Inr u), s')"
      by (auto simp: announceAttempt_def split: if_splits)
    then obtain r where "js_Create js sg (hm_Bucket m) key (holds_stamped h (js_Now js sg)) = (Inr r, s')"
      by (auto simp: casVacant_def split: sum.splits prod.splits if_splits)
    from create_ok [OF this] obtain s1 where "\<not> live (o_view ob s1 (hm_Bucket m) key)"
      and "wrote ob s1 s' (hm_Bucket m) key (put_entry (holds_stamped h (js_Now js sg)) r)" by blast
    moreover from this(1) have "admits (hold_at (o_view ob s1) (hm_Bucket m) key) (h_AgentID h) (js_Now js sg)"
      by (simp add: hold_at_not_live admits_def)
    ultimately show ?thesis by blast
  next
    case (Inr e)
    with Pair have e: "o_view ob sg (hm_Bucket m) key = Some e" using get_ok by blast
    have c: "casRevision js m key h (e_Revision e) sg = (Verdict (Inr u), s')"
      and a: "admits (hold_at (o_view ob sg) (hm_Bucket m) key) (h_AgentID h) (js_Now js sg)"
      using assms Pair Inr e
      by (auto simp: announceAttempt_def decideAnnounce_def Let_def hold_at_def admits_def
          split: if_splits option.splits)
    from c obtain s1 e1 r where s1: "rely sg s1" "o_view ob s1 (hm_Bucket m) key = Some e1"
      "e_Revision e1 = e_Revision e"
      "wrote ob s1 s' (hm_Bucket m) key (put_entry (holds_stamped h (js_Now js sg)) r)"
      by (rule casRevision_ok)
    have "e1 = e" using same_revision [OF rely_later [OF s1(1)] e s1(2,3)] .
    with e s1(2) have "hold_at (o_view ob s1) (hm_Bucket m) key = hold_at (o_view ob sg) (hm_Bucket m) key"
      by (simp add: hold_at_def)
    with a s1(4) show ?thesis by metis
  qed
qed

lemma Announce_atomic:
  assumes "Announce js m file h s = (Inr (), s')"
  shows "\<exists>s1 now r. admits (hold_at (o_view ob s1) (hm_Bucket m) (keyOf file)) (h_AgentID h) now \<and>
    wrote ob s1 s' (hm_Bucket m) (keyOf file) (put_entry (holds_stamped h now) r)"
proof -
  from assms have "retry MaxRetries (announceAttempt js m (keyOf file) h) s = (Some (Inr ()), s')"
    by (auto simp: Announce_def split: if_splits option.splits prod.splits)
  then obtain s0 where "announceAttempt js m (keyOf file) h s0 = (Verdict (Inr ()), s')"
    by (rule retry_verdict [where P = "\<lambda>_. True"]) auto
  then show ?thesis by (rule announceAttempt_ok)
qed

text \<open>What is reported as held was stored, was not expired, and is what a reader sees.\<close>

lemma WhoHas_sound:
  assumes "WhoHas js m file s = (Inr (Some h), s')"
  shows "hold_at (o_view ob s') (hm_Bucket m) (keyOf file) = Some h \<and> js_Now js s' \<le> h_ExpiresAt h"
  using assms get_ok
  by (fastforce simp: WhoHas_def readHold_def hold_at_def split: if_splits sum.splits prod.splits option.splits)

end

section \<open>Undisturbed\<close>

definition valid_announce :: "HoldsManager \<Rightarrow> Path \<Rightarrow> Hold \<Rightarrow> bool" where
  "valid_announce m file h =
     (\<not> IsZero file \<and> h_AgentID h \<noteq> [] \<and> 0 < h_TTL h \<and> h_TTL h \<le> hm_HoldTTLMax m \<and> \<not> hm_done m)"

text \<open>A bucket all of whose live entries are holds.\<close>

definition holds_wf :: "HoldsManager \<Rightarrow> mem \<Rightarrow> bool" where
  "holds_wf m s =
     (\<forall>k e. mem_view s (hm_Bucket m) k = Some e \<longrightarrow> e_Operation e = KeyValuePut \<longrightarrow> holds_decode (e_Value e) \<noteq> None)"

lemma hold_at_None_live: "holds_wf m s \<Longrightarrow> hold_at (mem_view s) (hm_Bucket m) k = None \<Longrightarrow> \<not> live (mem_view s (hm_Bucket m) k)"
  by (fastforce simp: hold_at_def live_def holds_wf_def split: option.splits if_splits)

lemma hold_at_Some:
  assumes "hold_at v b k = Some h"
  obtains e where "v b k = Some e" and "e_Operation e = KeyValuePut" and "holds_decode (e_Value e) = Some h"
  using assms by (auto simp: hold_at_def split: option.splits if_splits)

lemma mem_get_not_live: "quiet s \<Longrightarrow> \<not> live (mem_view s b k) \<Longrightarrow> mem_get G s b k = (Inl ErrKeyNotFound, s)"
  by (auto simp: mem_get_def split: option.splits)

lemma mem_Announce_quiet:
  assumes "quiet s" and "holds_wf m s" and "valid_announce m file h"
  shows "Announce (mem_sys G) m file h s =
    (if admits (hold_at (mem_view s) (hm_Bucket m) (keyOf file)) (h_AgentID h) (mem_now s)
     then (Inr (), mem_write s (hm_Bucket m) (keyOf file) KeyValuePut (holds_stamped h (mem_now s)))
     else (Inl (EHolds HErrHeldByAnother), s))"
proof -
  let ?k = "keyOf file" and ?b = "hm_Bucket m"
  have "announceAttempt (mem_sys G) m ?k h s =
    (if admits (hold_at (mem_view s) ?b ?k) (h_AgentID h) (mem_now s)
     then (Verdict (Inr ()), mem_write s ?b ?k KeyValuePut (holds_stamped h (mem_now s)))
     else (Verdict (Inl (EHolds HErrHeldByAnother)), s))"
  proof (cases "hold_at (mem_view s) ?b ?k")
    case None
    from hold_at_None_live [OF assms(2) None] have nl: "\<not> live (mem_view s ?b ?k)" .
    show ?thesis
      using None mem_get_not_live [OF assms(1) nl, of G] mem_create_quiet [OF assms(1) nl]
      by (simp add: announceAttempt_def casVacant_def admits_def)
  next
    case (Some x)
    then obtain e where e: "mem_view s ?b ?k = Some e" "e_Operation e = KeyValuePut" "holds_decode (e_Value e) = Some x"
      by (rule hold_at_Some)
    show ?thesis
      using Some e mem_get_quiet [OF assms(1) e(1,2), of G] mem_update_quiet [OF assms(1) e(1), of G]
      by (simp add: announceAttempt_def decideAnnounce_def casRevision_def admits_def Let_def)
  qed
  with assms(3) show ?thesis
    by (simp add: Announce_def valid_announce_def MaxRetries_def numeral_eq_Suc)
qed

lemma holds_wf_write:
  "holds_wf m s \<Longrightarrow> holds_wf m (mem_write s (hm_Bucket m) k KeyValuePut (holds_stamped h now))"
  "holds_wf m s \<Longrightarrow> holds_wf m (mem_write s (hm_Bucket m) k KeyValueDelete j)"
  "b \<noteq> hm_Bucket m \<Longrightarrow> holds_wf m (mem_write s b k oper j) = holds_wf m s"
  by (auto simp: holds_wf_def mem_view_write view_put_def holds_stamped_def)

lemma hold_at_write [simp]:
  "hold_at (mem_view (mem_write s b k KeyValuePut (holds_stamped h now))) b k =
   Some (h\<lparr>h_ClaimedAt := now, h_ExpiresAt := now + h_TTL h\<rparr>)"
  "hold_at (mem_view (mem_write s b k KeyValueDelete j)) b k = None"
  "k' \<noteq> k \<or> b' \<noteq> b \<Longrightarrow> hold_at (mem_view (mem_write s b k oper j)) b' k' = hold_at (mem_view s) b' k'"
  by (auto simp: hold_at_def mem_view_write view_put_def holds_stamped_def)

lemma mem_WhoHas_quiet:
  assumes "quiet s" and "holds_wf m s" and "\<not> IsZero file" and "\<not> hm_done m"
  shows "WhoHas (mem_sys G) m file s =
    (Inr (case hold_at (mem_view s) (hm_Bucket m) (keyOf file) of
            None \<Rightarrow> None | Some h \<Rightarrow> if h_ExpiresAt h < mem_now s then None else Some h), s)"
proof (cases "hold_at (mem_view s) (hm_Bucket m) (keyOf file)")
  case None
  from hold_at_None_live [OF assms(2) None] have "\<not> live (mem_view s (hm_Bucket m) (keyOf file))" .
  from mem_get_not_live [OF assms(1) this, of G] None assms show ?thesis by (simp add: WhoHas_def readHold_def)
next
  case (Some h)
  then obtain e where e: "mem_view s (hm_Bucket m) (keyOf file) = Some e" "e_Operation e = KeyValuePut"
    "holds_decode (e_Value e) = Some h" by (rule hold_at_Some)
  from mem_get_quiet [OF assms(1) e(1,2), of G] e Some assms show ?thesis by (simp add: WhoHas_def readHold_def)
qed

lemma mem_Release_quiet:
  assumes "quiet s" and "holds_wf m s" and "\<not> IsZero file" and "\<not> hm_done m" and "agent \<noteq> []"
  shows "holds_Release (mem_sys G) m file agent s =
    (case hold_at (mem_view s) (hm_Bucket m) (keyOf file) of
       None \<Rightarrow> (Inr (), s)
     | Some h \<Rightarrow>
         if h_ExpiresAt h < mem_now s \<or> h_AgentID h \<noteq> agent then (Inr (), s)
         else (Inr (), mem_write s (hm_Bucket m) (keyOf file) KeyValueDelete JNull))"
proof -
  have w: "readHold (mem_sys G) m (keyOf file) s =
      (Inr (case hold_at (mem_view s) (hm_Bucket m) (keyOf file) of
            None \<Rightarrow> None | Some h \<Rightarrow> if h_ExpiresAt h < mem_now s then None else Some h), s)"
    using mem_WhoHas_quiet [OF assms(1-4), of G] assms(3,4) by (simp add: WhoHas_def)
  show ?thesis
    using assms w by (simp add: holds_Release_def mem_delete_def split: option.splits)
qed

section \<open>Properties\<close>

text \<open>The key of a file's hold gives the file back, so files have different keys, for all paths without an
  equals sign; with one, two different files can share a key.\<close>

theorem hold_key_round_trip:
  "(CHR ''='' \<notin> set (path_abs p) \<longrightarrow> fileOf (keyOf p) = path_abs p) \<and>
   keyOf \<lparr>path_abs = ''/a=2Fb''\<rparr> = keyOf \<lparr>path_abs = ''/a/b''\<rparr>"
proof -
  have "keyOf \<lparr>path_abs = ''/a=2Fb''\<rparr> = keyOf \<lparr>path_abs = ''/a/b''\<rparr>" by code_simp
  then show ?thesis using fileOf_keyOf by blast
qed

theorem hold_key_round_trip_witness: "fileOf (keyOf \<lparr>path_abs = ''/w/a b''\<rparr>) = ''/w/a b''"
  using hold_key_round_trip [of "\<lparr>path_abs = ''/w/a b''\<rparr>"] by simp

text \<open>C32: Exclusion under interference: when \<^verbatim>\<open>Announce\<close> reports success, then at the moment of its write, in one
  atomic step, no other agent had a live hold on the file, whatever other processes did before.\<close>

theorem announce_exclusive:
  assumes "jetstream js ob rely" and "Announce js m file h s = (Inr (), s')"
  shows "\<exists>s1 now r. admits (hold_at (o_view ob s1) (hm_Bucket m) (keyOf file)) (h_AgentID h) now \<and>
    wrote ob s1 s' (hm_Bucket m) (keyOf file) (put_entry (holds_stamped h now) r)"
  using assms(2) by (rule jetstream.Announce_atomic [OF assms(1)])

definition sample_holds :: HoldsManager where
  "sample_holds = \<lparr>hm_Bucket = ''bones-holds'', hm_HoldTTLMax = 100, hm_buf = 32, hm_done = False\<rparr>"

definition sample_hold :: Hold where
  "sample_hold = zero_Hold\<lparr>h_AgentID := ''a-1'', h_TTL := 30\<rparr>"

abbreviation sample_file :: Path where
  "sample_file \<equiv> \<lparr>path_abs = ''/w/f''\<rparr>"

lemma sample_announce:
  "quiet (mem_empty 0 [])" "holds_wf sample_holds (mem_empty 0 [])"
  "valid_announce sample_holds sample_file sample_hold"
  "admits (hold_at (mem_view (mem_empty 0 [])) (hm_Bucket sample_holds) (keyOf sample_file)) (h_AgentID sample_hold) 0"
  by (simp_all add: quiet_def mem_empty_def holds_wf_def mem_view_def valid_announce_def sample_holds_def
      sample_hold_def IsZero_def zero_Hold_def admits_def hold_at_def)

theorem announce_exclusive_witness:
  "\<exists>s' s1 now r. admits (hold_at (mem_view s1) (hm_Bucket sample_holds) (keyOf sample_file)) ''a-1'' now \<and>
    wrote mem_obs s1 s' (hm_Bucket sample_holds) (keyOf sample_file) (put_entry (holds_stamped sample_hold now) r)"
proof -
  obtain s' where "Announce (mem_sys (\<lambda>_ _ _. True)) sample_holds sample_file sample_hold (mem_empty 0 []) = (Inr (), s')"
    using mem_Announce_quiet [OF sample_announce(1-3), of "\<lambda>_ _ _. True"] sample_announce(4)
    by (simp add: mem_empty_def)
  from announce_exclusive [OF mem.jetstream_axioms this] show ?thesis
    by (auto simp: sample_hold_def)
qed

text \<open>The holds bucket as a lock table, undisturbed: an announcement the present hold admits succeeds and
  is what \<^verbatim>\<open>WhoHas\<close> then reports; meanwhile no other agent's announcement succeeds; after the holder's release
  \<^verbatim>\<open>WhoHas\<close> reports nobody; no step touches the hold of a file with another key.\<close>

theorem hold_life:
  assumes "quiet s" and "holds_wf m s" and "valid_announce m file h"
    and "admits (hold_at (mem_view s) (hm_Bucket m) (keyOf file)) (h_AgentID h) (mem_now s)"
  defines "h' \<equiv> h\<lparr>h_ClaimedAt := mem_now s, h_ExpiresAt := mem_now s + h_TTL h\<rparr>"
  shows "\<exists>s1 s2. Announce (mem_sys G) m file h s = (Inr (), s1) \<and>
    WhoHas (mem_sys G) m file s1 = (Inr (Some h'), s1) \<and>
    (\<forall>g. valid_announce m file g \<and> h_AgentID g \<noteq> h_AgentID h \<longrightarrow>
       Announce (mem_sys G) m file g s1 = (Inl (EHolds HErrHeldByAnother), s1)) \<and>
    holds_Release (mem_sys G) m file (h_AgentID h) s1 = (Inr (), s2) \<and>
    WhoHas (mem_sys G) m file s2 = (Inr None, s2) \<and>
    (\<forall>k. k \<noteq> keyOf file \<longrightarrow> hold_at (mem_view s1) (hm_Bucket m) k = hold_at (mem_view s) (hm_Bucket m) k \<and>
       hold_at (mem_view s2) (hm_Bucket m) k = hold_at (mem_view s) (hm_Bucket m) k)"
proof -
  let ?b = "hm_Bucket m" and ?k = "keyOf file"
  let ?s1 = "mem_write s ?b ?k KeyValuePut (holds_stamped h (mem_now s))"
  let ?s2 = "mem_write ?s1 ?b ?k KeyValueDelete JNull"
  have v: "\<not> IsZero file" "\<not> hm_done m" "h_AgentID h \<noteq> []" "0 < h_TTL h"
    using assms(3) by (simp_all add: valid_announce_def)
  have now: "mem_now ?s1 = mem_now s" "mem_now ?s2 = mem_now s" by (simp_all add: mem_write_def)
  have s1: "quiet ?s1" "holds_wf m ?s1" using assms(1) holds_wf_write(1) [OF assms(2)] by simp_all
  have s2: "quiet ?s2" "holds_wf m ?s2" using s1 holds_wf_write(2) [OF s1(2)] by simp_all
  have at: "hold_at (mem_view ?s1) ?b ?k = Some h'" "hold_at (mem_view ?s2) ?b ?k = None"
    by (simp_all add: h'_def)
  have "Announce (mem_sys G) m file h s = (Inr (), ?s1)"
    using mem_Announce_quiet [OF assms(1-3), of G] assms(4) by simp
  moreover have "WhoHas (mem_sys G) m file ?s1 = (Inr (Some h'), ?s1)"
    using mem_WhoHas_quiet [OF s1 v(1,2), of G] at(1) v(4) now(1) by (simp add: h'_def)
  moreover have "Announce (mem_sys G) m file g ?s1 = (Inl (EHolds HErrHeldByAnother), ?s1)"
    if "valid_announce m file g" "h_AgentID g \<noteq> h_AgentID h" for g
    using mem_Announce_quiet [OF s1 that(1), of G] at(1) v(4) now(1) that(2) by (simp add: admits_def h'_def)
  moreover have "holds_Release (mem_sys G) m file (h_AgentID h) ?s1 = (Inr (), ?s2)"
    using mem_Release_quiet [OF s1 v(1-3), of G] at(1) v(4) now(1) by (simp add: h'_def)
  moreover have "WhoHas (mem_sys G) m file ?s2 = (Inr None, ?s2)"
    using mem_WhoHas_quiet [OF s2 v(1,2), of G] at(2) by simp
  ultimately show ?thesis by (intro exI [of _ ?s1] exI [of _ ?s2]) simp
qed

theorem hold_life_witness:
  "\<exists>s1 s2. Announce (mem_sys (\<lambda>_ _ _. True)) sample_holds sample_file sample_hold (mem_empty 0 []) = (Inr (), s1) \<and>
    holds_Release (mem_sys (\<lambda>_ _ _. True)) sample_holds sample_file ''a-1'' s1 = (Inr (), s2) \<and>
    WhoHas (mem_sys (\<lambda>_ _ _. True)) sample_holds sample_file s2 = (Inr None, s2)"
proof -
  have "mem_now (mem_empty 0 []) = 0" "h_AgentID sample_hold = ''a-1''" by (simp_all add: mem_empty_def sample_hold_def)
  with hold_life [OF sample_announce(1-3), of "\<lambda>_ _ _. True"] sample_announce(4) show ?thesis by auto
qed

end
