(* ===== verification/Presence.thy ===== *)
theory Presence
  imports JetStream
begin

text \<open>
  \<^verbatim>\<open>internal/presence\<close>: each agent keeps a liveness entry in a bucket with a time to live, under the
  key \<^verbatim>\<open>project/agent\<close>; \<^verbatim>\<open>Who\<close> lists the entries of one project. The heartbeat goroutine and the watch
  channel are not modelled; what they run (\<open>putEntry\<close>, \<open>eventFrom\<close>) is.
\<close>

section \<open>Entries and keys\<close>

record PresenceEntry =
  pe_AgentID :: string
  pe_Project :: string
  pe_StartedAt :: time_ns
  pe_LastSeen :: time_ns

definition presence_encode :: "PresenceEntry \<Rightarrow> json" where
  "presence_encode e =
     JObj (member ''agent_id'' (JStr (pe_AgentID e)) @ member ''project'' (JStr (pe_Project e)) @
           member ''started_at'' (JTime (pe_StartedAt e)) @ member ''last_seen'' (JTime (pe_LastSeen e)))"

definition presence_field :: "string \<Rightarrow> json \<Rightarrow> PresenceEntry \<Rightarrow> PresenceEntry option" where
  "presence_field k j e =
     (if k = ''agent_id'' then map_option (\<lambda>x. e\<lparr>pe_AgentID := x\<rparr>) (into_string (pe_AgentID e) j)
      else if k = ''project'' then map_option (\<lambda>x. e\<lparr>pe_Project := x\<rparr>) (into_string (pe_Project e) j)
      else if k = ''started_at'' then map_option (\<lambda>x. e\<lparr>pe_StartedAt := x\<rparr>) (into_time (pe_StartedAt e) j)
      else if k = ''last_seen'' then map_option (\<lambda>x. e\<lparr>pe_LastSeen := x\<rparr>) (into_time (pe_LastSeen e) j)
      else Some e)"

definition presence_decode :: "json \<Rightarrow> PresenceEntry option" where
  "presence_decode j =
     into_struct presence_field
       \<lparr>pe_AgentID = [], pe_Project = [], pe_StartedAt = zero_time, pe_LastSeen = zero_time\<rparr> j"

lemma presence_decode_encode [simp]: "presence_decode (presence_encode e) = Some e"
  by (simp add: presence_decode_def presence_encode_def into_fields_simps presence_field_def)

interpretation presence_wire: wire_format presence_encode presence_decode "\<lambda>_. True"
  by unfold_locales simp

definition presence_keyOf :: "string \<Rightarrow> string \<Rightarrow> string" where
  "presence_keyOf project agentID = project @ ''/'' @ agentID"

definition splitKey :: "string \<Rightarrow> (string \<times> string) option" where
  "splitKey key =
     (if CHR ''/'' \<notin> set key then None
      else Some (takeWhile (\<lambda>c. c \<noteq> CHR ''/'') key, tl (dropWhile (\<lambda>c. c \<noteq> CHR ''/'') key)))"

section \<open>The manager\<close>

definition TTLMultiplier :: int where
  "TTLMultiplier = 3"

record PresenceManager =
  pm_AgentID :: string
  pm_Project :: string
  pm_Bucket :: string
  pm_startedAt :: time_ns
  pm_closed :: bool

definition putEntry :: "'s sys \<Rightarrow> PresenceManager \<Rightarrow> 's \<Rightarrow> (err + unit) \<times> 's" where
  "putEntry js m s =
     (case js_Put js s (pm_Bucket m) (presence_keyOf (pm_Project m) (pm_AgentID m))
             (presence_encode \<lparr>pe_AgentID = pm_AgentID m, pe_Project = pm_Project m,
                pe_StartedAt = pm_startedAt m, pe_LastSeen = js_Now js s\<rparr>) of
        (Inl x, s') \<Rightarrow> (Inl (EKV x), s')
      | (Inr _, s') \<Rightarrow> (Inr (), s'))"

definition presence_Close :: "'s sys \<Rightarrow> PresenceManager \<Rightarrow> 's \<Rightarrow> PresenceManager \<times> 's" where
  "presence_Close js m s =
     (if pm_closed m then (m, s)
      else (m\<lparr>pm_closed := True\<rparr>,
            snd (js_Delete js s (pm_Bucket m) (presence_keyOf (pm_Project m) (pm_AgentID m)) None)))"

definition maxPresenceEntries :: nat where
  "maxPresenceEntries = 4096"

definition readEntry :: "'s sys \<Rightarrow> PresenceManager \<Rightarrow> string \<Rightarrow> 's \<Rightarrow> (err + PresenceEntry option) \<times> 's" where
  "readEntry js m key s =
     (case js_Get js s (pm_Bucket m) key of
        (Inl x, s') \<Rightarrow> if x = ErrKeyNotFound then (Inr None, s') else (Inl (EKV x), s')
      | (Inr kve, s') \<Rightarrow>
          if e_Operation kve \<noteq> KeyValuePut then (Inr None, s')
          else case presence_decode (e_Value kve) of
                 None \<Rightarrow> (Inl EDecode, s')
               | Some e \<Rightarrow> (Inr (Some e), s'))"

fun who_keys ::
  "'s sys \<Rightarrow> PresenceManager \<Rightarrow> string list \<Rightarrow> nat \<Rightarrow> PresenceEntry list \<Rightarrow> 's \<Rightarrow> (err + PresenceEntry list) \<times> 's" where
  "who_keys js m [] cnt out s = (Inr out, s)"
| "who_keys js m (key # keys) cnt out s =
     (if \<not> cnt < maxPresenceEntries then (Inl (EPanic ''presence.Who: scanned more than 4096 entries''), s)
      else if \<not> has_prefix key (pm_Project m @ ''/'') then who_keys js m keys (Suc cnt) out s
      else case readEntry js m key s of
             (Inl e, s') \<Rightarrow> (Inl e, s')
           | (Inr None, s') \<Rightarrow> who_keys js m keys (Suc cnt) out s'
           | (Inr (Some e), s') \<Rightarrow> who_keys js m keys (Suc cnt) (out @ [e]) s')"

text \<open>\<^verbatim>\<open>ListKeys\<close> delivers no key on an empty bucket, where \<^verbatim>\<open>Keys\<close> reports \<^verbatim>\<open>ErrNoKeysFound\<close>.\<close>

definition presence_Who :: "'s sys \<Rightarrow> PresenceManager \<Rightarrow> 's \<Rightarrow> (err + PresenceEntry list) \<times> 's" where
  "presence_Who js m s =
     (if pm_closed m then (Inl (EMsg ''presence: manager is closed''), s)
      else case js_Keys js s (pm_Bucket m) of
             (Inl x, s') \<Rightarrow> if x = ErrNoKeysFound then (Inr [], s') else (Inl (EKV x), s')
           | (Inr keys, s') \<Rightarrow> who_keys js m keys 0 [] s')"

definition Present :: "'s sys \<Rightarrow> PresenceManager \<Rightarrow> string \<Rightarrow> 's \<Rightarrow> (err + bool) \<times> 's" where
  "Present js m agentID s =
     (if agentID = [] then (Inl (EPanic ''presence.Present: agentID is empty''), s)
      else if pm_closed m then (Inl (EMsg ''presence: manager is closed''), s)
      else case readEntry js m (presence_keyOf (pm_Project m) agentID) s of
             (Inl e, s') \<Rightarrow> (Inl e, s')
           | (Inr x, s') \<Rightarrow> (Inr (x \<noteq> None), s'))"

datatype presence_EventKind = EventUp | EventDown

record presence_Event =
  pev_AgentID :: string
  pev_Project :: string
  pev_Kind :: presence_EventKind
  pev_Timestamp :: time_ns

definition eventFrom :: "string \<Rightarrow> kv_op \<Rightarrow> time_ns \<Rightarrow> presence_Event option" where
  "eventFrom key oper now =
     (case splitKey key of
        None \<Rightarrow> None
      | Some (project, agentID) \<Rightarrow>
          Some \<lparr>pev_AgentID = agentID, pev_Project = project,
                pev_Kind = (case oper of KeyValuePut \<Rightarrow> EventUp | _ \<Rightarrow> EventDown), pev_Timestamp = now\<rparr>)"

text \<open>
  \<^verbatim>\<open>Open\<close>: \<open>connected\<close> says whether the NATS handle is there, \<open>kv\<close> is the outcome of creating the bucket
  (with a TTL of \<open>TTLMultiplier\<close> heartbeats). The first entry is put before the manager is handed out.
\<close>

record presence_Config =
  pc_AgentID :: string
  pc_Project :: string
  pc_Bucket :: string
  pc_connected :: bool
  pc_HeartbeatInterval :: duration
  pc_ChanBuffer :: int

definition presence_Validate :: "presence_Config \<Rightarrow> err + unit" where
  "presence_Validate c =
     (if pc_AgentID c = [] then Inl (EMsg ''presence.Config: AgentID: must be non-empty'')
      else if pc_Project c = [] then Inl (EMsg ''presence.Config: Project: must be non-empty'')
      else if pc_Bucket c = [] then Inl (EMsg ''presence.Config: Bucket: must be non-empty'')
      else if \<not> pc_connected c then Inl (EMsg ''presence.Config: NATSConn: must be non-nil'')
      else if pc_HeartbeatInterval c \<le> 0 then Inl (EMsg ''presence.Config: HeartbeatInterval: must be > 0'')
      else if pc_ChanBuffer c < 0 then Inl (EMsg ''presence.Config: ChanBuffer: must be >= 0'')
      else Inr ())"

definition presence_ttl :: "presence_Config \<Rightarrow> duration" where
  "presence_ttl c = TTLMultiplier * pc_HeartbeatInterval c"

definition presence_Open ::
  "'s sys \<Rightarrow> kv_err option \<Rightarrow> presence_Config \<Rightarrow> 's \<Rightarrow> (err + PresenceManager) \<times> 's" where
  "presence_Open js kv c s =
     (case presence_Validate c of
        Inl e \<Rightarrow> (Inl e, s)
      | Inr _ \<Rightarrow>
          (case kv of
             Some x \<Rightarrow> (Inl (EKV x), s)
           | None \<Rightarrow>
               let m = \<lparr>pm_AgentID = pc_AgentID c, pm_Project = pc_Project c, pm_Bucket = pc_Bucket c,
                        pm_startedAt = js_Now js s, pm_closed = False\<rparr>
               in case putEntry js m s of
                    (Inl e, s') \<Rightarrow> (Inl e, s')
                  | (Inr _, s') \<Rightarrow> (Inr m, s')))"

text \<open>
  \<^verbatim>\<open>heartbeatLoop\<close> up to its \<open>n\<close>-th tick: the outcome of each put is dropped.
\<close>

fun heartbeatLoop :: "nat \<Rightarrow> 's sys \<Rightarrow> PresenceManager \<Rightarrow> 's \<Rightarrow> 's" where
  "heartbeatLoop 0 js m s = s"
| "heartbeatLoop (Suc n) js m s = heartbeatLoop n js m (snd (putEntry js m s))"

text \<open>
  \<^verbatim>\<open>watchLoop\<close> on the updates it has received, \<open>None\<close> the end-of-snapshot marker; each update comes with the
  clock reading at its translation.
\<close>

fun watchLoop :: "PresenceManager \<Rightarrow> (string \<times> kv_op \<times> time_ns) option list \<Rightarrow> presence_Event list" where
  "watchLoop m [] = []"
| "watchLoop m (None # us) = watchLoop m us"
| "watchLoop m (Some (key, oper, now) # us) =
     (if \<not> has_prefix key (pm_Project m @ ''/'') then watchLoop m us
      else case eventFrom key oper now of
             None \<Rightarrow> watchLoop m us
           | Some evt \<Rightarrow> evt # watchLoop m us)"

lemma presence_Open_ok:
  "presence_Open js kv c s = (Inr m, s') \<Longrightarrow>
   pm_AgentID m = pc_AgentID c \<and> pm_Project m = pc_Project c \<and> pm_Bucket m = pc_Bucket c \<and> \<not> pm_closed m"
  by (auto simp: presence_Open_def Let_def split: sum.splits prod.splits option.splits)

section \<open>Keys and scope\<close>

text \<open>A project without a slash is recovered from the key, whatever the agent's ID looks like.\<close>

lemma splitKey_keyOf:
  assumes "CHR ''/'' \<notin> set project"
  shows "splitKey (presence_keyOf project agent) = Some (project, agent)"
proof -
  have "\<forall>c \<in> set project. c \<noteq> CHR ''/''" using assms by auto
  then show ?thesis by (simp add: splitKey_def presence_keyOf_def takeWhile_append2 dropWhile_append2)
qed

context jetstream
begin

lemma readEntry_rely: "readEntry js m key s = (r, s') \<Longrightarrow> rely s s'"
proof -
  assume r: "readEntry js m key s = (r, s')"
  obtain y s1 where g: "js_Get js s (pm_Bucket m) key = (y, s1)" by fastforce
  then have "rely s s1" using get_ok get_err by (cases y) blast+
  moreover have "s' = s1" using r g by (auto simp: readEntry_def split: sum.splits if_splits option.splits)
  ultimately show ?thesis by simp
qed

lemma who_keys_rely: "who_keys js m keys n out s = (r, s') \<Longrightarrow> rely s s'"
proof (induction keys arbitrary: n out s)
  case (Cons k ks)
  obtain y s1 where e: "readEntry js m k s = (y, s1)" by fastforce
  have r1: "rely s s1" using e by (rule readEntry_rely)
  show ?case
    using Cons e r1 rely_refl rely_trans [OF r1]
    by (auto split: if_splits sum.splits option.splits)
qed (simp add: rely_refl)

lemma presence_Who_rely:
  assumes "presence_Who js m s = (r, s')"
  shows "rely s s'"
proof (cases "js_Keys js s (pm_Bucket m)")
  case (Pair y s1)
  then have r1: "rely s s1" using keys_ok keys_err by (cases y) blast+
  show ?thesis
    using assms Pair r1 rely_refl who_keys_rely rely_trans [OF r1]
    by (auto simp: presence_Who_def split: if_splits sum.splits)
qed

end

section \<open>A quiet substrate\<close>

text \<open>The entry stored under a key.\<close>

definition entry_at :: "kv_view \<Rightarrow> string \<Rightarrow> string \<Rightarrow> PresenceEntry option" where
  "entry_at v b k =
     (case v b k of
        None \<Rightarrow> None
      | Some e \<Rightarrow> if e_Operation e = KeyValuePut then presence_decode (e_Value e) else None)"

definition presence_wf :: "PresenceManager \<Rightarrow> mem \<Rightarrow> bool" where
  "presence_wf m s =
     (\<forall>k e. mem_view s (pm_Bucket m) k = Some e \<longrightarrow> e_Operation e = KeyValuePut \<longrightarrow> presence_decode (e_Value e) \<noteq> None)"

lemma mem_readEntry_quiet:
  assumes "quiet s" and "presence_wf m s" and "live (mem_view s (pm_Bucket m) k)"
  shows "readEntry (mem_sys G) m k s = (Inr (entry_at (mem_view s) (pm_Bucket m) k), s)
    \<and> entry_at (mem_view s) (pm_Bucket m) k \<noteq> None"
proof -
  from assms(3) obtain e where e: "mem_view s (pm_Bucket m) k = Some e" "e_Operation e = KeyValuePut"
    by (auto simp: live_def split: option.splits)
  then obtain p where "presence_decode (e_Value e) = Some p" using assms(2) by (fastforce simp: presence_wf_def)
  with e mem_get_quiet [OF assms(1) e, of G] show ?thesis by (simp add: readEntry_def entry_at_def)
qed

lemma mem_who_keys_quiet:
  assumes "quiet s" and "presence_wf m s" and "\<forall>k \<in> set ks. live (mem_view s (pm_Bucket m) k)"
    and "n + length ks \<le> maxPresenceEntries"
  shows "who_keys (mem_sys G) m ks n out s =
    (Inr (out @ map (\<lambda>k. the (entry_at (mem_view s) (pm_Bucket m) k))
            (filter (\<lambda>k. has_prefix k (pm_Project m @ ''/'')) ks)), s)"
  using assms(3,4)
proof (induction ks arbitrary: n out)
  case (Cons k ks)
  then have "live (mem_view s (pm_Bucket m) k)" by simp
  with mem_readEntry_quiet [OF assms(1,2), of k G] obtain p where
    "readEntry (mem_sys G) m k s = (Inr (Some p), s)" "entry_at (mem_view s) (pm_Bucket m) k = Some p" by auto
  with Cons show ?case by simp
qed simp

text \<open>
  On a quiet bucket of at most \<open>maxPresenceEntries\<close> entries, \<^verbatim>\<open>Who\<close> reports exactly the live entries under
  the project's prefix.
\<close>

lemma mem_Who_quiet:
  assumes "quiet s" and "presence_wf m s" and "\<not> pm_closed m"
    and "card {k. live (mem_view s (pm_Bucket m) k)} \<le> maxPresenceEntries"
  shows "\<exists>es. presence_Who (mem_sys G) m s = (Inr es, s) \<and>
    set es = {e. \<exists>k. entry_at (mem_view s) (pm_Bucket m) k = Some e \<and> has_prefix k (pm_Project m @ ''/'')}"
proof -
  have lv: "live (mem_view s (pm_Bucket m) k) \<longleftrightarrow> entry_at (mem_view s) (pm_Bucket m) k \<noteq> None" for k
    using mem_readEntry_quiet [OF assms(1,2), of k]
    by (auto simp: entry_at_def live_def split: option.splits if_splits)
  obtain y s' where k: "mem_keys G s (pm_Bucket m) = (y, s')" by fastforce
  have s': "s' = s" using mem_keys_live(1) [OF k] assms(1) by simp
  show ?thesis
  proof (cases y)
    case (Inl x)
    then have "\<not> live (mem_view s (pm_Bucket m) k)" for k using mem_keys_live(3) [OF k] s' by blast
    moreover have "x = ErrNoKeysFound" using k Inl by (auto simp: mem_keys_def Let_def split: if_splits)
    ultimately show ?thesis using k s' Inl assms(3) lv by (auto simp: presence_Who_def)
  next
    case (Inr ks)
    then have ks: "distinct ks" "set ks = {k. live (mem_view s (pm_Bucket m) k)}"
      using mem_keys_live(2) [OF k] s' by blast+
    then have "length ks \<le> maxPresenceEntries" using assms(4) distinct_card [OF ks(1)] by simp
    then have w: "presence_Who (mem_sys G) m s =
        (Inr (map (\<lambda>k. the (entry_at (mem_view s) (pm_Bucket m) k))
            (filter (\<lambda>k. has_prefix k (pm_Project m @ ''/'')) ks)), s)"
      using k s' Inr assms(3) mem_who_keys_quiet [OF assms(1,2), of ks 0 G "[]"] ks(2)
      by (simp add: presence_Who_def)
    have "set (map (\<lambda>k. the (entry_at (mem_view s) (pm_Bucket m) k))
            (filter (\<lambda>k. has_prefix k (pm_Project m @ ''/'')) ks)) =
      {e. \<exists>k. entry_at (mem_view s) (pm_Bucket m) k = Some e \<and> has_prefix k (pm_Project m @ ''/'')}"
      using ks(2) lv by (force simp: image_iff)
    with w show ?thesis by blast
  qed
qed

section \<open>Properties\<close>

text \<open>The key of a presence entry splits back into project and agent when the project has no slash.\<close>

theorem presence_key_round_trip:
  "CHR ''/'' \<notin> set project \<longrightarrow> splitKey (presence_keyOf project agent) = Some (project, agent)"
  using splitKey_keyOf by blast

theorem presence_key_round_trip_witness: "splitKey (presence_keyOf ''bones'' ''a/1'') = Some (''bones'', ''a/1'')"
  using presence_key_round_trip [of "''bones''" "''a/1''"] by simp

text \<open>\<^verbatim>\<open>Who\<close>, undisturbed and below its bound, returns exactly the entries of the manager's project and
  changes nothing.\<close>

theorem presence_Who_exact:
  assumes "quiet s" and "presence_wf m s" and "\<not> pm_closed m"
    and "card {k. live (mem_view s (pm_Bucket m) k)} \<le> maxPresenceEntries"
  shows "\<exists>es. presence_Who (mem_sys G) m s = (Inr es, s) \<and>
    set es = {e. \<exists>k. entry_at (mem_view s) (pm_Bucket m) k = Some e \<and> has_prefix k (pm_Project m @ ''/'')}"
  using assms by (rule mem_Who_quiet)

definition sample_presence :: presence_Config where
  "sample_presence = \<lparr>pc_AgentID = ''bones-a1'', pc_Project = ''bones'', pc_Bucket = ''bones-presence'', pc_connected = True,
     pc_HeartbeatInterval = 5, pc_ChanBuffer = 0\<rparr>"

theorem presence_Who_exact_witness:
  "\<exists>es. presence_Who (mem_sys (\<lambda>_ _ _. True))
      \<lparr>pm_AgentID = ''bones-a1'', pm_Project = ''bones'', pm_Bucket = ''bones-presence'', pm_startedAt = 0, pm_closed = False\<rparr>
      (mem_empty 0 []) = (Inr es, mem_empty 0 []) \<and> set es = {}"
  using presence_Who_exact [of "mem_empty 0 []"
      "\<lparr>pm_AgentID = ''bones-a1'', pm_Project = ''bones'', pm_Bucket = ''bones-presence'', pm_startedAt = 0, pm_closed = False\<rparr>"
      "\<lambda>_ _ _. True"]
  by (simp add: quiet_def presence_wf_def mem_empty_def mem_view_def live_def entry_at_def)

text \<open>An agent is present from \<^verbatim>\<open>Open\<close> to \<^verbatim>\<open>Close\<close>: with a valid configuration \<^verbatim>\<open>Open\<close> stores its entry under
  its own key, heartbeats keep it there with the start time unchanged, and \<^verbatim>\<open>Close\<close> removes it; with an
  invalid one nothing is written.\<close>

theorem presence_life:
  assumes "quiet s"
  shows "(case presence_Validate c of
     Inl e \<Rightarrow> presence_Open (mem_sys G) None c s = (Inl e, s)
   | Inr _ \<Rightarrow> \<exists>m s1. presence_Open (mem_sys G) None c s = (Inr m, s1) \<and> pm_Project m = pc_Project c \<and>
       (\<forall>n. \<exists>e. entry_at (mem_view (heartbeatLoop n (mem_sys G) m s1)) (pc_Bucket c)
              (presence_keyOf (pc_Project c) (pc_AgentID c)) = Some e \<and>
            pe_AgentID e = pc_AgentID c \<and> pe_StartedAt e = mem_now s \<and>
            entry_at (mem_view (snd (presence_Close (mem_sys G) m (heartbeatLoop n (mem_sys G) m s1)))) (pc_Bucket c)
              (presence_keyOf (pc_Project c) (pc_AgentID c)) = None))"
proof (cases "presence_Validate c")
  case (Inr u)
  define m where "m = \<lparr>pm_AgentID = pc_AgentID c, pm_Project = pc_Project c, pm_Bucket = pc_Bucket c,
    pm_startedAt = mem_now s, pm_closed = False\<rparr>"
  let ?k = "presence_keyOf (pc_Project c) (pc_AgentID c)"
  define s1 where "s1 = snd (putEntry (mem_sys G) m s)"
  have o: "presence_Open (mem_sys G) None c s = (Inr m, s1)"
    using Inr by (simp add: presence_Open_def m_def s1_def putEntry_def mem_put_def Let_def)
  have inv: "quiet (heartbeatLoop n (mem_sys G) m t) \<and>
      (\<exists>e. entry_at (mem_view (heartbeatLoop n (mem_sys G) m t)) (pc_Bucket c) ?k = Some e \<and>
         pe_AgentID e = pc_AgentID c \<and> pe_StartedAt e = mem_now s)"
    if "quiet t" "\<exists>e. entry_at (mem_view t) (pc_Bucket c) ?k = Some e \<and> pe_AgentID e = pc_AgentID c \<and> pe_StartedAt e = mem_now s"
    for n t
    using that
    by (induction n arbitrary: t) (simp_all add: putEntry_def mem_put_def m_def entry_at_def mem_view_write)
  have "quiet s1" "\<exists>e. entry_at (mem_view s1) (pc_Bucket c) ?k = Some e \<and> pe_AgentID e = pc_AgentID c \<and> pe_StartedAt e = mem_now s"
    using assms by (simp_all add: s1_def putEntry_def mem_put_def m_def entry_at_def mem_view_write)
  note i = inv [OF this]
  have cl: "entry_at (mem_view (snd (presence_Close (mem_sys G) m t))) (pc_Bucket c) ?k = None" if "quiet t" for t
    using that by (simp add: presence_Close_def m_def mem_delete_def entry_at_def mem_view_write)
  show ?thesis using Inr o i cl by (auto simp: m_def)
qed (simp add: presence_Open_def)

theorem presence_life_witness:
  "\<exists>m s1. presence_Open (mem_sys (\<lambda>_ _ _. True)) None sample_presence (mem_empty 0 []) = (Inr m, s1) \<and>
     (\<exists>e. entry_at (mem_view s1) ''bones-presence'' (presence_keyOf ''bones'' ''bones-a1'') = Some e)"
proof -
  have "presence_Validate sample_presence = Inr ()" by (simp add: presence_Validate_def sample_presence_def)
  moreover have "quiet (mem_empty 0 [])" by (simp add: quiet_def mem_empty_def)
  ultimately obtain m s1 where "presence_Open (mem_sys (\<lambda>_ _ _. True)) None sample_presence (mem_empty 0 []) = (Inr m, s1)"
    and "\<forall>n. \<exists>e. entry_at (mem_view (heartbeatLoop n (mem_sys (\<lambda>_ _ _. True)) m s1)) (pc_Bucket sample_presence)
              (presence_keyOf (pc_Project sample_presence) (pc_AgentID sample_presence)) = Some e"
    using presence_life [of "mem_empty 0 []" "\<lambda>_ _ _. True" sample_presence] by simp blast
  then show ?thesis by (auto simp: sample_presence_def dest!: spec [of _ 0])
qed

end
