(* ===== verification/Chat.thy ===== *)
theory Chat
  imports JetStream "HOL-Library.Sublist"
begin

text \<open>
  \<^verbatim>\<open>internal/chat\<close>: messages on named threads of a project, kept on a stream. The subject of a thread is
  derived from the project and a hash of the thread's name, so writers and readers meet without agreeing on
  anything; the hash (\<^verbatim>\<open>sha256\<close> in hexadecimal) is the argument \<open>sha\<close>. A reading scans the whole stream and groups
  the messages by thread. The headers that carry trace context are left out. The first half holds the
  operations; the lemmas of the second half say what the scan and the summaries compute.
\<close>

section \<open>Envelopes\<close>

record Envelope =
  en_ID :: string
  en_From :: string
  en_Thread :: string
  en_Body :: string
  en_Timestamp :: time_ns
  en_ReplyTo :: string

definition zero_Envelope :: Envelope where
  "zero_Envelope = \<lparr>en_ID = [], en_From = [], en_Thread = [], en_Body = [], en_Timestamp = zero_time, en_ReplyTo = []\<rparr>"

definition chat_encode :: "Envelope \<Rightarrow> json" where
  "chat_encode e = JObj
     (member ''id'' (JStr (en_ID e)) @ member ''from'' (JStr (en_From e)) @ member ''thread'' (JStr (en_Thread e)) @
      member ''body'' (JStr (en_Body e)) @ member ''timestamp'' (JTime (en_Timestamp e)) @
      member_omit (en_ReplyTo e = []) ''reply_to'' (JStr (en_ReplyTo e)))"

definition chat_field :: "string \<Rightarrow> json \<Rightarrow> Envelope \<Rightarrow> Envelope option" where
  "chat_field k j e =
     (if k = ''id'' then map_option (\<lambda>x. e\<lparr>en_ID := x\<rparr>) (into_string (en_ID e) j)
      else if k = ''from'' then map_option (\<lambda>x. e\<lparr>en_From := x\<rparr>) (into_string (en_From e) j)
      else if k = ''thread'' then map_option (\<lambda>x. e\<lparr>en_Thread := x\<rparr>) (into_string (en_Thread e) j)
      else if k = ''body'' then map_option (\<lambda>x. e\<lparr>en_Body := x\<rparr>) (into_string (en_Body e) j)
      else if k = ''timestamp'' then map_option (\<lambda>x. e\<lparr>en_Timestamp := x\<rparr>) (into_time (en_Timestamp e) j)
      else if k = ''reply_to'' then map_option (\<lambda>x. e\<lparr>en_ReplyTo := x\<rparr>) (into_string (en_ReplyTo e) j)
      else Some e)"

definition chat_decode :: "json \<Rightarrow> Envelope option" where
  "chat_decode j = into_struct chat_field zero_Envelope j"

text \<open>
  The scan ignores the error of \<^verbatim>\<open>json.Unmarshal\<close>, which stores the members it can store: a member of a wrong type
  is passed over and the others are still read.
\<close>

fun stored_fields :: "(string \<times> json) list \<Rightarrow> Envelope \<Rightarrow> Envelope" where
  "stored_fields [] e = e"
| "stored_fields ((k, j) # kjs) e =
     stored_fields kjs (case chat_field k j e of None \<Rightarrow> e | Some e' \<Rightarrow> e')"

fun chat_stored :: "json \<Rightarrow> Envelope" where
  "chat_stored (JObj kjs) = stored_fields kjs zero_Envelope"
| "chat_stored _ = zero_Envelope"

section \<open>The manager\<close>

record chat_Config =
  chc_AgentID :: string
  chc_ProjectPrefix :: string
  chc_connected :: bool
  chc_MaxRetentionAge :: duration
  chc_MaxSubscribers :: int

definition chat_Validate :: "chat_Config \<Rightarrow> err + unit" where
  "chat_Validate c =
     (if chc_AgentID c = [] then Inl (EMsg ''chat.Config: AgentID: must be non-empty'')
      else if chc_ProjectPrefix c = [] then Inl (EMsg ''chat.Config: ProjectPrefix: must be non-empty'')
      else if \<not> chc_connected c then Inl (EMsg ''chat.Config: Nats: must be non-nil'')
      else if chc_MaxRetentionAge c < 0 then Inl (EMsg ''chat.Config: MaxRetentionAge: must be >= 0 (0 = unbounded)'')
      else if chc_MaxSubscribers c \<le> 0 then Inl (EMsg ''chat.Config: MaxSubscribers: must be > 0'')
      else Inr ())"

record ChatManager =
  ch_AgentID :: string
  ch_ProjectPrefix :: string
  ch_closed :: bool

definition chat_ErrClosed :: err where
  "chat_ErrClosed = EMsg ''chat: manager is closed''"

text \<open>\<open>kv\<close> is the outcome of creating or updating the stream, whose name and subjects are the definitions below.\<close>

definition chat_stream :: "chat_Config \<Rightarrow> string \<times> string list" where
  "chat_stream c = (''chat-'' @ chc_ProjectPrefix c, [''chat.'' @ chc_ProjectPrefix c @ ''.>''])"

definition chat_Open :: "kv_err option \<Rightarrow> chat_Config \<Rightarrow> err + ChatManager" where
  "chat_Open kv c =
     (case chat_Validate c of
        Inl e \<Rightarrow> Inl e
      | Inr _ \<Rightarrow>
          (case kv of
             Some x \<Rightarrow> Inl (EKV x)
           | None \<Rightarrow> Inr \<lparr>ch_AgentID = chc_AgentID c, ch_ProjectPrefix = chc_ProjectPrefix c, ch_closed = False\<rparr>))"

definition chat_Close :: "ChatManager \<Rightarrow> ChatManager" where
  "chat_Close m = m\<lparr>ch_closed := True\<rparr>"

section \<open>Sending\<close>

definition threadShort :: "(string \<Rightarrow> string) \<Rightarrow> string \<Rightarrow> string \<Rightarrow> string" where
  "threadShort sha project nm = take 8 (sha (project @ '':'' @ nm))"

definition thread_subject :: "(string \<Rightarrow> string) \<Rightarrow> ChatManager \<Rightarrow> string \<Rightarrow> string" where
  "thread_subject sha m thread = ''chat.'' @ ch_ProjectPrefix m @ ''.'' @ threadShort sha (ch_ProjectPrefix m) thread"

definition lower_hex :: "nat \<Rightarrow> char" where
  "lower_hex d = (if d < 10 then char_of (48 + d) else char_of (87 + d))"

definition newID :: "8 word list \<Rightarrow> string" where
  "newID bs = concat (map (\<lambda>b. [lower_hex (unat b div 16), lower_hex (unat b mod 16)]) bs)"

text \<open>\<open>rnd\<close> are the bytes \<^verbatim>\<open>rand.Read\<close> delivers, \<open>ctxErr\<close> what \<^verbatim>\<open>ctx.Err()\<close> reports.\<close>

definition chat_Send ::
  "'s sys \<Rightarrow> (string \<Rightarrow> string) \<Rightarrow> ('s \<Rightarrow> 8 word list) \<Rightarrow> err option \<Rightarrow> ChatManager \<Rightarrow> string \<Rightarrow> string \<Rightarrow> 's \<Rightarrow>
   (err + unit) \<times> 's" where
  "chat_Send js sha rnd ctxErr m thread body s =
     (if thread = [] then (Inl (EPanic ''chat.Send: thread is empty''), s)
      else if ch_closed m then (Inl chat_ErrClosed, s)
      else case ctxErr of
             Some e \<Rightarrow> (Inl e, s)
           | None \<Rightarrow>
               let short = threadShort sha (ch_ProjectPrefix m) thread;
                   env = \<lparr>en_ID = newID (rnd s), en_From = ch_AgentID m, en_Thread = short, en_Body = body,
                          en_Timestamp = js_Now js s, en_ReplyTo = []\<rparr>
               in case js_Publish js s (''chat.'' @ ch_ProjectPrefix m @ ''.'' @ short) (chat_encode env) of
                    (Inl x, s') \<Rightarrow> (Inl (EKV x), s')
                  | (Inr _, s') \<Rightarrow> (Inr (), s'))"

section \<open>Watching\<close>

definition watch_subject :: "(string \<Rightarrow> string) \<Rightarrow> ChatManager \<Rightarrow> string \<Rightarrow> err + string" where
  "watch_subject sha m thread =
     (if thread = [] then Inl (EPanic ''chat.Watch: thread is empty'')
      else Inr (''chat.'' @ ch_ProjectPrefix m @ ''.'' @ threadShort sha (ch_ProjectPrefix m) thread))"

definition watch_all_subject :: "ChatManager \<Rightarrow> string" where
  "watch_all_subject m = ''chat.'' @ ch_ProjectPrefix m @ ''.*''"

definition watch_pattern_subject :: "ChatManager \<Rightarrow> string \<Rightarrow> err + string" where
  "watch_pattern_subject m pattern =
     (if pattern = [] then Inl (EPanic ''chat.WatchPattern: pattern is empty'')
      else Inr (''chat.'' @ ch_ProjectPrefix m @ ''.'' @ pattern))"

text \<open>
  \<^verbatim>\<open>watchSubject\<close> from the messages its ordered consumer delivers (\<open>Inl\<close>: the consumer could not be opened) to what
  it puts on the channel before the context ends; a document that does not decode is passed over.
\<close>

fun relay_envelopes :: "stream_msg list \<Rightarrow> Envelope list" where
  "relay_envelopes [] = []"
| "relay_envelopes (m # ms) =
     (case chat_decode (msg_Data m) of
        None \<Rightarrow> relay_envelopes ms
      | Some env \<Rightarrow> env # relay_envelopes ms)"

definition watchSubject :: "ChatManager \<Rightarrow> kv_err + stream_msg list \<Rightarrow> Envelope list" where
  "watchSubject m delivered =
     (if ch_closed m then []
      else case delivered of Inl _ \<Rightarrow> [] | Inr ms \<Rightarrow> relay_envelopes ms)"

section \<open>Request and reply\<close>

definition chat_Request ::
  "('s \<Rightarrow> string \<Rightarrow> string \<Rightarrow> (kv_err + string) \<times> 's) \<Rightarrow> ChatManager \<Rightarrow> string \<Rightarrow> string \<Rightarrow> 's \<Rightarrow> (err + string) \<times> 's" where
  "chat_Request request m subject payload s =
     (if subject = [] then (Inl (EPanic ''chat.Request: subject is empty''), s)
      else if ch_closed m then (Inl chat_ErrClosed, s)
      else case request s subject payload of
             (Inl x, s') \<Rightarrow> (Inl (EKV x), s')
           | (Inr data, s') \<Rightarrow> (Inr data, s'))"

text \<open>
  What a responder does with one request: the reply it publishes, if any. The subscription and the flush of
  \<^verbatim>\<open>Respond\<close> are calls into the connection, with outcomes \<open>sub\<close> and \<open>flush\<close>.
\<close>

definition respond_to :: "('p \<Rightarrow> err + 'p) \<Rightarrow> 'p \<Rightarrow> 'p option" where
  "respond_to handler payload = (case handler payload of Inl _ \<Rightarrow> None | Inr reply \<Rightarrow> Some reply)"

definition chat_Respond :: "kv_err option \<Rightarrow> kv_err option \<Rightarrow> ChatManager \<Rightarrow> string \<Rightarrow> err + unit" where
  "chat_Respond sub flush m subject =
     (if subject = [] then Inl (EPanic ''chat.Respond: subject is empty'')
      else if ch_closed m then Inl chat_ErrClosed
      else case sub of
             Some x \<Rightarrow> Inl (EKV x)
           | None \<Rightarrow> (case flush of Some x \<Rightarrow> Inl (EKV x) | None \<Rightarrow> Inr ()))"

section \<open>Threads\<close>

record ThreadSummary =
  ts_threadShort :: string
  ts_lastActivity :: time_ns
  ts_messageCount :: nat
  ts_lastBody :: string

type_synonym groups = "(string \<times> Envelope list) list"

definition add_message :: "groups \<Rightarrow> Envelope \<Rightarrow> groups" where
  "add_message out env =
     (if en_Thread env \<noteq> []
      then AList.update (en_Thread env) ((case map_of out (en_Thread env) of None \<Rightarrow> [] | Some es \<Rightarrow> es) @ [env]) out
      else out)"

text \<open>
  The scan reads until it has seen as many messages as \<^verbatim>\<open>stream.Info\<close> counted (\<open>info\<close>); when fewer arrive it waits
  for the context to end: then it returns what there is if the context is \<open>cancelled\<close>, and otherwise never
  (\<open>None\<close>). Messages that arrive later than the counted ones are not looked at.
\<close>

definition scanStream ::
  "'s sys \<Rightarrow> ('s \<Rightarrow> kv_err + nat) \<Rightarrow> bool \<Rightarrow> ChatManager \<Rightarrow> 's \<Rightarrow> (err + groups) option \<times> 's" where
  "scanStream js info cancelled m s =
     (case js_Consumer js s (''chat.'' @ ch_ProjectPrefix m @ ''.>'') DeliverAllPolicy of
        (Inl x, s1) \<Rightarrow> (Some (Inl (EKV x)), s1)
      | (Inr fs, s1) \<Rightarrow>
          (case info s1 of
             Inl x \<Rightarrow> (Some (Inl (EKV x)), s1)
           | Inr target \<Rightarrow>
               if target = 0 then (Some (Inr []), s1)
               else let delivered = batch_msgs fs; seen = take target delivered;
                        out = foldl add_message [] (map (\<lambda>x. chat_stored (msg_Data x)) seen)
                    in if target \<le> length delivered \<or> cancelled then (Some (Inr out), s1) else (None, s1)))"

definition newest :: "Envelope list \<Rightarrow> Envelope" where
  "newest envs = foldl (\<lambda>lst e. if en_Timestamp e > en_Timestamp lst then e else lst) (hd envs) envs"

definition summary_of :: "string \<times> Envelope list \<Rightarrow> ThreadSummary" where
  "summary_of g =
     \<lparr>ts_threadShort = fst g, ts_lastActivity = en_Timestamp (newest (snd g)), ts_messageCount = length (snd g),
      ts_lastBody = en_Body (newest (snd g))\<rparr>"

definition newer :: "ThreadSummary \<Rightarrow> ThreadSummary \<Rightarrow> bool" where
  "newer x y = (ts_lastActivity x > ts_lastActivity y)"

text \<open>
  Go visits the entries of a map in any order and \<^verbatim>\<open>sort.Slice\<close> may permute equal elements: \<open>rng\<close> is the order of
  the visit, among the threads with the same last activity it is also the order of the result.
\<close>

definition summariesFromGroups :: "(groups \<Rightarrow> groups) \<Rightarrow> groups \<Rightarrow> ThreadSummary list" where
  "summariesFromGroups rng grps =
     slice_stable newer (map summary_of (filter (\<lambda>g. snd g \<noteq> []) (rng grps)))"

definition ListThreads ::
  "'s sys \<Rightarrow> ('s \<Rightarrow> kv_err + nat) \<Rightarrow> bool \<Rightarrow> (groups \<Rightarrow> groups) \<Rightarrow> ChatManager \<Rightarrow> 's \<Rightarrow> (err + ThreadSummary list) option \<times> 's" where
  "ListThreads js info cancelled rng m s =
     (if ch_closed m then (Some (Inl chat_ErrClosed), s)
      else case scanStream js info cancelled m s of
             (None, s') \<Rightarrow> (None, s')
           | (Some (Inl e), s') \<Rightarrow> (Some (Inl e), s')
           | (Some (Inr grps), s') \<Rightarrow> (Some (Inr (summariesFromGroups rng grps)), s'))"

definition threads_of :: "(groups \<Rightarrow> groups) \<Rightarrow> string \<Rightarrow> int \<Rightarrow> groups \<Rightarrow> ThreadSummary list" where
  "threads_of rng agentID maxThreads grps =
     (let filtered = filter (\<lambda>g. \<exists>e \<in> set (snd g). en_From e = agentID) grps;
          al = summariesFromGroups rng filtered
      in if int (length al) > maxThreads then take (nat maxThreads) al else al)"

definition ThreadsForAgent ::
  "'s sys \<Rightarrow> ('s \<Rightarrow> kv_err + nat) \<Rightarrow> bool \<Rightarrow> (groups \<Rightarrow> groups) \<Rightarrow> ChatManager \<Rightarrow> string \<Rightarrow> int \<Rightarrow> 's \<Rightarrow>
   (err + ThreadSummary list) option \<times> 's" where
  "ThreadsForAgent js info cancelled rng m agentID maxThreads s =
     (if agentID = [] then (Some (Inl (EPanic ''chat.ThreadsForAgent: agentID is empty'')), s)
      else if ch_closed m then (Some (Inl chat_ErrClosed), s)
      else case scanStream js info cancelled m s of
             (None, s') \<Rightarrow> (None, s')
           | (Some (Inl e), s') \<Rightarrow> (Some (Inl e), s')
           | (Some (Inr grps), s') \<Rightarrow> (Some (Inr (threads_of rng agentID maxThreads grps)), s'))"

section \<open>Lemmas: the wire\<close>

lemma chat_decode_encode [simp]: "chat_decode (chat_encode e) = Some e"
  by (simp add: chat_decode_def chat_encode_def into_fields_simps chat_field_def zero_Envelope_def)

interpretation chat_wire: wire_format chat_encode chat_decode "\<lambda>_. True"
  by unfold_locales simp

lemma stored_fields_ok: "into_fields chat_field kjs e = Some e' \<Longrightarrow> stored_fields kjs e = e'"
  by (induction kjs e rule: stored_fields.induct) (auto split: option.splits)

lemma chat_stored_decoded: "chat_decode j = Some e \<Longrightarrow> chat_stored j = e"
  by (cases j) (auto simp: chat_decode_def intro: stored_fields_ok)

lemma chat_stored_encode [simp]: "chat_stored (chat_encode e) = e"
  by (rule chat_stored_decoded) simp

lemma relay_envelopes_encoded: "relay_envelopes (map (\<lambda>(q, sj, e). \<lparr>msg_Sequence = q, msg_Subject = sj, msg_Data = chat_encode e\<rparr>) ms) =
   map (\<lambda>(q, sj, e). e) ms"
  by (induction ms) auto

section \<open>Lemmas: grouping\<close>

definition messages_in :: "Envelope list \<Rightarrow> string \<Rightarrow> Envelope list" where
  "messages_in es t = filter (\<lambda>e. en_Thread e = t) es"

lemma group_messages:
  "distinct (map fst (foldl add_message [] es)) \<and>
   (\<forall>t. map_of (foldl add_message [] es) t = (if t = [] \<or> messages_in es t = [] then None else Some (messages_in es t)))"
proof (induction es rule: rev_induct)
  case (snoc e es)
  then show ?case
    by (auto simp: add_message_def messages_in_def update_conv' distinct_update split: option.splits)
qed (simp add: messages_in_def)

lemma group_entries:
  "g \<in> set (foldl add_message [] es) \<longleftrightarrow> fst g \<noteq> [] \<and> snd g = messages_in es (fst g) \<and> snd g \<noteq> []"
proof -
  obtain t es' where g: "g = (t, es')" by (cases g)
  have "g \<in> set (foldl add_message [] es) \<longleftrightarrow> map_of (foldl add_message [] es) t = Some es'"
    unfolding g by (rule map_of_eq_Some_iff [OF conjunct1 [OF group_messages], symmetric])
  also have "\<dots> \<longleftrightarrow> t \<noteq> [] \<and> messages_in es t \<noteq> [] \<and> messages_in es t = es'"
    unfolding conjunct2 [OF group_messages, THEN spec] by simp
  finally show ?thesis unfolding g by auto
qed

section \<open>Lemmas: summaries\<close>

lemma newest_spec:
  assumes "es \<noteq> []"
  shows "newest es \<in> set es \<and> (\<forall>e \<in> set es. en_Timestamp e \<le> en_Timestamp (newest es))"
proof -
  let ?f = "\<lambda>lst e. if en_Timestamp e > en_Timestamp lst then e else lst"
  have "foldl ?f x es \<in> insert x (set es)" for x
    by (induction es arbitrary: x) auto
  moreover have mono: "en_Timestamp x \<le> en_Timestamp (foldl ?f x es)" for x and es :: "Envelope list"
  proof (induction es arbitrary: x)
    case (Cons e es)
    have "en_Timestamp x \<le> en_Timestamp (?f x e)" by simp
    also have "\<dots> \<le> en_Timestamp (foldl ?f (?f x e) es)" by (rule Cons)
    finally show ?case by simp
  qed simp
  moreover have "e \<in> set es \<Longrightarrow> en_Timestamp e \<le> en_Timestamp (foldl ?f x es)" for x e
  proof (induction es arbitrary: x)
    case (Cons d es)
    have "en_Timestamp d \<le> en_Timestamp (?f x d)" by simp
    also have "\<dots> \<le> en_Timestamp (foldl ?f (?f x d) es)" by (rule mono)
    finally show ?case using Cons by auto
  qed simp
  ultimately have "foldl ?f x es \<in> insert x (set es) \<and> (\<forall>e \<in> set es. en_Timestamp e \<le> en_Timestamp (foldl ?f x es))" for x
    by blast
  from this [of "hd es"] assms show ?thesis by (simp add: newest_def insert_absorb)
qed

interpretation newest_first: keyed_less newer "\<lambda>x. - ts_lastActivity x"
  by unfold_locales (simp add: newer_def)

lemma summaries_set:
  assumes "mset (rng grps) = mset grps"
  shows "set (summariesFromGroups rng grps) = summary_of ` {g \<in> set grps. snd g \<noteq> []}"
  using mset_eq_setD [OF assms] by (auto simp: summariesFromGroups_def newest_first.slice_stable_set)

lemma summaries_distinct:
  assumes "mset (rng grps) = mset grps" and "distinct (map fst grps)"
  shows "distinct (map ts_threadShort (summariesFromGroups rng grps))"
proof -
  have "distinct (map fst (filter (\<lambda>g. snd g \<noteq> []) (rng grps)))"
    using assms by (metis distinct_map_filter mset_map mset_eq_imp_distinct_iff)
  moreover have "map ts_threadShort (map summary_of gs) = map fst gs" for gs
    by (simp add: summary_of_def)
  moreover have "mset (map ts_threadShort (summariesFromGroups rng grps)) =
      mset (map ts_threadShort (map summary_of (filter (\<lambda>g. snd g \<noteq> []) (rng grps))))"
    by (simp only: summariesFromGroups_def newest_first.slice_stable_sort_key mset_map mset_sort)
  ultimately show ?thesis by (metis mset_eq_imp_distinct_iff)
qed

lemma summaries_sorted: "sorted_wrt (\<lambda>x y. ts_lastActivity x \<ge> ts_lastActivity y) (summariesFromGroups rng grps)"
  using newest_first.slice_stable_sorted [of "map summary_of (filter (\<lambda>g. snd g \<noteq> []) (rng grps))"]
  by (simp add: summariesFromGroups_def sorted_map)

text \<open>The threads an agent has written to, and what a summary of a thread says.\<close>

definition active_threads :: "Envelope list \<Rightarrow> string \<Rightarrow> string set" where
  "active_threads es a = {t. t \<noteq> [] \<and> (\<exists>e \<in> set es. en_Thread e = t \<and> en_From e = a)}"

definition thread_summary :: "Envelope list \<Rightarrow> string \<Rightarrow> ThreadSummary" where
  "thread_summary es t = summary_of (t, messages_in es t)"

lemma thread_summary_spec:
  assumes "t \<in> active_threads es a"
  shows "ts_threadShort (thread_summary es t) = t"
    and "ts_messageCount (thread_summary es t) = length (messages_in es t)"
    and "\<exists>e \<in> set (messages_in es t). ts_lastActivity (thread_summary es t) = en_Timestamp e \<and>
      ts_lastBody (thread_summary es t) = en_Body e \<and> (\<forall>d \<in> set (messages_in es t). en_Timestamp d \<le> en_Timestamp e)"
proof -
  from assms have "messages_in es t \<noteq> []" by (auto simp: active_threads_def messages_in_def filter_empty_conv)
  from newest_spec [OF this]
  show "ts_threadShort (thread_summary es t) = t"
    and "ts_messageCount (thread_summary es t) = length (messages_in es t)"
    and "\<exists>e \<in> set (messages_in es t). ts_lastActivity (thread_summary es t) = en_Timestamp e \<and>
      ts_lastBody (thread_summary es t) = en_Body e \<and> (\<forall>d \<in> set (messages_in es t). en_Timestamp d \<le> en_Timestamp e)"
    by (auto simp: thread_summary_def summary_of_def)
qed

lemma threads_of_ranked:
  assumes "\<And>g. mset (rng g) = mset g"
  obtains al where "threads_of rng a (int n) (foldl add_message [] es) = take n al"
    and "distinct (map ts_threadShort al)" and "sorted_wrt (\<lambda>x y. ts_lastActivity x \<ge> ts_lastActivity y) al"
    and "set al = thread_summary es ` active_threads es a"
proof -
  define fs where "fs = filter (\<lambda>g. \<exists>e \<in> set (snd g). en_From e = a) (foldl add_message [] es)"
  have "distinct (map fst fs)"
    unfolding fs_def using group_messages [of es] by (simp add: distinct_map_filter)
  moreover have "{g \<in> set fs. snd g \<noteq> []} = (\<lambda>t. (t, messages_in es t)) ` active_threads es a"
    unfolding fs_def by (fastforce simp: group_entries active_threads_def messages_in_def filter_empty_conv)
  ultimately show ?thesis
    using that [of "summariesFromGroups rng fs"] summaries_distinct [of rng fs, OF assms] summaries_sorted [of rng fs]
      summaries_set [of rng fs, OF assms]
    by (simp add: threads_of_def fs_def [symmetric] Let_def image_image thread_summary_def)
qed

lemma threads_of_exact:
  assumes "\<And>g. mset (rng g) = mset g" and out_def: "out = threads_of rng a (int n) (foldl add_message [] es)"
  shows "distinct (map ts_threadShort out)" and "sorted_wrt (\<lambda>x y. ts_lastActivity x \<ge> ts_lastActivity y) out"
    and "set out \<subseteq> thread_summary es ` active_threads es a" and "length out = min n (card (active_threads es a))"
    and "t \<in> active_threads es a \<Longrightarrow> thread_summary es t \<notin> set out \<Longrightarrow> x \<in> set out \<Longrightarrow>
      ts_lastActivity (thread_summary es t) \<le> ts_lastActivity x"
proof -
  from threads_of_ranked [of rng a n es, OF assms(1)] obtain al where o: "out = take n al"
    and d: "distinct (map ts_threadShort al)" and st: "sorted_wrt (\<lambda>x y. ts_lastActivity x \<ge> ts_lastActivity y) al"
    and al: "set al = thread_summary es ` active_threads es a"
    unfolding out_def by blast
  show "distinct (map ts_threadShort out)"
    using d unfolding o by (simp flip: take_map)
  show "sorted_wrt (\<lambda>x y. ts_lastActivity x \<ge> ts_lastActivity y) out"
    using st unfolding o by (rule sorted_wrt_take)
  show "set out \<subseteq> thread_summary es ` active_threads es a"
    unfolding o al [symmetric] by (rule set_take_subset)
  have "ts_threadShort ` set al = active_threads es a"
    unfolding al using thread_summary_spec(1) by (force simp: image_image)
  then have "card (active_threads es a) = length al"
    using distinct_card [OF d] by simp
  then show "length out = min n (card (active_threads es a))"
    unfolding o by simp
  show "ts_lastActivity (thread_summary es t) \<le> ts_lastActivity x"
    if "t \<in> active_threads es a" "thread_summary es t \<notin> set out" "x \<in> set out"
  proof -
    from that(1,2) al have "thread_summary es t \<in> set (drop n al)"
      unfolding o by (metis UnE append_take_drop_id imageI set_append)
    with st that(3) show ?thesis
      unfolding o by (metis append_take_drop_id sorted_wrt_append)
  qed
qed

section \<open>Undisturbed calls\<close>

definition sent_envelope :: "(string \<Rightarrow> string) \<Rightarrow> (mem \<Rightarrow> 8 word list) \<Rightarrow> ChatManager \<Rightarrow> string \<Rightarrow> string \<Rightarrow> mem \<Rightarrow> Envelope" where
  "sent_envelope sha rnd m thread body s =
     \<lparr>en_ID = newID (rnd s), en_From = ch_AgentID m, en_Thread = threadShort sha (ch_ProjectPrefix m) thread, en_Body = body,
      en_Timestamp = mem_now s, en_ReplyTo = []\<rparr>"

definition mem_sent :: "mem \<Rightarrow> string \<Rightarrow> Envelope \<Rightarrow> mem" where
  "mem_sent s subj e = s\<lparr>mem_stream := mem_stream s @ [Some (subj, chat_encode e)]\<rparr>"

lemma mem_sent_simps [simp]:
  "mem_view (mem_sent s subj e) = mem_view s" "mem_now (mem_sent s subj e) = mem_now s" "quiet (mem_sent s subj e) = quiet s"
  "mem_strm (mem_sent s subj e) = mem_strm s @
     [\<lparr>msg_Sequence = Suc (length (mem_stream s)), msg_Subject = subj, msg_Data = chat_encode e\<rparr>]"
  by (simp_all add: mem_sent_def mem_view_def fun_eq_iff quiet_def mem_strm_def number_msgs_append)

lemma mem_chat_Send:
  assumes "quiet s" and "thread \<noteq> []" and "\<not> ch_closed m"
  shows "chat_Send (mem_sys G) sha rnd None m thread body s =
    (Inr (), mem_sent s (thread_subject sha m thread) (sent_envelope sha rnd m thread body s))"
  using assms by (simp add: chat_Send_def mem_publish_def mem_sent_def sent_envelope_def thread_subject_def Let_def)

definition chat_messages :: "ChatManager \<Rightarrow> mem \<Rightarrow> stream_msg list" where
  "chat_messages m s = filter (\<lambda>x. subject_matches (''chat.'' @ ch_ProjectPrefix m @ ''.>'') (msg_Subject x)) (mem_strm s)"

definition chat_history :: "ChatManager \<Rightarrow> mem \<Rightarrow> Envelope list" where
  "chat_history m s = map (\<lambda>x. chat_stored (msg_Data x)) (chat_messages m s)"

text \<open>The count \<^verbatim>\<open>stream.Info\<close> reports of the chat stream.\<close>

definition mem_info :: "ChatManager \<Rightarrow> mem \<Rightarrow> kv_err + nat" where
  "mem_info m s = Inr (length (chat_messages m s))"

lemma chat_subject_matches:
  "sha (p @ '':'' @ thread) \<noteq> [] \<Longrightarrow> subject_matches (''chat.'' @ p @ ''.>'') (''chat.'' @ p @ ''.'' @ threadShort sha p thread)"
  by (cases "sha (p @ '':'' @ thread)") (simp_all add: subject_matches_def has_prefix_def threadShort_def butlast_append)

lemma chat_history_sent:
  "sha (ch_ProjectPrefix m @ '':'' @ thread) \<noteq> [] \<Longrightarrow>
   chat_history m (mem_sent s (thread_subject sha m thread) e) = chat_history m s @ [e]"
  using chat_subject_matches [of sha "ch_ProjectPrefix m" thread]
  by (simp add: chat_history_def chat_messages_def thread_subject_def)

lemma mem_scanStream:
  assumes "quiet s"
  shows "scanStream (mem_sys G) (mem_info m) cancelled m s = (Some (Inr (foldl add_message [] (chat_history m s))), s)"
  using assms by (simp add: scanStream_def mem_consumer_def mem_info_def chat_history_def chat_messages_def Let_def)

lemma mem_ThreadsForAgent:
  assumes "quiet s" and "a \<noteq> []" and "\<not> ch_closed m"
  shows "ThreadsForAgent (mem_sys G) (mem_info m) cancelled rng m a n s =
    (Some (Inr (threads_of rng a n (foldl add_message [] (chat_history m s)))), s)"
  using assms by (simp add: ThreadsForAgent_def mem_scanStream)

lemma chat_Send_publishes:
  assumes "chat_Send js sha rnd ctxErr m thread body s = (Inr (), s')"
  obtains env q where "js_Publish js s (thread_subject sha m thread) (chat_encode env) = (Inr q, s')"
    and "en_From env = ch_AgentID m" and "en_Body env = body" and "en_Thread env = threadShort sha (ch_ProjectPrefix m) thread"
    and "en_Timestamp env = js_Now js s"
  using assms by (auto simp: chat_Send_def thread_subject_def Let_def split: if_splits option.splits sum.splits prod.splits)

context jetstream
begin

lemma chat_Send_appends:
  assumes "chat_Send js sha rnd ctxErr m thread body s = (Inr (), s')"
  obtains s1 env q where "rely s s1" and "o_view ob s' = o_view ob s1" and "o_seqno ob s' = o_seqno ob s1"
    and "o_strm ob s' = o_strm ob s1 @
      [\<lparr>msg_Sequence = q, msg_Subject = thread_subject sha m thread, msg_Data = chat_encode env\<rparr>]"
    and "en_From env = ch_AgentID m" and "en_Body env = body" and "en_Thread env = threadShort sha (ch_ProjectPrefix m) thread"
  using chat_Send_publishes [OF assms] publish_ok by metis

end

end
