(* ===== verification/Task_Ready.thy ===== *)
theory Task_Ready
  imports Task_Store
begin

text \<open>
  Which tasks an agent may take up: \<^verbatim>\<open>internal/tasks/ready.go\<close> (the CLI's filter and order) and its
  twin in \<^verbatim>\<open>internal/coord\<close> (\<^verbatim>\<open>ready.go\<close>, \<^verbatim>\<open>blocked.go\<close>, the filters of \<^verbatim>\<open>prime.go\<close>, \<^verbatim>\<open>taskFromRecord\<close> of
  \<^verbatim>\<open>types.go\<close>). The lemmas state eligibility without the reverse index, show that the two filters agree,
  that the orders are the documented ones, and that an acyclic set of open tasks always offers one.
\<close>

section \<open>internal/tasks/ready.go\<close>

record readyBlockers =
  rb_blocked :: "string set"
  rb_superseded :: "string set"
  rb_duplicated :: "string set"
  rb_hasOpenChild :: "string set"

definition add_edge :: "readyBlockers \<Rightarrow> Edge \<Rightarrow> readyBlockers" where
  "add_edge b e =
     (if edge_Type e = EdgeBlocks then b\<lparr>rb_blocked := insert (edge_Target e) (rb_blocked b)\<rparr>
      else if edge_Type e = EdgeSupersedes then b\<lparr>rb_superseded := insert (edge_Target e) (rb_superseded b)\<rparr>
      else if edge_Type e = EdgeDuplicates then b\<lparr>rb_duplicated := insert (edge_Target e) (rb_duplicated b)\<rparr>
      else b)"

definition add_record :: "readyBlockers \<Rightarrow> Task \<Rightarrow> readyBlockers" where
  "add_record b r =
     (if t_Status r = StatusClosed then b
      else let b' = (if t_Parent r \<noteq> [] then b\<lparr>rb_hasOpenChild := insert (t_Parent r) (rb_hasOpenChild b)\<rparr> else b)
           in foldl add_edge b' (t_Edges r))"

definition buildReadyBlockers :: "Task list \<Rightarrow> readyBlockers" where
  "buildReadyBlockers records =
     foldl add_record \<lparr>rb_blocked = {}, rb_superseded = {}, rb_duplicated = {}, rb_hasOpenChild = {}\<rparr> records"

definition FilterReady :: "Task list \<Rightarrow> time_ns \<Rightarrow> Task list" where
  "FilterReady records now =
     (let b = buildReadyBlockers records in
      filter (\<lambda>r.
        if t_Status r \<noteq> StatusOpen then False
        else if t_ClaimedBy r \<noteq> [] then False
        else if t_ID r \<in> rb_blocked b then False
        else if t_ID r \<in> rb_superseded b then False
        else if t_ID r \<in> rb_duplicated b then False
        else if t_ID r \<in> rb_hasOpenChild b then False
        else if (case t_DeferUntil r of None \<Rightarrow> False | Some d \<Rightarrow> d > now) then False
        else True) records)"

fun rank_loop :: "int \<Rightarrow> string \<Rightarrow> int option" where
  "rank_loop rank [] = Some rank"
| "rank_loop rank (c # cs) =
     (if \<not> is_digit c then None else rank_loop (go_int (rank * 10 + (int (of_char c) - 48))) cs)"

definition PriorityRank :: "Task \<Rightarrow> int \<times> bool" where
  "PriorityRank t =
     (case map_of (t_Context t) ''priority'' of
        None \<Rightarrow> (0, False)
      | Some v \<Rightarrow>
          if v = [] then (0, False)
          else if length v < 2 \<or> (v ! 0 \<noteq> CHR ''P'' \<and> v ! 0 \<noteq> CHR ''p'') then (0, False)
          else (case rank_loop 0 (tl v) of None \<Rightarrow> (0, False) | Some rank \<Rightarrow> (rank, True)))"

definition ready_less :: "Task \<Rightarrow> Task \<Rightarrow> bool" where
  "ready_less x y =
     (let (pi, oki) = PriorityRank x; (pj, okj) = PriorityRank y in
      if oki \<and> \<not> okj then True
      else if \<not> oki \<and> okj then False
      else if oki \<and> okj \<and> pi \<noteq> pj then pi < pj
      else t_CreatedAt x < t_CreatedAt y)"

definition SortReady :: "Task list \<Rightarrow> Task list" where
  "SortReady records = slice_stable ready_less records"

section \<open>internal/coord\<close>

text \<open>The read-only view \<^verbatim>\<open>coord.Task\<close>.\<close>

record coord_Task =
  ct_id :: string
  ct_title :: string
  ct_files :: "string list"
  ct_claimedBy :: string
  ct_createdAt :: time_ns
  ct_updatedAt :: time_ns

definition taskFromRecord :: "Task \<Rightarrow> coord_Task" where
  "taskFromRecord r =
     \<lparr>ct_id = t_ID r, ct_title = t_Title r, ct_files = t_Files r, ct_claimedBy = t_ClaimedBy r,
      ct_createdAt = t_CreatedAt r, ct_updatedAt = t_UpdatedAt r\<rparr>"

text \<open>\<^verbatim>\<open>coord\<close> has its own copy of \<^verbatim>\<open>buildReadyBlockers\<close>, line for line the one above.\<close>

fun coord_filterReady :: "Task list \<Rightarrow> readyBlockers \<Rightarrow> time_ns \<Rightarrow> coord_Task list" where
  "coord_filterReady [] b now = []"
| "coord_filterReady (r # rs) b now =
     (if t_Status r \<noteq> StatusOpen then coord_filterReady rs b now
      else if t_ClaimedBy r \<noteq> [] then coord_filterReady rs b now
      else if t_ID r \<in> rb_blocked b then coord_filterReady rs b now
      else if t_ID r \<in> rb_superseded b then coord_filterReady rs b now
      else if t_ID r \<in> rb_duplicated b then coord_filterReady rs b now
      else if t_ID r \<in> rb_hasOpenChild b then coord_filterReady rs b now
      else if (case t_DeferUntil r of None \<Rightarrow> False | Some d \<Rightarrow> d > now) then coord_filterReady rs b now
      else taskFromRecord r # coord_filterReady rs b now)"

definition sortReady_less :: "coord_Task \<Rightarrow> coord_Task \<Rightarrow> bool" where
  "sortReady_less x y = (ct_createdAt x < ct_createdAt y)"

definition sortReady :: "coord_Task list \<Rightarrow> coord_Task list" where
  "sortReady ts = slice_stable sortReady_less ts"

definition capReady :: "coord_Task list \<Rightarrow> int \<Rightarrow> coord_Task list" where
  "capReady ts mx =
     (if ts = [] then [] else if int (length ts) > mx then take (nat mx) ts else ts)"

fun filterBlocked :: "Task list \<Rightarrow> readyBlockers \<Rightarrow> coord_Task list" where
  "filterBlocked [] b = []"
| "filterBlocked (r # rs) b =
     (if t_Status r \<noteq> StatusOpen then filterBlocked rs b
      else if t_ClaimedBy r \<noteq> [] then filterBlocked rs b
      else if t_ID r \<notin> rb_blocked b then filterBlocked rs b
      else taskFromRecord r # filterBlocked rs b)"

definition filterByStatus :: "Task list \<Rightarrow> Status \<Rightarrow> coord_Task list" where
  "filterByStatus records st = map taskFromRecord (filter (\<lambda>r. t_Status r = st) records)"

definition filterByClaimedBy :: "Task list \<Rightarrow> string \<Rightarrow> coord_Task list" where
  "filterByClaimedBy records agent = map taskFromRecord (filter (\<lambda>r. t_ClaimedBy r = agent) records)"

text \<open>
  \<^verbatim>\<open>Coord.Ready\<close> and \<^verbatim>\<open>Coord.Blocked\<close> on an open handle: \<open>maxReturn\<close> is \<^verbatim>\<open>Tuning.MaxReadyReturn\<close>. The code reads
  the clock once per record; the model reads it once.
\<close>

definition coord_Ready :: "'s sys \<Rightarrow> Manager \<Rightarrow> int \<Rightarrow> 's \<Rightarrow> (err + coord_Task list) \<times> 's" where
  "coord_Ready js m maxReturn s =
     (case tasks_List js m s of
        (Inl e, s') \<Rightarrow> (Inl e, s')
      | (Inr records, s') \<Rightarrow>
          let blockers = buildReadyBlockers records;
              eligible = coord_filterReady records blockers (js_Now js s')
          in (Inr (capReady (sortReady eligible) maxReturn), s'))"

definition coord_Blocked :: "'s sys \<Rightarrow> Manager \<Rightarrow> int \<Rightarrow> 's \<Rightarrow> (err + coord_Task list) \<times> 's" where
  "coord_Blocked js m maxReturn s =
     (case tasks_List js m s of
        (Inl e, s') \<Rightarrow> (Inl e, s')
      | (Inr records, s') \<Rightarrow>
          (Inr (capReady (sortReady (filterBlocked records (buildReadyBlockers records))) maxReturn), s'))"

section \<open>Eligibility without the index\<close>

text \<open>\<open>holds_back r i\<close>: while \<open>r\<close> is not closed, task \<open>i\<close> has to wait for it.\<close>

definition holds_back :: "Task \<Rightarrow> string \<Rightarrow> bool" where
  "holds_back r i =
     (t_Parent r = i \<and> i \<noteq> [] \<or>
      (\<exists>e \<in> set (t_Edges r). edge_Target e = i \<and> edge_Type e \<in> {EdgeBlocks, EdgeSupersedes, EdgeDuplicates}))"

definition due :: "Task \<Rightarrow> time_ns \<Rightarrow> bool" where
  "due r now = (case t_DeferUntil r of None \<Rightarrow> True | Some d \<Rightarrow> d \<le> now)"

definition eligible :: "Task list \<Rightarrow> time_ns \<Rightarrow> Task \<Rightarrow> bool" where
  "eligible records now r =
     (t_Status r = StatusOpen \<and> t_ClaimedBy r = [] \<and> due r now \<and>
      \<not> (\<exists>x \<in> set records. t_Status x \<noteq> StatusClosed \<and> holds_back x (t_ID r)))"

definition edge_targets :: "EdgeType \<Rightarrow> Task list \<Rightarrow> string set" where
  "edge_targets et records =
     {i. \<exists>x \<in> set records. t_Status x \<noteq> StatusClosed \<and> (\<exists>e \<in> set (t_Edges x). edge_Type e = et \<and> edge_Target e = i)}"

lemma foldl_add_edge:
  "foldl add_edge b es =
   b\<lparr>rb_blocked := rb_blocked b \<union> {edge_Target e | e. e \<in> set es \<and> edge_Type e = EdgeBlocks},
     rb_superseded := rb_superseded b \<union> {edge_Target e | e. e \<in> set es \<and> edge_Type e = EdgeSupersedes},
     rb_duplicated := rb_duplicated b \<union> {edge_Target e | e. e \<in> set es \<and> edge_Type e = EdgeDuplicates}\<rparr>"
proof (induction es arbitrary: b)
  case (Cons e es)
  show ?case
    unfolding foldl.simps Cons by (rule readyBlockers.equality) (auto simp: add_edge_def)
qed simp

lemma foldl_add_record:
  "foldl add_record b records =
   b\<lparr>rb_blocked := rb_blocked b \<union> edge_targets EdgeBlocks records,
     rb_superseded := rb_superseded b \<union> edge_targets EdgeSupersedes records,
     rb_duplicated := rb_duplicated b \<union> edge_targets EdgeDuplicates records,
     rb_hasOpenChild := rb_hasOpenChild b \<union>
       {t_Parent x | x. x \<in> set records \<and> t_Status x \<noteq> StatusClosed \<and> t_Parent x \<noteq> []}\<rparr>"
proof (induction records arbitrary: b)
  case (Cons r records)
  show ?case
    unfolding foldl.simps Cons
    by (rule readyBlockers.equality) (auto simp: add_record_def foldl_add_edge Let_def edge_targets_def)
qed (simp add: edge_targets_def)

lemma buildReadyBlockers_sets:
  "buildReadyBlockers records =
   \<lparr>rb_blocked = edge_targets EdgeBlocks records, rb_superseded = edge_targets EdgeSupersedes records,
    rb_duplicated = edge_targets EdgeDuplicates records,
    rb_hasOpenChild = {t_Parent x | x. x \<in> set records \<and> t_Status x \<noteq> StatusClosed \<and> t_Parent x \<noteq> []}\<rparr>"
  by (simp add: buildReadyBlockers_def foldl_add_record)

lemma blockers_holds_back:
  "i \<in> rb_blocked (buildReadyBlockers records) \<or> i \<in> rb_superseded (buildReadyBlockers records) \<or>
   i \<in> rb_duplicated (buildReadyBlockers records) \<or> i \<in> rb_hasOpenChild (buildReadyBlockers records) \<longleftrightarrow>
   (\<exists>x \<in> set records. t_Status x \<noteq> StatusClosed \<and> holds_back x i)"
  by (auto simp: buildReadyBlockers_sets edge_targets_def holds_back_def)

lemma FilterReady_eligible: "FilterReady records now = filter (eligible records now) records"
  unfolding FilterReady_def Let_def
  by (rule filter_cong) (use blockers_holds_back in \<open>auto simp: eligible_def due_def split: option.splits\<close>)

lemma coord_filterReady_tasks:
  "coord_filterReady rs (buildReadyBlockers records) now = map taskFromRecord (filter (eligible records now) rs)"
  using blockers_holds_back [of _ records]
  by (induction rs) (auto simp: eligible_def due_def split: option.splits)

lemma filterBlocked_eq:
  "filterBlocked rs b =
   map taskFromRecord (filter (\<lambda>r. t_Status r = StatusOpen \<and> t_ClaimedBy r = [] \<and> t_ID r \<in> rb_blocked b) rs)"
  by (induction rs) auto

section \<open>Order\<close>

definition ready_key :: "Task \<Rightarrow> nat \<times> int \<times> int" where
  "ready_key t = (case PriorityRank t of (p, okp) \<Rightarrow> if okp then (0, p, t_CreatedAt t) else (1, 0, t_CreatedAt t))"

interpretation ready_order: keyed_less ready_less ready_key
  by unfold_locales (auto simp: ready_less_def ready_key_def Let_def split: prod.splits)

interpretation coord_order: keyed_less sortReady_less ct_createdAt
  by unfold_locales (simp add: sortReady_less_def)

lemma SortReady_mset: "mset (SortReady records) = mset records"
  by (simp add: SortReady_def ready_order.slice_stable_sort_key)

lemma rank_loop_snoc:
  "rank_loop r (cs @ [c]) =
   (case rank_loop r cs of None \<Rightarrow> None
    | Some k \<Rightarrow> if \<not> is_digit c then None else Some (go_int (k * 10 + (int (of_char c) - 48))))"
  by (induction r cs rule: rank_loop.induct) auto

text \<open>A rank that fits an \<^verbatim>\<open>int\<close> is read back exactly.\<close>

lemma rank_loop_itoa: "n < 2 ^ 63 \<Longrightarrow> rank_loop 0 (itoa n) = Some (int n)"
proof (induction n rule: itoa.induct)
  case (1 n)
  show ?case
  proof (cases "n < 10")
    case True
    then show ?thesis by (simp add: itoa.simps [of n] go_int_id)
  next
    case False
    then have "rank_loop 0 (itoa (n div 10)) = Some (int (n div 10))" using 1 by simp
    moreover have "int (n div 10) * 10 + int (n mod 10) = int n"
      by (metis div_mult_mod_eq of_nat_add of_nat_mult of_nat_numeral)
    ultimately show ?thesis
      using False 1(2) by (simp add: itoa.simps [of n] rank_loop_snoc go_int_id)
  qed
qed

lemma PriorityRank_itoa:
  assumes "map_of (t_Context t) ''priority'' = Some (CHR ''P'' # itoa n)" and "n < 2 ^ 63"
  shows "PriorityRank t = (int n, True)"
proof -
  have "length (itoa n) \<ge> 1" by (metis itoa_nonempty length_0_conv less_one linorder_not_le)
  then show ?thesis using assms rank_loop_itoa [OF assms(2)] by (simp add: PriorityRank_def)
qed

section \<open>Progress\<close>

text \<open>
  The wait graph of the tasks that are not closed. Without a cycle, and with every such task open,
  unclaimed and due, some task is ready: readiness never deadlocks on the edges alone.
\<close>

definition waits :: "Task list \<Rightarrow> (string \<times> string) set" where
  "waits records =
     {(t_ID x, t_ID y) | x y. x \<in> set records \<and> y \<in> set records \<and> t_Status x \<noteq> StatusClosed \<and>
        t_Status y \<noteq> StatusClosed \<and> holds_back x (t_ID y)}"

lemma finite_waits: "finite (waits records)"
proof (rule finite_subset)
  show "waits records \<subseteq> (t_ID ` set records) \<times> (t_ID ` set records)" by (auto simp: waits_def)
qed simp

lemma FilterReady_progress_aux:
  assumes "acyclic (waits records)"
    and "\<forall>r \<in> set records. t_Status r \<noteq> StatusClosed \<longrightarrow>
      t_Status r = StatusOpen \<and> t_ClaimedBy r = [] \<and> due r now"
    and "\<exists>r \<in> set records. t_Status r \<noteq> StatusClosed"
  shows "FilterReady records now \<noteq> []"
proof -
  let ?S = "{t_ID r | r. r \<in> set records \<and> t_Status r \<noteq> StatusClosed}"
  have "wf (waits records)" using finite_waits assms(1) by (simp add: finite_acyclic_wf)
  moreover from assms(3) obtain i where "i \<in> ?S" by blast
  ultimately obtain z where z: "z \<in> ?S" and min: "\<And>y. (y, z) \<in> waits records \<Longrightarrow> y \<notin> ?S"
    by (rule wfE_min) blast
  then obtain r where r: "r \<in> set records" "t_Status r \<noteq> StatusClosed" "z = t_ID r" by blast
  have free: "\<not> holds_back x (t_ID r)" if x: "x \<in> set records" "t_Status x \<noteq> StatusClosed" for x
  proof
    assume "holds_back x (t_ID r)"
    with x r have "(t_ID x, z) \<in> waits records" unfolding waits_def by blast
    from min [OF this] x show False by blast
  qed
  have "eligible records now r"
    unfolding eligible_def using bspec [OF assms(2) r(1)] r(2) free by blast
  with r(1) show ?thesis unfolding FilterReady_eligible filter_empty_conv by blast
qed

section \<open>Properties\<close>

text \<open>C34: The ready filter, which works on a reverse index of the edges, keeps exactly the tasks that are
  open, unclaimed and due and that no task which is not closed holds back by a \<^verbatim>\<open>blocks\<close>, \<^verbatim>\<open>supersedes\<close> or
  \<^verbatim>\<open>duplicates\<close> edge or as a child; and the filter of \<^verbatim>\<open>internal/coord\<close> delivers the same tasks in the same order.\<close>

theorem ready_filters_agree:
  "FilterReady records now = filter (eligible records now) records \<and>
   coord_filterReady records (buildReadyBlockers records) now = map taskFromRecord (FilterReady records now)"
  by (simp add: FilterReady_eligible coord_filterReady_tasks)

text \<open>The ready order is the stable sort by priority rank, ranked tasks first, and creation time.\<close>

theorem SortReady_sort_key: "SortReady records = sort_key ready_key records"
  by (simp add: SortReady_def ready_order.slice_stable_sort_key)

text \<open>A priority \<open>P<n>\<close> that fits the machine integer has rank \<open>n\<close>; beyond the machine integer the rank wraps.\<close>

theorem PriorityRank_reads:
  "(n < 2 ^ 63 \<longrightarrow> PriorityRank (zero_Task\<lparr>t_Context := [(''priority'', CHR ''P'' # itoa n)]\<rparr>) = (int n, True)) \<and>
   PriorityRank (zero_Task\<lparr>t_Context := [(''priority'', ''P18446744073709551616'')]\<rparr>) = (0, True)"
proof -
  have "rank_loop 0 ''18446744073709551616'' = Some 0"
    by (simp add: is_digit_def go_int_def)
  then show ?thesis by (simp add: PriorityRank_itoa) (simp add: PriorityRank_def)
qed

theorem PriorityRank_reads_witness:
  "PriorityRank (zero_Task\<lparr>t_Context := [(''priority'', ''P12'')]\<rparr>) = (12, True)"
proof -
  have "itoa 12 = ''12''" by code_simp
  then show ?thesis using PriorityRank_reads [of 12] by simp
qed

text \<open>C35: Readiness cannot deadlock on the edges: when the tasks that are not closed hold one another back
  without a cycle, and each is open, unclaimed and due, at least one of them is ready.\<close>

theorem FilterReady_progress:
  assumes "acyclic (waits records)"
    and "\<forall>r \<in> set records. t_Status r \<noteq> StatusClosed \<longrightarrow>
      t_Status r = StatusOpen \<and> t_ClaimedBy r = [] \<and> due r now"
    and "\<exists>r \<in> set records. t_Status r \<noteq> StatusClosed"
  shows "FilterReady records now \<noteq> []"
  using assms by (rule FilterReady_progress_aux)

theorem FilterReady_progress_witness:
  "FilterReady
     [zero_Task\<lparr>t_ID := ''a'', t_Status := StatusOpen, t_Edges := [\<lparr>edge_Type = EdgeBlocks, edge_Target = ''b''\<rparr>]\<rparr>,
      zero_Task\<lparr>t_ID := ''b'', t_Status := StatusOpen\<rparr>] 0 \<noteq> []"
proof -
  let ?a = "zero_Task\<lparr>t_ID := ''a'', t_Status := StatusOpen, t_Edges := [\<lparr>edge_Type = EdgeBlocks, edge_Target = ''b''\<rparr>]\<rparr>"
  let ?b = "zero_Task\<lparr>t_ID := ''b'', t_Status := StatusOpen\<rparr>"
  have "waits [?a, ?b] \<subseteq> {(''a'', ''b'')}" by (auto simp: waits_def holds_back_def zero_Task_def)
  moreover have "acyclic {(''a'', ''b'')}" by (rule wf_acyclic) (simp add: wf_insert)
  ultimately have "acyclic (waits [?a, ?b])" using acyclic_subset by blast
  then show ?thesis
    using FilterReady_progress [of "[?a, ?b]" 0] by (simp add: zero_Task_def due_def)
qed

end
