(* ===== verification/Coord.thy ===== *)
theory Coord
  imports Task_Tx Holds Presence Chat Task_Ready "HOL-Library.List_Lexorder" "HOL-Library.Char_ord"
begin

text \<open>
  \<^verbatim>\<open>internal/coord\<close>: what an agent does with tasks and holds (\<^verbatim>\<open>config.go\<close>, \<^verbatim>\<open>coord.go\<close>, \<^verbatim>\<open>open_task.go\<close>,
  \<^verbatim>\<open>close_task.go\<close>, \<^verbatim>\<open>reclaim.go\<close>, \<^verbatim>\<open>handoff_claim.go\<close>, \<^verbatim>\<open>link.go\<close>, \<^verbatim>\<open>holdgate.go\<close>). The handle's own mutable
  state is \<open>c_epochs\<close>, the claim epochs it knows (\<^verbatim>\<open>activeEpochs\<close>); operations return the handle they
  leave. The notices of a take-over on the task's
  chat thread are best effort in the code and left out.
\<close>

section \<open>Configuration\<close>

record TuningConfig =
  tc_HoldTTLDefault :: duration
  tc_HoldTTLMax :: duration
  tc_MaxHoldsPerClaim :: int
  tc_MaxSubscribers :: int
  tc_ChatRetentionMaxAge :: duration
  tc_MaxTaskFiles :: int
  tc_MaxReadyReturn :: int
  tc_MaxTaskValueSize :: int
  tc_TaskHistoryDepth :: "8 word"
  tc_HeartbeatInterval :: duration
  tc_NATSReconnectWait :: duration
  tc_NATSMaxReconnects :: int

definition second :: duration where
  "second = 1000000000"

definition or_default :: "'a::zero \<Rightarrow> 'a \<Rightarrow> 'a" where
  "or_default d x = (if x = 0 then d else x)"

definition defaultTuning :: "TuningConfig \<Rightarrow> TuningConfig" where
  "defaultTuning t =
     t\<lparr>tc_HoldTTLDefault := or_default (30 * second) (tc_HoldTTLDefault t),
       tc_HoldTTLMax := or_default (5 * 60 * second) (tc_HoldTTLMax t),
       tc_MaxHoldsPerClaim := or_default 16 (tc_MaxHoldsPerClaim t),
       tc_MaxSubscribers := or_default 8 (tc_MaxSubscribers t),
       tc_MaxTaskFiles := or_default 16 (tc_MaxTaskFiles t),
       tc_MaxReadyReturn := or_default 32 (tc_MaxReadyReturn t),
       tc_MaxTaskValueSize := or_default 16384 (tc_MaxTaskValueSize t),
       tc_TaskHistoryDepth := or_default 8 (tc_TaskHistoryDepth t),
       tc_HeartbeatInterval := or_default (5 * second) (tc_HeartbeatInterval t),
       tc_NATSReconnectWait := or_default (100 * 1000000) (tc_NATSReconnectWait t),
       tc_NATSMaxReconnects := or_default 10 (tc_NATSMaxReconnects t)\<rparr>"

record CoordConfig =
  cc_AgentID :: string
  cc_NATSURL :: string
  cc_CheckoutRoot :: string
  cc_ProjectPrefix :: string
  cc_Tuning :: TuningConfig

definition Validate :: "CoordConfig \<Rightarrow> err + unit" where
  "Validate c =
     (let t = cc_Tuning c in
      if cc_AgentID c = [] then Inl (EMsg ''AgentID: must be non-empty'')
      else if cc_NATSURL c = [] then Inl (EMsg ''NATSURL: must be non-empty'')
      else if cc_CheckoutRoot c = [] then Inl (EMsg ''CheckoutRoot: must be non-empty'')
      else if tc_HoldTTLDefault t \<le> 0 then Inl (EMsg ''Tuning.HoldTTLDefault: must be > 0'')
      else if tc_HoldTTLMax t \<le> 0 then Inl (EMsg ''Tuning.HoldTTLMax: must be > 0'')
      else if tc_HoldTTLDefault t > tc_HoldTTLMax t then Inl (EMsg ''Tuning.HoldTTLDefault: must be <= HoldTTLMax'')
      else if tc_MaxHoldsPerClaim t \<le> 0 then Inl (EMsg ''Tuning.MaxHoldsPerClaim: must be > 0'')
      else if tc_MaxSubscribers t \<le> 0 then Inl (EMsg ''Tuning.MaxSubscribers: must be > 0'')
      else if tc_MaxTaskFiles t \<le> 0 then Inl (EMsg ''Tuning.MaxTaskFiles: must be > 0'')
      else if tc_MaxReadyReturn t \<le> 0 then Inl (EMsg ''Tuning.MaxReadyReturn: must be > 0'')
      else if tc_MaxTaskValueSize t \<le> 0 then Inl (EMsg ''Tuning.MaxTaskValueSize: must be > 0'')
      else if tc_TaskHistoryDepth t = 0 then Inl (EMsg ''Tuning.TaskHistoryDepth: must be > 0'')
      else if tc_HeartbeatInterval t \<le> 0 then Inl (EMsg ''Tuning.HeartbeatInterval: must be > 0'')
      else if tc_NATSReconnectWait t \<le> 0 then Inl (EMsg ''Tuning.NATSReconnectWait: must be > 0'')
      else if tc_NATSMaxReconnects t \<le> 0 then Inl (EMsg ''Tuning.NATSMaxReconnects: must be > 0'')
      else Inr ())"

text \<open>\<^verbatim>\<open>strings.LastIndex(s, "-")\<close>: the position of the last hyphen.\<close>

fun last_index :: "char \<Rightarrow> string \<Rightarrow> nat option" where
  "last_index c [] = None"
| "last_index c (x # xs) =
     (case last_index c xs of Some i \<Rightarrow> Some (Suc i) | None \<Rightarrow> if x = c then Some 0 else None)"

definition projectPrefix :: "string \<Rightarrow> err + string" where
  "projectPrefix agentID =
     (if agentID = [] then Inl (EPanic ''coord: projectPrefix: agentID is empty'')
      else case last_index CHR ''-'' agentID of
             None \<Rightarrow> Inl (EPanic ''coord: projectPrefix: agentID has no hyphen'')
           | Some idx \<Rightarrow>
               if \<not> idx > 0 then Inl (EPanic ''coord: projectPrefix: agentID has no hyphen'')
               else if \<not> idx < length agentID - 1 then Inl (EPanic ''coord: projectPrefix: agentID has empty suffix'')
               else Inr (take idx agentID))"

section \<open>The handle\<close>

definition holdsBucket :: string where "holdsBucket = ''bones-holds''"
definition archiveBucket :: string where "archiveBucket = ''bones-task-archive''"
definition presenceBucket :: string where "presenceBucket = ''bones-presence''"

record Coord =
  c_AgentID :: string
  c_Tuning :: TuningConfig
  c_tasks :: Manager
  c_archive :: Manager
  c_holds :: HoldsManager
  c_chat :: ChatManager
  c_presence :: PresenceManager
  c_closed :: bool
  c_epochs :: "string \<Rightarrow> 64 word option"

text \<open>\<^verbatim>\<open>Close\<close> shuts every manager; the presence entry is deleted.\<close>

definition coord_Close :: "'s sys \<Rightarrow> Coord \<Rightarrow> 's \<Rightarrow> Coord \<times> 's" where
  "coord_Close js c s =
     (if c_closed c then (c, s)
      else case presence_Close js (c_presence c) s of
             (pm, s') \<Rightarrow>
               (c\<lparr>c_closed := True, c_presence := pm, c_chat := chat_Close (c_chat c), c_archive := tasks_Close (c_archive c),
                  c_tasks := tasks_Close (c_tasks c), c_holds := holds_Close (c_holds c)\<rparr>, s'))"

definition pathFromTaskFile :: "string \<Rightarrow> err + Path" where
  "pathFromTaskFile f =
     (case wspath_New f of
        Inl _ \<Rightarrow> Inl (EPanic ''coord: invalid file path in task record'')
      | Inr p \<Rightarrow> Inr p)"

definition store_epoch :: "string \<Rightarrow> 64 word \<Rightarrow> Coord \<Rightarrow> Coord" where
  "store_epoch i e c = c\<lparr>c_epochs := (c_epochs c)(i \<mapsto> e)\<rparr>"

definition delete_epoch :: "string \<Rightarrow> Coord \<Rightarrow> Coord" where
  "delete_epoch i c = c\<lparr>c_epochs := (c_epochs c)(i := None)\<rparr>"

section \<open>Claim\<close>

definition claimMutator :: "string \<Rightarrow> mutator" where
  "claimMutator agent now cur =
     (if t_Status cur \<noteq> StatusOpen \<or> t_ClaimedBy cur \<noteq> [] then Inl (ECoord ErrTaskAlreadyClaimed)
      else Inr (cur\<lparr>t_Status := StatusClaimed, t_ClaimedBy := agent,
                    t_ClaimEpoch := t_ClaimEpoch cur + 1, t_UpdatedAt := now\<rparr>))"

definition translateClaimCASErr :: "err \<Rightarrow> err" where
  "translateClaimCASErr e =
     (if e = ECoord ErrTaskAlreadyClaimed then ECoord ErrTaskAlreadyClaimed
      else if e = ETasks ErrNotFound then ECoord ErrTaskNotFound
      else e)"

definition acquireTaskCAS :: "'s sys \<Rightarrow> string \<Rightarrow> Coord \<Rightarrow> 's \<Rightarrow> (err + string list) \<times> Coord \<times> 's" where
  "acquireTaskCAS js taskID c s =
     (case tasks_Get js (c_tasks c) taskID s of
        (Inl e, s1) \<Rightarrow> (Inl (if e = ETasks ErrNotFound then ECoord ErrTaskNotFound else e), c, s1)
      | (Inr (rec, _), s1) \<Rightarrow>
          if t_Status rec \<noteq> StatusOpen \<or> t_ClaimedBy rec \<noteq> []
          then (Inl (ECoord ErrTaskAlreadyClaimed), c, s1)
          else (case Manager_Tx (c_tasks c) taskID
                       (Tx_Claim js (c_tasks c) taskID
                          \<lparr>ca_AgentID = c_AgentID c, ca_Slot = [], ca_ClaimEpoch = t_ClaimEpoch rec + 1,
                           ca_PrevAgent = [], ca_Mutate = Some (claimMutator (c_AgentID c))\<rparr>) s1 of
                  (Inl e, s2) \<Rightarrow> (Inl (translateClaimCASErr e), c, s2)
                | (Inr t, s2) \<Rightarrow> (Inr (t_Files rec), store_epoch taskID (t_ClaimEpoch t) c, s2)))"

definition claim_hold :: "Coord \<Rightarrow> string \<Rightarrow> duration \<Rightarrow> Hold" where
  "claim_hold c taskID ttl =
     zero_Hold\<lparr>h_AgentID := c_AgentID c, h_CheckoutPath := taskID, h_TTL := ttl\<rparr>"

fun claimAll ::
  "'s sys \<Rightarrow> Coord \<Rightarrow> string \<Rightarrow> string list \<Rightarrow> duration \<Rightarrow> string list \<Rightarrow> 's \<Rightarrow> (string list \<times> err option) \<times> 's" where
  "claimAll js c taskID [] ttl held s = ((held, None), s)"
| "claimAll js c taskID (f # fs) ttl held s =
     (case pathFromTaskFile f of
        Inl e \<Rightarrow> ((held, Some e), s)
      | Inr p \<Rightarrow>
          (case Announce js (c_holds c) p (claim_hold c taskID ttl) s of
             (Inl e, s') \<Rightarrow> ((held, Some e), s')
           | (Inr _, s') \<Rightarrow> claimAll js c taskID fs ttl (held @ [f]) s'))"

fun rollback :: "'s sys \<Rightarrow> Coord \<Rightarrow> string list \<Rightarrow> 's \<Rightarrow> 's" where
  "rollback js c [] s = s"
| "rollback js c (f # fs) s =
     (case pathFromTaskFile f of
        Inl _ \<Rightarrow> s
      | Inr p \<Rightarrow> rollback js c fs (snd (holds_Release js (c_holds c) p (c_AgentID c) s)))"

definition undo_mutator :: "string \<Rightarrow> mutator" where
  "undo_mutator agent now cur =
     (if t_Status cur \<noteq> StatusClaimed \<or> t_ClaimedBy cur \<noteq> agent then Inl (ECoord ErrClaimCASNoOp)
      else Inr (cur\<lparr>t_Status := StatusOpen, t_ClaimedBy := [], t_UpdatedAt := now\<rparr>))"

definition undoTaskCAS :: "'s sys \<Rightarrow> string \<Rightarrow> Coord \<Rightarrow> 's \<Rightarrow> Coord \<times> 's" where
  "undoTaskCAS js taskID c s =
     (case Manager_Tx (c_tasks c) taskID
             (Tx_Unclaim js (c_tasks c) taskID ''claim rollback after hold failure''
                (Some (undo_mutator (c_AgentID c)))) s of
        (_, s') \<Rightarrow> (delete_epoch taskID c, s'))"

text \<open>
  The failure branch \<^verbatim>\<open>Claim\<close>, \<^verbatim>\<open>Reclaim\<close> and \<^verbatim>\<open>HandoffClaim\<close> share: release what was announced, undo the
  claim, report. A panic runs neither.
\<close>

definition hold_failure :: "'s sys \<Rightarrow> string \<Rightarrow> string list \<Rightarrow> err \<Rightarrow> Coord \<Rightarrow> 's \<Rightarrow> err \<times> Coord \<times> 's" where
  "hold_failure js taskID held herr c s =
     (if is_panic herr then (herr, c, s)
      else case undoTaskCAS js taskID c (rollback js c held s) of
             (c', s') \<Rightarrow>
               (if herr = EHolds HErrHeldByAnother then ECoord ErrHeldByAnother else herr, c', s'))"

definition coord_Claim :: "'s sys \<Rightarrow> string \<Rightarrow> duration \<Rightarrow> Coord \<Rightarrow> 's \<Rightarrow> (err + string list) \<times> Coord \<times> 's" where
  "coord_Claim js taskID ttl c s =
     (if c_closed c then (Inl (EPanic ''coord.Claim: coord is closed''), c, s)
      else if taskID = [] then (Inl (EPanic ''coord.Claim: taskID is empty''), c, s)
      else if \<not> ttl > 0 then (Inl (EPanic ''coord.Claim: ttl must be > 0''), c, s)
      else if \<not> ttl \<le> tc_HoldTTLMax (c_Tuning c) then (Inl (EPanic ''coord.Claim: ttl exceeds HoldTTLMax''), c, s)
      else case acquireTaskCAS js taskID c s of
             (Inl e, c1, s1) \<Rightarrow> (Inl e, c1, s1)
           | (Inr files, c1, s1) \<Rightarrow>
               (case claimAll js c1 taskID files ttl [] s1 of
                  ((held, Some herr), s2) \<Rightarrow>
                    (case hold_failure js taskID held herr c1 s2 of (e, c3, s3) \<Rightarrow> (Inl e, c3, s3))
                | ((held, None), s2) \<Rightarrow>
                    if length held \<noteq> length files then (Inl (EPanic ''coord.Claim: invariant 6 violation''), c1, s2)
                    else (Inr held, c1, s2)))"

section \<open>Release\<close>

definition release_mutator :: "string \<Rightarrow> mutator" where
  "release_mutator agent now cur =
     (if t_Status cur = StatusClosed then Inl (ECoord ErrClaimCASNoOp)
      else if t_Status cur \<noteq> StatusClaimed \<or> t_ClaimedBy cur \<noteq> agent then Inl (ECoord ErrClaimCASNoOp)
      else Inr (cur\<lparr>t_Status := StatusOpen, t_ClaimedBy := [], t_UpdatedAt := now\<rparr>))"

definition releaseTaskCAS :: "'s sys \<Rightarrow> string \<Rightarrow> Coord \<Rightarrow> 's \<Rightarrow> err option \<times> 's" where
  "releaseTaskCAS js taskID c s =
     (case Manager_Tx (c_tasks c) taskID
             (Tx_Unclaim js (c_tasks c) taskID ''release'' (Some (release_mutator (c_AgentID c)))) s of
        (Inr _, s') \<Rightarrow> (None, s')
      | (Inl e, s') \<Rightarrow>
          if e = ECoord ErrClaimCASNoOp then (None, s')
          else if e = ETasks ErrClosed then (None, s')
          else if e = ETasks ErrNotFound then (None, s')
          else (Some e, s'))"

fun releaseHolds :: "'s sys \<Rightarrow> Coord \<Rightarrow> string list \<Rightarrow> err option \<Rightarrow> 's \<Rightarrow> err option \<times> 's" where
  "releaseHolds js c [] first s = (first, s)"
| "releaseHolds js c (f # fs) first s =
     (case pathFromTaskFile f of
        Inl e \<Rightarrow> (Some e, s)
      | Inr p \<Rightarrow>
          (case holds_Release js (c_holds c) p (c_AgentID c) s of
             (Inr _, s') \<Rightarrow> releaseHolds js c fs first s'
           | (Inl e, s') \<Rightarrow>
               if e = EHolds HErrClosed then releaseHolds js c fs first s'
               else releaseHolds js c fs (if first = None then Some e else first) s'))"

text \<open>The closure with its \<^verbatim>\<open>sync.Once\<close> and the error it remembers.\<close>

record ReleaseClosure =
  rc_taskID :: string
  rc_held :: "string list"
  rc_once :: bool
  rc_firstErr :: "err option"

definition releaseClosure :: "string \<Rightarrow> string list \<Rightarrow> ReleaseClosure" where
  "releaseClosure taskID held = \<lparr>rc_taskID = taskID, rc_held = held, rc_once = False, rc_firstErr = None\<rparr>"

definition call_release ::
  "'s sys \<Rightarrow> ReleaseClosure \<Rightarrow> Coord \<Rightarrow> 's \<Rightarrow> err option \<times> ReleaseClosure \<times> Coord \<times> 's" where
  "call_release js r c s =
     (if rc_once r then (rc_firstErr r, r, c, s)
      else case releaseTaskCAS js (rc_taskID r) c s of
             (e1, s1) \<Rightarrow>
               (case releaseHolds js c (rc_held r) None s1 of
                  (e2, s2) \<Rightarrow>
                    let first = (if e1 \<noteq> None then e1 else e2) in
                    (first, r\<lparr>rc_once := True, rc_firstErr := first\<rparr>, delete_epoch (rc_taskID r) c, s2)))"

section \<open>CloseTask\<close>

definition applyClose :: "Task \<Rightarrow> string \<Rightarrow> string \<Rightarrow> time_ns \<Rightarrow> Task" where
  "applyClose cur agent reason now =
     cur\<lparr>t_Status := StatusClosed, t_ClaimedBy := [], t_ClosedAt := Some now, t_ClosedBy := agent,
         t_ClosedReason := reason, t_UpdatedAt := now\<rparr>"

definition known_epoch :: "Coord \<Rightarrow> string \<Rightarrow> 64 word" where
  "known_epoch c taskID = (case c_epochs c taskID of None \<Rightarrow> 0 | Some v \<Rightarrow> v)"

definition closeMutator :: "Coord \<Rightarrow> string \<Rightarrow> string \<Rightarrow> mutator" where
  "closeMutator c taskID reason now cur =
     (if t_Status cur = StatusClosed then Inl (ECoord ErrTaskAlreadyClosed)
      else if t_ClaimedBy cur \<noteq> c_AgentID c then Inl (ECoord ErrAgentMismatch)
      else if t_ClaimEpoch cur \<noteq> known_epoch c taskID then Inl (ECoord ErrEpochStale)
      else Inr (applyClose cur (c_AgentID c) reason now))"

definition translateCloseErr :: "err \<Rightarrow> err" where
  "translateCloseErr e = (if e = ETasks ErrNotFound then ECoord ErrTaskNotFound else e)"

definition CloseTask :: "'s sys \<Rightarrow> string \<Rightarrow> string \<Rightarrow> Coord \<Rightarrow> 's \<Rightarrow> (err + unit) \<times> 's" where
  "CloseTask js taskID reason c s =
     (if c_closed c then (Inl (EPanic ''coord.CloseTask: coord is closed''), s)
      else if taskID = [] then (Inl (EPanic ''coord.CloseTask: taskID is empty''), s)
      else case Manager_Tx (c_tasks c) taskID
                  (Tx_Close js (c_tasks c) taskID (c_AgentID c) reason (Some (closeMutator c taskID reason))) s of
             (Inl e, s') \<Rightarrow> (Inl (translateCloseErr e), s')
           | (Inr _, s') \<Rightarrow> (Inr (), s'))"

section \<open>Reclaim and HandoffClaim\<close>

definition assertClaimerOffline :: "'s sys \<Rightarrow> string \<Rightarrow> Coord \<Rightarrow> 's \<Rightarrow> (err + unit) \<times> 's" where
  "assertClaimerOffline js agent c s =
     (case presence_Who js (c_presence c) s of
        (Inl e, s') \<Rightarrow> (Inl e, s')
      | (Inr entries, s') \<Rightarrow>
          if list_ex (\<lambda>e. pe_AgentID e = agent) entries then (Inl (ECoord ErrClaimerLive), s') else (Inr (), s'))"

definition prepareReclaim ::
  "'s sys \<Rightarrow> string \<Rightarrow> Coord \<Rightarrow> 's \<Rightarrow> (err + string \<times> 64 word \<times> string list) \<times> 's" where
  "prepareReclaim js taskID c s =
     (case tasks_Get js (c_tasks c) taskID s of
        (Inl e, s1) \<Rightarrow> (Inl (if e = ETasks ErrNotFound then ECoord ErrTaskNotFound else e), s1)
      | (Inr (rec, _), s1) \<Rightarrow>
          if t_Status rec \<noteq> StatusClaimed then (Inl (ECoord ErrTaskNotClaimed), s1)
          else if t_ClaimedBy rec = c_AgentID c then (Inl (ECoord ErrAlreadyClaimer), s1)
          else (case assertClaimerOffline js (t_ClaimedBy rec) c s1 of
                  (Inl e, s2) \<Rightarrow> (Inl e, s2)
                | (Inr _, s2) \<Rightarrow> (Inr (t_ClaimedBy rec, t_ClaimEpoch rec, t_Files rec), s2)))"

definition reclaimMutator :: "string \<Rightarrow> mutator" where
  "reclaimMutator agent now cur =
     (if t_Status cur \<noteq> StatusClaimed then Inl (ECoord ErrTaskNotClaimed)
      else if t_ClaimedBy cur = agent then Inl (ECoord ErrAlreadyClaimer)
      else Inr (cur\<lparr>t_ClaimedBy := agent, t_ClaimEpoch := t_ClaimEpoch cur + 1, t_UpdatedAt := now\<rparr>))"

definition handoffMutator :: "string \<Rightarrow> string \<Rightarrow> mutator" where
  "handoffMutator agent fromAgent now cur =
     (if t_Status cur \<noteq> StatusClaimed then Inl (ECoord ErrTaskNotClaimed)
      else if t_ClaimedBy cur = agent then Inl (ECoord ErrAlreadyClaimer)
      else if t_ClaimedBy cur \<noteq> fromAgent then Inl (ECoord ErrAgentMismatch)
      else Inr (cur\<lparr>t_ClaimedBy := agent, t_ClaimEpoch := t_ClaimEpoch cur + 1, t_UpdatedAt := now\<rparr>))"

text \<open>The translations keep the mutators' own errors and rename \<^verbatim>\<open>tasks.ErrNotFound\<close>.\<close>

definition translateReclaimCASErr :: "err \<Rightarrow> err" where
  "translateReclaimCASErr e = (if e = ETasks ErrNotFound then ECoord ErrTaskNotFound else e)"

definition translateHandoffCASErr :: "err \<Rightarrow> err" where
  "translateHandoffCASErr e = (if e = ETasks ErrNotFound then ECoord ErrTaskNotFound else e)"

fun releaseOldHolds :: "'s sys \<Rightarrow> Coord \<Rightarrow> string \<Rightarrow> string list \<Rightarrow> 's \<Rightarrow> err option \<times> 's" where
  "releaseOldHolds js c prev [] s = (None, s)"
| "releaseOldHolds js c prev (f # fs) s =
     (case pathFromTaskFile f of
        Inl e \<Rightarrow> (Some e, s)
      | Inr p \<Rightarrow>
          (case holds_Release js (c_holds c) p prev s of
             (Inl e, s') \<Rightarrow> if is_panic e then (Some e, s') else releaseOldHolds js c prev fs s'
           | (Inr _, s') \<Rightarrow> releaseOldHolds js c prev fs s'))"

text \<open>What \<^verbatim>\<open>Reclaim\<close> and \<^verbatim>\<open>HandoffClaim\<close> do once the record is theirs.\<close>

definition takeOverHolds ::
  "'s sys \<Rightarrow> string \<Rightarrow> string \<Rightarrow> string list \<Rightarrow> duration \<Rightarrow> Coord \<Rightarrow> 's \<Rightarrow> (err + string list) \<times> Coord \<times> 's" where
  "takeOverHolds js taskID prev files ttl c s =
     (case releaseOldHolds js c prev files s of
        (Some e, s1) \<Rightarrow> (Inl e, c, s1)
      | (None, s1) \<Rightarrow>
          (case claimAll js c taskID files ttl [] s1 of
             ((held, Some herr), s2) \<Rightarrow>
               (case hold_failure js taskID held herr c s2 of (e, c3, s3) \<Rightarrow> (Inl e, c3, s3))
           | ((held, None), s2) \<Rightarrow> (Inr held, c, s2)))"

definition Reclaim :: "'s sys \<Rightarrow> string \<Rightarrow> duration \<Rightarrow> Coord \<Rightarrow> 's \<Rightarrow> (err + string list) \<times> Coord \<times> 's" where
  "Reclaim js taskID ttl c s =
     (if c_closed c then (Inl (EPanic ''coord.Reclaim: coord is closed''), c, s)
      else if taskID = [] then (Inl (EPanic ''coord.Reclaim: taskID is empty''), c, s)
      else if \<not> ttl > 0 then (Inl (EPanic ''coord.Reclaim: ttl must be > 0''), c, s)
      else if \<not> ttl \<le> tc_HoldTTLMax (c_Tuning c) then (Inl (EPanic ''coord.Reclaim: ttl exceeds HoldTTLMax''), c, s)
      else case prepareReclaim js taskID c s of
             (Inl e, s1) \<Rightarrow> (Inl e, c, s1)
           | (Inr (prev, prevEpoch, files), s1) \<Rightarrow>
               (case Manager_Tx (c_tasks c) taskID
                       (Tx_Claim js (c_tasks c) taskID
                          \<lparr>ca_AgentID = c_AgentID c, ca_Slot = [], ca_ClaimEpoch = prevEpoch + 1,
                           ca_PrevAgent = prev, ca_Mutate = Some (reclaimMutator (c_AgentID c))\<rparr>) s1 of
                  (Inl e, s2) \<Rightarrow> (Inl (translateReclaimCASErr e), c, s2)
                | (Inr t, s2) \<Rightarrow>
                    takeOverHolds js taskID prev files ttl (store_epoch taskID (t_ClaimEpoch t) c) s2))"

definition prepareHandoff ::
  "'s sys \<Rightarrow> string \<Rightarrow> string \<Rightarrow> Coord \<Rightarrow> 's \<Rightarrow> (err + 64 word \<times> string list) \<times> 's" where
  "prepareHandoff js taskID fromAgent c s =
     (case tasks_Get js (c_tasks c) taskID s of
        (Inl e, s1) \<Rightarrow> (Inl (if e = ETasks ErrNotFound then ECoord ErrTaskNotFound else e), s1)
      | (Inr (rec, _), s1) \<Rightarrow>
          if t_Status rec \<noteq> StatusClaimed then (Inl (ECoord ErrTaskNotClaimed), s1)
          else if t_ClaimedBy rec = c_AgentID c then (Inl (ECoord ErrAlreadyClaimer), s1)
          else if t_ClaimedBy rec \<noteq> fromAgent then (Inl (ECoord ErrAgentMismatch), s1)
          else (Inr (t_ClaimEpoch rec, t_Files rec), s1))"

definition HandoffClaim ::
  "'s sys \<Rightarrow> string \<Rightarrow> string \<Rightarrow> duration \<Rightarrow> Coord \<Rightarrow> 's \<Rightarrow> (err + string list) \<times> Coord \<times> 's" where
  "HandoffClaim js taskID fromAgent ttl c s =
     (if c_closed c then (Inl (EPanic ''coord.HandoffClaim: coord is closed''), c, s)
      else if taskID = [] then (Inl (EPanic ''coord.HandoffClaim: taskID is empty''), c, s)
      else if fromAgent = [] then (Inl (EPanic ''coord.HandoffClaim: fromAgent is empty''), c, s)
      else if \<not> ttl > 0 then (Inl (EPanic ''coord.HandoffClaim: ttl must be > 0''), c, s)
      else if \<not> ttl \<le> tc_HoldTTLMax (c_Tuning c) then (Inl (EPanic ''coord.HandoffClaim: ttl exceeds HoldTTLMax''), c, s)
      else case prepareHandoff js taskID fromAgent c s of
             (Inl e, s1) \<Rightarrow> (Inl e, c, s1)
           | (Inr (prevEpoch, files), s1) \<Rightarrow>
               (case Manager_Tx (c_tasks c) taskID
                       (Tx_Claim js (c_tasks c) taskID
                          \<lparr>ca_AgentID = c_AgentID c, ca_Slot = [], ca_ClaimEpoch = prevEpoch + 1,
                           ca_PrevAgent = fromAgent, ca_Mutate = Some (handoffMutator (c_AgentID c) fromAgent)\<rparr>) s1 of
                  (Inl e, s2) \<Rightarrow> (Inl (translateHandoffCASErr e), c, s2)
                | (Inr t, s2) \<Rightarrow>
                    takeOverHolds js taskID fromAgent files ttl (store_epoch taskID (t_ClaimEpoch t) c) s2))"

section \<open>Link\<close>

definition validEdgeType :: "string \<Rightarrow> bool" where
  "validEdgeType t = (t = EdgeBlocks \<or> t = EdgeDiscoveredFrom \<or> t = EdgeSupersedes \<or> t = EdgeDuplicates)"

definition coord_Link :: "'s sys \<Rightarrow> string \<Rightarrow> string \<Rightarrow> string \<Rightarrow> Coord \<Rightarrow> 's \<Rightarrow> (err + unit) \<times> 's" where
  "coord_Link js from to edgeType c s =
     (if c_closed c then (Inl (EPanic ''coord.Link: coord is closed''), s)
      else if \<not> validEdgeType edgeType then (Inl (ECoord ErrInvalidEdgeType), s)
      else case tasks_Get js (c_tasks c) to s of
             (Inl e, s1) \<Rightarrow> (Inl (if e = ETasks ErrNotFound then ECoord ErrTaskNotFound else e), s1)
           | (Inr _, s1) \<Rightarrow>
               (case tasks_Get js (c_tasks c) from s1 of
                  (Inl e, s2) \<Rightarrow> (Inl (if e = ETasks ErrNotFound then ECoord ErrTaskNotFound else e), s2)
                | (Inr (cur, _), s2) \<Rightarrow>
                    if list_ex (\<lambda>e. edge_Type e = edgeType \<and> edge_Target e = to) (t_Edges cur) then (Inr (), s2)
                    else (case Manager_Tx (c_tasks c) from (Tx_Link js (c_tasks c) from to edgeType) s2 of
                            (Inl e, s3) \<Rightarrow> (Inl (if e = ETasks ErrNotFound then ECoord ErrTaskNotFound else e), s3)
                          | (Inr _, s3) \<Rightarrow> (Inr (), s3))))"

section \<open>The gates of a commit\<close>

fun checkHolds_loop :: "'s sys \<Rightarrow> Coord \<Rightarrow> Path list \<Rightarrow> string list \<Rightarrow> 's \<Rightarrow> (err + string list) \<times> 's" where
  "checkHolds_loop js c [] notHeld s = (Inr notHeld, s)"
| "checkHolds_loop js c (p # ps) notHeld s =
     (case WhoHas js (c_holds c) p s of
        (Inl e, s') \<Rightarrow> (Inl e, s')
      | (Inr ho, s') \<Rightarrow>
          checkHolds_loop js c ps
            (if (case ho of None \<Rightarrow> True | Some h \<Rightarrow> h_AgentID h \<noteq> c_AgentID c) then notHeld @ [path_abs p] else notHeld) s')"

definition checkHolds :: "'s sys \<Rightarrow> Coord \<Rightarrow> Path list \<Rightarrow> 's \<Rightarrow> (err + unit) \<times> 's" where
  "checkHolds js c files s =
     (case checkHolds_loop js c files [] s of
        (Inl e, s') \<Rightarrow> (Inl e, s')
      | (Inr notHeld, s') \<Rightarrow> if notHeld \<noteq> [] then (Inl (ECoord ErrNotHeld), s') else (Inr (), s'))"

definition checkEpoch :: "'s sys \<Rightarrow> Coord \<Rightarrow> string \<Rightarrow> 's \<Rightarrow> (err + unit) \<times> 's" where
  "checkEpoch js c taskID s =
     (case tasks_Get js (c_tasks c) taskID s of
        (Inl e, s') \<Rightarrow> (Inl (if e = ETasks ErrNotFound then ECoord ErrTaskNotFound else e), s')
      | (Inr (rec, _), s') \<Rightarrow>
          if t_ClaimEpoch rec \<noteq> known_epoch c taskID then (Inl (ECoord ErrEpochStale), s') else (Inr (), s'))"

section \<open>OpenTask\<close>

definition taskIDProject :: string where "taskIDProject = ''bones''"
definition taskIDSuffixLen :: nat where "taskIDSuffixLen = 8"
definition taskIDAlphabet :: string where "taskIDAlphabet = ''abcdefghijklmnopqrstuvwxyz0123456789''"

text \<open>\<open>rnd\<close> is what \<^verbatim>\<open>crypto/rand\<close> delivered: \<open>taskIDSuffixLen\<close> bytes.\<close>

definition generateTaskID :: "8 word list \<Rightarrow> string" where
  "generateTaskID rnd =
     taskIDProject @ ''-'' @ map (\<lambda>b. taskIDAlphabet ! unat (b mod word_of_nat (length taskIDAlphabet))) rnd"

text \<open>\<^verbatim>\<open>^bones-[a-z0-9]{8}$\<close>\<close>

definition taskIDPattern :: "string \<Rightarrow> bool" where
  "taskIDPattern i =
     (length i = 14 \<and> has_prefix i ''bones-'' \<and>
      list_all (\<lambda>c. 97 \<le> (of_char c :: nat) \<and> (of_char c :: nat) \<le> 122 \<or> is_digit c) (drop 6 i))"

text \<open>
  The loop of \<^verbatim>\<open>sortDedupFiles\<close> appends to \<^verbatim>\<open>sorted[:0]\<close>, so it writes into the array it reads: \<open>arr\<close> is
  the array, \<open>k\<close> the length of \<^verbatim>\<open>out\<close>, \<open>i\<close> the position of the range loop.
\<close>

function dedup_loop :: "string list \<Rightarrow> nat \<Rightarrow> nat \<Rightarrow> string list" where
  "dedup_loop arr k i =
     (if i < length arr then
        (if i = 0 \<or> arr ! i \<noteq> arr ! (i - 1)
         then dedup_loop (arr[k := arr ! i]) (Suc k) (Suc i)
         else dedup_loop arr k (Suc i))
      else take k arr)"
  by pat_completeness auto

termination
  by (relation "measure (\<lambda>(arr, k, i). length arr - i)") auto

declare dedup_loop.simps [simp del]

definition sortDedupFiles :: "string list \<Rightarrow> string list" where
  "sortDedupFiles inp = dedup_loop (sort inp) 0 0"

definition open_record :: "string \<Rightarrow> string \<Rightarrow> string list \<Rightarrow> time_ns \<Rightarrow> Task" where
  "open_record i title files now =
     zero_Task\<lparr>t_ID := i, t_Title := title, t_Status := StatusOpen, t_Files := files,
       t_CreatedAt := now, t_UpdatedAt := now, t_SchemaVersion := SchemaVersion\<rparr>"

definition translateCreateErr :: "err \<Rightarrow> err" where
  "translateCreateErr e =
     (if e = ETasks ErrAlreadyExists then EPanic ''coord.OpenTask: generated TaskID collided'' else e)"

definition OpenTask ::
  "'s sys \<Rightarrow> 8 word list \<Rightarrow> string \<Rightarrow> string list \<Rightarrow> Coord \<Rightarrow> 's \<Rightarrow> (err + string) \<times> 's" where
  "OpenTask js rnd title files c s =
     (if c_closed c then (Inl (EPanic ''coord.OpenTask: coord is closed''), s)
      else if title = [] then (Inl (EPanic ''coord.OpenTask: title is empty''), s)
      else if files = [] then (Inl (EPanic ''coord.OpenTask: files is empty''), s)
      else if \<not> int (length files) \<le> tc_MaxTaskFiles (c_Tuning c)
      then (Inl (EPanic ''coord.OpenTask: len(files) exceeds MaxTaskFiles''), s)
      else if \<not> list_all IsAbs files then (Inl (EPanic ''coord.OpenTask: file not absolute''), s)
      else let prepped = sortDedupFiles files in
           if \<not> sorted prepped then (Inl (EPanic ''coord.OpenTask: post-sort invariant violated''), s)
           else let i = generateTaskID rnd in
                if \<not> taskIDPattern i then (Inl (EPanic ''coord.OpenTask: generated TaskID violates ADR 0005 shape''), s)
                else (case Manager_Tx (c_tasks c) i
                             (Tx_Create js (c_tasks c) i (open_record i title prepped (js_Now js s))) s of
                        (Inl e, s') \<Rightarrow> (Inl (translateCreateErr e), s')
                      | (Inr _, s') \<Rightarrow> (Inr i, s')))"

section \<open>Identifiers, files and configuration\<close>

lemma alphabet_ok: "c \<in> set taskIDAlphabet \<Longrightarrow> 97 \<le> (of_char c :: nat) \<and> (of_char c :: nat) \<le> 122 \<or> is_digit c"
  by (auto simp: taskIDAlphabet_def is_digit_def)

lemma taskIDPattern_generated:
  assumes "length rnd = taskIDSuffixLen"
  shows "taskIDPattern (generateTaskID rnd)"
proof -
  have "unat (b mod word_of_nat (length taskIDAlphabet)) < length taskIDAlphabet" for b :: "8 word"
    by (simp add: taskIDAlphabet_def unat_mod)
  then have "\<forall>c \<in> set (map (\<lambda>b. taskIDAlphabet ! unat (b mod word_of_nat (length taskIDAlphabet))) rnd). c \<in> set taskIDAlphabet"
    by (auto intro: nth_mem)
  then show ?thesis
    using assms alphabet_ok
    unfolding taskIDPattern_def generateTaskID_def taskIDProject_def taskIDSuffixLen_def
    by (simp add: has_prefix_def list_all_iff)
qed

text \<open>
  The aliased loop: below \<open>k\<close> the array holds the result so far, from \<open>i\<close> on it is untouched, and the cell
  before \<open>i\<close> still holds what was sorted there.
\<close>

lemma remdups_adj_snoc:
  "remdups_adj (xs @ [x]) = (if xs \<noteq> [] \<and> last xs = x then remdups_adj xs else remdups_adj xs @ [x])"
proof (cases xs rule: rev_cases)
  case (snoc ys y)
  then show ?thesis using remdups_adj_append_two [of ys y x] by (auto simp: remdups_adj_append_two)
qed simp

lemma dedup_loop_inv:
  assumes "length arr = length srt" and "i \<le> length srt"
    and "take k arr = remdups_adj (take i srt)" and "k = length (remdups_adj (take i srt))"
    and "drop i arr = drop i srt" and "0 < i \<Longrightarrow> arr ! (i - 1) = srt ! (i - 1)"
  shows "dedup_loop arr k i = remdups_adj srt"
  using assms
proof (induction arr k i rule: dedup_loop.induct)
  case (1 arr k i)
  show ?case
  proof (cases "i < length arr")
    case False
    with 1(3-) have "i = length srt" by simp
    moreover have "dedup_loop arr k i = take k arr" using False by (subst dedup_loop.simps) simp
    ultimately show ?thesis using 1(5) by simp
  next
    case True
    then have i: "i < length srt" using 1(3) by simp
    have ai: "arr ! i = srt ! i" using 1(7) i True by (metis hd_drop_conv_nth)
    have ki: "k \<le> i" using 1(6) remdups_adj_length [of "take i srt"] by simp
    have t: "take (Suc i) srt = take i srt @ [srt ! i]" using i by (rule take_Suc_conv_app_nth)
    have lst: "i = 0 \<or> last (take i srt) = arr ! (i - 1)"
      using 1(8) i by (cases i) (simp_all add: take_Suc_conv_app_nth)
    have d: "drop (Suc i) arr = drop (Suc i) srt" using 1(7) by (metis drop_drop Suc_eq_plus1_left)
    show ?thesis
    proof (cases "i = 0 \<or> arr ! i \<noteq> arr ! (i - 1)")
      case new: True
      have r: "remdups_adj (take (Suc i) srt) = remdups_adj (take i srt) @ [srt ! i]"
        unfolding t remdups_adj_snoc using new lst ai by auto
      have "dedup_loop (arr[k := arr ! i]) (Suc k) (Suc i) = remdups_adj srt"
      proof (rule 1(1) [OF True new])
        show "take (Suc k) (arr[k := arr ! i]) = remdups_adj (take (Suc i) srt)"
          using r 1(5,6) ki True ai by (simp add: take_Suc_conv_app_nth)
        show "drop (Suc i) (arr[k := arr ! i]) = drop (Suc i) srt" using d ki by simp
        show "arr[k := arr ! i] ! (Suc i - 1) = srt ! (Suc i - 1)"
          using ai ki True by (cases "k = i") simp_all
      qed (use r 1(3,6) i in simp_all)
      with True new show ?thesis by (simp add: dedup_loop.simps [of arr k i])
    next
      case old: False
      have r: "remdups_adj (take (Suc i) srt) = remdups_adj (take i srt)"
        unfolding t remdups_adj_snoc using old lst ai i by (auto simp: take_eq_Nil)
      have "dedup_loop arr k (Suc i) = remdups_adj srt"
        by (rule 1(2) [OF True old]) (use r 1(3-6) i d ai in simp_all)
      with True old show ?thesis by (simp add: dedup_loop.simps [of arr k i])
    qed
  qed
qed

lemma sortDedupFiles_eq: "sortDedupFiles inp = remdups_adj (sort inp)"
  unfolding sortDedupFiles_def by (rule dedup_loop_inv) simp_all

lemma sorted_remdups_adj_distinct: "sorted xs \<Longrightarrow> distinct (remdups_adj xs)"
proof (induction xs rule: remdups_adj.induct)
  case (3 x y xs)
  then show ?case by (cases "x = y") (force simp: less_le_not_le)+
qed simp_all

lemma sortDedupFiles_props:
  "sorted (sortDedupFiles inp)" "distinct (sortDedupFiles inp)" "set (sortDedupFiles inp) = set inp"
  by (simp_all add: sortDedupFiles_eq sorted_remdups_adj sorted_remdups_adj_distinct)

section \<open>Mutators\<close>

lemma wf_coord_mutators [simp]:
  "wf_mutator (claimMutator a)" "wf_mutator (undo_mutator a)" "wf_mutator (release_mutator a)"
  "wf_mutator (closeMutator c i r)" "wf_mutator (reclaimMutator a)" "wf_mutator (handoffMutator a b)"
  by (auto simp: wf_mutator_def wf_Task_def claimMutator_def undo_mutator_def release_mutator_def
      closeMutator_def applyClose_def reclaimMutator_def handoffMutator_def)

section \<open>Properties\<close>

text \<open>The loop that removes duplicates from a task's files writes into the array it reads, and still
  computes the sorted list of the distinct files.\<close>

theorem sortDedupFiles_correct: "sortDedupFiles inp = sorted_list_of_set (set inp)"
proof -
  have "sorted_list_of_set (set (sortDedupFiles inp)) = sortDedupFiles inp"
    by (rule sorted_list_of_set.idem_if_sorted_distinct) (rule sortDedupFiles_props)+
  then show ?thesis by (simp add: sortDedupFiles_props)
qed

text \<open>Eight bytes from the random source always make a task ID of the documented shape, and the letters
  \<^verbatim>\<open>a\<close> to \<^verbatim>\<open>d\<close> come from one byte value more than the other characters do.\<close>

theorem generateTaskID_shape:
  "(length rnd = taskIDSuffixLen \<longrightarrow> taskIDPattern (generateTaskID rnd)) \<and>
   length (filter (\<lambda>b. b mod 36 = (0 :: nat)) [0..<256]) = 8 \<and>
   length (filter (\<lambda>b. b mod 36 = (4 :: nat)) [0..<256]) = 7 \<and> length taskIDAlphabet = 36"
proof -
  have "length (filter (\<lambda>b. b mod 36 = (0 :: nat)) [0..<256]) = 8 \<and>
    length (filter (\<lambda>b. b mod 36 = (4 :: nat)) [0..<256]) = 7" by code_simp
  then show ?thesis using taskIDPattern_generated by (simp add: taskIDAlphabet_def)
qed

theorem generateTaskID_shape_witness: "taskIDPattern (generateTaskID [0, 1, 2, 3, 4, 5, 6, 255])"
  using generateTaskID_shape [of "[0, 1, 2, 3, 4, 5, 6, 255]"] by (simp add: taskIDSuffixLen_def)

text \<open>The defaults are usable: a configuration with an agent, a server and a checkout whose tuning fields
  are not negative passes validation after the defaults are filled in exactly when the default time to live
  of a hold is at most the maximal one.\<close>

theorem defaultTuning_valid:
  assumes "cc_AgentID c \<noteq> []" and "cc_NATSURL c \<noteq> []" and "cc_CheckoutRoot c \<noteq> []"
    and "0 \<le> tc_HoldTTLDefault t" and "0 \<le> tc_HoldTTLMax t" and "0 \<le> tc_MaxHoldsPerClaim t"
    and "0 \<le> tc_MaxSubscribers t" and "0 \<le> tc_MaxTaskFiles t" and "0 \<le> tc_MaxReadyReturn t"
    and "0 \<le> tc_MaxTaskValueSize t" and "0 \<le> tc_HeartbeatInterval t" and "0 \<le> tc_NATSReconnectWait t"
    and "0 \<le> tc_NATSMaxReconnects t"
  shows "Validate (c\<lparr>cc_Tuning := defaultTuning t\<rparr>) = Inr () \<longleftrightarrow>
    tc_HoldTTLDefault (defaultTuning t) \<le> tc_HoldTTLMax (defaultTuning t)"
proof -
  let ?d = "defaultTuning t"
  have "\<not> tc_HoldTTLDefault ?d \<le> 0" "\<not> tc_HoldTTLMax ?d \<le> 0" "\<not> tc_MaxHoldsPerClaim ?d \<le> 0"
    "\<not> tc_MaxSubscribers ?d \<le> 0" "\<not> tc_MaxTaskFiles ?d \<le> 0" "\<not> tc_MaxReadyReturn ?d \<le> 0"
    "\<not> tc_MaxTaskValueSize ?d \<le> 0" "tc_TaskHistoryDepth ?d \<noteq> 0" "\<not> tc_HeartbeatInterval ?d \<le> 0"
    "\<not> tc_NATSReconnectWait ?d \<le> 0" "\<not> tc_NATSMaxReconnects ?d \<le> 0"
    using assms(4-) by (simp_all add: defaultTuning_def or_default_def second_def)
  then show ?thesis
    using assms(1-3) by (simp add: Validate_def Let_def not_le del: not_less)
qed

definition zero_Tuning :: TuningConfig where
  "zero_Tuning = \<lparr>tc_HoldTTLDefault = 0, tc_HoldTTLMax = 0, tc_MaxHoldsPerClaim = 0, tc_MaxSubscribers = 0,
     tc_ChatRetentionMaxAge = 0, tc_MaxTaskFiles = 0, tc_MaxReadyReturn = 0, tc_MaxTaskValueSize = 0,
     tc_TaskHistoryDepth = 0, tc_HeartbeatInterval = 0, tc_NATSReconnectWait = 0, tc_NATSMaxReconnects = 0\<rparr>"

definition sample_Config :: CoordConfig where
  "sample_Config = \<lparr>cc_AgentID = ''bones-a1'', cc_NATSURL = ''nats://h'', cc_CheckoutRoot = ''/w'',
     cc_ProjectPrefix = [], cc_Tuning = zero_Tuning\<rparr>"

theorem defaultTuning_valid_witness:
  "Validate (sample_Config\<lparr>cc_Tuning := defaultTuning zero_Tuning\<rparr>) = Inr ()"
proof -
  have "tc_HoldTTLDefault (defaultTuning zero_Tuning) \<le> tc_HoldTTLMax (defaultTuning zero_Tuning)"
    by (simp add: defaultTuning_def or_default_def second_def zero_Tuning_def)
  then show ?thesis
    using defaultTuning_valid [of sample_Config zero_Tuning] by (simp add: sample_Config_def zero_Tuning_def)
qed

end
