(* ===== verification/Coord_Safety.thy ===== *)
theory Coord_Safety
  imports Coord
begin

text \<open>
  Safety of the coordination operations on any substrate that obeys the laws of \<^verbatim>\<open>JetStream\<close>, whatever
  other processes do in between: a claim is taken only from an open, unclaimed record and raises the
  epoch; a task is closed only by its claimant with the current epoch; every operation keeps the
  task bucket valid.
\<close>

section \<open>Steps that touch one bucket\<close>

text \<open>\<open>touches b s s'\<close>: from \<open>s\<close> to \<open>s'\<close> by steps of other processes, publications and writes into bucket \<open>b\<close>.\<close>

inductive touches :: "'s obs \<Rightarrow> ('s \<Rightarrow> 's \<Rightarrow> bool) \<Rightarrow> string \<Rightarrow> 's \<Rightarrow> 's \<Rightarrow> bool"
  for ob :: "'s obs" and rely :: "'s \<Rightarrow> 's \<Rightarrow> bool" and b :: string where
  touch_stay: "touches ob rely b s s"
| touch_other: "touches ob rely b s s1 \<Longrightarrow> rely s1 s2 \<Longrightarrow> touches ob rely b s s2"
| touch_write: "touches ob rely b s s1 \<Longrightarrow> wrote ob s1 s2 b k e \<Longrightarrow> touches ob rely b s s2"

lemma touches_trans:
  assumes "touches ob rely b s1 s2" and "touches ob rely b s s1"
  shows "touches ob rely b s s2"
  using assms by (induction) (auto intro: touches.intros)

lemma touches_rely: "rely s s1 \<Longrightarrow> touches ob rely b s s1"
  by (rule touch_other [OF touch_stay])

lemma touches_rely_wrote: "rely s s1 \<Longrightarrow> wrote ob s1 s2 b k e \<Longrightarrow> touches ob rely b s s2"
  by (rule touch_write [OF touches_rely])

context jetstream
begin

lemma create_touches: "js_Create js s b k j = (r, s') \<Longrightarrow> touches ob rely b s s'"
  using create_ok [of s b k j _ s'] create_err [of s b k j _ s']
  by (cases r) (blast intro: touches_rely touches_rely_wrote)+

lemma update_touches: "js_Update js s b k j rv = (r, s') \<Longrightarrow> touches ob rely b s s'"
  using update_ok [of s b k j rv _ s'] update_err [of s b k j rv _ s']
  by (cases r) (blast intro: touches_rely touches_rely_wrote)+

lemma delete_touches: "js_Delete js s b k lr = (r, s') \<Longrightarrow> touches ob rely b s s'"
  using delete_ok [of s b k lr _ s'] delete_err [of s b k lr _ s']
  by (cases r) (blast intro: touches_rely touches_rely_wrote)+

lemma get_rely: "js_Get js s b k = (r, s') \<Longrightarrow> rely s s'"
  using get_ok get_err by (cases r) blast+

lemma casVacant_touches: "casVacant js m key h s = (r, s') \<Longrightarrow> touches ob rely (hm_Bucket m) s s'"
  by (auto simp: casVacant_def split: sum.splits prod.splits if_splits dest: create_touches)

lemma casRevision_touches: "casRevision js m key h rv s = (r, s') \<Longrightarrow> touches ob rely (hm_Bucket m) s s'"
  by (auto simp: casRevision_def split: sum.splits prod.splits if_splits dest: update_touches)

lemma announceAttempt_touches:
  assumes "announceAttempt js m key h s = (r, s')"
  shows "touches ob rely (hm_Bucket m) s s'"
proof -
  obtain y s1 where g: "js_Get js s (hm_Bucket m) key = (y, s1)" by fastforce
  have t: "touches ob rely (hm_Bucket m) s s1" using get_rely [OF g] by (rule touches_rely)
  have "touches ob rely (hm_Bucket m) s1 s'"
    using assms g touch_stay [of ob rely "hm_Bucket m" s1] casVacant_touches [of m key h s1 r s']
      casRevision_touches [of m key h _ s1 r s']
    by (auto simp: announceAttempt_def decideAnnounce_def Let_def split: sum.splits if_splits option.splits)
  then show ?thesis using t by (rule touches_trans)
qed

lemma Announce_touches:
  assumes "Announce js m file h s = (r, s')"
  shows "touches ob rely (hm_Bucket m) s s'"
proof -
  let ?P = "touches ob rely (hm_Bucket m) s"
  have step: "?P s2" if "?P s1" "announceAttempt js m (keyOf file) h s1 = (y, s2)" for s1 s2 y
    using announceAttempt_touches [OF that(2)] that(1) by (rule touches_trans)
  consider "s' = s" | v where "retry MaxRetries (announceAttempt js m (keyOf file) h) s = (v, s')"
    using assms by (auto simp: Announce_def split: if_splits option.splits prod.splits)
  then show ?thesis
  proof cases
    case 1 then show ?thesis by (simp add: touch_stay)
  next
    case 2
    show ?thesis
    proof (cases v)
      case None
      with 2 show ?thesis using retry_exhausted [where P = ?P, OF _ touch_stay] step by blast
    next
      case (Some x)
      with 2 obtain s0 where "?P s0" "announceAttempt js m (keyOf file) h s0 = (Verdict x, s')"
        using retry_verdict [where P = ?P, OF _ touch_stay] step by metis
      then show ?thesis by (rule step)
    qed
  qed
qed

lemma readHold_rely: "readHold js m key s = (r, s') \<Longrightarrow> rely s s'"
  by (auto simp: readHold_def split: sum.splits prod.splits if_splits option.splits dest: get_rely)

lemma holds_Release_touches:
  assumes "holds_Release js m file agent s = (r, s')"
  shows "touches ob rely (hm_Bucket m) s s'"
proof -
  obtain y s1 where g: "readHold js m (keyOf file) s = (y, s1)" by fastforce
  have t: "touches ob rely (hm_Bucket m) s s1" using readHold_rely [OF g] by (rule touches_rely)
  consider "s' = s" | "s' = s1" | z where "js_Delete js s1 (hm_Bucket m) (keyOf file) None = (z, s')"
    using assms g by (auto simp: holds_Release_def split: if_splits sum.splits option.splits prod.splits)
  then show ?thesis
  proof cases
    case 1 then show ?thesis by (simp add: touch_stay)
  next
    case 2 then show ?thesis using t by simp
  next
    case 3
    then show ?thesis using touches_trans [OF delete_touches t] by blast
  qed
qed

lemma claimAll_touches: "claimAll js c i fs ttl held s = (r, s') \<Longrightarrow> touches ob rely (hm_Bucket (c_holds c)) s s'"
proof (induction fs arbitrary: held s)
  case (Cons f fs)
  show ?case
  proof (cases "pathFromTaskFile f")
    case (Inr p)
    obtain y s1 where a: "Announce js (c_holds c) p (claim_hold c i ttl) s = (y, s1)" by fastforce
    have t: "touches ob rely (hm_Bucket (c_holds c)) s s1" using a by (rule Announce_touches)
    show ?thesis
      using Cons.prems Inr a t by (auto split: sum.splits intro: touches_trans [OF Cons.IH t])
  qed (use Cons.prems in \<open>auto intro: touch_stay\<close>)
qed (simp add: touch_stay)

lemma rollback_touches: "touches ob rely (hm_Bucket (c_holds c)) s (rollback js c fs s)"
proof (induction fs arbitrary: s)
  case (Cons f fs)
  show ?case
  proof (cases "pathFromTaskFile f")
    case (Inr p)
    obtain y s1 where r: "holds_Release js (c_holds c) p (c_AgentID c) s = (y, s1)" by fastforce
    from touches_trans [OF Cons.IH holds_Release_touches [OF r]] Inr r show ?thesis by simp
  qed (simp add: touch_stay)
qed (simp add: touch_stay)

lemma releaseHolds_touches:
  "releaseHolds js c fs first s = (r, s') \<Longrightarrow> touches ob rely (hm_Bucket (c_holds c)) s s'"
proof (induction fs arbitrary: first s)
  case (Cons f fs)
  show ?case
  proof (cases "pathFromTaskFile f")
    case (Inr p)
    obtain y s1 where r: "holds_Release js (c_holds c) p (c_AgentID c) s = (y, s1)" by fastforce
    have t: "touches ob rely (hm_Bucket (c_holds c)) s s1" using r by (rule holds_Release_touches)
    show ?thesis
      using Cons.prems Inr r by (auto split: sum.splits if_splits intro: touches_trans [OF Cons.IH t])
  qed (use Cons.prems in \<open>auto intro: touch_stay\<close>)
qed (simp add: touch_stay)

lemma releaseOldHolds_touches:
  "releaseOldHolds js c prev fs s = (r, s') \<Longrightarrow> touches ob rely (hm_Bucket (c_holds c)) s s'"
proof (induction fs arbitrary: s)
  case (Cons f fs)
  show ?case
  proof (cases "pathFromTaskFile f")
    case (Inr p)
    obtain y s1 where r: "holds_Release js (c_holds c) p prev s = (y, s1)" by fastforce
    have t: "touches ob rely (hm_Bucket (c_holds c)) s s1" using r by (rule holds_Release_touches)
    show ?thesis
      using Cons.prems Inr r t by (auto split: sum.splits if_splits intro: touches_trans [OF Cons.IH t])
  qed (use Cons.prems in \<open>auto intro: touch_stay\<close>)
qed (simp add: touch_stay)

section \<open>Claims and closes are atomic\<close>

lemma Tx_Claim_atomic:
  assumes "Manager_Tx m i (Tx_Claim js m i args) s = (Inr t, s')" and "ca_Mutate args = Some f"
  obtains q sp s1 cur now r v where
    "logged_event ob rely s q EventTypeClaimed i
       (PClaimed \<lparr>clp_AgentID = ca_AgentID args, clp_Slot = ca_Slot args,
          clp_ClaimEpoch = ca_ClaimEpoch args, clp_PrevAgent = ca_PrevAgent args\<rparr>) sp"
    and "record_at (o_view ob s1) (m_bucket m) i = Some cur" and "f now cur = Inr v"
    and "t = v\<lparr>t_UpdatedAt := now, t_LastEventSeq := q\<rparr>" and "valid_Task t" and "lifecycle cur t"
    and "wrote ob s1 s' (m_bucket m) i (put_entry (encode t) r)"
proof -
  from Manager_Tx_ok [OF assms(1)] obtain tx tx' where "Tx_Claim js m i args tx s = (Inr t, tx', s')" by blast
  with assms(2) have "tx_apply js m i EventTypeClaimed
       (PClaimed \<lparr>clp_AgentID = ca_AgentID args, clp_Slot = ca_Slot args,
          clp_ClaimEpoch = ca_ClaimEpoch args, clp_PrevAgent = ca_PrevAgent args\<rparr>)
       (stamped f) (markDirty tx) s = (Inr t, tx', s')"
    by (auto simp: Tx_Claim_def Let_def split: if_splits)
  then show ?thesis
    by (rule tx_apply_ok) (use that in \<open>auto simp: stamped_ok\<close>)
qed

lemma acquireTaskCAS_atomic:
  assumes "acquireTaskCAS js i c s = (Inr files, c', s')"
  obtains s1 cur t r where "record_at (o_view ob s1) (m_bucket (c_tasks c)) i = Some cur"
    and "t_Status cur = StatusOpen" and "t_ClaimedBy cur = []"
    and "wrote ob s1 s' (m_bucket (c_tasks c)) i (put_entry (encode t) r)"
    and "t_Status t = StatusClaimed" and "t_ClaimedBy t = c_AgentID c"
    and "t_ClaimEpoch t = t_ClaimEpoch cur + 1" and "wf_Task t" and "valid_Task t"
    and "t_Files t = t_Files cur" and "c' = store_epoch i (t_ClaimEpoch t) c"
proof -
  from assms obtain rc t sg args where
    tx: "Manager_Tx (c_tasks c) i (Tx_Claim js (c_tasks c) i args) sg = (Inr t, s')"
    and args: "ca_Mutate args = Some (claimMutator (c_AgentID c))"
    and c': "c' = store_epoch i (t_ClaimEpoch t) c"
    by (auto simp: acquireTaskCAS_def split: sum.splits prod.splits if_splits)
  from tx args obtain q s1 cur now r v where
    rec: "record_at (o_view ob s1) (m_bucket (c_tasks c)) i = Some cur" and
    v: "claimMutator (c_AgentID c) now cur = Inr v" and
    t: "t = v\<lparr>t_UpdatedAt := now, t_LastEventSeq := q\<rparr>" and val: "valid_Task t" and
    w: "wrote ob s1 s' (m_bucket (c_tasks c)) i (put_entry (encode t) r)"
    by (rule Tx_Claim_atomic)
  from v have cur: "t_Status cur = StatusOpen" "t_ClaimedBy cur = []" and
    v': "v = cur\<lparr>t_Status := StatusClaimed, t_ClaimedBy := c_AgentID c, t_ClaimEpoch := t_ClaimEpoch cur + 1,
              t_UpdatedAt := now\<rparr>"
    by (auto simp: claimMutator_def split: if_splits)
  have "wf_Task t" using record_at_wf [OF rec] t v' by (simp add: wf_Task_def)
  then show ?thesis using that rec cur w val c' t v' by simp
qed

lemma CloseTask_atomic:
  assumes "CloseTask js i reason c s = (Inr (), s')"
  obtains s1 cur t r where "record_at (o_view ob s1) (m_bucket (c_tasks c)) i = Some cur"
    and "t_Status cur \<noteq> StatusClosed" and "t_ClaimedBy cur = c_AgentID c"
    and "t_ClaimEpoch cur = known_epoch c i"
    and "wrote ob s1 s' (m_bucket (c_tasks c)) i (put_entry (encode t) r)"
    and "t_Status t = StatusClosed" and "t_ClosedBy t = c_AgentID c" and "t_ClosedReason t = reason"
    and "t_ClaimEpoch t = t_ClaimEpoch cur" and "wf_Task t" and "valid_Task t"
proof -
  from assms obtain t0 where
    "Manager_Tx (c_tasks c) i
       (Tx_Close js (c_tasks c) i (c_AgentID c) reason (Some (closeMutator c i reason))) s = (Inr t0, s')"
    by (auto simp: CloseTask_def split: if_splits sum.splits prod.splits)
  from Manager_Tx_ok [OF this] obtain tx tx' where
    "tx_apply js (c_tasks c) i EventTypeClosed (PClosed \<lparr>clo_AgentID = c_AgentID c, clo_Reason = reason\<rparr>)
       (seq_stamped (closeMutator c i reason)) (markDirty tx) s = (Inr t0, tx', s')"
    by (auto simp: Tx_Close_def Let_def)
  then obtain q s1 cur now r where
    rec: "record_at (o_view ob s1) (m_bucket (c_tasks c)) i = Some cur" and
    w: "seq_stamped (closeMutator c i reason) q now cur = Inr t0" and val: "valid_Task t0" and
    wr: "wrote ob s1 s' (m_bucket (c_tasks c)) i (put_entry (encode t0) r)"
    by (rule tx_apply_ok)
  from w have "t_Status cur \<noteq> StatusClosed" "t_ClaimedBy cur = c_AgentID c" "t_ClaimEpoch cur = known_epoch c i"
    and t: "t0 = (applyClose cur (c_AgentID c) reason now)\<lparr>t_LastEventSeq := q\<rparr>"
    by (auto simp: seq_stamped_ok closeMutator_def split: if_splits)
  moreover have "wf_Task t0" using record_at_wf [OF rec] t by (simp add: wf_Task_def applyClose_def)
  ultimately show ?thesis using that rec wr val by (simp add: applyClose_def)
qed

end

section \<open>The bucket stays valid\<close>

context task_bucket
begin

lemma touches_keeps: "touches ob rely b s s' \<Longrightarrow> b \<noteq> m_bucket m \<Longrightarrow> ok s \<Longrightarrow> ok s'"
proof (induction rule: touches.induct)
  case (touch_other s s1 s2) then show ?case using stable by blast
next
  case (touch_write s s1 s2 k e)
  then show ?case by (auto simp: wrote_def bucket_ok_def view_put_def)
qed

lemma Manager_Tx_keeps:
  assumes "Manager_Tx m i fn s = (r, s')" and "ok s"
    and "\<And>tx x tx' s2. fn tx s = (x, tx', s2) \<Longrightarrow> ok s2"
  shows "ok s'"
  using assms by (auto simp: Manager_Tx_def split: if_splits sum.splits prod.splits option.splits)

lemma Tx_Claim_mutator_keeps:
  assumes "Manager_Tx m i (Tx_Claim js m i args) s = (x, s2)" and "ok s" and "ca_Mutate args = Some f" and "wf_mutator f"
  shows "ok s2"
  using assms(1,2)
proof (rule Manager_Tx_keeps)
  fix tx y tx' s3
  assume "Tx_Claim js m i args tx s = (y, tx', s3)"
  then show "ok s3" using assms(2) by (rule Tx_Claim_keeps) (use assms(3,4) in simp)
qed

lemma acquireTaskCAS_keeps:
  assumes "acquireTaskCAS js i c s = (r, c', s')" and "ok s" and m: "c_tasks c = m"
  shows "ok s'"
proof -
  obtain y s1 where g: "tasks_Get js m i s = (y, s1)" by fastforce
  have o1: "ok s1" using g assms(2) by (rule tasks_Get_keeps)
  have "ok s2" if "Manager_Tx m i (Tx_Claim js m i args) s1 = (x, s2)"
    and "ca_Mutate args = Some (claimMutator (c_AgentID c))" for args x s2
    using Tx_Claim_mutator_keeps [OF that(1) o1 that(2)] by simp
  with assms(1) g o1 m show ?thesis
    by (auto simp: acquireTaskCAS_def split: sum.splits prod.splits if_splits)
qed

lemma undoTaskCAS_keeps:
  assumes "undoTaskCAS js i c s = (c', s')" and "ok s" and m: "c_tasks c = m"
  shows "ok s'"
proof -
  from assms(1) m obtain x where "Manager_Tx m i
      (Tx_Unclaim js m i ''claim rollback after hold failure'' (Some (undo_mutator (c_AgentID c)))) s = (x, s')"
    by (auto simp: undoTaskCAS_def split: prod.splits)
  then show ?thesis using assms(2) by (rule Manager_Tx_keeps) (auto intro: Tx_Unclaim_keeps [OF _ assms(2)])
qed

lemma hold_failure_keeps:
  assumes "hold_failure js i held herr c s = (e, c', s')" and "ok s" and m: "c_tasks c = m"
    and b: "hm_Bucket (c_holds c) \<noteq> m_bucket m"
  shows "ok s'"
proof -
  have "ok (rollback js c held s)" using rollback_touches b assms(2) by (rule touches_keeps)
  then have "ok s2" if "undoTaskCAS js i c (rollback js c held s) = (c2, s2)" for c2 s2
    using undoTaskCAS_keeps [OF that _ m] by blast
  with assms(1,2) show ?thesis
    by (auto simp: hold_failure_def split: if_splits prod.splits)
qed

lemma claimAll_keeps:
  "claimAll js c i fs ttl held s = (r, s') \<Longrightarrow> ok s \<Longrightarrow> hm_Bucket (c_holds c) \<noteq> m_bucket m \<Longrightarrow> ok s'"
  using claimAll_touches touches_keeps by metis

lemma acquireTaskCAS_handle:
  "acquireTaskCAS js i c s = (r, c', s') \<Longrightarrow> c_tasks c' = c_tasks c \<and> c_holds c' = c_holds c"
  by (auto simp: acquireTaskCAS_def store_epoch_def split: sum.splits prod.splits if_splits)

lemma coord_Claim_keeps:
  assumes "coord_Claim js i ttl c s = (r, c', s')" and "ok s" and m: "c_tasks c = m"
    and b: "hm_Bucket (c_holds c) \<noteq> m_bucket m"
  shows "ok s'"
proof -
  obtain y c1 s1 where a: "acquireTaskCAS js i c s = (y, c1, s1)" by (metis prod_cases3)
  have o1: "ok s1" using a assms(2) m by (rule acquireTaskCAS_keeps)
  have h: "c_tasks c1 = m" "hm_Bucket (c_holds c1) \<noteq> m_bucket m" using acquireTaskCAS_handle [OF a] m b by auto
  have o2: "ok s2" if "claimAll js c1 i fs ttl [] s1 = (z, s2)" for fs z s2
    using that o1 h(2) by (rule claimAll_keeps)
  have o3: "ok s3" if "claimAll js c1 i fs ttl [] s1 = (z, s2)" "hold_failure js i held herr c1 s2 = (e, c3, s3)"
    for fs z s2 held herr e c3 s3
    using hold_failure_keeps [OF that(2) o2 [OF that(1)] h] .
  consider "s' = s" | "s' = s1" | fs z where "claimAll js c1 i fs ttl [] s1 = (z, s')"
    | fs z s2 held herr e c3 where "claimAll js c1 i fs ttl [] s1 = (z, s2)"
        "hold_failure js i held herr c1 s2 = (e, c3, s')"
    using assms(1) a by (auto simp: coord_Claim_def split: if_splits sum.splits prod.splits option.splits)
  then show ?thesis using assms(2) o1 o2 o3 by cases auto
qed

lemma call_release_keeps:
  assumes "call_release js rc c s = (r, rc', c', s')" and "ok s" and m: "c_tasks c = m"
    and b: "hm_Bucket (c_holds c) \<noteq> m_bucket m"
  shows "ok s'"
proof -
  obtain e1 s1 where t: "releaseTaskCAS js (rc_taskID rc) c s = (e1, s1)" by fastforce
  then obtain x where "Manager_Tx m (rc_taskID rc)
      (Tx_Unclaim js m (rc_taskID rc) ''release'' (Some (release_mutator (c_AgentID c)))) s = (x, s1)"
    using m by (auto simp: releaseTaskCAS_def split: sum.splits prod.splits if_splits)
  then have o1: "ok s1"
    using assms(2) by (rule Manager_Tx_keeps) (auto intro: Tx_Unclaim_keeps [OF _ assms(2)])
  obtain e2 s2 where h: "releaseHolds js c (rc_held rc) None s1 = (e2, s2)" by fastforce
  have "ok s2" using releaseHolds_touches [OF h] b o1 by (rule touches_keeps)
  with assms(1,2) t h show ?thesis by (auto simp: call_release_def Let_def split: if_splits)
qed

lemma CloseTask_keeps:
  assumes "CloseTask js i reason c s = (r, s')" and "ok s" and m: "c_tasks c = m"
  shows "ok s'"
proof -
  have "ok s2" if "Manager_Tx m i
      (Tx_Close js m i (c_AgentID c) reason (Some (closeMutator c i reason))) s = (x, s2)" for x s2
    using that assms(2) by (rule Manager_Tx_keeps) (auto intro: Tx_Close_keeps [OF _ assms(2)])
  with assms m show ?thesis by (auto simp: CloseTask_def split: if_splits sum.splits prod.splits)
qed

lemma takeOverHolds_keeps:
  assumes "takeOverHolds js i prev fs ttl c s = (r, c', s')" and "ok s" and m: "c_tasks c = m"
    and b: "hm_Bucket (c_holds c) \<noteq> m_bucket m"
  shows "ok s'"
proof -
  obtain x s1 where o: "releaseOldHolds js c prev fs s = (x, s1)" by fastforce
  have o1: "ok s1" using releaseOldHolds_touches [OF o] b assms(2) by (rule touches_keeps)
  obtain held y s2 where c: "claimAll js c i fs ttl [] s1 = ((held, y), s2)" by (metis prod.collapse)
  have o2: "ok s2" using c o1 b by (rule claimAll_keeps)
  show ?thesis
    using assms(1) o c o1 o2 hold_failure_keeps [OF _ o2 m b]
    by (auto simp: takeOverHolds_def split: option.splits prod.splits)
qed

lemma prepareReclaim_keeps:
  assumes "prepareReclaim js i c s = (r, s')" and "ok s" and m: "c_tasks c = m"
  shows "ok s'"
proof -
  obtain y s1 where g: "tasks_Get js m i s = (y, s1)" by fastforce
  have o1: "ok s1" using g assms(2) by (rule tasks_Get_keeps)
  have "ok s2" if "assertClaimerOffline js a c s1 = (z, s2)" for a z s2
  proof -
    obtain w s3 where p: "presence_Who js (c_presence c) s1 = (w, s3)" by fastforce
    then have "ok s3" using presence_Who_rely stable o1 by blast
    then show ?thesis using that p by (auto simp: assertClaimerOffline_def split: sum.splits if_splits)
  qed
  with assms(1) g o1 m show ?thesis
    by (auto simp: prepareReclaim_def split: sum.splits prod.splits if_splits)
qed

lemma store_epoch_handle [simp]:
  "c_tasks (store_epoch i e c) = c_tasks c" "c_holds (store_epoch i e c) = c_holds c"
  by (simp_all add: store_epoch_def)

lemma Reclaim_keeps:
  assumes "Reclaim js i ttl c s = (r, c', s')" and "ok s" and m: "c_tasks c = m"
    and b: "hm_Bucket (c_holds c) \<noteq> m_bucket m"
  shows "ok s'"
proof -
  obtain y s1 where p: "prepareReclaim js i c s = (y, s1)" by fastforce
  have o1: "ok s1" using p assms(2) m by (rule prepareReclaim_keeps)
  have o2: "ok s2" if "Manager_Tx m i (Tx_Claim js m i args) s1 = (x, s2)"
    "ca_Mutate args = Some (reclaimMutator (c_AgentID c))" for args x s2
    using Tx_Claim_mutator_keeps [OF that(1) o1 that(2)] by simp
  consider "s' = s" | "s' = s1"
    | args x where "Manager_Tx m i (Tx_Claim js m i args) s1 = (x, s')"
        "ca_Mutate args = Some (reclaimMutator (c_AgentID c))"
    | args x s2 prev fs e where "Manager_Tx m i (Tx_Claim js m i args) s1 = (x, s2)"
        "ca_Mutate args = Some (reclaimMutator (c_AgentID c))"
        "takeOverHolds js i prev fs ttl (store_epoch i e c) s2 = (r, c', s')"
    using assms(1) p m by (force simp: Reclaim_def split: if_splits sum.splits prod.splits)
  then show ?thesis
  proof cases
    case 4
    from takeOverHolds_keeps [OF 4(3) o2 [OF 4(1,2)]] m b show ?thesis by simp
  qed (use assms(2) o1 o2 in auto)
qed

lemma HandoffClaim_keeps:
  assumes "HandoffClaim js i from ttl c s = (r, c', s')" and "ok s" and m: "c_tasks c = m"
    and b: "hm_Bucket (c_holds c) \<noteq> m_bucket m"
  shows "ok s'"
proof -
  obtain y s1 where p: "prepareHandoff js i from c s = (y, s1)" by fastforce
  obtain z s0 where g: "tasks_Get js m i s = (z, s0)" by fastforce
  have "s1 = s0" using p g m by (auto simp: prepareHandoff_def split: sum.splits if_splits)
  then have o1: "ok s1" using tasks_Get_keeps(1) [OF g assms(2)] by simp
  have o2: "ok s2" if "Manager_Tx m i (Tx_Claim js m i args) s1 = (x, s2)"
    "ca_Mutate args = Some (handoffMutator (c_AgentID c) from)" for args x s2
    using Tx_Claim_mutator_keeps [OF that(1) o1 that(2)] by simp
  consider "s' = s" | "s' = s1"
    | args x where "Manager_Tx m i (Tx_Claim js m i args) s1 = (x, s')"
        "ca_Mutate args = Some (handoffMutator (c_AgentID c) from)"
    | args x s2 fs e where "Manager_Tx m i (Tx_Claim js m i args) s1 = (x, s2)"
        "ca_Mutate args = Some (handoffMutator (c_AgentID c) from)"
        "takeOverHolds js i from fs ttl (store_epoch i e c) s2 = (r, c', s')"
    using assms(1) p m by (force simp: HandoffClaim_def split: if_splits sum.splits prod.splits)
  then show ?thesis
  proof cases
    case 4
    from takeOverHolds_keeps [OF 4(3) o2 [OF 4(1,2)]] m b show ?thesis by simp
  qed (use assms(2) o1 o2 in auto)
qed

lemma coord_Link_keeps:
  assumes "coord_Link js from to et c s = (r, s')" and "ok s" and m: "c_tasks c = m"
  shows "ok s'"
proof -
  obtain y s1 where g1: "tasks_Get js m to s = (y, s1)" by fastforce
  have o1: "ok s1" using g1 assms(2) by (rule tasks_Get_keeps)
  obtain z s2 where g2: "tasks_Get js m from s1 = (z, s2)" by fastforce
  have o2: "ok s2" using g2 o1 by (rule tasks_Get_keeps)
  have "ok s3" if "Manager_Tx m from (Tx_Link js m from to et) s2 = (x, s3)" for x s3
    using that o2 by (rule Manager_Tx_keeps) (auto intro: Tx_Link_keeps [OF _ o2])
  with assms g1 g2 o1 o2 m show ?thesis
    by (auto simp: coord_Link_def split: if_splits sum.splits prod.splits)
qed

lemma OpenTask_keeps:
  assumes "OpenTask js rnd title files c s = (r, s')" and "ok s" and m: "c_tasks c = m"
  shows "ok s'"
proof -
  have w: "wf_Task (open_record i title fs now)" for i fs now
    by (simp add: open_record_def wf_Task_def zero_Task_def)
  have "ok s2" if "Manager_Tx m i (Tx_Create js m i (open_record i title fs now)) s = (x, s2)" for i fs now x s2
    using that assms(2) by (rule Manager_Tx_keeps) (auto intro: Tx_Create_keeps [OF _ assms(2) w])
  with assms m show ?thesis
    by (auto simp: OpenTask_def Let_def split: if_splits sum.splits prod.splits)
qed

end

end
