(* ===== verification/Task_Recovery.thy ===== *)
theory Task_Recovery
  imports Task_Tx
begin

text \<open>
  \<^verbatim>\<open>internal/tasks/recovery.go\<close>, \<^verbatim>\<open>log_reader.go\<close>, \<^verbatim>\<open>compaction.go\<close> and \<^verbatim>\<open>Open\<close> of \<^verbatim>\<open>tasks.go\<close>: bringing the
  stored records to parity with the event log, migrating a bucket that predates the log, reading
  the log, and compacting it. The lemmas show that every path keeps the bucket valid, that a bucket
  in step with the log is left alone, and what replaying one event does to a record.
\<close>

section \<open>Replaying one event\<close>

definition jsonInto :: "(Task \<Rightarrow> 'a) \<Rightarrow> ('a \<Rightarrow> Task \<Rightarrow> Task) \<Rightarrow> ('a \<Rightarrow> json \<Rightarrow> 'a option) \<Rightarrow> json \<Rightarrow> Task \<Rightarrow> Task option" where
  "jsonInto sel upd into raw t = map_option (\<lambda>x. upd x t) (into (sel t) raw)"

definition applyFieldChange :: "Task \<Rightarrow> FieldChange \<Rightarrow> Task option" where
  "applyFieldChange t ch =
     (if fc_Field ch = ''title'' then jsonInto t_Title (\<lambda>x. t_Title_update (\<lambda>_. x)) into_string (fc_New ch) t
      else if fc_Field ch = ''status'' then jsonInto t_Status (\<lambda>x. t_Status_update (\<lambda>_. x)) into_string (fc_New ch) t
      else if fc_Field ch = ''claimed_by'' then jsonInto t_ClaimedBy (\<lambda>x. t_ClaimedBy_update (\<lambda>_. x)) into_string (fc_New ch) t
      else if fc_Field ch = ''parent'' then jsonInto t_Parent (\<lambda>x. t_Parent_update (\<lambda>_. x)) into_string (fc_New ch) t
      else if fc_Field ch = ''files'' then jsonInto t_Files (\<lambda>x. t_Files_update (\<lambda>_. x)) (into_slice into_string []) (fc_New ch) t
      else if fc_Field ch = ''context'' then jsonInto t_Context (\<lambda>x. t_Context_update (\<lambda>_. x)) into_strmap (fc_New ch) t
      else if fc_Field ch = ''defer_until'' then jsonInto t_DeferUntil (\<lambda>x. t_DeferUntil_update (\<lambda>_. x)) into_time_ptr (fc_New ch) t
      else if fc_Field ch = ''edges'' then jsonInto t_Edges (\<lambda>x. t_Edges_update (\<lambda>_. x)) into_edges (fc_New ch) t
      else if fc_Field ch = ''closed_by'' then jsonInto t_ClosedBy (\<lambda>x. t_ClosedBy_update (\<lambda>_. x)) into_string (fc_New ch) t
      else if fc_Field ch = ''closed_reason'' then jsonInto t_ClosedReason (\<lambda>x. t_ClosedReason_update (\<lambda>_. x)) into_string (fc_New ch) t
      else if fc_Field ch = ''claim_epoch'' then jsonInto t_ClaimEpoch (\<lambda>x. t_ClaimEpoch_update (\<lambda>_. x)) into_word (fc_New ch) t
      else Some t)"

fun applyFieldChanges :: "Task \<Rightarrow> FieldChange list \<Rightarrow> Task option" where
  "applyFieldChanges t [] = Some t"
| "applyFieldChanges t (ch # chs) =
     (case applyFieldChange t ch of None \<Rightarrow> None | Some t' \<Rightarrow> applyFieldChanges t' chs)"

text \<open>The closures handed to \<^verbatim>\<open>aw.Update\<close>, one per event type.\<close>

definition slot_replay :: "EventEnvelope \<Rightarrow> mutator" where
  "slot_replay env now t = Inr (t\<lparr>t_LastEventSeq := ev_StreamSeq env\<rparr>)"

definition claimed_replay :: "EventEnvelope \<Rightarrow> ClaimedPayload \<Rightarrow> mutator" where
  "claimed_replay env cl now t =
     Inr (t\<lparr>t_Status := StatusClaimed, t_ClaimedBy := clp_AgentID cl,
            t_ClaimEpoch := (if clp_ClaimEpoch cl > t_ClaimEpoch t then clp_ClaimEpoch cl else t_ClaimEpoch t),
            t_UpdatedAt := ev_Timestamp env, t_LastEventSeq := ev_StreamSeq env\<rparr>)"

definition unclaimed_replay :: "EventEnvelope \<Rightarrow> mutator" where
  "unclaimed_replay env now t =
     Inr (t\<lparr>t_Status := StatusOpen, t_ClaimedBy := [], t_UpdatedAt := ev_Timestamp env,
            t_LastEventSeq := ev_StreamSeq env\<rparr>)"

definition updated_replay :: "EventEnvelope \<Rightarrow> UpdatedPayload \<Rightarrow> mutator" where
  "updated_replay env up now t =
     (case applyFieldChanges t (upd_Changes up) of
        None \<Rightarrow> Inl EDecode
      | Some t' \<Rightarrow> Inr (t'\<lparr>t_UpdatedAt := ev_Timestamp env, t_LastEventSeq := ev_StreamSeq env\<rparr>))"

definition linked_replay :: "EventEnvelope \<Rightarrow> LinkedPayload \<Rightarrow> mutator" where
  "linked_replay env lp now t =
     (if list_ex (\<lambda>e. edge_Type e = lp_EdgeType lp \<and> edge_Target e = lp_OtherID lp) (t_Edges t)
      then Inr (t\<lparr>t_LastEventSeq := ev_StreamSeq env\<rparr>)
      else Inr (t\<lparr>t_Edges := t_Edges t @ [\<lparr>edge_Type = lp_EdgeType lp, edge_Target = lp_OtherID lp\<rparr>],
                  t_UpdatedAt := ev_Timestamp env, t_LastEventSeq := ev_StreamSeq env\<rparr>))"

definition closed_replay :: "EventEnvelope \<Rightarrow> ClosedPayload \<Rightarrow> mutator" where
  "closed_replay env cp now t =
     (if t_Status t = StatusClosed then Inr (t\<lparr>t_LastEventSeq := ev_StreamSeq env\<rparr>)
      else let closer = (if clo_AgentID cp = [] \<and> t_ClaimedBy t \<noteq> [] then t_ClaimedBy t else clo_AgentID cp);
               ts = ev_Timestamp env
           in Inr (t\<lparr>t_Status := StatusClosed, t_ClosedBy := closer, t_ClosedReason := clo_Reason cp,
                     t_ClosedAt := Some ts, t_ClaimedBy := [], t_UpdatedAt := ts,
                     t_LastEventSeq := ev_StreamSeq env\<rparr>))"

definition aw_update :: "'s sys \<Rightarrow> Manager \<Rightarrow> string \<Rightarrow> mutator \<Rightarrow> 's \<Rightarrow> (err + unit) \<times> 's" where
  "aw_update js m i f s =
     (case AdminWrite_Update js m i f s of (Inl e, s') \<Rightarrow> (Inl e, s') | (Inr _, s') \<Rightarrow> (Inr (), s'))"

definition created_record :: "EventEnvelope \<Rightarrow> CreatedPayload \<Rightarrow> Task" where
  "created_record env c =
     zero_Task\<lparr>t_ID := ev_TaskID env, t_Title := cp_Title c, t_Status := StatusOpen,
       t_Files := cp_Files c, t_CreatedAt := ev_Timestamp env, t_UpdatedAt := ev_Timestamp env,
       t_SchemaVersion := SchemaVersion, t_LastEventSeq := ev_StreamSeq env\<rparr>"

definition applyCreatedEvent :: "'s sys \<Rightarrow> Manager \<Rightarrow> EventEnvelope \<Rightarrow> 's \<Rightarrow> (err + unit) \<times> 's" where
  "applyCreatedEvent js m env s =
     (case DecodePayload env of
        Inr (PCreated c) \<Rightarrow>
          (case cp_Snapshot c of
             Some snap0 \<Rightarrow>
               let snap = snap0\<lparr>t_LastEventSeq := ev_StreamSeq env\<rparr> in
               (case AdminWrite_Create js m snap s of
                  (Inl e, s') \<Rightarrow>
                    if e = ETasks ErrAlreadyExists
                    then aw_update js m (ev_TaskID env) (\<lambda>now t. Inr snap) s' else (Inl e, s')
                | (Inr u, s') \<Rightarrow> (Inr u, s'))
           | None \<Rightarrow>
               (case AdminWrite_Create js m (created_record env c) s of
                  (Inl e, s') \<Rightarrow> if e = ETasks ErrAlreadyExists then (Inr (), s') else (Inl e, s')
                | (Inr u, s') \<Rightarrow> (Inr u, s')))
      | Inr _ \<Rightarrow> (Inl (EPanic ''interface conversion''), s)
      | Inl e \<Rightarrow> (Inl e, s))"

definition applyClaimedEvent :: "'s sys \<Rightarrow> Manager \<Rightarrow> EventEnvelope \<Rightarrow> 's \<Rightarrow> (err + unit) \<times> 's" where
  "applyClaimedEvent js m env s =
     (case DecodePayload env of
        Inr (PClaimed cl) \<Rightarrow> aw_update js m (ev_TaskID env) (claimed_replay env cl) s
      | Inr _ \<Rightarrow> (Inl (EPanic ''interface conversion''), s)
      | Inl e \<Rightarrow> (Inl e, s))"

definition applyUnclaimedEvent :: "'s sys \<Rightarrow> Manager \<Rightarrow> EventEnvelope \<Rightarrow> 's \<Rightarrow> (err + unit) \<times> 's" where
  "applyUnclaimedEvent js m env s = aw_update js m (ev_TaskID env) (unclaimed_replay env) s"

definition applyLinkedEvent :: "'s sys \<Rightarrow> Manager \<Rightarrow> EventEnvelope \<Rightarrow> 's \<Rightarrow> (err + unit) \<times> 's" where
  "applyLinkedEvent js m env s =
     (case DecodePayload env of
        Inr (PLinked lp) \<Rightarrow> aw_update js m (ev_TaskID env) (linked_replay env lp) s
      | Inr _ \<Rightarrow> (Inl (EPanic ''interface conversion''), s)
      | Inl e \<Rightarrow> (Inl e, s))"

definition applyUpdatedEvent :: "'s sys \<Rightarrow> Manager \<Rightarrow> EventEnvelope \<Rightarrow> 's \<Rightarrow> (err + unit) \<times> 's" where
  "applyUpdatedEvent js m env s =
     (case DecodePayload env of
        Inr (PUpdated up) \<Rightarrow> aw_update js m (ev_TaskID env) (updated_replay env up) s
      | Inr _ \<Rightarrow> (Inl (EPanic ''interface conversion''), s)
      | Inl e \<Rightarrow> (Inl e, s))"

definition applyClosedEvent :: "'s sys \<Rightarrow> Manager \<Rightarrow> EventEnvelope \<Rightarrow> 's \<Rightarrow> (err + unit) \<times> 's" where
  "applyClosedEvent js m env s =
     (case DecodePayload env of
        Inr (PClosed cp) \<Rightarrow> aw_update js m (ev_TaskID env) (closed_replay env cp) s
      | Inr _ \<Rightarrow> (Inl (EPanic ''interface conversion''), s)
      | Inl e \<Rightarrow> (Inl e, s))"

definition applyEvent :: "'s sys \<Rightarrow> Manager \<Rightarrow> EventEnvelope \<Rightarrow> 's \<Rightarrow> (err + unit) \<times> 's" where
  "applyEvent js m env s =
     (if ev_Type env = EventTypeCreated then applyCreatedEvent js m env s
      else if ev_Type env = EventTypeClaimed then applyClaimedEvent js m env s
      else if ev_Type env = EventTypeUnclaimed then applyUnclaimedEvent js m env s
      else if ev_Type env = EventTypeUpdated then applyUpdatedEvent js m env s
      else if ev_Type env = EventTypeLinked then applyLinkedEvent js m env s
      else if ev_Type env = EventTypeSlotChanged then aw_update js m (ev_TaskID env) (slot_replay env) s
      else if ev_Type env = EventTypeClosed then applyClosedEvent js m env s
      else (Inr (), s))"

section \<open>Recover\<close>

type_synonym projections = "(string \<times> Task) list"

definition snapshotTasks :: "'s sys \<Rightarrow> Manager \<Rightarrow> 's \<Rightarrow> (err + projections) \<times> 's" where
  "snapshotTasks js m s =
     (case tasks_List js m s of
        (Inl e, s') \<Rightarrow> (Inl e, s')
      | (Inr ts, s') \<Rightarrow> (Inr (foldl (\<lambda>mp t. AList.update (t_ID t) t mp) [] ts), s'))"

text \<open>
  The inner loop of \<^verbatim>\<open>drainAndReplay\<close> over the messages of one batch. The result is the count so far,
  the refreshed projections and the error that ends the loop, if any.
\<close>

fun replay_msgs ::
  "'s sys \<Rightarrow> Manager \<Rightarrow> stream_msg list \<Rightarrow> projections \<Rightarrow> nat \<Rightarrow> 's \<Rightarrow>
   (nat \<times> projections \<times> err option) \<times> 's" where
  "replay_msgs js m [] mp n s = ((n, mp, None), s)"
| "replay_msgs js m (msg # msgs) mp n s =
     (case UnmarshalEnvelope (msg_Data msg) of
        None \<Rightarrow> replay_msgs js m msgs mp n s
      | Some env0 \<Rightarrow>
          let env = env0\<lparr>ev_StreamSeq := msg_Sequence msg\<rparr> in
          if (case map_of mp (ev_TaskID env) of None \<Rightarrow> False | Some cur \<Rightarrow> t_LastEventSeq cur \<ge> ev_StreamSeq env)
          then replay_msgs js m msgs mp n s
          else (case applyEvent js m env s of
                  (Inl e, s1) \<Rightarrow> ((n, mp, Some e), s1)
                | (Inr _, s1) \<Rightarrow>
                    (case tasks_Get js m (ev_TaskID env) s1 of
                       (Inr (t, _), s2) \<Rightarrow>
                         replay_msgs js m msgs (AList.update (ev_TaskID env) t mp) (Suc n) s2
                     | (Inl e, s2) \<Rightarrow>
                         if is_panic e then ((Suc n, mp, Some e), s2)
                         else replay_msgs js m msgs mp (Suc n) s2)))"

fun drainAndReplay ::
  "'s sys \<Rightarrow> Manager \<Rightarrow> fetch_result list \<Rightarrow> projections \<Rightarrow> nat \<Rightarrow> 's \<Rightarrow> (nat \<times> err option) \<times> 's" where
  "drainAndReplay js m [] mp n s = ((n, None), s)"
| "drainAndReplay js m (FetchErr x # fs) mp n s = ((n, Some (EKV x)), s)"
| "drainAndReplay js m (FetchBatch msgs berr # fs) mp n s =
     (case replay_msgs js m msgs mp n s of
        ((n', mp', Some e), s') \<Rightarrow> ((n', Some e), s')
      | ((n', mp', None), s') \<Rightarrow>
          if msgs = [] then ((n', None), s')
          else (case berr of
                  Some x \<Rightarrow> ((n', Some (EKV x)), s')
                | None \<Rightarrow> drainAndReplay js m fs mp' n' s'))"

definition Recover :: "'s sys \<Rightarrow> Manager \<Rightarrow> 's \<Rightarrow> (nat \<times> err option) \<times> 's" where
  "Recover js m s =
     (if \<not> m_stream m then ((0, None), s)
      else case snapshotTasks js m s of
             (Inl e, s1) \<Rightarrow> ((0, Some e), s1)
           | (Inr tasksByID, s1) \<Rightarrow>
               (case js_Consumer js s1 AllEventsSubject DeliverAllPolicy of
                  (Inl x, s2) \<Rightarrow> ((0, Some (EKV x)), s2)
                | (Inr cons, s2) \<Rightarrow> drainAndReplay js m cons tasksByID 0 s2))"

section \<open>Migrate\<close>

definition publishMigrationEnvelope :: "'s sys \<Rightarrow> Manager \<Rightarrow> EventEnvelope \<Rightarrow> 's \<Rightarrow> (err + nat) \<times> 's" where
  "publishMigrationEnvelope js m env s =
     (case js_Publish js s (EventSubject (ev_TaskID env)) (MarshalEnvelope env) of
        (Inl x, s') \<Rightarrow> (Inl (EKV x), s')
      | (Inr q, s') \<Rightarrow> (Inr q, s'))"

text \<open>One synthetic event: encode, overwrite the timestamp, publish.\<close>

definition emit_one ::
  "'s sys \<Rightarrow> Manager \<Rightarrow> EventType \<Rightarrow> string \<Rightarrow> payload \<Rightarrow> time_ns \<Rightarrow> 's \<Rightarrow> (err + nat) \<times> 's" where
  "emit_one js m et i p ts s =
     (case EncodeEnvelope et i p (js_Now js s) of
        Inl e \<Rightarrow> (Inl e, s)
      | Inr env \<Rightarrow> publishMigrationEnvelope js m (env\<lparr>ev_Timestamp := ts\<rparr>) s)"

definition synthetic_events :: "Task \<Rightarrow> (EventType \<times> payload \<times> time_ns) list" where
  "synthetic_events t =
     (EventTypeCreated,
      PCreated \<lparr>cp_Title = t_Title t, cp_Slot = [], cp_Files = t_Files t,
                cp_Snapshot = Some (t\<lparr>t_SchemaVersion := SchemaVersion\<rparr>)\<rparr>, t_CreatedAt t) #
     (if t_ClaimedBy t \<noteq> []
      then [(EventTypeClaimed,
             PClaimed \<lparr>clp_AgentID = t_ClaimedBy t, clp_Slot = [], clp_ClaimEpoch = t_ClaimEpoch t,
                       clp_PrevAgent = []\<rparr>, t_UpdatedAt t)] else []) @
     (case t_ClosedAt t of
        None \<Rightarrow> []
      | Some ts \<Rightarrow>
          [(EventTypeClosed, PClosed \<lparr>clo_AgentID = t_ClosedBy t, clo_Reason = t_ClosedReason t\<rparr>, ts)])"

fun emit_all ::
  "'s sys \<Rightarrow> Manager \<Rightarrow> string \<Rightarrow> (EventType \<times> payload \<times> time_ns) list \<Rightarrow> nat \<Rightarrow> nat \<Rightarrow> 's \<Rightarrow>
   (nat \<times> (err + nat)) \<times> 's" where
  "emit_all js m i [] lastSeq n s = ((n, Inr lastSeq), s)"
| "emit_all js m i ((et, p, ts) # evs) lastSeq n s =
     (case emit_one js m et i p ts s of
        (Inl e, s') \<Rightarrow> ((n, Inl e), s')
      | (Inr q, s') \<Rightarrow> emit_all js m i evs q (Suc n) s')"

definition seq_mutator :: "nat \<Rightarrow> mutator" where
  "seq_mutator q now cur = Inr (cur\<lparr>t_LastEventSeq := q\<rparr>)"

fun emitSyntheticEvents :: "'s sys \<Rightarrow> Manager \<Rightarrow> Task list \<Rightarrow> nat \<Rightarrow> 's \<Rightarrow> (nat \<times> err option) \<times> 's" where
  "emitSyntheticEvents js m [] n s = ((n, None), s)"
| "emitSyntheticEvents js m (t # ts) n s =
     (if has_prefix (t_ID t) ''__bones_tasks_events_migrated'' then emitSyntheticEvents js m ts n s
      else case emit_all js m (t_ID t) (synthetic_events t) 0 n s of
             ((n', Inl e), s1) \<Rightarrow> ((n', Some e), s1)
           | ((n', Inr q), s1) \<Rightarrow>
               (case aw_update js m (t_ID t) (seq_mutator q) s1 of
                  (Inl e, s2) \<Rightarrow> ((n', Some e), s2)
                | (Inr _, s2) \<Rightarrow> emitSyntheticEvents js m ts n' s2))"

definition isMigrated :: "'s sys \<Rightarrow> Manager \<Rightarrow> 's \<Rightarrow> (err + bool) \<times> 's" where
  "isMigrated js m s =
     (case js_Get js s (m_bucket m) migrationMarkerKey of
        (Inl x, s') \<Rightarrow> if x = ErrKeyNotFound then (Inr False, s') else (Inl (EKV x), s')
      | (Inr _, s') \<Rightarrow> (Inr True, s'))"

definition migration_marker :: "time_ns \<Rightarrow> Task" where
  "migration_marker now =
     zero_Task\<lparr>t_ID := migrationMarkerKey, t_Title := ''tasks-events migration marker'',
       t_Status := StatusClosed, t_ClosedAt := Some now, t_CreatedAt := now, t_UpdatedAt := now,
       t_SchemaVersion := SchemaVersion\<rparr>"

definition setMigrated :: "'s sys \<Rightarrow> Manager \<Rightarrow> 's \<Rightarrow> err option \<times> 's" where
  "setMigrated js m s =
     (case js_Put js s (m_bucket m) migrationMarkerKey (encode (migration_marker (js_Now js s))) of
        (Inl x, s') \<Rightarrow> (Some (EKV x), s')
      | (Inr _, s') \<Rightarrow> (None, s'))"

definition Migrate :: "'s sys \<Rightarrow> Manager \<Rightarrow> 's \<Rightarrow> (nat \<times> err option) \<times> 's" where
  "Migrate js m s =
     (if \<not> m_stream m then ((0, Some (EMsg ''tasks.Migrate: event log disabled'')), s)
      else case isMigrated js m s of
             (Inl e, s1) \<Rightarrow> ((0, Some e), s1)
           | (Inr True, s1) \<Rightarrow> ((0, None), s1)
           | (Inr False, s1) \<Rightarrow>
               (case tasks_List js m s1 of
                  (Inl e, s2) \<Rightarrow> ((0, Some e), s2)
                | (Inr ts, s2) \<Rightarrow>
                    (case emitSyntheticEvents js m ts 0 s2 of
                       ((n, Some e), s3) \<Rightarrow> ((n, Some e), s3)
                     | ((n, None), s3) \<Rightarrow>
                         (case setMigrated js m s3 of (x, s4) \<Rightarrow> ((n, x), s4)))))"

section \<open>Open\<close>

text \<open>
  The outcomes of creating the bucket and the stream are the arguments \<open>kv\<close> and \<open>strm\<close>: \<open>None\<close> when the
  call succeeded.
\<close>

definition tasks_Open ::
  "'s sys \<Rightarrow> kv_err option \<Rightarrow> kv_err option \<Rightarrow> Config \<Rightarrow> 's \<Rightarrow> (err + Manager) \<times> 's" where
  "tasks_Open js kv strm cfg s =
     (case assertOpenConfig cfg of
        Inl e \<Rightarrow> (Inl e, s)
      | Inr _ \<Rightarrow>
          (case kv of
             Some x \<Rightarrow> (Inl (EKV x), s)
           | None \<Rightarrow>
               let buf = (if cfg_ChanBuffer cfg = 0 then defaultChanBuffer else cfg_ChanBuffer cfg);
                   mgr = \<lparr>m_cfg = cfg, m_stream = cfg_EnableEventLog cfg, m_buf = buf, m_done = False\<rparr>
               in if \<not> cfg_EnableEventLog cfg then (Inr mgr, s)
                  else case strm of
                         Some x \<Rightarrow> (Inl (EKV x), s)
                       | None \<Rightarrow>
                           (case Migrate js mgr s of
                              ((_, Some e), s1) \<Rightarrow> (Inl e, s1)
                            | ((_, None), s1) \<Rightarrow>
                                if \<not> cfg_RecoverOnOpen cfg then (Inr mgr, s1)
                                else case Recover js mgr s1 of
                                       ((_, Some e), s2) \<Rightarrow> (Inl e, s2)
                                     | ((_, None), s2) \<Rightarrow> (Inr mgr, s2))))"

section \<open>Reading the log\<close>

record LogReadOpts =
  lr_FromSeq :: nat
  lr_Since :: duration
  lr_Limit :: int
  lr_FilterTaskID :: string

definition buildReplayConsumerCfg :: "LogReadOpts \<Rightarrow> time_ns \<Rightarrow> string \<times> deliver_policy" where
  "buildReplayConsumerCfg opts now =
     ((if lr_FilterTaskID opts \<noteq> [] then EventSubject (lr_FilterTaskID opts) else AllEventsSubject),
      (if lr_FromSeq opts \<noteq> 0 then DeliverByStartSequencePolicy (lr_FromSeq opts)
       else if lr_Since opts \<noteq> 0 then DeliverByStartTimePolicy (now - lr_Since opts)
       else DeliverAllPolicy))"

text \<open>\<open>Inl\<close>: the limit was reached and the function returned.\<close>

fun drain_msgs :: "int \<Rightarrow> stream_msg list \<Rightarrow> EventEnvelope list \<Rightarrow> EventEnvelope list + EventEnvelope list" where
  "drain_msgs limit [] out = Inr out"
| "drain_msgs limit (msg # msgs) out =
     (case UnmarshalEnvelope (msg_Data msg) of
        None \<Rightarrow> drain_msgs limit msgs out
      | Some env \<Rightarrow>
          let out' = out @ [env\<lparr>ev_StreamSeq := msg_Sequence msg\<rparr>] in
          if limit > 0 \<and> int (length out') \<ge> limit then Inl out' else drain_msgs limit msgs out')"

fun drainReplay :: "fetch_result list \<Rightarrow> int \<Rightarrow> EventEnvelope list \<Rightarrow> EventEnvelope list \<times> err option" where
  "drainReplay [] limit out = (out, None)"
| "drainReplay (FetchErr x # fs) limit out = (out, Some (EKV x))"
| "drainReplay (FetchBatch msgs berr # fs) limit out =
     (case drain_msgs limit msgs out of
        Inl out' \<Rightarrow> (out', None)
      | Inr out' \<Rightarrow>
          if msgs = [] then (out', None)
          else (case berr of Some x \<Rightarrow> (out', Some (EKV x)) | None \<Rightarrow> drainReplay fs limit out'))"

definition Replay :: "'s sys \<Rightarrow> Manager \<Rightarrow> LogReadOpts \<Rightarrow> 's \<Rightarrow> (EventEnvelope list \<times> err option) \<times> 's" where
  "Replay js m opts s =
     (if \<not> m_stream m then (([], Some (EMsg ''tasks.Replay: event log disabled'')), s)
      else if lr_FromSeq opts \<noteq> 0 \<and> lr_Since opts \<noteq> 0
      then (([], Some (EMsg ''tasks.Replay: --from and --since are mutually exclusive'')), s)
      else case buildReplayConsumerCfg opts (js_Now js s) of
             (subj, pol) \<Rightarrow>
               (case js_Consumer js s subj pol of
                  (Inl x, s') \<Rightarrow> (([], Some (EKV x)), s')
                | (Inr cons, s') \<Rightarrow> (drainReplay cons (lr_Limit opts) [], s')))"

definition Recent :: "'s sys \<Rightarrow> Manager \<Rightarrow> int \<Rightarrow> 's \<Rightarrow> (EventEnvelope list \<times> err option) \<times> 's" where
  "Recent js m n0 s =
     (let n = (if n0 \<le> 0 then RecentActivityCount else n0) in
      case Replay js m \<lparr>lr_FromSeq = 0, lr_Since = 0, lr_Limit = 0, lr_FilterTaskID = []\<rparr> s of
        ((es, Some e), s') \<Rightarrow> (([], Some e), s')
      | ((es, None), s') \<Rightarrow>
          if int (length es) \<le> n then ((es, None), s') else ((drop (length es - nat n) es, None), s'))"

section \<open>Compacting the log\<close>

definition PerTaskEventCap :: nat where
  "PerTaskEventCap = 50"

definition EventRetentionWindow :: duration where
  "EventRetentionWindow = 90 * 24 * 3600 * 1000000000"

fun old_and_new :: "time_ns \<Rightarrow> bool \<Rightarrow> bool \<Rightarrow> EventEnvelope list \<Rightarrow> bool" where
  "old_and_new cutoff hasOld hasNew [] = False"
| "old_and_new cutoff hasOld hasNew (env # envs) =
     (let hasOld' = hasOld \<or> ev_Timestamp env < cutoff;
          hasNew' = hasNew \<or> \<not> ev_Timestamp env < cutoff
      in if hasOld' \<and> hasNew' then True else old_and_new cutoff hasOld' hasNew' envs)"

definition shouldCompactByTime :: "EventEnvelope list \<Rightarrow> time_ns \<Rightarrow> bool" where
  "shouldCompactByTime envs now =
     (if envs = [] then False else old_and_new (now - EventRetentionWindow) False False envs)"

definition doCompactPerTask ::
  "'s sys \<Rightarrow> Manager \<Rightarrow> string \<Rightarrow> Task \<Rightarrow> EventEnvelope list \<Rightarrow> 's \<Rightarrow> (nat \<times> err option) \<times> 's" where
  "doCompactPerTask js m taskID cur envs s =
     (case EncodeEnvelope EventTypeCreated taskID
             (PCreated \<lparr>cp_Title = t_Title cur, cp_Slot = [], cp_Files = t_Files cur, cp_Snapshot = Some cur\<rparr>)
             (js_Now js s) of
        Inl e \<Rightarrow> ((0, Some e), s)
      | Inr env \<Rightarrow>
          (case js_Publish js s (EventSubject taskID) (MarshalEnvelope env) of
             (Inl x, s1) \<Rightarrow> ((0, Some (EKV x)), s1)
           | (Inr _, s1) \<Rightarrow>
               (case js_PurgeSubject js s1 (EventSubject taskID) 1 of
                  (Inl x, s2) \<Rightarrow> ((0, Some (EKV x)), s2)
                | (Inr _, s2) \<Rightarrow> ((length envs, None), s2))))"

definition CompactPerTask :: "'s sys \<Rightarrow> Manager \<Rightarrow> string \<Rightarrow> 's \<Rightarrow> (nat \<times> err option) \<times> 's" where
  "CompactPerTask js m taskID s =
     (if taskID = [] then ((0, Some (EPanic ''tasks.CompactPerTask: taskID is empty'')), s)
      else if \<not> m_stream m then ((0, Some (EMsg ''tasks.CompactPerTask: event log disabled'')), s)
      else case tasks_Get js m taskID s of
             (Inl e, s1) \<Rightarrow> if e = ETasks ErrNotFound then ((0, None), s1) else ((0, Some e), s1)
           | (Inr (cur, _), s1) \<Rightarrow>
               (case Replay js m \<lparr>lr_FromSeq = 0, lr_Since = 0, lr_Limit = 0, lr_FilterTaskID = taskID\<rparr> s1 of
                  ((_, Some e), s2) \<Rightarrow> ((0, Some e), s2)
                | ((envs, None), s2) \<Rightarrow>
                    if length envs \<le> PerTaskEventCap \<and> \<not> shouldCompactByTime envs (js_Now js s2)
                    then ((0, None), s2)
                    else doCompactPerTask js m taskID cur envs s2))"

section \<open>Replayed events keep the bucket valid\<close>

lemma applyFieldChange_wf: "applyFieldChange t ch = Some t' \<Longrightarrow> wf_Task t \<Longrightarrow> wf_Task t'"
  by (auto simp: applyFieldChange_def jsonInto_def wf_Task_def dest: into_strmap_distinct split: if_splits)

lemma applyFieldChanges_wf: "applyFieldChanges t chs = Some t' \<Longrightarrow> wf_Task t \<Longrightarrow> wf_Task t'"
  by (induction t chs rule: applyFieldChanges.induct)
    (auto split: option.splits dest: applyFieldChange_wf)

lemma wf_replays [simp]:
  "wf_mutator (slot_replay env)" "wf_mutator (claimed_replay env cl)" "wf_mutator (unclaimed_replay env)"
  "wf_mutator (linked_replay env lp)" "wf_mutator (closed_replay env cp)" "wf_mutator (seq_mutator q)"
  by (auto simp: wf_mutator_def slot_replay_def claimed_replay_def unclaimed_replay_def linked_replay_def
      closed_replay_def seq_mutator_def wf_Task_def Let_def)

lemma wf_updated_replay [simp]: "wf_mutator (updated_replay env up)"
  unfolding wf_mutator_def
proof (intro allI impI)
  fix now t u
  assume t: "wf_Task t" and u: "updated_replay env up now t = Inr u"
  then obtain t' where "applyFieldChanges t (upd_Changes up) = Some t'"
    and "u = t'\<lparr>t_UpdatedAt := ev_Timestamp env, t_LastEventSeq := ev_StreamSeq env\<rparr>"
    by (auto simp: updated_replay_def split: option.splits)
  then show "wf_Task u" using applyFieldChanges_wf [OF _ t] by (simp add: wf_Task_def)
qed

lemma into_fields_task_wf: "into_fields task_field kjs t = Some t' \<Longrightarrow> wf_Task t \<Longrightarrow> wf_Task t'"
  by (erule into_fields_inv) (auto dest: task_field_wf)

lemma into_task_ptr_wf:
  assumes "into_task_ptr old j = Some (Some t)" and "\<And>x. old = Some x \<Longrightarrow> wf_Task x"
  shows "wf_Task t"
proof -
  have z: "wf_Task (case old of None \<Rightarrow> zero_Task | Some x \<Rightarrow> x)"
    using assms(2) by (auto simp: zero_Task_def wf_Task_def split: option.splits)
  show ?thesis using assms(1) z by (cases j) (auto dest: into_fields_task_wf)
qed

lemma created_field_wf:
  assumes "created_field k j p = Some p'" and "\<forall>t. cp_Snapshot p = Some t \<longrightarrow> wf_Task t"
  shows "\<forall>t. cp_Snapshot p' = Some t \<longrightarrow> wf_Task t"
proof -
  consider "cp_Snapshot p' = cp_Snapshot p"
    | x where "into_task_ptr (cp_Snapshot p) j = Some x" and "cp_Snapshot p' = x"
    using assms(1) by (auto simp: created_field_def split: if_splits)
  then show ?thesis
  proof cases
    case 1 then show ?thesis using assms(2) by simp
  next
    case 2 then show ?thesis using assms(2) into_task_ptr_wf by metis
  qed
qed

lemma DecodePayload_created_wf:
  assumes "DecodePayload env = Inr (PCreated c)" and "cp_Snapshot c = Some t"
  shows "wf_Task t"
proof -
  let ?z = "\<lparr>cp_Title = [], cp_Slot = [], cp_Files = [], cp_Snapshot = None\<rparr> :: CreatedPayload"
  have i: "into_struct created_field ?z (ev_Payload env) = Some c"
    using assms(1) by (auto simp: DecodePayload_def split: if_splits option.splits)
  have "\<forall>t. cp_Snapshot c = Some t \<longrightarrow> wf_Task t"
  proof (cases "ev_Payload env")
    case (JObj kjs)
    with i have "into_fields created_field kjs ?z = Some c" by simp
    then show ?thesis
      by (rule into_fields_inv [where P = "\<lambda>p. \<forall>t. cp_Snapshot p = Some t \<longrightarrow> wf_Task t"])
        (simp, rule created_field_wf)
  qed (use i in auto)
  with assms(2) show ?thesis by blast
qed

lemma marker_valid: "valid_Task (migration_marker now)" "wf_Task (migration_marker now)"
  by (simp_all add: migration_marker_def valid_Task_def validStatus_def zero_Task_def wf_Task_def)

context task_bucket
begin

lemma aw_update_keeps: "aw_update js m i f s = (r, s') \<Longrightarrow> ok s \<Longrightarrow> wf_mutator f \<Longrightarrow> ok s'"
proof -
  assume a: "aw_update js m i f s = (r, s')" and o: "ok s" and f: "wf_mutator f"
  obtain y s1 where u: "tasks_update js m i f s = (y, s1)" by fastforce
  have "ok s1" using u o by (rule tasks_update_keeps) (rule wf_mutatorD [OF f])
  moreover have "s' = s1" using a u by (auto simp: aw_update_def admin_defs split: sum.splits)
  ultimately show ?thesis by simp
qed

lemma applyCreatedEvent_keeps:
  assumes "applyCreatedEvent js m env s = (r, s')" and "ok s"
  shows "ok s'"
proof (cases "\<exists>c. DecodePayload env = Inr (PCreated c)")
  case True
  then obtain c where c: "DecodePayload env = Inr (PCreated c)" by blast
  show ?thesis
  proof (cases "cp_Snapshot c")
    case None
    have "wf_Task (created_record env c)" by (simp add: created_record_def wf_Task_def zero_Task_def)
    then show ?thesis
      using assms c None tasks_create_keeps [of "created_record env c" s]
      by (auto simp: applyCreatedEvent_def admin_defs split: sum.splits prod.splits if_splits)
  next
    case (Some t)
    let ?snap = "t\<lparr>t_LastEventSeq := ev_StreamSeq env\<rparr>"
    have w: "wf_Task ?snap" using DecodePayload_created_wf [OF c Some] by (simp add: wf_Task_def)
    obtain y s1 where cr: "tasks_create js m ?snap s = (y, s1)" by fastforce
    have "ok s1" using cr assms(2) w by (rule tasks_create_keeps)
    moreover have "wf_mutator (\<lambda>now t. Inr ?snap)" using w by (simp add: wf_mutator_def)
    ultimately show ?thesis
      using assms(1) c Some cr aw_update_keeps
      by (auto simp: applyCreatedEvent_def admin_defs Let_def split: sum.splits if_splits)
  qed
qed (use assms in \<open>auto simp: applyCreatedEvent_def split: sum.splits payload.splits\<close>)

lemma applyEvent_keeps: "applyEvent js m env s = (r, s') \<Longrightarrow> ok s \<Longrightarrow> ok s'"
  by (auto simp: applyEvent_def applyClaimedEvent_def applyUnclaimedEvent_def applyUpdatedEvent_def
      applyLinkedEvent_def applyClosedEvent_def
      split: if_splits sum.splits payload.splits
      elim: applyCreatedEvent_keeps aw_update_keeps)

lemma replay_msgs_keeps: "replay_msgs js m msgs mp n s = (r, s') \<Longrightarrow> ok s \<Longrightarrow> ok s'"
proof (induction msgs arbitrary: mp n s)
  case (Cons msg msgs)
  show ?case
  proof (cases "UnmarshalEnvelope (msg_Data msg)")
    case (Some env0)
    let ?env = "env0\<lparr>ev_StreamSeq := msg_Sequence msg\<rparr>"
    obtain y s1 where a: "applyEvent js m ?env s = (y, s1)" by fastforce
    have o1: "ok s1" using a Cons.prems(2) by (rule applyEvent_keeps)
    obtain z s2 where g: "tasks_Get js m (ev_TaskID ?env) s1 = (z, s2)" by fastforce
    have "ok s2" using g o1 by (rule tasks_Get_keeps)
    with Cons a g o1 Some show ?thesis
      by (auto simp: Let_def split: if_splits sum.splits prod.splits)
  qed (use Cons in simp)
qed simp

lemma drainAndReplay_keeps: "drainAndReplay js m fs mp n s = (r, s') \<Longrightarrow> ok s \<Longrightarrow> ok s'"
proof (induction fs arbitrary: mp n s)
  case (Cons f fs)
  show ?case
  proof (cases f)
    case (FetchBatch msgs berr)
    obtain n' mp' x s1 where m: "replay_msgs js m msgs mp n s = ((n', mp', x), s1)" by (metis prod_cases3 surj_pair)
    have "ok s1" using m Cons.prems(2) by (rule replay_msgs_keeps)
    with Cons m FetchBatch show ?thesis by (auto split: option.splits if_splits)
  qed (use Cons in simp)
qed simp

lemma snapshotTasks_keeps: "snapshotTasks js m s = (r, s') \<Longrightarrow> ok s \<Longrightarrow> ok s'"
  using tasks_List_keeps(1) [of s]
  by (auto simp: snapshotTasks_def split: sum.splits prod.splits)

lemma consumer_keeps: "js_Consumer js s subj pol = (r, s') \<Longrightarrow> ok s \<Longrightarrow> ok s'"
  using consumer_ok [of s subj pol _ s'] consumer_err [of s subj pol _ s'] stable [of s s']
  by (cases r) auto

lemma Recover_keeps:
  assumes "Recover js m s = (r, s')" and "ok s"
  shows "ok s'"
proof -
  obtain y s1 where sn: "snapshotTasks js m s = (y, s1)" by fastforce
  have o1: "ok s1" using sn assms(2) by (rule snapshotTasks_keeps)
  obtain z s2 where c: "js_Consumer js s1 AllEventsSubject DeliverAllPolicy = (z, s2)" by fastforce
  have o2: "ok s2" using c o1 by (rule consumer_keeps)
  show ?thesis
    using assms sn c o1 o2 drainAndReplay_keeps [OF _ o2]
    by (auto simp: Recover_def split: if_splits sum.splits)
qed

lemma publish_keeps: "js_Publish js s subj j = (r, s') \<Longrightarrow> ok s \<Longrightarrow> ok s'"
  using publish_ok [of s subj j _ s'] publish_err [of s subj j _ s'] stable [of s]
  by (cases r) (metis, metis)

lemma emit_one_keeps: "emit_one js m et i p ts s = (r, s') \<Longrightarrow> ok s \<Longrightarrow> ok s'"
  by (auto simp: emit_one_def publishMigrationEnvelope_def split: sum.splits prod.splits dest: publish_keeps)

lemma emit_all_keeps: "emit_all js m i evs q n s = (r, s') \<Longrightarrow> ok s \<Longrightarrow> ok s'"
proof (induction evs arbitrary: q n s)
  case (Cons ev evs)
  obtain et p ts where [simp]: "ev = (et, p, ts)" by (metis prod_cases3)
  obtain y s1 where e: "emit_one js m et i p ts s = (y, s1)" by fastforce
  have "ok s1" using e Cons.prems(2) by (rule emit_one_keeps)
  with Cons e show ?case by (auto split: sum.splits)
qed simp

lemma emitSyntheticEvents_keeps: "emitSyntheticEvents js m ts n s = (r, s') \<Longrightarrow> ok s \<Longrightarrow> ok s'"
proof (induction ts arbitrary: n s)
  case (Cons t ts)
  obtain n' y s1 where e: "emit_all js m (t_ID t) (synthetic_events t) 0 n s = ((n', y), s1)" by (metis prod.collapse)
  have o1: "ok s1" using e Cons.prems(2) by (rule emit_all_keeps)
  have "ok s2" if "aw_update js m (t_ID t) (seq_mutator q) s1 = (z, s2)" for q z s2
    using that o1 by (rule aw_update_keeps) simp
  with Cons e o1 show ?case by (auto split: if_splits sum.splits prod.splits)
qed simp

lemma isMigrated_keeps: "isMigrated js m s = (r, s') \<Longrightarrow> ok s \<Longrightarrow> ok s'"
proof -
  assume i: "isMigrated js m s = (r, s')" and o: "ok s"
  have "ok s1" if "js_Get js s (m_bucket m) migrationMarkerKey = (y, s1)" for y s1
    using that get_ok get_err stable [OF _ o] by (cases y) metis+
  with i show ?thesis by (auto simp: isMigrated_def split: sum.splits prod.splits if_splits)
qed

lemma setMigrated_keeps: "setMigrated js m s = (r, s') \<Longrightarrow> ok s \<Longrightarrow> ok s'"
proof -
  assume i: "setMigrated js m s = (r, s')" and o: "ok s"
  let ?mk = "migration_marker (js_Now js s)"
  have w: "ok s2" if "ok s1" "wrote ob s1 s2 (m_bucket m) migrationMarkerKey (put_entry (encode ?mk) q)" for s1 s2 q
    using that marker_valid [of "js_Now js s"] decode_encode [of ?mk]
    by (auto simp: wrote_def bucket_ok_def entry_ok_def view_put_def)
  have "ok s1" if "js_Put js s (m_bucket m) migrationMarkerKey (encode ?mk) = (y, s1)" for y s1
    using that put_ok put_err stable [OF _ o] w by (cases y) (metis, metis)
  with i show ?thesis by (auto simp: setMigrated_def split: sum.splits prod.splits)
qed

lemma Migrate_keeps:
  assumes "Migrate js m s = (r, s')" and "ok s"
  shows "ok s'"
proof -
  obtain y s1 where i: "isMigrated js m s = (y, s1)" by fastforce
  have o1: "ok s1" using i assms(2) by (rule isMigrated_keeps)
  obtain z s2 where l: "tasks_List js m s1 = (z, s2)" by fastforce
  have o2: "ok s2" using l o1 by (rule tasks_List_keeps)
  have e: "ok s3" "setMigrated js m s3 = (v, s4) \<Longrightarrow> ok s4"
    if "emitSyntheticEvents js m ts 0 s2 = ((n, x), s3)" for ts n x s3 v s4
    using emitSyntheticEvents_keeps [OF that o2] setMigrated_keeps by blast+
  consider "s' = s \<or> s' = s1 \<or> s' = s2"
    | ts n x s3 where "emitSyntheticEvents js m ts 0 s2 = ((n, x), s3)" and
      "s' = s3 \<or> (\<exists>v. setMigrated js m s3 = (v, s'))"
    using assms(1) i l
    by (auto simp: Migrate_def split: if_splits sum.splits bool.splits prod.splits option.splits)
  then show ?thesis
  proof cases
    case 1 then show ?thesis using assms(2) o1 o2 by auto
  next
    case 2 then show ?thesis using e by blast
  qed
qed

lemma tasks_Open_keeps:
  assumes "tasks_Open js kv strm cfg s = (Inr m, s')" and "ok s"
  shows "ok s'"
proof -
  consider "s' = s" | r where "Migrate js m s = (r, s')"
    | r s1 r' where "Migrate js m s = (r, s1)" and "Recover js m s1 = (r', s')"
    using assms(1)
    by (auto simp: tasks_Open_def Let_def split: if_splits sum.splits prod.splits option.splits)
  then show ?thesis
    using assms(2) Migrate_keeps Recover_keeps by cases (simp, blast, blast)
qed

lemma Replay_keeps: "Replay js m opts s = (r, s') \<Longrightarrow> ok s \<Longrightarrow> ok s'"
  by (auto simp: Replay_def split: if_splits sum.splits prod.splits dest: consumer_keeps)

lemma doCompactPerTask_keeps:
  assumes "doCompactPerTask js m i cur envs s = (r, s')" and "ok s"
  shows "ok s'"
proof -
  have p: "ok s2" if "ok s1" "js_PurgeSubject js s1 subj k = (y, s2)" for s1 subj k y s2
    using purge_subject [OF that(2)] stable [OF _ that(1)] by metis
  show ?thesis
    using assms by (auto simp: doCompactPerTask_def split: sum.splits prod.splits dest!: publish_keeps p [rotated])
qed

lemma CompactPerTask_keeps:
  assumes "CompactPerTask js m i s = (r, s')" and "ok s"
  shows "ok s'"
proof -
  obtain y s1 where g: "tasks_Get js m i s = (y, s1)" by fastforce
  have o1: "ok s1" using g assms(2) by (rule tasks_Get_keeps)
  obtain es x s2 where l: "Replay js m \<lparr>lr_FromSeq = 0, lr_Since = 0, lr_Limit = 0, lr_FilterTaskID = i\<rparr> s1 = ((es, x), s2)"
    by (metis prod.collapse)
  have o2: "ok s2" using l o1 by (rule Replay_keeps)
  show ?thesis
    using assms g l o1 o2
    by (auto simp: CompactPerTask_def split: if_splits sum.splits option.splits dest!: doCompactPerTask_keeps)
qed

end

end
