(* ===== verification/Task_Crash.thy ===== *)
theory Task_Crash
  imports Task_Recovery
begin

text \<open>
  Recovery against the in-memory substrate. A bucket is in step with the log when every event of
  the log is covered by the sequence number stamped on its task's record. Recovery leaves such a
  bucket alone; after a crash between the publication of an event and the write of its record it
  replays that one event and the bucket is in step again; an event the record does not admit stops
  it.
\<close>

section \<open>Buckets in step with the log\<close>

text \<open>Every live entry is a record of the current schema, stored under its own ID.\<close>

definition current :: "Manager \<Rightarrow> mem \<Rightarrow> bool" where
  "current m s =
     (\<forall>k e. mem_view s (m_bucket m) k = Some e \<longrightarrow> e_Operation e = KeyValuePut \<longrightarrow>
        (\<exists>t. decode (e_Value e) = Some t \<and> t_ID t = k \<and> t_SchemaVersion t \<ge> SchemaVersion))"

definition covered_by :: "Manager \<Rightarrow> mem \<Rightarrow> stream_msg \<Rightarrow> bool" where
  "covered_by m s msg =
     (case UnmarshalEnvelope (msg_Data msg) of
        None \<Rightarrow> True
      | Some env \<Rightarrow>
          ev_TaskID env \<noteq> migrationMarkerKey \<and>
          (case record_at (mem_view s) (m_bucket m) (ev_TaskID env) of
             None \<Rightarrow> False
           | Some t \<Rightarrow> msg_Sequence msg \<le> t_LastEventSeq t))"

definition in_step :: "Manager \<Rightarrow> mem \<Rightarrow> bool" where
  "in_step m s = (\<forall>msg \<in> set (mem_strm s). covered_by m s msg)"

lemma migrate_current: "t_SchemaVersion t \<ge> SchemaVersion \<Longrightarrow> migrateDecodedTask t = (t, False)"
  by (simp add: migrateDecodedTask_def)

lemma current_entry:
  assumes "current m s" and "mem_view s (m_bucket m) k = Some e" and "e_Operation e = KeyValuePut"
  obtains t where "decode (e_Value e) = Some t" and "t_ID t = k" and "t_SchemaVersion t \<ge> SchemaVersion"
    and "record_at (mem_view s) (m_bucket m) k = Some t"
proof -
  from assms obtain t where t: "decode (e_Value e) = Some t" "t_ID t = k" "t_SchemaVersion t \<ge> SchemaVersion"
    by (auto simp: current_def)
  then have "record_at (mem_view s) (m_bucket m) k = Some t"
    using record_at_entry [of "mem_view s" "m_bucket m" k e t] assms(2,3) by (simp add: migrate_current)
  with t show ?thesis by (rule that)
qed

lemma record_live: "record_at v b k = Some t \<Longrightarrow> \<exists>e. v b k = Some e \<and> e_Operation e = KeyValuePut"
  by (auto simp: record_at_def split: option.splits if_splits)

lemma current_record:
  assumes "current m s" and "record_at (mem_view s) (m_bucket m) k = Some t"
  obtains e where "mem_view s (m_bucket m) k = Some e" and "e_Operation e = KeyValuePut"
    and "decode (e_Value e) = Some t" and "t_ID t = k" and "t_SchemaVersion t \<ge> SchemaVersion"
proof -
  from record_live [OF assms(2)] obtain e where e: "mem_view s (m_bucket m) k = Some e" "e_Operation e = KeyValuePut"
    by blast
  from assms(1) e obtain t' where t': "decode (e_Value e) = Some t'" "t_ID t' = k" "t_SchemaVersion t' \<ge> SchemaVersion"
    "record_at (mem_view s) (m_bucket m) k = Some t'" by (rule current_entry)
  with assms(2) have "t' = t" by simp
  with e t' show ?thesis using that by blast
qed

lemma current_write:
  "current m s \<Longrightarrow> wf_Task u \<Longrightarrow> t_ID u = i \<Longrightarrow> t_SchemaVersion u \<ge> SchemaVersion \<Longrightarrow>
   current m (mem_write s (m_bucket m) i KeyValuePut (encode u))"
  by (auto simp: current_def mem_view_write view_put_def decode_encode)

lemma current_published [simp]: "current m (mem_published s et i p) = current m s"
  by (simp add: current_def)

lemma record_at_write:
  "wf_Task u \<Longrightarrow> t_SchemaVersion u \<ge> SchemaVersion \<Longrightarrow>
   record_at (mem_view (mem_write s b i KeyValuePut (encode u))) b i = Some u"
  using record_at_put [of u "mem_view s" b i "Suc (mem_rev s)"]
  by (simp add: mem_view_write put_entry_def migrate_current)

lemma record_at_write_other:
  "b' \<noteq> b \<or> k \<noteq> i \<Longrightarrow> record_at (mem_view (mem_write s b i oper j)) b' k = record_at (mem_view s) b' k"
  by (simp add: mem_view_write)

lemma covered_published [simp]: "covered_by m (mem_published s et i p) msg = covered_by m s msg"
  by (auto simp: covered_by_def split: option.splits)

text \<open>A write that does not lower the sequence number of its record keeps the bucket in step.\<close>

lemma covered_write:
  assumes "covered_by m s msg" and "record_at (mem_view s) (m_bucket m) i = Some t"
    and "wf_Task u" and "t_SchemaVersion u \<ge> SchemaVersion" and "t_LastEventSeq t \<le> t_LastEventSeq u"
  shows "covered_by m (mem_write s (m_bucket m) i KeyValuePut (encode u)) msg"
proof (cases "UnmarshalEnvelope (msg_Data msg)")
  case (Some env)
  then show ?thesis
    using assms record_at_write [OF assms(3,4), of s "m_bucket m" i]
      record_at_write_other [of "m_bucket m" "m_bucket m" "ev_TaskID env" i s KeyValuePut "encode u"]
    by (cases "ev_TaskID env = i") (auto simp: covered_by_def split: option.splits)
qed (simp add: covered_by_def)

lemma covered_write_new:
  assumes "covered_by m s msg" and "record_at (mem_view s) (m_bucket m) i = None"
  shows "covered_by m (mem_write s (m_bucket m) i oper j) msg"
proof (cases "UnmarshalEnvelope (msg_Data msg)")
  case (Some env)
  then show ?thesis
    using assms record_at_write_other [of "m_bucket m" "m_bucket m" "ev_TaskID env" i s oper j]
    by (cases "ev_TaskID env = i") (auto simp: covered_by_def)
qed (simp add: covered_by_def)

section \<open>The event just published\<close>

definition replay_env :: "mem \<Rightarrow> EventType \<Rightarrow> string \<Rightarrow> payload \<Rightarrow> EventEnvelope" where
  "replay_env s et i p =
     \<lparr>ev_Type = et, ev_TaskID = i, ev_Timestamp = logged (mem_now s), ev_Payload = marshal_payload p,
      ev_StreamSeq = Suc (length (mem_stream s))\<rparr>"

lemma replay_env_simps [simp]:
  "ev_Type (replay_env s et i p) = et" "ev_TaskID (replay_env s et i p) = i"
  "ev_Timestamp (replay_env s et i p) = logged (mem_now s)"
  "ev_Payload (replay_env s et i p) = marshal_payload p"
  "ev_StreamSeq (replay_env s et i p) = Suc (length (mem_stream s))"
  by (simp_all add: replay_env_def)

lemma DecodePayload_replay_env [simp]:
  "wf_payload p \<Longrightarrow> et = event_type_of p \<Longrightarrow> DecodePayload (replay_env s et i p) = Inr p"
  by (simp add: DecodePayload_marshal)

lemma mem_strm_published:
  "\<exists>msg. mem_strm (mem_published s et i p) = mem_strm s @ [msg] \<and>
     msg_Sequence msg = Suc (length (mem_stream s)) \<and> msg_Subject msg = EventSubject i \<and>
     (\<exists>env. UnmarshalEnvelope (msg_Data msg) = Some env \<and>
        env\<lparr>ev_StreamSeq := msg_Sequence msg\<rparr> = replay_env s et i p)"
  by (simp add: mem_published_def mem_strm_def number_msgs_append UnmarshalEnvelope_Marshal replay_env_def)

lemma mem_strm_seq: "msg \<in> set (mem_strm s) \<Longrightarrow> msg_Sequence msg \<le> length (mem_stream s)"
  using number_msgs_seq [of msg 0 "mem_stream s"] by (simp add: mem_strm_def)

lemma in_step_commit:
  assumes s: "in_step m s" and i: "i \<noteq> migrationMarkerKey"
    and u: "wf_Task u" "t_SchemaVersion u \<ge> SchemaVersion" "t_LastEventSeq u = Suc (length (mem_stream s))"
    and t: "\<And>t. record_at (mem_view s) (m_bucket m) i = Some t \<Longrightarrow> t_LastEventSeq t \<le> length (mem_stream s)"
  shows "in_step m (mem_write (mem_published s et i p) (m_bucket m) i KeyValuePut (encode u))"
    (is "in_step m ?s'")
proof -
  obtain msg env where msg: "mem_strm (mem_published s et i p) = mem_strm s @ [msg]"
    "msg_Sequence msg = Suc (length (mem_stream s))" "UnmarshalEnvelope (msg_Data msg) = Some env"
    "env\<lparr>ev_StreamSeq := msg_Sequence msg\<rparr> = replay_env s et i p"
    using mem_strm_published [of s et i p] by blast
  have "ev_TaskID (env\<lparr>ev_StreamSeq := msg_Sequence msg\<rparr>) = i" unfolding msg(4) by simp
  then have id: "ev_TaskID env = i" by simp
  have "covered_by m ?s' msg"
    using msg(2,3) id i u record_at_write [OF u(1,2)] by (simp add: covered_by_def)
  moreover have "covered_by m ?s' x" if "x \<in> set (mem_strm s)" for x
  proof -
    have c: "covered_by m (mem_published s et i p) x"
      using s that by (simp add: in_step_def)
    show ?thesis
    proof (cases "record_at (mem_view s) (m_bucket m) i")
      case None then show ?thesis by (intro covered_write_new [OF c]) simp
    next
      case (Some t')
      then show ?thesis using t [OF Some] u by (intro covered_write [OF c, of i t']) simp_all
    qed
  qed
  ultimately show ?thesis by (auto simp: in_step_def msg(1))
qed

section \<open>Reading a quiet bucket\<close>

lemma mem_readOne_quiet:
  assumes "quiet s" and "current m s" and "record_at (mem_view s) (m_bucket m) k = Some t"
  shows "readOne (mem_sys G) m k s = (Inr (if k = migrationMarkerKey then None else Some t), s)"
proof -
  from assms(2,3) obtain e where e: "mem_view s (m_bucket m) k = Some e" "e_Operation e = KeyValuePut"
    "decode (e_Value e) = Some t" "t_SchemaVersion t \<ge> SchemaVersion" by (rule current_record)
  show ?thesis
    using e mem_get_quiet [OF assms(1) e(1,2)] by (simp add: readOne_def migrateOnRead_def migrate_current)
qed

lemma mem_list_keys_quiet:
  assumes "quiet s" and "current m s" and "\<forall>k \<in> set ks. record_at (mem_view s) (m_bucket m) k \<noteq> None"
  shows "list_keys (mem_sys G) m ks s =
    (map (\<lambda>k. the (record_at (mem_view s) (m_bucket m) k)) (filter (\<lambda>k. k \<noteq> migrationMarkerKey) ks), s)"
  using assms(3)
proof (induction ks)
  case (Cons k ks)
  then obtain t where t: "record_at (mem_view s) (m_bucket m) k = Some t" by auto
  from Cons mem_readOne_quiet [OF assms(1,2) t, of G] t show ?case by simp
qed simp

definition knows :: "Manager \<Rightarrow> mem \<Rightarrow> projections \<Rightarrow> bool" where
  "knows m s mp =
     (\<forall>i. i \<noteq> migrationMarkerKey \<longrightarrow> map_of mp i = record_at (mem_view s) (m_bucket m) i)"

lemma foldl_update_keep:
  "i \<notin> t_ID ` set ts \<Longrightarrow> map_of (foldl (\<lambda>mp t. AList.update (t_ID t) t mp) mp ts) i = map_of mp i"
  by (induction ts arbitrary: mp) auto

lemma foldl_update_map_of:
  "distinct (map t_ID ts) \<Longrightarrow> t \<in> set ts \<Longrightarrow>
   map_of (foldl (\<lambda>mp t. AList.update (t_ID t) t mp) mp ts) (t_ID t) = Some t"
  by (induction ts arbitrary: mp) (auto simp: foldl_update_keep)

lemma mem_tasks_List_quiet:
  assumes "quiet s" and "current m s" and "\<not> m_done m"
  shows "\<exists>ts. tasks_List (mem_sys G) m s = (Inr ts, s) \<and> distinct (map t_ID ts) \<and>
    (\<forall>t. t \<in> set ts \<longleftrightarrow>
       t_ID t \<noteq> migrationMarkerKey \<and> record_at (mem_view s) (m_bucket m) (t_ID t) = Some t)"
proof -
  have rec: "record_at (mem_view s) (m_bucket m) k \<noteq> None \<longleftrightarrow> live (mem_view s (m_bucket m) k)" for k
  proof
    show "record_at (mem_view s) (m_bucket m) k \<noteq> None \<Longrightarrow> live (mem_view s (m_bucket m) k)"
      using record_live by fastforce
    assume "live (mem_view s (m_bucket m) k)"
    then obtain e where "mem_view s (m_bucket m) k = Some e" "e_Operation e = KeyValuePut"
      by (auto simp: live_def split: option.splits)
    with assms(2) show "record_at (mem_view s) (m_bucket m) k \<noteq> None"
      by (rule current_entry) simp
  qed
  have id: "t_ID t = k" if "record_at (mem_view s) (m_bucket m) k = Some t" for k t
    using assms(2) that by (rule current_record)
  obtain y s' where k: "mem_keys G s (m_bucket m) = (y, s')" by fastforce
  have s': "s' = s" using mem_keys_live(1) [OF k] assms(1) by simp
  show ?thesis
  proof (cases y)
    case (Inl x)
    then have "\<not> live (mem_view s (m_bucket m) k)" for k
      using mem_keys_live(3) [OF k] s' by blast
    moreover have "x = ErrNoKeysFound" using k Inl by (auto simp: mem_keys_def Let_def split: if_splits)
    ultimately show ?thesis
      using k s' Inl assms(3) rec by (auto simp: tasks_List_def)
  next
    case (Inr ks)
    then have ks: "distinct ks" "set ks = {k. live (mem_view s (m_bucket m) k)}"
      using mem_keys_live(2) [OF k] s' by blast+
    define at where "at = (\<lambda>k. the (record_at (mem_view s) (m_bucket m) k))"
    have some: "record_at (mem_view s) (m_bucket m) k = Some (at k)" if "k \<in> set ks" for k
      using that ks(2) rec [of k] by (auto simp: at_def)
    have l: "tasks_List (mem_sys G) m s = (Inr (map at (filter (\<lambda>k. k \<noteq> migrationMarkerKey) ks)), s)"
    proof -
      have "\<forall>k \<in> set ks. record_at (mem_view s) (m_bucket m) k \<noteq> None" using some by simp
      from mem_list_keys_quiet [OF assms(1,2) this, of G, folded at_def] show ?thesis
        using k s' Inr assms(3) by (simp add: tasks_List_def)
    qed
    have ids: "t_ID (at k) = k" if "k \<in> set ks" for k using id [OF some [OF that]] .
    then have "map (t_ID \<circ> at) (filter (\<lambda>k. k \<noteq> migrationMarkerKey) ks) = filter (\<lambda>k. k \<noteq> migrationMarkerKey) ks"
      by (intro map_idI) auto
    then have "distinct (map t_ID (map at (filter (\<lambda>k. k \<noteq> migrationMarkerKey) ks)))"
      using ks(1) by simp
    moreover have "t \<in> set (map at (filter (\<lambda>k. k \<noteq> migrationMarkerKey) ks)) \<longleftrightarrow>
      t_ID t \<noteq> migrationMarkerKey \<and> record_at (mem_view s) (m_bucket m) (t_ID t) = Some t" for t
    proof
      assume "t \<in> set (map at (filter (\<lambda>k. k \<noteq> migrationMarkerKey) ks))"
      then obtain k where "k \<in> set ks" "k \<noteq> migrationMarkerKey" "t = at k" by auto
      then show "t_ID t \<noteq> migrationMarkerKey \<and> record_at (mem_view s) (m_bucket m) (t_ID t) = Some t"
        using some ids by simp
    next
      assume t: "t_ID t \<noteq> migrationMarkerKey \<and> record_at (mem_view s) (m_bucket m) (t_ID t) = Some t"
      then have "t_ID t \<in> set ks" using rec [of "t_ID t"] ks(2) by simp
      moreover from this t some [of "t_ID t"] have "t = at (t_ID t)" by simp
      ultimately show "t \<in> set (map at (filter (\<lambda>k. k \<noteq> migrationMarkerKey) ks))"
        using t by auto
    qed
    ultimately show ?thesis using l by blast
  qed
qed

lemma mem_snapshot_quiet:
  assumes "quiet s" and "current m s" and "\<not> m_done m"
  obtains mp where "snapshotTasks (mem_sys G) m s = (Inr mp, s)" and "knows m s mp"
proof -
  from mem_tasks_List_quiet [OF assms, of G] obtain ts where
    l: "tasks_List (mem_sys G) m s = (Inr ts, s)" and d: "distinct (map t_ID ts)"
    and ts: "\<And>t. t \<in> set ts \<longleftrightarrow>
       t_ID t \<noteq> migrationMarkerKey \<and> record_at (mem_view s) (m_bucket m) (t_ID t) = Some t" by blast
  let ?mp = "foldl (\<lambda>mp t. AList.update (t_ID t) t mp) [] ts"
  have "map_of ?mp i = record_at (mem_view s) (m_bucket m) i" if i: "i \<noteq> migrationMarkerKey" for i
  proof (cases "record_at (mem_view s) (m_bucket m) i")
    case None
    then have "t_ID t \<noteq> i" if "t \<in> set ts" for t using ts [of t] that by auto
    then have "i \<notin> t_ID ` set ts" by blast
    with None show ?thesis by (simp add: foldl_update_keep)
  next
    case (Some t)
    have "t_ID t = i" using assms(2) Some by (rule current_record)
    with Some i ts [of t] have "t \<in> set ts" by simp
    with foldl_update_map_of [OF d this] Some \<open>t_ID t = i\<close> show ?thesis by simp
  qed
  then have "knows m s ?mp" by (simp add: knows_def)
  with l show ?thesis using that by (simp add: snapshotTasks_def)
qed

section \<open>Recovery\<close>

lemma replay_covered:
  assumes "\<forall>msg \<in> set msgs. covered_by m s msg" and "knows m s mp"
  shows "replay_msgs js m (msgs @ rest) mp n s0 = replay_msgs js m rest mp n s0"
  using assms(1)
proof (induction msgs)
  case (Cons msg msgs)
  show ?case
  proof (cases "UnmarshalEnvelope (msg_Data msg)")
    case (Some env)
    with Cons.prems obtain t where "record_at (mem_view s) (m_bucket m) (ev_TaskID env) = Some t"
      and "msg_Sequence msg \<le> t_LastEventSeq t" and "ev_TaskID env \<noteq> migrationMarkerKey"
      by (auto simp: covered_by_def split: option.splits)
    with assms(2) have "map_of mp (ev_TaskID env) = Some t" by (simp add: knows_def)
    with Cons Some \<open>msg_Sequence msg \<le> t_LastEventSeq t\<close> show ?thesis by simp
  qed (use Cons in simp)
qed simp

lemma mem_Recover_quiet:
  assumes "quiet s" and "current m s" and "\<not> m_done m" and "m_stream m"
  obtains mp where "knows m s mp" and
    "Recover (mem_sys G) m s =
     drainAndReplay (mem_sys G) m
       [FetchBatch (filter (\<lambda>x. subject_matches AllEventsSubject (msg_Subject x)) (mem_strm s)) None,
        FetchBatch [] None] mp 0 s"
proof -
  obtain mp where "snapshotTasks (mem_sys G) m s = (Inr mp, s)" "knows m s mp"
    using assms(1-3) by (rule mem_snapshot_quiet)
  then show ?thesis
    using that assms(1,4) by (simp add: Recover_def mem_consumer_def Let_def)
qed

lemma Recover_in_step:
  assumes "quiet s" and "current m s" and "\<not> m_done m" and "m_stream m" and "in_step m s"
  shows "Recover (mem_sys G) m s = ((0, None), s)"
proof -
  obtain mp where mp: "knows m s mp" and
    r: "Recover (mem_sys G) m s =
     drainAndReplay (mem_sys G) m
       [FetchBatch (filter (\<lambda>x. subject_matches AllEventsSubject (msg_Subject x)) (mem_strm s)) None,
        FetchBatch [] None] mp 0 s"
    using assms(1-4) by (rule mem_Recover_quiet)
  have "replay_msgs (mem_sys G) m
      (filter (\<lambda>x. subject_matches AllEventsSubject (msg_Subject x)) (mem_strm s) @ []) mp 0 s = ((0, mp, None), s)"
    by (subst replay_covered [OF _ mp]) (use assms(5) in \<open>auto simp: in_step_def\<close>)
  with r show ?thesis by simp
qed

text \<open>One event beyond the records: it is replayed, and its outcome is that of the recovery.\<close>

lemma Recover_orphan:
  assumes s: "quiet s" "current m s" "\<not> m_done m" "m_stream m" "in_step m s"
    and i: "i \<noteq> []" "i \<noteq> migrationMarkerKey"
    and fresh: "\<And>t. record_at (mem_view s) (m_bucket m) i = Some t \<Longrightarrow> t_LastEventSeq t \<le> length (mem_stream s)"
  shows "Recover (mem_sys G) m (mem_published s et i p) =
    (case applyEvent (mem_sys G) m (replay_env s et i p) (mem_published s et i p) of
       (Inl e, s1) \<Rightarrow> ((0, Some e), s1)
     | (Inr _, s1) \<Rightarrow>
         (case tasks_Get (mem_sys G) m i s1 of
            (Inr _, s2) \<Rightarrow> ((1, None), s2)
          | (Inl e, s2) \<Rightarrow> if is_panic e then ((1, Some e), s2) else ((1, None), s2)))"
proof -
  let ?s1 = "mem_published s et i p"
  obtain msg env where msg: "mem_strm ?s1 = mem_strm s @ [msg]"
    "msg_Sequence msg = Suc (length (mem_stream s))" "msg_Subject msg = EventSubject i"
    "UnmarshalEnvelope (msg_Data msg) = Some env" "env\<lparr>ev_StreamSeq := msg_Sequence msg\<rparr> = replay_env s et i p"
    using mem_strm_published [of s et i p] by blast
  obtain mp where mp: "knows m ?s1 mp" and
    r: "Recover (mem_sys G) m ?s1 =
     drainAndReplay (mem_sys G) m
       [FetchBatch (filter (\<lambda>x. subject_matches AllEventsSubject (msg_Subject x)) (mem_strm ?s1)) None,
        FetchBatch [] None] mp 0 ?s1"
    using s(1-4) mem_Recover_quiet [of ?s1 m G] by auto
  have k: "knows m s mp" using mp by (simp add: knows_def)
  let ?old = "filter (\<lambda>x. subject_matches AllEventsSubject (msg_Subject x)) (mem_strm s)"
  have f: "filter (\<lambda>x. subject_matches AllEventsSubject (msg_Subject x)) (mem_strm ?s1) = ?old @ [msg]"
    using EventSubject_matches [OF i(1)] by (simp add: msg(1,3))
  have c: "replay_msgs (mem_sys G) m (?old @ [msg]) mp 0 ?s1 = replay_msgs (mem_sys G) m [msg] mp 0 ?s1"
    by (rule replay_covered [OF _ k]) (use s(5) in \<open>auto simp: in_step_def\<close>)
  have "ev_TaskID (env\<lparr>ev_StreamSeq := msg_Sequence msg\<rparr>) = i" unfolding msg(5) by simp
  then have id: "ev_TaskID env = i" by simp
  have g: "(case map_of mp i of None \<Rightarrow> False
      | Some cur \<Rightarrow> ev_StreamSeq (replay_env s et i p) \<le> t_LastEventSeq cur) = False"
    using k i(2) fresh by (fastforce simp: knows_def split: option.splits)
  show ?thesis
    unfolding r f
    by (simp only: drainAndReplay.simps c replay_msgs.simps msg(4,5) option.case Let_def replay_env_simps(2) g)
      (auto split: sum.splits prod.splits)
qed

section \<open>Settled buckets\<close>

text \<open>
  A settled substrate: no other process is active, the records are current, in step with the log and
  not ahead of it. Committed transactions keep it settled.
\<close>

definition settled :: "Manager \<Rightarrow> mem \<Rightarrow> bool" where
  "settled m s =
     (quiet s \<and> current m s \<and> in_step m s \<and>
      (\<forall>k t. record_at (mem_view s) (m_bucket m) k = Some t \<longrightarrow> t_LastEventSeq t \<le> length (mem_stream s)))"

lemma settledD:
  assumes "settled m s"
  shows "quiet s" "current m s" "in_step m s"
    and "record_at (mem_view s) (m_bucket m) k = Some t \<Longrightarrow> t_LastEventSeq t \<le> length (mem_stream s)"
  using assms by (auto simp: settled_def)

lemma settled_empty: "settled m (mem_empty t [])"
  by (simp add: settled_def quiet_def current_def in_step_def mem_empty_def mem_view_def mem_strm_def record_at_def)

lemma settled_commit:
  assumes "settled m s" and "i \<noteq> migrationMarkerKey" and "wf_Task u" and "t_ID u = i"
    and "t_SchemaVersion u \<ge> SchemaVersion" and "t_LastEventSeq u = Suc (length (mem_stream s))"
  shows "settled m (mem_write (mem_published s et i p) (m_bucket m) i KeyValuePut (encode u))" (is "settled m ?s'")
proof -
  note st = settledD [OF assms(1)]
  have len: "length (mem_stream ?s') = Suc (length (mem_stream s))"
    by (simp add: mem_write_def mem_published_def)
  have "in_step m ?s'" by (rule in_step_commit) (use st assms in auto)
  moreover have "current m ?s'" by (rule current_write) (use st assms in auto)
  moreover have "t_LastEventSeq t \<le> length (mem_stream ?s')"
    if "record_at (mem_view ?s') (m_bucket m) k = Some t" for k t
  proof (cases "k = i")
    case True
    with that record_at_write [OF assms(3,5)] have "t = u" by simp
    then show ?thesis by (simp add: len assms(6))
  next
    case False
    with that st(4) [of k t] show ?thesis by (simp add: record_at_write_other len)
  qed
  ultimately show ?thesis using st(1) by (simp add: settled_def)
qed

lemma settled_record:
  assumes "settled m s" and "record_at (mem_view s) (m_bucket m) i = Some t"
  obtains e where "quiet s" "mem_view s (m_bucket m) i = Some e" "e_Operation e = KeyValuePut"
    "decode (e_Value e) = Some t" "t_SchemaVersion t \<ge> SchemaVersion" "t_ID t = i" "wf_Task t"
  using current_record [OF settledD(2) [OF assms(1)] assms(2)] settledD(1) [OF assms(1)] decode_wf by metis

text \<open>A transaction that commits: the event is on the log, the record carries its number.\<close>

lemma tx_apply_settled:
  assumes "settled m s" and "record_at (mem_view s) (m_bucket m) i = Some t"
    and "i \<noteq> []" and "i \<noteq> migrationMarkerKey" and "\<not> m_done m" and "m_stream m" and "EventType_Valid et"
    and "w (Suc (length (mem_stream s))) (mem_now s) t = Inr u" and "valid_Task u" and "lifecycle t u"
    and "encodeBounded (mem_sys G) m u = Inr (encode u)"
    and "wf_Task u" and "t_ID u = i" and "t_SchemaVersion u = t_SchemaVersion t"
    and "t_LastEventSeq u = Suc (length (mem_stream s))"
  shows "tx_apply (mem_sys G) m i et p w tx s =
      (Inr u, tx, mem_write (mem_published s et i p) (m_bucket m) i KeyValuePut (encode u))"
    and "settled m (mem_write (mem_published s et i p) (m_bucket m) i KeyValuePut (encode u))"
    and "record_at (mem_view (mem_write (mem_published s et i p) (m_bucket m) i KeyValuePut (encode u))) (m_bucket m) i = Some u"
proof -
  obtain e where e: "quiet s" "mem_view s (m_bucket m) i = Some e" "e_Operation e = KeyValuePut"
    "decode (e_Value e) = Some t" "t_SchemaVersion t \<ge> SchemaVersion"
    using assms(1,2) by (rule settled_record)
  let ?s' = "mem_write (mem_published s et i p) (m_bucket m) i KeyValuePut (encode u)"
  show "tx_apply (mem_sys G) m i et p w tx s = (Inr u, tx, ?s')"
    by (rule mem_tx_apply_quiet [where e = e and t = t]) (use assms e in simp_all)
  show "settled m ?s'"
    by (rule settled_commit) (use assms e in simp_all)
  show "record_at (mem_view ?s') (m_bucket m) i = Some u"
    by (rule record_at_write) (use assms e in simp_all)
qed

section \<open>Crash between publication and write\<close>

text \<open>The closure recovery runs for a payload.\<close>

definition replay_mutator :: "EventEnvelope \<Rightarrow> payload \<Rightarrow> mutator" where
  "replay_mutator env p =
     (case p of PClaimed cl \<Rightarrow> claimed_replay env cl | PUnclaimed _ \<Rightarrow> unclaimed_replay env
      | PUpdated up \<Rightarrow> updated_replay env up | PLinked lp \<Rightarrow> linked_replay env lp
      | PClosed cp \<Rightarrow> closed_replay env cp | _ \<Rightarrow> slot_replay env)"

lemma applyEvent_mutator:
  assumes "event_type_of p \<noteq> EventTypeCreated" and "wf_payload p"
  shows "applyEvent js m (replay_env s0 (event_type_of p) i p) s =
    aw_update js m i (replay_mutator (replay_env s0 (event_type_of p) i p) p) s"
  using assms
  by (cases p) (simp_all add: applyEvent_def applyClaimedEvent_def applyUnclaimedEvent_def applyUpdatedEvent_def
      applyLinkedEvent_def applyClosedEvent_def replay_mutator_def)

lemma applyFieldChange_id:
  "applyFieldChange t ch = Some t' \<Longrightarrow>
   t_ID t' = t_ID t \<and> t_SchemaVersion t' = t_SchemaVersion t \<and> t_CreatedAt t' = t_CreatedAt t"
  by (auto simp: applyFieldChange_def jsonInto_def split: if_splits)

lemma applyFieldChanges_id:
  "applyFieldChanges t chs = Some t' \<Longrightarrow>
   t_ID t' = t_ID t \<and> t_SchemaVersion t' = t_SchemaVersion t \<and> t_CreatedAt t' = t_CreatedAt t"
  by (induction t chs rule: applyFieldChanges.induct) (auto split: option.splits dest: applyFieldChange_id)

lemma replay_mutator_stamps:
  assumes "replay_mutator env p now t = Inr u"
  shows "t_ID u = t_ID t" "t_SchemaVersion u = t_SchemaVersion t" "t_LastEventSeq u = ev_StreamSeq env"
    "wf_Task t \<Longrightarrow> wf_Task u"
proof -
  have "t_ID u = t_ID t \<and> t_SchemaVersion u = t_SchemaVersion t \<and> t_LastEventSeq u = ev_StreamSeq env"
    using assms applyFieldChanges_id [of t]
    by (cases p) (fastforce simp: replay_mutator_def slot_replay_def claimed_replay_def unclaimed_replay_def
        updated_replay_def linked_replay_def closed_replay_def Let_def split: if_splits option.splits)+
  then show "t_ID u = t_ID t" "t_SchemaVersion u = t_SchemaVersion t" "t_LastEventSeq u = ev_StreamSeq env" by auto
  have "wf_mutator (replay_mutator env p)" by (cases p) (simp_all add: replay_mutator_def)
  then show "wf_Task t \<Longrightarrow> wf_Task u" using assms wf_mutatorD by blast
qed

lemma mem_aw_update_quiet:
  assumes "settled m s" and "record_at (mem_view s) (m_bucket m) i = Some t"
    and "i \<noteq> []" and "\<not> m_done m" and "f (mem_now s) t = Inr u" and "valid_Task u" and "lifecycle t u"
    and "encodeBounded (mem_sys G) m u = Inr (encode u)"
  shows "aw_update (mem_sys G) m i f (mem_published s et i p) =
    (Inr (), mem_write (mem_published s et i p) (m_bucket m) i KeyValuePut (encode u))"
proof -
  obtain e where e: "quiet s" "mem_view s (m_bucket m) i = Some e" "e_Operation e = KeyValuePut"
    "decode (e_Value e) = Some t" "t_SchemaVersion t \<ge> SchemaVersion"
    using assms(1,2) by (rule settled_record)
  then show ?thesis
    using mem_tasks_update_quiet [of "mem_published s et i p" m i e t f u G] assms
    by (simp add: aw_update_def admin_defs)
qed

lemma mem_tasks_Get_record:
  assumes "quiet s" and "current m s" and "record_at (mem_view s) (m_bucket m) i = Some t" and "i \<noteq> []" and "\<not> m_done m"
  shows "\<exists>rv. tasks_Get (mem_sys G) m i s = (Inr (t, rv), s)"
proof -
  from assms(2,3) obtain e where e: "mem_view s (m_bucket m) i = Some e" "e_Operation e = KeyValuePut"
    "decode (e_Value e) = Some t" "t_SchemaVersion t \<ge> SchemaVersion" by (rule current_record)
  show ?thesis using mem_tasks_Get_quiet [OF assms(1) e assms(4,5)] by blast
qed

lemma Recover_crash:
  assumes "settled m s" and "record_at (mem_view s) (m_bucket m) i = Some t"
    and "i \<noteq> []" and "i \<noteq> migrationMarkerKey" and "\<not> m_done m" and "m_stream m"
    and p: "event_type_of p \<noteq> EventTypeCreated" "wf_payload p"
    and u: "replay_mutator (replay_env s (event_type_of p) i p) p (mem_now s) t = Inr u"
    and "valid_Task u" and "lifecycle t u" and "encodeBounded (mem_sys G) m u = Inr (encode u)"
  shows "\<exists>s'. Recover (mem_sys G) m (mem_published s (event_type_of p) i p) = ((1, None), s') \<and>
    settled m s' \<and> record_at (mem_view s') (m_bucket m) i = Some u"
proof -
  note st = settledD [OF assms(1)]
  obtain e where e: "t_SchemaVersion t \<ge> SchemaVersion" "t_ID t = i" "wf_Task t"
    using assms(1,2) by (rule settled_record)
  note us = replay_mutator_stamps [OF u]
  let ?s1 = "mem_published s (event_type_of p) i p"
  let ?s' = "mem_write ?s1 (m_bucket m) i KeyValuePut (encode u)"
  have a: "applyEvent (mem_sys G) m (replay_env s (event_type_of p) i p) ?s1 = (Inr (), ?s')"
    unfolding applyEvent_mutator [OF p]
    by (rule mem_aw_update_quiet [OF assms(1,2,3,5)]) (use u assms(10-12) in simp_all)
  have set': "settled m ?s'"
    by (rule settled_commit [OF assms(1,4)]) (use us e in simp_all)
  have rec: "record_at (mem_view ?s') (m_bucket m) i = Some u"
    by (rule record_at_write) (use us e in simp_all)
  obtain rv where g: "tasks_Get (mem_sys G) m i ?s' = (Inr (u, rv), ?s')"
    using mem_tasks_Get_record [OF settledD(1,2) [OF set'] rec assms(3,5)] by blast
  have "Recover (mem_sys G) m ?s1 = ((1, None), ?s')"
    using Recover_orphan [OF st(1,2) assms(5,6) st(3) assms(3,4), where G = G and et = "event_type_of p" and p = p] st(4) a g
    by simp
  with set' rec show ?thesis by blast
qed

text \<open>An event the record does not admit: recovery stops at it and reports the error.\<close>

lemma Recover_rejects:
  assumes "settled m s" and "record_at (mem_view s) (m_bucket m) i = Some t"
    and "i \<noteq> []" and "i \<noteq> migrationMarkerKey" and "\<not> m_done m" and "m_stream m"
    and p: "event_type_of p \<noteq> EventTypeCreated" "wf_payload p"
    and u: "replay_mutator (replay_env s (event_type_of p) i p) p (mem_now s) t = Inr u"
    and v: "validateTransition t u = Inl y"
  shows "Recover (mem_sys G) m (mem_published s (event_type_of p) i p) =
    ((0, Some (ETasks y)), mem_published s (event_type_of p) i p)"
proof -
  note st = settledD [OF assms(1)]
  obtain e where e: "quiet s" "mem_view s (m_bucket m) i = Some e" "e_Operation e = KeyValuePut"
    "decode (e_Value e) = Some t" "t_SchemaVersion t \<ge> SchemaVersion"
    using assms(1,2) by (rule settled_record)
  let ?s1 = "mem_published s (event_type_of p) i p"
  have "applyEvent (mem_sys G) m (replay_env s (event_type_of p) i p) ?s1 = (Inl (ETasks y), ?s1)"
    unfolding applyEvent_mutator [OF p] aw_update_def admin_defs
    using mem_tasks_update_rejected [of ?s1 m i e t _ "ETasks y" G] e assms(3,5) u v by simp
  then show ?thesis
    using Recover_orphan [OF st(1,2) assms(5,6) st(3) assms(3,4), where G = G and et = "event_type_of p" and p = p] st(4)
    by simp
qed

text \<open>A created event without a record: recovery writes the record the event describes.\<close>

lemma created_record_simps [simp]:
  "t_ID (created_record env c) = ev_TaskID env" "t_SchemaVersion (created_record env c) = SchemaVersion"
  "t_LastEventSeq (created_record env c) = ev_StreamSeq env" "wf_Task (created_record env c)"
  "valid_Task (created_record env c)"
  by (simp_all add: created_record_def wf_Task_def zero_Task_def valid_Task_def validStatus_def)

lemma not_live_record: "current m s \<Longrightarrow> record_at (mem_view s) (m_bucket m) i = None \<Longrightarrow> \<not> live (mem_view s (m_bucket m) i)"
  by (auto simp: live_def elim!: current_entry split: option.splits)

lemma Recover_create:
  assumes "settled m s" and "record_at (mem_view s) (m_bucket m) i = None"
    and "i \<noteq> []" and "i \<noteq> migrationMarkerKey" and "\<not> m_done m" and "m_stream m"
    and c: "cp_Snapshot c = None"
    and u: "u = created_record (replay_env s EventTypeCreated i (PCreated c)) c"
    and "encodeBounded (mem_sys G) m u = Inr (encode u)"
  shows "\<exists>s'. Recover (mem_sys G) m (mem_published s EventTypeCreated i (PCreated c)) = ((1, None), s') \<and>
    settled m s' \<and> record_at (mem_view s') (m_bucket m) i = Some u"
proof -
  note st = settledD [OF assms(1)]
  let ?s1 = "mem_published s EventTypeCreated i (PCreated c)"
  let ?s' = "mem_write ?s1 (m_bucket m) i KeyValuePut (encode u)"
  have w: "wf_payload (PCreated c)" using c by (simp add: wf_payload_def)
  have v: "validateForCreate u = Inr ()" using u validateForCreate_ok by simp
  have nl: "\<not> live (mem_view ?s1 (m_bucket m) i)" using not_live_record [OF st(2) assms(2)] by simp
  have a: "applyEvent (mem_sys G) m (replay_env s EventTypeCreated i (PCreated c)) ?s1 = (Inr (), ?s')"
    using w c v assms(3,5,9) nl st(1) mem_create_quiet [OF _ nl, of G "encode u"]
    by (simp add: applyEvent_def applyCreatedEvent_def u [symmetric] admin_defs tasks_create_def)
      (simp add: u)
  have set': "settled m ?s'" by (rule settled_commit [OF assms(1,4)]) (simp_all add: u)
  have rec: "record_at (mem_view ?s') (m_bucket m) i = Some u" by (rule record_at_write) (simp_all add: u)
  obtain rv where g: "tasks_Get (mem_sys G) m i ?s' = (Inr (u, rv), ?s')"
    using mem_tasks_Get_record [OF settledD(1,2) [OF set'] rec assms(3,5)] by blast
  have "Recover (mem_sys G) m ?s1 = ((1, None), ?s')"
    using Recover_orphan [OF st(1,2) assms(5,6) st(3) assms(3,4), where G = G and et = EventTypeCreated and p = "PCreated c"]
      assms(2) a g by simp
  with set' rec show ?thesis by blast
qed

end
