(* ===== verification/Coord_Quiet.thy ===== *)
theory Coord_Quiet
  imports Coord_Safety Task_Crash
begin

text \<open>
  The coordination operations when no other process interferes, on the in-memory substrate: a claim
  takes the record and every hold or leaves both as they were; release and close undo what the claim
  did; and what the log holds afterwards.
\<close>

section \<open>Handles and files\<close>

definition file_key :: "string \<Rightarrow> string" where
  "file_key f = keyOf \<lparr>path_abs = Clean f\<rparr>"

lemma pathFromTaskFile_abs: "IsAbs f \<Longrightarrow> pathFromTaskFile f = Inr \<lparr>path_abs = Clean f\<rparr>"
  by (cases f) (simp_all add: pathFromTaskFile_def wspath_New_def)

lemma abs_not_zero: "IsAbs f \<Longrightarrow> \<not> IsZero \<lparr>path_abs = Clean f\<rparr>"
  using Clean_abs [of f] IsAbs_abs_path(2) by (metis IsZero_def Path.select_convs(1))

text \<open>A handle that is open, with managers of its own buckets.\<close>

definition ready_handle :: "Coord \<Rightarrow> bool" where
  "ready_handle c =
     (\<not> c_closed c \<and> c_AgentID c \<noteq> [] \<and> \<not> m_done (c_tasks c) \<and> m_stream (c_tasks c) \<and>
      \<not> hm_done (c_holds c) \<and> hm_HoldTTLMax (c_holds c) = tc_HoldTTLMax (c_Tuning c) \<and>
      hm_Bucket (c_holds c) \<noteq> m_bucket (c_tasks c))"

abbreviation hold_of :: "Coord \<Rightarrow> mem \<Rightarrow> string \<Rightarrow> Hold option" where
  "hold_of c s k \<equiv> hold_at (mem_view s) (hm_Bucket (c_holds c)) k"

abbreviation task_of :: "Coord \<Rightarrow> mem \<Rightarrow> string \<Rightarrow> Task option" where
  "task_of c s i \<equiv> record_at (mem_view s) (m_bucket (c_tasks c)) i"

definition my_hold :: "Coord \<Rightarrow> string \<Rightarrow> duration \<Rightarrow> time_ns \<Rightarrow> Hold" where
  "my_hold c i ttl now = (claim_hold c i ttl)\<lparr>h_ClaimedAt := now, h_ExpiresAt := now + ttl\<rparr>"

lemma my_hold_simps [simp]:
  "h_AgentID (my_hold c i ttl now) = c_AgentID c" "h_ExpiresAt (my_hold c i ttl now) = now + ttl"
  by (simp_all add: my_hold_def claim_hold_def)

text \<open>States that differ in the holds bucket only, where the keys \<open>ks\<close> now carry \<open>h\<close>.\<close>

definition holds_set :: "Coord \<Rightarrow> mem \<Rightarrow> string set \<Rightarrow> Hold option \<Rightarrow> mem \<Rightarrow> bool" where
  "holds_set c s ks h s' =
     (mem_script s' = mem_script s \<and> mem_now s' = mem_now s \<and> mem_stream s' = mem_stream s \<and>
      (\<forall>b k. b \<noteq> hm_Bucket (c_holds c) \<longrightarrow> mem_view s' b k = mem_view s b k) \<and>
      (holds_wf (c_holds c) s \<longrightarrow> holds_wf (c_holds c) s') \<and>
      (\<forall>k. hold_of c s' k = (if k \<in> ks then h else hold_of c s k)))"

lemma holds_set_refl: "holds_set c s {} h s"
  by (simp add: holds_set_def)

lemma holds_setD:
  assumes "holds_set c s ks h s'"
  shows "quiet s' = quiet s" "mem_now s' = mem_now s" "mem_stream s' = mem_stream s"
    "holds_wf (c_holds c) s \<Longrightarrow> holds_wf (c_holds c) s'"
    "hold_of c s' k = (if k \<in> ks then h else hold_of c s k)"
    "b \<noteq> hm_Bucket (c_holds c) \<Longrightarrow> mem_view s' b k = mem_view s b k"
  using assms by (auto simp: holds_set_def quiet_def)

lemma holds_set_task:
  assumes "holds_set c s ks h s'" and "ready_handle c"
  shows "task_of c s' i = task_of c s i" and "settled (c_tasks c) s \<Longrightarrow> settled (c_tasks c) s'"
proof -
  have b: "m_bucket (c_tasks c) \<noteq> hm_Bucket (c_holds c)" using assms(2) by (auto simp: ready_handle_def)
  have v: "mem_view s' (m_bucket (c_tasks c)) = mem_view s (m_bucket (c_tasks c))"
    using holds_setD(6) [OF assms(1) b] by (intro ext)
  then have r: "task_of c s' i = task_of c s i" for i by (simp add: record_at_def)
  then show "task_of c s' i = task_of c s i" .
  have st: "mem_strm s' = mem_strm s" using holds_setD(3) [OF assms(1)] by (simp add: mem_strm_def)
  have cv: "covered_by (c_tasks c) s' msg = covered_by (c_tasks c) s msg" for msg
    using r by (auto simp: covered_by_def split: option.splits)
  show "settled (c_tasks c) s \<Longrightarrow> settled (c_tasks c) s'"
    using v r st cv holds_setD(1,3) [OF assms(1)] by (simp add: settled_def current_def in_step_def)
qed

lemma mem_write_stream [simp]: "mem_stream (mem_write s b k oper j) = mem_stream s"
  "mem_now (mem_write s b k oper j) = mem_now s" "mem_script (mem_write s b k oper j) = mem_script s"
  by (simp_all add: mem_write_def)

section \<open>Announcing and releasing the files of a task\<close>

lemma mem_claim_step:
  assumes "quiet s" and "holds_wf (c_holds c) s" and "ready_handle c" and "IsAbs f"
    and "0 < ttl" and "ttl \<le> tc_HoldTTLMax (c_Tuning c)"
  shows "Announce (mem_sys G) (c_holds c) \<lparr>path_abs = Clean f\<rparr> (claim_hold c i ttl) s =
    (if admits (hold_of c s (file_key f)) (c_AgentID c) (mem_now s)
     then (Inr (), mem_write s (hm_Bucket (c_holds c)) (file_key f) KeyValuePut
                     (holds_stamped (claim_hold c i ttl) (mem_now s)))
     else (Inl (EHolds HErrHeldByAnother), s))"
  using mem_Announce_quiet [OF assms(1,2), of "\<lparr>path_abs = Clean f\<rparr>" "claim_hold c i ttl" G]
    assms(3,5,6) abs_not_zero [OF assms(4)]
  by (simp add: valid_announce_def ready_handle_def claim_hold_def file_key_def)

lemma holds_set_announce:
  assumes "holds_set c s0 ks (Some (my_hold c i ttl (mem_now s0))) s"
  shows "holds_set c s0 (insert k ks) (Some (my_hold c i ttl (mem_now s0)))
    (mem_write s (hm_Bucket (c_holds c)) k KeyValuePut (holds_stamped (claim_hold c i ttl) (mem_now s)))"
    (is "holds_set c s0 _ ?h ?s'")
proof -
  have n: "mem_now s = mem_now s0" using holds_setD(2) [OF assms] .
  have h: "Some ((claim_hold c i ttl)\<lparr>h_ClaimedAt := mem_now s, h_ExpiresAt := mem_now s + h_TTL (claim_hold c i ttl)\<rparr>) = ?h"
    by (simp add: my_hold_def claim_hold_def n)
  have "hold_of c ?s' k' = (if k' \<in> insert k ks then ?h else hold_of c s0 k')" for k'
    using holds_setD(5) [OF assms, of k'] h by (cases "k' = k") simp_all
  moreover have "mem_view ?s' b k' = mem_view s0 b k'" if "b \<noteq> hm_Bucket (c_holds c)" for b k'
    using holds_setD(6) [OF assms that] that by (simp add: mem_view_write)
  ultimately show ?thesis
    using assms holds_wf_write(1) by (simp add: holds_set_def)
qed

lemma mem_claimAll:
  assumes "quiet s0" and "holds_wf (c_holds c) s0" and "ready_handle c"
    and "0 < ttl" and "ttl \<le> tc_HoldTTLMax (c_Tuning c)"
    and "holds_set c s0 (file_key ` set held0) (Some (my_hold c i ttl (mem_now s0))) s"
    and "\<forall>f \<in> set fs. IsAbs f"
    and "\<forall>f \<in> set held0. admits (hold_of c s0 (file_key f)) (c_AgentID c) (mem_now s0)"
  shows "\<exists>taken x s'. claimAll (mem_sys G) c i fs ttl held0 s = ((held0 @ taken, x), s') \<and>
    holds_set c s0 (file_key ` set (held0 @ taken)) (Some (my_hold c i ttl (mem_now s0))) s' \<and>
    (\<forall>f \<in> set (held0 @ taken). admits (hold_of c s0 (file_key f)) (c_AgentID c) (mem_now s0)) \<and>
    set taken \<subseteq> set fs \<and>
    (if x = None then taken = fs
     else x = Some (EHolds HErrHeldByAnother) \<and>
       (\<exists>f \<in> set fs. \<not> admits (hold_of c s0 (file_key f)) (c_AgentID c) (mem_now s0)))"
  using assms(6-8)
proof (induction fs arbitrary: held0 s)
  case Nil
  then show ?case by auto
next
  case (Cons f fs)
  let ?h = "Some (my_hold c i ttl (mem_now s0))"
  have f: "IsAbs f" using Cons.prems(2) by simp
  note hs = holds_setD [OF Cons.prems(1)]
  have q: "quiet s" "holds_wf (c_holds c) s" using hs(1,4) assms(1,2) by auto
  have adm: "admits (hold_of c s (file_key f)) (c_AgentID c) (mem_now s) =
      admits (hold_of c s0 (file_key f)) (c_AgentID c) (mem_now s0)"
  proof (cases "file_key f \<in> file_key ` set held0")
    case True
    then obtain g where "g \<in> set held0" "file_key g = file_key f" by auto
    then have "admits (hold_of c s0 (file_key f)) (c_AgentID c) (mem_now s0)" using Cons.prems(3) by metis
    moreover have "hold_of c s (file_key f) = ?h" using hs(5) True by simp
    ultimately show ?thesis by (simp add: admits_def)
  next
    case False
    then show ?thesis using hs(2,5) by simp
  qed
  note st = mem_claim_step [OF q assms(3) f assms(4,5), of G i]
  show ?case
  proof (cases "admits (hold_of c s (file_key f)) (c_AgentID c) (mem_now s)")
    case False
    then show ?thesis
      using Cons.prems(1,3) st adm f by (auto simp: pathFromTaskFile_abs)
  next
    case True
    let ?s1 = "mem_write s (hm_Bucket (c_holds c)) (file_key f) KeyValuePut (holds_stamped (claim_hold c i ttl) (mem_now s))"
    have "holds_set c s0 (file_key ` set (held0 @ [f])) ?h ?s1"
      using holds_set_announce [OF Cons.prems(1), of "file_key f"] by simp
    then obtain taken x s' where IH: "claimAll (mem_sys G) c i fs ttl (held0 @ [f]) ?s1 = (((held0 @ [f]) @ taken, x), s')"
      "holds_set c s0 (file_key ` set ((held0 @ [f]) @ taken)) ?h s'"
      "\<forall>g \<in> set ((held0 @ [f]) @ taken). admits (hold_of c s0 (file_key g)) (c_AgentID c) (mem_now s0)"
      "set taken \<subseteq> set fs"
      "if x = None then taken = fs
       else x = Some (EHolds HErrHeldByAnother) \<and>
         (\<exists>f \<in> set fs. \<not> admits (hold_of c s0 (file_key f)) (c_AgentID c) (mem_now s0))"
      using Cons.IH [of "held0 @ [f]" ?s1] Cons.prems(2,3) adm True by auto
    have "claimAll (mem_sys G) c i (f # fs) ttl held0 s = ((held0 @ (f # taken), x), s')"
      using IH(1) st True f by (simp add: pathFromTaskFile_abs)
    then show ?thesis using IH(2-5) by (intro exI [of _ "f # taken"] exI [of _ x] exI [of _ s']) auto
  qed
qed

text \<open>Releasing files all of which carry this agent's live hold, or none.\<close>

lemma mem_rollback:
  assumes "quiet s" and "holds_wf (c_holds c) s" and "ready_handle c" and "\<forall>f \<in> set fs. IsAbs f"
    and "\<forall>f \<in> set fs. hold_of c s (file_key f) = None \<or>
      (\<exists>h. hold_of c s (file_key f) = Some h \<and> h_AgentID h = c_AgentID c \<and> mem_now s \<le> h_ExpiresAt h)"
  shows "holds_set c s (file_key ` set fs) None (rollback (mem_sys G) c fs s)"
  using assms(1,2,4,5)
proof (induction fs arbitrary: s)
  case Nil
  then show ?case by (simp add: holds_set_refl)
next
  case (Cons f fs)
  let ?b = "hm_Bucket (c_holds c)"
  have f: "IsAbs f" using Cons.prems(3) by simp
  define s1 where "s1 = snd (holds_Release (mem_sys G) (c_holds c) \<lparr>path_abs = Clean f\<rparr> (c_AgentID c) s)"
  have rel: "holds_Release (mem_sys G) (c_holds c) \<lparr>path_abs = Clean f\<rparr> (c_AgentID c) s =
    (case hold_of c s (file_key f) of
       None \<Rightarrow> (Inr (), s)
     | Some h \<Rightarrow> if h_ExpiresAt h < mem_now s \<or> h_AgentID h \<noteq> c_AgentID c then (Inr (), s)
         else (Inr (), mem_write s ?b (file_key f) KeyValueDelete JNull))"
    unfolding file_key_def
    by (rule mem_Release_quiet [OF Cons.prems(1,2) abs_not_zero [OF f]])
      (use assms(3) in \<open>simp_all add: ready_handle_def\<close>)
  have s1: "s1 = s \<and> hold_of c s (file_key f) = None \<or> s1 = mem_write s ?b (file_key f) KeyValueDelete JNull"
    using Cons.prems(4) rel by (auto simp: s1_def split: option.splits)
  have hs1: "holds_set c s {file_key f} None s1"
  proof -
    have "hold_of c s1 k = (if k \<in> {file_key f} then None else hold_of c s k)" for k
      using s1 by (cases "k = file_key f") auto
    moreover have "mem_view s1 b k = mem_view s b k" if "b \<noteq> ?b" for b k
      using s1 that by (auto simp: mem_view_write)
    ultimately show ?thesis using s1 holds_wf_write(2) [of "c_holds c" s] by (auto simp: holds_set_def)
  qed
  note d1 = holds_setD [OF hs1]
  have IH: "holds_set c s1 (file_key ` set fs) None (rollback (mem_sys G) c fs s1)"
    by (rule Cons.IH) (use Cons.prems d1 in auto)
  have "rollback (mem_sys G) c (f # fs) s = rollback (mem_sys G) c fs s1"
    using f by (simp add: pathFromTaskFile_abs s1_def)
  moreover have "holds_set c s (file_key ` set (f # fs)) None (rollback (mem_sys G) c fs s1)"
    using IH hs1 by (auto simp: holds_set_def)
  ultimately show ?case by simp
qed

lemma mem_releaseHolds:
  assumes "quiet s" and "holds_wf (c_holds c) s" and "ready_handle c" and "\<forall>f \<in> set fs. IsAbs f"
  shows "releaseHolds (mem_sys G) c fs None s = (None, rollback (mem_sys G) c fs s)"
  using assms(1,2,4)
proof (induction fs arbitrary: s)
  case (Cons f fs)
  let ?b = "hm_Bucket (c_holds c)"
  have f: "IsAbs f" using Cons.prems(3) by simp
  obtain s1 where rel: "holds_Release (mem_sys G) (c_holds c) \<lparr>path_abs = Clean f\<rparr> (c_AgentID c) s = (Inr (), s1)"
    and s1: "s1 = s \<or> s1 = mem_write s ?b (file_key f) KeyValueDelete JNull"
    using mem_Release_quiet [OF Cons.prems(1,2) abs_not_zero [OF f], of "c_AgentID c" G] assms(3) that
    by (auto simp: ready_handle_def file_key_def split: option.splits if_splits)
  have "quiet s1" "holds_wf (c_holds c) s1" using s1 Cons.prems(1,2) holds_wf_write(2) by auto
  then show ?case using Cons f rel by (simp add: pathFromTaskFile_abs)
qed simp

section \<open>Committed transactions\<close>

abbreviation committed :: "Coord \<Rightarrow> mem \<Rightarrow> EventType \<Rightarrow> string \<Rightarrow> payload \<Rightarrow> Task \<Rightarrow> mem" where
  "committed c s et i p u \<equiv> mem_write (mem_published s et i p) (m_bucket (c_tasks c)) i KeyValuePut (encode u)"

text \<open>What the wrapper stamps on the record a mutator made.\<close>

abbreviation stamp :: "mem \<Rightarrow> Task \<Rightarrow> Task" where
  "stamp s v \<equiv> v\<lparr>t_UpdatedAt := mem_now s, t_LastEventSeq := Suc (length (mem_stream s))\<rparr>"

lemma tx_committed:
  assumes "settled (c_tasks c) s" and "task_of c s i = Some t" and "ready_handle c"
    and "i \<noteq> []" and "i \<noteq> migrationMarkerKey" and "EventType_Valid et"
    and "f (mem_now s) t = Inr v" and "valid_Task (stamp s v)" and "lifecycle t (stamp s v)"
    and "encodeBounded (mem_sys G) (c_tasks c) (stamp s v) = Inr (encode (stamp s v))"
    and "wf_mutator f" and "t_ID v = t_ID t" and "t_SchemaVersion v = t_SchemaVersion t"
  shows "Manager_Tx (c_tasks c) i (\<lambda>tx. tx_apply (mem_sys G) (c_tasks c) i et p (stamped f) (markDirty tx)) s =
      (Inr (stamp s v), committed c s et i p (stamp s v))"
    and "settled (c_tasks c) (committed c s et i p (stamp s v))"
    and "task_of c (committed c s et i p (stamp s v)) i = Some (stamp s v)"
proof -
  obtain e where e: "t_ID t = i" "wf_Task t" using assms(1,2) by (rule settled_record)
  have w: "wf_Task (stamp s v)" using wf_mutatorD [OF assms(11) e(2) assms(7)] by (simp add: wf_Task_def)
  have m: "\<not> m_done (c_tasks c)" "m_stream (c_tasks c)" using assms(3) by (simp_all add: ready_handle_def)
  have st: "stamped f (Suc (length (mem_stream s))) (mem_now s) t = Inr (stamp s v)"
    using assms(7) by (simp add: stamped_def)
  have id: "t_ID (stamp s v) = i" "t_SchemaVersion (stamp s v) = t_SchemaVersion t"
    "t_LastEventSeq (stamp s v) = Suc (length (mem_stream s))" using assms(12,13) e by simp_all
  note r = tx_apply_settled [where w = "stamped f", OF assms(1,2,4,5) m assms(6) st assms(8-10) w id]
  from r(1) [of p] show "Manager_Tx (c_tasks c) i (\<lambda>tx. tx_apply (mem_sys G) (c_tasks c) i et p (stamped f) (markDirty tx)) s =
      (Inr (stamp s v), committed c s et i p (stamp s v))"
    using assms(4) m by (simp add: Manager_Tx_def markDirty_def)
  show "settled (c_tasks c) (committed c s et i p (stamp s v))" by (rule r(2))
  show "task_of c (committed c s et i p (stamp s v)) i = Some (stamp s v)" by (rule r(3))
qed

text \<open>A commit does not touch the holds.\<close>

lemma committed_holds [simp]:
  assumes "ready_handle c"
  shows "hold_of c (committed c s et i p u) k = hold_of c s k"
    "holds_wf (c_holds c) (committed c s et i p u) = holds_wf (c_holds c) s"
    "mem_now (committed c s et i p u) = mem_now s" "quiet (committed c s et i p u) = quiet s"
proof -
  have b: "m_bucket (c_tasks c) \<noteq> hm_Bucket (c_holds c)" using assms by (auto simp: ready_handle_def)
  show "hold_of c (committed c s et i p u) k = hold_of c s k"
    using b by (simp add: hold_at_def mem_view_write)
  show "holds_wf (c_holds c) (committed c s et i p u) = holds_wf (c_holds c) s"
    using b by (simp add: holds_wf_write(3)) (simp add: holds_wf_def)
qed (simp_all)

section \<open>Claim\<close>

definition claimed_as :: "Coord \<Rightarrow> mem \<Rightarrow> Task \<Rightarrow> Task" where
  "claimed_as c s t = stamp s (t\<lparr>t_Status := StatusClaimed, t_ClaimedBy := c_AgentID c, t_ClaimEpoch := t_ClaimEpoch t + 1\<rparr>)"

definition claim_payload :: "Coord \<Rightarrow> Task \<Rightarrow> payload" where
  "claim_payload c t = PClaimed \<lparr>clp_AgentID = c_AgentID c, clp_Slot = [], clp_ClaimEpoch = t_ClaimEpoch t + 1, clp_PrevAgent = []\<rparr>"

lemma mem_acquireTaskCAS:
  assumes "settled (c_tasks c) s" and "task_of c s i = Some t" and "ready_handle c"
    and "i \<noteq> []" and "i \<noteq> migrationMarkerKey" and "t_Status t = StatusOpen" and "t_ClaimedBy t = []"
    and "encodeBounded (mem_sys G) (c_tasks c) (claimed_as c s t) = Inr (encode (claimed_as c s t))"
  defines "s1 \<equiv> committed c s EventTypeClaimed i (claim_payload c t) (claimed_as c s t)"
  shows "acquireTaskCAS (mem_sys G) i c s = (Inr (t_Files t), store_epoch i (t_ClaimEpoch t + 1) c, s1)"
    and "settled (c_tasks c) s1" and "task_of c s1 i = Some (claimed_as c s t)"
proof -
  let ?v = "t\<lparr>t_Status := StatusClaimed, t_ClaimedBy := c_AgentID c, t_ClaimEpoch := t_ClaimEpoch t + 1, t_UpdatedAt := mem_now s\<rparr>"
  have v: "claimed_as c s t = stamp s ?v" by (simp add: claimed_as_def)
  have a: "c_AgentID c \<noteq> []" "\<not> m_done (c_tasks c)" using assms(3) by (simp_all add: ready_handle_def)
  obtain rv where g: "tasks_Get (mem_sys G) (c_tasks c) i s = (Inr (t, rv), s)"
    using mem_tasks_Get_record [OF settledD(1,2) [OF assms(1)] assms(2,4) a(2)] by blast
  have mut: "claimMutator (c_AgentID c) (mem_now s) t = Inr ?v" using assms(6,7) by (simp add: claimMutator_def)
  have ok: "valid_Task (stamp s ?v)" "lifecycle t (stamp s ?v)"
    using a assms(6) by (simp_all add: valid_Task_def validStatus_def lifecycle.claim)
  note tx = tx_committed [where f = "claimMutator (c_AgentID c)" and et = EventTypeClaimed and G = G, OF assms(1-5) _ mut ok]
  show "settled (c_tasks c) s1" "task_of c s1 i = Some (claimed_as c s t)"
    using tx(2,3) assms(8) by (simp_all add: s1_def v)
  have "Manager_Tx (c_tasks c) i (Tx_Claim (mem_sys G) (c_tasks c) i
      \<lparr>ca_AgentID = c_AgentID c, ca_Slot = [], ca_ClaimEpoch = t_ClaimEpoch t + 1, ca_PrevAgent = [],
       ca_Mutate = Some (claimMutator (c_AgentID c))\<rparr>) s = (Inr (claimed_as c s t), s1)"
    using tx(1) [of "claim_payload c t"] assms(8) a by (simp add: Tx_Claim_def [abs_def] claim_payload_def s1_def v)
  then show "acquireTaskCAS (mem_sys G) i c s = (Inr (t_Files t), store_epoch i (t_ClaimEpoch t + 1) c, s1)"
    using g assms(6,7) by (simp add: acquireTaskCAS_def claimed_as_def)
qed

text \<open>The failure branch: the holds just taken are dropped, the record is open again.\<close>

definition unclaimed_as :: "mem \<Rightarrow> Task \<Rightarrow> Task" where
  "unclaimed_as s t = stamp s (t\<lparr>t_Status := StatusOpen, t_ClaimedBy := []\<rparr>)"

lemma epoch_handle [simp]:
  "ready_handle (store_epoch i e c) = ready_handle c" "ready_handle (delete_epoch i c) = ready_handle c"
  "c_holds (store_epoch i e c) = c_holds c" "c_tasks (store_epoch i e c) = c_tasks c"
  "c_AgentID (store_epoch i e c) = c_AgentID c" "c_Tuning (store_epoch i e c) = c_Tuning c"
  "c_epochs (store_epoch i e c) = (c_epochs c)(i \<mapsto> e)" "c_epochs (delete_epoch i c) = (c_epochs c)(i := None)"
  "holds_set (store_epoch i e c) = holds_set c" "my_hold (store_epoch i e c) = my_hold c"
  by (simp_all add: store_epoch_def delete_epoch_def ready_handle_def holds_set_def fun_eq_iff my_hold_def claim_hold_def)

lemma mem_hold_failure:
  assumes "settled (c_tasks c) s" and "task_of c s i = Some u" and "ready_handle c" and "holds_wf (c_holds c) s"
    and "i \<noteq> []" and "i \<noteq> migrationMarkerKey" and "t_Status u = StatusClaimed" and "t_ClaimedBy u = c_AgentID c"
    and "encodeBounded (mem_sys G) (c_tasks c) (unclaimed_as s u) = Inr (encode (unclaimed_as s u))"
    and "\<forall>f \<in> set held. IsAbs f"
    and "\<forall>f \<in> set held. \<exists>h. hold_of c s (file_key f) = Some h \<and> h_AgentID h = c_AgentID c \<and> mem_now s \<le> h_ExpiresAt h"
  shows "\<exists>s'. hold_failure (mem_sys G) i held (EHolds HErrHeldByAnother) c s =
      (ECoord ErrHeldByAnother, delete_epoch i c, s') \<and>
    settled (c_tasks c) s' \<and> task_of c s' i = Some (unclaimed_as s u) \<and>
    (\<forall>k. hold_of c s' k = (if k \<in> file_key ` set held then None else hold_of c s k))"
proof -
  let ?s1 = "rollback (mem_sys G) c held s"
  have rb: "holds_set c s (file_key ` set held) None ?s1"
    by (rule mem_rollback) (use assms settledD(1) [OF assms(1)] in auto)
  note d = holds_setD [OF rb]
  have st: "settled (c_tasks c) ?s1" "task_of c ?s1 i = Some u"
    using holds_set_task [OF rb assms(3)] assms(1,2) by auto
  let ?v = "u\<lparr>t_Status := StatusOpen, t_ClaimedBy := [], t_UpdatedAt := mem_now ?s1\<rparr>"
  have v: "stamp ?s1 ?v = unclaimed_as s u" using d by (simp add: unclaimed_as_def)
  have mut: "undo_mutator (c_AgentID c) (mem_now ?s1) u = Inr ?v" using assms(7,8) by (simp add: undo_mutator_def)
  have ok: "valid_Task (stamp ?s1 ?v)" "lifecycle u (stamp ?s1 ?v)"
    using assms(7) by (simp_all add: valid_Task_def validStatus_def lifecycle.unclaim)
  note tx = tx_committed [where f = "undo_mutator (c_AgentID c)" and et = EventTypeUnclaimed and G = G, OF st assms(3,5,6) _ mut ok]
  let ?s' = "committed c ?s1 EventTypeUnclaimed i (PUnclaimed \<lparr>up_Reason = ''claim rollback after hold failure''\<rparr>) (unclaimed_as s u)"
  have "undoTaskCAS (mem_sys G) i c ?s1 = (delete_epoch i c, ?s')"
    using tx(1) [of "PUnclaimed \<lparr>up_Reason = ''claim rollback after hold failure''\<rparr>"] assms(9) v
    by (simp add: undoTaskCAS_def Tx_Unclaim_def [abs_def])
  then have "hold_failure (mem_sys G) i held (EHolds HErrHeldByAnother) c s = (ECoord ErrHeldByAnother, delete_epoch i c, ?s')"
    by (simp add: hold_failure_def is_panic_def)
  moreover have "settled (c_tasks c) ?s'" "task_of c ?s' i = Some (unclaimed_as s u)"
    using tx(2,3) assms(9) v by simp_all
  moreover have "hold_of c ?s' k = (if k \<in> file_key ` set held then None else hold_of c s k)" for k
    using d(5) assms(3) by simp
  ultimately show ?thesis by blast
qed

text \<open>What a claim of an open task comes to.\<close>

definition claim_outcome :: "Coord \<Rightarrow> string \<Rightarrow> duration \<Rightarrow> Task \<Rightarrow> mem \<Rightarrow> (err + string list) \<times> Coord \<times> mem \<Rightarrow> bool" where
  "claim_outcome c i ttl t s out =
     (case out of (r, c', s') \<Rightarrow>
        settled (c_tasks c) s' \<and>
        (if \<forall>f \<in> set (t_Files t). admits (hold_of c s (file_key f)) (c_AgentID c) (mem_now s)
         then r = Inr (t_Files t) \<and> c_epochs c' i = Some (t_ClaimEpoch t + 1) \<and>
           task_of c s' i = Some (claimed_as c s t) \<and>
           (\<forall>k. hold_of c s' k = (if k \<in> file_key ` set (t_Files t) then Some (my_hold c i ttl (mem_now s)) else hold_of c s k))
         else r = Inl (ECoord ErrHeldByAnother) \<and> c_epochs c' i = None \<and>
           (\<exists>t'. task_of c s' i = Some t' \<and>
              t\<lparr>t_ClaimEpoch := t_ClaimEpoch t + 1, t_UpdatedAt := mem_now s, t_LastEventSeq := t_LastEventSeq t'\<rparr> = t') \<and>
           (\<forall>k. hold_of c s' k = hold_of c s k \<or>
              hold_of c s' k = None \<and> admits (hold_of c s k) (c_AgentID c) (mem_now s))))"

lemma mem_Claim_outcome:
  assumes "settled (c_tasks c) s" and "task_of c s i = Some t" and "ready_handle c" and "holds_wf (c_holds c) s"
    and "i \<noteq> []" and "i \<noteq> migrationMarkerKey" and "t_Status t = StatusOpen" and "t_ClaimedBy t = []"
    and "0 < ttl" and "ttl \<le> tc_HoldTTLMax (c_Tuning c)" and "\<forall>f \<in> set (t_Files t). IsAbs f"
    and "\<forall>u. encodeBounded (mem_sys G) (c_tasks c) u = Inr (encode u)"
  shows "claim_outcome c i ttl t s (coord_Claim (mem_sys G) i ttl c s)"
proof -
  let ?h = "my_hold c i ttl (mem_now s)"
  define s1 where "s1 = committed c s EventTypeClaimed i (claim_payload c t) (claimed_as c s t)"
  define c1 where "c1 = store_epoch i (t_ClaimEpoch t + 1) c"
  have a: "acquireTaskCAS (mem_sys G) i c s = (Inr (t_Files t), c1, s1)" "settled (c_tasks c) s1"
    "task_of c s1 i = Some (claimed_as c s t)"
    using mem_acquireTaskCAS [OF assms(1-3,5-8), of G] assms(12) unfolding s1_def c1_def by blast+
  have q: "quiet s1" "holds_wf (c_holds c) s1" "mem_now s1 = mem_now s" "\<And>k. hold_of c s1 k = hold_of c s k"
    using settledD(1) [OF assms(1)] assms(3,4) by (simp_all add: s1_def)
  have c1: "c_holds c1 = c_holds c" "c_AgentID c1 = c_AgentID c" by (simp_all add: c1_def)
  obtain taken x s2 where cl: "claimAll (mem_sys G) c1 i (t_Files t) ttl [] s1 = ((taken, x), s2)"
    and hs: "holds_set c s1 (file_key ` set taken) (Some ?h) s2"
    and adm: "\<forall>f \<in> set taken. admits (hold_of c s (file_key f)) (c_AgentID c) (mem_now s)"
    and sub: "set taken \<subseteq> set (t_Files t)"
    and x: "if x = None then taken = t_Files t
      else x = Some (EHolds HErrHeldByAnother) \<and>
        (\<exists>f \<in> set (t_Files t). \<not> admits (hold_of c s (file_key f)) (c_AgentID c) (mem_now s))"
    using mem_claimAll [of s1 c1 ttl "[]" i s1 "t_Files t" G, unfolded c1 q(3,4)] q assms(3,9-11) holds_set_refl
    by (simp add: c1_def) blast
  note d = holds_setD [OF hs]
  note st = holds_set_task [OF hs assms(3)]
  have cl0: "\<not> c_closed c" using assms(3) by (simp add: ready_handle_def)
  show ?thesis
  proof (cases x)
    case None
    then have "taken = t_Files t" using x by simp
    then show ?thesis
      using None cl a st d(5) q adm cl0 assms(5,9,10)
      by (simp add: coord_Claim_def claim_outcome_def c1_def)
  next
    case (Some herr)
    then have herr: "herr = EHolds HErrHeldByAnother"
      "\<not> (\<forall>f \<in> set (t_Files t). admits (hold_of c s (file_key f)) (c_AgentID c) (mem_now s))" using x by auto
    let ?u = "claimed_as c s t"
    obtain s' where f: "hold_failure (mem_sys G) i taken (EHolds HErrHeldByAnother) c1 s2 =
        (ECoord ErrHeldByAnother, delete_epoch i c1, s')" "settled (c_tasks c) s'"
      "task_of c s' i = Some (unclaimed_as s2 ?u)"
      "\<forall>k. hold_of c s' k = (if k \<in> file_key ` set taken then None else hold_of c s2 k)"
      using mem_hold_failure [of c1 s2 i ?u G taken] st a(2,3) d(2,4,5) q assms(3,5,6,9,11,12) sub
      by (force simp: c1_def claimed_as_def)
    have "coord_Claim (mem_sys G) i ttl c s = (Inl (ECoord ErrHeldByAnother), delete_epoch i c1, s')"
      using Some herr(1) cl a(1) f(1) cl0 assms(5,9,10) by (simp add: coord_Claim_def)
    moreover have "t\<lparr>t_ClaimEpoch := t_ClaimEpoch t + 1, t_UpdatedAt := mem_now s,
        t_LastEventSeq := t_LastEventSeq (unclaimed_as s2 ?u)\<rparr> = unclaimed_as s2 ?u"
      using assms(7,8) d(2) q(3) by (simp add: unclaimed_as_def claimed_as_def)
    moreover have "hold_of c s' k = hold_of c s k \<or> hold_of c s' k = None \<and> admits (hold_of c s k) (c_AgentID c) (mem_now s)" for k
      using f(4) d(5) q(4) adm by (cases "k \<in> file_key ` set taken") auto
    ultimately show ?thesis
      using herr(2) f(2,3) unfolding claim_outcome_def by (simp add: delete_epoch_def)
  qed
qed

section \<open>Close\<close>

definition closed_as :: "Coord \<Rightarrow> string \<Rightarrow> mem \<Rightarrow> Task \<Rightarrow> Task" where
  "closed_as c reason s t =
     (applyClose t (c_AgentID c) reason (mem_now s))\<lparr>t_LastEventSeq := Suc (length (mem_stream s))\<rparr>"

lemma mem_CloseTask:
  assumes "settled (c_tasks c) s" and "task_of c s i = Some t" and "ready_handle c"
    and "i \<noteq> []" and "i \<noteq> migrationMarkerKey" and "t_Status t = StatusClaimed" and "t_ClaimedBy t = c_AgentID c"
    and "t_ClaimEpoch t = known_epoch c i"
    and "encodeBounded (mem_sys G) (c_tasks c) (closed_as c reason s t) = Inr (encode (closed_as c reason s t))"
  shows "\<exists>s'. CloseTask (mem_sys G) i reason c s = (Inr (), s') \<and> settled (c_tasks c) s' \<and>
    task_of c s' i = Some (closed_as c reason s t) \<and>
    (\<forall>k. hold_of c s' k = hold_of c s k) \<and> mem_now s' = mem_now s \<and>
    holds_wf (c_holds c) s' = holds_wf (c_holds c) s"
proof -
  let ?u = "closed_as c reason s t" and ?p = "PClosed \<lparr>clo_AgentID = c_AgentID c, clo_Reason = reason\<rparr>"
  let ?s' = "committed c s EventTypeClosed i ?p ?u"
  obtain e where e: "t_ID t = i" "wf_Task t" using assms(1,2) by (rule settled_record)
  have m: "\<not> m_done (c_tasks c)" "m_stream (c_tasks c)" "\<not> c_closed c" using assms(3) by (simp_all add: ready_handle_def)
  have w: "seq_stamped (closeMutator c i reason) (Suc (length (mem_stream s))) (mem_now s) t = Inr ?u"
    using assms(6-8) by (simp add: seq_stamped_def closeMutator_def closed_as_def)
  have ok: "valid_Task ?u" "lifecycle t ?u" "wf_Task ?u" "t_ID ?u = i" "t_SchemaVersion ?u = t_SchemaVersion t"
    "t_LastEventSeq ?u = Suc (length (mem_stream s))"
    using e assms(6) by (simp_all add: closed_as_def applyClose_def valid_Task_def validStatus_def wf_Task_def lifecycle.close)
  note tx = tx_apply_settled [where w = "seq_stamped (closeMutator c i reason)" and et = EventTypeClosed,
      OF assms(1,2,4,5) m(1,2) _ w ok(1,2) assms(9) ok(3-6)]
  have "CloseTask (mem_sys G) i reason c s = (Inr (), ?s')"
    using tx(1) [of ?p] assms(4) m by (simp add: CloseTask_def Manager_Tx_def Tx_Close_def Let_def markDirty_def)
  moreover have "settled (c_tasks c) ?s'" "task_of c ?s' i = Some ?u" using tx(2,3) by simp_all
  ultimately show ?thesis using assms(3) by auto
qed

section \<open>Release after close\<close>

text \<open>
  The release closure of a claim whose task was closed meanwhile: the \<^verbatim>\<open>unclaimed\<close> event is published before
  the mutator declines, so the log ends with an event the closed record can never admit.
\<close>

lemma mem_write_published:
  "mem_write (mem_published s et i p) b k oper j = mem_published (mem_write s b k oper j) et i p"
  by (simp add: mem_write_def mem_published_def)

lemma mem_releaseTaskCAS_closed:
  assumes "settled (c_tasks c) s" and "task_of c s i = Some t" and "ready_handle c" and "i \<noteq> []"
    and "t_Status t = StatusClosed"
  shows "releaseTaskCAS (mem_sys G) i c s =
    (None, mem_published s EventTypeUnclaimed i (PUnclaimed \<lparr>up_Reason = ''release''\<rparr>))"
proof -
  have m: "\<not> m_done (c_tasks c)" "m_stream (c_tasks c)" using assms(3) by (simp_all add: ready_handle_def)
  obtain e where e: "quiet s" "mem_view s (m_bucket (c_tasks c)) i = Some e" "e_Operation e = KeyValuePut"
    "decode (e_Value e) = Some t" "t_SchemaVersion t \<ge> SchemaVersion"
    using assms(1,2) by (rule settled_record)
  have "stamped (release_mutator (c_AgentID c)) (Suc (length (mem_stream s))) (mem_now s) t = Inl (ECoord ErrClaimCASNoOp)"
    using assms(5) by (simp add: stamped_def release_mutator_def)
  note tx = mem_tx_apply_rejected [where w = "stamped (release_mutator (c_AgentID c))", OF e assms(4) m _ this]
  show ?thesis
    using tx [of EventTypeUnclaimed G] m assms(4) by (simp add: releaseTaskCAS_def Manager_Tx_def Tx_Unclaim_def)
qed

lemma mem_rollback_published:
  assumes "quiet s" and "holds_wf (c_holds c) s" and "ready_handle c" and "\<forall>f \<in> set fs. IsAbs f"
  shows "rollback (mem_sys G) c fs (mem_published s et i p) = mem_published (rollback (mem_sys G) c fs s) et i p"
  using assms(1,2,4)
proof (induction fs arbitrary: s)
  case (Cons f fs)
  have f: "IsAbs f" and a: "\<not> hm_done (c_holds c)" "c_AgentID c \<noteq> []"
    using Cons.prems(3) assms(3) by (simp_all add: ready_handle_def)
  have w: "holds_wf (c_holds c) (mem_published s et i p)" using Cons.prems(2) by (simp add: holds_wf_def)
  define s1 where "s1 = snd (holds_Release (mem_sys G) (c_holds c) \<lparr>path_abs = Clean f\<rparr> (c_AgentID c) s)"
  have "snd (holds_Release (mem_sys G) (c_holds c) \<lparr>path_abs = Clean f\<rparr> (c_AgentID c) (mem_published s et i p)) =
      mem_published s1 et i p \<and> quiet s1 \<and> holds_wf (c_holds c) s1"
    unfolding s1_def mem_Release_quiet [OF Cons.prems(1,2) abs_not_zero [OF f] a]
      mem_Release_quiet [OF _ w abs_not_zero [OF f] a, of G, simplified, OF Cons.prems(1)]
    using Cons.prems(1,2) holds_wf_write(2) by (auto simp: mem_write_published split: option.splits)
  then show ?case
    using Cons.IH [of s1] Cons.prems(3) f by (simp add: pathFromTaskFile_abs s1_def)
qed simp

lemma closed_not_reopened:
  "t_Status t = StatusClosed \<Longrightarrow> t_Status u = StatusOpen \<Longrightarrow> t_ClaimedBy u = [] \<Longrightarrow>
   validateTransition t u = Inl ErrInvalidTransition"
  by (simp add: validateTransition_def validStatus_def legalTransition_def checkInvariant11_def)

lemma mem_release_after_close:
  assumes "settled (c_tasks c) s" and "task_of c s i = Some t" and "ready_handle c" and "holds_wf (c_holds c) s"
    and "i \<noteq> []" and "i \<noteq> migrationMarkerKey" and "t_Status t = StatusClosed"
    and "\<forall>f \<in> set held. IsAbs f"
    and "\<forall>f \<in> set held. hold_of c s (file_key f) = None \<or>
      (\<exists>h. hold_of c s (file_key f) = Some h \<and> h_AgentID h = c_AgentID c \<and> mem_now s \<le> h_ExpiresAt h)"
  shows "\<exists>r' c' s'. call_release (mem_sys G) (releaseClosure i held) c s = (None, r', c', s') \<and>
    task_of c s' i = Some t \<and>
    (\<forall>f \<in> set held. hold_of c s' (file_key f) = None) \<and>
    Recover (mem_sys G) (c_tasks c) s' = ((0, Some (ETasks ErrInvalidTransition)), s')"
proof -
  let ?p = "PUnclaimed \<lparr>up_Reason = ''release''\<rparr>" and ?s0 = "rollback (mem_sys G) c held s"
  let ?s1 = "mem_published s EventTypeUnclaimed i ?p" and ?s' = "mem_published ?s0 EventTypeUnclaimed i ?p"
  have q: "quiet s" using settledD(1) [OF assms(1)] .
  have m: "\<not> m_done (c_tasks c)" "m_stream (c_tasks c)" using assms(3) by (simp_all add: ready_handle_def)
  have rb: "holds_set c s (file_key ` set held) None ?s0" by (rule mem_rollback) (use assms q in auto)
  note st = holds_set_task [OF rb assms(3)] and d = holds_setD(5) [OF rb]
  have rel: "releaseHolds (mem_sys G) c held None ?s1 = (None, ?s')"
    using mem_releaseHolds [of ?s1 c held G] mem_rollback_published [OF q assms(4,3,8)] q assms(3,4,8)
    by (simp add: holds_wf_def)
  have call: "\<exists>r' c'. call_release (mem_sys G) (releaseClosure i held) c s = (None, r', c', ?s')"
    using mem_releaseTaskCAS_closed [OF assms(1-3,5,7), of G] rel
    by (simp add: call_release_def releaseClosure_def Let_def)
  have et: "EventTypeUnclaimed = event_type_of ?p" "wf_payload ?p" by (simp_all add: wf_payload_def)
  have "Recover (mem_sys G) (c_tasks c) ?s' = ((0, Some (ETasks ErrInvalidTransition)), ?s')"
    unfolding et(1)
    by (rule Recover_rejects [where t = t and u = "unclaimed_as ?s0 t\<lparr>t_UpdatedAt := logged (mem_now ?s0)\<rparr>",
          OF _ _ _ _ _ _ _ _ _ closed_not_reopened])
      (use st assms(1,2,5-7) m et(2) in \<open>simp_all add: replay_mutator_def unclaimed_replay_def unclaimed_as_def\<close>)
  then show ?thesis using call st assms(2) d by auto
qed

end
