(* ===== verification/Leaf.thy ===== *)
theory Leaf
  imports Coord_Quiet
begin

text \<open>
  \<^verbatim>\<open>coord.Open\<close> and the leaf of a slot: \<^verbatim>\<open>internal/coord/leaf.go\<close> and \<^verbatim>\<open>compact.go\<close>. A leaf is a handle of
  coordination together with an agent of EdgeSync, which owns the slot's repository; the agent is a
  parameter (\<open>agent_sys\<close>), and the locale \<open>leaf_agent\<close> says what is used of it: it works on its repository
  and leaves the buckets to others.
\<close>

section \<open>Opening the handle\<close>

text \<open>
  \<^verbatim>\<open>openSubstrate\<close>: the outcomes of dialling, of creating each bucket and each stream are the record
  \<open>dial\<close>. A manager that was
  opened before a failure is closed again; of what is stored, only the presence entry would have to be
  undone, and it is opened last but for the sessions bucket.
\<close>

record dial =
  d_nats :: "kv_err option"
  d_holds :: "kv_err option"
  d_tasks :: "kv_err option"
  d_stream :: "kv_err option"
  d_archive :: "kv_err option"
  d_chat :: "kv_err option"
  d_presence :: "kv_err option"
  d_sessions :: "kv_err option"

definition tasks_config :: "CoordConfig \<Rightarrow> Config" where
  "tasks_config cfg =
     \<lparr>cfg_BucketName = DefaultBucketName, cfg_HistoryDepth = tc_TaskHistoryDepth (cc_Tuning cfg),
      cfg_MaxValueSize = go_int32 (tc_MaxTaskValueSize (cc_Tuning cfg)), cfg_ChanBuffer = 0,
      cfg_EnableEventLog = True, cfg_RecoverOnOpen = False\<rparr>"

definition archive_config :: "CoordConfig \<Rightarrow> Config" where
  "archive_config cfg =
     \<lparr>cfg_BucketName = archiveBucket, cfg_HistoryDepth = tc_TaskHistoryDepth (cc_Tuning cfg),
      cfg_MaxValueSize = go_int32 (tc_MaxTaskValueSize (cc_Tuning cfg)), cfg_ChanBuffer = 0,
      cfg_EnableEventLog = False, cfg_RecoverOnOpen = False\<rparr>"

definition openChat :: "dial \<Rightarrow> CoordConfig \<Rightarrow> err + ChatManager" where
  "openChat d cfg =
     (case (if cc_ProjectPrefix cfg = [] then projectPrefix (cc_AgentID cfg) else Inr (cc_ProjectPrefix cfg)) of
        Inl e \<Rightarrow> Inl e
      | Inr chatProject \<Rightarrow>
          chat_Open (d_chat d)
            \<lparr>chc_AgentID = cc_AgentID cfg, chc_ProjectPrefix = chatProject, chc_connected = True,
             chc_MaxRetentionAge = tc_ChatRetentionMaxAge (cc_Tuning cfg),
             chc_MaxSubscribers = tc_MaxSubscribers (cc_Tuning cfg)\<rparr>)"

definition openSubstrate ::
  "'s sys \<Rightarrow> dial \<Rightarrow> CoordConfig \<Rightarrow> 's \<Rightarrow> (err + HoldsManager \<times> Manager \<times> Manager \<times> ChatManager \<times> PresenceManager) \<times> 's" where
  "openSubstrate js d cfg s =
     (case d_nats d of
        Some x \<Rightarrow> (Inl (EKV x), s)
      | None \<Rightarrow>
          (case holds_Open (d_holds d) holdsBucket (tc_HoldTTLMax (cc_Tuning cfg)) 0 of
             Inl e \<Rightarrow> (Inl e, s)
           | Inr hm \<Rightarrow>
               (case tasks_Open js (d_tasks d) (d_stream d) (tasks_config cfg) s of
                  (Inl e, s1) \<Rightarrow> (Inl e, s1)
                | (Inr tm, s1) \<Rightarrow>
                    (case tasks_Open js (d_archive d) None (archive_config cfg) s1 of
                       (Inl e, s2) \<Rightarrow> (Inl e, s2)
                     | (Inr am, s2) \<Rightarrow>
                         (case openChat d cfg of
                            Inl e \<Rightarrow> (Inl e, s2)
                          | Inr cm \<Rightarrow>
                              (case projectPrefix (cc_AgentID cfg) of
                                 Inl e \<Rightarrow> (Inl e, s2)
                               | Inr project \<Rightarrow>
                                   (case presence_Open js (d_presence d)
                                           \<lparr>pc_AgentID = cc_AgentID cfg, pc_Project = project, pc_Bucket = presenceBucket,
                                            pc_connected = True, pc_HeartbeatInterval = tc_HeartbeatInterval (cc_Tuning cfg),
                                            pc_ChanBuffer = 0\<rparr> s2 of
                                      (Inl e, s3) \<Rightarrow> (Inl e, s3)
                                    | (Inr pm, s3) \<Rightarrow>
                                        (case d_sessions d of
                                           Some x \<Rightarrow> (Inl (EKV x), snd (presence_Close js pm s3))
                                         | None \<Rightarrow> (Inr (hm, tm, am, cm, pm), s3)))))))))"

definition coord_Open :: "'s sys \<Rightarrow> dial \<Rightarrow> CoordConfig \<Rightarrow> 's \<Rightarrow> (err + Coord) \<times> 's" where
  "coord_Open js d cfg0 s =
     (let cfg = cfg0\<lparr>cc_Tuning := defaultTuning (cc_Tuning cfg0)\<rparr> in
      case Validate cfg of
        Inl e \<Rightarrow> (Inl e, s)
      | Inr _ \<Rightarrow>
          (case openSubstrate js d cfg s of
             (Inl e, s') \<Rightarrow> (Inl e, s')
           | (Inr (hm, tm, am, cm, pm), s') \<Rightarrow>
               (Inr \<lparr>c_AgentID = cc_AgentID cfg, c_Tuning = cc_Tuning cfg, c_tasks = tm, c_archive = am,
                     c_holds = hm, c_chat = cm, c_presence = pm, c_closed = False, c_epochs = Map.empty\<rparr>, s')))"

section \<open>The agent of a leaf\<close>

record FileToCommit =
  ftc_Name :: string
  ftc_Content :: string

record CommitOpts =
  co_Files :: "FileToCommit list"
  co_Message :: string
  co_Author :: string
  co_Tags :: "(string \<times> string) list"

record SyncOpts =
  so_Pull :: bool
  so_Push :: bool
  so_User :: string
  so_ProjectCode :: string

record 's agent_sys =
  ag_Commit :: "'s \<Rightarrow> CommitOpts \<Rightarrow> (err + string) \<times> 's"
  ag_SyncTo :: "'s \<Rightarrow> string \<Rightarrow> SyncOpts \<Rightarrow> (err + unit) \<times> 's"
  ag_SyncNow :: "'s \<Rightarrow> 's"

section \<open>The leaf\<close>

record Claim =
  cl_taskID :: string
  cl_release :: ReleaseClosure

record Leaf =
  lf_coord :: Coord
  lf_slotID :: string
  lf_claimTTL :: duration
  lf_fossilUser :: string
  lf_hubHTTPAddr :: string
  lf_projectCode :: string
  lf_autosync :: bool

record HubAddrs =
  ha_LeafUpstream :: string
  ha_NATSClient :: string
  ha_HTTPAddr :: string

definition HubAddrs_IsEmpty :: "HubAddrs \<Rightarrow> bool" where
  "HubAddrs_IsEmpty a = (ha_LeafUpstream a = [] \<and> ha_NATSClient a = [] \<and> ha_HTTPAddr a = [])"

text \<open>\<open>hub\<close> are the three addresses of an in-process hub, when there is one.\<close>

definition resolveHubAddrs :: "HubAddrs option \<Rightarrow> HubAddrs \<Rightarrow> err + HubAddrs" where
  "resolveHubAddrs hub addrs =
     (case hub of
        Some h \<Rightarrow> Inr h
      | None \<Rightarrow>
          if HubAddrs_IsEmpty addrs then Inl (EMsg ''coord.OpenLeaf: neither cfg.Hub nor cfg.HubAddrs is set'')
          else if ha_NATSClient addrs = [] then Inl (EMsg ''coord.OpenLeaf: cfg.HubAddrs.NATSClient is empty'')
          else if ha_HTTPAddr addrs = [] then Inl (EMsg ''coord.OpenLeaf: cfg.HubAddrs.HTTPAddr is empty'')
          else Inr addrs)"

definition openLeafCoord :: "'s sys \<Rightarrow> dial \<Rightarrow> string \<Rightarrow> string \<Rightarrow> string \<Rightarrow> 's \<Rightarrow> (err + Coord) \<times> 's" where
  "openLeafCoord js d slotID natsURL slotDir s =
     coord_Open js d \<lparr>cc_AgentID = slotID @ ''-leaf'', cc_NATSURL = natsURL, cc_CheckoutRoot = slotDir,
       cc_ProjectPrefix = [], cc_Tuning = zero_Tuning\<rparr> s"

definition leaf_ttl :: "Leaf \<Rightarrow> duration" where
  "leaf_ttl l = (if lf_claimTTL l \<noteq> 0 then lf_claimTTL l else tc_HoldTTLDefault (c_Tuning (lf_coord l)))"

definition Leaf_OpenTask :: "'s sys \<Rightarrow> 8 word list \<Rightarrow> string \<Rightarrow> string list \<Rightarrow> Leaf \<Rightarrow> 's \<Rightarrow> (err + string) \<times> 's" where
  "Leaf_OpenTask js rnd title files l s = OpenTask js rnd title files (lf_coord l) s"

definition Leaf_Claim :: "'s sys \<Rightarrow> string \<Rightarrow> Leaf \<Rightarrow> 's \<Rightarrow> (err + Claim) \<times> Leaf \<times> 's" where
  "Leaf_Claim js taskID l s =
     (case coord_Claim js taskID (leaf_ttl l) (lf_coord l) s of
        (Inl e, c, s') \<Rightarrow> (Inl e, l\<lparr>lf_coord := c\<rparr>, s')
      | (Inr held, c, s') \<Rightarrow>
          (Inr \<lparr>cl_taskID = taskID, cl_release = releaseClosure taskID held\<rparr>, l\<lparr>lf_coord := c\<rparr>, s'))"

definition Claim_Release :: "'s sys \<Rightarrow> Claim \<Rightarrow> Leaf \<Rightarrow> 's \<Rightarrow> err option \<times> Claim \<times> Leaf \<times> 's" where
  "Claim_Release js cl l s =
     (case call_release js (cl_release cl) (lf_coord l) s of
        (e, r, c, s') \<Rightarrow> (e, cl\<lparr>cl_release := r\<rparr>, l\<lparr>lf_coord := c\<rparr>, s'))"

text \<open>\<^verbatim>\<open>AnnounceHolds\<close> returns the paths its release closure will hand to \<^verbatim>\<open>rollback\<close>.\<close>

definition AnnounceHolds :: "'s sys \<Rightarrow> string list \<Rightarrow> Leaf \<Rightarrow> 's \<Rightarrow> (err + string list) \<times> 's" where
  "AnnounceHolds js paths l s =
     (if paths = [] then (Inr [], s)
      else case claimAll js (lf_coord l) (lf_slotID l) paths (leaf_ttl l) [] s of
             ((held, Some herr), s1) \<Rightarrow>
               if is_panic herr then (Inl herr, s1) else (Inl herr, rollback js (lf_coord l) held s1)
           | ((held, None), s1) \<Rightarrow> (Inr held, s1))"

definition ProbeSubstrate :: "'s sys \<Rightarrow> Leaf \<Rightarrow> 's \<Rightarrow> (err + unit) \<times> 's" where
  "ProbeSubstrate js l s = Probe js (c_holds (lf_coord l)) s"

section \<open>Commit\<close>

record File =
  f_Path :: Path
  f_Name :: string
  f_Content :: string

record commitConfig =
  cmc_message :: string
  cmc_user :: string
  cmc_tags :: "(string \<times> string) list"

type_synonym CommitOption = "commitConfig \<Rightarrow> commitConfig"

definition WithMessage :: "string \<Rightarrow> CommitOption" where
  "WithMessage msg c = c\<lparr>cmc_message := msg\<rparr>"

definition WithUser :: "string \<Rightarrow> CommitOption" where
  "WithUser user c = c\<lparr>cmc_user := user\<rparr>"

definition WithTags :: "(string \<times> string) list \<Rightarrow> CommitOption" where
  "WithTags tags c = c\<lparr>cmc_tags := tags\<rparr>"

definition apply_options :: "CommitOption list \<Rightarrow> commitConfig" where
  "apply_options opts = foldl (\<lambda>c opt. opt c) \<lparr>cmc_message = [], cmc_user = [], cmc_tags = []\<rparr> opts"

definition commitMessage :: "Claim \<Rightarrow> string" where
  "commitMessage c = ''leaf commit for task '' @ cl_taskID c"

definition normalizeLeadingSlash :: "string \<Rightarrow> string" where
  "normalizeLeadingSlash p = (case p of c # cs \<Rightarrow> if c = CHR ''/'' then cs else p | [] \<Rightarrow> p)"

definition pullFromHub :: "'s agent_sys \<Rightarrow> Leaf \<Rightarrow> 's \<Rightarrow> (err + unit) \<times> 's" where
  "pullFromHub ag l s =
     ag_SyncTo ag s (lf_hubHTTPAddr l)
       \<lparr>so_Pull = True, so_Push = False,
        so_User = (if lf_fossilUser l = [] then lf_slotID l else lf_fossilUser l), so_ProjectCode = lf_projectCode l\<rparr>"

definition Leaf_Push :: "'s agent_sys \<Rightarrow> string \<Rightarrow> string \<Rightarrow> string \<Rightarrow> Leaf \<Rightarrow> 's \<Rightarrow> (err + unit) \<times> 's" where
  "Leaf_Push ag hubURL fossilUser projectCode l s =
     (if hubURL = [] then (Inl (EPanic ''coord.Leaf.Push: hubURL is empty''), s)
      else ag_SyncTo ag s hubURL
             \<lparr>so_Pull = False, so_Push = True,
              so_User = (if fossilUser = [] then lf_slotID l else fossilUser), so_ProjectCode = projectCode\<rparr>)"

fun files_to_commit :: "File list \<Rightarrow> err + FileToCommit list" where
  "files_to_commit [] = Inr []"
| "files_to_commit (f # fs) =
     (if IsZero (f_Path f) then Inl (EPanic ''coord.Leaf.Commit: file.Path is the zero Path'')
      else case files_to_commit fs of
             Inl e \<Rightarrow> Inl e
           | Inr out \<Rightarrow>
               Inr (\<lparr>ftc_Name = (if f_Name f = [] then normalizeLeadingSlash (path_abs (f_Path f)) else f_Name f),
                     ftc_Content = f_Content f\<rparr> # out))"

definition commit_opts :: "Leaf \<Rightarrow> Claim \<Rightarrow> commitConfig \<Rightarrow> FileToCommit list \<Rightarrow> CommitOpts" where
  "commit_opts l claim co toCommit =
     \<lparr>co_Files = toCommit,
      co_Message = (if cmc_message co \<noteq> [] then cmc_message co else commitMessage claim),
      co_Author = (if cmc_user co \<noteq> [] then cmc_user co
                   else if lf_fossilUser l \<noteq> [] then lf_fossilUser l else lf_slotID l),
      co_Tags = cmc_tags co\<rparr>"

definition Leaf_Commit ::
  "'s sys \<Rightarrow> 's agent_sys \<Rightarrow> Claim \<Rightarrow> File list \<Rightarrow> CommitOption list \<Rightarrow> Leaf \<Rightarrow> 's \<Rightarrow> (err + string) \<times> 's" where
  "Leaf_Commit js ag claim files opts l s =
     (if files = [] then (Inl (EPanic ''coord.Leaf.Commit: files is empty''), s)
      else case checkHolds js (lf_coord l) (map f_Path files) s of
             (Inl e, s1) \<Rightarrow> (Inl e, s1)
           | (Inr _, s1) \<Rightarrow>
               (case checkEpoch js (lf_coord l) (cl_taskID claim) s1 of
                  (Inl e, s2) \<Rightarrow> (Inl e, s2)
                | (Inr _, s2) \<Rightarrow>
                    (case (if lf_autosync l then pullFromHub ag l s2 else (Inr (), s2)) of
                       (Inl e, s3) \<Rightarrow> (Inl e, s3)
                     | (Inr _, s3) \<Rightarrow>
                         (case files_to_commit files of
                            Inl e \<Rightarrow> (Inl e, s3)
                          | Inr toCommit \<Rightarrow>
                              (case ag_Commit ag s3 (commit_opts l claim (apply_options opts) toCommit) of
                                 (Inl e, s4) \<Rightarrow> (Inl e, s4)
                               | (Inr uuid, s4) \<Rightarrow> (Inr uuid, ag_SyncNow ag s4))))))"

definition Leaf_Close :: "'s sys \<Rightarrow> Claim \<Rightarrow> Leaf \<Rightarrow> 's \<Rightarrow> err option \<times> Claim \<times> Leaf \<times> 's" where
  "Leaf_Close js claim l s =
     (case CloseTask js (cl_taskID claim) ''leaf close'' (lf_coord l) s of
        (Inl e, s1) \<Rightarrow> (Some e, claim, l, s1)
      | (Inr _, s1) \<Rightarrow> Claim_Release js claim l s1)"

section \<open>Compaction of closed tasks\<close>

record CompactInput =
  ci_TaskID :: string
  ci_Title :: string
  ci_Files :: "string list"
  ci_Context :: strmap
  ci_CreatedAt :: time_ns
  ci_ClosedAt :: time_ns
  ci_ClosedBy :: string
  ci_ClosedReason :: string
  ci_CompactLevel :: "8 word"

record CompactedTask =
  cpt_TaskID :: string
  cpt_Path :: string
  cpt_Rev :: string
  cpt_CompactLevel :: "8 word"
  cpt_Pruned :: bool

definition closed_at :: "Task \<Rightarrow> time_ns" where
  "closed_at t = (case t_ClosedAt t of None \<Rightarrow> zero_time | Some x \<Rightarrow> x)"

definition compact_less :: "Task \<Rightarrow> Task \<Rightarrow> bool" where
  "compact_less x y = (closed_at x < closed_at y)"

fun compact_filter :: "Task list \<Rightarrow> time_ns \<Rightarrow> duration \<Rightarrow> Task list" where
  "compact_filter [] now minAge = []"
| "compact_filter (r # rs) now minAge =
     (if t_Status r \<noteq> StatusClosed \<or> t_ClosedAt r = None then compact_filter rs now minAge
      else if t_CompactLevel r \<noteq> 0 then compact_filter rs now minAge
      else if now - closed_at r < minAge then compact_filter rs now minAge
      else r # compact_filter rs now minAge)"

definition eligibleCompactionTasks :: "Task list \<Rightarrow> time_ns \<Rightarrow> duration \<Rightarrow> Task list" where
  "eligibleCompactionTasks records now minAge = slice_stable compact_less (compact_filter records now minAge)"

definition compactInput :: "Task \<Rightarrow> CompactInput" where
  "compactInput r =
     \<lparr>ci_TaskID = t_ID r, ci_Title = t_Title r, ci_Files = t_Files r, ci_Context = t_Context r,
      ci_CreatedAt = t_CreatedAt r, ci_ClosedAt = closed_at r, ci_ClosedBy = t_ClosedBy r,
      ci_ClosedReason = t_ClosedReason r, ci_CompactLevel = t_CompactLevel r\<rparr>"

definition compactArtifactPath :: "string \<Rightarrow> 8 word \<Rightarrow> string" where
  "compactArtifactPath taskID level = ''compaction/tasks/'' @ taskID @ ''/level-'' @ itoa (unat level) @ ''.md''"

definition compactCommitMessage :: "string \<Rightarrow> 8 word \<Rightarrow> string" where
  "compactCommitMessage taskID level = ''compact task '' @ taskID @ '' level '' @ itoa (unat level)"

definition nl :: string where
  "nl = [char_of (10 :: nat)]"

definition compactArtifactBody :: "CompactInput \<Rightarrow> string \<Rightarrow> string" where
  "compactArtifactBody i summary =
     ''# Compaction for '' @ ci_TaskID i @ nl @ nl @ ''level: '' @ itoa (unat (ci_CompactLevel i + 1)) @ nl @ nl @
     ''summary:'' @ nl @ summary @ nl"

definition compactOriginalSize :: "'s sys \<Rightarrow> Task \<Rightarrow> 64 word" where
  "compactOriginalSize js r = word_of_nat (js_Len js (encode r))"

definition compact_mutator :: "64 word \<Rightarrow> 8 word \<Rightarrow> time_ns \<Rightarrow> mutator" where
  "compact_mutator sz level now _ cur =
     (if t_Status cur \<noteq> StatusClosed then Inl (ECoord ErrTaskAlreadyClosed)
      else Inr (cur\<lparr>t_OriginalSize := sz, t_CompactLevel := level, t_CompactedAt := Some now, t_UpdatedAt := now\<rparr>))"

definition getAndArchiveTask :: "'s sys \<Rightarrow> string \<Rightarrow> Coord \<Rightarrow> 's \<Rightarrow> (err + unit) \<times> 's" where
  "getAndArchiveTask js i c s =
     (case tasks_Get js (c_tasks c) i s of
        (Inl e, s1) \<Rightarrow> (Inl e, s1)
      | (Inr (archived, _), s1) \<Rightarrow>
          (case AdminWrite_Create js (c_archive c) archived s1 of
             (Inl e, s2) \<Rightarrow> if e \<noteq> ETasks ErrAlreadyExists then (Inl e, s2) else tasks_Purge js (c_tasks c) i s2
           | (Inr _, s2) \<Rightarrow> tasks_Purge js (c_tasks c) i s2))"

text \<open>\<open>summarize\<close> is the caller's \<^verbatim>\<open>Summarizer\<close>.\<close>

definition compactOne ::
  "'s sys \<Rightarrow> 's agent_sys \<Rightarrow> (CompactInput \<Rightarrow> err + string) \<Rightarrow> Leaf \<Rightarrow> Task \<Rightarrow> time_ns \<Rightarrow> bool \<Rightarrow> 's \<Rightarrow>
   (err + CompactedTask) \<times> 's" where
  "compactOne js ag summarize l r now prune s =
     (let inp = compactInput r in
      case summarize inp of
        Inl e \<Rightarrow> (Inl e, s)
      | Inr summary \<Rightarrow>
          let level = t_CompactLevel r + 1; path = compactArtifactPath (t_ID r) level in
          (case ag_Commit ag s
                  \<lparr>co_Files = [\<lparr>ftc_Name = normalizeLeadingSlash path, ftc_Content = compactArtifactBody inp summary\<rparr>],
                   co_Message = compactCommitMessage (t_ID r) level, co_Author = lf_slotID l, co_Tags = []\<rparr> of
             (Inl e, s1) \<Rightarrow> (Inl e, s1)
           | (Inr uuid, s1) \<Rightarrow>
               (case AdminWrite_Update js (c_tasks (lf_coord l)) (t_ID r)
                       (compact_mutator (compactOriginalSize js r) level now) (ag_SyncNow ag s1) of
                  (Inl e, s2) \<Rightarrow> (Inl e, s2)
                | (Inr _, s2) \<Rightarrow>
                    (case (if prune then getAndArchiveTask js (t_ID r) (lf_coord l) s2 else (Inr (), s2)) of
                       (Inl e, s3) \<Rightarrow> (Inl e, s3)
                     | (Inr _, s3) \<Rightarrow>
                         (Inr \<lparr>cpt_TaskID = t_ID r, cpt_Path = path, cpt_Rev = uuid, cpt_CompactLevel = level,
                               cpt_Pruned = prune\<rparr>, s3)))))"

fun compact_loop ::
  "'s sys \<Rightarrow> 's agent_sys \<Rightarrow> (CompactInput \<Rightarrow> err + string) \<Rightarrow> Leaf \<Rightarrow> ('s \<Rightarrow> time_ns) \<Rightarrow> bool \<Rightarrow> Task list \<Rightarrow>
   CompactedTask list \<Rightarrow> 's \<Rightarrow> (CompactedTask list \<times> err option) \<times> 's" where
  "compact_loop js ag summarize l nowFn prune [] acc s = ((acc, None), s)"
| "compact_loop js ag summarize l nowFn prune (r # rs) acc s =
     (case compactOne js ag summarize l r (nowFn s) prune s of
        (Inl e, s') \<Rightarrow> ((acc, Some e), s')
      | (Inr ct, s') \<Rightarrow> compact_loop js ag summarize l nowFn prune rs (acc @ [ct]) s')"

text \<open>\<open>nowFn\<close> is \<^verbatim>\<open>opts.Now\<close> or the clock.\<close>

definition Compact ::
  "'s sys \<Rightarrow> 's agent_sys \<Rightarrow> (CompactInput \<Rightarrow> err + string) \<Rightarrow> duration \<Rightarrow> int \<Rightarrow> ('s \<Rightarrow> time_ns) \<Rightarrow> bool \<Rightarrow> Leaf \<Rightarrow> 's \<Rightarrow>
   (CompactedTask list \<times> err option) \<times> 's" where
  "Compact js ag summarize minAge limit nowFn prune l s =
     (if \<not> limit > 0 then (([], Some (EPanic ''coord.Leaf.Compact: Limit must be > 0'')), s)
      else case tasks_List js (c_tasks (lf_coord l)) s of
             (Inl e, s1) \<Rightarrow> (([], Some e), s1)
           | (Inr records, s1) \<Rightarrow>
               let eligible = eligibleCompactionTasks records (nowFn s1) minAge;
                   chosen = (if int (length eligible) > limit then take (nat limit) eligible else eligible)
               in compact_loop js ag summarize l nowFn prune chosen [] s1)"

section \<open>The contract of the agent\<close>

locale leaf_agent = jetstream js ob rely
  for js :: "'s sys" and ob :: "'s obs" and rely :: "'s \<Rightarrow> 's \<Rightarrow> bool" +
  fixes ag :: "'s agent_sys"
  assumes commit_rely: "ag_Commit ag s opts = (r, s') \<Longrightarrow> rely s s'"
    and sync_rely: "ag_SyncTo ag s url sopts = (y, s') \<Longrightarrow> rely s s'"
    and sync_now_rely: "rely s (ag_SyncNow ag s)"
begin

text \<open>A compaction that reports success replaced, in one atomic step, a closed record by the same record
  with new compaction metadata.\<close>

lemma compactOne_update:
  assumes "compactOne js ag summarize l r now False s = (Inr ct, s')"
  obtains s1 cur rv where "record_at (o_view ob s1) (m_bucket (c_tasks (lf_coord l))) (t_ID r) = Some cur"
    and "t_Status cur = StatusClosed"
    and "wrote ob s1 s' (m_bucket (c_tasks (lf_coord l))) (t_ID r)
      (put_entry (encode (cur\<lparr>t_OriginalSize := compactOriginalSize js r, t_CompactLevel := t_CompactLevel r + 1,
         t_CompactedAt := Some now, t_UpdatedAt := now\<rparr>)) rv)"
    and "cpt_TaskID ct = t_ID r" and "cpt_CompactLevel ct = t_CompactLevel r + 1"
proof -
  from assms obtain s2 t where
    up: "tasks_update js (c_tasks (lf_coord l)) (t_ID r)
      (compact_mutator (compactOriginalSize js r) (t_CompactLevel r + 1) now) s2 = (Inr t, s')"
    and ct: "cpt_TaskID ct = t_ID r" "cpt_CompactLevel ct = t_CompactLevel r + 1"
    by (auto simp: compactOne_def admin_defs Let_def split: sum.splits prod.splits)
  from up obtain s1 cur n rv where rec: "record_at (o_view ob s1) (m_bucket (c_tasks (lf_coord l))) (t_ID r) = Some cur"
    and mut: "compact_mutator (compactOriginalSize js r) (t_CompactLevel r + 1) now n cur = Inr t"
    and w: "wrote ob s1 s' (m_bucket (c_tasks (lf_coord l))) (t_ID r) (put_entry (encode t) rv)"
    by (rule update_atomic)
  from mut have "t_Status cur = StatusClosed" and "t = cur\<lparr>t_OriginalSize := compactOriginalSize js r,
      t_CompactLevel := t_CompactLevel r + 1, t_CompactedAt := Some now, t_UpdatedAt := now\<rparr>"
    by (auto simp: compact_mutator_def split: if_splits)
  with rec w ct that show ?thesis by simp
qed

end

text \<open>An agent that records nothing and accepts every commit.\<close>

definition mem_agent :: "mem agent_sys" where
  "mem_agent = \<lparr>ag_Commit = (\<lambda>s opts. (Inr (co_Message opts), s)), ag_SyncTo = (\<lambda>s url opts. (Inr (), s)), ag_SyncNow = (\<lambda>s. s)\<rparr>"

interpretation mem_leaf: leaf_agent "mem_sys G" mem_obs "mem_rely G" mem_agent for G
  by unfold_locales (simp_all add: mem_agent_def mem.rely_refl)

section \<open>The gates\<close>

text \<open>In state \<open>s\<close> the handle's agent has a live hold on the file.\<close>

definition held_by :: "'s sys \<Rightarrow> 's obs \<Rightarrow> Coord \<Rightarrow> Path \<Rightarrow> 's \<Rightarrow> bool" where
  "held_by js ob c p s =
     (case hold_at (o_view ob s) (hm_Bucket (c_holds c)) (keyOf p) of
        None \<Rightarrow> False
      | Some h \<Rightarrow> h_AgentID h = c_AgentID c \<and> js_Now js s \<le> h_ExpiresAt h)"

context jetstream
begin

lemma checkHolds_loop_sound:
  "checkHolds_loop js c ps notHeld s = (Inr [], s') \<Longrightarrow> notHeld = [] \<and> (\<forall>p \<in> set ps. \<exists>s1. held_by js ob c p s1)"
proof (induction ps arbitrary: notHeld s)
  case (Cons p ps)
  then obtain ho s1 where w: "WhoHas js (c_holds c) p s = (Inr ho, s1)"
    and l: "checkHolds_loop js c ps
      (if (case ho of None \<Rightarrow> True | Some h \<Rightarrow> h_AgentID h \<noteq> c_AgentID c) then notHeld @ [path_abs p] else notHeld) s1 = (Inr [], s')"
    by (auto split: sum.splits prod.splits)
  from Cons.IH [OF l] obtain h where h: "ho = Some h" "h_AgentID h = c_AgentID c" and n: "notHeld = []"
    and r: "\<forall>p \<in> set ps. \<exists>s1. held_by js ob c p s1"
    by (auto split: option.splits if_splits)
  have "held_by js ob c p s1" using WhoHas_sound [of "c_holds c" p s h s1] w h by (auto simp: held_by_def)
  with n r show ?case by auto
qed simp

lemma checkEpoch_sound:
  assumes "checkEpoch js c i s = (Inr (), s')"
  shows "\<exists>s1 t. record_at (o_view ob s1) (m_bucket (c_tasks c)) i = Some t \<and> t_ClaimEpoch t = known_epoch c i"
proof -
  from assms obtain cur rv where g: "tasks_Get js (c_tasks c) i s = (Inr (cur, rv), s')"
    and e: "t_ClaimEpoch cur = known_epoch c i"
    by (auto simp: checkEpoch_def split: sum.splits prod.splits if_splits)
  from g obtain e' s1 t where "o_view ob s1 (m_bucket (c_tasks c)) i = Some e'" "e_Operation e' = KeyValuePut"
    "decode (e_Value e') = Some t" "cur = fst (migrateDecodedTask t)" by (rule tasks_Get_ok)
  with e show ?thesis using record_at_entry by blast
qed

end

lemma files_to_commit_length: "files_to_commit fs = Inr out \<Longrightarrow> length out = length fs"
  by (induction fs arbitrary: out) (auto split: if_splits sum.splits)

section \<open>Where a leaf looks for other agents\<close>

lemma last_index_append:
  "last_index c (xs @ ys) =
   (case last_index c ys of Some i \<Rightarrow> Some (length xs + i) | None \<Rightarrow> last_index c xs)"
  by (induction xs) (auto split: option.splits)

lemma projectPrefix_leaf: "slot \<noteq> [] \<Longrightarrow> projectPrefix (slot @ ''-leaf'') = Inr slot"
  by (simp add: projectPrefix_def last_index_append)

lemma presence_key_scope:
  assumes "CHR ''/'' \<notin> set p" and "CHR ''/'' \<notin> set q" and "has_prefix (presence_keyOf p a) (q @ ''/'')"
  shows "p = q"
proof -
  have "splitKey (presence_keyOf p a) = Some (p, a)" by (rule splitKey_keyOf [OF assms(1)])
  moreover obtain r where "presence_keyOf p a = presence_keyOf q r"
    using assms(3) by (auto simp: has_prefix_iff presence_keyOf_def)
  moreover have "splitKey (presence_keyOf q r) = Some (q, r)" for r by (rule splitKey_keyOf [OF assms(2)])
  ultimately show ?thesis by simp
qed

section \<open>Order of compaction\<close>

interpretation compact_order: keyed_less compact_less closed_at
  by unfold_locales (simp add: compact_less_def)

lemma compact_filter_eq:
  "compact_filter rs now minAge =
   filter (\<lambda>r. t_Status r = StatusClosed \<and> t_ClosedAt r \<noteq> None \<and> t_CompactLevel r = 0 \<and> minAge \<le> now - closed_at r) rs"
  by (induction rs) auto

section \<open>Closing through a leaf\<close>

lemma mem_Leaf_Close:
  assumes "settled (c_tasks c) s" and "task_of c s i = Some t" and "ready_handle c" and "holds_wf (c_holds c) s"
    and "i \<noteq> []" and "i \<noteq> migrationMarkerKey" and "t_Status t = StatusClaimed" and "t_ClaimedBy t = c_AgentID c"
    and "t_ClaimEpoch t = known_epoch c i"
    and "\<forall>f \<in> set held. IsAbs f"
    and "\<forall>f \<in> set held. hold_of c s (file_key f) = None \<or>
      (\<exists>h. hold_of c s (file_key f) = Some h \<and> h_AgentID h = c_AgentID c \<and> mem_now s \<le> h_ExpiresAt h)"
    and "encodeBounded (mem_sys G) (c_tasks c) (closed_as c ''leaf close'' s t) = Inr (encode (closed_as c ''leaf close'' s t))"
    and "lf_coord l = c" and "cl_taskID cl = i" and "cl_release cl = releaseClosure i held"
  shows "\<exists>cl' l' s'. Leaf_Close (mem_sys G) cl l s = (None, cl', l', s') \<and>
    task_of c s' i = Some (closed_as c ''leaf close'' s t) \<and>
    (\<forall>f \<in> set held. hold_of c s' (file_key f) = None) \<and>
    Recover (mem_sys G) (c_tasks c) s' = ((0, Some (ETasks ErrInvalidTransition)), s')"
proof -
  obtain s1 where s1: "CloseTask (mem_sys G) i ''leaf close'' c s = (Inr (), s1)" "settled (c_tasks c) s1"
    "task_of c s1 i = Some (closed_as c ''leaf close'' s t)" "\<forall>k. hold_of c s1 k = hold_of c s k"
    "mem_now s1 = mem_now s" "holds_wf (c_holds c) s1"
    using mem_CloseTask [OF assms(1-3,5-9,12)] assms(4) by blast
  have "t_Status (closed_as c ''leaf close'' s t) = StatusClosed" by (simp add: closed_as_def applyClose_def)
  from mem_release_after_close [OF s1(2,3) assms(3) s1(6) assms(5,6) this assms(10), of G] s1(4,5) assms(11)
  obtain r' c' s' where "call_release (mem_sys G) (releaseClosure i held) c s1 = (None, r', c', s')"
    "task_of c s' i = Some (closed_as c ''leaf close'' s t)" "\<forall>f \<in> set held. hold_of c s' (file_key f) = None"
    "Recover (mem_sys G) (c_tasks c) s' = ((0, Some (ETasks ErrInvalidTransition)), s')"
    by auto
  with s1(1) assms(13-15) show ?thesis by (simp add: Leaf_Close_def Claim_Release_def)
qed

end
