(* ===== verification/Sessions.thy ===== *)
theory Sessions
  imports Wspath JetStream
begin

text \<open>
  \<^verbatim>\<open>internal/swarm/session.go\<close> and \<^verbatim>\<open>swarm.go\<close>: the bucket of session records, one per slot, that says which
  slot works on which task, on which host, and when it last showed life. A record is created only where
  none lives, and changed or deleted against its revision. The first half of the lemmas holds under any
  interference; the second half computes the operations on a quiet substrate.
\<close>

section \<open>The record\<close>

record Session =
  sn_Slot :: string
  sn_TaskID :: string
  sn_AgentID :: string
  sn_Host :: string
  sn_LeafPID :: int
  sn_HubURL :: string
  sn_StartedAt :: time_ns
  sn_LastRenewed :: time_ns

definition session_encode :: "Session \<Rightarrow> json" where
  "session_encode x =
     JObj (member ''slot'' (JStr (sn_Slot x)) @ member ''task_id'' (JStr (sn_TaskID x)) @
           member ''agent_id'' (JStr (sn_AgentID x)) @ member ''host'' (JStr (sn_Host x)) @
           member ''leaf_pid'' (JNum (sn_LeafPID x)) @
           member_omit (sn_HubURL x = []) ''hub_url'' (JStr (sn_HubURL x)) @
           member ''started_at'' (JTime (sn_StartedAt x)) @ member ''last_renewed'' (JTime (sn_LastRenewed x)))"

definition session_field :: "string \<Rightarrow> json \<Rightarrow> Session \<Rightarrow> Session option" where
  "session_field k j x =
     (if k = ''slot'' then map_option (\<lambda>v. x\<lparr>sn_Slot := v\<rparr>) (into_string (sn_Slot x) j)
      else if k = ''task_id'' then map_option (\<lambda>v. x\<lparr>sn_TaskID := v\<rparr>) (into_string (sn_TaskID x) j)
      else if k = ''agent_id'' then map_option (\<lambda>v. x\<lparr>sn_AgentID := v\<rparr>) (into_string (sn_AgentID x) j)
      else if k = ''host'' then map_option (\<lambda>v. x\<lparr>sn_Host := v\<rparr>) (into_string (sn_Host x) j)
      else if k = ''leaf_pid'' then map_option (\<lambda>v. x\<lparr>sn_LeafPID := v\<rparr>) (into_int (sn_LeafPID x) j)
      else if k = ''hub_url'' then map_option (\<lambda>v. x\<lparr>sn_HubURL := v\<rparr>) (into_string (sn_HubURL x) j)
      else if k = ''started_at'' then map_option (\<lambda>v. x\<lparr>sn_StartedAt := v\<rparr>) (into_time (sn_StartedAt x) j)
      else if k = ''last_renewed'' then map_option (\<lambda>v. x\<lparr>sn_LastRenewed := v\<rparr>) (into_time (sn_LastRenewed x) j)
      else Some x)"

definition session_decode :: "json \<Rightarrow> Session option" where
  "session_decode j =
     into_struct session_field
       \<lparr>sn_Slot = [], sn_TaskID = [], sn_AgentID = [], sn_Host = [], sn_LeafPID = 0, sn_HubURL = [],
        sn_StartedAt = zero_time, sn_LastRenewed = zero_time\<rparr> j"

lemma session_decode_encode [simp]: "session_decode (session_encode x) = Some x"
  by (cases "sn_HubURL x = []")
    (simp_all add: session_decode_def session_encode_def into_fields_simps session_field_def member_omit_def)

interpretation session_wire: wire_format session_encode session_decode "\<lambda>_. True"
  by unfold_locales simp

section \<open>The handle\<close>

definition swarm_DefaultBucketName :: string where
  "swarm_DefaultBucketName = ''bones-swarm-sessions''"

definition DefaultTTL :: duration where
  "DefaultTTL = 5 * 60 * 1000000000"

record swarm_Config =
  sc_connected :: bool
  sc_BucketName :: string
  sc_TTL :: duration

definition swarm_Validate :: "swarm_Config \<Rightarrow> err + unit" where
  "swarm_Validate c = (if \<not> sc_connected c then Inl (EMsg ''swarm.Config: NATSConn is nil'') else Inr ())"

record Sessions =
  ss_Bucket :: string
  ss_TTL :: duration
  ss_closed :: bool

text \<open>\<open>kv\<close> is the outcome of creating the client and the bucket.\<close>

definition swarm_Open :: "kv_err option \<Rightarrow> swarm_Config \<Rightarrow> err + Sessions" where
  "swarm_Open kv c =
     (case swarm_Validate c of
        Inl e \<Rightarrow> Inl e
      | Inr _ \<Rightarrow>
          (case kv of
             Some x \<Rightarrow> Inl (EKV x)
           | None \<Rightarrow>
               Inr \<lparr>ss_Bucket = (if sc_BucketName c = [] then swarm_DefaultBucketName else sc_BucketName c),
                    ss_TTL = (if sc_TTL c = 0 then DefaultTTL else sc_TTL c), ss_closed = False\<rparr>))"

definition sessions_Close :: "Sessions \<Rightarrow> Sessions" where
  "sessions_Close ss = ss\<lparr>ss_closed := True\<rparr>"

definition sessions_Get :: "'s sys \<Rightarrow> Sessions \<Rightarrow> string \<Rightarrow> 's \<Rightarrow> (err + Session \<times> nat) \<times> 's" where
  "sessions_Get js ss slot s =
     (if slot = [] then (Inl (EPanic ''swarm.Sessions.Get: slot is empty''), s)
      else if ss_closed ss then (Inl (ESwarm SErrClosed), s)
      else case js_Get js s (ss_Bucket ss) slot of
             (Inl x, s') \<Rightarrow> if x = ErrKeyNotFound then (Inl (ESwarm SErrNotFound), s') else (Inl (EKV x), s')
           | (Inr kve, s') \<Rightarrow>
               if e_Operation kve \<noteq> KeyValuePut then (Inl (ESwarm SErrNotFound), s')
               else case session_decode (e_Value kve) of
                      None \<Rightarrow> (Inl EDecode, s')
                    | Some x \<Rightarrow> (Inr (x, e_Revision kve), s'))"

definition sessions_put :: "'s sys \<Rightarrow> Sessions \<Rightarrow> Session \<Rightarrow> 's \<Rightarrow> (err + unit) \<times> 's" where
  "sessions_put js ss x s =
     (if sn_Slot x = [] then (Inl (EPanic ''swarm.Sessions.put: sess.Slot is empty''), s)
      else if ss_closed ss then (Inl (ESwarm SErrClosed), s)
      else case js_Create js s (ss_Bucket ss) (sn_Slot x) (session_encode x) of
             (Inl y, s') \<Rightarrow> if IsConflict y then (Inl (ESwarm SErrCASConflict), s') else (Inl (EKV y), s')
           | (Inr _, s') \<Rightarrow> (Inr (), s'))"

definition sessions_update :: "'s sys \<Rightarrow> Sessions \<Rightarrow> Session \<Rightarrow> nat \<Rightarrow> 's \<Rightarrow> (err + unit) \<times> 's" where
  "sessions_update js ss x expectedRev s =
     (if sn_Slot x = [] then (Inl (EPanic ''swarm.Sessions.update: sess.Slot is empty''), s)
      else if ss_closed ss then (Inl (ESwarm SErrClosed), s)
      else case js_Update js s (ss_Bucket ss) (sn_Slot x) (session_encode x) expectedRev of
             (Inl y, s') \<Rightarrow> if IsConflict y then (Inl (ESwarm SErrCASConflict), s') else (Inl (EKV y), s')
           | (Inr _, s') \<Rightarrow> (Inr (), s'))"

text \<open>The client takes \<^verbatim>\<open>LastRevision(0)\<close> for no condition at all.\<close>

definition last_revision :: "nat \<Rightarrow> nat option" where
  "last_revision r = (if r = 0 then None else Some r)"

definition sessions_delete :: "'s sys \<Rightarrow> Sessions \<Rightarrow> string \<Rightarrow> nat \<Rightarrow> 's \<Rightarrow> (err + unit) \<times> 's" where
  "sessions_delete js ss slot expectedRev s =
     (if slot = [] then (Inl (EPanic ''swarm.Sessions.delete: slot is empty''), s)
      else if ss_closed ss then (Inl (ESwarm SErrClosed), s)
      else case js_Delete js s (ss_Bucket ss) slot (last_revision expectedRev) of
             (Inl y, s') \<Rightarrow>
               if IsConflict y then (Inl (ESwarm SErrCASConflict), s')
               else if y = ErrKeyNotFound then (Inl (ESwarm SErrNotFound), s')
               else (Inl (EKV y), s')
           | (Inr _, s') \<Rightarrow> (Inr (), s'))"

definition maxSessionEntries :: nat where
  "maxSessionEntries = 1024"

fun sessions_keys ::
  "'s sys \<Rightarrow> Sessions \<Rightarrow> string list \<Rightarrow> nat \<Rightarrow> Session list \<Rightarrow> 's \<Rightarrow> (err + Session list) \<times> 's" where
  "sessions_keys js ss [] cnt out s = (Inr out, s)"
| "sessions_keys js ss (key # keys) cnt out s =
     (if \<not> cnt < maxSessionEntries then (Inl (EPanic ''swarm.Sessions.List: scanned more than 1024 entries''), s)
      else case js_Get js s (ss_Bucket ss) key of
             (Inl x, s') \<Rightarrow>
               if x = ErrKeyNotFound then sessions_keys js ss keys (Suc cnt) out s' else (Inl (EKV x), s')
           | (Inr kve, s') \<Rightarrow>
               if e_Operation kve \<noteq> KeyValuePut then sessions_keys js ss keys (Suc cnt) out s'
               else case session_decode (e_Value kve) of
                      None \<Rightarrow> (Inl EDecode, s')
                    | Some x \<Rightarrow> sessions_keys js ss keys (Suc cnt) (out @ [x]) s')"

definition sessions_List :: "'s sys \<Rightarrow> Sessions \<Rightarrow> 's \<Rightarrow> (err + Session list) \<times> 's" where
  "sessions_List js ss s =
     (if ss_closed ss then (Inl (ESwarm SErrClosed), s)
      else case js_Keys js s (ss_Bucket ss) of
             (Inl x, s') \<Rightarrow> if x = ErrNoKeysFound then (Inr [], s') else (Inl (EKV x), s')
           | (Inr keys, s') \<Rightarrow> sessions_keys js ss keys 0 [] s')"

definition deleteByKey :: "'s sys \<Rightarrow> Sessions \<Rightarrow> string \<Rightarrow> 's \<Rightarrow> (err + unit) \<times> 's" where
  "deleteByKey js ss slot s =
     (case sessions_Get js ss slot s of
        (Inl e, s') \<Rightarrow> (Inl e, s')
      | (Inr (_, rv), s') \<Rightarrow> sessions_delete js ss slot rv s')"

section \<open>Paths of a slot\<close>

text \<open>
  \<^verbatim>\<open>workspace.BonesDir\<close>: \<open>env\<close> is the value of \<^verbatim>\<open>BONES_DIR\<close> and \<open>absp\<close> is \<^verbatim>\<open>filepath.Abs\<close>, which reads the
  working directory and may fail.
\<close>

definition BonesDir :: "string \<Rightarrow> (string \<Rightarrow> err + string) \<Rightarrow> string \<Rightarrow> string" where
  "BonesDir env absp root =
     (if env \<noteq> [] then (case absp env of Inr p \<Rightarrow> p | Inl _ \<Rightarrow> env) else Join root ''.bones'')"

definition SlotDir :: "string \<Rightarrow> string \<Rightarrow> string" where
  "SlotDir bones slot = Join (Join bones ''swarm'') slot"

definition SlotWorktree :: "string \<Rightarrow> string \<Rightarrow> string" where
  "SlotWorktree bones slot = Join (SlotDir bones slot) ''wt''"

definition SlotPidFile :: "string \<Rightarrow> string \<Rightarrow> string" where
  "SlotPidFile bones slot = Join (SlotDir bones slot) ''leaf.pid''"

section \<open>Under interference\<close>

text \<open>The record stored under a slot, with its revision.\<close>

definition session_at :: "kv_view \<Rightarrow> string \<Rightarrow> string \<Rightarrow> (Session \<times> nat) option" where
  "session_at v b k =
     (case v b k of
        None \<Rightarrow> None
      | Some e \<Rightarrow>
          if e_Operation e = KeyValuePut then map_option (\<lambda>x. (x, e_Revision e)) (session_decode (e_Value e)) else None)"

lemma session_at_put [simp]:
  "session_at (view_put v b k (put_entry (session_encode x) r)) b k = Some (x, r)"
  by (simp add: session_at_def)

context jetstream
begin

lemma sessions_Get_ok:
  assumes "sessions_Get js ss slot s = (Inr (x, rv), s')"
  shows "rely s s'" and "session_at (o_view ob s') (ss_Bucket ss) slot = Some (x, rv)"
    and "slot \<noteq> []" and "\<not> ss_closed ss"
proof -
  obtain y s1 where g: "js_Get js s (ss_Bucket ss) slot = (y, s1)" by fastforce
  with assms get_ok [of s "ss_Bucket ss" slot] show "rely s s'"
    "session_at (o_view ob s') (ss_Bucket ss) slot = Some (x, rv)" "slot \<noteq> []" "\<not> ss_closed ss"
    by (auto simp: sessions_Get_def session_at_def split: if_splits sum.splits option.splits)
qed

lemma sessions_Get_rely: "sessions_Get js ss slot s = (r, s') \<Longrightarrow> rely s s'"
  using get_ok [of s "ss_Bucket ss" slot] get_err [of s "ss_Bucket ss" slot] rely_refl
  by (auto simp: sessions_Get_def split: if_splits sum.splits prod.splits option.splits)

lemma sessions_Get_none:
  "sessions_Get js ss slot s = (Inl (ESwarm SErrNotFound), s') \<Longrightarrow> \<not> live (o_view ob s' (ss_Bucket ss) slot)"
  using get_ok [of s "ss_Bucket ss" slot] get_err [of s "ss_Bucket ss" slot]
  by (auto simp: sessions_Get_def live_def split: if_splits sum.splits prod.splits option.splits)

lemma sessions_put_ok:
  assumes "sessions_put js ss x s = (Inr (), s')"
  obtains s1 r where "rely s s1" and "\<not> live (o_view ob s1 (ss_Bucket ss) (sn_Slot x))"
    and "wrote ob s1 s' (ss_Bucket ss) (sn_Slot x) (put_entry (session_encode x) r)"
  using assms create_ok [of s "ss_Bucket ss" "sn_Slot x" "session_encode x"]
  by (auto simp: sessions_put_def split: if_splits sum.splits prod.splits)

lemma sessions_update_ok:
  assumes "sessions_update js ss x rv s = (Inr (), s')"
  obtains s1 e r where "rely s s1" and "o_view ob s1 (ss_Bucket ss) (sn_Slot x) = Some e" and "e_Revision e = rv"
    and "wrote ob s1 s' (ss_Bucket ss) (sn_Slot x) (put_entry (session_encode x) r)"
  using assms update_ok [of s "ss_Bucket ss" "sn_Slot x" "session_encode x" rv]
  by (auto simp: sessions_update_def split: if_splits sum.splits prod.splits)

lemma sessions_delete_ok:
  assumes "sessions_delete js ss slot rv s = (Inr (), s')" and "rv \<noteq> 0"
  obtains s1 e r where "rely s s1" and "o_view ob s1 (ss_Bucket ss) slot = Some e" and "e_Revision e = rv"
    and "wrote ob s1 s' (ss_Bucket ss) slot (del_entry KeyValueDelete r)"
  using assms delete_ok [of s "ss_Bucket ss" slot "Some rv"]
  by (auto simp: sessions_delete_def last_revision_def split: if_splits sum.splits prod.splits)

text \<open>A read followed by a write against the revision read acts on the very record that was read.\<close>

lemma same_session:
  assumes "session_at (o_view ob s) b k = Some (x, rv)" and "later ob s s1"
    and "o_view ob s1 b k = Some e" and "e_Revision e = rv"
  shows "session_at (o_view ob s1) b k = Some (x, rv)"
proof -
  from assms(1) obtain e0 where e0: "o_view ob s b k = Some e0" "e_Revision e0 = rv"
    by (auto simp: session_at_def split: option.splits if_splits)
  with same_revision [OF assms(2) e0(1) assms(3)] assms(4) have "e = e0" by simp
  with assms(1,3) e0 show ?thesis by (simp add: session_at_def)
qed

end

section \<open>A quiet substrate\<close>

text \<open>Every value in the bucket is a record, filed under its own slot.\<close>

definition sessions_wf :: "Sessions \<Rightarrow> mem \<Rightarrow> bool" where
  "sessions_wf ss s =
     (\<forall>k e. mem_view s (ss_Bucket ss) k = Some e \<longrightarrow> e_Operation e = KeyValuePut \<longrightarrow>
        k \<noteq> [] \<and> (\<exists>x. session_decode (e_Value e) = Some x \<and> sn_Slot x = k))"

abbreviation session_of :: "Sessions \<Rightarrow> mem \<Rightarrow> string \<Rightarrow> (Session \<times> nat) option" where
  "session_of ss s \<equiv> session_at (mem_view s) (ss_Bucket ss)"

definition mem_del_session :: "Sessions \<Rightarrow> mem \<Rightarrow> string \<Rightarrow> mem" where
  "mem_del_session ss s slot = mem_write s (ss_Bucket ss) slot KeyValueDelete JNull"

definition mem_put_session :: "Sessions \<Rightarrow> mem \<Rightarrow> Session \<Rightarrow> mem" where
  "mem_put_session ss s x = mem_write s (ss_Bucket ss) (sn_Slot x) KeyValuePut (session_encode x)"

lemma mem_del_session_simps [simp]:
  "quiet (mem_del_session ss s slot) = quiet s" "mem_now (mem_del_session ss s slot) = mem_now s"
  "mem_stream (mem_del_session ss s slot) = mem_stream s" "mem_script (mem_del_session ss s slot) = mem_script s"
  "b \<noteq> ss_Bucket ss \<Longrightarrow> mem_view (mem_del_session ss s slot) b k = mem_view s b k"
  by (simp_all add: mem_del_session_def mem_view_write) (simp_all add: mem_write_def)

lemma mem_put_session_simps [simp]:
  "quiet (mem_put_session ss s x) = quiet s" "mem_now (mem_put_session ss s x) = mem_now s"
  "mem_stream (mem_put_session ss s x) = mem_stream s" "mem_script (mem_put_session ss s x) = mem_script s"
  "b \<noteq> ss_Bucket ss \<Longrightarrow> mem_view (mem_put_session ss s x) b k = mem_view s b k"
  by (simp_all add: mem_put_session_def mem_view_write) (simp_all add: mem_write_def)

lemma session_of_del [simp]:
  "session_of ss (mem_del_session ss s slot) k = (if k = slot then None else session_of ss s k)"
  by (simp add: session_at_def mem_del_session_def mem_view_write view_put_def)

lemma session_of_put [simp]:
  "session_of ss (mem_put_session ss s x) k = (if k = sn_Slot x then Some (x, Suc (mem_rev s)) else session_of ss s k)"
  by (simp add: session_at_def mem_put_session_def mem_view_write view_put_def)

lemma sessions_wf_del [simp]: "sessions_wf ss s \<Longrightarrow> sessions_wf ss (mem_del_session ss s slot)"
  by (auto simp: sessions_wf_def mem_del_session_def mem_view_write view_put_def split: if_splits)

lemma sessions_wf_put [simp]: "sessions_wf ss s \<Longrightarrow> sn_Slot x \<noteq> [] \<Longrightarrow> sessions_wf ss (mem_put_session ss s x)"
  by (auto simp: sessions_wf_def mem_put_session_def mem_view_write view_put_def split: if_splits)

lemma session_of_slot: "sessions_wf ss s \<Longrightarrow> session_of ss s slot = Some (x, rv) \<Longrightarrow> sn_Slot x = slot \<and> slot \<noteq> []"
  by (fastforce simp: sessions_wf_def session_at_def split: option.splits if_splits)

lemma session_of_live:
  assumes "sessions_wf ss s"
  shows "live (mem_view s (ss_Bucket ss) slot) \<longleftrightarrow> session_of ss s slot \<noteq> None"
  using assms by (fastforce simp: sessions_wf_def session_at_def live_def split: option.splits if_splits)

lemma mem_sessions_Get:
  assumes "quiet s" and "sessions_wf ss s" and "\<not> ss_closed ss" and "slot \<noteq> []"
  shows "sessions_Get (mem_sys G) ss slot s =
    (case session_of ss s slot of None \<Rightarrow> (Inl (ESwarm SErrNotFound), s) | Some p \<Rightarrow> (Inr p, s))"
  using assms
  by (fastforce simp: sessions_Get_def mem_get_def session_at_def sessions_wf_def split: option.splits if_splits)

lemma mem_sessions_put:
  assumes "quiet s" and "sessions_wf ss s" and "\<not> ss_closed ss" and "sn_Slot x \<noteq> []"
  shows "sessions_put (mem_sys G) ss x s =
    (if session_of ss s (sn_Slot x) = None then (Inr (), mem_put_session ss s x) else (Inl (ESwarm SErrCASConflict), s))"
  using assms session_of_live [OF assms(2), of "sn_Slot x"]
  by (simp add: sessions_put_def mem_create_def mem_put_session_def Let_def)

lemma mem_sessions_update:
  assumes "quiet s" and "\<not> ss_closed ss" and "session_of ss s (sn_Slot x) = Some (y, rv)" and "sn_Slot x \<noteq> []"
  shows "sessions_update (mem_sys G) ss x rv s = (Inr (), mem_put_session ss s x)"
  using assms
  by (auto simp: sessions_update_def mem_update_def mem_put_session_def Let_def session_at_def
      split: option.splits if_splits)

lemma log_view_rev_pos: "log_view l bk = Some e \<Longrightarrow> 0 < e_Revision e"
  by (induction l bk rule: log_view.induct) (auto split: if_splits)

lemma session_rev_pos: "session_of ss s slot = Some (x, rv) \<Longrightarrow> 0 < rv"
  using log_view_rev_pos by (fastforce simp: session_at_def mem_view_def split: option.splits if_splits)

text \<open>Deleting against a revision removes the record when the revision is its own, and changes nothing else.\<close>

lemma mem_sessions_delete:
  assumes "quiet s" and "\<not> ss_closed ss" and "slot \<noteq> []" and "session_of ss s slot = Some (x, rv)" and "rv' \<noteq> 0"
  shows "sessions_delete (mem_sys G) ss slot rv' s =
    (if rv' = rv then (Inr (), mem_del_session ss s slot) else (Inl (ESwarm SErrCASConflict), s))"
  using assms
  by (auto simp: sessions_delete_def last_revision_def mem_delete_def mem_del_session_def Let_def session_at_def
      split: option.splits if_splits)

lemma mem_deleteByKey:
  assumes "quiet s" and "sessions_wf ss s" and "\<not> ss_closed ss" and "slot \<noteq> []"
  shows "deleteByKey (mem_sys G) ss slot s =
    (case session_of ss s slot of
       None \<Rightarrow> (Inl (ESwarm SErrNotFound), s) | Some _ \<Rightarrow> (Inr (), mem_del_session ss s slot))"
  using mem_sessions_Get [OF assms, of G] mem_sessions_delete [OF assms(1,3,4)] session_rev_pos
  by (auto simp: deleteByKey_def split: option.splits)

lemma mem_sessions_keys:
  assumes "quiet s" and "sessions_wf ss s" and "\<forall>k \<in> set ks. session_of ss s k \<noteq> None"
    and "n + length ks \<le> maxSessionEntries"
  shows "sessions_keys (mem_sys G) ss ks n out s = (Inr (out @ map (\<lambda>k. fst (the (session_of ss s k))) ks), s)"
  using assms(3,4)
proof (induction ks arbitrary: n out)
  case (Cons k ks)
  then obtain e x where "mem_view s (ss_Bucket ss) k = Some e" "e_Operation e = KeyValuePut"
    "session_decode (e_Value e) = Some x" "session_of ss s k = Some (x, e_Revision e)"
    by (auto simp: session_at_def split: option.splits if_splits)
  with Cons assms(1) show ?case by (simp add: mem_get_def)
qed simp

text \<open>\<^verbatim>\<open>List\<close> returns each record of the bucket once.\<close>

lemma mem_sessions_List:
  assumes "quiet s" and "sessions_wf ss s" and "\<not> ss_closed ss"
    and "card {k. session_of ss s k \<noteq> None} \<le> maxSessionEntries"
  shows "\<exists>xs. sessions_List (mem_sys G) ss s = (Inr xs, s) \<and> distinct (map sn_Slot xs) \<and>
    set xs = {x. \<exists>rv. session_of ss s (sn_Slot x) = Some (x, rv)}"
proof -
  have lv: "{k. live (mem_view s (ss_Bucket ss) k)} = {k. session_of ss s k \<noteq> None}"
    using session_of_live [OF assms(2)] by simp
  obtain y s' where k: "mem_keys G s (ss_Bucket ss) = (y, s')" by fastforce
  have s': "s' = s" using mem_keys_live(1) [OF k] assms(1) by simp
  show ?thesis
  proof (cases y)
    case (Inl z)
    then have "session_of ss s k = None" for k using mem_keys_live(3) [OF k] s' lv by blast
    moreover have "z = ErrNoKeysFound" using k Inl by (auto simp: mem_keys_def Let_def split: if_splits)
    ultimately show ?thesis using k s' Inl assms(3) by (simp add: sessions_List_def)
  next
    case (Inr ks)
    then have ks: "distinct ks" "set ks = {k. session_of ss s k \<noteq> None}"
      using mem_keys_live(2) [OF k] s' lv by blast+
    let ?xs = "map (\<lambda>k. fst (the (session_of ss s k))) ks"
    have "length ks \<le> maxSessionEntries" using assms(4) ks distinct_card [OF ks(1)] by simp
    then have "sessions_List (mem_sys G) ss s = (Inr ?xs, s)"
      using k s' Inr assms(3) ks(2) mem_sessions_keys [OF assms(1,2), of ks 0 G "[]"] by (simp add: sessions_List_def)
    moreover have slot: "sn_Slot (fst (the (session_of ss s k))) = k" if "k \<in> set ks" for k
      using that ks(2) session_of_slot [OF assms(2), of k] by force
    moreover have "map sn_Slot ?xs = ks" using slot by (simp add: map_idI)
    moreover have "set ?xs = {x. \<exists>rv. session_of ss s (sn_Slot x) = Some (x, rv)}"
    proof (intro set_eqI iffI)
      fix x assume "x \<in> set ?xs"
      then obtain k where "k \<in> set ks" "x = fst (the (session_of ss s k))" by auto
      with slot [of k] ks(2) show "x \<in> {x. \<exists>rv. session_of ss s (sn_Slot x) = Some (x, rv)}" by auto
    next
      fix x assume "x \<in> {x. \<exists>rv. session_of ss s (sn_Slot x) = Some (x, rv)}"
      then show "x \<in> set ?xs" using ks(2) by (force simp: image_iff)
    qed
    ultimately show ?thesis using ks(1) by auto
  qed
qed

end
