(* ===== verification/Plan.thy ===== *)
theory Plan
  imports Wspath Go_Json "HOL-Library.Sublist"
begin

text \<open>
  Plans: \<^verbatim>\<open>cli/validate_plan.go\<close> and \<^verbatim>\<open>internal/dispatch/plan_parser.go\<close>. A plan is a Markdown text whose
  task headings carry a slot; the validator checks that the slots own disjoint directories, the dispatcher
  reads the same text a second time to build its manifest. The three regular expressions, \<^verbatim>\<open>bufio.Scanner\<close>
  and \<^verbatim>\<open>strings.TrimSpace\<close> are written out as the functions they denote on these inputs. The lemmas show
  what an accepted plan guarantees, in whatever order the maps are iterated, and that the two parsers agree.
\<close>

section \<open>The standard library\<close>

text \<open>\<^verbatim>\<open>\s\<close> of a regular expression is one of five ASCII characters.\<close>

definition re_space :: "char \<Rightarrow> bool" where
  "re_space c = (c \<in> {CHR 0x09, CHR 0x0A, CHR 0x0C, CHR 0x0D, CHR 0x20})"

fun strip_prefix :: "string \<Rightarrow> string \<Rightarrow> string option" where
  "strip_prefix [] s = Some s"
| "strip_prefix (p # ps) [] = None"
| "strip_prefix (p # ps) (c # cs) = (if p = c then strip_prefix ps cs else None)"

definition re_spaces1 :: "string \<Rightarrow> string option" where
  "re_spaces1 s = (case s of [] \<Rightarrow> None | c # cs \<Rightarrow> if re_space c then Some (dropWhile re_space cs) else None)"

text \<open>
  \<^verbatim>\<open>strings.TrimSpace\<close> drops the Unicode white space at both ends: the UTF-8 codes of these characters.
\<close>

definition space_runes :: "string list" where
  "space_runes =
     [[CHR 0x09], [CHR 0x0A], [CHR 0x0B], [CHR 0x0C], [CHR 0x0D], [CHR 0x20], [CHR 0xC2, CHR 0x85], [CHR 0xC2, CHR 0xA0],
      [CHR 0xE1, CHR 0x9A, CHR 0x80], [CHR 0xE2, CHR 0x80, CHR 0x80], [CHR 0xE2, CHR 0x80, CHR 0x81],
      [CHR 0xE2, CHR 0x80, CHR 0x82], [CHR 0xE2, CHR 0x80, CHR 0x83], [CHR 0xE2, CHR 0x80, CHR 0x84],
      [CHR 0xE2, CHR 0x80, CHR 0x85], [CHR 0xE2, CHR 0x80, CHR 0x86], [CHR 0xE2, CHR 0x80, CHR 0x87],
      [CHR 0xE2, CHR 0x80, CHR 0x88], [CHR 0xE2, CHR 0x80, CHR 0x89], [CHR 0xE2, CHR 0x80, CHR 0x8A],
      [CHR 0xE2, CHR 0x80, CHR 0xA8], [CHR 0xE2, CHR 0x80, CHR 0xA9], [CHR 0xE2, CHR 0x80, CHR 0xAF],
      [CHR 0xE2, CHR 0x81, CHR 0x9F], [CHR 0xE3, CHR 0x80, CHR 0x80]]"

fun strip_any :: "string list \<Rightarrow> string \<Rightarrow> string option" where
  "strip_any [] s = None"
| "strip_any (p # ps) s = (case strip_prefix p s of Some r \<Rightarrow> Some r | None \<Rightarrow> strip_any ps s)"

lemma strip_prefix_Some [simp]: "strip_prefix p s = Some r \<longleftrightarrow> s = p @ r"
  by (induction p s rule: strip_prefix.induct) auto

lemma strip_any_Some: "strip_any ps s = Some r \<Longrightarrow> \<exists>p \<in> set ps. s = p @ r"
  by (induction ps) (auto split: option.splits)

fun trim_left :: "string list \<Rightarrow> nat \<Rightarrow> string \<Rightarrow> string" where
  "trim_left ps 0 s = s"
| "trim_left ps (Suc n) s = (case strip_any ps s of Some r \<Rightarrow> trim_left ps n r | None \<Rightarrow> s)"

definition TrimSpace :: "string \<Rightarrow> string" where
  "TrimSpace s =
     (let l = trim_left space_runes (length s) s
      in rev (trim_left (map rev space_runes) (length l) (rev l)))"

text \<open>
  \<^verbatim>\<open>bufio.Scanner\<close>: the lines of a text without their line ends. A line that does not fit the buffer of
  64 KiB stops the scan with an error (the second component).
\<close>

definition drop_cr :: "string \<Rightarrow> string" where
  "drop_cr l = (if l \<noteq> [] \<and> last l = CHR 0x0D then butlast l else l)"

definition scan_lines :: "string \<Rightarrow> string list \<times> bool" where
  "scan_lines data =
     (let ls = split_on (CHR 0x0A) data;
          raw = (if last ls = [] then butlast ls else ls);
          ok = takeWhile (\<lambda>l. int (length l) < 65536) raw
      in (map drop_cr ok, length ok < length raw))"

section \<open>The regular expressions\<close>

definition taskHeading :: "string \<Rightarrow> bool" where
  "taskHeading line =
     (case Option.bind (Option.bind (Option.bind (strip_prefix ''###'' line) re_spaces1) (strip_prefix ''Task'')) re_spaces1 of
        Some (c # _) \<Rightarrow> is_digit c
      | _ \<Rightarrow> False)"

definition lower :: "char \<Rightarrow> bool" where
  "lower c = (97 \<le> (of_char c :: nat) \<and> (of_char c :: nat) \<le> 122)"

definition slot_char :: "char \<Rightarrow> bool" where
  "slot_char c = (lower c \<or> is_digit c \<or> c = CHR ''_'' \<or> c = CHR ''-'')"

text \<open>A match of \<^verbatim>\<open>phaseSlot\<close> at the front of a text: the slot and what follows the match.\<close>

definition slot_at :: "string \<Rightarrow> (string \<times> string) option" where
  "slot_at s =
     (case map_option (dropWhile re_space) (strip_prefix ''[slot:'' s) of
        Some (c # cs) \<Rightarrow>
          if lower c then
            (case dropWhile slot_char cs of
               d # r \<Rightarrow> if d = CHR '']'' then Some (c # takeWhile slot_char cs, r) else None
             | [] \<Rightarrow> None)
          else None
      | _ \<Rightarrow> None)"

fun phaseSlot :: "string \<Rightarrow> string option" where
  "phaseSlot [] = None"
| "phaseSlot (c # cs) = (case slot_at (c # cs) of Some (name, _) \<Rightarrow> Some name | None \<Rightarrow> phaseSlot cs)"

definition filesLine :: "string \<Rightarrow> string option" where
  "filesLine line =
     (case Option.bind (Option.bind (Option.bind (strip_prefix ''-'' (dropWhile re_space line)) re_spaces1)
              (strip_any [''Create:'', ''Modify:'', ''Test:''])) re_spaces1 of
        Some r \<Rightarrow> (let f = takeWhile (\<lambda>c. \<not> re_space c) r in if f = [] then None else Some f)
      | None \<Rightarrow> None)"

section \<open>The validator's parser\<close>

record taskInfo =
  ti_heading :: string
  ti_slot :: string
  ti_files :: "string list"
  ti_line :: nat

text \<open>The variables of the scan loop of \<^verbatim>\<open>validatePlan\<close> and one turn of it.\<close>

record plan_state =
  ps_tasks :: "taskInfo list"
  ps_current :: "taskInfo option"
  ps_inFiles :: bool
  ps_lineNo :: nat

definition flush :: "'a list \<Rightarrow> 'a option \<Rightarrow> 'a list" where
  "flush tasks current = (case current of None \<Rightarrow> tasks | Some t \<Rightarrow> tasks @ [t])"

definition plan_line :: "plan_state \<Rightarrow> string \<Rightarrow> plan_state" where
  "plan_line st0 line =
     (let st = st0\<lparr>ps_lineNo := ps_lineNo st0 + 1\<rparr> in
      if taskHeading line then
        st\<lparr>ps_tasks := flush (ps_tasks st) (ps_current st),
           ps_current := Some \<lparr>ti_heading = TrimSpace line,
             ti_slot = (case phaseSlot line of Some m \<Rightarrow> m | None \<Rightarrow> []), ti_files = [], ti_line = ps_lineNo st\<rparr>,
           ps_inFiles := False\<rparr>
      else case ps_current st of
             None \<Rightarrow> st
           | Some t \<Rightarrow>
               if has_prefix (TrimSpace line) ''**Files:**'' then st\<lparr>ps_inFiles := True\<rparr>
               else if ps_inFiles st then
                 (case filesLine line of
                    Some f \<Rightarrow> st\<lparr>ps_current := Some (t\<lparr>ti_files := ti_files t @ [f]\<rparr>)\<rparr>
                  | None \<Rightarrow> if TrimSpace line = [] then st else st\<lparr>ps_inFiles := False\<rparr>)
               else st)"

definition plan_start :: plan_state where
  "plan_start = \<lparr>ps_tasks = [], ps_current = None, ps_inFiles = False, ps_lineNo = 0\<rparr>"

definition scan_plan :: "string list \<Rightarrow> taskInfo list" where
  "scan_plan ls = (let st = foldl plan_line plan_start ls in flush (ps_tasks st) (ps_current st))"

section \<open>The checks\<close>

text \<open>The violations, one constructor per message.\<close>

datatype violation =
    MissingSlot nat string
  | NoComponent nat string string
  | SlotReused nat string string string
  | SlotOverlap string string string string
  | OutsideSlot nat string string string

text \<open>\<open>last_match\<close> is the loop of \<^verbatim>\<open>slotDir\<close>: the last index at which the slot's name stands.\<close>

fun last_match :: "string \<Rightarrow> nat \<Rightarrow> nat option \<Rightarrow> string list \<Rightarrow> nat option" where
  "last_match name i lastIdx [] = lastIdx"
| "last_match name i lastIdx (part # parts) =
     last_match name (i + 1) (if part = name then Some i else lastIdx) parts"

definition slotDir :: "string \<Rightarrow> string \<Rightarrow> string" where
  "slotDir p slotName =
     (let parts = split_on (CHR ''/'') p in
      case last_match slotName 0 None parts of
        None \<Rightarrow> []
      | Some lastIdx \<Rightarrow> join_with ''/'' (take (lastIdx + 1) parts))"

definition dirOverlap :: "string \<Rightarrow> string \<Rightarrow> bool" where
  "dirOverlap a b =
     (if a = b then True
      else if has_prefix (a @ ''/'') (b @ ''/'') then True
      else if has_prefix (b @ ''/'') (a @ ''/'') then True
      else False)"

fun missing_slots :: "taskInfo list \<Rightarrow> violation list" where
  "missing_slots [] = []"
| "missing_slots (t # ts) =
     (if ti_slot t = [] then MissingSlot (ti_line t) (ti_heading t) # missing_slots ts else missing_slots ts)"

fun slot_dirs :: "taskInfo list \<Rightarrow> strmap \<Rightarrow> violation list \<times> strmap" where
  "slot_dirs [] slotDirs = ([], slotDirs)"
| "slot_dirs (t # ts) slotDirs =
     (if ti_slot t = [] \<or> ti_files t = [] then slot_dirs ts slotDirs
      else let f = hd (ti_files t); dir = slotDir f (ti_slot t) in
           if dir = [] then
             (case slot_dirs ts slotDirs of (vs, m) \<Rightarrow> (NoComponent (ti_line t) f (ti_slot t) # vs, m))
           else case map_of slotDirs (ti_slot t) of
                  Some existing \<Rightarrow>
                    if existing \<noteq> dir then
                      (case slot_dirs ts slotDirs of (vs, m) \<Rightarrow> (SlotReused (ti_line t) (ti_slot t) existing dir # vs, m))
                    else slot_dirs ts (AList.update (ti_slot t) dir slotDirs)
                | None \<Rightarrow> slot_dirs ts (AList.update (ti_slot t) dir slotDirs))"

text \<open>
  The maps are iterated in an order the language leaves open: \<open>rngS\<close> and \<open>rngD\<close> choose it for the two maps.
\<close>

fun overlaps :: "(strmap \<Rightarrow> strmap) \<Rightarrow> strmap \<Rightarrow> strmap \<Rightarrow> violation list" where
  "overlaps rngD [] dirOwners = []"
| "overlaps rngD ((slot, dir) # rest) dirOwners =
     [SlotOverlap slot otherSlot dir otherDir.
        (otherDir, otherSlot) \<leftarrow> rngD dirOwners, otherSlot \<noteq> slot \<and> dirOverlap dir otherDir] @
     overlaps rngD rest (AList.update dir slot dirOwners)"

definition outside_files :: "strmap \<Rightarrow> taskInfo \<Rightarrow> violation list" where
  "outside_files slotDirs t =
     (if ti_slot t = [] then []
      else let want = (case map_of slotDirs (ti_slot t) of Some d \<Rightarrow> d | None \<Rightarrow> []) in
           [OutsideSlot (ti_line t) f want (ti_slot t). f \<leftarrow> ti_files t, slotDir f (ti_slot t) \<noteq> want])"

definition checkTasks :: "(strmap \<Rightarrow> strmap) \<Rightarrow> (strmap \<Rightarrow> strmap) \<Rightarrow> taskInfo list \<Rightarrow> violation list" where
  "checkTasks rngS rngD tasks =
     (case slot_dirs tasks [] of
        (vs, slotDirs) \<Rightarrow>
          missing_slots tasks @ vs @ overlaps rngD (rngS slotDirs) [] @ concat (map (outside_files slotDirs) tasks))"

text \<open>\<open>file\<close> is what opening and reading the plan gives.\<close>

definition validatePlan ::
  "(strmap \<Rightarrow> strmap) \<Rightarrow> (strmap \<Rightarrow> strmap) \<Rightarrow> err + string \<Rightarrow> err + taskInfo list \<times> violation list" where
  "validatePlan rngS rngD file =
     (case file of
        Inl e \<Rightarrow> Inl e
      | Inr data \<Rightarrow>
          (case scan_lines data of
             (ls, tooLong) \<Rightarrow>
               let tasks = scan_plan ls in
               if tooLong then Inl (EMsg ''bufio.Scanner: token too long'')
               else Inr (tasks, checkTasks rngS rngD tasks)))"

section \<open>The slot list\<close>

record slotEntry =
  se_Name :: string
  se_Tasks :: "string list"

definition slot_list_step :: "(string \<rightharpoonup> nat) \<times> slotEntry list \<Rightarrow> taskInfo \<Rightarrow> (string \<rightharpoonup> nat) \<times> slotEntry list" where
  "slot_list_step st t =
     (case st of (seen, entries) \<Rightarrow>
        if ti_slot t = [] then (seen, entries)
        else case (case seen (ti_slot t) of
                     Some idx \<Rightarrow> (idx, seen, entries)
                   | None \<Rightarrow> (length entries, seen(ti_slot t \<mapsto> length entries),
                       entries @ [\<lparr>se_Name = ti_slot t, se_Tasks = []\<rparr>])) of
               (idx, seen', entries') \<Rightarrow>
                 (seen', entries'[idx := (entries' ! idx)\<lparr>se_Tasks := se_Tasks (entries' ! idx) @ [ti_heading t]\<rparr>]))"

definition buildSlotList :: "taskInfo list \<Rightarrow> slotEntry list" where
  "buildSlotList tasks = snd (foldl slot_list_step (Map.empty, []) tasks)"

text \<open>The result of the command and its exit code; a parse error is one message and no slots.\<close>

record ValidateResult =
  vr_Errors :: "violation list + err"
  vr_Slots :: "slotEntry list"

definition runValidatePlan ::
  "(strmap \<Rightarrow> strmap) \<Rightarrow> (strmap \<Rightarrow> strmap) \<Rightarrow> err + string \<Rightarrow> ValidateResult \<times> nat" where
  "runValidatePlan rngS rngD file =
     (case validatePlan rngS rngD file of
        Inl e \<Rightarrow> (\<lparr>vr_Errors = Inr e, vr_Slots = []\<rparr>, 2)
      | Inr (tasks, violations) \<Rightarrow>
          (let res = \<lparr>vr_Errors = Inl violations, vr_Slots = buildSlotList tasks\<rparr> in
           if violations \<noteq> [] then (res, 1) else (res, 0)))"

section \<open>The dispatcher's parser\<close>

record parsedSlot =
  sl_name :: string
  sl_title :: string
  sl_files :: "string list"
  sl_sourceMarkdown :: string

record rawTask =
  rt_heading :: string
  rt_slot :: string
  rt_files :: "string list"
  rt_lines :: "string list"

record raw_state =
  rs_tasks :: "rawTask list"
  rs_current :: "rawTask option"
  rs_inFiles :: bool

definition raw_line :: "raw_state \<Rightarrow> string \<Rightarrow> raw_state" where
  "raw_line st line =
     (if taskHeading line then
        st\<lparr>rs_tasks := flush (rs_tasks st) (rs_current st),
           rs_current := Some \<lparr>rt_heading = TrimSpace line,
             rt_slot = (case phaseSlot line of Some m \<Rightarrow> m | None \<Rightarrow> []), rt_files = [], rt_lines = [line]\<rparr>,
           rs_inFiles := False\<rparr>
      else case rs_current st of
             None \<Rightarrow> st
           | Some t0 \<Rightarrow>
               let t = t0\<lparr>rt_lines := rt_lines t0 @ [line]\<rparr>; st1 = st\<lparr>rs_current := Some t\<rparr> in
               if has_prefix (TrimSpace line) ''**Files:**'' then st1\<lparr>rs_inFiles := True\<rparr>
               else if rs_inFiles st1 then
                 (case filesLine line of
                    Some f \<Rightarrow> st1\<lparr>rs_current := Some (t\<lparr>rt_files := rt_files t @ [f]\<rparr>)\<rparr>
                  | None \<Rightarrow> if TrimSpace line \<noteq> [] then st1\<lparr>rs_inFiles := False\<rparr> else st1)
               else st1)"

definition raw_start :: raw_state where
  "raw_start = \<lparr>rs_tasks = [], rs_current = None, rs_inFiles = False\<rparr>"

definition scanRawTasks :: "string \<Rightarrow> err + rawTask list" where
  "scanRawTasks data =
     (case scan_lines data of
        (ls, tooLong) \<Rightarrow>
          let st = foldl raw_line raw_start ls in
          if tooLong then Inl (EMsg ''bufio.Scanner: token too long'')
          else Inr (flush (rs_tasks st) (rs_current st)))"

text \<open>\<open>remove_slots\<close> is \<^verbatim>\<open>dispPhaseSlot.ReplaceAllString(s, "")\<close>: a match is longer than what it leaves.\<close>

lemma slot_at_shorter: "slot_at s = Some (n, r) \<Longrightarrow> length r < length s"
proof -
  assume "slot_at s = Some (n, r)"
  then obtain u c cs d where s: "s = ''[slot:'' @ u" and u: "dropWhile re_space u = c # cs"
    and d: "dropWhile slot_char cs = d # r"
    by (auto simp: slot_at_def split: option.splits list.splits if_splits)
  have "length r < length cs" using length_dropWhile_le [of slot_char cs] d by simp
  moreover have "length cs < length u" using length_dropWhile_le [of re_space u] u by simp
  ultimately show ?thesis using s by simp
qed

function remove_slots :: "string \<Rightarrow> string" where
  "remove_slots [] = []"
| "remove_slots (c # cs) =
     (case slot_at (c # cs) of Some (_, r) \<Rightarrow> remove_slots r | None \<Rightarrow> c # remove_slots cs)"
  by pat_completeness auto
termination by (relation "measure length") (auto dest: slot_at_shorter)

text \<open>\<^verbatim>\<open>filepath.Base\<close>.\<close>

definition filepath_Base :: "string \<Rightarrow> string" where
  "filepath_Base p =
     (if p = [] then ''.''
      else let q = rev (dropWhile ((=) (CHR ''/'')) (rev p)); b = last (split_on (CHR ''/'') q)
           in if b = [] then ''/'' else b)"

definition trimSlotAnnotation :: "string \<Rightarrow> string" where
  "trimSlotAnnotation s =
     (let c1 = dropWhile ((=) (CHR ''#'')) (remove_slots s);
          c2 = rev (dropWhile ((=) (CHR '':'')) (rev (TrimSpace c1)));
          cleaned = TrimSpace c2
      in if cleaned = [] then filepath_Base s else cleaned)"

fun add_files :: "string list \<Rightarrow> string set \<Rightarrow> string list \<Rightarrow> string list" where
  "add_files acc seen [] = acc"
| "add_files acc seen (f # fs) =
     (if f \<notin> seen then add_files (acc @ [f]) (insert f seen) fs else add_files acc seen fs)"

definition addFiles :: "parsedSlot \<Rightarrow> string list \<Rightarrow> parsedSlot" where
  "addFiles s files = s\<lparr>sl_files := add_files (sl_files s) (set (sl_files s)) files\<rparr>"

definition slot_with :: "parsedSlot \<Rightarrow> rawTask \<Rightarrow> parsedSlot" where
  "slot_with s0 t =
     (let s1 = addFiles s0 (rt_files t);
          s2 = (if sl_title s1 = rt_slot t then s1\<lparr>sl_title := trimSlotAnnotation (rt_heading t)\<rparr> else s1)
      in s2\<lparr>sl_sourceMarkdown := sl_sourceMarkdown s2 @ join_with [CHR 0x0A] (rt_lines t) @ [CHR 0x0A]\<rparr>)"

definition aggregate_step :: "(string \<rightharpoonup> nat) \<times> parsedSlot list \<Rightarrow> rawTask \<Rightarrow> (string \<rightharpoonup> nat) \<times> parsedSlot list" where
  "aggregate_step st t =
     (case st of (seenIdx, slots) \<Rightarrow>
        if rt_slot t = [] then (seenIdx, slots)
        else case (case seenIdx (rt_slot t) of
                     Some idx \<Rightarrow> (idx, seenIdx, slots)
                   | None \<Rightarrow> (length slots, seenIdx(rt_slot t \<mapsto> length slots),
                       slots @ [\<lparr>sl_name = rt_slot t, sl_title = rt_slot t, sl_files = [], sl_sourceMarkdown = []\<rparr>])) of
               (idx, seen', slots') \<Rightarrow> (seen', slots'[idx := slot_with (slots' ! idx) t]))"

definition aggregateSlots :: "rawTask list \<Rightarrow> parsedSlot list" where
  "aggregateSlots tasks = snd (foldl aggregate_step (Map.empty, []) tasks)"

definition parsePlanSlots :: "string \<Rightarrow> err + parsedSlot list" where
  "parsePlanSlots data =
     (case scanRawTasks data of Inl e \<Rightarrow> Inl e | Inr tasks \<Rightarrow> Inr (aggregateSlots tasks))"

section \<open>Trimming\<close>

text \<open>The fuel of \<open>trim_left\<close> is enough: nothing trimmable is left.\<close>

lemma trim_left_done:
  assumes "[] \<notin> set ps" and "length s \<le> n"
  shows "strip_any ps (trim_left ps n s) = None"
  using assms(2)
proof (induction n arbitrary: s)
  case 0
  have "p \<noteq> []" if "p \<in> set ps" for p using that assms(1) by auto
  with 0 show ?case using strip_any_Some [of ps "[]"] by (cases "strip_any ps []") fastforce+
next
  case (Suc n)
  show ?case
  proof (cases "strip_any ps s")
    case (Some r)
    then obtain p where "p \<in> set ps" "s = p @ r" using strip_any_Some by blast
    moreover have "p \<noteq> []" using \<open>p \<in> set ps\<close> assms(1) by auto
    ultimately have "length r < length s" by simp
    with Some Suc show ?thesis by simp
  qed simp
qed

section \<open>Directories of slots\<close>

abbreviation components :: "string \<Rightarrow> string list" where
  "components \<equiv> split_on (CHR ''/'')"

lemma has_dir_prefix: "has_prefix (a @ ''/'') (b @ ''/'') \<longleftrightarrow> prefix (components b) (components a)"
proof
  assume "has_prefix (a @ ''/'') (b @ ''/'')"
  then obtain r where r: "a @ ''/'' = b @ ''/'' @ r" by (auto simp: has_prefix_iff)
  show "prefix (components b) (components a)"
  proof (cases r rule: rev_cases)
    case (snoc r' x)
    with r have "a = b @ CHR ''/'' # r'" by simp
    then show ?thesis by (simp add: split_on_append)
  qed (use r in simp)
next
  assume "prefix (components b) (components a)"
  then obtain zs where zs: "components a = components b @ zs" by (auto simp: prefix_def)
  show "has_prefix (a @ ''/'') (b @ ''/'')"
  proof (cases "zs = []")
    case True
    with zs have "a = b" by (metis append_Nil2 join_split_on)
    then show ?thesis by (simp add: has_prefix_def)
  next
    case False
    have "a = join_with ''/'' (components b @ zs)" using zs by (metis join_split_on)
    also have "\<dots> = b @ ''/'' @ join_with ''/'' zs"
      using False by (simp add: join_with_append join_split_on)
    finally show ?thesis by (simp add: has_prefix_iff)
  qed
qed

lemma dirOverlap_components:
  "dirOverlap a b \<longleftrightarrow> prefix (components a) (components b) \<or> prefix (components b) (components a)"
  by (auto simp: dirOverlap_def has_dir_prefix)

lemma dirOverlap_sym: "dirOverlap a b = dirOverlap b a"
  by (auto simp: dirOverlap_components)

lemma last_match_Some:
  "last_match n i l ps = Some j \<Longrightarrow> l = Some j \<or> (\<exists>k < length ps. j = i + k \<and> ps ! k = n)"
proof (induction ps arbitrary: i l)
  case (Cons p ps)
  then have "last_match n (i + 1) (if p = n then Some i else l) ps = Some j" by simp
  from Cons.IH [OF this] show ?case
  proof
    assume "(if p = n then Some i else l) = Some j"
    then show ?thesis by (auto split: if_splits intro!: exI [of _ 0])
  next
    assume "\<exists>k<length ps. j = i + 1 + k \<and> ps ! k = n"
    then obtain k where "k < length ps" "j = i + 1 + k" "ps ! k = n" by blast
    then show ?thesis by (intro disjI2 exI [of _ "Suc k"]) simp
  qed
qed simp

lemma slotDir_components:
  assumes "slotDir p n \<noteq> []"
  shows "prefix (components (slotDir p n)) (components p)" "last (components (slotDir p n)) = n"
proof -
  from assms obtain i where i: "last_match n 0 None (components p) = Some i"
    by (auto simp: slotDir_def Let_def split: option.splits)
  then have j: "i < length (components p)" "components p ! i = n" using last_match_Some [OF i] by auto
  have "components (slotDir p n) = take (Suc i) (components p)"
    using split_on_join [of "take (Suc i) (components p)" "CHR ''/''"] i
    by (auto simp: slotDir_def dest!: in_set_takeD split_on_parts)
  with j show "prefix (components (slotDir p n)) (components p)" "last (components (slotDir p n)) = n"
    by (metis take_is_prefix, simp add: take_Suc_conv_app_nth)
qed

text \<open>Two directories that do not overlap have no file in common.\<close>

lemma disjoint_dirs_no_file:
  assumes "slotDir f a \<noteq> []" and "slotDir g b \<noteq> []" and "\<not> dirOverlap (slotDir f a) (slotDir g b)"
  shows "f \<noteq> g"
  using assms(3) slotDir_components(1) [OF assms(1)] slotDir_components(1) [OF assms(2)]
  by (auto simp: dirOverlap_components dest: prefix_same_cases)

section \<open>What an accepted plan guarantees\<close>

definition plan_ok :: "taskInfo list \<Rightarrow> bool" where
  "plan_ok tasks \<longleftrightarrow>
     (\<forall>t \<in> set tasks. ti_slot t \<noteq> []) \<and>
     (\<exists>dir. (\<forall>t \<in> set tasks. \<forall>f \<in> set (ti_files t). slotDir f (ti_slot t) = dir (ti_slot t) \<and> dir (ti_slot t) \<noteq> []) \<and>
        (\<forall>t \<in> set tasks. \<forall>u \<in> set tasks. ti_files t \<noteq> [] \<longrightarrow> ti_files u \<noteq> [] \<longrightarrow> ti_slot t \<noteq> ti_slot u \<longrightarrow>
           \<not> dirOverlap (dir (ti_slot t)) (dir (ti_slot u))))"

lemma missing_slots_none: "missing_slots ts = [] \<longleftrightarrow> (\<forall>t \<in> set ts. ti_slot t \<noteq> [])"
  by (induction ts) auto

text \<open>The second loop: without a violation the map gets every task's directory, and nothing else.\<close>

definition first_dir :: "taskInfo \<Rightarrow> string" where
  "first_dir t = slotDir (hd (ti_files t)) (ti_slot t)"

definition has_dir :: "taskInfo \<Rightarrow> bool" where
  "has_dir t = (ti_slot t \<noteq> [] \<and> ti_files t \<noteq> [])"

lemma slot_dirs_Cons:
  "slot_dirs (t # ts) m =
     (if \<not> has_dir t then slot_dirs ts m
      else if first_dir t = [] then
        (NoComponent (ti_line t) (hd (ti_files t)) (ti_slot t) # fst (slot_dirs ts m), snd (slot_dirs ts m))
      else if map_of m (ti_slot t) = None \<or> map_of m (ti_slot t) = Some (first_dir t) then
        slot_dirs ts (AList.update (ti_slot t) (first_dir t) m)
      else (SlotReused (ti_line t) (ti_slot t) (the (map_of m (ti_slot t))) (first_dir t) # fst (slot_dirs ts m),
            snd (slot_dirs ts m)))"
  by (auto simp: has_dir_def first_dir_def Let_def split: prod.splits option.splits)

declare slot_dirs.simps(2) [simp del]
declare slot_dirs_Cons [simp]

lemma slot_dirs_keeps: "map_of m k = Some v \<Longrightarrow> map_of (snd (slot_dirs ts m)) k = Some v"
proof (induction ts arbitrary: m)
  case (Cons t ts)
  then show ?case by (cases "k = ti_slot t") auto
qed simp

lemma slot_dirs_clean:
  "fst (slot_dirs ts m) = [] \<longleftrightarrow>
     (\<forall>t \<in> set ts. has_dir t \<longrightarrow> first_dir t \<noteq> [] \<and> map_of (snd (slot_dirs ts m)) (ti_slot t) = Some (first_dir t))"
proof (induction ts arbitrary: m)
  case (Cons t ts)
  have "map_of (snd (slot_dirs ts (AList.update (ti_slot t) (first_dir t) m))) (ti_slot t) = Some (first_dir t)"
    by (intro slot_dirs_keeps) simp
  moreover have "map_of (snd (slot_dirs ts m)) (ti_slot t) = map_of m (ti_slot t)" if "map_of m (ti_slot t) \<noteq> None"
    using that slot_dirs_keeps by fastforce
  ultimately show ?case by (auto simp: Cons.IH)
qed simp

lemma slot_dirs_range:
  "map_of (snd (slot_dirs ts m)) k = Some d \<Longrightarrow>
     map_of m k = Some d \<or> (\<exists>t \<in> set ts. has_dir t \<and> k = ti_slot t \<and> d = first_dir t \<and> d \<noteq> [])"
proof (induction ts arbitrary: m)
  case (Cons t ts)
  show ?case
    using Cons.prems Cons.IH [of m] Cons.IH [of "AList.update (ti_slot t) (first_dir t) m"]
    by (auto split: if_splits)
qed simp

lemma slot_dirs_distinct: "distinct (map fst m) \<Longrightarrow> distinct (map fst (snd (slot_dirs ts m)))"
  by (induction ts arbitrary: m) simp_all

lemma outside_files_none:
  "outside_files m t = [] \<longleftrightarrow>
     (ti_slot t \<noteq> [] \<longrightarrow> (\<forall>f \<in> set (ti_files t).
        slotDir f (ti_slot t) = (case map_of m (ti_slot t) of Some d \<Rightarrow> d | None \<Rightarrow> [])))"
  by (auto simp: outside_files_def Let_def)

text \<open>The third loop compares every two slots once, whatever the order.\<close>

lemma overlaps_none:
  assumes "\<And>m. mset (rngD m) = mset m"
  shows "distinct (map snd l) \<Longrightarrow> snd ` set l \<inter> fst ` set owners = {} \<Longrightarrow>
    overlaps rngD l owners = [] \<longleftrightarrow>
      (\<forall>(s, d) \<in> set l. \<forall>(d', s') \<in> set owners. s' = s \<or> \<not> dirOverlap d d') \<and>
      (\<forall>(s, d) \<in> set l. \<forall>(s', d') \<in> set l. s' = s \<or> \<not> dirOverlap d d')"
proof (induction l arbitrary: owners)
  case (Cons sd l)
  obtain s d where sd: "sd = (s, d)" by (cases sd)
  from Cons.prems sd have u: "AList.update d s owners = owners @ [(d, s)]" by (intro update_notin) auto
  have r: "set (rngD owners) = set owners" using assms by (metis set_mset_mset)
  have "overlaps rngD l (owners @ [(d, s)]) = [] \<longleftrightarrow>
      (\<forall>(s1, d1) \<in> set l. \<forall>(d', s') \<in> set (owners @ [(d, s)]). s' = s1 \<or> \<not> dirOverlap d1 d') \<and>
      (\<forall>(s1, d1) \<in> set l. \<forall>(s', d') \<in> set l. s' = s1 \<or> \<not> dirOverlap d1 d')"
    using Cons.prems sd by (subst Cons.IH) (auto simp: image_iff)
  then show ?case
    unfolding sd overlaps.simps u append_is_Nil_conv concat_eq_Nil_conv
    by (auto simp: r dirOverlap_sym)
qed simp

lemma slot_dirs_consistent:
  assumes "\<forall>t \<in> set ts. has_dir t \<longrightarrow> first_dir t = dir (ti_slot t) \<and> first_dir t \<noteq> []"
    and "\<forall>k d. map_of m k = Some d \<longrightarrow> d = dir k"
  shows "fst (slot_dirs ts m) = []"
  using assms
proof (induction ts arbitrary: m)
  case (Cons t ts)
  then have "map_of m (ti_slot t) = None \<or> map_of m (ti_slot t) = Some (first_dir t)" if "has_dir t"
    using that by (cases "map_of m (ti_slot t)") auto
  moreover have "fst (slot_dirs ts (AList.update (ti_slot t) (first_dir t) m)) = []" if "has_dir t"
    using that Cons.prems by (intro Cons.IH) auto
  moreover have "fst (slot_dirs ts m) = []" using Cons.prems by (intro Cons.IH) auto
  ultimately show ?case using Cons.prems(1) by auto
qed simp

lemma slot_dirs_dirs_distinct: "distinct (map snd (snd (slot_dirs ts [])))"
proof -
  let ?m = "snd (slot_dirs ts [])"
  have d: "distinct (map fst ?m)" by (simp add: slot_dirs_distinct)
  have l: "last (components x) = k" if "(k, x) \<in> set ?m" for k x
    using slot_dirs_range [of ts "[]" k x] that d slotDir_components(2) by (auto simp: first_dir_def)
  have "inj_on snd (set ?m)"
    by (rule inj_onI) (metis l prod.collapse)
  with d show ?thesis by (simp add: distinct_map)
qed

text \<open>The four loops together, as conditions on the map they build.\<close>

lemma slot_dirs_mem: "(k, d) \<in> set (snd (slot_dirs ts [])) \<longleftrightarrow> map_of (snd (slot_dirs ts [])) k = Some d"
  by (simp add: slot_dirs_distinct)

lemma checkTasks_conds:
  assumes "\<And>m. mset (rngS m) = mset m" and "\<And>m. mset (rngD m) = mset m"
  shows "checkTasks rngS rngD tasks = [] \<longleftrightarrow>
    (\<forall>t \<in> set tasks. ti_slot t \<noteq> []) \<and> fst (slot_dirs tasks []) = [] \<and>
    (\<forall>k d k' d'. map_of (snd (slot_dirs tasks [])) k = Some d \<longrightarrow> map_of (snd (slot_dirs tasks [])) k' = Some d' \<longrightarrow>
       k' = k \<or> \<not> dirOverlap d d') \<and>
    (\<forall>t \<in> set tasks. outside_files (snd (slot_dirs tasks [])) t = [])"
proof -
  let ?m = "snd (slot_dirs tasks [])"
  have r: "set (rngS ?m) = set ?m" "distinct (map snd (rngS ?m))"
    using assms(1) slot_dirs_dirs_distinct by (metis set_mset_mset, metis mset_map mset_eq_imp_distinct_iff)
  have "overlaps rngD (rngS ?m) [] = [] \<longleftrightarrow>
      (\<forall>k d k' d'. (k, d) \<in> set ?m \<longrightarrow> (k', d') \<in> set ?m \<longrightarrow> k' = k \<or> \<not> dirOverlap d d')"
    using overlaps_none [OF assms(2) r(2), of "[]"] by (simp add: r(1) Ball_def)
  then show ?thesis
    by (simp add: checkTasks_def missing_slots_none slot_dirs_mem case_prod_beta)
qed

lemma checkTasks_sound:
  assumes "\<And>m. mset (rngS m) = mset m" and "\<And>m. mset (rngD m) = mset m" and "checkTasks rngS rngD tasks = []"
  shows "plan_ok tasks"
proof -
  let ?m = "snd (slot_dirs tasks [])"
  note ok = iffD1 [OF checkTasks_conds [OF assms(1,2)] assms(3)]
  then have s: "\<forall>t \<in> set tasks. ti_slot t \<noteq> []" by blast
  have d: "first_dir t \<noteq> []" "map_of ?m (ti_slot t) = Some (first_dir t)" if "t \<in> set tasks" "ti_files t \<noteq> []" for t
    using ok that by (auto simp: slot_dirs_clean has_dir_def)
  have f: "slotDir f (ti_slot t) = first_dir t" if "t \<in> set tasks" "f \<in> set (ti_files t)" for t f
    using ok s that d(2) [OF that(1)] by (fastforce simp: outside_files_none)
  have "\<not> dirOverlap (first_dir t) (first_dir u)"
    if "t \<in> set tasks" "u \<in> set tasks" "ti_files t \<noteq> []" "ti_files u \<noteq> []" "ti_slot t \<noteq> ti_slot u" for t u
    using ok d(2) [OF that(1,3)] d(2) [OF that(2,4)] that(5) by metis
  then show "plan_ok tasks"
    unfolding plan_ok_def using s d f
    by (intro conjI exI [of _ "\<lambda>k. the (map_of ?m k)"]) (metis option.sel list.set_cases list.distinct(1) length_pos_if_in_set)+
qed

lemma checkTasks_complete:
  assumes "\<And>m. mset (rngS m) = mset m" and "\<And>m. mset (rngD m) = mset m" and "plan_ok tasks"
  shows "checkTasks rngS rngD tasks = []"
proof -
  from assms(3) obtain dir where s: "\<forall>t \<in> set tasks. ti_slot t \<noteq> []"
    and f: "\<forall>t \<in> set tasks. \<forall>f \<in> set (ti_files t). slotDir f (ti_slot t) = dir (ti_slot t) \<and> dir (ti_slot t) \<noteq> []"
    and n: "\<forall>t \<in> set tasks. \<forall>u \<in> set tasks. ti_files t \<noteq> [] \<longrightarrow> ti_files u \<noteq> [] \<longrightarrow> ti_slot t \<noteq> ti_slot u \<longrightarrow>
         \<not> dirOverlap (dir (ti_slot t)) (dir (ti_slot u))"
    unfolding plan_ok_def by blast
  have d: "first_dir t = dir (ti_slot t)" "first_dir t \<noteq> []" if "t \<in> set tasks" "has_dir t" for t
    using that f by (auto simp: first_dir_def has_dir_def)
  have v: "fst (slot_dirs tasks []) = []" by (rule slot_dirs_consistent [of _ dir]) (use d in auto)
  moreover have "k' = k \<or> \<not> dirOverlap e e'"
    if "map_of (snd (slot_dirs tasks [])) k = Some e" "map_of (snd (slot_dirs tasks [])) k' = Some e'" for k e k' e'
    using n d slot_dirs_range [OF that(1)] slot_dirs_range [OF that(2)] by (auto simp: has_dir_def)
  moreover have "outside_files (snd (slot_dirs tasks [])) t = []" if t: "t \<in> set tasks" for t
    using t f s v [unfolded slot_dirs_clean] d [OF t] by (cases "ti_files t = []") (auto simp: outside_files_none has_dir_def)
  ultimately show ?thesis unfolding checkTasks_conds [OF assms(1,2)] using s by blast
qed

lemma checkTasks_none:
  assumes "\<And>m. mset (rngS m) = mset m" and "\<And>m. mset (rngD m) = mset m"
  shows "checkTasks rngS rngD tasks = [] \<longleftrightarrow> plan_ok tasks"
  using checkTasks_sound [OF assms] checkTasks_complete [OF assms] by blast

section \<open>The two parsers agree\<close>

text \<open>What the two kinds of task have in common, and a simulation between the two loops.\<close>

definition info_view :: "taskInfo \<Rightarrow> string \<times> string \<times> string list" where
  "info_view t = (ti_heading t, ti_slot t, ti_files t)"

definition raw_view :: "rawTask \<Rightarrow> string \<times> string \<times> string list" where
  "raw_view t = (rt_heading t, rt_slot t, rt_files t)"

definition same_scan :: "plan_state \<Rightarrow> raw_state \<Rightarrow> bool" where
  "same_scan p r \<longleftrightarrow> map info_view (ps_tasks p) = map raw_view (rs_tasks r) \<and>
     map_option info_view (ps_current p) = map_option raw_view (rs_current r) \<and>
     (ps_current p \<noteq> None \<longrightarrow> ps_inFiles p = rs_inFiles r)"

lemma flush_map: "map f (flush ts c) = flush (map f ts) (map_option f c)"
  by (cases c) (simp_all add: flush_def)

lemma same_scan_step: "same_scan p r \<Longrightarrow> same_scan (plan_line p line) (raw_line r line)"
  by (cases "ps_current p"; cases "rs_current r")
    (auto simp: same_scan_def plan_line_def raw_line_def Let_def flush_map info_view_def raw_view_def split: option.splits)

lemma same_scan_lines: "same_scan p r \<Longrightarrow> same_scan (foldl plan_line p ls) (foldl raw_line r ls)"
  by (induction ls arbitrary: p r) (simp_all add: same_scan_step)

lemma scan_agree:
  assumes "scanRawTasks data = Inr raw"
  shows "map raw_view raw = map info_view (scan_plan (fst (scan_lines data)))" "\<not> snd (scan_lines data)"
proof -
  have "same_scan (foldl plan_line plan_start ls) (foldl raw_line raw_start ls)" for ls
    by (rule same_scan_lines) (simp add: same_scan_def plan_start_def raw_start_def)
  with assms show "map raw_view raw = map info_view (scan_plan (fst (scan_lines data)))" "\<not> snd (scan_lines data)"
    by (auto simp: scanRawTasks_def scan_plan_def Let_def flush_map same_scan_def split: prod.splits if_splits)
qed

text \<open>
  Grouping by slot in the order of first appearance: the contract the loops of \<^verbatim>\<open>buildSlotList\<close> and
  \<^verbatim>\<open>aggregateSlots\<close> share, with their map from a slot to its index.
\<close>

definition indexes :: "(string \<rightharpoonup> nat) \<Rightarrow> string list \<Rightarrow> bool" where
  "indexes seen names \<longleftrightarrow> (\<forall>n i. seen n = Some i \<longleftrightarrow> i < length names \<and> names ! i = n)"

definition first_seen :: "string list \<Rightarrow> string list" where
  "first_seen ns = foldl (\<lambda>acc n. if n = [] \<or> n \<in> set acc then acc else acc @ [n]) [] ns"

lemma indexes_None: "indexes seen ns \<Longrightarrow> seen n = None \<longleftrightarrow> n \<notin> set ns"
  unfolding indexes_def by (metis in_set_conv_nth not_Some_eq)

lemma indexes_snoc:
  assumes "indexes seen ns" and "seen n = None"
  shows "indexes (seen(n \<mapsto> length ns)) (ns @ [n])"
proof -
  have "n \<notin> set ns" using assms by (simp add: indexes_None)
  then have "ns ! i \<noteq> n" if "i < length ns" for i using that nth_mem by blast
  with assms(1) show ?thesis by (auto simp: indexes_def nth_append less_Suc_eq)
qed

locale slot_groups =
  fixes step :: "(string \<rightharpoonup> nat) \<times> 'e list \<Rightarrow> 't \<Rightarrow> (string \<rightharpoonup> nat) \<times> 'e list"
    and slot :: "'t \<Rightarrow> string" and name :: "'e \<Rightarrow> string" and fresh :: "'t \<Rightarrow> 'e" and add :: "'e \<Rightarrow> 't \<Rightarrow> 'e"
  assumes skip: "slot t = [] \<Longrightarrow> step st t = st"
    and known: "slot t \<noteq> [] \<Longrightarrow> seen (slot t) = Some i \<Longrightarrow> step (seen, es) t = (seen, es[i := add (es ! i) t])"
    and new: "slot t \<noteq> [] \<Longrightarrow> seen (slot t) = None \<Longrightarrow>
      step (seen, es) t = (seen(slot t \<mapsto> length es), es @ [add (fresh t) t])"
    and name_add: "name (add e t) = name e"
    and name_fresh: "name (fresh t) = slot t"
begin

definition group :: "'t list \<Rightarrow> 'e list" where
  "group ts = snd (foldl step (Map.empty, []) ts)"

lemma step_names:
  assumes "indexes seen (map name es)" and "step (seen, es) t = (seen', es')"
  shows "indexes seen' (map name es')"
    "map name es' = (if slot t = [] \<or> slot t \<in> set (map name es) then map name es else map name es @ [slot t])"
proof -
  consider "slot t = []" | i where "slot t \<noteq> []" "seen (slot t) = Some i" | "slot t \<noteq> []" "seen (slot t) = None" by fastforce
  then have "indexes seen' (map name es') \<and>
    map name es' = (if slot t = [] \<or> slot t \<in> set (map name es) then map name es else map name es @ [slot t])"
  proof cases
    case 2
    with assms(1) have i: "i < length es" "name (es ! i) = slot t" by (auto simp: indexes_def)
    then have "slot t \<in> set (map name es)" by (metis length_map nth_map nth_mem)
    moreover have "map name (es[i := add (es ! i) t]) = map name es"
      using i by (metis list_update_id map_update name_add)
    ultimately show ?thesis using known [of t seen i es] 2 assms by auto
  next
    case 3
    then have "slot t \<notin> set (map name es)" using indexes_None [OF assms(1)] by blast
    moreover have "indexes (seen(slot t \<mapsto> length es)) (map name es @ [slot t])"
      using indexes_snoc [OF assms(1) 3(2)] by simp
    ultimately show ?thesis using new [of t seen es] 3 assms by (auto simp: name_add name_fresh)
  qed (use assms skip in auto)
  then show "indexes seen' (map name es')"
    "map name es' = (if slot t = [] \<or> slot t \<in> set (map name es) then map name es else map name es @ [slot t])" by blast+
qed

lemma group_names_from:
  assumes "indexes seen (map name es)"
  shows "map name (snd (foldl step (seen, es) ts)) =
    foldl (\<lambda>acc n. if n = [] \<or> n \<in> set acc then acc else acc @ [n]) (map name es) (map slot ts)"
  using assms
proof (induction ts arbitrary: seen es)
  case (Cons t ts)
  obtain seen' es' where s: "step (seen, es) t = (seen', es')" by fastforce
  from Cons.IH [OF step_names(1) [OF Cons.prems s]] step_names(2) [OF Cons.prems s] s
  show ?case by simp
qed simp

lemma group_names: "map name (group ts) = first_seen (map slot ts)"
  unfolding group_def first_seen_def using group_names_from [of Map.empty "[]" ts] by (simp add: indexes_def)

end

interpretation slot_list: slot_groups slot_list_step ti_slot se_Name
  "\<lambda>t. \<lparr>se_Name = ti_slot t, se_Tasks = []\<rparr>" "\<lambda>e t. e\<lparr>se_Tasks := se_Tasks e @ [ti_heading t]\<rparr>"
  by unfold_locales (auto simp: slot_list_step_def)

interpretation aggregate: slot_groups aggregate_step rt_slot sl_name
  "\<lambda>t. \<lparr>sl_name = rt_slot t, sl_title = rt_slot t, sl_files = [], sl_sourceMarkdown = []\<rparr>" slot_with
  by unfold_locales (auto simp: aggregate_step_def slot_with_def addFiles_def Let_def)

lemma buildSlotList_names: "map se_Name (buildSlotList ts) = first_seen (map ti_slot ts)"
  using slot_list.group_names by (simp add: buildSlotList_def slot_list.group_def)

lemma aggregateSlots_names: "map sl_name (aggregateSlots ts) = first_seen (map rt_slot ts)"
  using aggregate.group_names by (simp add: aggregateSlots_def aggregate.group_def)

lemma first_seen_facts: "distinct (first_seen ns)" "set (first_seen ns) = set ns - {[]}"
proof -
  have "distinct acc \<Longrightarrow> distinct (foldl (\<lambda>acc n. if n = [] \<or> n \<in> set acc then acc else acc @ [n]) acc ns) \<and>
    set (foldl (\<lambda>acc n. if n = [] \<or> n \<in> set acc then acc else acc @ [n]) acc ns) = set acc \<union> (set ns - {[]})" for acc
    by (induction ns arbitrary: acc) auto
  from this [of "[]"] show "distinct (first_seen ns)" "set (first_seen ns) = set ns - {[]}"
    by (simp_all add: first_seen_def)
qed

lemma parsePlanSlots_names:
  assumes "parsePlanSlots data = Inr slots"
  shows "map sl_name slots = first_seen (map ti_slot (scan_plan (fst (scan_lines data))))"
proof -
  from assms obtain raw where raw: "scanRawTasks data = Inr raw" "slots = aggregateSlots raw"
    by (auto simp: parsePlanSlots_def split: sum.splits)
  have "map rt_slot raw = map (fst \<circ> snd) (map raw_view raw)" by (simp add: raw_view_def)
  also have "\<dots> = map ti_slot (scan_plan (fst (scan_lines data)))"
    unfolding scan_agree(1) [OF raw(1)] by (simp add: info_view_def)
  finally show ?thesis by (simp add: raw(2) aggregateSlots_names)
qed

lemma parsePlanSlots_total: "\<not> snd (scan_lines data) \<Longrightarrow> \<exists>slots. parsePlanSlots data = Inr slots"
  by (auto simp: parsePlanSlots_def scanRawTasks_def Let_def split: prod.splits)

lemma runValidatePlan_slots:
  "\<not> snd (scan_lines data) \<Longrightarrow>
   vr_Slots (fst (runValidatePlan rngS rngD (Inr data))) = buildSlotList (scan_plan (fst (scan_lines data)))"
  by (auto simp: runValidatePlan_def validatePlan_def Let_def split: prod.splits)

lemma runValidatePlan_read: "snd (runValidatePlan rngS rngD (Inr data)) = 0 \<Longrightarrow> \<not> snd (scan_lines data)"
  by (auto simp: runValidatePlan_def validatePlan_def Let_def split: prod.splits)

section \<open>Properties\<close>

text \<open>C39: The validator accepts a plan exactly when every task names a slot, all files of a slot lie in one
  directory named after the slot, and the directories of different slots do not overlap, whatever order the
  maps are iterated in; then no path stands in the tasks of two slots.\<close>

theorem validate_plan_exact:
  assumes "\<And>m. mset (rngS m) = mset m" and "\<And>m. mset (rngD m) = mset m"
  shows "(snd (runValidatePlan rngS rngD file) = 0 \<longleftrightarrow>
      (\<exists>data. file = Inr data \<and> \<not> snd (scan_lines data) \<and> plan_ok (scan_plan (fst (scan_lines data))))) \<and>
    (\<forall>tasks t u f g. plan_ok tasks \<longrightarrow> t \<in> set tasks \<longrightarrow> u \<in> set tasks \<longrightarrow> ti_slot t \<noteq> ti_slot u \<longrightarrow>
      f \<in> set (ti_files t) \<longrightarrow> g \<in> set (ti_files u) \<longrightarrow> f \<noteq> g)"
proof
  show "snd (runValidatePlan rngS rngD file) = 0 \<longleftrightarrow>
      (\<exists>data. file = Inr data \<and> \<not> snd (scan_lines data) \<and> plan_ok (scan_plan (fst (scan_lines data))))"
    by (auto simp: runValidatePlan_def validatePlan_def Let_def checkTasks_none [OF assms] split: sum.splits prod.splits)
  show "\<forall>tasks t u f g. plan_ok tasks \<longrightarrow> t \<in> set tasks \<longrightarrow> u \<in> set tasks \<longrightarrow> ti_slot t \<noteq> ti_slot u \<longrightarrow>
      f \<in> set (ti_files t) \<longrightarrow> g \<in> set (ti_files u) \<longrightarrow> f \<noteq> g"
  proof (intro allI impI)
    fix tasks t u f g
    assume ok: "plan_ok tasks" and t: "t \<in> set tasks" "u \<in> set tasks" "ti_slot t \<noteq> ti_slot u"
      and f: "f \<in> set (ti_files t)" "g \<in> set (ti_files u)"
    have "ti_files t \<noteq> []" "ti_files u \<noteq> []" using f by auto
    with ok t f have "slotDir f (ti_slot t) \<noteq> []" "slotDir g (ti_slot u) \<noteq> []"
      "\<not> dirOverlap (slotDir f (ti_slot t)) (slotDir g (ti_slot u))" by (auto simp: plan_ok_def)
    then show "f \<noteq> g" by (rule disjoint_dirs_no_file)
  qed
qed

definition sample_plan :: string where
  "sample_plan = ''### Task 1 [slot: a]'' @ [CHR 0x0A] @ ''**Files:**'' @ [CHR 0x0A] @ ''- Create: a/../b/f'' @ [CHR 0x0A] @
     ''### Task 2 [slot: b]'' @ [CHR 0x0A] @ ''**Files:**'' @ [CHR 0x0A] @ ''- Modify: b/f''"

lemma sample_plan_accepted: "snd (runValidatePlan id id (Inr sample_plan)) = 0"
  by code_simp

theorem validate_plan_exact_witness: "plan_ok (scan_plan (fst (scan_lines sample_plan)))"
  using validate_plan_exact [of id id "Inr sample_plan"] sample_plan_accepted by simp

text \<open>The comparison is on the spelling of the paths: an accepted plan can give the same file of the
  workspace to two slots, once through a path with a parent component.\<close>

theorem accepted_plan_shares_file:
  "\<exists>plan t u f g. snd (runValidatePlan id id (Inr plan)) = 0 \<and>
     t \<in> set (scan_plan (fst (scan_lines plan))) \<and> u \<in> set (scan_plan (fst (scan_lines plan))) \<and>
     ti_slot t \<noteq> ti_slot u \<and> f \<in> set (ti_files t) \<and> g \<in> set (ti_files u) \<and> Clean f = Clean g"
proof (intro exI conjI)
  show "snd (runValidatePlan id id (Inr sample_plan)) = 0" by (rule sample_plan_accepted)
  have s: "scan_plan (fst (scan_lines sample_plan)) =
    [\<lparr>ti_heading = ''### Task 1 [slot: a]'', ti_slot = ''a'', ti_files = [''a/../b/f''], ti_line = 1\<rparr>,
     \<lparr>ti_heading = ''### Task 2 [slot: b]'', ti_slot = ''b'', ti_files = [''b/f''], ti_line = 4\<rparr>]" by code_simp
  show "\<lparr>ti_heading = ''### Task 1 [slot: a]'', ti_slot = ''a'', ti_files = [''a/../b/f''], ti_line = 1\<rparr> \<in>
      set (scan_plan (fst (scan_lines sample_plan)))"
    "\<lparr>ti_heading = ''### Task 2 [slot: b]'', ti_slot = ''b'', ti_files = [''b/f''], ti_line = 4\<rparr> \<in>
      set (scan_plan (fst (scan_lines sample_plan)))" by (simp_all add: s)
  show "Clean ''a/../b/f'' = Clean ''b/f''" by code_simp
qed simp_all

text \<open>The validator and the dispatcher read the same plan: the same sequence of tasks, the same headings,
  slots and files, and the same slots in the same order, each slot once and no task without its slot.\<close>

theorem plan_parsers_agree:
  assumes "parsePlanSlots data = Inr slots"
  shows "(\<exists>raw. scanRawTasks data = Inr raw \<and> map raw_view raw = map info_view (scan_plan (fst (scan_lines data)))) \<and>
    map sl_name slots = map se_Name (vr_Slots (fst (runValidatePlan rngS rngD (Inr data)))) \<and>
    distinct (map sl_name slots) \<and> set (map sl_name slots) = ti_slot ` set (scan_plan (fst (scan_lines data))) - {[]}"
proof -
  from assms obtain raw where raw: "scanRawTasks data = Inr raw" by (auto simp: parsePlanSlots_def split: sum.splits)
  with scan_agree [OF raw] show ?thesis
    by (simp add: parsePlanSlots_names [OF assms] runValidatePlan_slots buildSlotList_names first_seen_facts)
qed

theorem plan_parsers_agree_witness:
  "\<exists>slots. parsePlanSlots sample_plan = Inr slots \<and> distinct (map sl_name slots) \<and>
     map sl_name slots = map se_Name (vr_Slots (fst (runValidatePlan id id (Inr sample_plan))))"
proof -
  have "is_ok (parsePlanSlots sample_plan)" by code_simp
  then obtain slots where "parsePlanSlots sample_plan = Inr slots" by (auto simp: is_ok_iff)
  with plan_parsers_agree [OF this, of id id] show ?thesis by blast
qed

end
