(* ===== verification/Lease.thy ===== *)
theory Lease
  imports Leaf Sessions Plan
begin

text \<open>
  Leases of slots: \<^verbatim>\<open>internal/swarm/lease.go\<close>, \<^verbatim>\<open>synthetic.go\<close> and \<^verbatim>\<open>events.go\<close>, with \<^verbatim>\<open>coord.OpenLeaf\<close>. A join
  (\<open>Acquire\<close>) opens a leaf, claims the task and creates the session record; every later verb resumes from
  that record (\<open>Resume\<close>), commits and renews it, or closes it together with its task.

  The world of a verb is the substrate and the files of its host: the users of the hub repository, the
  directory of each slot, the copies kept for recovery and the log of events. What the operating system,
  the agent library and the connection answer in one call is the record \<open>lease_env\<close>. The directory of a
  slot is found by the slot's name, which is a single path component. Closing the connection has no effect
  in the model.
\<close>

section \<open>Events\<close>

type_synonym EventKind = string

definition EventSlotJoin :: EventKind where "EventSlotJoin = ''slot_join''"
definition EventSlotCommit :: EventKind where "EventSlotCommit = ''slot_commit''"
definition EventSlotClose :: EventKind where "EventSlotClose = ''slot_close''"
definition EventSlotReap :: EventKind where "EventSlotReap = ''slot_reap''"

record swarm_Event =
  sv_TS :: time_ns
  sv_Kind :: EventKind
  sv_Slot :: string
  sv_TaskID :: string
  sv_AgentID :: string
  sv_Host :: string
  sv_Result :: string
  sv_NoArtifact :: bool
  sv_CommitUUID :: string

definition slot_event :: "EventKind \<Rightarrow> time_ns \<Rightarrow> string \<Rightarrow> string \<Rightarrow> string \<Rightarrow> swarm_Event" where
  "slot_event kind ts slot taskID agentID =
     \<lparr>sv_TS = ts, sv_Kind = kind, sv_Slot = slot, sv_TaskID = taskID, sv_AgentID = agentID, sv_Host = [],
      sv_Result = [], sv_NoArtifact = False, sv_CommitUUID = []\<rparr>"

section \<open>The world of a verb\<close>

datatype wt_node = Regular string | Irregular

type_synonym worktree = "(string \<times> wt_node) list"

record slot_dir =
  sd_pid :: "string option"
  sd_fossil :: bool
  sd_wt :: "worktree option"

record disk =
  dk_hub :: "strmap option"
  dk_slots :: "(string \<times> slot_dir) list"
  dk_recovery :: "(string \<times> worktree) list"
  dk_events :: "swarm_Event list"

record 's world =
  w_kv :: 's
  w_disk :: disk

definition on_kv :: "('s \<Rightarrow> 'a \<times> 's) \<Rightarrow> 's world \<Rightarrow> 'a \<times> 's world" where
  "on_kv f w = (case f (w_kv w) of (r, s') \<Rightarrow> (r, w\<lparr>w_kv := s'\<rparr>))"

definition empty_slot :: slot_dir where
  "empty_slot = \<lparr>sd_pid = None, sd_fossil = False, sd_wt = None\<rparr>"

definition slot_dir_at :: "disk \<Rightarrow> string \<Rightarrow> slot_dir" where
  "slot_dir_at d slot = (case map_of (dk_slots d) slot of None \<Rightarrow> empty_slot | Some x \<Rightarrow> x)"

definition set_slot :: "string \<Rightarrow> (slot_dir \<Rightarrow> slot_dir) \<Rightarrow> 's world \<Rightarrow> 's world" where
  "set_slot slot f w =
     w\<lparr>w_disk := (w_disk w)\<lparr>dk_slots := AList.update slot (f (slot_dir_at (w_disk w) slot)) (dk_slots (w_disk w))\<rparr>\<rparr>"

text \<open>Files are removed in a directory that may be missing: nothing is created.\<close>

definition upd_slot :: "string \<Rightarrow> (slot_dir \<Rightarrow> slot_dir) \<Rightarrow> 's world \<Rightarrow> 's world" where
  "upd_slot slot f w = (if map_of (dk_slots (w_disk w)) slot = None then w else set_slot slot f w)"

record agent_Config =
  agc_RepoPath :: string
  agc_CloneFromHubURL :: string
  agc_NATSUpstream :: string
  agc_PeerID :: string
  agc_Pull :: bool
  agc_Push :: bool
  agc_User :: string

record 's lease_env =
  le_js :: "'s sys"
  le_agent :: "'s agent_sys"
  le_dial :: dial
  le_connect :: "kv_err option"
  le_bucket :: "kv_err option"
  le_hostname :: string
  le_pid :: nat
  le_bonesEnv :: string
  le_abs :: "string \<Rightarrow> err + string"
  le_clock :: "'s \<Rightarrow> time_ns"
  le_statHub :: "err option"
  le_openRepo :: "err option"
  le_addUser :: "err option"
  le_mkdir :: "string \<Rightarrow> err option"
  le_agentNew :: "agent_Config \<Rightarrow> err option"
  le_agentStart :: "err option"
  le_projectCode :: "err + string"
  le_Tip :: "string \<Rightarrow> err + string"
  le_ExtractTo :: "string \<Rightarrow> err + worktree"
  le_writePid :: "err option"
  le_removePid :: "err option"
  le_copyTree :: "err option"
  le_removeAll :: "string \<Rightarrow> err option"
  le_appendEvent :: "err option"

record Info =
  in_AgentID :: string
  in_NATSURL :: string
  in_WorkspaceDir :: string

definition appendEvent :: "'s lease_env \<Rightarrow> Info \<Rightarrow> swarm_Event \<Rightarrow> 's world \<Rightarrow> 's world" where
  "appendEvent env info e w =
     (if in_WorkspaceDir info = [] then w
      else let e' = (if sv_TS e = zero_time then e\<lparr>sv_TS := le_clock env (w_kv w)\<rparr> else e)
           in if le_appendEvent env \<noteq> None then w
              else w\<lparr>w_disk := (w_disk w)\<lparr>dk_events := dk_events (w_disk w) @ [e']\<rparr>\<rparr>)"

definition emitJoinEvent :: "'s lease_env \<Rightarrow> Info \<Rightarrow> string \<Rightarrow> string \<Rightarrow> string \<Rightarrow> time_ns \<Rightarrow> 's world \<Rightarrow> 's world" where
  "emitJoinEvent env info slot taskID fossilUser ts w =
     appendEvent env info ((slot_event EventSlotJoin ts slot taskID fossilUser)\<lparr>sv_Host := le_hostname env\<rparr>) w"

section \<open>Opening a leaf\<close>

record LeafConfig =
  lc_Hub :: "HubAddrs option"
  lc_HubAddrs :: HubAddrs
  lc_Workdir :: string
  lc_SlotID :: string
  lc_ClaimTTL :: duration
  lc_FossilUser :: string
  lc_Autosync :: bool

definition startLeafAgent :: "'s lease_env \<Rightarrow> LeafConfig \<Rightarrow> string \<Rightarrow> string \<Rightarrow> string \<Rightarrow> err option" where
  "startLeafAgent env cfg repoPath hubNATSUpstream hubHTTPAddr =
     (case le_agentNew env \<lparr>agc_RepoPath = repoPath, agc_CloneFromHubURL = hubHTTPAddr,
             agc_NATSUpstream = hubNATSUpstream, agc_PeerID = lc_SlotID cfg, agc_Pull = True, agc_Push = True,
             agc_User = lc_FossilUser cfg\<rparr> of
        Some e \<Rightarrow> Some e
      | None \<Rightarrow> le_agentStart env)"

definition readProjectCodeIfAutosync :: "'s lease_env \<Rightarrow> bool \<Rightarrow> err + string" where
  "readProjectCodeIfAutosync env autosync = (if \<not> autosync then Inr [] else le_projectCode env)"

text \<open>
  A leaf whose project code cannot be read is dropped with its handle of coordination still open: the
  presence entry of that handle stays until it expires.
\<close>

definition OpenLeaf :: "'s lease_env \<Rightarrow> LeafConfig \<Rightarrow> 's world \<Rightarrow> (err + Leaf) \<times> 's world" where
  "OpenLeaf env cfg w =
     (if lc_Workdir cfg = [] then (Inl (EPanic ''coord.OpenLeaf: cfg.Workdir is empty''), w)
      else if lc_SlotID cfg = [] then (Inl (EPanic ''coord.OpenLeaf: cfg.SlotID is empty''), w)
      else case resolveHubAddrs (lc_Hub cfg) (lc_HubAddrs cfg) of
             Inl e \<Rightarrow> (Inl e, w)
           | Inr addrs \<Rightarrow>
               let slotDir = Join (lc_Workdir cfg) (lc_SlotID cfg) in
               (case le_mkdir env slotDir of
                  Some e \<Rightarrow> (Inl e, w)
                | None \<Rightarrow>
                    (case startLeafAgent env cfg (Join slotDir ''leaf.fossil'') (ha_LeafUpstream addrs) (ha_HTTPAddr addrs) of
                       Some e \<Rightarrow> (Inl e, set_slot (lc_SlotID cfg) id w)
                     | None \<Rightarrow>
                         let w1 = set_slot (lc_SlotID cfg) (sd_fossil_update (\<lambda>_. True)) w in
                         (case on_kv (openLeafCoord (le_js env) (le_dial env) (lc_SlotID cfg) (ha_NATSClient addrs) slotDir) w1 of
                            (Inl e, w2) \<Rightarrow> (Inl e, w2)
                          | (Inr c, w2) \<Rightarrow>
                              (case readProjectCodeIfAutosync env (lc_Autosync cfg) of
                                 Inl e \<Rightarrow> (Inl e, w2)
                               | Inr pc \<Rightarrow>
                                   (Inr \<lparr>lf_coord = c, lf_slotID = lc_SlotID cfg, lf_claimTTL = lc_ClaimTTL cfg,
                                         lf_fossilUser = lc_FossilUser cfg, lf_hubHTTPAddr = ha_HTTPAddr addrs,
                                         lf_projectCode = pc, lf_autosync = lc_Autosync cfg\<rparr>, w2))))))"

definition Leaf_Stop :: "'s sys \<Rightarrow> Leaf \<Rightarrow> 's \<Rightarrow> Leaf \<times> 's" where
  "Leaf_Stop js l s = (case coord_Close js (lf_coord l) s of (c, s') \<Rightarrow> (l\<lparr>lf_coord := c\<rparr>, s'))"

definition stop_leaf :: "'s sys \<Rightarrow> Leaf \<Rightarrow> 's world \<Rightarrow> 's world" where
  "stop_leaf js l w = w\<lparr>w_kv := snd (Leaf_Stop js l (w_kv w))\<rparr>"

text \<open>A panic ends the process before the leaf is stopped.\<close>

definition fail_stop :: "'s sys \<Rightarrow> Leaf \<Rightarrow> err \<Rightarrow> 's world \<Rightarrow> 's world" where
  "fail_stop js l e w = (if is_panic e then w else stop_leaf js l w)"

definition Leaf_WT :: "'s lease_env \<Rightarrow> Info \<Rightarrow> Leaf \<Rightarrow> string" where
  "Leaf_WT env info l =
     Join (Join (Join (BonesDir (le_bonesEnv env) (le_abs env) (in_WorkspaceDir info)) ''swarm'') (lf_slotID l)) ''wt''"

text \<open>The files of the trunk's tip are written over those the worktree has; \<open>dir\<close> is the worktree of \<open>slot\<close>.\<close>

definition OpenWorktree :: "'s lease_env \<Rightarrow> string \<Rightarrow> 's world \<Rightarrow> (err + unit) \<times> 's world" where
  "OpenWorktree env slot w =
     (case le_Tip env ''trunk'' of
        Inl e \<Rightarrow> (Inl e, w)
      | Inr tip \<Rightarrow>
          if tip = [] then (Inr (), w)
          else case le_ExtractTo env tip of
                 Inl e \<Rightarrow> (Inl e, w)
               | Inr files \<Rightarrow>
                   (Inr (), set_slot slot (\<lambda>d. d\<lparr>sd_wt := map_option (\<lambda>wt. AList.updates (map fst files) (map snd files) wt) (sd_wt d)\<rparr>) w))"

section \<open>Options and results\<close>

definition DefaultHubFossilURL :: string where
  "DefaultHubFossilURL = ''http://127.0.0.1:8765''"

definition DefaultCaps :: string where
  "DefaultCaps = ''oih''"

definition activeThresholdSec :: int where
  "activeThresholdSec = 90"

record 's AcquireOpts =
  ao_HubURL :: string
  ao_Hub :: "HubAddrs option"
  ao_Caps :: string
  ao_ForceTakeover :: bool
  ao_NATSConn :: bool
  ao_Now :: "('s \<Rightarrow> time_ns) option"
  ao_NoAutosync :: bool

definition defaultAcquireOpts :: "'s lease_env \<Rightarrow> 's AcquireOpts \<Rightarrow> ('s \<Rightarrow> time_ns) \<times> string \<times> string" where
  "defaultAcquireOpts env opts =
     ((case ao_Now opts of None \<Rightarrow> le_clock env | Some f \<Rightarrow> f),
      (if ao_HubURL opts = [] then DefaultHubFossilURL else ao_HubURL opts),
      (if ao_Caps opts = [] then DefaultCaps else ao_Caps opts))"

record CommitResult =
  cr_UUID :: string
  cr_PushErr :: "err option"
  cr_RenewErr :: "err option"

record CloseOpts =
  cp_CloseTaskOnSuccess :: bool
  cp_NoArtifact :: bool
  cp_Reaped :: bool
  cp_KeepWT :: bool

record 's leaseBase =
  lb_info :: Info
  lb_slot :: string
  lb_taskID :: string
  lb_fossilUser :: string
  lb_hubURL :: string
  lb_now :: "'s \<Rightarrow> time_ns"
  lb_leaf :: "Leaf option"
  lb_sessions :: Sessions
  lb_rev :: nat
  lb_released :: bool

record 's FreshLease = "'s leaseBase" +
  fl_claim :: "Claim option"

section \<open>Steps of a join\<close>

definition ensureSlotUser :: "'s lease_env \<Rightarrow> string \<Rightarrow> string \<Rightarrow> 's world \<Rightarrow> (err + unit) \<times> 's world" where
  "ensureSlotUser env login caps w =
     (case dk_hub (w_disk w) of
        None \<Rightarrow> (Inl (ESwarm ErrWorkspaceNotBootstrapped), w)
      | Some users \<Rightarrow>
          (case le_statHub env of
             Some e \<Rightarrow> (Inl e, w)
           | None \<Rightarrow>
               (case le_openRepo env of
                  Some e \<Rightarrow> (Inl e, w)
                | None \<Rightarrow>
                    if map_of users login \<noteq> None then (Inr (), w)
                    else case le_addUser env of
                           Some e \<Rightarrow> (Inl e, w)
                         | None \<Rightarrow> (Inr (), w\<lparr>w_disk := (w_disk w)\<lparr>dk_hub := Some (AList.update login caps users)\<rparr>\<rparr>))))"

definition openLeaseSessions :: "'s lease_env \<Rightarrow> Info \<Rightarrow> bool \<Rightarrow> err + Sessions" where
  "openLeaseSessions env info preNC =
     (if \<not> preNC \<and> in_NATSURL info = [] then Inl (EPanic ''swarm: info.NATSURL is empty and no opts.NATSConn provided'')
      else case (if preNC then None else le_connect env) of
             Some x \<Rightarrow> Inl (EKV x)
           | None \<Rightarrow> swarm_Open (le_bucket env) \<lparr>sc_connected = True, sc_BucketName = [], sc_TTL = 0\<rparr>)"

text \<open>
  \<^verbatim>\<open>int64(d.Seconds())\<close> cuts toward zero. Far beyond the threshold the code's floating-point value may
  differ from this one by rounding, which no comparison with the threshold sees.
\<close>

definition whole_seconds :: "duration \<Rightarrow> int" where
  "whole_seconds d = (if d < 0 then - ((- d) div 1000000000) else d div 1000000000)"

definition clearExistingRecord ::
  "'s lease_env \<Rightarrow> Sessions \<Rightarrow> string \<Rightarrow> bool \<Rightarrow> ('s \<Rightarrow> time_ns) \<Rightarrow> 's \<Rightarrow> (err + unit) \<times> 's" where
  "clearExistingRecord env ss slot force now s =
     (case sessions_Get (le_js env) ss slot s of
        (Inl e, s1) \<Rightarrow> if e = ESwarm SErrNotFound then (Inr (), s1) else (Inl e, s1)
      | (Inr (existing, rv), s1) \<Rightarrow>
          let staleSec = whole_seconds (now s1 - sn_LastRenewed existing) in
          if \<not> force \<and> sn_Host existing = le_hostname env \<and> staleSec \<le> activeThresholdSec
          then (Inl (ESwarm ErrSessionAlreadyLive), s1)
          else if \<not> force \<and> sn_Host existing \<noteq> le_hostname env then (Inl (ESwarm ErrSessionForeignHost), s1)
          else case sessions_delete (le_js env) ss slot rv s1 of
                 (Inl e, s2) \<Rightarrow> if e = ESwarm SErrNotFound then (Inr (), s2) else (Inl e, s2)
               | (Inr _, s2) \<Rightarrow> (Inr (), s2))"

definition openLeaf ::
  "'s lease_env \<Rightarrow> Info \<Rightarrow> string \<Rightarrow> string \<Rightarrow> string \<Rightarrow> HubAddrs option \<Rightarrow> bool \<Rightarrow> 's world \<Rightarrow> (err + Leaf) \<times> 's world" where
  "openLeaf env info slot fossilUser hubURL hub autosync w =
     (let swarmRoot = Join (BonesDir (le_bonesEnv env) (le_abs env) (in_WorkspaceDir info)) ''swarm'' in
      case le_mkdir env swarmRoot of
        Some e \<Rightarrow> (Inl e, w)
      | None \<Rightarrow>
          OpenLeaf env
            \<lparr>lc_Hub = hub,
             lc_HubAddrs = (if hub = None then \<lparr>ha_LeafUpstream = [], ha_NATSClient = in_NATSURL info, ha_HTTPAddr = hubURL\<rparr>
                            else \<lparr>ha_LeafUpstream = [], ha_NATSClient = [], ha_HTTPAddr = []\<rparr>),
             lc_Workdir = swarmRoot, lc_SlotID = slot, lc_ClaimTTL = 0, lc_FossilUser = fossilUser, lc_Autosync = autosync\<rparr> w)"

definition openLeafAndClaim ::
  "'s lease_env \<Rightarrow> Info \<Rightarrow> string \<Rightarrow> string \<Rightarrow> string \<Rightarrow> string \<Rightarrow> HubAddrs option \<Rightarrow> bool \<Rightarrow> 's world \<Rightarrow>
   (err + Leaf \<times> Claim) \<times> 's world" where
  "openLeafAndClaim env info slot fossilUser hubURL taskID hub autosync w =
     (case openLeaf env info slot fossilUser hubURL hub autosync w of
        (Inl e, w1) \<Rightarrow> (Inl e, w1)
      | (Inr l, w1) \<Rightarrow>
          (case on_kv (ProbeSubstrate (le_js env) l) w1 of
             (Inl e, w2) \<Rightarrow> (Inl e, fail_stop (le_js env) l e w2)
           | (Inr _, w2) \<Rightarrow>
               (case le_mkdir env (Leaf_WT env info l) of
                  Some e \<Rightarrow> (Inl e, fail_stop (le_js env) l e w2)
                | None \<Rightarrow>
                    let w3 = set_slot slot (\<lambda>d. d\<lparr>sd_wt := Some (case sd_wt d of None \<Rightarrow> [] | Some wt \<Rightarrow> wt)\<rparr>) w2 in
                    (case OpenWorktree env slot w3 of
                       (Inl e, w4) \<Rightarrow> (Inl e, fail_stop (le_js env) l e w4)
                     | (Inr _, w4) \<Rightarrow>
                         (case Leaf_Claim (le_js env) taskID l (w_kv w4) of
                            (Inl e, l', s') \<Rightarrow> (Inl e, fail_stop (le_js env) l' e (w4\<lparr>w_kv := s'\<rparr>))
                          | (Inr claim, l', s') \<Rightarrow> (Inr (l', claim), w4\<lparr>w_kv := s'\<rparr>))))))"

definition writePidFile :: "'s lease_env \<Rightarrow> string \<Rightarrow> 's world \<Rightarrow> (err + unit) \<times> 's world" where
  "writePidFile env slot w =
     (case le_writePid env of
        Some e \<Rightarrow> (Inl e, w)
      | None \<Rightarrow> (Inr (), set_slot slot (sd_pid_update (\<lambda>_. Some (itoa (le_pid env) @ nl))) w))"

text \<open>
  \<^verbatim>\<open>writeSessionAndPid\<close> and \<^verbatim>\<open>writeSyntheticSession\<close> differ only in the identity they store: the slot's fossil
  user, or the full identity of the agent.
\<close>

definition writeSessionAndPid ::
  "'s lease_env \<Rightarrow> Sessions \<Rightarrow> string \<Rightarrow> string \<Rightarrow> string \<Rightarrow> string \<Rightarrow> ('s \<Rightarrow> time_ns) \<Rightarrow> 's world \<Rightarrow> (err + nat) \<times> 's world" where
  "writeSessionAndPid env ss slot taskID agentID hubURL now w =
     (let t = now (w_kv w);
          x = \<lparr>sn_Slot = slot, sn_TaskID = taskID, sn_AgentID = agentID, sn_Host = le_hostname env,
               sn_LeafPID = int (le_pid env), sn_HubURL = hubURL, sn_StartedAt = t, sn_LastRenewed = t\<rparr>
      in case on_kv (sessions_put (le_js env) ss x) w of
           (Inl e, w1) \<Rightarrow> (Inl e, w1)
         | (Inr _, w1) \<Rightarrow>
             (case writePidFile env slot w1 of
                (Inl e, w2) \<Rightarrow> (Inl e, snd (on_kv (sessions_delete (le_js env) ss slot 0) w2))
              | (Inr _, w2) \<Rightarrow>
                  (case on_kv (sessions_Get (le_js env) ss slot) w2 of
                     (Inl e, w3) \<Rightarrow> (Inl e, w3)
                   | (Inr (_, rv), w3) \<Rightarrow> (Inr rv, w3))))"

definition writeSyntheticSession ::
  "'s lease_env \<Rightarrow> Sessions \<Rightarrow> string \<Rightarrow> string \<Rightarrow> string \<Rightarrow> string \<Rightarrow> ('s \<Rightarrow> time_ns) \<Rightarrow> 's world \<Rightarrow> (err + nat) \<times> 's world" where
  "writeSyntheticSession env ss slot taskID agentID hubURL now w = writeSessionAndPid env ss slot taskID agentID hubURL now w"

section \<open>Acquire and resume\<close>

text \<open>
  \<^verbatim>\<open>Acquire\<close> and \<^verbatim>\<open>acquireSynthetic\<close> are the same steps under another fossil user and another stored
  identity. When the record cannot be written the claim is released and the leaf stopped again.
\<close>

definition acquire_as ::
  "'s lease_env \<Rightarrow> Info \<Rightarrow> string \<Rightarrow> string \<Rightarrow> string \<Rightarrow> string \<Rightarrow> 's AcquireOpts \<Rightarrow> 's world \<Rightarrow>
   (err + 's FreshLease) \<times> 's world" where
  "acquire_as env info slot taskID fossilUser agentID opts w =
     (case defaultAcquireOpts env opts of (now, hubURL0, caps) \<Rightarrow>
      let hubURL = (case ao_Hub opts of Some h \<Rightarrow> if ao_HubURL opts = [] then ha_HTTPAddr h else hubURL0 | None \<Rightarrow> hubURL0) in
      case ensureSlotUser env fossilUser caps w of
        (Inl e, w1) \<Rightarrow> (Inl e, w1)
      | (Inr _, w1) \<Rightarrow>
          (case openLeaseSessions env info (ao_NATSConn opts) of
             Inl e \<Rightarrow> (Inl e, w1)
           | Inr ss \<Rightarrow>
               (case on_kv (clearExistingRecord env ss slot (ao_ForceTakeover opts) now) w1 of
                  (Inl e, w2) \<Rightarrow> (Inl e, w2)
                | (Inr _, w2) \<Rightarrow>
                    (case openLeafAndClaim env info slot fossilUser hubURL taskID (ao_Hub opts) (\<not> ao_NoAutosync opts) w2 of
                       (Inl e, w3) \<Rightarrow> (Inl e, w3)
                     | (Inr (l, claim), w3) \<Rightarrow>
                         (case writeSessionAndPid env ss slot taskID agentID hubURL now w3 of
                            (Inl e, w4) \<Rightarrow>
                              if is_panic e then (Inl e, w4)
                              else (case Claim_Release (le_js env) claim l (w_kv w4) of
                                      (_, _, l', s') \<Rightarrow> (Inl e, stop_leaf (le_js env) l' (w4\<lparr>w_kv := s'\<rparr>)))
                          | (Inr rv, w4) \<Rightarrow>
                              (Inr \<lparr>lb_info = info, lb_slot = slot, lb_taskID = taskID, lb_fossilUser = fossilUser,
                                    lb_hubURL = hubURL, lb_now = now, lb_leaf = Some l, lb_sessions = ss, lb_rev = rv,
                                    lb_released = False, fl_claim = Some claim\<rparr>,
                               emitJoinEvent env info slot taskID fossilUser (now (w_kv w4)) w4))))))"

definition Acquire ::
  "'s lease_env \<Rightarrow> Info \<Rightarrow> string \<Rightarrow> string \<Rightarrow> 's AcquireOpts \<Rightarrow> 's world \<Rightarrow> (err + 's FreshLease) \<times> 's world" where
  "Acquire env info slot taskID opts w =
     (if slot = [] then (Inl (EPanic ''swarm.Acquire: slot is empty''), w)
      else if taskID = [] then (Inl (EPanic ''swarm.Acquire: taskID is empty''), w)
      else if in_WorkspaceDir info = [] then (Inl (EPanic ''swarm.Acquire: info.WorkspaceDir is empty''), w)
      else acquire_as env info slot taskID (''slot-'' @ slot) (''slot-'' @ slot) opts w)"

definition Resume ::
  "'s lease_env \<Rightarrow> Info \<Rightarrow> string \<Rightarrow> 's AcquireOpts \<Rightarrow> 's world \<Rightarrow> (err + 's leaseBase) \<times> 's world" where
  "Resume env info slot opts w =
     (if slot = [] then (Inl (EPanic ''swarm.Resume: slot is empty''), w)
      else if in_WorkspaceDir info = [] then (Inl (EPanic ''swarm.Resume: info.WorkspaceDir is empty''), w)
      else case defaultAcquireOpts env opts of (now, _, _) \<Rightarrow>
        (case openLeaseSessions env info (ao_NATSConn opts) of
           Inl e \<Rightarrow> (Inl e, w)
         | Inr ss \<Rightarrow>
             (case on_kv (sessions_Get (le_js env) ss slot) w of
                (Inl e, w1) \<Rightarrow> (Inl (if e = ESwarm SErrNotFound then ESwarm ErrSessionNotFound else e), w1)
              | (Inr (x, rv), w1) \<Rightarrow>
                  if sn_Host x \<noteq> le_hostname env then (Inl (ESwarm ErrCrossHostOperation), w1)
                  else let hubURL = (if sn_HubURL x = [] then DefaultHubFossilURL else sn_HubURL x) in
                       (case openLeaf env info slot (sn_AgentID x) hubURL (ao_Hub opts) (\<not> ao_NoAutosync opts) w1 of
                          (Inl e, w2) \<Rightarrow> (Inl e, w2)
                        | (Inr l, w2) \<Rightarrow>
                            (Inr \<lparr>lb_info = info, lb_slot = slot, lb_taskID = sn_TaskID x, lb_fossilUser = sn_AgentID x,
                                  lb_hubURL = hubURL, lb_now = now, lb_leaf = Some l, lb_sessions = ss, lb_rev = rv,
                                  lb_released = False\<rparr>, w2)))))"

definition teardown :: "'s sys \<Rightarrow> ('s, 'x) leaseBase_scheme \<Rightarrow> 's world \<Rightarrow> ('s, 'x) leaseBase_scheme \<times> 's world" where
  "teardown js l w =
     (case lb_leaf l of
        None \<Rightarrow> (l\<lparr>lb_sessions := sessions_Close (lb_sessions l)\<rparr>, w)
      | Some lf \<Rightarrow> (l\<lparr>lb_leaf := None, lb_sessions := sessions_Close (lb_sessions l)\<rparr>, stop_leaf js lf w))"

section \<open>A fresh lease\<close>

text \<open>Both ways out of a fresh lease release its claim, through the leaf that took it.\<close>

definition drop_claim :: "'s sys \<Rightarrow> 's FreshLease \<Rightarrow> 's world \<Rightarrow> 's FreshLease \<times> 's world" where
  "drop_claim js l w =
     (case (fl_claim l, lb_leaf l) of
        (Some claim, Some lf) \<Rightarrow>
          (case Claim_Release js claim lf (w_kv w) of
             (_, _, lf', s') \<Rightarrow> (l\<lparr>fl_claim := None, lb_leaf := Some lf'\<rparr>, w\<lparr>w_kv := s'\<rparr>))
      | _ \<Rightarrow> (l\<lparr>fl_claim := None\<rparr>, w))"

definition FreshLease_Release :: "'s sys \<Rightarrow> 's FreshLease \<Rightarrow> 's world \<Rightarrow> 's FreshLease \<times> 's world" where
  "FreshLease_Release js l w =
     (if lb_released l then (l, w)
      else case drop_claim js (l\<lparr>lb_released := True\<rparr>) w of (l1, w1) \<Rightarrow> teardown js l1 w1)"

definition remove_pid :: "string \<Rightarrow> 's world \<Rightarrow> 's world" where
  "remove_pid slot w = upd_slot slot (sd_pid_update (\<lambda>_. None)) w"

definition FreshLease_Abort :: "'s lease_env \<Rightarrow> 's FreshLease \<Rightarrow> 's world \<Rightarrow> err option \<times> 's FreshLease \<times> 's world" where
  "FreshLease_Abort env l w =
     (if lb_released l then (None, l, w)
      else case drop_claim (le_js env) (l\<lparr>lb_released := True\<rparr>) w of (l1, w1) \<Rightarrow>
        (let w2 = (case lb_leaf l1 of None \<Rightarrow> w1 | Some lf \<Rightarrow> stop_leaf (le_js env) lf w1);
             l2 = l1\<lparr>lb_leaf := None\<rparr>;
             w3 = (if le_removePid env = None then remove_pid (lb_slot l) w2 else w2)
         in case (if lb_rev l \<noteq> 0 then on_kv (sessions_delete (le_js env) (lb_sessions l) (lb_slot l) (lb_rev l)) w3
                  else (Inr (), w3)) of
              (Inl e, w4) \<Rightarrow>
                (case teardown (le_js env) l2 w4 of (l3, w5) \<Rightarrow>
                   (if e = ESwarm SErrNotFound \<or> e = ESwarm SErrCASConflict then None else Some e, l3, w5))
            | (Inr _, w4) \<Rightarrow> (case teardown (le_js env) l2 w4 of (l3, w5) \<Rightarrow> (None, l3, w5))))"

section \<open>Commit\<close>

definition AgentSlotIDLen :: nat where
  "AgentSlotIDLen = 12"

definition AgentSlotPrefix :: string where
  "AgentSlotPrefix = ''agent-''"

definition AgentBranchPrefix :: string where
  "AgentBranchPrefix = ''agent/''"

definition SyntheticTaskTitle :: string where
  "SyntheticTaskTitle = ''agent slot (synthetic, ADR 0050)''"

definition swarm_truncate :: "string \<Rightarrow> nat \<Rightarrow> string" where
  "swarm_truncate x n = (if length x > n then take n x else x)"

definition SyntheticSlotName :: "string \<Rightarrow> err + string" where
  "SyntheticSlotName agentID =
     (if agentID = [] then Inl (EPanic ''swarm.SyntheticSlotName: agentID is empty'')
      else let i = TrimSpace agentID in
           Inr (AgentSlotPrefix @ (if length i > AgentSlotIDLen then take AgentSlotIDLen i else i)))"

definition AgentBranchName :: "string \<Rightarrow> err + string" where
  "AgentBranchName agentID =
     (if agentID = [] then Inl (EPanic ''swarm.AgentBranchName: agentID is empty'')
      else Inr (AgentBranchPrefix @ TrimSpace agentID))"

definition AgentBranchTags :: "string \<Rightarrow> err + (string \<times> string) list" where
  "AgentBranchTags agentID =
     (case AgentBranchName agentID of
        Inl e \<Rightarrow> Inl e
      | Inr name \<Rightarrow> Inr [(''branch'', name), (''sym-'' @ name, ''*'')])"

definition TrunkBranchTags :: "(string \<times> string) list" where
  "TrunkBranchTags = [(''branch'', ''trunk''), (''sym-trunk'', ''*'')]"

definition IsSyntheticSlot :: "string \<Rightarrow> bool" where
  "IsSyntheticSlot slot = has_prefix slot AgentSlotPrefix"

definition commit_tags :: "string \<Rightarrow> string \<Rightarrow> err + (string \<times> string) list" where
  "commit_tags slot fossilUser = (if IsSyntheticSlot slot then AgentBranchTags fossilUser else Inr TrunkBranchTags)"

text \<open>
  \<^verbatim>\<open>commitViaLeaf\<close>: the deferred calls give back the holds first and then the claim, whether or not the commit
  went through (a panic runs them too).
\<close>

definition commitViaLeaf ::
  "'s sys \<Rightarrow> 's agent_sys \<Rightarrow> Leaf \<Rightarrow> string \<Rightarrow> string \<Rightarrow> File list \<Rightarrow> (string \<times> string) list \<Rightarrow> 's \<Rightarrow>
   (err + string) \<times> Leaf \<times> 's" where
  "commitViaLeaf js ag l taskID message files tags s =
     (case Leaf_Claim js taskID l s of
        (Inl e, l1, s1) \<Rightarrow> (Inl e, l1, s1)
      | (Inr claim, l1, s1) \<Rightarrow>
          (case AnnounceHolds js (map (\<lambda>f. path_abs (f_Path f)) files) l1 s1 of
             (Inl e, s2) \<Rightarrow> (case Claim_Release js claim l1 s2 of (_, _, l2, s3) \<Rightarrow> (Inl e, l2, s3))
           | (Inr held, s2) \<Rightarrow>
               (case Leaf_Commit js ag claim files
                       (WithMessage message # (if tags \<noteq> [] then [WithTags tags] else [])) l1 s2 of
                  (r, s3) \<Rightarrow>
                    (case Claim_Release js claim l1 (rollback js (lf_coord l1) held s3) of
                       (_, _, l2, s4) \<Rightarrow> (r, l2, s4)))))"

definition bump_attempt :: "'s lease_env \<Rightarrow> Sessions \<Rightarrow> string \<Rightarrow> ('s \<Rightarrow> time_ns) \<Rightarrow> 's \<Rightarrow> nat attempt \<times> 's" where
  "bump_attempt env ss slot now s =
     (case sessions_Get (le_js env) ss slot s of
        (Inl e, s1) \<Rightarrow> (Verdict (Inl (if e = ESwarm SErrNotFound then ESwarm ErrSessionGone else e)), s1)
      | (Inr (x, rv), s1) \<Rightarrow>
          (case sessions_update (le_js env) ss (x\<lparr>sn_LastRenewed := now s1\<rparr>) rv s1 of
             (Inl e, s2) \<Rightarrow> if e = ESwarm SErrCASConflict then (Conflict, s2) else (Verdict (Inl e), s2)
           | (Inr _, s2) \<Rightarrow> (Verdict (Inr (rv + 1)), s2)))"

definition bumpLastRenewed :: "'s lease_env \<Rightarrow> 's leaseBase \<Rightarrow> 's \<Rightarrow> (err + nat) \<times> 's" where
  "bumpLastRenewed env l s =
     (case retry MaxRetries (bump_attempt env (lb_sessions l) (lb_slot l) (lb_now l)) s of
        (None, s') \<Rightarrow> (Inl (EMsg ''swarm.ResumedLease.Commit: exhausted 8 CAS retries on session bump''), s')
      | (Some r, s') \<Rightarrow> (r, s'))"

definition panicked :: "err option \<Rightarrow> err option" where
  "panicked x = (case x of Some e \<Rightarrow> if is_panic e then Some e else None | None \<Rightarrow> None)"

definition lease_Commit ::
  "'s lease_env \<Rightarrow> string \<Rightarrow> File list \<Rightarrow> 's leaseBase \<Rightarrow> 's world \<Rightarrow> (err + CommitResult) \<times> 's leaseBase \<times> 's world" where
  "lease_Commit env message files l w =
     (case lb_leaf l of
        None \<Rightarrow> (Inl (EMsg ''swarm.ResumedLease.Commit: leaf already stopped''), l, w)
      | Some lf \<Rightarrow>
          (case commit_tags (lb_slot l) (lb_fossilUser l) of
             Inl e \<Rightarrow> (Inl e, l, w)
           | Inr tags \<Rightarrow>
               (case commitViaLeaf (le_js env) (le_agent env) lf (lb_taskID l) message files tags (w_kv w) of
                  (Inl e, lf', s1) \<Rightarrow> (Inl e, l\<lparr>lb_leaf := Some lf'\<rparr>, w\<lparr>w_kv := s1\<rparr>)
                | (Inr uuid, lf', s1) \<Rightarrow>
                    (case Leaf_Push (le_agent env) (lb_hubURL l) (lb_fossilUser l) [] lf' s1 of
                       (p, s2) \<Rightarrow>
                         let pushErr = (case p of Inl e \<Rightarrow> Some e | Inr _ \<Rightarrow> None) in
                         (case panicked pushErr of
                            Some e \<Rightarrow> (Inl e, l\<lparr>lb_leaf := Some lf'\<rparr>, w\<lparr>w_kv := s2\<rparr>)
                          | None \<Rightarrow>
                              (case bumpLastRenewed env l (snd (Leaf_Stop (le_js env) lf' s2)) of
                                (b, s3) \<Rightarrow>
                                  (Inr \<lparr>cr_UUID = uuid, cr_PushErr = pushErr,
                                        cr_RenewErr = (case b of Inl e \<Rightarrow> Some e | Inr _ \<Rightarrow> None)\<rparr>,
                                   l\<lparr>lb_leaf := None, lb_rev := (case b of Inr rv \<Rightarrow> rv | Inl _ \<Rightarrow> lb_rev l)\<rparr>,
                                   appendEvent env (lb_info l)
                                     ((slot_event EventSlotCommit (lb_now l s3) (lb_slot l) (lb_taskID l) (lb_fossilUser l))
                                       \<lparr>sv_CommitUUID := uuid\<rparr>) (w\<lparr>w_kv := s3\<rparr>))))))))"

section \<open>Close\<close>

definition checkArtifactPrecondition :: "'s lease_env \<Rightarrow> CloseOpts \<Rightarrow> 's leaseBase \<Rightarrow> 's \<Rightarrow> (err + unit) \<times> 's" where
  "checkArtifactPrecondition env opts l s =
     (if \<not> cp_CloseTaskOnSuccess opts \<or> cp_NoArtifact opts then (Inr (), s)
      else case sessions_Get (le_js env) (lb_sessions l) (lb_slot l) s of
             (Inl e, s') \<Rightarrow> if e = ESwarm SErrNotFound then (Inr (), s') else (Inl e, s')
           | (Inr (x, _), s') \<Rightarrow>
               if sn_LastRenewed x > sn_StartedAt x then (Inr (), s') else (Inl (ESwarm ErrCloseRequiresArtifact), s'))"

definition closeTaskAndReleaseClaim :: "'s sys \<Rightarrow> bool \<Rightarrow> 's leaseBase \<Rightarrow> 's \<Rightarrow> err option \<times> 's leaseBase \<times> 's" where
  "closeTaskAndReleaseClaim js closeTask l s =
     (case lb_leaf l of
        None \<Rightarrow> (None, l, s)
      | Some lf \<Rightarrow>
          (case Leaf_Claim js (lb_taskID l) lf s of
             (Inl e, lf1, s1) \<Rightarrow> (Some e, l\<lparr>lb_leaf := Some lf1\<rparr>, s1)
           | (Inr claim, lf1, s1) \<Rightarrow>
               (case (if closeTask then Leaf_Close js claim lf1 s1 else Claim_Release js claim lf1 s1) of
                  (e, _, lf2, s2) \<Rightarrow> (e, l\<lparr>lb_leaf := Some lf2\<rparr>, s2))))"

fun delete_attempts :: "nat \<Rightarrow> 's sys \<Rightarrow> Sessions \<Rightarrow> string \<Rightarrow> nat \<Rightarrow> 's \<Rightarrow> err option \<times> 's" where
  "delete_attempts 0 js ss slot rv s =
     (Some (EMsg ''swarm.ResumedLease.Close: exhausted 8 CAS retries on session delete''), s)"
| "delete_attempts (Suc n) js ss slot rv s =
     (case sessions_delete js ss slot rv s of
        (Inr _, s1) \<Rightarrow> (None, s1)
      | (Inl e, s1) \<Rightarrow>
          if e = ESwarm SErrNotFound then (None, s1)
          else if e = ESwarm SErrCASConflict then
            (case sessions_Get js ss slot s1 of
               (Inl e', s2) \<Rightarrow> if e' = ESwarm SErrNotFound then (None, s2) else (Some e', s2)
             | (Inr (_, rv'), s2) \<Rightarrow> delete_attempts n js ss slot rv' s2)
          else (Some e, s1))"

definition deleteSessionRecord :: "'s lease_env \<Rightarrow> 's leaseBase \<Rightarrow> 's \<Rightarrow> err option \<times> 's" where
  "deleteSessionRecord env l s =
     (if lb_rev l = 0 then (None, s)
      else delete_attempts MaxRetries (le_js env) (lb_sessions l) (lb_slot l) (lb_rev l) s)"

text \<open>
  The copy of a worktree: every entry counts, only regular files are copied. The name of the copy has the
  whole seconds of the clock.
\<close>

fun regular_files :: "worktree \<Rightarrow> worktree" where
  "regular_files [] = []"
| "regular_files ((p, Regular c) # wt) = (p, Regular c) # regular_files wt"
| "regular_files ((p, Irregular) # wt) = regular_files wt"

definition preserveWorktree :: "'s lease_env \<Rightarrow> Info \<Rightarrow> string \<Rightarrow> time_ns \<Rightarrow> 's world \<Rightarrow> (err + string \<times> nat) \<times> 's world" where
  "preserveWorktree env info slot now w =
     (case sd_wt (slot_dir_at (w_disk w) slot) of
        None \<Rightarrow> (Inr ([], 0), w)
      | Some wt \<Rightarrow>
          if length wt = 0 then (Inr ([], 0), w)
          else let name = slot @ ''-'' @ signed_itoa (now div 1000000000);
                   dir = Join (Join (BonesDir (le_bonesEnv env) (le_abs env) (in_WorkspaceDir info)) ''recovery'') name
               in case le_mkdir env dir of
                    Some e \<Rightarrow> (Inl e, w)
                  | None \<Rightarrow>
                      (case le_copyTree env of
                         Some e \<Rightarrow> (Inl e, w)
                       | None \<Rightarrow>
                           (Inr (dir, length wt),
                            w\<lparr>w_disk := (w_disk w)\<lparr>dk_recovery := AList.update name
                                (AList.updates (map fst (regular_files wt)) (map snd (regular_files wt))
                                   (case map_of (dk_recovery (w_disk w)) name of None \<Rightarrow> [] | Some old \<Rightarrow> old))
                                (dk_recovery (w_disk w))\<rparr>\<rparr>)))"

text \<open>\<open>le_removeAll\<close> is the outcome of removing the worktree of a slot.\<close>

definition remove_wt :: "'s lease_env \<Rightarrow> string \<Rightarrow> 's world \<Rightarrow> 's world" where
  "remove_wt env slot w = (if le_removeAll env slot = None then upd_slot slot (sd_wt_update (\<lambda>_. None)) w else w)"

definition close_event :: "CloseOpts \<Rightarrow> 's leaseBase \<Rightarrow> time_ns \<Rightarrow> swarm_Event" where
  "close_event opts l ts =
     (slot_event (if cp_Reaped opts then EventSlotReap else EventSlotClose) ts (lb_slot l) (lb_taskID l) (lb_fossilUser l))
       \<lparr>sv_Result := (if cp_CloseTaskOnSuccess opts then ''success'' else ''fail''), sv_NoArtifact := cp_NoArtifact opts\<rparr>"

definition lease_Close ::
  "'s lease_env \<Rightarrow> CloseOpts \<Rightarrow> 's leaseBase \<Rightarrow> 's world \<Rightarrow> err option \<times> 's leaseBase \<times> 's world" where
  "lease_Close env opts l w =
     (if lb_released l then (None, l, w)
      else case on_kv (checkArtifactPrecondition env opts l) w of
             (Inl e, w1) \<Rightarrow> (Some e, l, w1)
           | (Inr _, w1) \<Rightarrow>
               (case closeTaskAndReleaseClaim (le_js env) (cp_CloseTaskOnSuccess opts) (l\<lparr>lb_released := True\<rparr>) (w_kv w1) of
                  (Some e, l1, s2) \<Rightarrow>
                    if is_panic e then (Some e, l1, w1\<lparr>w_kv := s2\<rparr>)
                    else (case teardown (le_js env) l1 (w1\<lparr>w_kv := s2\<rparr>) of (l2, w3) \<Rightarrow> (Some e, l2, w3))
                | (None, l1, s2) \<Rightarrow>
                    let w2 = w1\<lparr>w_kv := s2\<rparr>;
                        w3 = (case lb_leaf l1 of None \<Rightarrow> w2 | Some lf \<Rightarrow> stop_leaf (le_js env) lf w2);
                        l2 = l1\<lparr>lb_leaf := None\<rparr>
                    in case le_removePid env of
                         Some e \<Rightarrow> (case teardown (le_js env) l2 w3 of (l3, w4) \<Rightarrow> (Some e, l3, w4))
                       | None \<Rightarrow>
                           (case on_kv (deleteSessionRecord env l2) (remove_pid (lb_slot l) w3) of
                              (Some e, w4) \<Rightarrow> (case teardown (le_js env) l2 w4 of (l3, w5) \<Rightarrow> (Some e, l3, w5))
                            | (None, w4) \<Rightarrow>
                                (case teardown (le_js env) l2 w4 of
                                   (l3, w5) \<Rightarrow>
                                     let w6 = (if cp_CloseTaskOnSuccess opts \<and> \<not> cp_KeepWT opts
                                               then remove_wt env (lb_slot l)
                                                      (snd (preserveWorktree env (lb_info l) (lb_slot l) (lb_now l (w_kv w5)) w5))
                                               else w5)
                                     in (None, l3, appendEvent env (lb_info l) (close_event opts l (lb_now l (w_kv w6))) w6)))))"

definition lease_Release :: "'s sys \<Rightarrow> 's leaseBase \<Rightarrow> 's world \<Rightarrow> 's leaseBase \<times> 's world" where
  "lease_Release js l w = (if lb_released l then (l, w) else teardown js (l\<lparr>lb_released := True\<rparr>) w)"

section \<open>Synthetic slots\<close>

record 's JoinAutoResult =
  jr_Slot :: string
  jr_WT :: string
  jr_TaskID :: string
  jr_AgentID :: string
  jr_ReEntry :: bool
  jr_Lease :: "'s FreshLease option"

definition probeReEntry ::
  "'s lease_env \<Rightarrow> Info \<Rightarrow> string \<Rightarrow> string \<Rightarrow> 's AcquireOpts \<Rightarrow> 's \<Rightarrow> (err + Session option) \<times> 's" where
  "probeReEntry env info slot agentID opts s =
     (case openLeaseSessions env info (ao_NATSConn opts) of
        Inl e \<Rightarrow> (Inl e, s)
      | Inr ss \<Rightarrow>
          (case sessions_Get (le_js env) ss slot s of
             (Inl e, s1) \<Rightarrow> if e = ESwarm SErrNotFound then (Inr None, s1) else (Inl e, s1)
           | (Inr (x, _), s1) \<Rightarrow>
               if sn_Host x \<noteq> le_hostname env then (Inl (ESwarm ErrSessionForeignHost), s1)
               else if sn_AgentID x \<noteq> agentID then (Inl (ESwarm ErrSessionAlreadyLive), s1)
               else (Inr (Some x), s1)))"

definition bumpReEntry ::
  "'s lease_env \<Rightarrow> Info \<Rightarrow> string \<Rightarrow> 's AcquireOpts \<Rightarrow> ('s \<Rightarrow> time_ns) \<Rightarrow> 's \<Rightarrow> (err + unit) \<times> 's" where
  "bumpReEntry env info slot opts now s =
     (case openLeaseSessions env info (ao_NATSConn opts) of
        Inl e \<Rightarrow> (Inl e, s)
      | Inr ss \<Rightarrow>
          (case sessions_Get (le_js env) ss slot s of
             (Inl e, s1) \<Rightarrow> (Inl e, s1)
           | (Inr (x, rv), s1) \<Rightarrow> sessions_update (le_js env) ss (x\<lparr>sn_LastRenewed := now s1\<rparr>) rv s1))"

definition openSyntheticTask ::
  "'s lease_env \<Rightarrow> 8 word list \<Rightarrow> Info \<Rightarrow> string \<Rightarrow> string \<Rightarrow> 's AcquireOpts \<Rightarrow> 's world \<Rightarrow> (err + string) \<times> 's world" where
  "openSyntheticTask env rnd info slot agentID opts w =
     (let hubURL1 = (case ao_Hub opts of Some h \<Rightarrow> if ao_HubURL opts = [] then ha_HTTPAddr h else ao_HubURL opts
                                       | None \<Rightarrow> ao_HubURL opts);
          hubURL = (if hubURL1 = [] then DefaultHubFossilURL else hubURL1)
      in case openLeaf env info (slot @ ''-init'') (AgentSlotPrefix @ swarm_truncate agentID AgentSlotIDLen) hubURL
                (ao_Hub opts) (\<not> ao_NoAutosync opts) w of
           (Inl e, w1) \<Rightarrow> (Inl e, w1)
         | (Inr l, w1) \<Rightarrow>
             (case on_kv (Leaf_OpenTask (le_js env) rnd SyntheticTaskTitle
                      [Join (SlotWorktree (BonesDir (le_bonesEnv env) (le_abs env) (in_WorkspaceDir info)) slot) ''.synthetic-claim''] l) w1 of
                (r, w2) \<Rightarrow> (r, stop_leaf (le_js env) l w2)))"

definition acquireSynthetic ::
  "'s lease_env \<Rightarrow> Info \<Rightarrow> string \<Rightarrow> string \<Rightarrow> string \<Rightarrow> 's AcquireOpts \<Rightarrow> 's world \<Rightarrow> (err + 's FreshLease) \<times> 's world" where
  "acquireSynthetic env info slot taskID agentID opts w =
     acquire_as env info slot taskID (AgentSlotPrefix @ swarm_truncate agentID AgentSlotIDLen) agentID opts w"

definition JoinAuto ::
  "'s lease_env \<Rightarrow> 8 word list \<Rightarrow> Info \<Rightarrow> 's AcquireOpts \<Rightarrow> 's world \<Rightarrow> (err + 's JoinAutoResult) \<times> 's world" where
  "JoinAuto env rnd info opts w =
     (if in_WorkspaceDir info = [] then (Inl (EPanic ''swarm.JoinAuto: info.WorkspaceDir is empty''), w)
      else if TrimSpace (in_AgentID info) = [] then (Inl (ESwarm ErrAgentIDMissing), w)
      else case SyntheticSlotName (in_AgentID info) of
             Inl e \<Rightarrow> (Inl e, w)
           | Inr slot \<Rightarrow>
               (case defaultAcquireOpts env opts of (now, _, _) \<Rightarrow>
                (case on_kv (probeReEntry env info slot (in_AgentID info) opts) w of
                   (Inl e, w1) \<Rightarrow> (Inl e, w1)
                 | (Inr (Some x), w1) \<Rightarrow>
                     (Inr \<lparr>jr_Slot = slot,
                           jr_WT = SlotWorktree (BonesDir (le_bonesEnv env) (le_abs env) (in_WorkspaceDir info)) slot,
                           jr_TaskID = sn_TaskID x, jr_AgentID = sn_AgentID x, jr_ReEntry = True, jr_Lease = None\<rparr>,
                      snd (on_kv (bumpReEntry env info slot opts now) w1))
                 | (Inr None, w1) \<Rightarrow>
                     (case openSyntheticTask env rnd info slot (in_AgentID info) opts w1 of
                        (Inl e, w2) \<Rightarrow> (Inl e, w2)
                      | (Inr taskID, w2) \<Rightarrow>
                          (case acquireSynthetic env info slot taskID (in_AgentID info) opts w2 of
                             (Inl e, w3) \<Rightarrow> (Inl e, w3)
                           | (Inr l, w3) \<Rightarrow>
                               (Inr \<lparr>jr_Slot = slot,
                                     jr_WT = (case lb_leaf l of None \<Rightarrow> [] | Some lf \<Rightarrow> Leaf_WT env info lf),
                                     jr_TaskID = taskID, jr_AgentID = in_AgentID info, jr_ReEntry = False,
                                     jr_Lease = Some l\<rparr>, w3))))))"

section \<open>Files\<close>

text \<open>Work on the files of a slot leaves the substrate, the log of events and the other slots alone.\<close>

lemma slot_dir_at_set [simp]:
  "slot_dir_at (w_disk (set_slot slot f w)) k = (if k = slot then f (slot_dir_at (w_disk w) slot) else slot_dir_at (w_disk w) k)"
  by (simp add: slot_dir_at_def set_slot_def)

lemma set_slot_other [simp]:
  "w_kv (set_slot slot f w) = w_kv w" "dk_events (w_disk (set_slot slot f w)) = dk_events (w_disk w)"
  "dk_hub (w_disk (set_slot slot f w)) = dk_hub (w_disk w)"
  by (simp_all add: set_slot_def)

lemma upd_slot_other [simp]:
  "w_kv (upd_slot slot f w) = w_kv w" "dk_events (w_disk (upd_slot slot f w)) = dk_events (w_disk w)"
  "dk_hub (w_disk (upd_slot slot f w)) = dk_hub (w_disk w)"
  by (simp_all add: upd_slot_def)

lemma slot_dir_at_upd [simp]:
  "f empty_slot = empty_slot \<Longrightarrow>
   slot_dir_at (w_disk (upd_slot slot f w)) k = (if k = slot then f (slot_dir_at (w_disk w) slot) else slot_dir_at (w_disk w) k)"
  by (simp add: upd_slot_def) (simp add: slot_dir_at_def)

lemma remove_pid_simps [simp]:
  "w_kv (remove_pid slot w) = w_kv w" "dk_events (w_disk (remove_pid slot w)) = dk_events (w_disk w)"
  "slot_dir_at (w_disk (remove_pid slot w)) k =
     (if k = slot then (slot_dir_at (w_disk w) slot)\<lparr>sd_pid := None\<rparr> else slot_dir_at (w_disk w) k)"
  by (simp_all add: remove_pid_def empty_slot_def)

lemma remove_wt_simps [simp]:
  "w_kv (remove_wt env slot w) = w_kv w" "dk_events (w_disk (remove_wt env slot w)) = dk_events (w_disk w)"
  "slot_dir_at (w_disk (remove_wt env slot w)) k =
     (if k = slot \<and> le_removeAll env slot = None then (slot_dir_at (w_disk w) slot)\<lparr>sd_wt := None\<rparr> else slot_dir_at (w_disk w) k)"
  by (simp_all add: remove_wt_def empty_slot_def)

lemma preserveWorktree_simps [simp]:
  "w_kv (snd (preserveWorktree env info slot now w)) = w_kv w"
  "dk_events (w_disk (snd (preserveWorktree env info slot now w))) = dk_events (w_disk w)"
  "slot_dir_at (w_disk (snd (preserveWorktree env info slot now w))) k = slot_dir_at (w_disk w) k"
  by (auto simp: preserveWorktree_def slot_dir_at_def Let_def split: option.splits)

lemma appendEvent_simps [simp]:
  "w_kv (appendEvent env info e w) = w_kv w" "slot_dir_at (w_disk (appendEvent env info e w)) k = slot_dir_at (w_disk w) k"
  by (simp_all add: appendEvent_def slot_dir_at_def Let_def)

lemma appendEvent_log:
  assumes "in_WorkspaceDir info \<noteq> []" and "le_appendEvent env = None"
  obtains ts where "dk_events (w_disk (appendEvent env info e w)) = dk_events (w_disk w) @ [e\<lparr>sv_TS := ts\<rparr>]"
proof (cases "sv_TS e = zero_time")
  case True then show ?thesis using assms that by (simp add: appendEvent_def)
next
  case False then show ?thesis using assms that [of "sv_TS e"] by (simp add: appendEvent_def)
qed

section \<open>Under interference\<close>

lemma openLeaseSessions_ok:
  "openLeaseSessions env info pre = Inr ss \<Longrightarrow> ss_Bucket ss = swarm_DefaultBucketName \<and> \<not> ss_closed ss"
  by (auto simp: openLeaseSessions_def swarm_Open_def swarm_Validate_def split: if_splits option.splits)

lemma coord_Open_tasks:
  assumes "coord_Open js d cfg s = (Inr c, s')"
  shows "c_AgentID c = cc_AgentID cfg" and "m_bucket (c_tasks c) = DefaultBucketName"
proof -
  have tm: "m_cfg m = cf" if "tasks_Open js kv st cf s0 = (Inr m, s1)" for m kv st cf s0 s1
    using that by (auto simp: tasks_Open_def Let_def split: sum.splits option.splits if_splits prod.splits)
  show "c_AgentID c = cc_AgentID cfg"
    using assms by (auto simp: coord_Open_def Let_def split: sum.splits prod.splits)
  from assms obtain hm am cm pm cf where "openSubstrate js d cf s = (Inr (hm, c_tasks c, am, cm, pm), s')"
    by (auto simp: coord_Open_def Let_def split: sum.splits prod.splits)
  then obtain s1 where "tasks_Open js (d_tasks d) (d_stream d) (tasks_config cf) s = (Inr (c_tasks c), s1)"
    by (auto simp: openSubstrate_def split: sum.splits prod.splits option.splits)
  from tm [OF this] show "m_bucket (c_tasks c) = DefaultBucketName"
    by (simp add: tasks_config_def)
qed

lemma openLeaf_handle:
  assumes "openLeaf env info slot user url hub sync w = (Inr l, w')"
  shows "c_AgentID (lf_coord l) = slot @ ''-leaf''" and "m_bucket (c_tasks (lf_coord l)) = DefaultBucketName"
proof -
  from assms obtain nats dir s s' where "openLeafCoord (le_js env) (le_dial env) slot nats dir s = (Inr (lf_coord l), s')"
    by (auto simp: openLeaf_def OpenLeaf_def on_kv_def Let_def split: sum.splits prod.splits option.splits if_splits)
  then show "c_AgentID (lf_coord l) = slot @ ''-leaf''" "m_bucket (c_tasks (lf_coord l)) = DefaultBucketName"
    using coord_Open_tasks unfolding openLeafCoord_def by fastforce+
qed

text \<open>The claim inside a join is a claim of the task by the leaf of the slot.\<close>

lemma openLeafAndClaim_claims:
  assumes "openLeafAndClaim env info slot user url taskID hub sync w = (Inr (l, claim), w')"
  obtains c c' files s s' where "acquireTaskCAS (le_js env) taskID c s = (Inr files, c', s')"
    and "c_AgentID c = slot @ ''-leaf''" and "m_bucket (c_tasks c) = DefaultBucketName"
    and "cl_taskID claim = taskID"
proof -
  from assms obtain l0 w1 s2 where o: "openLeaf env info slot user url hub sync w = (Inr l0, w1)"
    and cl: "Leaf_Claim (le_js env) taskID l0 s2 = (Inr claim, l, w_kv w')"
    by (auto simp: openLeafAndClaim_def Let_def split: sum.splits prod.splits option.splits)
  from cl obtain held c s' where "coord_Claim (le_js env) taskID (leaf_ttl l0) (lf_coord l0) s2 = (Inr held, c, s')"
    and t: "cl_taskID claim = taskID"
    by (auto simp: Leaf_Claim_def split: sum.splits prod.splits)
  then obtain files c1 s1 where "acquireTaskCAS (le_js env) taskID (lf_coord l0) s2 = (Inr files, c1, s1)"
    by (auto simp: coord_Claim_def split: if_splits sum.splits prod.splits option.splits)
  from that [OF this openLeaf_handle [OF o] t] show ?thesis .
qed

context jetstream
begin

lemma writeSessionAndPid_creates:
  assumes "writeSessionAndPid env ss slot taskID agentID hubURL now w = (Inr rv, w')" and "le_js env = js"
  obtains s1 s2 x r where "\<not> live (o_view ob s1 (ss_Bucket ss) slot)"
    and "wrote ob s1 s2 (ss_Bucket ss) slot (put_entry (session_encode x) r)"
    and "sn_Slot x = slot" and "sn_TaskID x = taskID" and "sn_AgentID x = agentID" and "sn_Host x = le_hostname env"
    and "sn_HubURL x = hubURL" and "sn_StartedAt x = sn_LastRenewed x"
proof -
  define x where "x = \<lparr>sn_Slot = slot, sn_TaskID = taskID, sn_AgentID = agentID, sn_Host = le_hostname env,
    sn_LeafPID = int (le_pid env), sn_HubURL = hubURL, sn_StartedAt = now (w_kv w), sn_LastRenewed = now (w_kv w)\<rparr>"
  have sl: "sn_Slot x = slot" by (simp add: x_def)
  from assms obtain s2 where "sessions_put js ss x (w_kv w) = (Inr (), s2)"
    by (auto simp: writeSessionAndPid_def x_def on_kv_def Let_def split: sum.splits prod.splits)
  then obtain s1 r where p: "\<not> live (o_view ob s1 (ss_Bucket ss) slot)"
    "wrote ob s1 s2 (ss_Bucket ss) slot (put_entry (session_encode x) r)"
    by (metis sessions_put_ok sl)
  show ?thesis by (rule that [OF p]) (simp_all add: x_def)
qed

text \<open>A renewal replaces the record standing at the moment of its write by the same record with a new time.\<close>

lemma bump_attempt_atomic:
  assumes "bump_attempt env ss slot now s = (Verdict (Inr n), s')" and "le_js env = js"
  shows "\<exists>s1 x rv t r. session_at (o_view ob s1) (ss_Bucket ss) slot = Some (x, rv) \<and> n = rv + 1 \<and>
    (sn_Slot x = slot \<longrightarrow>
       wrote ob s1 s' (ss_Bucket ss) slot (put_entry (session_encode (x\<lparr>sn_LastRenewed := t\<rparr>)) r))"
proof -
  from assms obtain x rv s1 where g: "sessions_Get js ss slot s = (Inr (x, rv), s1)"
    and u: "sessions_update js ss (x\<lparr>sn_LastRenewed := now s1\<rparr>) rv s1 = (Inr (), s')" and n: "n = rv + 1"
    by (auto simp: bump_attempt_def split: sum.splits prod.splits if_splits)
  note at = sessions_Get_ok(2) [OF g]
  show ?thesis
  proof (cases "sn_Slot x = slot")
    case True
    then have sl: "sn_Slot (x\<lparr>sn_LastRenewed := now s1\<rparr>) = slot" by simp
    from u obtain s2 e r where "rely s1 s2" and e: "o_view ob s2 (ss_Bucket ss) slot = Some e" "e_Revision e = rv"
      and w: "wrote ob s2 s' (ss_Bucket ss) slot (put_entry (session_encode (x\<lparr>sn_LastRenewed := now s1\<rparr>)) r)"
      by (metis sessions_update_ok sl)
    from same_session [OF at rely_later [OF this(1)] e] w n show ?thesis by blast
  qed (use at n in blast)
qed

end

end
