(* ===== verification/Reap.thy ===== *)
theory Reap
  imports Lease
begin

text \<open>
  What cleans up after silent slots: the watcher of the hub and the cleanup verb
  (\<^verbatim>\<open>internal/swarm/ttlwatch.go\<close>), and the removal of slot directories without a live process
  (\<^verbatim>\<open>internal/slotgc/slotgc.go\<close>). Of the watcher's lines only what they report is kept. Whether a process
  lives is a parameter.
\<close>

section \<open>The watcher\<close>

definition DefaultWatcherTick :: duration where
  "DefaultWatcherTick = 30 * 1000000000"

definition DefaultWatcherTTL :: duration where
  "DefaultWatcherTTL = 5 * 60 * 1000000000"

record 's WatcherConfig =
  wc_Info :: Info
  wc_Sessions :: "Sessions option"
  wc_TTL :: duration
  wc_Tick :: duration
  wc_Now :: "('s \<Rightarrow> time_ns) option"
  wc_LocalHostOnly :: bool

record 's TTLWatcher =
  tw_Info :: Info
  tw_Sessions :: Sessions
  tw_LocalHostOnly :: bool
  tw_ttl :: duration
  tw_tick :: duration
  tw_now :: "'s \<Rightarrow> time_ns"

definition NewTTLWatcher :: "'s lease_env \<Rightarrow> 's WatcherConfig \<Rightarrow> err + 's TTLWatcher" where
  "NewTTLWatcher env cfg =
     (if in_WorkspaceDir (wc_Info cfg) = [] then Inl (EMsg ''swarm.NewTTLWatcher: WorkspaceDir is empty'')
      else case wc_Sessions cfg of
             None \<Rightarrow> Inl (EMsg ''swarm.NewTTLWatcher: Sessions is nil'')
           | Some ss \<Rightarrow>
               Inr \<lparr>tw_Info = wc_Info cfg, tw_Sessions = ss, tw_LocalHostOnly = wc_LocalHostOnly cfg,
                    tw_ttl = (if wc_TTL cfg \<le> 0 then DefaultWatcherTTL else wc_TTL cfg),
                    tw_tick = (if wc_Tick cfg \<le> 0 then DefaultWatcherTick else wc_Tick cfg),
                    tw_now = (case wc_Now cfg of None \<Rightarrow> le_clock env | Some f \<Rightarrow> f)\<rparr>)"

datatype watch_line =
    LReaped string duration
  | LList err
  | LCrossHost string string
  | LDropFailed string err
  | LRemoveFailed string err

definition reapOne :: "'s lease_env \<Rightarrow> 's TTLWatcher \<Rightarrow> Session \<Rightarrow> duration \<Rightarrow> 's world \<Rightarrow> watch_line list \<times> 's world" where
  "reapOne env tw x age w =
     (let report = (\<lambda>w1.
            let w2 = remove_wt env (sn_Slot x) w1;
                w3 = appendEvent env (tw_Info tw)
                       ((slot_event EventSlotReap (tw_now tw (w_kv w2)) (sn_Slot x) (sn_TaskID x) (sn_AgentID x))
                         \<lparr>sv_Host := sn_Host x, sv_Result := ''ttl-reaped''\<rparr>) w2
            in ((case le_removeAll env (sn_Slot x) of None \<Rightarrow> [] | Some e \<Rightarrow> [LRemoveFailed (sn_Slot x) e]) @
                [LReaped (sn_Slot x) (age - tw_ttl tw)], w3))
      in case on_kv (deleteByKey (le_js env) (tw_Sessions tw) (sn_Slot x)) w of
           (Inl e, w1) \<Rightarrow> if e \<noteq> ESwarm SErrNotFound then ([LDropFailed (sn_Slot x) e], w1) else report w1
         | (Inr _, w1) \<Rightarrow> report w1)"

text \<open>\<open>now\<close> is read once for the whole pass.\<close>

fun reap_all ::
  "'s lease_env \<Rightarrow> 's TTLWatcher \<Rightarrow> time_ns \<Rightarrow> string \<Rightarrow> Session list \<Rightarrow> 's world \<Rightarrow> watch_line list \<times> 's world" where
  "reap_all env tw now localHost [] w = ([], w)"
| "reap_all env tw now localHost (x # xs) w =
     (let age = now - sn_LastRenewed x in
      if age \<le> tw_ttl tw then reap_all env tw now localHost xs w
      else if tw_LocalHostOnly tw \<and> sn_Host x \<noteq> localHost \<and> localHost \<noteq> []
      then (case reap_all env tw now localHost xs w of
              (ls, w') \<Rightarrow> (LCrossHost (sn_Slot x) (sn_Host x) # ls, w'))
      else case reapOne env tw x age w of
             (l1, w1) \<Rightarrow> (case reap_all env tw now localHost xs w1 of (ls, w') \<Rightarrow> (l1 @ ls, w')))"

definition tickOnce :: "'s lease_env \<Rightarrow> 's TTLWatcher \<Rightarrow> 's world \<Rightarrow> watch_line list \<times> 's world" where
  "tickOnce env tw w =
     (case on_kv (sessions_List (le_js env) (tw_Sessions tw)) w of
        (Inl e, w1) \<Rightarrow> ([LList e], w1)
      | (Inr xs, w1) \<Rightarrow>
          reap_all env tw (tw_now tw (w_kv w1)) (if tw_LocalHostOnly tw then le_hostname env else []) xs w1)"

text \<open>\<^verbatim>\<open>Run\<close> up to its \<open>n\<close>-th tick, with what the host answers at each.\<close>

fun watcher_Run :: "(nat \<Rightarrow> 's lease_env) \<Rightarrow> 's TTLWatcher \<Rightarrow> nat \<Rightarrow> 's world \<Rightarrow> watch_line list \<times> 's world" where
  "watcher_Run env tw 0 w = ([], w)"
| "watcher_Run env tw (Suc n) w =
     (case watcher_Run env tw n w of
        (ls, w1) \<Rightarrow> (case tickOnce (env n) tw w1 of (ls', w2) \<Rightarrow> (ls @ ls', w2)))"

definition SlotCleanup ::
  "'s lease_env \<Rightarrow> Sessions option \<Rightarrow> Info \<Rightarrow> string \<Rightarrow> 's world \<Rightarrow> bool \<times> err option \<times> 's world" where
  "SlotCleanup env sessions info slot w =
     (if in_WorkspaceDir info = [] then (False, Some (EMsg ''swarm.SlotCleanup: workspaceDir is empty''), w)
      else if slot = [] then (False, Some (EMsg ''swarm.SlotCleanup: slot is empty''), w)
      else case (case sessions of None \<Rightarrow> (Inr (), w) | Some ss \<Rightarrow> on_kv (deleteByKey (le_js env) ss slot) w) of
             (Inl e, w1) \<Rightarrow>
               if e = ESwarm SErrNotFound then (False, le_removeAll env slot, remove_wt env slot w1) else (False, Some e, w1)
           | (Inr _, w1) \<Rightarrow> (True, le_removeAll env slot, remove_wt env slot w1))"

section \<open>Dead slots\<close>

text \<open>\<^verbatim>\<open>strconv.Atoi\<close>: an optional sign and decimal digits, within 64 bits.\<close>

definition digits_value :: "string \<Rightarrow> int" where
  "digits_value ds = foldl (\<lambda>n c. 10 * n + (of_char c - 48)) 0 ds"

definition Atoi :: "string \<Rightarrow> int option" where
  "Atoi x =
     (let neg = has_prefix x ''-'';
          ds = (case x of c # r \<Rightarrow> if c = CHR ''-'' \<or> c = CHR ''+'' then r else x | [] \<Rightarrow> []);
          n = (if neg then - digits_value ds else digits_value ds)
      in if ds = [] \<or> \<not> list_all is_digit ds then None
         else if - (2 ^ 63) \<le> n \<and> n < 2 ^ 63 then Some n else None)"

definition readPidFile :: "string option \<Rightarrow> int \<times> bool" where
  "readPidFile content =
     (case content of
        None \<Rightarrow> (0, False)
      | Some data \<Rightarrow> (case Atoi (TrimSpace data) of None \<Rightarrow> (0, False) | Some pid \<Rightarrow> (pid, pid > 0)))"

definition pidAlive :: "(int \<Rightarrow> bool) \<Rightarrow> int \<Rightarrow> bool" where
  "pidAlive alive pid = (if pid \<le> 0 then False else alive pid)"

text \<open>
  \<^verbatim>\<open>os.ReadDir\<close> lists the entries by name; \<open>rd\<close> is its outcome when it fails for another reason than a
  missing directory.
\<close>

fun dead_slots :: "(int \<Rightarrow> bool) \<Rightarrow> (string \<times> slot_dir) list \<Rightarrow> string list" where
  "dead_slots alive [] = []"
| "dead_slots alive ((slot, d) # es) =
     (case readPidFile (sd_pid d) of
        (pid, ok) \<Rightarrow>
          if \<not> ok then dead_slots alive es
          else if pidAlive alive pid then dead_slots alive es
          else slot # dead_slots alive es)"

definition DeadSlots :: "err option \<Rightarrow> (int \<Rightarrow> bool) \<Rightarrow> disk \<Rightarrow> err + string list" where
  "DeadSlots rd alive d =
     (case rd of Some e \<Rightarrow> Inl e | None \<Rightarrow> Inr (dead_slots alive (sort_key fst (dk_slots d))))"

fun live_slots :: "(int \<Rightarrow> bool) \<Rightarrow> (string \<times> slot_dir) list \<Rightarrow> (string \<times> int) list" where
  "live_slots alive [] = []"
| "live_slots alive ((slot, d) # es) =
     (case readPidFile (sd_pid d) of
        (pid, ok) \<Rightarrow>
          if \<not> ok then live_slots alive es
          else if \<not> pidAlive alive pid then live_slots alive es
          else (slot, pid) # live_slots alive es)"

definition LiveSlots :: "err option \<Rightarrow> (int \<Rightarrow> bool) \<Rightarrow> disk \<Rightarrow> err + (string \<times> int) list" where
  "LiveSlots rd alive d =
     (case rd of Some e \<Rightarrow> Inl e | None \<Rightarrow> Inr (live_slots alive (sort_key fst (dk_slots d))))"

text \<open>\<open>rm\<close> is the outcome of removing the directory of a slot.\<close>

fun prune_slots :: "(string \<Rightarrow> err option) \<Rightarrow> string list \<Rightarrow> string list \<Rightarrow> err option \<Rightarrow> disk \<Rightarrow> (string list \<times> err option) \<times> disk" where
  "prune_slots rm [] pruned firstErr d = ((pruned, firstErr), d)"
| "prune_slots rm (slot # slots) pruned firstErr d =
     (case rm slot of
        Some e \<Rightarrow> prune_slots rm slots pruned (case firstErr of None \<Rightarrow> Some e | Some e0 \<Rightarrow> Some e0) d
      | None \<Rightarrow> prune_slots rm slots (pruned @ [slot]) firstErr (d\<lparr>dk_slots := AList.delete slot (dk_slots d)\<rparr>))"

definition PruneDead ::
  "err option \<Rightarrow> (string \<Rightarrow> err option) \<Rightarrow> (int \<Rightarrow> bool) \<Rightarrow> disk \<Rightarrow> (string list \<times> err option) \<times> disk" where
  "PruneDead rd rm alive d =
     (case DeadSlots rd alive d of
        Inl e \<Rightarrow> (([], Some e), d)
      | Inr dead \<Rightarrow> prune_slots rm dead [] None d)"

section \<open>What the watcher removes\<close>

definition reapable :: "'s lease_env \<Rightarrow> 's TTLWatcher \<Rightarrow> time_ns \<Rightarrow> Session \<Rightarrow> bool" where
  "reapable env tw now x =
     (now - sn_LastRenewed x > tw_ttl tw \<and>
      (tw_LocalHostOnly tw \<longrightarrow> sn_Host x = le_hostname env \<or> le_hostname env = []))"

text \<open>Between two states of a pass: the records of the slots \<open>ks\<close> and their worktrees are gone, nothing else changed.\<close>

definition reaped :: "'s lease_env \<Rightarrow> Sessions \<Rightarrow> string set \<Rightarrow> mem world \<Rightarrow> mem world \<Rightarrow> bool" where
  "reaped env ss ks w w' =
     (quiet (w_kv w') = quiet (w_kv w) \<and> (sessions_wf ss (w_kv w) \<longrightarrow> sessions_wf ss (w_kv w')) \<and>
      mem_stream (w_kv w') = mem_stream (w_kv w) \<and> mem_now (w_kv w') = mem_now (w_kv w) \<and>
      (\<forall>k. session_of ss (w_kv w') k = (if k \<in> ks then None else session_of ss (w_kv w) k)) \<and>
      (\<forall>b k. b \<noteq> ss_Bucket ss \<longrightarrow> mem_view (w_kv w') b k = mem_view (w_kv w) b k) \<and>
      (\<forall>k. slot_dir_at (w_disk w') k =
         (if k \<in> ks \<and> le_removeAll env k = None then (slot_dir_at (w_disk w) k)\<lparr>sd_wt := None\<rparr> else slot_dir_at (w_disk w) k)))"

lemma reaped_refl: "reaped env ss {} w w"
  by (simp add: reaped_def)

lemma reaped_trans: "reaped env ss ks w w1 \<Longrightarrow> reaped env ss ks' w1 w2 \<Longrightarrow> reaped env ss (ks \<union> ks') w w2"
  by (auto simp: reaped_def)

lemma reapOne_reaps:
  assumes "le_js env = mem_sys G" and "quiet (w_kv w)" and "sessions_wf ss (w_kv w)" and "\<not> ss_closed ss"
    and "session_of ss (w_kv w) (sn_Slot x) \<noteq> None" and "tw_Sessions tw = ss" and "reapOne env tw x age w = (ls, w')"
  shows "reaped env ss {sn_Slot x} w w'"
proof -
  have sl: "sn_Slot x \<noteq> []" using assms(5) session_of_slot [OF assms(3)] by fastforce
  then have d: "deleteByKey (mem_sys G) ss (sn_Slot x) (w_kv w) = (Inr (), mem_del_session ss (w_kv w) (sn_Slot x))"
    using mem_deleteByKey [OF assms(2-4), of "sn_Slot x" G] assms(5) by auto
  show ?thesis
    using assms(1,3,6,7) d by (auto simp: reapOne_def on_kv_def Let_def reaped_def)
qed

lemma reap_all_reaps:
  assumes "le_js env = mem_sys G" and "quiet (w_kv w)" and "sessions_wf ss (w_kv w)" and "\<not> ss_closed ss"
    and "tw_Sessions tw = ss" and "distinct (map sn_Slot xs)" and "\<forall>x \<in> set xs. session_of ss (w_kv w) (sn_Slot x) \<noteq> None"
    and "reap_all env tw now (if tw_LocalHostOnly tw then le_hostname env else []) xs w = (ls, w')"
  shows "reaped env ss (sn_Slot ` {x \<in> set xs. reapable env tw now x}) w w'"
  using assms(2,3,6-8)
proof (induction xs arbitrary: w ls)
  case (Cons x xs)
  let ?h = "if tw_LocalHostOnly tw then le_hostname env else []"
  show ?case
  proof (cases "reapable env tw now x")
    case True
    then have "\<not> now - sn_LastRenewed x \<le> tw_ttl tw" "\<not> (tw_LocalHostOnly tw \<and> sn_Host x \<noteq> ?h \<and> ?h \<noteq> [])"
      by (auto simp: reapable_def)
    with Cons.prems(5) obtain l1 w1 l2 where r: "reapOne env tw x (now - sn_LastRenewed x) w = (l1, w1)"
      and rs: "reap_all env tw now ?h xs w1 = (l2, w')"
      by (auto simp: Let_def split: prod.splits)
    have r1: "reaped env ss {sn_Slot x} w w1"
      using Cons.prems(4) by (intro reapOne_reaps [OF assms(1) Cons.prems(1,2) assms(4) _ assms(5) r]) simp
    then have "quiet (w_kv w1)" "sessions_wf ss (w_kv w1)"
      using Cons.prems(1,2) by (auto simp: reaped_def)
    moreover have "sn_Slot y \<noteq> sn_Slot x" if "y \<in> set xs" for y
      using imageI [OF that, of sn_Slot] Cons.prems(3) by auto
    then have "\<forall>y \<in> set xs. session_of ss (w_kv w1) (sn_Slot y) \<noteq> None"
      using r1 Cons.prems(4) by (simp add: reaped_def)
    ultimately have "reaped env ss (sn_Slot ` {x \<in> set xs. reapable env tw now x}) w1 w'"
      using Cons.IH [of w1 l2] Cons.prems(3) rs by simp
    moreover have "sn_Slot ` {y \<in> set (x # xs). reapable env tw now y} =
        {sn_Slot x} \<union> sn_Slot ` {y \<in> set xs. reapable env tw now y}" using True by auto
    ultimately show ?thesis using reaped_trans [OF r1] by simp
  next
    case False
    then obtain l2 where "reap_all env tw now ?h xs w = (l2, w')"
      using Cons.prems(5) by (auto simp: reapable_def Let_def split: if_splits prod.splits)
    with Cons.IH [of w l2] Cons.prems have "reaped env ss (sn_Slot ` {x \<in> set xs. reapable env tw now x}) w w'" by simp
    moreover have "{y \<in> set (x # xs). reapable env tw now y} = {y \<in> set xs. reapable env tw now y}" using False by auto
    ultimately show ?thesis by simp
  qed
qed (simp add: reaped_refl)

lemma mem_tickOnce:
  assumes "le_js env = mem_sys G" and "quiet (w_kv w)" and "sessions_wf ss (w_kv w)" and "\<not> ss_closed ss"
    and "tw_Sessions tw = ss" and "card {k. session_of ss (w_kv w) k \<noteq> None} \<le> maxSessionEntries"
    and "tickOnce env tw w = (ls, w')"
  shows "reaped env ss {k. \<exists>x rv. session_of ss (w_kv w) k = Some (x, rv) \<and> reapable env tw (tw_now tw (w_kv w)) x} w w'"
proof -
  obtain xs where l: "sessions_List (mem_sys G) ss (w_kv w) = (Inr xs, w_kv w)" and d: "distinct (map sn_Slot xs)"
    and xs: "set xs = {x. \<exists>rv. session_of ss (w_kv w) (sn_Slot x) = Some (x, rv)}"
    using mem_sessions_List [OF assms(2-4,6), of G] by blast
  have "reap_all env tw (tw_now tw (w_kv w)) (if tw_LocalHostOnly tw then le_hostname env else []) xs w = (ls, w')"
    using assms(1,5,7) l by (simp add: tickOnce_def on_kv_def)
  from reap_all_reaps [OF assms(1-5) d _ this] xs
  have "reaped env ss (sn_Slot ` {x \<in> set xs. reapable env tw (tw_now tw (w_kv w)) x}) w w'" by auto
  moreover have "sn_Slot ` {x \<in> set xs. reapable env tw (tw_now tw (w_kv w)) x} =
      {k. \<exists>x rv. session_of ss (w_kv w) k = Some (x, rv) \<and> reapable env tw (tw_now tw (w_kv w)) x}"
  proof (intro set_eqI iffI)
    fix k assume "k \<in> {k. \<exists>x rv. session_of ss (w_kv w) k = Some (x, rv) \<and> reapable env tw (tw_now tw (w_kv w)) x}"
    then obtain x rv where x: "session_of ss (w_kv w) k = Some (x, rv)" "reapable env tw (tw_now tw (w_kv w)) x" by blast
    then have "sn_Slot x = k" using session_of_slot [OF assms(3)] by blast
    with x xs show "k \<in> sn_Slot ` {x \<in> set xs. reapable env tw (tw_now tw (w_kv w)) x}" by blast
  qed (use xs in blast)
  ultimately show ?thesis by simp
qed

section \<open>Process files\<close>

lemma strip_any_digit:
  assumes "\<forall>p \<in> set ps. p \<noteq> [] \<and> \<not> is_digit (hd p)" and "x \<noteq> []" and "is_digit (hd x)"
  shows "strip_any ps x = None"
proof (cases "strip_any ps x")
  case (Some r)
  then obtain p where "p \<in> set ps" "x = p @ r" using strip_any_Some by blast
  with assms show ?thesis by (auto simp: hd_append)
qed

lemma trim_left_digit:
  assumes "\<forall>p \<in> set ps. p \<noteq> [] \<and> \<not> is_digit (hd p)" and "x \<noteq> []" and "is_digit (hd x)"
  shows "trim_left ps n x = x"
  using strip_any_digit [OF assms] by (cases n) simp_all

lemma space_runes_no_digit:
  "\<forall>p \<in> set space_runes. p \<noteq> [] \<and> \<not> is_digit (hd p)" "\<forall>p \<in> set (map rev space_runes). p \<noteq> [] \<and> \<not> is_digit (hd p)"
  by code_simp+

lemma runes_nl: "strip_any (map rev space_runes) (nl @ y) = Some y"
proof -
  have runes: "map rev space_runes = [CHR 0x09] # [CHR 0x0A] # map rev (drop 2 space_runes)" by code_simp
  have n: "nl = [CHR 0x0A]" by code_simp
  have a: "strip_prefix [CHR 0x09] ([CHR 0x0A] @ y) = None" by simp
  have b: "strip_prefix [CHR 0x0A] ([CHR 0x0A] @ y) = Some y" by simp
  show ?thesis by (simp only: runes n strip_any.simps a b option.case)
qed

lemma TrimSpace_line:
  assumes "x \<noteq> []" and "\<forall>c \<in> set x. is_digit c"
  shows "TrimSpace (x @ nl) = x"
proof -
  have h: "is_digit (hd (x @ nl))" "is_digit (hd (rev x))" "rev x \<noteq> []" "x @ nl \<noteq> []"
    using assms by (simp_all add: hd_rev)
  have l: "trim_left space_runes (length (x @ nl)) (x @ nl) = x @ nl"
    by (rule trim_left_digit [OF space_runes_no_digit(1) h(4,1)])
  have s: "strip_any (map rev space_runes) (nl @ rev x) = Some (rev x)"
    by (simp only: runes_nl)
  have n: "length (x @ nl) = Suc (length x)" "rev (x @ nl) = nl @ rev x" by (simp_all add: nl_def)
  have r: "trim_left (map rev space_runes) (length (x @ nl)) (rev (x @ nl)) = rev x"
    unfolding n by (simp only: trim_left.simps s option.case) (rule trim_left_digit [OF space_runes_no_digit(2) h(3,2)])
  show ?thesis by (simp only: TrimSpace_def Let_def l r rev_rev_ident)
qed

lemma digit_value: "d < 10 \<Longrightarrow> (of_char (digit_char d) :: int) - 48 = int d"
  using of_nat_of_char [of "digit_char d", where 'a = int] by simp

lemma digits_value_itoa: "digits_value (itoa n) = int n"
proof (induction n rule: itoa.induct)
  case (1 n)
  have "10 * int (n div 10) + int (n mod 10) = int n" by presburger
  with 1 show ?case
    by (subst itoa.simps) (simp add: digits_value_def digit_value del: of_char_digit)
qed

lemma Atoi_itoa: "n < 2 ^ 63 \<Longrightarrow> Atoi (itoa n) = Some (int n)"
proof -
  assume n: "n < 2 ^ 63"
  have d: "list_all is_digit (itoa n)" using itoa_digits by (auto simp: list_all_iff)
  obtain c r where cr: "itoa n = c # r" by (meson itoa_nonempty neq_Nil_conv)
  then have "is_digit c" using itoa_digits [of c n] by simp
  then have "c \<noteq> CHR ''-''" "c \<noteq> CHR ''+''" by (auto simp: is_digit_def)
  moreover have "int n < 2 ^ 63" using n by (metis of_nat_less_numeral_power_cancel_iff)
  ultimately show ?thesis
    using d cr digits_value_itoa [of n] by (simp add: Atoi_def has_prefix_def)
qed

text \<open>What a join writes into the process file, the collector reads back.\<close>

lemma readPidFile_written:
  assumes "0 < pid" and "pid < 2 ^ 63"
  shows "readPidFile (Some (itoa pid @ nl)) = (int pid, True)"
proof -
  have "TrimSpace (itoa pid @ nl) = itoa pid"
    by (rule TrimSpace_line) (auto intro: itoa_digits)
  then show ?thesis using assms Atoi_itoa by (simp add: readPidFile_def)
qed

section \<open>Dead and live slots\<close>

definition slot_dead :: "(int \<Rightarrow> bool) \<Rightarrow> slot_dir \<Rightarrow> bool" where
  "slot_dead alive d = (snd (readPidFile (sd_pid d)) \<and> \<not> alive (fst (readPidFile (sd_pid d))))"

definition slot_alive :: "(int \<Rightarrow> bool) \<Rightarrow> slot_dir \<Rightarrow> bool" where
  "slot_alive alive d = (snd (readPidFile (sd_pid d)) \<and> alive (fst (readPidFile (sd_pid d))))"

lemma pidAlive_read: "snd (readPidFile x) \<Longrightarrow> pidAlive alive (fst (readPidFile x)) = alive (fst (readPidFile x))"
  by (auto simp: readPidFile_def pidAlive_def split: option.splits)

lemma dead_slots_filter: "dead_slots alive es = map fst (filter (\<lambda>(_, d). slot_dead alive d) es)"
  by (induction es) (auto simp: slot_dead_def pidAlive_read case_prod_beta)

lemma live_slots_filter:
  "live_slots alive es = map (\<lambda>(slot, d). (slot, fst (readPidFile (sd_pid d)))) (filter (\<lambda>(_, d). slot_alive alive d) es)"
  by (induction es) (auto simp: slot_alive_def pidAlive_read case_prod_beta)

lemma prune_slots_ok:
  assumes "\<forall>k \<in> set slots. rm k = None"
  shows "\<exists>d'. prune_slots rm slots pruned e d = ((pruned @ slots, e), d') \<and>
    (\<forall>k. map_of (dk_slots d') k = (if k \<in> set slots then None else map_of (dk_slots d) k))"
  using assms
proof (induction slots arbitrary: pruned d)
  case (Cons k ks)
  obtain d' where "prune_slots rm ks (pruned @ [k]) e (d\<lparr>dk_slots := AList.delete k (dk_slots d)\<rparr>) = ((pruned @ k # ks, e), d')"
    "\<forall>j. map_of (dk_slots d') j = (if j \<in> set ks then None else map_of (AList.delete k (dk_slots d)) j)"
    using Cons.IH [of "pruned @ [k]" "d\<lparr>dk_slots := AList.delete k (dk_slots d)\<rparr>"] Cons.prems by auto
  then show ?case using Cons.prems by (intro exI [of _ d']) (simp add: delete_conv)
qed simp

lemma dead_slots_sorted: "sorted (dead_slots alive (sort_key fst es))"
  by (simp add: dead_slots_filter sorted_filter)

lemma set_dead_slots:
  assumes "distinct (map fst es)"
  shows "set (dead_slots alive (sort_key fst es)) = {slot. \<exists>d. map_of es slot = Some d \<and> slot_dead alive d}"
    and "set (live_slots alive (sort_key fst es)) =
      {(slot, pid). \<exists>d. map_of es slot = Some d \<and> slot_alive alive d \<and> pid = fst (readPidFile (sd_pid d))}"
  using assms by (force simp: dead_slots_filter map_of_eq_Some_iff, force simp: live_slots_filter map_of_eq_Some_iff)

end
