(* ===== verification/Task_Guarantees.thy ===== *)
theory Task_Guarantees
  imports Task_Crash
begin

text \<open>
  What the task store promises its clients: updates are atomic under interference, a transaction puts
  its event on the log before it touches the record, and recovery closes the gap between the two. The
  sample state at the start is where the theorems are applied.
\<close>

section \<open>A sample state\<close>

definition sample_manager :: Manager where
  "sample_manager =
     \<lparr>m_cfg = \<lparr>cfg_BucketName = DefaultBucketName, cfg_HistoryDepth = 8, cfg_MaxValueSize = 2147483647,
              cfg_ChanBuffer = 0, cfg_EnableEventLog = True, cfg_RecoverOnOpen = True\<rparr>,
      m_stream = True, m_buf = 32, m_done = False\<rparr>"

abbreviation sample_id :: string where
  "sample_id \<equiv> ''bones-aaaaaaaa''"

abbreviation any_write :: guarantee where
  "any_write \<equiv> \<lambda>_ _ _. True"

definition sample_task :: Task where
  "sample_task = zero_Task\<lparr>t_ID := sample_id, t_Title := ''demo'', t_Status := StatusOpen, t_Files := [''/w/f''],
     t_SchemaVersion := SchemaVersion, t_LastEventSeq := 1\<rparr>"

definition sample_created :: CreatedPayload where
  "sample_created = \<lparr>cp_Title = ''demo'', cp_Slot = [], cp_Files = [''/w/f''], cp_Snapshot = None\<rparr>"

definition sample_mem :: mem where
  "sample_mem = mem_write (mem_published (mem_empty 7000000000 []) EventTypeCreated sample_id (PCreated sample_created))
     DefaultBucketName sample_id KeyValuePut (encode sample_task)"

lemma sample_manager_simps [simp]:
  "m_bucket sample_manager = DefaultBucketName" "m_stream sample_manager" "\<not> m_done sample_manager"
  by (simp_all add: sample_manager_def)

lemma sample_id_simps [simp]: "sample_id \<noteq> []" "sample_id \<noteq> migrationMarkerKey"
  by (simp_all add: migrationMarkerKey_def)

lemma sample_bounded: "encodeBounded (mem_sys G) sample_manager u = Inr (encode u)"
proof -
  have "go_int32 x \<le> 2147483647" for x using sint_lt [of "word_of_int x :: 32 word"] by (simp add: go_int32_def)
  then show ?thesis by (simp add: encodeBounded_ok sample_manager_def)
qed

lemma sample_task_simps [simp]:
  "t_ID sample_task = sample_id" "t_Status sample_task = StatusOpen" "t_ClaimedBy sample_task = []"
  "t_SchemaVersion sample_task = SchemaVersion" "t_LastEventSeq sample_task = 1" "t_Files sample_task = [''/w/f'']"
  "t_ClaimEpoch sample_task = 0" "wf_Task sample_task" "valid_Task sample_task"
  by (simp_all add: sample_task_def zero_Task_def wf_Task_def valid_Task_def validStatus_def)

lemma sample_settled: "settled sample_manager sample_mem"
  using settled_commit [OF settled_empty, of sample_id sample_task 7000000000 sample_manager EventTypeCreated "PCreated sample_created"]
  by (simp add: sample_mem_def mem_empty_def)

lemma sample_record: "record_at (mem_view sample_mem) DefaultBucketName sample_id = Some sample_task"
  by (simp add: sample_mem_def record_at_write)

lemma sample_mem_simps [simp]: "mem_now sample_mem = 7000000000" "length (mem_stream sample_mem) = 1"
  by (simp_all add: sample_mem_def mem_write_def mem_published_def mem_empty_def)

section \<open>Updates\<close>

text \<open>C6: An update is atomic under interference: when it succeeds, the record it stores is what the mutator
  makes of the record that stood there at the moment of the write, not of one read earlier; it passed the
  checks, and nothing else changed in that step.\<close>

theorem update_linearizable:
  assumes "jetstream js ob rely" and "tasks_update js m i mutate s = (Inr nxt, s')"
  shows "\<exists>s1 cur now r. record_at (o_view ob s1) (m_bucket m) i = Some cur \<and> mutate now cur = Inr nxt \<and>
    valid_Task nxt \<and> lifecycle cur nxt \<and> wrote ob s1 s' (m_bucket m) i (put_entry (encode nxt) r)"
  using jetstream.update_atomic [OF assms] by metis

lemma sample_update:
  "tasks_update (mem_sys any_write) sample_manager sample_id (\<lambda>now t. Inr (t\<lparr>t_Title := ''new''\<rparr>)) sample_mem =
   (Inr (sample_task\<lparr>t_Title := ''new''\<rparr>),
    mem_write sample_mem DefaultBucketName sample_id KeyValuePut (encode (sample_task\<lparr>t_Title := ''new''\<rparr>)))"
proof -
  obtain e where e: "quiet sample_mem" "mem_view sample_mem (m_bucket sample_manager) sample_id = Some e"
    "e_Operation e = KeyValuePut" "decode (e_Value e) = Some sample_task" "t_SchemaVersion sample_task \<ge> SchemaVersion"
    using settled_record [OF sample_settled, of sample_id sample_task] sample_record by auto
  have "valid_Task (sample_task\<lparr>t_Title := ''new''\<rparr>)" "lifecycle sample_task (sample_task\<lparr>t_Title := ''new''\<rparr>)"
    by (simp_all add: valid_Task_def validStatus_def lifecycle.edit)
  then show ?thesis
    using mem_tasks_update_quiet [OF e, of "\<lambda>now t. Inr (t\<lparr>t_Title := ''new''\<rparr>)" "sample_task\<lparr>t_Title := ''new''\<rparr>" any_write]
    by (simp add: sample_bounded)
qed

theorem update_linearizable_witness:
  "\<exists>s' s1 cur now r. record_at (mem_view s1) DefaultBucketName sample_id = Some cur \<and>
    cur\<lparr>t_Title := ''new''\<rparr> = sample_task\<lparr>t_Title := ''new''\<rparr> \<and>
    wrote mem_obs s1 s' DefaultBucketName sample_id (put_entry (encode (sample_task\<lparr>t_Title := ''new''\<rparr>)) r)"
  using update_linearizable [OF mem.jetstream_axioms sample_update] by simp blast


lemma sample_tx:
  "\<exists>t tx' s'. tx_apply (mem_sys any_write) sample_manager sample_id EventTypeUnclaimed p (stamped unclaim_default) tx sample_mem =
    (Inr t, tx', s')"
proof -
  let ?u = "sample_task\<lparr>t_Status := StatusOpen, t_ClaimedBy := [], t_UpdatedAt := 7000000000, t_LastEventSeq := 2\<rparr>"
  have "tx_apply (mem_sys any_write) sample_manager sample_id EventTypeUnclaimed p (stamped unclaim_default) tx sample_mem =
      (Inr ?u, tx, mem_write (mem_published sample_mem EventTypeUnclaimed sample_id p) (m_bucket sample_manager)
         sample_id KeyValuePut (encode ?u))"
    by (rule tx_apply_settled(1) [OF sample_settled, where t = sample_task])
      (simp_all add: sample_record sample_bounded stamped_def unclaim_default_def valid_Task_def validStatus_def
        lifecycle.edit wf_Task_def sample_task_def zero_Task_def)
  then show ?thesis by blast
qed


section \<open>Recovery\<close>

text \<open>A log and bucket in step stay as they are: recovery replays nothing, reports no error and does not
  change the state; the empty substrate is in step, and so is every state after a committed transaction.\<close>

theorem Recover_settled:
  assumes "settled m s" and "\<not> m_done m" and "m_stream m"
  shows "Recover (mem_sys G) m s = ((0, None), s)"
  by (rule Recover_in_step) (use assms settledD in auto)

theorem Recover_settled_witness: "Recover (mem_sys any_write) sample_manager sample_mem = ((0, None), sample_mem)"
  using Recover_settled [OF sample_settled] by simp

text \<open>C5: A crash between the publication of an event and the write of its record loses nothing: on the next
  start recovery replays exactly that event, the record becomes what the event describes, and log and bucket
  are in step again. This holds for every event except \<^verbatim>\<open>created\<close> whose replay the checks admit.\<close>

theorem Recover_after_crash:
  assumes "settled m s" and "record_at (mem_view s) (m_bucket m) i = Some t"
    and "i \<noteq> []" and "i \<noteq> migrationMarkerKey" and "\<not> m_done m" and "m_stream m"
    and "event_type_of p \<noteq> EventTypeCreated" and "wf_payload p"
    and "replay_mutator (replay_env s (event_type_of p) i p) p (mem_now s) t = Inr u"
    and "valid_Task u" and "lifecycle t u" and "encodeBounded (mem_sys G) m u = Inr (encode u)"
  shows "\<exists>s'. Recover (mem_sys G) m (mem_published s (event_type_of p) i p) = ((1, None), s') \<and>
    settled m s' \<and> record_at (mem_view s') (m_bucket m) i = Some u"
  using assms by (rule Recover_crash)

definition sample_claim :: ClaimedPayload where
  "sample_claim = \<lparr>clp_AgentID = ''bones-a1'', clp_Slot = [], clp_ClaimEpoch = 1, clp_PrevAgent = []\<rparr>"

theorem Recover_after_crash_witness:
  "\<exists>s'. Recover (mem_sys any_write) sample_manager (mem_published sample_mem EventTypeClaimed sample_id (PClaimed sample_claim)) =
     ((1, None), s') \<and> settled sample_manager s' \<and>
   record_at (mem_view s') DefaultBucketName sample_id =
     Some (sample_task\<lparr>t_Status := StatusClaimed, t_ClaimedBy := ''bones-a1'', t_ClaimEpoch := 1,
             t_UpdatedAt := 7000000000, t_LastEventSeq := 2\<rparr>)"
proof -
  let ?u = "sample_task\<lparr>t_Status := StatusClaimed, t_ClaimedBy := ''bones-a1'', t_ClaimEpoch := 1,
    t_UpdatedAt := 7000000000, t_LastEventSeq := 2\<rparr>"
  have "replay_mutator (replay_env sample_mem (event_type_of (PClaimed sample_claim)) sample_id (PClaimed sample_claim))
      (PClaimed sample_claim) (mem_now sample_mem) sample_task = Inr ?u"
    by (simp add: replay_mutator_def claimed_replay_def sample_claim_def logged_def)
  moreover have "valid_Task ?u" "lifecycle sample_task ?u"
    by (simp_all add: valid_Task_def validStatus_def lifecycle.claim)
  ultimately show ?thesis
    using Recover_after_crash [OF sample_settled, of sample_id sample_task "PClaimed sample_claim" ?u any_write]
    by (simp add: sample_record sample_bounded wf_payload_def)
qed

text \<open>A crash while a task is being created loses nothing of what the event carries: recovery writes the
  record with the event's title and files. Context, parent, edges and the deferral are not in the event and are
  empty in the record.\<close>

theorem Recover_lost_create:
  assumes "settled m s" and "record_at (mem_view s) (m_bucket m) i = None"
    and "i \<noteq> []" and "i \<noteq> migrationMarkerKey" and "\<not> m_done m" and "m_stream m" and "cp_Snapshot c = None"
    and "\<forall>u. encodeBounded (mem_sys G) m u = Inr (encode u)"
  shows "\<exists>s' u. Recover (mem_sys G) m (mem_published s EventTypeCreated i (PCreated c)) = ((1, None), s') \<and>
    settled m s' \<and> record_at (mem_view s') (m_bucket m) i = Some u \<and> t_ID u = i \<and> t_Title u = cp_Title c \<and>
    t_Files u = cp_Files c \<and> t_Status u = StatusOpen \<and> t_Context u = [] \<and> t_Parent u = [] \<and> t_Edges u = [] \<and>
    t_DeferUntil u = None"
proof -
  define u where "u = created_record (replay_env s EventTypeCreated i (PCreated c)) c"
  have "\<exists>s'. Recover (mem_sys G) m (mem_published s EventTypeCreated i (PCreated c)) = ((1, None), s') \<and>
      settled m s' \<and> record_at (mem_view s') (m_bucket m) i = Some u"
    by (rule Recover_create [where u = u]) (use assms u_def in auto)
  moreover have "t_ID u = i" "t_Title u = cp_Title c" "t_Files u = cp_Files c" "t_Status u = StatusOpen"
    "t_Context u = []" "t_Parent u = []" "t_Edges u = []" "t_DeferUntil u = None"
    by (simp_all add: u_def created_record_def zero_Task_def)
  ultimately show ?thesis by blast
qed

theorem Recover_lost_create_witness:
  "\<exists>s' u. Recover (mem_sys any_write) sample_manager
      (mem_published (mem_empty 0 []) EventTypeCreated sample_id (PCreated sample_created)) = ((1, None), s') \<and>
    record_at (mem_view s') DefaultBucketName sample_id = Some u \<and> t_Title u = ''demo''"
proof -
  have "record_at (mem_view (mem_empty 0 [])) (m_bucket sample_manager) sample_id = None"
    by (simp add: record_at_def mem_view_def mem_empty_def)
  from Recover_lost_create [OF settled_empty this, of sample_created any_write] show ?thesis
    by (auto simp: sample_bounded sample_created_def)
qed

end
