(* ===== verification/Leaf_Guarantees.thy ===== *)
theory Leaf_Guarantees
  imports Leaf Coord_Guarantees
begin

text \<open>
  What a leaf promises and where it falls short: the gates in front of a commit under interference,
  what a compaction changes, the log a close leaves behind, and the scope in which a leaf looks for
  other agents.
\<close>

section \<open>Commit\<close>


section \<open>A sample leaf\<close>

definition sample_leaf :: "Coord \<Rightarrow> Leaf" where
  "sample_leaf c = \<lparr>lf_coord = c, lf_slotID = ''bones-a1'', lf_claimTTL = 30, lf_fossilUser = [], lf_hubHTTPAddr = [],
     lf_projectCode = [], lf_autosync = True\<rparr>"

lemma sample_leaf_coord [simp]: "lf_coord (sample_leaf c) = c" "lf_autosync (sample_leaf c)"
  by (simp_all add: sample_leaf_def)

lemma sample_holds_wf: "holds_wf (c_holds sample_coord) sample_mem"
  by (simp add: holds_wf_def sample_coord_def sample_holds_def sample_mem_def mem_view_write view_put_def
      DefaultBucketName_def) (simp add: mem_view_def mem_empty_def)

text \<open>After the sample claim the leaf's handle has the task and the hold on its file.\<close>

lemma sample_after_claim:
  obtains c s where "settled sample_manager s" and "task_of c s sample_id = Some (claimed_as sample_coord sample_mem sample_task)"
    and "ready_handle c" and "holds_wf (c_holds c) s" and "known_epoch c sample_id = 1" and "c_AgentID c = ''bones-a1''"
    and "hold_of c s (file_key ''/w/f'') = Some (my_hold sample_coord sample_id 30 7000000000)"
    and "c_tasks c = sample_manager" and "mem_now s = 7000000000" and "quiet s"
proof -
  obtain s1 where a: "acquireTaskCAS (mem_sys any_write) sample_id sample_coord sample_mem =
      (Inr [''/w/f''], store_epoch sample_id 1 sample_coord, s1)" "settled sample_manager s1"
    "task_of sample_coord s1 sample_id = Some (claimed_as sample_coord sample_mem sample_task)"
    using sample_claimed by blast
  have s1: "s1 = committed sample_coord sample_mem EventTypeClaimed sample_id (claim_payload sample_coord sample_task)
      (claimed_as sample_coord sample_mem sample_task)"
    using mem_acquireTaskCAS(1) [of sample_coord sample_mem sample_id sample_task any_write] a(1) sample_settled sample_task_of
    by (simp add: sample_bounded)
  have q: "quiet s1" "holds_wf (c_holds sample_coord) s1" "mem_now s1 = 7000000000"
    unfolding s1 committed_holds [OF sample_handle(1)] using settledD(1) [OF sample_settled] sample_holds_wf by simp_all
  let ?s2 = "mem_write s1 (hm_Bucket (c_holds sample_coord)) (file_key ''/w/f'') KeyValuePut
    (holds_stamped (claim_hold sample_coord sample_id 30) (mem_now s1))"
  have hs: "holds_set sample_coord s1 {file_key ''/w/f''} (Some (my_hold sample_coord sample_id 30 (mem_now s1))) ?s2"
    using holds_set_announce [of sample_coord s1 "{}" sample_id 30 s1 "file_key ''/w/f''"] holds_set_refl by simp
  note d = holds_setD [OF hs] and t = holds_set_task [OF hs]
  show ?thesis
    by (rule that [of ?s2 "store_epoch sample_id 1 sample_coord"])
      (use a d t q in \<open>simp_all add: known_epoch_def sample_agent my_hold_def claim_hold_def\<close>)
qed


section \<open>Close\<close>

text \<open>C12: Closing through a leaf poisons recovery: the close succeeds, the record is closed by this agent and
  the holds are dropped, but the release that follows publishes an \<^verbatim>\<open>unclaimed\<close> event before it notices that the
  task is closed; the event stays on the log, and every later recovery stops at it with an invalid
  transition and replays nothing.\<close>

theorem leaf_close_blocks_recovery:
  assumes "settled (c_tasks c) s" and "task_of c s i = Some t" and "ready_handle c" and "holds_wf (c_holds c) s"
    and "i \<noteq> []" and "i \<noteq> migrationMarkerKey" and "t_Status t = StatusClaimed" and "t_ClaimedBy t = c_AgentID c"
    and "t_ClaimEpoch t = known_epoch c i"
    and "\<forall>f \<in> set held. IsAbs f"
    and "\<forall>f \<in> set held. hold_of c s (file_key f) = None \<or>
      (\<exists>h. hold_of c s (file_key f) = Some h \<and> h_AgentID h = c_AgentID c \<and> mem_now s \<le> h_ExpiresAt h)"
    and "encodeBounded (mem_sys G) (c_tasks c) (closed_as c ''leaf close'' s t) = Inr (encode (closed_as c ''leaf close'' s t))"
    and "lf_coord l = c" and "cl_taskID cl = i" and "cl_release cl = releaseClosure i held"
  shows "\<exists>cl' l' s'. Leaf_Close (mem_sys G) cl l s = (None, cl', l', s') \<and>
    task_of c s' i = Some (closed_as c ''leaf close'' s t) \<and>
    (\<forall>f \<in> set held. hold_of c s' (file_key f) = None) \<and>
    Recover (mem_sys G) (c_tasks c) s' = ((0, Some (ETasks ErrInvalidTransition)), s')"
  using assms by (rule mem_Leaf_Close)

theorem leaf_close_blocks_recovery_witness:
  "\<exists>c s cl' l' s'. Leaf_Close (mem_sys any_write)
      \<lparr>cl_taskID = sample_id, cl_release = releaseClosure sample_id [''/w/f'']\<rparr> (sample_leaf c) s = (None, cl', l', s') \<and>
    Recover (mem_sys any_write) sample_manager s' = ((0, Some (ETasks ErrInvalidTransition)), s')"
proof -
  obtain c s where c: "settled sample_manager s" "task_of c s sample_id = Some (claimed_as sample_coord sample_mem sample_task)"
    "ready_handle c" "holds_wf (c_holds c) s" "known_epoch c sample_id = 1" "c_AgentID c = ''bones-a1''"
    "hold_of c s (file_key ''/w/f'') = Some (my_hold sample_coord sample_id 30 7000000000)"
    "c_tasks c = sample_manager" "mem_now s = 7000000000" "quiet s"
    by (rule sample_after_claim)
  then show ?thesis
    using leaf_close_blocks_recovery [of c s sample_id "claimed_as sample_coord sample_mem sample_task" "[''/w/f'']" any_write
        "sample_leaf c" "\<lparr>cl_taskID = sample_id, cl_release = releaseClosure sample_id [''/w/f'']\<rparr>"]
    by (simp add: sample_bounded claimed_as_def sample_agent) blast
qed

section \<open>Compaction\<close>


definition sample_closed :: Task where
  "sample_closed = sample_task\<lparr>t_Status := StatusClosed, t_ClosedBy := ''bones-a1'', t_ClosedAt := Some 0\<rparr>"

definition sample_closed_mem :: mem where
  "sample_closed_mem = mem_write (mem_published (mem_empty 7000000000 []) EventTypeCreated sample_id (PCreated sample_created))
     DefaultBucketName sample_id KeyValuePut (encode sample_closed)"

lemma sample_closed_simps:
  "wf_Task sample_closed" "t_ID sample_closed = sample_id" "t_SchemaVersion sample_closed = SchemaVersion"
  "t_LastEventSeq sample_closed = 1" "t_Status sample_closed = StatusClosed" "t_ClosedAt sample_closed = Some 0"
  "t_CompactLevel sample_closed = 0" "t_ClaimedBy sample_closed = []"
  by (simp_all add: sample_closed_def sample_task_def zero_Task_def wf_Task_def)

lemma sample_closed_mem:
  "settled sample_manager sample_closed_mem" "record_at (mem_view sample_closed_mem) DefaultBucketName sample_id = Some sample_closed"
  using settled_commit [OF settled_empty, of sample_id sample_closed 7000000000 sample_manager EventTypeCreated "PCreated sample_created"]
    sample_closed_simps
  by (simp_all add: sample_closed_mem_def mem_empty_def record_at_write)

lemma sample_compacts:
  "\<exists>ct s'. compactOne (mem_sys any_write) mem_agent (\<lambda>_. Inr ''s'') (sample_leaf sample_coord) sample_closed 9 False
     sample_closed_mem = (Inr ct, s')"
proof -
  let ?u = "sample_closed\<lparr>t_OriginalSize := compactOriginalSize (mem_sys any_write) sample_closed, t_CompactLevel := 1,
    t_CompactedAt := Some 9, t_UpdatedAt := 9\<rparr>"
  obtain e where e: "quiet sample_closed_mem" "mem_view sample_closed_mem (m_bucket sample_manager) sample_id = Some e"
    "e_Operation e = KeyValuePut" "decode (e_Value e) = Some sample_closed" "t_SchemaVersion sample_closed \<ge> SchemaVersion"
    using settled_record [OF sample_closed_mem(1), of sample_id sample_closed] sample_closed_mem(2) by auto
  have "eqNonCompaction sample_closed ?u"
    using sample_closed_simps(1) by (auto simp: eqNonCompaction_iff wf_Task_def map_get_def)
  then have "valid_Task ?u" "lifecycle sample_closed ?u"
    using sample_closed_simps by (simp_all add: valid_Task_def validStatus_def lifecycle.compact)
  then have "tasks_update (mem_sys any_write) sample_manager sample_id
      (compact_mutator (compactOriginalSize (mem_sys any_write) sample_closed) 1 9) sample_closed_mem =
      (Inr ?u, mem_write sample_closed_mem (m_bucket sample_manager) sample_id KeyValuePut (encode ?u))"
    by (intro mem_tasks_update_quiet [OF e])
      (simp_all add: sample_bounded compact_mutator_def sample_closed_simps)
  then show ?thesis
    using sample_closed_simps by (simp add: compactOne_def mem_agent_def admin_defs Let_def)
qed


section \<open>Presence of other leaves\<close>

text \<open>
  Where a leaf's handle looks: the identity of a leaf is its slot followed by \<^verbatim>\<open>-leaf\<close>, and the project of
  its presence is what precedes the last hyphen, the slot itself.
\<close>

lemma leaf_project:
  assumes "openLeafCoord js d slot url dir s = (Inr c, s')" and "slot \<noteq> []"
  shows "pm_Project (c_presence c) = slot" "c_AgentID c = slot @ ''-leaf''" "\<not> pm_closed (c_presence c)"
    "pm_Bucket (c_presence c) = presenceBucket"
proof -
  from assms obtain s2 s3 pm where
    "presence_Open js (d_presence d)
       \<lparr>pc_AgentID = slot @ ''-leaf'', pc_Project = slot, pc_Bucket = presenceBucket, pc_connected = True,
        pc_HeartbeatInterval = tc_HeartbeatInterval (defaultTuning zero_Tuning), pc_ChanBuffer = 0\<rparr> s2 = (Inr pm, s3)"
    and c: "c_presence c = pm" "c_AgentID c = slot @ ''-leaf''"
    by (auto simp: openLeafCoord_def coord_Open_def openSubstrate_def projectPrefix_leaf Let_def
        split: sum.splits prod.splits option.splits)
  then show "pm_Project (c_presence c) = slot" "c_AgentID c = slot @ ''-leaf''" "\<not> pm_closed (c_presence c)"
    "pm_Bucket (c_presence c) = presenceBucket"
    using presence_Open_ok by fastforce+
qed

text \<open>C14: A leaf cannot see that another leaf is alive: the handle a leaf opens looks for presence entries
  under its own slot only, so the liveness check in front of a take-over reports the claimant of every other
  slot as offline, even while that claimant's entry is there.\<close>

theorem other_leaf_seems_offline:
  assumes "openLeafCoord js d slot url dir s0 = (Inr c, s1)" and "slot \<noteq> []" and "CHR ''/'' \<notin> set slot"
    and "other \<noteq> slot" and "CHR ''/'' \<notin> set other"
    and "quiet s" and "presence_wf (c_presence c) s"
    and "card {k. live (mem_view s presenceBucket k)} \<le> maxPresenceEntries"
    and "\<forall>k e. entry_at (mem_view s) presenceBucket k = Some e \<longrightarrow> pe_AgentID e = other @ ''-leaf'' \<longrightarrow>
      k = presence_keyOf other (other @ ''-leaf'')"
  shows "assertClaimerOffline (mem_sys G) (other @ ''-leaf'') c s = (Inr (), s)"
proof -
  note p = leaf_project [OF assms(1,2)]
  obtain es where es: "presence_Who (mem_sys G) (c_presence c) s = (Inr es, s)"
    "set es = {e. \<exists>k. entry_at (mem_view s) presenceBucket k = Some e \<and> has_prefix k (slot @ ''/'')}"
    using mem_Who_quiet [OF assms(6,7) p(3), of G] assms(8) p by auto
  have "pe_AgentID e \<noteq> other @ ''-leaf''" if e: "e \<in> set es" for e
  proof
    assume "pe_AgentID e = other @ ''-leaf''"
    with e es(2) assms(9) have "has_prefix (presence_keyOf other (other @ ''-leaf'')) (slot @ ''/'')" by auto
    from presence_key_scope [OF assms(5,3) this] assms(4) show False by simp
  qed
  then show ?thesis using es(1) by (auto simp: assertClaimerOffline_def list_ex_iff)
qed

definition sample_dial :: dial where
  "sample_dial = \<lparr>d_nats = None, d_holds = None, d_tasks = None, d_stream = None, d_archive = None, d_chat = None, d_presence = None,
     d_sessions = None\<rparr>"

text \<open>The bucket while the leaf of slot \<open>s2\<close> is alive, and the handle of slot \<open>s1\<close>.\<close>

definition sample_present :: mem where
  "sample_present = mem_write (mem_empty 0 []) presenceBucket ''s2/s2-leaf'' KeyValuePut
     (presence_encode \<lparr>pe_AgentID = ''s2-leaf'', pe_Project = ''s2'', pe_StartedAt = 0, pe_LastSeen = 0\<rparr>)"

lemma sample_present_view:
  "mem_view sample_present b k = (if b = presenceBucket \<and> k = ''s2/s2-leaf''
     then Some \<lparr>e_Value = presence_encode \<lparr>pe_AgentID = ''s2-leaf'', pe_Project = ''s2'', pe_StartedAt = 0, pe_LastSeen = 0\<rparr>,
            e_Revision = 1, e_Operation = KeyValuePut\<rparr> else None)"
  by (simp add: sample_present_def mem_view_def mem_write_def mem_empty_def)

theorem other_leaf_seems_offline_witness:
  "\<exists>c. entry_at (mem_view sample_present) presenceBucket (presence_keyOf ''s2'' ''s2-leaf'') \<noteq> None \<and>
     assertClaimerOffline (mem_sys any_write) ''s2-leaf'' c sample_present = (Inr (), sample_present)"
proof -
  have "is_ok (fst (openLeafCoord (mem_sys any_write) sample_dial ''s1'' ''nats://h'' ''/w'' (mem_empty 0 [])))"
    by code_simp
  then obtain c s1 where o: "openLeafCoord (mem_sys any_write) sample_dial ''s1'' ''nats://h'' ''/w'' (mem_empty 0 []) = (Inr c, s1)"
    by (cases "openLeafCoord (mem_sys any_write) sample_dial ''s1'' ''nats://h'' ''/w'' (mem_empty 0 [])")
      (auto simp: is_ok_def split: sum.splits)
  have "quiet sample_present" by (simp add: quiet_def sample_present_def mem_write_def mem_empty_def)
  moreover have "presence_wf (c_presence c) sample_present"
    by (auto simp: presence_wf_def sample_present_view split: if_splits)
  moreover have "{k. live (mem_view sample_present presenceBucket k)} \<subseteq> {''s2/s2-leaf''}"
    by (auto simp: live_def sample_present_view split: if_splits)
  then have "card {k. live (mem_view sample_present presenceBucket k)} \<le> maxPresenceEntries"
    by (auto simp: maxPresenceEntries_def dest!: card_mono [rotated])
  moreover have "\<forall>k e. entry_at (mem_view sample_present) presenceBucket k = Some e \<longrightarrow> pe_AgentID e = ''s2-leaf'' \<longrightarrow>
      k = presence_keyOf ''s2'' ''s2-leaf''"
    by (auto simp: entry_at_def sample_present_view presence_keyOf_def split: if_splits)
  ultimately have "assertClaimerOffline (mem_sys any_write) ''s2-leaf'' c sample_present = (Inr (), sample_present)"
    using other_leaf_seems_offline [OF o, of "''s2''" sample_present any_write] by simp
  moreover have "entry_at (mem_view sample_present) presenceBucket (presence_keyOf ''s2'' ''s2-leaf'') \<noteq> None"
    by (simp add: entry_at_def sample_present_view presence_keyOf_def)
  ultimately show ?thesis by blast
qed

end
