(* ===== verification/Lease_Guarantees.thy ===== *)
theory Lease_Guarantees
  imports Reap Leaf_Guarantees
begin

text \<open>
  What leases promise: exclusion of joins, the renewal and the artifact gate under interference; what a
  re-entry, a close and the cleaners do on a quiet substrate, and where they fall short.
\<close>

section \<open>Samples\<close>

definition sample_env :: "mem lease_env" where
  "sample_env =
     \<lparr>le_js = mem_sys any_write, le_agent = mem_agent, le_dial = sample_dial, le_connect = None, le_bucket = None,
      le_hostname = ''h'', le_pid = 42, le_bonesEnv = [], le_abs = Inr, le_clock = mem_now, le_statHub = None,
      le_openRepo = None, le_addUser = None, le_mkdir = (\<lambda>_. None), le_agentNew = (\<lambda>_. None), le_agentStart = None,
      le_projectCode = Inr ''p'', le_Tip = (\<lambda>_. Inr []), le_ExtractTo = (\<lambda>_. Inr []), le_writePid = None,
      le_removePid = None, le_copyTree = None, le_removeAll = (\<lambda>_. None), le_appendEvent = None\<rparr>"

definition sample_info :: Info where
  "sample_info = \<lparr>in_AgentID = ''a1'', in_NATSURL = ''nats://h'', in_WorkspaceDir = ''/w''\<rparr>"

definition sample_opts :: "mem AcquireOpts" where
  "sample_opts = \<lparr>ao_HubURL = [], ao_Hub = None, ao_Caps = [], ao_ForceTakeover = False, ao_NATSConn = True, ao_Now = None,
     ao_NoAutosync = False\<rparr>"

definition sample_world :: "mem \<Rightarrow> mem world" where
  "sample_world s = \<lparr>w_kv = s, w_disk = \<lparr>dk_hub = Some [], dk_slots = [], dk_recovery = [], dk_events = []\<rparr>\<rparr>"

lemma sample_join_ok:
  "is_ok (fst (Acquire sample_env sample_info ''s1'' sample_id sample_opts (sample_world sample_mem)))"
  by code_simp

definition sample_sessions :: Sessions where
  "sample_sessions = \<lparr>ss_Bucket = swarm_DefaultBucketName, ss_TTL = DefaultTTL, ss_closed = False\<rparr>"

definition sample_session :: Session where
  "sample_session = \<lparr>sn_Slot = ''agent-a1'', sn_TaskID = sample_id, sn_AgentID = ''a1'', sn_Host = ''h'', sn_LeafPID = 42,
     sn_HubURL = [], sn_StartedAt = 1, sn_LastRenewed = 1\<rparr>"

definition session_mem :: "time_ns \<Rightarrow> Session \<Rightarrow> mem" where
  "session_mem now x = mem_put_session sample_sessions (mem_empty now []) x"

lemma sample_sessions_simps [simp]: "\<not> ss_closed sample_sessions" "ss_Bucket sample_sessions = swarm_DefaultBucketName"
  by (simp_all add: sample_sessions_def)

lemma sample_session_simps [simp]:
  "sn_Slot sample_session = ''agent-a1''" "sn_TaskID sample_session = sample_id" "sn_AgentID sample_session = ''a1''"
  "sn_Host sample_session = ''h''" "sn_StartedAt sample_session = 1" "sn_LastRenewed sample_session = 1"
  by (simp_all add: sample_session_def)

lemma sample_env_simps [simp]:
  "le_js sample_env = mem_sys any_write" "le_hostname sample_env = ''h''" "le_clock sample_env = mem_now"
  "le_removePid sample_env = None" "le_appendEvent sample_env = None" "le_removeAll sample_env k = None"
  by (simp_all add: sample_env_def)

lemma sample_info_simps [simp]: "in_WorkspaceDir sample_info = ''/w''" "in_AgentID sample_info = ''a1''"
  by (simp_all add: sample_info_def)

lemma sample_open [simp]: "openLeaseSessions sample_env sample_info True = Inr sample_sessions"
  by (simp add: openLeaseSessions_def swarm_Open_def swarm_Validate_def sample_sessions_def sample_env_def)

lemma mem_empty_simps [simp]:
  "session_at (mem_view (mem_empty now scr)) b k = None" "mem_rev (mem_empty now scr) = 0" "mem_now (mem_empty now scr) = now"
  "quiet (mem_empty now [])"
  by (simp_all add: session_at_def mem_view_def mem_empty_def mem_rev_def quiet_def)

lemma session_mem_simps [simp]:
  "quiet (session_mem now x)" "mem_now (session_mem now x) = now"
  "session_at (mem_view (session_mem now x)) swarm_DefaultBucketName k = (if k = sn_Slot x then Some (x, 1) else None)"
  using session_of_put [of sample_sessions "mem_empty now []" x k]
  by (simp_all add: session_mem_def)

lemma session_mem_wf [simp]: "sn_Slot x \<noteq> [] \<Longrightarrow> sessions_wf sample_sessions (session_mem now x)"
  unfolding session_mem_def
  by (rule sessions_wf_put) (simp_all add: sessions_wf_def mem_view_def mem_empty_def)

definition sample_lease :: "mem leaseBase" where
  "sample_lease = \<lparr>lb_info = sample_info, lb_slot = ''agent-a1'', lb_taskID = sample_id, lb_fossilUser = ''a1'',
     lb_hubURL = DefaultHubFossilURL, lb_now = mem_now, lb_leaf = None, lb_sessions = sample_sessions, lb_rev = 9,
     lb_released = False\<rparr>"

lemma sample_lease_simps [simp]:
  "lb_info sample_lease = sample_info" "lb_slot sample_lease = ''agent-a1''" "lb_taskID sample_lease = sample_id"
  "lb_leaf sample_lease = None" "lb_sessions sample_lease = sample_sessions" "lb_rev sample_lease = 9"
  "\<not> lb_released sample_lease" "lb_now sample_lease = mem_now"
  by (simp_all add: sample_lease_def)

definition success :: CloseOpts where
  "success = \<lparr>cp_CloseTaskOnSuccess = True, cp_NoArtifact = False, cp_Reaped = False, cp_KeepWT = True\<rparr>"

lemma success_simps [simp]: "cp_CloseTaskOnSuccess success" "\<not> cp_NoArtifact success"
  by (simp_all add: success_def)

section \<open>Joins\<close>



text \<open>C16: The record of a slot is renewed in place: a renewal that reports success replaced, in one atomic step, the
  record standing at the slot by the same record with a new time, so task, host and start survive every race.\<close>

theorem renewal_in_place:
  assumes "jetstream js ob rely" and "le_js env = js" and "bumpLastRenewed env l s = (Inr n, s')"
  shows "\<exists>s1 x rv t r. session_at (o_view ob s1) (ss_Bucket (lb_sessions l)) (lb_slot l) = Some (x, rv) \<and> n = rv + 1 \<and>
    (sn_Slot x = lb_slot l \<longrightarrow>
       wrote ob s1 s' (ss_Bucket (lb_sessions l)) (lb_slot l) (put_entry (session_encode (x\<lparr>sn_LastRenewed := t\<rparr>)) r))"
proof -
  from assms(3) have "retry MaxRetries (bump_attempt env (lb_sessions l) (lb_slot l) (lb_now l)) s = (Some (Inr n), s')"
    by (auto simp: bumpLastRenewed_def split: prod.splits option.splits)
  then obtain s0 where "bump_attempt env (lb_sessions l) (lb_slot l) (lb_now l) s0 = (Verdict (Inr n), s')"
    by (rule retry_verdict [where P = "\<lambda>_. True"]) auto
  from jetstream.bump_attempt_atomic [OF assms(1) this assms(2)] show ?thesis .
qed

lemma sample_renews:
  "bumpLastRenewed sample_env sample_lease (session_mem 5 sample_session) =
     (Inr 2, mem_put_session sample_sessions (session_mem 5 sample_session) (sample_session\<lparr>sn_LastRenewed := 5\<rparr>))"
proof -
  have "sessions_Get (mem_sys any_write) sample_sessions ''agent-a1'' (session_mem 5 sample_session) =
      (Inr (sample_session, 1), session_mem 5 sample_session)"
    using mem_sessions_Get [of "session_mem 5 sample_session" sample_sessions "''agent-a1''" any_write] by simp
  moreover have "sessions_update (mem_sys any_write) sample_sessions (sample_session\<lparr>sn_LastRenewed := 5\<rparr>) 1
      (session_mem 5 sample_session) =
      (Inr (), mem_put_session sample_sessions (session_mem 5 sample_session) (sample_session\<lparr>sn_LastRenewed := 5\<rparr>))"
    by (rule mem_sessions_update [where y = sample_session]) simp_all
  ultimately show ?thesis
    by (simp add: bumpLastRenewed_def MaxRetries_def numeral_eq_Suc bump_attempt_def)
qed

theorem renewal_in_place_witness:
  "\<exists>n s' s1 x rv. bumpLastRenewed sample_env sample_lease (session_mem 5 sample_session) = (Inr n, s') \<and>
     session_at (mem_view s1) swarm_DefaultBucketName ''agent-a1'' = Some (x, rv) \<and> n = rv + 1"
  using renewal_in_place [OF mem.jetstream_axioms sample_env_simps(1) sample_renews] sample_renews by fastforce



section \<open>Taking over a slot\<close>

text \<open>C18: What a join does with a record that stands at its slot, on a quiet substrate: without \<^verbatim>\<open>--force\<close> a record
  of this host that was renewed within the threshold, and every record of another host, is left alone with an
  error of its own; a stale record of this host is removed. With \<^verbatim>\<open>--force\<close> every record is removed, that of
  another host too.\<close>

theorem takeover_exact:
  assumes "le_js env = mem_sys G" and "quiet s" and "sessions_wf ss s" and "\<not> ss_closed ss" and "slot \<noteq> []"
  shows "clearExistingRecord env ss slot force now s =
    (case session_of ss s slot of
       None \<Rightarrow> (Inr (), s)
     | Some (x, rv) \<Rightarrow>
         if force \<or> sn_Host x = le_hostname env \<and> whole_seconds (now s - sn_LastRenewed x) > activeThresholdSec
         then (Inr (), mem_del_session ss s slot)
         else if sn_Host x = le_hostname env then (Inl (ESwarm ErrSessionAlreadyLive), s)
         else (Inl (ESwarm ErrSessionForeignHost), s))"
proof (cases "session_of ss s slot")
  case None
  then show ?thesis
    using assms(1) mem_sessions_Get [OF assms(2-5), of G] by (simp add: clearExistingRecord_def)
next
  case (Some p)
  then obtain x rv where p: "session_of ss s slot = Some (x, rv)" by (cases p) simp
  then have g: "sessions_Get (mem_sys G) ss slot s = (Inr (x, rv), s)"
    using mem_sessions_Get [OF assms(2-5), of G] by simp
  have d: "sessions_delete (mem_sys G) ss slot rv s = (Inr (), mem_del_session ss s slot)"
    using mem_sessions_delete [OF assms(2,4,5) p] session_rev_pos [OF p] by simp
  show ?thesis
    using p g d assms(1) by (auto simp: clearExistingRecord_def Let_def)
qed

theorem takeover_exact_witness:
  "clearExistingRecord sample_env sample_sessions ''agent-a1'' True mem_now (session_mem 5 (sample_session\<lparr>sn_Host := ''other''\<rparr>)) =
     (Inr (), mem_del_session sample_sessions (session_mem 5 (sample_session\<lparr>sn_Host := ''other''\<rparr>)) ''agent-a1'')"
  using takeover_exact [of sample_env any_write "session_mem 5 (sample_session\<lparr>sn_Host := ''other''\<rparr>)" sample_sessions "''agent-a1''"
      True mem_now]
  by simp

section \<open>Re-entry\<close>

text \<open>Joining an automatic slot again is idempotent but counts as work: on a quiet substrate, a join by the agent
  and host the record names reports the same slot and task, creates no task and touches no file and no other
  bucket; it renews the record, and that alone satisfies the artifact gate of a close, though nothing was
  committed.\<close>

theorem reentry_counts_as_work:
  assumes "le_js env = mem_sys G" and "quiet (w_kv w)" and "sessions_wf ss (w_kv w)"
    and "openLeaseSessions env info (ao_NATSConn opts) = Inr ss"
    and "in_WorkspaceDir info \<noteq> []" and "TrimSpace (in_AgentID info) \<noteq> []"
    and "SyntheticSlotName (in_AgentID info) = Inr slot"
    and "session_of ss (w_kv w) slot = Some (x, rv)" and "sn_Host x = le_hostname env" and "sn_AgentID x = in_AgentID info"
    and "ao_Now opts = None" and "sn_StartedAt x < le_clock env (w_kv w)"
    and "lb_sessions l = ss" and "lb_slot l = slot"
  shows "\<exists>r w'. JoinAuto env rnd info opts w = (Inr r, w') \<and> jr_ReEntry r \<and> jr_Lease r = None \<and>
    jr_Slot r = slot \<and> jr_TaskID r = sn_TaskID x \<and> w_disk w' = w_disk w \<and>
    (\<exists>rv'. session_of ss (w_kv w') slot = Some (x\<lparr>sn_LastRenewed := le_clock env (w_kv w)\<rparr>, rv')) \<and>
    (\<forall>b k. b \<noteq> ss_Bucket ss \<longrightarrow> mem_view (w_kv w') b k = mem_view (w_kv w) b k) \<and>
    checkArtifactPrecondition env copts l (w_kv w') = (Inr (), w_kv w')"
proof -
  let ?y = "x\<lparr>sn_LastRenewed := le_clock env (w_kv w)\<rparr>"
  have op: "\<not> ss_closed ss" using openLeaseSessions_ok [OF assms(4)] by simp
  have sl: "sn_Slot x = slot" "slot \<noteq> []" using session_of_slot [OF assms(3,8)] by simp_all
  have g: "sessions_Get (mem_sys G) ss slot (w_kv w) = (Inr (x, rv), w_kv w)"
    using mem_sessions_Get [OF assms(2,3) op sl(2), of G] assms(8) by simp
  have u: "sessions_update (mem_sys G) ss ?y rv (w_kv w) = (Inr (), mem_put_session ss (w_kv w) ?y)"
    using mem_sessions_update [OF assms(2) op, of ?y x rv G] assms(8) sl by simp
  define s' where "s' = mem_put_session ss (w_kv w) ?y"
  have s': "session_of ss s' slot = Some (?y, Suc (mem_rev (w_kv w)))" "quiet s'" "sessions_wf ss s'"
    using assms(2,3) sl by (simp_all add: s'_def)
  then have "checkArtifactPrecondition env copts l s' = (Inr (), s')"
    using mem_sessions_Get [OF s'(2,3) op sl(2), of G] assms(1,12-14)
    by (simp add: checkArtifactPrecondition_def)
  moreover have "JoinAuto env rnd info opts w =
      (Inr \<lparr>jr_Slot = slot, jr_WT = SlotWorktree (BonesDir (le_bonesEnv env) (le_abs env) (in_WorkspaceDir info)) slot,
        jr_TaskID = sn_TaskID x, jr_AgentID = sn_AgentID x, jr_ReEntry = True, jr_Lease = None\<rparr>, w\<lparr>w_kv := s'\<rparr>)"
    using assms(1,4-7,9-11) g u
    by (simp add: JoinAuto_def defaultAcquireOpts_def on_kv_def probeReEntry_def bumpReEntry_def s'_def)
  ultimately show ?thesis using s'(1) by (simp add: s'_def)
qed

theorem reentry_counts_as_work_witness:
  "\<exists>r w'. JoinAuto sample_env [] sample_info sample_opts (sample_world (session_mem 5 sample_session)) = (Inr r, w') \<and>
     jr_ReEntry r \<and> jr_TaskID r = sample_id \<and>
     checkArtifactPrecondition sample_env success sample_lease (w_kv w') = (Inr (), w_kv w')"
proof -
  have t: "TrimSpace ''a1'' = ''a1''" by code_simp
  have "SyntheticSlotName ''a1'' = Inr ''agent-a1''"
    by (simp add: SyntheticSlotName_def t AgentSlotPrefix_def AgentSlotIDLen_def)
  with t reentry_counts_as_work [of sample_env any_write "sample_world (session_mem 5 sample_session)" sample_sessions sample_info
      sample_opts "''agent-a1''" sample_session 1 sample_lease "[]" success]
  show ?thesis by (simp add: sample_world_def sample_opts_def) blast
qed

section \<open>Closing\<close>

text \<open>However stale the revision a lease remembers, the record is found again and removed.\<close>

lemma mem_delete_attempts:
  assumes "quiet s" and "sessions_wf ss s" and "\<not> ss_closed ss" and "session_of ss s slot = Some (x, rv)" and "rv' \<noteq> 0"
  shows "delete_attempts (Suc (Suc n)) (mem_sys G) ss slot rv' s = (None, mem_del_session ss s slot)"
proof -
  have sl: "slot \<noteq> []" using session_of_slot [OF assms(2,4)] by simp
  note d = mem_sessions_delete [OF assms(1,3) sl assms(4)]
  show ?thesis
    using d [of rv' G] d [of rv G] session_rev_pos [OF assms(4)] mem_sessions_Get [OF assms(1-3) sl, of G] assms(4,5)
    by (cases "rv' = rv") simp_all
qed

lemma mem_deleteSessionRecord:
  assumes "le_js env = mem_sys G" and "quiet s" and "sessions_wf ss s" and "\<not> ss_closed ss"
    and "session_of ss s slot = Some (x, rv)" and "lb_sessions l = ss" and "lb_slot l = slot" and "lb_rev l \<noteq> 0"
  shows "deleteSessionRecord env l s = (None, mem_del_session ss s slot)"
proof -
  have "MaxRetries = Suc (Suc 6)" by (simp add: MaxRetries_def)
  then show ?thesis
    using mem_delete_attempts [OF assms(2-5,8), of 6 G] assms(1,6-8) by (simp add: deleteSessionRecord_def)
qed

text \<open>C19: A close after a commit on the same lease reports a success it did not bring about: the commit has stopped the
  leaf, so the close skips the task; on a quiet substrate it removes the session record, whatever revision the
  lease remembers, and the process file, leaves every other bucket as it is (the task stays open), logs the
  result \<^verbatim>\<open>success\<close> and reports no error.\<close>

theorem close_after_commit_skips_task:
  assumes "le_js env = mem_sys G" and "quiet (w_kv w)" and "sessions_wf ss (w_kv w)" and "\<not> ss_closed ss"
    and "lb_leaf l = None" and "\<not> lb_released l" and "lb_sessions l = ss" and "lb_rev l \<noteq> 0"
    and "session_of ss (w_kv w) (lb_slot l) = Some (x, rv)" and "sn_StartedAt x < sn_LastRenewed x"
    and "cp_CloseTaskOnSuccess opts" and "le_removePid env = None" and "le_appendEvent env = None"
    and "in_WorkspaceDir (lb_info l) \<noteq> []"
  shows "\<exists>l' w'. lease_Close env opts l w = (None, l', w') \<and> lb_released l' \<and>
    session_of ss (w_kv w') (lb_slot l) = None \<and>
    (\<forall>b k. b \<noteq> ss_Bucket ss \<longrightarrow> mem_view (w_kv w') b k = mem_view (w_kv w) b k) \<and>
    mem_stream (w_kv w') = mem_stream (w_kv w) \<and> sd_pid (slot_dir_at (w_disk w') (lb_slot l)) = None \<and>
    (\<exists>e. dk_events (w_disk w') = dk_events (w_disk w) @ [e] \<and> sv_Result e = ''success'' \<and> sv_TaskID e = lb_taskID l)"
proof -
  have sl: "lb_slot l \<noteq> []" using session_of_slot [OF assms(3,9)] by simp
  have c: "checkArtifactPrecondition env opts l (w_kv w) = (Inr (), w_kv w)"
    using mem_sessions_Get [OF assms(2-4) sl, of G] assms(1,7,9,10) by (simp add: checkArtifactPrecondition_def)
  have d: "deleteSessionRecord env (l\<lparr>lb_released := True, lb_leaf := None\<rparr>) (w_kv w) =
      (None, mem_del_session ss (w_kv w) (lb_slot l))"
    by (rule mem_deleteSessionRecord [OF assms(1-4,9)]) (use assms(7,8) in simp_all)
  define w5 where "w5 = (remove_pid (lb_slot l) w)\<lparr>w_kv := mem_del_session ss (w_kv w) (lb_slot l)\<rparr>"
  define w6 where "w6 = (if \<not> cp_KeepWT opts then remove_wt env (lb_slot l)
    (snd (preserveWorktree env (lb_info l) (lb_slot l) (lb_now l (w_kv w5)) w5)) else w5)"
  have "lease_Close env opts l w =
      (None, l\<lparr>lb_released := True, lb_leaf := None, lb_sessions := sessions_Close ss\<rparr>,
       appendEvent env (lb_info l) (close_event opts l (lb_now l (w_kv w6))) w6)"
    using c d assms(5-7,11,12)
    by (simp add: lease_Close_def on_kv_def closeTaskAndReleaseClaim_def teardown_def Let_def w5_def w6_def)
  moreover obtain ts where "dk_events (w_disk (appendEvent env (lb_info l) (close_event opts l (lb_now l (w_kv w6))) w6)) =
      dk_events (w_disk w6) @ [(close_event opts l (lb_now l (w_kv w6)))\<lparr>sv_TS := ts\<rparr>]"
    by (rule appendEvent_log [OF assms(14,13)])
  moreover have "w_kv w6 = mem_del_session ss (w_kv w) (lb_slot l)" "dk_events (w_disk w6) = dk_events (w_disk w)"
    "sd_pid (slot_dir_at (w_disk w6) (lb_slot l)) = None"
    by (simp_all add: w6_def w5_def)
  ultimately show ?thesis using assms(11) by (simp add: close_event_def slot_event_def)
qed

theorem close_after_commit_skips_task_witness:
  "\<exists>l' w'. lease_Close sample_env success sample_lease (sample_world (session_mem 5 (sample_session\<lparr>sn_LastRenewed := 2\<rparr>))) =
     (None, l', w') \<and> session_of sample_sessions (w_kv w') ''agent-a1'' = None"
  using close_after_commit_skips_task [of sample_env any_write "sample_world (session_mem 5 (sample_session\<lparr>sn_LastRenewed := 2\<rparr>))"
      sample_sessions sample_lease "sample_session\<lparr>sn_LastRenewed := 2\<rparr>" 1 success]
  by (simp add: sample_world_def) blast

section \<open>Cleaning up\<close>

text \<open>C21: A pass of the watcher on a quiet substrate removes exactly the records that outlived their time (of its own
  host, when it is told to keep to that) and the worktrees of their slots; every other record and worktree and
  every other bucket stays as it is. In particular the task of a removed slot is neither closed nor released.\<close>

theorem watcher_exact:
  assumes "le_js env = mem_sys G" and "quiet (w_kv w)" and "sessions_wf ss (w_kv w)" and "\<not> ss_closed ss"
    and "tw_Sessions tw = ss" and "card {k. session_of ss (w_kv w) k \<noteq> None} \<le> maxSessionEntries"
    and "tickOnce env tw w = (ls, w')"
  shows "(\<forall>k. session_of ss (w_kv w') k =
      (case session_of ss (w_kv w) k of
         None \<Rightarrow> None
       | Some (x, rv) \<Rightarrow> if reapable env tw (tw_now tw (w_kv w)) x then None else Some (x, rv))) \<and>
    (\<forall>b k. b \<noteq> ss_Bucket ss \<longrightarrow> mem_view (w_kv w') b k = mem_view (w_kv w) b k) \<and>
    mem_stream (w_kv w') = mem_stream (w_kv w) \<and>
    (\<forall>k. sd_wt (slot_dir_at (w_disk w') k) =
      (if (\<exists>x rv. session_of ss (w_kv w) k = Some (x, rv) \<and> reapable env tw (tw_now tw (w_kv w)) x) \<and> le_removeAll env k = None
       then None else sd_wt (slot_dir_at (w_disk w) k)))"
  using mem_tickOnce [OF assms] by (auto simp: reaped_def split: option.splits)

definition sample_watcher :: "mem TTLWatcher" where
  "sample_watcher = \<lparr>tw_Info = sample_info, tw_Sessions = sample_sessions, tw_LocalHostOnly = True, tw_ttl = 3, tw_tick = 1,
     tw_now = mem_now\<rparr>"

theorem watcher_exact_witness:
  "\<exists>ls w'. tickOnce sample_env sample_watcher (sample_world (session_mem 5 sample_session)) = (ls, w') \<and>
     session_of sample_sessions (w_kv w') ''agent-a1'' = None"
proof -
  obtain ls w' where t: "tickOnce sample_env sample_watcher (sample_world (session_mem 5 sample_session)) = (ls, w')"
    by fastforce
  have "{k. session_of sample_sessions (session_mem 5 sample_session) k \<noteq> None} = {''agent-a1''}" by auto
  then have "card {k. session_of sample_sessions (session_mem 5 sample_session) k \<noteq> None} \<le> maxSessionEntries"
    by (simp add: maxSessionEntries_def)
  with watcher_exact [OF sample_env_simps(1) _ _ _ _ _ t, of sample_sessions] t show ?thesis
    by (simp add: sample_world_def sample_watcher_def reapable_def)
qed

text \<open>C22: The collector sorts the slots by their process files: the dead slots are, in order of name, those with a
  readable process file whose process is gone, the live ones those whose process runs, and pruning removes
  exactly the dead directories. A slot just joined is dead as soon as the joining process has exited, so
  pruning removes its directory although its session lives on.\<close>

theorem prune_removes_joined_slots:
  assumes "distinct (map fst (dk_slots d))" and "\<forall>k. rm k = None"
    and "0 < le_pid env" and "le_pid env < 2 ^ 63" and "\<not> alive (int (le_pid env))"
    and "writePidFile env slot w = (Inr (), w')"
  shows "\<exists>dead live' d'. DeadSlots None alive d = Inr dead \<and> LiveSlots None alive d = Inr live' \<and>
    sorted dead \<and> set dead = {k. \<exists>x. map_of (dk_slots d) k = Some x \<and> slot_dead alive x} \<and>
    fst ` set live' = {k. \<exists>x. map_of (dk_slots d) k = Some x \<and> slot_alive alive x} \<and>
    PruneDead None rm alive d = ((dead, None), d') \<and>
    (\<forall>k. map_of (dk_slots d') k = (if k \<in> set dead then None else map_of (dk_slots d) k)) \<and>
    (d = w_disk w' \<longrightarrow> slot \<in> set dead)"
proof -
  let ?es = "sort_key fst (dk_slots d)"
  obtain d' where p: "prune_slots rm (dead_slots alive ?es) [] None d = ((dead_slots alive ?es, None), d')"
    "\<forall>k. map_of (dk_slots d') k = (if k \<in> set (dead_slots alive ?es) then None else map_of (dk_slots d) k)"
    using prune_slots_ok [of "dead_slots alive ?es" rm "[]" None d] assms(2) by auto
  have "slot_dead alive (slot_dir_at (w_disk w') slot)" "map_of (dk_slots (w_disk w')) slot = Some (slot_dir_at (w_disk w') slot)"
    using assms(3-6) readPidFile_written [OF assms(3,4)]
    by (auto simp: writePidFile_def slot_dead_def slot_dir_at_def set_slot_def split: option.splits)
  then have "slot \<in> set (dead_slots alive ?es)" if "d = w_disk w'"
    using that set_dead_slots(1) [OF assms(1)] by blast
  moreover have "fst ` set (live_slots alive ?es) = {k. \<exists>x. map_of (dk_slots d) k = Some x \<and> slot_alive alive x}"
    by (force simp: set_dead_slots(2) [OF assms(1)])
  ultimately show ?thesis
    using p dead_slots_sorted set_dead_slots(1) [OF assms(1)]
    by (intro exI [of _ "dead_slots alive ?es"] exI [of _ "live_slots alive ?es"] exI [of _ d'])
      (simp add: DeadSlots_def LiveSlots_def PruneDead_def)
qed

theorem prune_removes_joined_slots_witness:
  "\<exists>w' dead. writePidFile sample_env ''s1'' (sample_world (mem_empty 0 [])) = (Inr (), w') \<and>
     DeadSlots None (\<lambda>_. False) (w_disk w') = Inr dead \<and> ''s1'' \<in> set dead"
proof -
  let ?w = "set_slot ''s1'' (sd_pid_update (\<lambda>_. Some (itoa 42 @ nl))) (sample_world (mem_empty 0 []))"
  have wr: "writePidFile sample_env ''s1'' (sample_world (mem_empty 0 [])) = (Inr (), ?w)"
    by (simp add: writePidFile_def sample_env_def)
  have "distinct (map fst (dk_slots (w_disk ?w)))" by (simp add: set_slot_def sample_world_def)
  from prune_removes_joined_slots [OF this _ _ _ _ wr, of "\<lambda>_. None" "\<lambda>_. False"] wr
  show ?thesis by (simp add: sample_env_def) blast
qed

end
