(* ===== verification/Dispatch.thy ===== *)
theory Dispatch
  imports Plan Task_Crash
begin

text \<open>
  Dispatch of a plan: \<^verbatim>\<open>internal/dispatch\<close> and the command \<^verbatim>\<open>cli/swarm_dispatch.go\<close>. A dispatch creates one
  task per slot of a validated plan and writes a manifest that lists them by wave; \<^verbatim>\<open>Advance\<close> promotes the
  current wave when all its tasks are closed, \<^verbatim>\<open>Cancel\<close> closes the tasks that are left and removes the manifest.
  The manifest is one file, written by rename, so its content is there or not: \<open>manifest_file\<close>. The outcomes of
  the operating-system calls are the record \<open>manifest_io\<close>. The hash of the plan (\<^verbatim>\<open>sha256\<close>) and the fresh
  identifiers (\<^verbatim>\<open>uuid\<close>) are arguments.
\<close>

section \<open>Result messages\<close>

type_synonym ResultKind = string

definition ResultSuccess :: ResultKind where "ResultSuccess = ''success''"
definition ResultFork :: ResultKind where "ResultFork = ''fork''"
definition ResultFail :: ResultKind where "ResultFail = ''fail''"

record ResultMessage =
  rm_Kind :: ResultKind
  rm_Summary :: string
  rm_Branch :: string
  rm_Rev :: string
  rm_SubstrateError :: string
  rm_SubstrateFault :: string

text \<open>\<open>highest\<close> is one more than the index the loop computes, 0 for its \<^verbatim>\<open>-1\<close>.\<close>

fun highest :: "nat \<Rightarrow> nat \<Rightarrow> string list \<Rightarrow> nat" where
  "highest i h [] = h"
| "highest i h (v # vs) = highest (i + 1) (if v \<noteq> [] then i + 1 else h) vs"

definition FormatResult :: "ResultMessage \<Rightarrow> string" where
  "FormatResult msg =
     (let parts = [''dispatch-result'', rm_Kind msg, rm_Summary msg];
          optional = [rm_Branch msg, rm_Rev msg, rm_SubstrateError msg, rm_SubstrateFault msg]
      in join_with ''|'' (parts @ take (highest 0 0 optional) optional))"

definition part :: "string list \<Rightarrow> nat \<Rightarrow> string" where
  "part parts i = (if length parts > i then parts ! i else [])"

definition ParseResult :: "string \<Rightarrow> ResultMessage option" where
  "ParseResult body =
     (let parts = split_on (CHR ''|'') body in
      if length parts < 3 \<or> parts ! 0 \<noteq> ''dispatch-result'' then None
      else let msg = \<lparr>rm_Kind = parts ! 1, rm_Summary = parts ! 2, rm_Branch = part parts 3, rm_Rev = part parts 4,
                      rm_SubstrateError = part parts 5, rm_SubstrateFault = part parts 6\<rparr>
           in if rm_Kind msg = ResultSuccess \<or> rm_Kind msg = ResultFork \<or> rm_Kind msg = ResultFail then Some msg else None)"

section \<open>The manifest\<close>

definition dispatch_SchemaVersion :: int where
  "dispatch_SchemaVersion = 1"

record SlotEntry =
  de_Slot :: string
  de_TaskID :: string
  de_Title :: string
  de_Files :: "string list"
  de_SubagentPrompt :: string

record Wave =
  wv_Wave :: int
  wv_BlockedUntilWave :: int
  wv_Slots :: "SlotEntry list"

record Manifest =
  mf_SchemaVersion :: int
  mf_PlanPath :: string
  mf_PlanSHA256 :: string
  mf_CreatedAt :: time_ns
  mf_CurrentWave :: int
  mf_Waves :: "Wave list"

definition json_slot :: "SlotEntry \<Rightarrow> json" where
  "json_slot e = JObj
     (member ''slot'' (JStr (de_Slot e)) @ member ''task_id'' (JStr (de_TaskID e)) @ member ''title'' (JStr (de_Title e)) @
      member ''files'' (json_strings (de_Files e)) @ member ''subagent_prompt'' (JStr (de_SubagentPrompt e)))"

definition json_wave :: "Wave \<Rightarrow> json" where
  "json_wave w = JObj
     (member ''wave'' (JNum (wv_Wave w)) @
      member_omit (wv_BlockedUntilWave w = 0) ''blocked_until_wave'' (JNum (wv_BlockedUntilWave w)) @
      member ''slots'' (JArr (map json_slot (wv_Slots w))))"

definition manifest_encode :: "Manifest \<Rightarrow> json" where
  "manifest_encode m = JObj
     (member ''schema_version'' (JNum (mf_SchemaVersion m)) @ member ''plan_path'' (JStr (mf_PlanPath m)) @
      member ''plan_sha256'' (JStr (mf_PlanSHA256 m)) @ member ''created_at'' (JTime (mf_CreatedAt m)) @
      member ''current_wave'' (JNum (mf_CurrentWave m)) @ member ''waves'' (JArr (map json_wave (mf_Waves m))))"

definition slot_field :: "string \<Rightarrow> json \<Rightarrow> SlotEntry \<Rightarrow> SlotEntry option" where
  "slot_field k j e =
     (if k = ''slot'' then map_option (\<lambda>x. e\<lparr>de_Slot := x\<rparr>) (into_string (de_Slot e) j)
      else if k = ''task_id'' then map_option (\<lambda>x. e\<lparr>de_TaskID := x\<rparr>) (into_string (de_TaskID e) j)
      else if k = ''title'' then map_option (\<lambda>x. e\<lparr>de_Title := x\<rparr>) (into_string (de_Title e) j)
      else if k = ''files'' then map_option (\<lambda>x. e\<lparr>de_Files := x\<rparr>) (into_slice into_string [] (de_Files e) j)
      else if k = ''subagent_prompt'' then map_option (\<lambda>x. e\<lparr>de_SubagentPrompt := x\<rparr>) (into_string (de_SubagentPrompt e) j)
      else Some e)"

definition zero_SlotEntry :: SlotEntry where
  "zero_SlotEntry = \<lparr>de_Slot = [], de_TaskID = [], de_Title = [], de_Files = [], de_SubagentPrompt = []\<rparr>"

definition wave_field :: "string \<Rightarrow> json \<Rightarrow> Wave \<Rightarrow> Wave option" where
  "wave_field k j w =
     (if k = ''wave'' then map_option (\<lambda>x. w\<lparr>wv_Wave := x\<rparr>) (into_int (wv_Wave w) j)
      else if k = ''blocked_until_wave'' then
        map_option (\<lambda>x. w\<lparr>wv_BlockedUntilWave := x\<rparr>) (into_int (wv_BlockedUntilWave w) j)
      else if k = ''slots'' then
        map_option (\<lambda>x. w\<lparr>wv_Slots := x\<rparr>) (into_slice (into_struct slot_field) zero_SlotEntry (wv_Slots w) j)
      else Some w)"

definition zero_Wave :: Wave where
  "zero_Wave = \<lparr>wv_Wave = 0, wv_BlockedUntilWave = 0, wv_Slots = []\<rparr>"

definition manifest_field :: "string \<Rightarrow> json \<Rightarrow> Manifest \<Rightarrow> Manifest option" where
  "manifest_field k j m =
     (if k = ''schema_version'' then map_option (\<lambda>x. m\<lparr>mf_SchemaVersion := x\<rparr>) (into_int (mf_SchemaVersion m) j)
      else if k = ''plan_path'' then map_option (\<lambda>x. m\<lparr>mf_PlanPath := x\<rparr>) (into_string (mf_PlanPath m) j)
      else if k = ''plan_sha256'' then map_option (\<lambda>x. m\<lparr>mf_PlanSHA256 := x\<rparr>) (into_string (mf_PlanSHA256 m) j)
      else if k = ''created_at'' then map_option (\<lambda>x. m\<lparr>mf_CreatedAt := x\<rparr>) (into_time (mf_CreatedAt m) j)
      else if k = ''current_wave'' then map_option (\<lambda>x. m\<lparr>mf_CurrentWave := x\<rparr>) (into_int (mf_CurrentWave m) j)
      else if k = ''waves'' then
        map_option (\<lambda>x. m\<lparr>mf_Waves := x\<rparr>) (into_slice (into_struct wave_field) zero_Wave (mf_Waves m) j)
      else Some m)"

definition zero_Manifest :: Manifest where
  "zero_Manifest = \<lparr>mf_SchemaVersion = 0, mf_PlanPath = [], mf_PlanSHA256 = [], mf_CreatedAt = zero_time,
     mf_CurrentWave = 0, mf_Waves = []\<rparr>"

definition manifest_decode :: "json \<Rightarrow> Manifest option" where
  "manifest_decode j = into_struct manifest_field zero_Manifest j"

text \<open>
  A freshly unmarshalled element starts from the zero value: the old elements of a zero manifest are none.
\<close>

lemma into_fresh_elems:
  "(\<And>x. x \<in> set xs \<Longrightarrow> f z (g x) = Some x) \<Longrightarrow> into_elems f z [] (map g xs) = Some xs"
  by (induction xs) auto

lemma manifest_decode_encode: "manifest_decode (manifest_encode m) = Some m"
proof -
  have s: "into_struct slot_field zero_SlotEntry (json_slot e) = Some e" for e
    by (simp add: json_slot_def into_fields_simps slot_field_def zero_SlotEntry_def)
  have w: "into_struct wave_field zero_Wave (json_wave w) = Some w" for w
    by (simp add: json_wave_def into_fields_simps wave_field_def zero_Wave_def into_fresh_elems s)
  show ?thesis
    by (simp add: manifest_encode_def manifest_decode_def into_fields_simps manifest_field_def zero_Manifest_def
        into_fresh_elems w)
qed

interpretation manifest_wire: wire_format manifest_encode manifest_decode "\<lambda>_. True"
  by unfold_locales (simp add: manifest_decode_encode)

section \<open>The manifest file\<close>

type_synonym manifest_file = "json option"

record manifest_io =
  io_read :: "err option"
  io_write :: "err option"
  io_remove :: "err option"

definition dispatch_Write :: "manifest_io \<Rightarrow> Manifest \<Rightarrow> manifest_file \<Rightarrow> (err + unit) \<times> manifest_file" where
  "dispatch_Write io m file =
     (case io_write io of Some e \<Rightarrow> (Inl e, file) | None \<Rightarrow> (Inr (), Some (manifest_encode m)))"

definition dispatch_Read :: "manifest_io \<Rightarrow> manifest_file \<Rightarrow> err + Manifest" where
  "dispatch_Read io file =
     (case file of
        None \<Rightarrow> Inl (EDispatch ErrNoManifest)
      | Some j \<Rightarrow>
          (case io_read io of
             Some e \<Rightarrow> Inl e
           | None \<Rightarrow> (case manifest_decode j of None \<Rightarrow> Inl EDecode | Some m \<Rightarrow> Inr m)))"

definition dispatch_Remove :: "manifest_io \<Rightarrow> manifest_file \<Rightarrow> (err + unit) \<times> manifest_file" where
  "dispatch_Remove io file =
     (case file of
        None \<Rightarrow> (Inr (), None)
      | Some j \<Rightarrow> (case io_remove io of Some e \<Rightarrow> (Inl e, Some j) | None \<Rightarrow> (Inr (), None)))"

definition renderSubagentPrompt :: "parsedSlot \<Rightarrow> string \<Rightarrow> string" where
  "renderSubagentPrompt s taskID =
     ''You are a bones subagent for slot='' @ sl_name s @ ''. Use the `subagent` skill.'' @ [CHR 0x0A] @ ''Task ID is '' @ taskID @
     ''.'' @ [CHR 0x0A, CHR 0x0A] @ ''Tasks (from plan):'' @ [CHR 0x0A] @ sl_sourceMarkdown s"

definition manifest_slot :: "strmap \<Rightarrow> parsedSlot \<Rightarrow> SlotEntry" where
  "manifest_slot taskIDs s =
     (let taskID = map_get taskIDs (sl_name s) in
      \<lparr>de_Slot = sl_name s, de_TaskID = taskID, de_Title = sl_title s, de_Files = sl_files s,
       de_SubagentPrompt = renderSubagentPrompt s taskID\<rparr>)"

definition BuildManifest ::
  "(string \<Rightarrow> string) \<Rightarrow> time_ns \<Rightarrow> string \<Rightarrow> err + string \<Rightarrow> strmap \<Rightarrow> err + Manifest" where
  "BuildManifest sha now planPath planFile taskIDs =
     (case planFile of
        Inl e \<Rightarrow> Inl e
      | Inr data \<Rightarrow>
          (case parsePlanSlots data of
             Inl e \<Rightarrow> Inl e
           | Inr slots \<Rightarrow>
               Inr \<lparr>mf_SchemaVersion = dispatch_SchemaVersion, mf_PlanPath = planPath, mf_PlanSHA256 = sha data,
                    mf_CreatedAt = now, mf_CurrentWave = 1,
                    mf_Waves = [\<lparr>wv_Wave = 1, wv_BlockedUntilWave = 0, wv_Slots = map (manifest_slot taskIDs) slots\<rparr>]\<rparr>))"

section \<open>Advance\<close>

fun open_tasks ::
  "('s \<Rightarrow> string \<Rightarrow> (err + bool) \<times> 's) \<Rightarrow> SlotEntry list \<Rightarrow> string list \<Rightarrow> 's \<Rightarrow> (err + string list) \<times> 's" where
  "open_tasks isClosed [] op s = (Inr op, s)"
| "open_tasks isClosed (e # es) op s =
     (case isClosed s (de_TaskID e) of
        (Inl x, s') \<Rightarrow> (Inl x, s')
      | (Inr closed, s') \<Rightarrow> open_tasks isClosed es (if \<not> closed then op @ [de_TaskID e] else op) s')"

fun next_wave :: "int \<Rightarrow> int \<Rightarrow> Wave list \<Rightarrow> int" where
  "next_wave cur nextWave [] = nextWave"
| "next_wave cur nextWave (w # ws) =
     next_wave cur (if wv_Wave w > cur \<and> (nextWave < 0 \<or> wv_Wave w < nextWave) then wv_Wave w else nextWave) ws"

definition Advance ::
  "manifest_io \<Rightarrow> ('s \<Rightarrow> string \<Rightarrow> (err + bool) \<times> 's) \<Rightarrow> manifest_file \<Rightarrow> 's \<Rightarrow> (err + Manifest) \<times> manifest_file \<times> 's" where
  "Advance io isClosed file s =
     (case dispatch_Read io file of
        Inl e \<Rightarrow> (Inl e, file, s)
      | Inr m \<Rightarrow>
          (case find (\<lambda>w. wv_Wave w = mf_CurrentWave m) (mf_Waves m) of
             None \<Rightarrow> (Inl (EDispatch ErrAllWavesComplete), file, s)
           | Some currentWave \<Rightarrow>
               (case open_tasks isClosed (wv_Slots currentWave) [] s of
                  (Inl e, s') \<Rightarrow> (Inl e, file, s')
                | (Inr op, s') \<Rightarrow>
                    if op \<noteq> [] then (Inl (EDispatch (ErrWaveIncomplete op)), file, s')
                    else let nextWave = next_wave (mf_CurrentWave m) (- 1) (mf_Waves m) in
                         if nextWave < 0 then (Inl (EDispatch ErrAllWavesComplete), file, s')
                         else let m' = m\<lparr>mf_CurrentWave := nextWave\<rparr> in
                              case dispatch_Write io m' file of
                                (Inl e, file') \<Rightarrow> (Inl e, file', s')
                              | (Inr _, file') \<Rightarrow> (Inr m', file', s'))))"

section \<open>Cancel\<close>

definition CancelReason :: string where
  "CancelReason = ''dispatch-canceled''"

fun close_tasks :: "('s \<Rightarrow> string \<Rightarrow> string \<Rightarrow> (err + unit) \<times> 's) \<Rightarrow> SlotEntry list \<Rightarrow> 's \<Rightarrow> (err + unit) \<times> 's" where
  "close_tasks closeTask [] s = (Inr (), s)"
| "close_tasks closeTask (e # es) s =
     (case closeTask s (de_TaskID e) CancelReason of
        (Inl x, s') \<Rightarrow> (Inl x, s')
      | (Inr _, s') \<Rightarrow> close_tasks closeTask es s')"

text \<open>The waves the loop visits, by position: from index \<^verbatim>\<open>CurrentWave - 1\<close>, none when that is negative.\<close>

definition cancel_waves :: "Manifest \<Rightarrow> Wave list" where
  "cancel_waves m = (if mf_CurrentWave m - 1 < 0 then [] else drop (nat (mf_CurrentWave m - 1)) (mf_Waves m))"

definition Cancel ::
  "manifest_io \<Rightarrow> ('s \<Rightarrow> string \<Rightarrow> string \<Rightarrow> (err + unit) \<times> 's) \<Rightarrow> manifest_file \<Rightarrow> 's \<Rightarrow> (err + unit) \<times> manifest_file \<times> 's" where
  "Cancel io closeTask file s =
     (case dispatch_Read io file of
        Inl e \<Rightarrow> if e = EDispatch ErrNoManifest then (Inr (), file, s) else (Inl e, file, s)
      | Inr m \<Rightarrow>
          (case close_tasks closeTask (concat (map wv_Slots (cancel_waves m))) s of
             (Inl e, s') \<Rightarrow> (Inl e, file, s')
           | (Inr _, s') \<Rightarrow> (case dispatch_Remove io file of (r, file') \<Rightarrow> (r, file', s'))))"

section \<open>Specification of a worker\<close>

record Spec =
  sp_TaskID :: string
  sp_Title :: string
  sp_Files :: "string list"
  sp_Thread :: string
  sp_ParentAgentID :: string
  sp_WorkerAgentID :: string
  sp_WorkspaceDir :: string

definition BuildSpec :: "string \<Rightarrow> string \<Rightarrow> string \<Rightarrow> string \<Rightarrow> string list \<Rightarrow> Spec" where
  "BuildSpec parentAgentID workspaceDir taskID title files =
     \<lparr>sp_TaskID = taskID, sp_Title = title, sp_Files = files, sp_Thread = taskID, sp_ParentAgentID = parentAgentID,
      sp_WorkerAgentID = parentAgentID @ ''/'' @ taskID, sp_WorkspaceDir = workspaceDir\<rparr>"

definition BuildWorkerCommand :: "string \<Rightarrow> Spec \<Rightarrow> string list \<times> string" where
  "BuildWorkerCommand bin spec =
     ([bin, ''tasks'', ''dispatch'', ''worker'', ''--task-id='' @ sp_TaskID spec, ''--task-thread='' @ sp_Thread spec,
       ''--worker-agent-id='' @ sp_WorkerAgentID spec], sp_WorkspaceDir spec)"

text \<open>
  \<^verbatim>\<open>WaitWorkerAbsent\<close>: what the \<^verbatim>\<open>select\<close> of each turn delivers is a \<open>wait_event\<close>; a list of them is a run.
  \<open>None\<close> is a loop that still waits at the end of the list.
\<close>

datatype wait_event = TimerFires | CtxDone err | Tick

fun WaitWorkerAbsent ::
  "('s \<Rightarrow> (err + string list) \<times> 's) \<Rightarrow> string \<Rightarrow> wait_event list \<Rightarrow> 's \<Rightarrow> (err + unit) option \<times> 's" where
  "WaitWorkerAbsent probe workerAgentID [] s = (None, s)"
| "WaitWorkerAbsent probe workerAgentID (TimerFires # evs) s = (Some (Inl (EMsg ''agent still present'')), s)"
| "WaitWorkerAbsent probe workerAgentID (CtxDone e # evs) s = (Some (Inl e), s)"
| "WaitWorkerAbsent probe workerAgentID (Tick # evs) s =
     (case probe s of
        (Inl e, s') \<Rightarrow> (Some (Inl e), s')
      | (Inr ids, s') \<Rightarrow>
          if list_ex (\<lambda>i. i = workerAgentID) ids then WaitWorkerAbsent probe workerAgentID evs s'
          else (Some (Inr ()), s'))"

section \<open>The command\<close>

definition cli_config :: Config where
  "cli_config = \<lparr>cfg_BucketName = DefaultBucketName, cfg_HistoryDepth = 10, cfg_MaxValueSize = 64 * 1024, cfg_ChanBuffer = 32,
     cfg_EnableEventLog = True, cfg_RecoverOnOpen = False\<rparr>"

text \<open>The outcomes of dialling, and of creating the bucket and the stream.\<close>

record dial_outcome =
  do_nats :: "kv_err option"
  do_bucket :: "kv_err option"
  do_stream :: "kv_err option"

definition openManager :: "'s sys \<Rightarrow> dial_outcome \<Rightarrow> 's \<Rightarrow> (err + Manager) \<times> 's" where
  "openManager js d s =
     (case do_nats d of Some x \<Rightarrow> (Inl (EKV x), s) | None \<Rightarrow> tasks_Open js (do_bucket d) (do_stream d) cli_config s)"

definition guardExistingDispatch ::
  "manifest_io \<Rightarrow> (string \<Rightarrow> string) \<Rightarrow> err + string \<Rightarrow> manifest_file \<Rightarrow> err + unit" where
  "guardExistingDispatch io sha planFile file =
     (case dispatch_Read io file of
        Inl e \<Rightarrow> if e = EDispatch ErrNoManifest then Inr () else Inl e
      | Inr existing \<Rightarrow>
          (case planFile of
             Inl e \<Rightarrow> Inl e
           | Inr data \<Rightarrow>
               if mf_PlanSHA256 existing \<noteq> sha data then Inl (EMsg ''dispatch: in-flight dispatch exists'') else Inr ()))"

definition slot_task :: "string \<Rightarrow> string \<Rightarrow> time_ns \<Rightarrow> Task" where
  "slot_task i name now =
     zero_Task\<lparr>t_ID := i, t_Title := name, t_Status := StatusOpen, t_Files := [], t_Context := [(''slot'', name)],
       t_CreatedAt := now, t_UpdatedAt := now, t_SchemaVersion := SchemaVersion\<rparr>"

text \<open>\<open>uuid k\<close> is the identifier the \<open>k\<close>-th call of \<^verbatim>\<open>uuid.NewString\<close> returns.\<close>

fun create_tasks ::
  "'s sys \<Rightarrow> Manager \<Rightarrow> time_ns \<Rightarrow> (nat \<Rightarrow> string) \<Rightarrow> nat \<Rightarrow> slotEntry list \<Rightarrow> strmap \<Rightarrow> 's \<Rightarrow> (err + strmap) \<times> 's" where
  "create_tasks js m now uuid k [] taskIDs s = (Inr taskIDs, s)"
| "create_tasks js m now uuid k (e # es) taskIDs s =
     (case Manager_Tx m (uuid k) (Tx_Create js m (uuid k) (slot_task (uuid k) (se_Name e) now)) s of
        (Inl x, s') \<Rightarrow> (Inl x, s')
      | (Inr _, s') \<Rightarrow> create_tasks js m now uuid (k + 1) es (AList.update (se_Name e) (uuid k) taskIDs) s')"

definition createTasksAndManifest ::
  "'s sys \<Rightarrow> dial_outcome \<Rightarrow> manifest_io \<Rightarrow> (string \<Rightarrow> string) \<Rightarrow> (nat \<Rightarrow> string) \<Rightarrow> string \<Rightarrow> err + string \<Rightarrow>
   slotEntry list \<Rightarrow> manifest_file \<Rightarrow> 's \<Rightarrow> (err + Manifest \<times> strmap) \<times> manifest_file \<times> 's" where
  "createTasksAndManifest js d io sha uuid planPath planFile slots file s0 =
     (case openManager js d s0 of
        (Inl e, s) \<Rightarrow> (Inl e, file, s)
      | (Inr m, s) \<Rightarrow>
          (case create_tasks js m (js_Now js s) uuid 0 slots [] s of
             (Inl e, s1) \<Rightarrow> (Inl e, file, s1)
           | (Inr taskIDs, s1) \<Rightarrow>
               (case BuildManifest sha (js_Now js s1) planPath planFile taskIDs of
                  Inl e \<Rightarrow> (Inl e, file, s1)
                | Inr mf \<Rightarrow>
                    (case dispatch_Write io mf file of
                       (Inl e, file') \<Rightarrow> (Inl e, file', s1)
                     | (Inr _, file') \<Rightarrow> (Inr (mf, taskIDs), file', s1)))))"

text \<open>\<^verbatim>\<open>runDispatch\<close>; a dry run returns no manifest.\<close>

definition runDispatch ::
  "'s sys \<Rightarrow> dial_outcome \<Rightarrow> manifest_io \<Rightarrow> (string \<Rightarrow> string) \<Rightarrow> (nat \<Rightarrow> string) \<Rightarrow>
   (strmap \<Rightarrow> strmap) \<Rightarrow> (strmap \<Rightarrow> strmap) \<Rightarrow> bool \<Rightarrow> string \<Rightarrow> err + string \<Rightarrow> manifest_file \<Rightarrow> 's \<Rightarrow>
   (err + (Manifest \<times> strmap) option) \<times> manifest_file \<times> 's" where
  "runDispatch js d io sha uuid rngS rngD dryRun planPath planFile file s =
     (case runValidatePlan rngS rngD planFile of
        (res, exitCode) \<Rightarrow>
          if exitCode \<noteq> 0 then (Inl (EMsg ''dispatch: plan has validation errors''), file, s)
          else if dryRun then (Inr None, file, s)
          else case guardExistingDispatch io sha planFile file of
                 Inl e \<Rightarrow> (Inl e, file, s)
               | Inr _ \<Rightarrow>
                   (case createTasksAndManifest js d io sha uuid planPath planFile (vr_Slots res) file s of
                      (Inl e, file', s') \<Rightarrow> (Inl e, file', s')
                    | (Inr r, file', s') \<Rightarrow> (Inr (Some r), file', s')))"

definition task_closed :: "'s sys \<Rightarrow> Manager \<Rightarrow> 's \<Rightarrow> string \<Rightarrow> (err + bool) \<times> 's" where
  "task_closed js m s taskID =
     (case tasks_Get js m taskID s of
        (Inl e, s') \<Rightarrow> (Inl e, s')
      | (Inr (t, _), s') \<Rightarrow> (Inr (t_Status t = StatusClosed), s'))"

text \<open>The result of \<^verbatim>\<open>runAdvance\<close>: \<open>None\<close> says that all waves are complete.\<close>

definition runAdvance ::
  "'s sys \<Rightarrow> dial_outcome \<Rightarrow> manifest_io \<Rightarrow> manifest_file \<Rightarrow> 's \<Rightarrow>
   (err + Manifest option) \<times> manifest_file \<times> 's" where
  "runAdvance js d io file s =
     (case openManager js d s of
        (Inl e, s1) \<Rightarrow> (Inl e, file, s1)
      | (Inr m, s1) \<Rightarrow>
          (case Advance io (task_closed js m) file s1 of
             (Inr mf, file', s2) \<Rightarrow> (Inr (Some mf), file', s2)
           | (Inl e, file', s2) \<Rightarrow>
               if e = EDispatch ErrAllWavesComplete then (Inr None, file', s2) else (Inl e, file', s2)))"

definition cancel_mutator :: "string \<Rightarrow> mutator" where
  "cancel_mutator reason now t =
     Inr (t\<lparr>t_Status := StatusClosed, t_ClosedAt := Some now,
            t_ClosedBy := (if t_ClaimedBy t \<noteq> [] then t_ClaimedBy t else t_ClosedBy t), t_ClaimedBy := [],
            t_ClosedReason := reason, t_UpdatedAt := now\<rparr>)"

definition cancel_task :: "'s sys \<Rightarrow> Manager \<Rightarrow> 's \<Rightarrow> string \<Rightarrow> string \<Rightarrow> (err + unit) \<times> 's" where
  "cancel_task js m s taskID reason =
     (case Manager_Tx m taskID (Tx_Close js m taskID [] reason (Some (cancel_mutator reason))) s of
        (Inl e, s') \<Rightarrow> (Inl e, s')
      | (Inr _, s') \<Rightarrow> (Inr (), s'))"

definition runCancel ::
  "'s sys \<Rightarrow> dial_outcome \<Rightarrow> manifest_io \<Rightarrow> manifest_file \<Rightarrow> 's \<Rightarrow> (err + unit) \<times> manifest_file \<times> 's" where
  "runCancel js d io file s =
     (case openManager js d s of
        (Inl e, s1) \<Rightarrow> (Inl e, file, s1)
      | (Inr m, s1) \<Rightarrow> Cancel io (cancel_task js m) file s1)"

section \<open>Lemmas: result messages\<close>

definition plain_result :: "ResultMessage \<Rightarrow> bool" where
  "plain_result msg \<longleftrightarrow> rm_Kind msg \<in> {ResultSuccess, ResultFork, ResultFail} \<and>
     (\<forall>x \<in> {rm_Summary msg, rm_Branch msg, rm_Rev msg, rm_SubstrateError msg, rm_SubstrateFault msg}. CHR ''|'' \<notin> set x)"

lemma highest_bounds: "h \<le> i \<Longrightarrow> h \<le> highest i h vs \<and> highest i h vs \<le> i + length vs"
proof (induction vs arbitrary: i h)
  case (Cons v vs)
  from Cons.prems Cons.IH [of "i + 1" "i + 1"] Cons.IH [of h "i + 1"] show ?case by (cases "v = []") simp_all
qed simp

lemma highest_rest: "h \<le> i \<Longrightarrow> highest i h vs \<le> k \<Longrightarrow> i \<le> k \<Longrightarrow> k < i + length vs \<Longrightarrow> vs ! (k - i) = []"
proof (induction vs arbitrary: i h)
  case (Cons v vs)
  show ?case
  proof (cases "k = i")
    case True
    have "v = []"
    proof (rule ccontr)
      assume "v \<noteq> []"
      with Cons.prems(2) highest_bounds [of "i + 1" "i + 1" vs] True show False by simp
    qed
    with True show ?thesis by simp
  next
    case False
    then have "vs ! (k - Suc i) = []"
      using Cons.prems Cons.IH [of "if v \<noteq> [] then i + 1 else h" "i + 1"] by (auto split: if_splits)
    moreover have "k - i = Suc (k - Suc i)" using False Cons.prems(3) by simp
    ultimately show ?thesis by simp
  qed
qed simp

lemma part_padded:
  assumes "length opts = n" and "k < n"
  shows "part (xs @ take (highest 0 0 opts) opts) (length xs + k) = opts ! k"
  using highest_bounds [of 0 0 opts] highest_rest [of 0 0 opts k] assms
  by (auto simp: part_def nth_append)

section \<open>Lemmas: creating\<close>

definition created_as :: "string \<Rightarrow> string \<Rightarrow> time_ns \<Rightarrow> nat \<Rightarrow> Task" where
  "created_as i name now q = (slot_task i name now)\<lparr>t_LastEventSeq := q\<rparr>"

lemma created_as_simps [simp]:
  "t_ID (created_as i name now q) = i" "t_Status (created_as i name now q) = StatusOpen"
  "t_ClaimedBy (created_as i name now q) = []" "t_SchemaVersion (created_as i name now q) = SchemaVersion"
  "t_LastEventSeq (created_as i name now q) = q" "wf_Task (created_as i name now q)" "valid_Task (created_as i name now q)"
  "t_Context (created_as i name now q) = [(''slot'', name)]" "valid_Task (slot_task i name now)" "t_ID (slot_task i name now) = i"
  by (simp_all add: created_as_def slot_task_def zero_Task_def wf_Task_def valid_Task_def validStatus_def)

lemma mem_create_task:
  assumes "settled m s" and "record_at (mem_view s) (m_bucket m) i = None" and "i \<noteq> []" and "i \<noteq> migrationMarkerKey"
    and "\<not> m_done m" and "m_stream m"
    and "u = created_as i name now (Suc (length (mem_stream s)))" and "encodeBounded (mem_sys G) m u = Inr (encode u)"
  shows "\<exists>p. Manager_Tx m i (Tx_Create (mem_sys G) m i (slot_task i name now)) s =
    (Inr (), mem_write (mem_published s EventTypeCreated i p) (m_bucket m) i KeyValuePut (encode u))"
proof -
  note st = settledD [OF assms(1)]
  let ?p = "PCreated \<lparr>cp_Title = t_Title (slot_task i name now), cp_Slot = [], cp_Files = t_Files (slot_task i name now),
    cp_Snapshot = None\<rparr>"
  have v: "validateForCreate (slot_task i name now) = Inr ()" "validateForCreate u = Inr ()"
    using assms(7) by (simp_all add: validateForCreate_ok)
  have nl: "\<not> live (mem_view (mem_published s EventTypeCreated i ?p) (m_bucket m) i)"
    using not_live_record [OF st(2) assms(2)] by simp
  have "tasks_create (mem_sys G) m u (mem_published s EventTypeCreated i ?p) =
      (Inr (), mem_write (mem_published s EventTypeCreated i ?p) (m_bucket m) i KeyValuePut (encode u))"
    using mem_create_quiet [OF _ nl, of G "encode u"] st(1) assms(3,5,8) v(2) assms(7) by (simp add: tasks_create_def)
  then have "Manager_Tx m i (Tx_Create (mem_sys G) m i (slot_task i name now)) s =
      (Inr (), mem_write (mem_published s EventTypeCreated i ?p) (m_bucket m) i KeyValuePut (encode u))"
    using mem_publish_event_quiet [OF st(1) assms(6,3), of EventTypeCreated G ?p] assms(3,5,7) v
    by (simp add: Manager_Tx_def Tx_Create_def markDirty_def created_as_def [symmetric])
  then show ?thesis by blast
qed

text \<open>
  The loop over the slots: every slot gets a fresh record, the other records stay as they are.
\<close>

abbreviation fits :: "guarantee \<Rightarrow> Manager \<Rightarrow> Task \<Rightarrow> bool" where
  "fits G m u \<equiv> encodeBounded (mem_sys G) m u = Inr (encode u)"

definition fresh_ids :: "Manager \<Rightarrow> mem \<Rightarrow> string list \<Rightarrow> bool" where
  "fresh_ids m s ids \<longleftrightarrow> distinct ids \<and>
     (\<forall>i \<in> set ids. i \<noteq> [] \<and> i \<noteq> migrationMarkerKey \<and> record_at (mem_view s) (m_bucket m) i = None)"

lemma fresh_ids_write:
  "fresh_ids m s (i # ids) \<Longrightarrow> fresh_ids m (mem_write (mem_published s et i p) (m_bucket m) i oper j) ids"
  by (auto simp: fresh_ids_def) (metis record_at_write_other mem_published_simps(2))

lemma mem_create_tasks:
  assumes "settled m s" and "\<not> m_done m" and "m_stream m"
    and "fresh_ids m s (map uuid [k..<k + length es])"
    and "\<forall>j < length es. \<forall>q. fits G m (created_as (uuid (k + j)) (se_Name (es ! j)) now q)"
    and "distinct (map se_Name es)"
  shows "\<exists>ids s'. create_tasks (mem_sys G) m now uuid k es acc s = (Inr ids, s') \<and> settled m s' \<and>
    (\<forall>j < length es. map_of ids (se_Name (es ! j)) = Some (uuid (k + j)) \<and>
       (\<exists>q. record_at (mem_view s') (m_bucket m) (uuid (k + j)) = Some (created_as (uuid (k + j)) (se_Name (es ! j)) now q))) \<and>
    (\<forall>n. n \<notin> set (map se_Name es) \<longrightarrow> map_of ids n = map_of acc n) \<and>
    (\<forall>i. i \<notin> set (map uuid [k..<k + length es]) \<longrightarrow>
       record_at (mem_view s') (m_bucket m) i = record_at (mem_view s) (m_bucket m) i)"
  using assms(1,4,5,6)
proof (induction es arbitrary: k acc s)
  case (Cons e es)
  let ?i = "uuid k" and ?q = "Suc (length (mem_stream s))"
  let ?u = "created_as ?i (se_Name e) now ?q"
  have ids: "map uuid [k..<k + length (e # es)] = ?i # map uuid [Suc k..<Suc k + length es]"
    using upt_conv_Cons [of k "k + length (e # es)"] by (simp del: upt_Suc)
  have f: "fresh_ids m s (?i # map uuid [Suc k..<Suc k + length es])" using Cons.prems(2) unfolding ids .
  then have i: "?i \<noteq> []" "?i \<noteq> migrationMarkerKey" "record_at (mem_view s) (m_bucket m) ?i = None"
    "?i \<notin> set (map uuid [Suc k..<Suc k + length es])" by (simp_all add: fresh_ids_def)
  obtain p where c: "Manager_Tx m ?i (Tx_Create (mem_sys G) m ?i (slot_task ?i (se_Name e) now)) s =
      (Inr (), mem_write (mem_published s EventTypeCreated ?i p) (m_bucket m) ?i KeyValuePut (encode ?u))"
    using mem_create_task [OF Cons.prems(1) i(3,1,2) assms(2,3) refl] Cons.prems(3) by fastforce
  let ?s1 = "mem_write (mem_published s EventTypeCreated ?i p) (m_bucket m) ?i KeyValuePut (encode ?u)"
  have s1: "settled m ?s1" by (rule settled_commit [OF Cons.prems(1) i(2)]) simp_all
  have r1: "record_at (mem_view ?s1) (m_bucket m) ?i = Some ?u" by (rule record_at_write) simp_all
  have b: "\<forall>j < length es. \<forall>q. fits G m (created_as (uuid (Suc k + j)) (se_Name (es ! j)) now q)"
    using Cons.prems(3) by fastforce
  from Cons.IH [OF s1 fresh_ids_write [OF f] b, of "AList.update (se_Name e) ?i acc"] Cons.prems(4)
  obtain ids' s' where r: "create_tasks (mem_sys G) m now uuid (Suc k) es (AList.update (se_Name e) ?i acc) ?s1 = (Inr ids', s')"
    "settled m s'"
    "\<forall>j < length es. map_of ids' (se_Name (es ! j)) = Some (uuid (Suc k + j)) \<and>
       (\<exists>q. record_at (mem_view s') (m_bucket m) (uuid (Suc k + j)) = Some (created_as (uuid (Suc k + j)) (se_Name (es ! j)) now q))"
    "\<forall>n. n \<notin> set (map se_Name es) \<longrightarrow> map_of ids' n = map_of (AList.update (se_Name e) ?i acc) n"
    "\<forall>i. i \<notin> set (map uuid [Suc k..<Suc k + length es]) \<longrightarrow>
       record_at (mem_view s') (m_bucket m) i = record_at (mem_view ?s1) (m_bucket m) i"
    by auto
  have "map_of ids' (se_Name ((e # es) ! j)) = Some (uuid (k + j)) \<and>
      (\<exists>q. record_at (mem_view s') (m_bucket m) (uuid (k + j)) = Some (created_as (uuid (k + j)) (se_Name ((e # es) ! j)) now q))"
    if j: "j < length (e # es)" for j
  proof (cases j)
    case 0
    then show ?thesis using r(4,5) r1 i(4) Cons.prems(4) by auto
  next
    case (Suc j')
    then show ?thesis using r(3) j by auto
  qed
  moreover have "record_at (mem_view s') (m_bucket m) x = record_at (mem_view s) (m_bucket m) x"
    if "x \<notin> set (map uuid [k..<k + length (e # es)])" for x
    using that r(5) unfolding ids by (simp add: record_at_write_other)
  ultimately show ?case using c r(1,2,4) by (intro exI [of _ ids'] exI [of _ s']) simp
qed simp

section \<open>Lemmas: cancelling\<close>

definition canceled_at :: "time_ns \<Rightarrow> nat \<Rightarrow> Task \<Rightarrow> Task" where
  "canceled_at now q t = t\<lparr>t_Status := StatusClosed, t_ClosedAt := Some now,
     t_ClosedBy := (if t_ClaimedBy t \<noteq> [] then t_ClaimedBy t else t_ClosedBy t), t_ClaimedBy := [],
     t_ClosedReason := CancelReason, t_UpdatedAt := now, t_LastEventSeq := q\<rparr>"

abbreviation canceled_as :: "mem \<Rightarrow> Task \<Rightarrow> Task" where
  "canceled_as s t \<equiv> canceled_at (mem_now s) (Suc (length (mem_stream s))) t"

lemma canceled_at_simps [simp]:
  "t_ID (canceled_at now q t) = t_ID t" "t_Status (canceled_at now q t) = StatusClosed"
  "t_SchemaVersion (canceled_at now q t) = t_SchemaVersion t" "t_LastEventSeq (canceled_at now q t) = q"
  "wf_Task (canceled_at now q t) = wf_Task t" "t_ClosedReason (canceled_at now q t) = CancelReason"
  "valid_Task (canceled_at now q t)" "t_ClosedAt (canceled_at now q t) = Some now"
  by (simp_all add: canceled_at_def wf_Task_def valid_Task_def validStatus_def)

lemma cancel_mutator_stamped: "seq_stamped (cancel_mutator CancelReason) q now t = Inr (canceled_at now q t)"
  by (simp add: seq_stamped_def cancel_mutator_def canceled_at_def)

lemma mem_cancel_open:
  assumes "settled m s" and "record_at (mem_view s) (m_bucket m) i = Some t" and "i \<noteq> []" and "i \<noteq> migrationMarkerKey"
    and "\<not> m_done m" and "m_stream m" and "t_Status t \<in> {StatusOpen, StatusClaimed}"
    and "fits G m (canceled_as s t)"
  shows "\<exists>s'. cancel_task (mem_sys G) m s i CancelReason = (Inr (), s') \<and> settled m s' \<and> mem_now s' = mem_now s \<and>
    record_at (mem_view s') (m_bucket m) i = Some (canceled_as s t) \<and>
    (\<forall>k. k \<noteq> i \<longrightarrow> record_at (mem_view s') (m_bucket m) k = record_at (mem_view s) (m_bucket m) k)"
proof -
  obtain e where e: "t_ID t = i" "wf_Task t" using assms(1,2) by (rule settled_record)
  let ?p = "PClosed \<lparr>clo_AgentID = [], clo_Reason = CancelReason\<rparr>"
  let ?s' = "mem_write (mem_published s EventTypeClosed i ?p) (m_bucket m) i KeyValuePut (encode (canceled_as s t))"
  have l: "lifecycle t (canceled_as s t)" using assms(7) by (intro lifecycle.close) simp_all
  have v: "EventType_Valid EventTypeClosed" by simp
  note r = tx_apply_settled [where w = "seq_stamped (cancel_mutator CancelReason)" and et = EventTypeClosed and u = "canceled_as s t",
      OF assms(1-6) v cancel_mutator_stamped _ l assms(8)]
  have "cancel_task (mem_sys G) m s i CancelReason = (Inr (), ?s')"
    using r(1) [of ?p] assms(3,5) e by (simp add: cancel_task_def Manager_Tx_def Tx_Close_def markDirty_def)
  moreover have "settled m ?s'" "record_at (mem_view ?s') (m_bucket m) i = Some (canceled_as s t)"
    using r(2,3) [of ?p] e by simp_all
  moreover have "mem_now ?s' = mem_now s" by (simp add: mem_write_def mem_published_def)
  ultimately show ?thesis by (intro exI [of _ ?s']) (simp add: record_at_write_other)
qed

text \<open>A task that is closed already, at another moment: the mutator would close it again.\<close>

lemma mem_cancel_closed:
  assumes "settled m s" and "record_at (mem_view s) (m_bucket m) i = Some t" and "i \<noteq> []"
    and "\<not> m_done m" and "m_stream m" and "t_Status t = StatusClosed" and "t_ClosedAt t \<noteq> Some (mem_now s)"
  shows "\<exists>s'. cancel_task (mem_sys G) m s i CancelReason = (Inl (ETasks ErrInvalidTransition), s')"
proof -
  obtain e where e: "quiet s" "mem_view s (m_bucket m) i = Some e" "e_Operation e = KeyValuePut"
    "decode (e_Value e) = Some t" "t_SchemaVersion t \<ge> SchemaVersion" using assms(1,2) by (rule settled_record)
  let ?s1 = "mem_published s EventTypeClosed i (PClosed \<lparr>clo_AgentID = [], clo_Reason = CancelReason\<rparr>)"
  have "\<not> eqNonCompaction t (canceled_as s t)" using assms(7) by (auto simp: eqNonCompaction_iff)
  then have v: "validateTransition t (canceled_as s t) = Inl ErrInvalidTransition"
    using assms(6) by (simp add: validateTransition_def validStatus_def legalTransition_def closedCompactionOnlyUpdate_def
        checkInvariant11_def canceled_at_def)
  have "tasks_update (mem_sys G) m i (seq_stamped (cancel_mutator CancelReason) (Suc (length (mem_stream s)))) ?s1 =
      (Inl (ETasks ErrInvalidTransition), ?s1)"
    by (rule mem_tasks_update_rejected [of _ _ _ e t]) (use e assms(3,4) v cancel_mutator_stamped in auto)
  then show ?thesis
    using mem_publish_event_quiet [OF e(1) assms(5,3), of EventTypeClosed] assms(3,4)
    by (simp add: cancel_task_def Manager_Tx_def Tx_Close_def markDirty_def tx_apply_def recordErr_def)
qed

text \<open>
  The loop of \<^verbatim>\<open>Cancel\<close>: it closes the tasks one after the other, and stops at the first that is closed already.
\<close>

definition cancelable :: "guarantee \<Rightarrow> Manager \<Rightarrow> mem \<Rightarrow> string \<Rightarrow> bool" where
  "cancelable G m s i \<longleftrightarrow> i \<noteq> [] \<and> i \<noteq> migrationMarkerKey \<and>
     (\<exists>t. record_at (mem_view s) (m_bucket m) i = Some t \<and> t_Status t \<in> {StatusOpen, StatusClaimed} \<and>
        (\<forall>q. fits G m (canceled_at (mem_now s) q t)))"

definition canceled :: "Manager \<Rightarrow> mem \<Rightarrow> string \<Rightarrow> bool" where
  "canceled m s i \<longleftrightarrow> (\<exists>t. record_at (mem_view s) (m_bucket m) i = Some t \<and> t_Status t = StatusClosed \<and>
     t_ClosedReason t = CancelReason)"

lemma mem_close_tasks:
  assumes "settled m s" and "\<not> m_done m" and "m_stream m"
    and "distinct (map de_TaskID es)" and "\<forall>e \<in> set es. cancelable G m s (de_TaskID e)"
  shows "\<exists>s'. close_tasks (cancel_task (mem_sys G) m) es s = (Inr (), s') \<and> settled m s' \<and> mem_now s' = mem_now s \<and>
    (\<forall>e \<in> set es. canceled m s' (de_TaskID e)) \<and>
    (\<forall>k. k \<notin> de_TaskID ` set es \<longrightarrow> record_at (mem_view s') (m_bucket m) k = record_at (mem_view s) (m_bucket m) k)"
  using assms(1,4,5)
proof (induction es arbitrary: s)
  case (Cons e es)
  let ?i = "de_TaskID e"
  from Cons.prems(3) obtain t where t: "?i \<noteq> []" "?i \<noteq> migrationMarkerKey"
    "record_at (mem_view s) (m_bucket m) ?i = Some t" "t_Status t \<in> {StatusOpen, StatusClaimed}" "fits G m (canceled_as s t)" by (auto simp: cancelable_def)
  obtain s1 where s1: "cancel_task (mem_sys G) m s ?i CancelReason = (Inr (), s1)" "settled m s1" "mem_now s1 = mem_now s"
    "record_at (mem_view s1) (m_bucket m) ?i = Some (canceled_as s t)"
    "\<forall>k. k \<noteq> ?i \<longrightarrow> record_at (mem_view s1) (m_bucket m) k = record_at (mem_view s) (m_bucket m) k"
    using mem_cancel_open [OF Cons.prems(1) t(3,1,2) assms(2,3) t(4,5)] by blast
  have c: "cancelable G m s1 (de_TaskID x)" if "x \<in> set es" for x
    using that Cons.prems(2,3) s1(3,5) by (fastforce simp: cancelable_def image_iff)
  obtain s' where s': "close_tasks (cancel_task (mem_sys G) m) es s1 = (Inr (), s')" "settled m s'" "mem_now s' = mem_now s1"
    "\<forall>e \<in> set es. canceled m s' (de_TaskID e)"
    "\<forall>k. k \<notin> de_TaskID ` set es \<longrightarrow> record_at (mem_view s') (m_bucket m) k = record_at (mem_view s1) (m_bucket m) k"
    using Cons.IH [OF s1(2)] Cons.prems(2) c by auto
  have "canceled m s' ?i" using s'(5) s1(4) Cons.prems(2) by (auto simp: canceled_def)
  then show ?case using s1 s' by (intro exI [of _ s']) simp
qed simp

lemma mem_close_tasks_stuck:
  assumes "settled m s" and "\<not> m_done m" and "m_stream m"
    and "distinct (map de_TaskID (es @ x # xs))" and "\<forall>e \<in> set es. cancelable G m s (de_TaskID e)"
    and "record_at (mem_view s) (m_bucket m) (de_TaskID x) = Some t" and "de_TaskID x \<noteq> []" and "t_Status t = StatusClosed"
    and "t_ClosedAt t \<noteq> Some (mem_now s)"
  shows "\<exists>s'. close_tasks (cancel_task (mem_sys G) m) (es @ x # xs) s = (Inl (ETasks ErrInvalidTransition), s')"
proof -
  obtain s1 where s1: "close_tasks (cancel_task (mem_sys G) m) es s = (Inr (), s1)" "settled m s1" "mem_now s1 = mem_now s"
    "record_at (mem_view s1) (m_bucket m) (de_TaskID x) = Some t"
    using mem_close_tasks [OF assms(1-3) _ assms(5)] assms(4,6) by auto
  have "close_tasks f (es @ x # xs) s = close_tasks f (x # xs) s1" if "close_tasks f es s = (Inr (), s1)" for f
    using that by (induction es arbitrary: s) (auto split: prod.splits sum.splits)
  moreover obtain s' where "cancel_task (mem_sys G) m s1 (de_TaskID x) CancelReason = (Inl (ETasks ErrInvalidTransition), s')"
    using mem_cancel_closed [OF s1(2,4) assms(7,2,3,8)] assms(9) s1(3) by auto
  ultimately show ?thesis using s1(1) by simp
qed

section \<open>Lemmas: advancing\<close>

lemma next_wave_cases:
  assumes "- 1 \<le> cur" and "n < 0 \<or> cur < n"
  shows "(next_wave cur n ws < 0 \<longleftrightarrow> n < 0 \<and> (\<forall>w \<in> set ws. wv_Wave w \<le> cur)) \<and>
    (0 \<le> next_wave cur n ws \<longrightarrow>
       (next_wave cur n ws = n \<or> (\<exists>w \<in> set ws. cur < wv_Wave w \<and> next_wave cur n ws = wv_Wave w)) \<and>
       (0 \<le> n \<longrightarrow> next_wave cur n ws \<le> n) \<and> (\<forall>w \<in> set ws. cur < wv_Wave w \<longrightarrow> next_wave cur n ws \<le> wv_Wave w))"
  using assms(2)
proof (induction ws arbitrary: n)
  case (Cons w ws)
  show ?case
  proof (cases "wv_Wave w > cur \<and> (n < 0 \<or> wv_Wave w < n)")
    case True
    then have n: "next_wave cur n (w # ws) = next_wave cur (wv_Wave w) ws" by simp
    have "0 \<le> wv_Wave w" using True assms(1) by simp
    then show ?thesis using Cons.IH [of "wv_Wave w"] True unfolding n by auto
  next
    case False
    then have n: "next_wave cur n (w # ws) = next_wave cur n ws" by auto
    show ?thesis using Cons.IH [OF Cons.prems] False Cons.prems unfolding n by auto
  qed
qed auto

lemma next_wave_Min:
  assumes "0 \<le> cur"
  shows "next_wave cur (- 1) ws < 0 \<longleftrightarrow> {x \<in> wv_Wave ` set ws. cur < x} = {}"
    "{x \<in> wv_Wave ` set ws. cur < x} \<noteq> {} \<Longrightarrow> next_wave cur (- 1) ws = Min {x \<in> wv_Wave ` set ws. cur < x}"
proof -
  let ?S = "{x \<in> wv_Wave ` set ws. cur < x}" and ?r = "next_wave cur (- 1) ws"
  note c = next_wave_cases [of cur "- 1" ws]
  show neg: "?r < 0 \<longleftrightarrow> ?S = {}" using c assms by fastforce
  show "?r = Min ?S" if "?S \<noteq> {}"
  proof (rule sym, rule Min_eqI)
    have "0 \<le> ?r" using that neg by linarith
    then show "?r \<in> ?S" "\<And>y. y \<in> ?S \<Longrightarrow> ?r \<le> y" using c assms by auto
  qed simp
qed

lemma mem_open_tasks:
  assumes "quiet s" and "current m s" and "\<not> m_done m"
    and "\<forall>e \<in> set es. de_TaskID e \<noteq> [] \<and> record_at (mem_view s) (m_bucket m) (de_TaskID e) \<noteq> None"
  shows "open_tasks (task_closed (mem_sys G) m) es op s =
    (Inr (op @ map de_TaskID (filter (\<lambda>e. \<not> (\<exists>t. record_at (mem_view s) (m_bucket m) (de_TaskID e) = Some t \<and>
       t_Status t = StatusClosed)) es)), s)"
  using assms(4)
proof (induction es arbitrary: op)
  case (Cons e es)
  then obtain t where t: "record_at (mem_view s) (m_bucket m) (de_TaskID e) = Some t" by auto
  obtain rv where "tasks_Get (mem_sys G) m (de_TaskID e) s = (Inr (t, rv), s)"
    using mem_tasks_Get_record [OF assms(1,2) t _ assms(3)] Cons.prems by auto
  then have "task_closed (mem_sys G) m s (de_TaskID e) = (Inr (t_Status t = StatusClosed), s)" by (simp add: task_closed_def)
  with Cons t show ?case by simp
qed simp

text \<open>What is parsed is plain: the parts of a split contain no separator.\<close>

lemma ParseResult_plain:
  assumes "ParseResult body = Some msg"
  shows "plain_result msg"
proof -
  let ?parts = "split_on (CHR ''|'') body"
  have f: "CHR ''|'' \<notin> set (part ?parts i)" for i
    using split_on_parts [of _ "CHR ''|''" body] by (auto simp: part_def)
  have "\<not> length ?parts < 3" using assms by (auto simp: ParseResult_def Let_def split: if_splits)
  then have "?parts ! 2 = part ?parts 2" by (simp add: part_def)
  then have "CHR ''|'' \<notin> set (?parts ! 2)" using f by simp
  with assms f show ?thesis by (auto simp: ParseResult_def plain_result_def Let_def split: if_splits)
qed

section \<open>Undisturbed commands\<close>

text \<open>
  On a bucket that carries the marker of the migration, opening the manager changes nothing.
\<close>

definition cli_manager :: Manager where
  "cli_manager = \<lparr>m_cfg = cli_config, m_stream = True, m_buf = 32, m_done = False\<rparr>"

definition connected :: dial_outcome where
  "connected = \<lparr>do_nats = None, do_bucket = None, do_stream = None\<rparr>"

definition files_ok :: manifest_io where
  "files_ok = \<lparr>io_read = None, io_write = None, io_remove = None\<rparr>"

lemma cli_manager_simps [simp]:
  "m_bucket cli_manager = DefaultBucketName" "m_stream cli_manager" "\<not> m_done cli_manager"
  by (simp_all add: cli_manager_def cli_config_def)

lemma files_ok_simps [simp]: "io_read files_ok = None" "io_write files_ok = None" "io_remove files_ok = None"
  by (simp_all add: files_ok_def)

lemma openManager_manager: "openManager js d s0 = (Inr m, s) \<Longrightarrow> m = cli_manager"
  by (auto simp: openManager_def tasks_Open_def cli_manager_def cli_config_def Let_def
      split: option.splits sum.splits prod.splits)

lemma mem_openManager:
  assumes "settled cli_manager s" and "record_at (mem_view s) DefaultBucketName migrationMarkerKey \<noteq> None"
  shows "openManager (mem_sys G) connected s = (Inr cli_manager, s)"
proof -
  obtain e where e: "quiet s" "mem_view s DefaultBucketName migrationMarkerKey = Some e" "e_Operation e = KeyValuePut"
    using assms settled_record [of cli_manager s migrationMarkerKey] by fastforce
  then have "isMigrated (mem_sys G) cli_manager s = (Inr True, s)"
    by (simp add: isMigrated_def mem_get_quiet)
  moreover have "assertOpenConfig cli_config = Inr ()" by code_simp
  ultimately show ?thesis
    by (simp add: openManager_def connected_def tasks_Open_def Migrate_def cli_manager_def cli_config_def Let_def)
qed

end
