(* ===== verification/Dispatch_Guarantees.thy ===== *)
theory Dispatch_Guarantees
  imports Dispatch Task_Guarantees
begin

text \<open>
  What a dispatch promises: result messages survive the wire, a dispatch gives every slot of the plan its task,
  a wave advances exactly when its tasks are closed, and a cancel closes what is open; and where it falls
  short: a cancel that meets a closed task never gets through.
\<close>

section \<open>Result messages\<close>

text \<open>A result message survives being formatted and parsed exactly when its kind is one of the three known
  ones and no field contains the separator; empty fields in front of a later one keep their position.\<close>

theorem result_round_trip: "ParseResult (FormatResult msg) = Some msg \<longleftrightarrow> plain_result msg"
proof
  show "ParseResult (FormatResult msg) = Some msg \<Longrightarrow> plain_result msg" by (rule ParseResult_plain)
next
  assume p: "plain_result msg"
  let ?opts = "[rm_Branch msg, rm_Rev msg, rm_SubstrateError msg, rm_SubstrateFault msg]"
  let ?xs = "[''dispatch-result'', rm_Kind msg, rm_Summary msg]"
  let ?parts = "?xs @ take (highest 0 0 ?opts) ?opts"
  have "CHR ''|'' \<notin> set x" if "x \<in> set ?parts" for x
  proof -
    have "x \<in> set ?xs \<or> x \<in> set ?opts" using that in_set_takeD [of x _ ?opts] by auto
    then show ?thesis using p by (auto simp: plain_result_def ResultSuccess_def ResultFork_def ResultFail_def)
  qed
  then have s: "split_on (CHR ''|'') (FormatResult msg) = ?parts"
    using split_on_join [of ?parts "CHR ''|''"] by (simp add: FormatResult_def Let_def)
  have "part ?parts 3 = rm_Branch msg" "part ?parts 4 = rm_Rev msg" "part ?parts 5 = rm_SubstrateError msg"
    "part ?parts 6 = rm_SubstrateFault msg"
    using part_padded [of ?opts 4 0 ?xs] part_padded [of ?opts 4 1 ?xs] part_padded [of ?opts 4 2 ?xs] part_padded [of ?opts 4 3 ?xs]
    by (simp_all add: eval_nat_numeral del: highest.simps)
  then show "ParseResult (FormatResult msg) = Some msg"
    unfolding ParseResult_def s using p by (simp add: Let_def plain_result_def)
qed

section \<open>Dispatch\<close>

text \<open>C36: A dispatch of an accepted plan, undisturbed and with fresh identifiers, succeeds: the manifest on disk
  has one wave with the slots of the plan in the order they appear, every slot carries the identifier of an open
  task of its own that names the slot, and no other record changes. The same holds when the manifest of the same
  plan is there already, so a second dispatch makes a second set of tasks.\<close>

theorem dispatch_creates_slot_tasks:
  assumes "\<And>m. mset (rngS m) = mset m" and "\<And>m. mset (rngD m) = mset m"
    and "snd (runValidatePlan rngS rngD (Inr data)) = 0"
    and "file = None \<or> (\<exists>old. file = Some (manifest_encode old) \<and> mf_PlanSHA256 old = sha data)"
    and "io_read io = None" and "io_write io = None"
    and "openManager (mem_sys G) d s0 = (Inr m, s)" and "settled m s"
    and "fresh_ids m s (map uuid [0..<length (vr_Slots (fst (runValidatePlan rngS rngD (Inr data))))])"
    and "\<forall>j < length (vr_Slots (fst (runValidatePlan rngS rngD (Inr data)))). \<forall>q.
      fits G m (created_as (uuid j) (se_Name (vr_Slots (fst (runValidatePlan rngS rngD (Inr data))) ! j)) (mem_now s) q)"
  shows "\<exists>mf ids s' w. runDispatch (mem_sys G) d io sha uuid rngS rngD False path (Inr data) file s0 =
      (Inr (Some (mf, ids)), Some (manifest_encode mf), s') \<and> settled m s' \<and>
    mf_CurrentWave mf = 1 \<and> mf_Waves mf = [w] \<and> wv_Wave w = 1 \<and> distinct (map de_TaskID (wv_Slots w)) \<and>
    map de_Slot (wv_Slots w) = first_seen (map ti_slot (scan_plan (fst (scan_lines data)))) \<and>
    (\<forall>e \<in> set (wv_Slots w). \<exists>t. record_at (mem_view s) (m_bucket m) (de_TaskID e) = None \<and>
       record_at (mem_view s') (m_bucket m) (de_TaskID e) = Some t \<and>
       t_Status t = StatusOpen \<and> map_get (t_Context t) ''slot'' = de_Slot e) \<and>
    (\<forall>i. record_at (mem_view s) (m_bucket m) i \<noteq> None \<longrightarrow>
       record_at (mem_view s') (m_bucket m) i = record_at (mem_view s) (m_bucket m) i)"
proof -
  let ?es = "vr_Slots (fst (runValidatePlan rngS rngD (Inr data)))" and ?names = "first_seen (map ti_slot (scan_plan (fst (scan_lines data))))"
  have mf: "m = cli_manager" "\<not> m_done m" "m_stream m" using openManager_manager [OF assms(7)] by simp_all
  have ok: "\<not> snd (scan_lines data)" using assms(3) by (rule runValidatePlan_read)
  then have n: "map se_Name ?es = ?names" by (simp add: runValidatePlan_slots buildSlotList_names)
  obtain slots where slots: "parsePlanSlots data = Inr slots" using parsePlanSlots_total [OF ok] by blast
  have sl: "map sl_name slots = ?names" by (rule parsePlanSlots_names [OF slots])
  have len: "length slots = length ?es" using n sl by (metis length_map)
  obtain ids s' where c: "create_tasks (mem_sys G) m (mem_now s) uuid 0 ?es [] s = (Inr ids, s')" "settled m s'"
    and new: "\<forall>j < length ?es. map_of ids (se_Name (?es ! j)) = Some (uuid j) \<and>
       (\<exists>q. record_at (mem_view s') (m_bucket m) (uuid j) = Some (created_as (uuid j) (se_Name (?es ! j)) (mem_now s) q))"
    and old: "\<forall>i. i \<notin> set (map uuid [0..<length ?es]) \<longrightarrow>
       record_at (mem_view s') (m_bucket m) i = record_at (mem_view s) (m_bucket m) i"
    using mem_create_tasks [where k = 0 and acc = "[]" and G = G and now = "mem_now s", OF assms(8) mf(2,3), of uuid ?es] assms(9,10) n first_seen_facts(1) by auto
  have id: "de_TaskID (manifest_slot ids (slots ! j)) = uuid j" "sl_name (slots ! j) = se_Name (?es ! j)" if "j < length ?es" for j
  proof -
    show nm: "sl_name (slots ! j) = se_Name (?es ! j)" using that n sl len by (metis nth_map)
    show "de_TaskID (manifest_slot ids (slots ! j)) = uuid j" using new that nm by (simp add: manifest_slot_def Let_def map_get_def)
  qed
  have ids: "map de_TaskID (map (manifest_slot ids) slots) = map uuid [0..<length ?es]"
    by (rule nth_equalityI) (simp_all add: len id(1))
  define w where "w = \<lparr>wv_Wave = 1, wv_BlockedUntilWave = 0, wv_Slots = map (manifest_slot ids) slots\<rparr>"
  define mf where "mf = \<lparr>mf_SchemaVersion = dispatch_SchemaVersion, mf_PlanPath = path, mf_PlanSHA256 = sha data,
    mf_CreatedAt = mem_now s', mf_CurrentWave = 1, mf_Waves = [w]\<rparr>"
  have run: "runDispatch (mem_sys G) d io sha uuid rngS rngD False path (Inr data) file s0 =
      (Inr (Some (mf, ids)), Some (manifest_encode mf), s')"
    using assms(3-7) c(1) slots
    by (auto simp: runDispatch_def guardExistingDispatch_def dispatch_Read_def createTasksAndManifest_def BuildManifest_def
        dispatch_Write_def mf_def w_def manifest_decode_encode split: prod.splits)
  moreover have "\<exists>t. record_at (mem_view s) (m_bucket m) (de_TaskID e) = None \<and>
      record_at (mem_view s') (m_bucket m) (de_TaskID e) = Some t \<and> t_Status t = StatusOpen \<and>
      map_get (t_Context t) ''slot'' = de_Slot e" if e: "e \<in> set (wv_Slots w)" for e
  proof -
    from e obtain j where j: "j < length ?es" "e = manifest_slot ids (slots ! j)" by (auto simp: w_def len set_conv_nth)
    then show ?thesis using new id [OF j(1)] assms(9) by (fastforce simp: fresh_ids_def manifest_slot_def Let_def map_get_def)
  qed
  moreover have "map de_Slot (wv_Slots w) = ?names" unfolding sl [symmetric] by (simp add: w_def manifest_slot_def Let_def)
  moreover have "distinct (map de_TaskID (wv_Slots w))" using assms(9) ids by (simp add: w_def fresh_ids_def)
  moreover have "record_at (mem_view s') (m_bucket m) i = record_at (mem_view s) (m_bucket m) i"
    if "record_at (mem_view s) (m_bucket m) i \<noteq> None" for i
  proof -
    have "i \<notin> set (map uuid [0..<length ?es])" using that assms(9) by (auto simp: fresh_ids_def)
    with old show ?thesis by blast
  qed
  ultimately show ?thesis using c(2) by (intro exI [of _ mf] exI [of _ ids] exI [of _ s'] exI [of _ w]) (simp add: mf_def w_def)
qed

text \<open>A bucket after the migration of an empty workspace.\<close>

definition migrated_mem :: mem where
  "migrated_mem = mem_write (mem_empty 7000000000 []) DefaultBucketName migrationMarkerKey KeyValuePut (encode (migration_marker 0))"

lemma marker_simps [simp]:
  "t_ID (migration_marker now) = migrationMarkerKey" "t_SchemaVersion (migration_marker now) = SchemaVersion"
  "t_LastEventSeq (migration_marker now) = 0" "wf_Task (migration_marker now)"
  by (simp_all add: migration_marker_def zero_Task_def wf_Task_def)

lemma migrated_record:
  "record_at (mem_view migrated_mem) DefaultBucketName k = (if k = migrationMarkerKey then Some (migration_marker 0) else None)"
proof -
  have "record_at (mem_view migrated_mem) DefaultBucketName migrationMarkerKey = Some (migration_marker 0)"
    unfolding migrated_mem_def by (rule record_at_write) simp_all
  moreover have "record_at (mem_view migrated_mem) DefaultBucketName k = None" if "k \<noteq> migrationMarkerKey"
    using that unfolding migrated_mem_def
    by (subst record_at_write_other) (simp_all add: record_at_def mem_view_def mem_empty_def)
  ultimately show ?thesis by simp
qed

lemma migrated_settled: "settled cli_manager migrated_mem"
proof -
  have "current cli_manager migrated_mem"
    using current_write [of cli_manager "mem_empty 7000000000 []" "migration_marker 0" migrationMarkerKey]
      settledD(2) [OF settled_empty] by (simp add: migrated_mem_def)
  moreover have "quiet migrated_mem" "mem_strm migrated_mem = []"
    by (simp_all add: quiet_def migrated_mem_def mem_write_def mem_empty_def mem_strm_def)
  ultimately show ?thesis by (simp add: settled_def in_step_def migrated_record)
qed

lemmas migrated_open = mem_openManager [OF migrated_settled]

lemma sample_slots:
  "vr_Slots (fst (runValidatePlan id id (Inr sample_plan))) =
     [\<lparr>se_Name = ''a'', se_Tasks = [''### Task 1 [slot: a]'']\<rparr>, \<lparr>se_Name = ''b'', se_Tasks = [''### Task 2 [slot: b]'']\<rparr>]"
  by code_simp

lemma sample_slot_fits: "fits G cli_manager (created_as (itoa (j + 1)) [c] now q)" if "j < 2"
proof -
  have "itoa (j + 1) = [digit_char (j + 1)]" using that by (simp add: itoa.simps)
  then show ?thesis
    by (simp add: encodeBounded_ok cli_manager_def cli_config_def created_as_def slot_task_def encode_def member_def member_omit_def
        zero_Task_def json_strings_def json_strmap_def go_int32_id)
qed

theorem dispatch_creates_slot_tasks_witness:
  "\<exists>mf ids s' w. runDispatch (mem_sys any_write) connected files_ok id (\<lambda>j. itoa (j + 1)) id id False ''p'' (Inr sample_plan) None migrated_mem =
      (Inr (Some (mf, ids)), Some (manifest_encode mf), s') \<and> mf_Waves mf = [w] \<and> map de_Slot (wv_Slots w) = [''a'', ''b'']"
proof -
  have n: "first_seen (map ti_slot (scan_plan (fst (scan_lines sample_plan)))) = [''a'', ''b'']" by code_simp
  have i: "map (\<lambda>j. itoa (j + 1)) [0..<2] = [''1'', ''2'']" by code_simp
  have f: "fresh_ids cli_manager migrated_mem (map (\<lambda>j. itoa (j + 1)) [0..<length (vr_Slots (fst (runValidatePlan id id (Inr sample_plan))))])"
  proof -
    have l: "length (vr_Slots (fst (runValidatePlan id id (Inr sample_plan)))) = 2" by (simp add: sample_slots)
    show ?thesis unfolding l i by (simp add: fresh_ids_def migrated_record migrationMarkerKey_def)
  qed
  have b: "\<forall>j < length (vr_Slots (fst (runValidatePlan id id (Inr sample_plan)))). \<forall>q. fits any_write cli_manager
      (created_as (itoa (j + 1)) (se_Name (vr_Slots (fst (runValidatePlan id id (Inr sample_plan))) ! j)) (mem_now migrated_mem) q)"
    using sample_slot_fits [of 0] sample_slot_fits [of 1] by (auto simp: sample_slots less_Suc_eq)
  show ?thesis
    using dispatch_creates_slot_tasks [OF _ _ sample_plan_accepted _ _ _ migrated_open migrated_settled f b, of None id files_ok "''p''"]
    unfolding n by (simp add: migrated_record) (elim exE conjE, intro exI conjI, assumption+)
qed

section \<open>Advance\<close>

text \<open>C37: Advancing a dispatch, undisturbed: while tasks of the current wave are not closed it reports exactly
  these and changes nothing; when they are all closed it moves to the least later wave and stores that, and
  when there is none it says that all waves are complete.\<close>

theorem advance_exact:
  assumes "openManager (mem_sys G) d s0 = (Inr m, s)" and "settled m s"
    and "io_read io = None" and "io_write io = None" and "file = Some (manifest_encode mf)"
    and "find (\<lambda>w. wv_Wave w = mf_CurrentWave mf) (mf_Waves mf) = Some w" and "0 \<le> mf_CurrentWave mf"
    and "\<forall>e \<in> set (wv_Slots w). de_TaskID e \<noteq> [] \<and> record_at (mem_view s) (m_bucket m) (de_TaskID e) \<noteq> None"
  shows "runAdvance (mem_sys G) d io file s0 =
    (let op = map de_TaskID (filter (\<lambda>e. \<not> (\<exists>t. record_at (mem_view s) (m_bucket m) (de_TaskID e) = Some t \<and>
                t_Status t = StatusClosed)) (wv_Slots w));
         following = {x \<in> wv_Wave ` set (mf_Waves mf). mf_CurrentWave mf < x};
         mf' = mf\<lparr>mf_CurrentWave := Min following\<rparr>
     in if op \<noteq> [] then (Inl (EDispatch (ErrWaveIncomplete op)), file, s)
        else if following = {} then (Inr None, file, s)
        else (Inr (Some mf'), Some (manifest_encode mf'), s))"
proof -
  let ?op = "map de_TaskID (filter (\<lambda>e. \<not> (\<exists>t. record_at (mem_view s) (m_bucket m) (de_TaskID e) = Some t \<and>
    t_Status t = StatusClosed)) (wv_Slots w))"
  let ?later = "{x \<in> wv_Wave ` set (mf_Waves mf). mf_CurrentWave mf < x}"
  have "open_tasks (task_closed (mem_sys G) m) (wv_Slots w) [] s = (Inr ?op, s)"
    using mem_open_tasks [OF settledD(1,2) [OF assms(2)] _ assms(8), of G "[]"] openManager_manager [OF assms(1)] by simp
  moreover have "dispatch_Read io file = Inr mf" using assms(3,5) by (simp add: dispatch_Read_def manifest_decode_encode)
  moreover note next_wave_Min [OF assms(7), of "mf_Waves mf"]
  ultimately show ?thesis
    using assms(1,4,6) by (simp add: runAdvance_def Advance_def Let_def dispatch_Write_def)
qed

section \<open>Cancel\<close>


text \<open>A cancel does not get past a task of the current wave that is closed already: it stops there with an
  invalid transition and leaves the manifest in place, with the tasks before it closed and those behind it open.\<close>

theorem cancel_stops_at_closed:
  assumes "openManager (mem_sys G) d s0 = (Inr m, s)" and "settled m s"
    and "io_read io = None" and "file = Some (manifest_encode mf)"
    and "concat (map wv_Slots (cancel_waves mf)) = es @ x # xs" and "distinct (map de_TaskID (es @ x # xs))"
    and "\<forall>e \<in> set es. cancelable G m s (de_TaskID e)"
    and "record_at (mem_view s) (m_bucket m) (de_TaskID x) = Some t" and "de_TaskID x \<noteq> []" and "t_Status t = StatusClosed"
    and "t_ClosedAt t \<noteq> Some (mem_now s)"
  shows "\<exists>s'. runCancel (mem_sys G) d io file s0 = (Inl (ETasks ErrInvalidTransition), file, s')"
proof -
  have m: "\<not> m_done m" "m_stream m" using openManager_manager [OF assms(1)] by simp_all
  obtain s' where "close_tasks (cancel_task (mem_sys G) m) (es @ x # xs) s = (Inl (ETasks ErrInvalidTransition), s')"
    using mem_close_tasks_stuck [OF assms(2) m assms(6-11)] by blast
  then show ?thesis
    using assms(1,3-5) by (simp add: runCancel_def Cancel_def dispatch_Read_def manifest_decode_encode)
qed

section \<open>Sample dispatches\<close>

text \<open>A workspace with one open and one closed task, and a manifest over both.\<close>

definition sample_open :: Task where
  "sample_open = created_as ''1'' ''a'' 0 1"

definition sample_done :: Task where
  "sample_done = (created_as ''2'' ''b'' 0 2)\<lparr>t_Status := StatusClosed, t_ClosedAt := Some 5\<rparr>"

definition dispatched_mem :: mem where
  "dispatched_mem =
     mem_write (mem_published
       (mem_write (mem_published migrated_mem EventTypeCreated ''1'' (PCreated sample_created)) DefaultBucketName ''1'' KeyValuePut (encode sample_open))
       EventTypeCreated ''2'' (PCreated sample_created)) DefaultBucketName ''2'' KeyValuePut (encode sample_done)"

definition sample_entry :: "string \<Rightarrow> SlotEntry" where
  "sample_entry i = zero_SlotEntry\<lparr>de_TaskID := i\<rparr>"

definition sample_manifest :: "string list \<Rightarrow> Manifest" where
  "sample_manifest ids = zero_Manifest\<lparr>mf_CurrentWave := 1,
     mf_Waves := [\<lparr>wv_Wave = 1, wv_BlockedUntilWave = 0, wv_Slots = map sample_entry ids\<rparr>,
       \<lparr>wv_Wave = 2, wv_BlockedUntilWave = 1, wv_Slots = []\<rparr>]\<rparr>"

lemma sample_done_simps [simp]:
  "t_ID sample_done = ''2''" "wf_Task sample_done" "t_SchemaVersion sample_done = SchemaVersion" "t_LastEventSeq sample_done = 2"
  "t_Status sample_done = StatusClosed" "t_ClosedAt sample_done = Some 5"
  by (simp_all add: sample_done_def created_as_def slot_task_def zero_Task_def wf_Task_def)

lemma dispatched_settled: "settled cli_manager dispatched_mem"
proof -
  have l: "length (mem_stream migrated_mem) = 0" by (simp add: migrated_mem_def mem_write_def mem_empty_def)
  let ?s1 = "mem_write (mem_published migrated_mem EventTypeCreated ''1'' (PCreated sample_created)) DefaultBucketName ''1'' KeyValuePut (encode sample_open)"
  have "settled cli_manager ?s1"
    using settled_commit [OF migrated_settled, of "''1''" sample_open EventTypeCreated "PCreated sample_created"] l
    by (simp add: sample_open_def migrationMarkerKey_def)
  from settled_commit [OF this, of "''2''" sample_done EventTypeCreated "PCreated sample_created"] l
  show ?thesis by (simp add: dispatched_mem_def migrationMarkerKey_def mem_write_def mem_published_def)
qed

lemma dispatched_records:
  "record_at (mem_view dispatched_mem) DefaultBucketName ''2'' = Some sample_done"
  "record_at (mem_view dispatched_mem) DefaultBucketName ''1'' = Some sample_open"
  "record_at (mem_view dispatched_mem) DefaultBucketName migrationMarkerKey = Some (migration_marker 0)"
  by (simp_all add: dispatched_mem_def record_at_write record_at_write_other migrated_record sample_open_def migrationMarkerKey_def)

lemma dispatched_now [simp]: "mem_now dispatched_mem = 7000000000"
  by (simp add: dispatched_mem_def migrated_mem_def mem_write_def mem_published_def mem_empty_def)

lemma dispatched_open: "openManager (mem_sys G) connected dispatched_mem = (Inr cli_manager, dispatched_mem)"
  by (rule mem_openManager [OF dispatched_settled]) (simp add: dispatched_records)

theorem advance_exact_witness:
  "\<exists>s0. runAdvance (mem_sys any_write) connected files_ok (Some (manifest_encode (sample_manifest [''2'', ''1'']))) s0 =
      (Inl (EDispatch (ErrWaveIncomplete [''1''])), Some (manifest_encode (sample_manifest [''2'', ''1''])), s0) \<and>
    (\<exists>mf. fst (runAdvance (mem_sys any_write) connected files_ok (Some (manifest_encode (sample_manifest [''2'']))) s0) = Inr (Some mf) \<and>
      mf_CurrentWave mf = 2)"
proof (intro exI [of _ dispatched_mem] conjI)
  let ?w = "\<lambda>ids. \<lparr>wv_Wave = 1, wv_BlockedUntilWave = 0, wv_Slots = map sample_entry ids\<rparr>"
  have f: "find (\<lambda>w. wv_Wave w = mf_CurrentWave (sample_manifest ids)) (mf_Waves (sample_manifest ids)) = Some (?w ids)"
    "0 \<le> mf_CurrentWave (sample_manifest ids)" for ids by (simp_all add: sample_manifest_def)
  have e: "\<forall>e \<in> set (wv_Slots (?w [''2'', ''1''])). de_TaskID e \<noteq> [] \<and> record_at (mem_view dispatched_mem) (m_bucket cli_manager) (de_TaskID e) \<noteq> None"
    "\<forall>e \<in> set (wv_Slots (?w [''2''])). de_TaskID e \<noteq> [] \<and> record_at (mem_view dispatched_mem) (m_bucket cli_manager) (de_TaskID e) \<noteq> None"
    by (simp_all add: sample_entry_def dispatched_records)
  have l: "{x \<in> wv_Wave ` set (mf_Waves (sample_manifest ids)). mf_CurrentWave (sample_manifest ids) < x} = {2}" for ids
    by (auto simp: sample_manifest_def)
  show "runAdvance (mem_sys any_write) connected files_ok (Some (manifest_encode (sample_manifest [''2'', ''1'']))) dispatched_mem =
      (Inl (EDispatch (ErrWaveIncomplete [''1''])), Some (manifest_encode (sample_manifest [''2'', ''1''])), dispatched_mem)"
    using advance_exact [OF dispatched_open dispatched_settled _ _ refl f e(1), of files_ok any_write]
    by (simp add: sample_entry_def dispatched_records Let_def) (simp add: sample_open_def)
  show "\<exists>mf. fst (runAdvance (mem_sys any_write) connected files_ok (Some (manifest_encode (sample_manifest [''2'']))) dispatched_mem) =
      Inr (Some mf) \<and> mf_CurrentWave mf = 2"
    using advance_exact [OF dispatched_open dispatched_settled _ _ refl f e(2), of files_ok any_write] l
    by (simp add: sample_entry_def dispatched_records Let_def)
qed

lemma sample_open_cancelable: "cancelable any_write cli_manager dispatched_mem ''1''"
  by (simp add: cancelable_def dispatched_records migrationMarkerKey_def)
    (simp add: sample_open_def encodeBounded_ok cli_manager_def cli_config_def canceled_at_def created_as_def slot_task_def
      encode_def member_def member_omit_def zero_Task_def json_strings_def json_strmap_def go_int32_id)

lemma sample_cancel_slots: "concat (map wv_Slots (cancel_waves (sample_manifest ids))) = map sample_entry ids"
  by (simp add: cancel_waves_def sample_manifest_def)


theorem cancel_stops_at_closed_witness:
  "\<exists>s0 s'. runCancel (mem_sys any_write) connected files_ok (Some (manifest_encode (sample_manifest [''1'', ''2'']))) s0 =
    (Inl (ETasks ErrInvalidTransition), Some (manifest_encode (sample_manifest [''1'', ''2''])), s')"
  using cancel_stops_at_closed [OF dispatched_open dispatched_settled, of files_ok _ "sample_manifest [''1'', ''2'']"
      "[sample_entry ''1'']" "sample_entry ''2''" "[]" any_write sample_done]
    sample_cancel_slots [of "[''1'', ''2'']"] sample_open_cancelable
  by (simp add: sample_entry_def dispatched_records) blast

end
