(* ===== verification/Watch.thy ===== *)
theory Watch
  imports Task_Store Holds Presence
begin

text \<open>
  The subscriptions of the managers: \<^verbatim>\<open>internal/tasks/subscribe.go\<close> and \<^verbatim>\<open>internal/holds/subscribe.go\<close>. A
  forwarding loop is a function from the updates its watcher has delivered (\<open>None\<close> the marker that ends
  the initial snapshot) to the events it has sent; a cancelled context stops it after some prefix. The
  lemmas show that a subscriber who applies the events holds the records the updates describe, and
  that the kinds of the events are consistent.
\<close>

section \<open>internal/tasks/subscribe.go\<close>

datatype task_EventKind = EventCreated | EventUpdated | EventDeleted

definition task_EventKind_String :: "task_EventKind \<Rightarrow> string" where
  "task_EventKind_String k =
     (case k of EventCreated \<Rightarrow> ''Created'' | EventUpdated \<Rightarrow> ''Updated'' | EventDeleted \<Rightarrow> ''Deleted'')"

record task_Event =
  te_ID :: string
  te_Kind :: task_EventKind
  te_Task :: Task

type_synonym kv_update = "(string \<times> kv_entry) option"

definition tasks_translate :: "string \<Rightarrow> kv_entry \<Rightarrow> string set \<Rightarrow> task_Event option \<times> string set" where
  "tasks_translate key entry seen =
     (case e_Operation entry of
        KeyValuePut \<Rightarrow>
          (case decode (e_Value entry) of
             None \<Rightarrow> (None, seen)
           | Some t0 \<Rightarrow>
               let t = fst (migrateDecodedTask t0) in
               if key \<in> seen then (Some \<lparr>te_ID = key, te_Kind = EventUpdated, te_Task = t\<rparr>, seen)
               else (Some \<lparr>te_ID = key, te_Kind = EventCreated, te_Task = t\<rparr>, insert key seen))
      | _ \<Rightarrow> (Some \<lparr>te_ID = key, te_Kind = EventDeleted, te_Task = zero_Task\<rparr>, seen - {key}))"

fun tasks_forward :: "string set \<Rightarrow> kv_update list \<Rightarrow> task_Event list" where
  "tasks_forward seen [] = []"
| "tasks_forward seen (None # us) = tasks_forward seen us"
| "tasks_forward seen (Some (key, entry) # us) =
     (case tasks_translate key entry seen of
        (None, seen') \<Rightarrow> tasks_forward seen' us
      | (Some ev, seen') \<Rightarrow> ev # tasks_forward seen' us)"

section \<open>internal/holds/subscribe.go\<close>

fun holds_forward :: "kv_update list \<Rightarrow> hold_Event list" where
  "holds_forward [] = []"
| "holds_forward (None # us) = holds_forward us"
| "holds_forward (Some (key, entry) # us) =
     (case holds_translate key entry of
        None \<Rightarrow> holds_forward us
      | Some ev \<Rightarrow> ev # holds_forward us)"

section \<open>A subscriber's copy\<close>

definition apply_update :: "(string \<rightharpoonup> Task) \<Rightarrow> kv_update \<Rightarrow> (string \<rightharpoonup> Task)" where
  "apply_update c u =
     (case u of
        None \<Rightarrow> c
      | Some (key, entry) \<Rightarrow>
          if e_Operation entry = KeyValuePut
          then (case decode (e_Value entry) of
                  None \<Rightarrow> c | Some t \<Rightarrow> c(key \<mapsto> fst (migrateDecodedTask t)))
          else c(key := None))"

definition apply_event :: "(string \<rightharpoonup> Task) \<Rightarrow> task_Event \<Rightarrow> (string \<rightharpoonup> Task)" where
  "apply_event c ev = c(te_ID ev := (if te_Kind ev = EventDeleted then None else Some (te_Task ev)))"

fun consistent :: "string set \<Rightarrow> task_Event list \<Rightarrow> bool" where
  "consistent known [] = True"
| "consistent known (ev # evs) =
     (case te_Kind ev of
        EventCreated \<Rightarrow> te_ID ev \<notin> known \<and> consistent (insert (te_ID ev) known) evs
      | EventUpdated \<Rightarrow> te_ID ev \<in> known \<and> consistent known evs
      | EventDeleted \<Rightarrow> consistent (known - {te_ID ev}) evs)"

lemma translate_copy:
  "apply_update c (Some (key, entry)) =
   (case fst (tasks_translate key entry seen) of None \<Rightarrow> c | Some ev \<Rightarrow> apply_event c ev)"
  by (cases "e_Operation entry")
    (auto simp: tasks_translate_def apply_update_def apply_event_def Let_def split: option.splits)

lemma forward_copy: "foldl apply_event c (tasks_forward seen us) = foldl apply_update c us"
proof (induction seen us arbitrary: c rule: tasks_forward.induct)
  case (2 seen us)
  then show ?case by (simp add: apply_update_def)
next
  case (3 seen key entry us)
  then show ?case
    by (cases "tasks_translate key entry seen") (auto simp: translate_copy [of _ key entry seen] split: option.splits)
qed simp

lemma forward_consistent: "consistent seen (tasks_forward seen us)"
proof (induction seen us rule: tasks_forward.induct)
  case (3 seen key entry us)
  then show ?case
    by (cases "e_Operation entry") (auto simp: tasks_translate_def Let_def insert_absorb split: option.splits)
qed simp_all

text \<open>The updates of a bucket, in the order of the writes, carry a copy from one state to a later one.\<close>

fun log_updates :: "kv_log \<Rightarrow> string \<Rightarrow> kv_update list" where
  "log_updates [] b = []"
| "log_updates (((b', k), oper, j) # l) b =
     log_updates l b @
     (if b' = b then [Some (k, \<lparr>e_Value = j, e_Revision = Suc (length l), e_Operation = oper\<rparr>)] else [])"

lemma log_updates_copy:
  assumes "\<forall>((b', k), oper, j) \<in> set l. oper = KeyValuePut \<longrightarrow> b' = b \<longrightarrow> decode j \<noteq> None"
  shows "foldl apply_update Map.empty (log_updates l b) k = record_at (\<lambda>b k. log_view l (b, k)) b k"
  using assms
proof (induction l b rule: log_updates.induct)
  case (2 b' k' oper j l b)
  then show ?case by (auto simp: apply_update_def record_at_def split: option.splits)
qed (simp add: record_at_def)

section \<open>Properties\<close>



text \<open>The kinds of a watcher's events are consistent, whatever the updates: a task is reported as created
  exactly when the subscriber does not know it, as updated exactly when it does, and as unknown again after
  a deletion.\<close>

theorem watch_kinds_consistent: "consistent {} (tasks_forward {} us)"
  by (rule forward_consistent)

end
