(* ===== verification/Coord_Chat.thy ===== *)
theory Coord_Chat
  imports Leaf
begin

text \<open>
  What an agent does on the chat: \<^verbatim>\<open>Post\<close> and \<^verbatim>\<open>PostMedia\<close>, the subscription with its bounded channel
  (\<^verbatim>\<open>subscribe.go\<close>, \<^verbatim>\<open>events.go\<close>, \<^verbatim>\<open>media.go\<close>), the list of present agents (\<^verbatim>\<open>presence.go\<close>) and the snapshot
  \<^verbatim>\<open>Prime\<close>. The relay goroutine and its reader are a queue with two kinds of steps; the slots of concurrent
  subscribers are a transition system over the atomic counter.
\<close>

section \<open>Posting\<close>

text \<open>\<open>chat_env\<close> are the arguments the chat operations share: the hash, the random source, the state of the
  context, and for the scan the count of the stream, whether the context ends and the order of map visits.\<close>

record 's chat_env =
  cv_sha :: "string \<Rightarrow> string"
  cv_rnd :: "'s \<Rightarrow> 8 word list"
  cv_ctxErr :: "err option"
  cv_info :: "'s \<Rightarrow> kv_err + nat"
  cv_cancelled :: bool
  cv_range :: "groups \<Rightarrow> groups"

definition sendChat :: "'s sys \<Rightarrow> 's chat_env \<Rightarrow> string \<Rightarrow> string \<Rightarrow> Coord \<Rightarrow> 's \<Rightarrow> (err + unit) \<times> 's" where
  "sendChat js cv thread body c s = chat_Send js (cv_sha cv) (cv_rnd cv) (cv_ctxErr cv) (c_chat c) thread body s"

definition Post :: "'s sys \<Rightarrow> 's chat_env \<Rightarrow> string \<Rightarrow> string \<Rightarrow> Coord \<Rightarrow> 's \<Rightarrow> (err + unit) \<times> 's" where
  "Post js cv thread msg c s =
     (if c_closed c then (Inl (EPanic ''coord.Post: coord is closed''), s)
      else if thread = [] then (Inl (EPanic ''coord.Post: thread is empty''), s)
      else chat_Send js (cv_sha cv) (cv_rnd cv) (cv_ctxErr cv) (c_chat c) thread msg s)"

text \<open>A media post: the text of the reference is made by \<open>render\<close> (\<^verbatim>\<open>json.Marshal\<close>) and read by \<open>parse\<close>.\<close>

definition mediaBodyPrefix :: string where
  "mediaBodyPrefix = ''MEDIA:''"

record mediaEnvelope =
  me_Rev :: string
  me_Path :: string
  me_MIMEType :: string
  me_Size :: int

definition media_encode :: "mediaEnvelope \<Rightarrow> json" where
  "media_encode m = JObj
     (member ''rev'' (JStr (me_Rev m)) @ member ''path'' (JStr (me_Path m)) @
      member ''mime_type'' (JStr (me_MIMEType m)) @ member ''size'' (JNum (me_Size m)))"

definition media_field :: "string \<Rightarrow> json \<Rightarrow> mediaEnvelope \<Rightarrow> mediaEnvelope option" where
  "media_field k j m =
     (if k = ''rev'' then map_option (\<lambda>x. m\<lparr>me_Rev := x\<rparr>) (into_string (me_Rev m) j)
      else if k = ''path'' then map_option (\<lambda>x. m\<lparr>me_Path := x\<rparr>) (into_string (me_Path m) j)
      else if k = ''mime_type'' then map_option (\<lambda>x. m\<lparr>me_MIMEType := x\<rparr>) (into_string (me_MIMEType m) j)
      else if k = ''size'' then map_option (\<lambda>x. m\<lparr>me_Size := x\<rparr>) (into_int (me_Size m) j)
      else Some m)"

definition mediaBody :: "(json \<Rightarrow> string) \<Rightarrow> string \<Rightarrow> string \<Rightarrow> string \<Rightarrow> int \<Rightarrow> string" where
  "mediaBody render rv path mimeType sz =
     mediaBodyPrefix @ render (media_encode \<lparr>me_Rev = rv, me_Path = path, me_MIMEType = mimeType, me_Size = sz\<rparr>)"

definition mediaArtifactPath :: "string \<Rightarrow> time_ns \<Rightarrow> string" where
  "mediaArtifactPath slotID now = ''media/'' @ slotID @ ''/'' @ signed_itoa now @ ''.bin''"

definition PostMedia ::
  "'s sys \<Rightarrow> 's chat_env \<Rightarrow> 's agent_sys \<Rightarrow> (json \<Rightarrow> string) \<Rightarrow> string \<Rightarrow> string \<Rightarrow> string \<Rightarrow> Leaf \<Rightarrow> 's \<Rightarrow> (err + unit) \<times> 's" where
  "PostMedia js cv ag render thread mimeType data l s =
     (if thread = [] then (Inl (EPanic ''coord.Leaf.PostMedia: thread is empty''), s)
      else if mimeType = [] then (Inl (EPanic ''coord.Leaf.PostMedia: mimeType is empty''), s)
      else if data = [] then (Inl (EPanic ''coord.Leaf.PostMedia: data is empty''), s)
      else let path = mediaArtifactPath (lf_slotID l) (js_Now js s) in
           case ag_Commit ag s
                  \<lparr>co_Files = [\<lparr>ftc_Name = normalizeLeadingSlash path, ftc_Content = data\<rparr>],
                   co_Message = ''post media to '' @ thread @ '' ('' @ mimeType @ '')'', co_Author = lf_slotID l, co_Tags = []\<rparr> of
             (Inl e, s1) \<Rightarrow> (Inl e, s1)
           | (Inr uuid, s1) \<Rightarrow>
               sendChat js cv thread (mediaBody render uuid path mimeType (int (length data))) (lf_coord l) (ag_SyncNow ag s1))"

section \<open>Events\<close>

record MediaMessage =
  mm_from :: string
  mm_thread :: string
  mm_rev :: string
  mm_path :: string
  mm_mimeType :: string
  mm_size :: int
  mm_timestamp :: time_ns

record ChatMessage =
  cm_from :: string
  cm_thread :: string
  cm_messageID :: string
  cm_body :: string
  cm_timestamp :: time_ns
  cm_replyTo :: string

datatype chat_event = EvMedia MediaMessage | EvChat ChatMessage

definition mediaFromEnvelope :: "(string \<Rightarrow> json) \<Rightarrow> Envelope \<Rightarrow> MediaMessage option" where
  "mediaFromEnvelope parse env =
     (if \<not> has_prefix (en_Body env) mediaBodyPrefix then None
      else case into_struct media_field \<lparr>me_Rev = [], me_Path = [], me_MIMEType = [], me_Size = 0\<rparr>
                  (parse (drop (length mediaBodyPrefix) (en_Body env))) of
             None \<Rightarrow> None
           | Some ev \<Rightarrow>
               if me_Rev ev = [] \<or> me_Path ev = [] \<or> me_MIMEType ev = [] \<or> me_Size ev \<le> 0 then None
               else Some \<lparr>mm_from = en_From env, mm_thread = en_Thread env, mm_rev = me_Rev ev, mm_path = me_Path ev,
                          mm_mimeType = me_MIMEType ev, mm_size = me_Size ev, mm_timestamp = en_Timestamp env\<rparr>)"

definition eventFromEnvelope :: "(string \<Rightarrow> json) \<Rightarrow> Envelope \<Rightarrow> chat_event" where
  "eventFromEnvelope parse env =
     (case mediaFromEnvelope parse env of
        Some m \<Rightarrow> EvMedia m
      | None \<Rightarrow>
          EvChat \<lparr>cm_from = en_From env, cm_thread = en_Thread env, cm_messageID = en_ID env, cm_body = en_Body env,
                  cm_timestamp = en_Timestamp env, cm_replyTo = en_ReplyTo env\<rparr>)"

section \<open>Subscriptions\<close>

text \<open>The subject a subscription reads, by its pattern.\<close>

definition watchChat :: "(string \<Rightarrow> string) \<Rightarrow> ChatManager \<Rightarrow> string \<Rightarrow> err + string" where
  "watchChat sha m pattern = (if pattern = [] then Inr (watch_all_subject m) else watch_subject sha m pattern)"

definition relay_capacity :: nat where
  "relay_capacity = 16"

text \<open>
  The relay of one subscription: an envelope comes in and is put on the channel unless that is full
  (\<open>Arrive\<close>), or the reader takes the oldest event (\<open>Take\<close>). The state is the channel and what the reader has got.
\<close>

datatype relay_step = Arrive Envelope | Take

record relay =
  rl_queue :: "chat_event list"
  rl_got :: "chat_event list"

definition relay_one :: "(string \<Rightarrow> json) \<Rightarrow> relay \<Rightarrow> relay_step \<Rightarrow> relay" where
  "relay_one parse r st =
     (case st of
        Arrive env \<Rightarrow>
          if length (rl_queue r) < relay_capacity then r\<lparr>rl_queue := rl_queue r @ [eventFromEnvelope parse env]\<rparr> else r
      | Take \<Rightarrow>
          (case rl_queue r of [] \<Rightarrow> r | ev # evs \<Rightarrow> r\<lparr>rl_queue := evs, rl_got := rl_got r @ [ev]\<rparr>))"

definition relay_init :: relay where
  "relay_init = \<lparr>rl_queue = [], rl_got = []\<rparr>"

definition relaySubscribe :: "(string \<Rightarrow> json) \<Rightarrow> relay_step list \<Rightarrow> relay" where
  "relaySubscribe parse sts = foldl (relay_one parse) relay_init sts"

text \<open>
  The subscriber slots of a handle. A call to \<^verbatim>\<open>Subscribe\<close> first adds one to the counter and learns its new
  value (\<open>Reserved\<close>); with a value above the limit it takes its one back and fails, otherwise the subscription
  is live until its closure, run once, gives the slot back. The counter stays between 0 and the number of
  calls under way, so its 32 bits do not overflow.
\<close>

datatype sub_phase = Idle | Reserved int | Subscribed

record sub_state =
  su_active :: int
  su_phase :: "nat \<Rightarrow> sub_phase"

inductive sub_step :: "int \<Rightarrow> sub_state \<Rightarrow> sub_state \<Rightarrow> bool" for mx :: int where
  reserve: "su_phase s p = Idle \<Longrightarrow>
     sub_step mx s \<lparr>su_active = su_active s + 1, su_phase = (su_phase s)(p := Reserved (su_active s + 1))\<rparr>"
| refuse: "su_phase s p = Reserved n \<Longrightarrow> n > mx \<Longrightarrow>
     sub_step mx s \<lparr>su_active = su_active s - 1, su_phase = (su_phase s)(p := Idle)\<rparr>"
| admit: "su_phase s p = Reserved n \<Longrightarrow> \<not> n > mx \<Longrightarrow> sub_step mx s (s\<lparr>su_phase := (su_phase s)(p := Subscribed)\<rparr>)"
| unsubscribe: "su_phase s p = Subscribed \<Longrightarrow>
     sub_step mx s \<lparr>su_active = su_active s - 1, su_phase = (su_phase s)(p := Idle)\<rparr>"

inductive_cases sub_stepE: "sub_step mx s s'"

definition sub_init :: sub_state where
  "sub_init = \<lparr>su_active = 0, su_phase = (\<lambda>_. Idle)\<rparr>"

section \<open>Who is there, and the snapshot\<close>

record coord_Presence =
  cp_agentID :: string
  cp_project :: string
  cp_startedAt :: time_ns
  cp_lastSeen :: time_ns

definition presenceFromEntry :: "PresenceEntry \<Rightarrow> coord_Presence" where
  "presenceFromEntry e =
     \<lparr>cp_agentID = pe_AgentID e, cp_project = pe_Project e, cp_startedAt = pe_StartedAt e, cp_lastSeen = pe_LastSeen e\<rparr>"

definition coord_Who :: "'s sys \<Rightarrow> Coord \<Rightarrow> 's \<Rightarrow> (err + coord_Presence list) \<times> 's" where
  "coord_Who js c s =
     (if c_closed c then (Inl (EPanic ''coord.Who: coord is closed''), s)
      else case presence_Who js (c_presence c) s of
             (Inl e, s') \<Rightarrow> (Inl e, s')
           | (Inr entries, s') \<Rightarrow> (Inr (map presenceFromEntry entries), s'))"

definition PresentAgentIDs :: "'s sys \<Rightarrow> Coord \<Rightarrow> 's \<Rightarrow> (err + string list) \<times> 's" where
  "PresentAgentIDs js c s =
     (case coord_Who js c s of
        (Inl e, s') \<Rightarrow> (Inl e, s')
      | (Inr entries, s') \<Rightarrow> (Inr (map cp_agentID entries), s'))"

record PrimeResult =
  pr_OpenTasks :: "coord_Task list"
  pr_ReadyTasks :: "coord_Task list"
  pr_ClaimedTasks :: "coord_Task list"
  pr_Threads :: "ThreadSummary list"
  pr_Peers :: "coord_Presence list"

text \<open>\<open>None\<close>: the scan of the chat never returns. The partial result the code returns beside an error is dropped
  by its callers and left out.\<close>

definition Prime :: "'s sys \<Rightarrow> 's chat_env \<Rightarrow> Coord \<Rightarrow> 's \<Rightarrow> (err + PrimeResult) option \<times> 's" where
  "Prime js cv c s =
     (if c_closed c then (Some (Inl (EPanic ''coord.Prime: coord is closed'')), s)
      else case tasks_List js (c_tasks c) s of
             (Inl e, s1) \<Rightarrow> (Some (Inl e), s1)
           | (Inr records, s1) \<Rightarrow>
               (case coord_Ready js (c_tasks c) (tc_MaxReadyReturn (c_Tuning c)) s1 of
                  (Inl e, s2) \<Rightarrow> (Some (Inl e), s2)
                | (Inr ready, s2) \<Rightarrow>
                    (case ThreadsForAgent js (cv_info cv) (cv_cancelled cv) (cv_range cv) (c_chat c) (c_AgentID c) 20 s2 of
                       (None, s3) \<Rightarrow> (None, s3)
                     | (Some (Inl e), s3) \<Rightarrow> (Some (Inl e), s3)
                     | (Some (Inr threads), s3) \<Rightarrow>
                         (case coord_Who js c s3 of
                            (Inl e, s4) \<Rightarrow> (Some (Inl e), s4)
                          | (Inr peers, s4) \<Rightarrow>
                              (Some (Inr \<lparr>pr_OpenTasks = filterByStatus records StatusOpen, pr_ReadyTasks = ready,
                                          pr_ClaimedTasks = filterByClaimedBy records (c_AgentID c),
                                          pr_Threads = threads, pr_Peers = peers\<rparr>), s4)))))"

section \<open>Lemmas: events\<close>

lemma media_decode_encode:
  "into_struct media_field \<lparr>me_Rev = [], me_Path = [], me_MIMEType = [], me_Size = 0\<rparr> (media_encode m) = Some m"
  by (simp add: media_encode_def media_field_def into_fields_simps)

lemma mediaFromEnvelope_body:
  assumes "\<And>j. parse (render j) = j" and "en_Body env = mediaBody render rv path mt sz"
  shows "mediaFromEnvelope parse env =
    (if rv \<noteq> [] \<and> path \<noteq> [] \<and> mt \<noteq> [] \<and> sz > 0
     then Some \<lparr>mm_from = en_From env, mm_thread = en_Thread env, mm_rev = rv, mm_path = path, mm_mimeType = mt, mm_size = sz,
                mm_timestamp = en_Timestamp env\<rparr>
     else None)"
  using assms by (simp add: mediaFromEnvelope_def mediaBody_def has_prefix_def media_decode_encode)

lemma plain_body_event:
  "\<not> has_prefix (en_Body env) mediaBodyPrefix \<Longrightarrow>
   eventFromEnvelope parse env =
     EvChat \<lparr>cm_from = en_From env, cm_thread = en_Thread env, cm_messageID = en_ID env, cm_body = en_Body env,
             cm_timestamp = en_Timestamp env, cm_replyTo = en_ReplyTo env\<rparr>"
  by (simp add: eventFromEnvelope_def mediaFromEnvelope_def)

section \<open>Lemmas: the relay\<close>

fun arrivals :: "relay_step list \<Rightarrow> Envelope list" where
  "arrivals [] = []"
| "arrivals (Arrive env # sts) = env # arrivals sts"
| "arrivals (Take # sts) = arrivals sts"

text \<open>What the subscription has delivered or still holds, in order.\<close>

definition relayed :: "relay \<Rightarrow> chat_event list" where
  "relayed r = rl_got r @ rl_queue r"

lemma relay_take_keeps [simp]: "relayed (relay_one parse r Take) = relayed r"
  by (simp add: relay_one_def relayed_def split: list.splits)

lemma relay_arrive:
  "relayed (relay_one parse r (Arrive env)) =
   relayed r @ (if length (rl_queue r) < relay_capacity then [eventFromEnvelope parse env] else [])"
  by (simp add: relay_one_def relayed_def)

lemma arrivals_append [simp]: "arrivals (xs @ ys) = arrivals xs @ arrivals ys"
  by (induction xs rule: arrivals.induct) auto

lemma relay_subsequence:
  "subseq (relayed (foldl (relay_one parse) r sts)) (relayed r @ map (eventFromEnvelope parse) (arrivals sts))"
proof (induction sts rule: rev_induct)
  case (snoc st sts)
  show ?case
  proof (cases st)
    case (Arrive env)
    have "subseq (if length (rl_queue (foldl (relay_one parse) r sts)) < relay_capacity then [eventFromEnvelope parse env] else [])
        [eventFromEnvelope parse env]" by simp
    from list_emb_append_mono [OF snoc this] Arrive show ?thesis by (simp add: relay_arrive)
  next
    case Take
    with snoc show ?thesis by simp
  qed
qed simp

lemma relay_bounded:
  "length (rl_queue r) \<le> relay_capacity \<Longrightarrow> length (rl_queue (foldl (relay_one parse) r sts)) \<le> relay_capacity"
  by (induction sts arbitrary: r) (auto simp: relay_one_def split: relay_step.splits list.splits)

lemma relay_burst:
  "length (rl_queue r) + length (arrivals sts) \<le> relay_capacity \<Longrightarrow>
   relayed (foldl (relay_one parse) r sts) = relayed r @ map (eventFromEnvelope parse) (arrivals sts)"
proof (induction sts arbitrary: r)
  case (Cons st sts)
  then show ?case
  proof (cases st)
    case (Arrive env)
    with Cons.prems have room: "length (rl_queue r) < relay_capacity" by simp
    then have "length (rl_queue (relay_one parse r st)) = Suc (length (rl_queue r))"
      using Arrive by (simp add: relay_one_def)
    with Cons.prems Cons.IH [of "relay_one parse r st"] Arrive room show ?thesis
      by (simp add: relay_arrive)
  next
    case Take
    then have "length (rl_queue (relay_one parse r st)) \<le> length (rl_queue r)"
      by (simp add: relay_one_def split: list.splits)
    with Cons.prems Cons.IH [of "relay_one parse r st"] Take show ?thesis by simp
  qed
qed simp

section \<open>Lemmas: subscriber slots\<close>

text \<open>The calls under way, and those of them that hold one of the \<open>mx\<close> places.\<close>

definition sub_busy :: "sub_state \<Rightarrow> nat set" where
  "sub_busy s = {p. su_phase s p \<noteq> Idle}"

fun admissible :: "int \<Rightarrow> sub_phase \<Rightarrow> bool" where
  "admissible mx Idle = False"
| "admissible mx (Reserved n) = (n \<le> mx)"
| "admissible mx Subscribed = True"

definition sub_admitted :: "int \<Rightarrow> sub_state \<Rightarrow> nat set" where
  "sub_admitted mx s = {p. admissible mx (su_phase s p)}"

definition sub_ok :: "int \<Rightarrow> sub_state \<Rightarrow> bool" where
  "sub_ok mx s \<longleftrightarrow> finite (sub_busy s) \<and> su_active s = int (card (sub_busy s)) \<and> int (card (sub_admitted mx s)) \<le> mx"

lemma admitted_busy: "sub_admitted mx s \<subseteq> sub_busy s"
  by (auto simp: sub_admitted_def sub_busy_def)

lemma card_without: "finite A \<Longrightarrow> p \<in> A \<Longrightarrow> int (card (A - {p})) = int (card A) - 1"
  using card_Suc_Diff1 [of A p] by simp

lemma sub_step_ok:
  assumes "sub_step mx s s'" and "sub_ok mx s"
  shows "sub_ok mx s'"
  using assms(1)
proof cases
  case (reserve p)
  have b: "sub_busy s' = insert p (sub_busy s)" and np: "p \<notin> sub_busy s"
    using reserve by (auto simp: sub_busy_def)
  then have c: "finite (sub_busy s')" "su_active s' = int (card (sub_busy s'))"
    using assms(2) reserve by (simp_all add: sub_ok_def)
  have "int (card (sub_admitted mx s')) \<le> mx"
  proof (cases "su_active s + 1 \<le> mx")
    case True
    moreover have "int (card (sub_admitted mx s')) \<le> su_active s'"
      using c card_mono [OF c(1) admitted_busy [of mx s']] by simp
    ultimately show ?thesis using reserve by simp
  next
    case False
    then have "sub_admitted mx s' = sub_admitted mx s"
      using reserve by (auto simp: sub_admitted_def)
    with assms(2) show ?thesis by (simp add: sub_ok_def)
  qed
  with c show ?thesis by (simp add: sub_ok_def)
next
  case (refuse p n)
  have b: "sub_busy s' = sub_busy s - {p}" and ip: "p \<in> sub_busy s"
    using refuse by (auto simp: sub_busy_def)
  have "sub_admitted mx s' = sub_admitted mx s"
    using refuse by (auto simp: sub_admitted_def)
  moreover have "int (card (sub_busy s')) = su_active s'" "finite (sub_busy s')"
    using card_without [of "sub_busy s" p] assms(2) refuse ip unfolding b by (simp_all add: sub_ok_def del: card_Diff_insert)
  ultimately show ?thesis using assms(2) by (simp add: sub_ok_def)
next
  case (admit p n)
  have "sub_busy s' = sub_busy s" "sub_admitted mx s' = sub_admitted mx s"
    using admit by (auto simp: sub_busy_def sub_admitted_def)
  with assms(2) admit show ?thesis by (simp add: sub_ok_def)
next
  case (unsubscribe p)
  have b: "sub_busy s' = sub_busy s - {p}" and ip: "p \<in> sub_busy s"
    using unsubscribe by (auto simp: sub_busy_def)
  have "sub_admitted mx s' = sub_admitted mx s - {p}"
    using unsubscribe by (auto simp: sub_admitted_def)
  then have "int (card (sub_admitted mx s')) \<le> int (card (sub_admitted mx s))"
    using card_Diff1_le [of "sub_admitted mx s" p] by simp
  moreover have "int (card (sub_busy s')) = su_active s'" "finite (sub_busy s')"
    using card_without [of "sub_busy s" p] assms(2) unsubscribe ip unfolding b by (simp_all add: sub_ok_def del: card_Diff_insert)
  ultimately show ?thesis using assms(2) by (simp add: sub_ok_def)
qed

lemma sub_run_ok:
  assumes "(sub_step mx)\<^sup>*\<^sup>* sub_init s" and "0 \<le> mx"
  shows "sub_ok mx s"
  using assms(1)
proof induction
  case base
  show ?case using assms(2) by (simp add: sub_ok_def sub_init_def sub_busy_def sub_admitted_def)
next
  case (step s s')
  then show ?case by (blast intro: sub_step_ok)
qed

section \<open>Undisturbed reads\<close>

text \<open>A bucket that holds current records under their identifiers, and the records in the order \<^verbatim>\<open>List\<close> reads them.\<close>

definition current_bucket :: "Manager \<Rightarrow> mem \<Rightarrow> bool" where
  "current_bucket m s \<longleftrightarrow>
     (\<forall>k e. mem_view s (m_bucket m) k = Some e \<longrightarrow> e_Operation e = KeyValuePut \<longrightarrow>
        (\<exists>t. decode (e_Value e) = Some t \<and> t_SchemaVersion t \<ge> SchemaVersion \<and> t_ID t = k))"

definition mem_task_keys :: "Manager \<Rightarrow> mem \<Rightarrow> string list" where
  "mem_task_keys m s =
     filter (\<lambda>k. live (mem_view s (m_bucket m) k)) (remdups (map (snd \<circ> fst) (mem_log s)))"

definition mem_tasks :: "Manager \<Rightarrow> mem \<Rightarrow> Task list" where
  "mem_tasks m s =
     map (\<lambda>k. the (record_at (mem_view s) (m_bucket m) k)) (filter (\<lambda>k. k \<noteq> migrationMarkerKey) (mem_task_keys m s))"

lemma current_live:
  assumes "current_bucket m s" and "live (mem_view s (m_bucket m) k)"
  obtains e t where "mem_view s (m_bucket m) k = Some e" and "e_Operation e = KeyValuePut" and "decode (e_Value e) = Some t"
    and "t_SchemaVersion t \<ge> SchemaVersion" and "t_ID t = k" and "record_at (mem_view s) (m_bucket m) k = Some t"
  using assms by (fastforce simp: live_def current_bucket_def record_at_def migrateDecodedTask_def split: option.splits)

lemma mem_list_keys:
  assumes "quiet s" and "current_bucket m s" and "\<forall>k \<in> set ks. live (mem_view s (m_bucket m) k)"
  shows "list_keys (mem_sys G) m ks s =
    (map (\<lambda>k. the (record_at (mem_view s) (m_bucket m) k)) (filter (\<lambda>k. k \<noteq> migrationMarkerKey) ks), s)"
  using assms(3)
proof (induction ks)
  case (Cons k ks)
  then have "live (mem_view s (m_bucket m) k)" by simp
  with assms(2) show ?case
  proof (rule current_live)
    fix e t
    assume e: "mem_view s (m_bucket m) k = Some e" "e_Operation e = KeyValuePut" "decode (e_Value e) = Some t"
      "t_SchemaVersion t \<ge> SchemaVersion" "record_at (mem_view s) (m_bucket m) k = Some t"
    then have "readOne (mem_sys G) m k s = (Inr (if k = migrationMarkerKey then None else Some t), s)"
      using assms(1) by (simp add: readOne_def mem_get_quiet migrateOnRead_def migrateDecodedTask_def)
    with Cons e(5) show ?thesis by simp
  qed
qed simp

lemma mem_tasks_List:
  assumes "quiet s" and "current_bucket m s" and "\<not> m_done m"
  shows "tasks_List (mem_sys G) m s = (Inr (mem_tasks m s), s)"
  using assms mem_list_keys [OF assms(1,2), of "mem_task_keys m s" G]
  by (auto simp: tasks_List_def mem_keys_def Let_def mem_tasks_def mem_task_keys_def)

lemma mem_task_keys_set: "k \<in> set (mem_task_keys m s) \<longleftrightarrow> live (mem_view s (m_bucket m) k)"
proof -
  have "live (mem_view s (m_bucket m) k) \<Longrightarrow> k \<in> (snd \<circ> fst) ` set (mem_log s)"
    using log_view_key [of "mem_log s" "m_bucket m" k] by (auto simp: live_def mem_view_def split: option.splits)
  then show ?thesis by (auto simp: mem_task_keys_def)
qed

lemma mem_tasks_set:
  assumes "current_bucket m s"
  shows "t \<in> set (mem_tasks m s) \<longleftrightarrow> t_ID t \<noteq> migrationMarkerKey \<and> record_at (mem_view s) (m_bucket m) (t_ID t) = Some t"
    (is "?L \<longleftrightarrow> ?R")
proof
  assume ?L
  then obtain k where k: "live (mem_view s (m_bucket m) k)" "k \<noteq> migrationMarkerKey"
    "t = the (record_at (mem_view s) (m_bucket m) k)"
    by (auto simp: mem_tasks_def mem_task_keys_set)
  from current_live [OF assms k(1)] k(2,3) show ?R by (metis option.sel)
next
  assume r: ?R
  then have "live (mem_view s (m_bucket m) (t_ID t))"
    by (auto simp: record_at_def split: option.splits if_splits)
  with r show ?L unfolding mem_tasks_def by (force simp: mem_task_keys_set)
qed

lemma mem_tasks_distinct:
  assumes "current_bucket m s"
  shows "distinct (map t_ID (mem_tasks m s))"
proof -
  have "map t_ID (map (\<lambda>k. the (record_at (mem_view s) (m_bucket m) k)) ks) = ks"
    if "\<forall>k \<in> set ks. live (mem_view s (m_bucket m) k)" for ks
    using that
  proof (induction ks)
    case (Cons k ks)
    then have "live (mem_view s (m_bucket m) k)" by simp
    from current_live [OF assms this] have "t_ID (the (record_at (mem_view s) (m_bucket m) k)) = k" by (metis option.sel)
    with Cons show ?case by simp
  qed simp
  from this [of "filter (\<lambda>k. k \<noteq> migrationMarkerKey) (mem_task_keys m s)"] show ?thesis
    by (simp add: mem_tasks_def mem_task_keys_set) (simp add: mem_task_keys_def)
qed

text \<open>The snapshot of a quiet workspace.\<close>

definition mem_ready :: "Coord \<Rightarrow> mem \<Rightarrow> coord_Task list" where
  "mem_ready c s =
     capReady (sortReady (coord_filterReady (mem_tasks (c_tasks c) s) (buildReadyBlockers (mem_tasks (c_tasks c) s)) (mem_now s)))
       (tc_MaxReadyReturn (c_Tuning c))"

definition open_handle :: "Coord \<Rightarrow> mem \<Rightarrow> bool" where
  "open_handle c s \<longleftrightarrow> \<not> c_closed c \<and> c_AgentID c \<noteq> [] \<and> current_bucket (c_tasks c) s \<and> \<not> m_done (c_tasks c) \<and> \<not> ch_closed (c_chat c) \<and>
     \<not> pm_closed (c_presence c) \<and> presence_wf (c_presence c) s \<and>
     card {k. live (mem_view s (pm_Bucket (c_presence c)) k)} \<le> maxPresenceEntries"

lemma mem_coord_Ready:
  assumes "quiet s" and "open_handle c s"
  shows "coord_Ready (mem_sys G) (c_tasks c) (tc_MaxReadyReturn (c_Tuning c)) s = (Inr (mem_ready c s), s)"
  using assms by (simp add: open_handle_def coord_Ready_def mem_tasks_List mem_ready_def Let_def)

lemma mem_coord_Who:
  assumes "quiet s" and "open_handle c s"
  obtains es where "coord_Who (mem_sys G) c s = (Inr (map presenceFromEntry es), s)"
    and "set es = {e. \<exists>k. entry_at (mem_view s) (pm_Bucket (c_presence c)) k = Some e \<and>
      has_prefix k (pm_Project (c_presence c) @ ''/'')}"
proof -
  from mem_Who_quiet [of s "c_presence c" G] assms obtain es where "presence_Who (mem_sys G) (c_presence c) s = (Inr es, s)"
    "set es = {e. \<exists>k. entry_at (mem_view s) (pm_Bucket (c_presence c)) k = Some e \<and>
      has_prefix k (pm_Project (c_presence c) @ ''/'')}"
    by (auto simp: open_handle_def)
  with that assms(2) show ?thesis by (simp add: coord_Who_def open_handle_def)
qed

lemma mem_Prime:
  assumes "quiet s" and "open_handle c s" and "cv_info cv = mem_info (c_chat c)"
  obtains es where "Prime (mem_sys G) cv c s =
    (Some (Inr \<lparr>pr_OpenTasks = filterByStatus (mem_tasks (c_tasks c) s) StatusOpen, pr_ReadyTasks = mem_ready c s,
       pr_ClaimedTasks = filterByClaimedBy (mem_tasks (c_tasks c) s) (c_AgentID c),
       pr_Threads = threads_of (cv_range cv) (c_AgentID c) 20 (foldl add_message [] (chat_history (c_chat c) s)),
       pr_Peers = map presenceFromEntry es\<rparr>), s)"
    and "set es = {e. \<exists>k. entry_at (mem_view s) (pm_Bucket (c_presence c)) k = Some e \<and>
      has_prefix k (pm_Project (c_presence c) @ ''/'')}"
proof -
  from mem_coord_Who [OF assms(1,2), of G] obtain es where w: "coord_Who (mem_sys G) c s = (Inr (map presenceFromEntry es), s)"
    and es: "set es = {e. \<exists>k. entry_at (mem_view s) (pm_Bucket (c_presence c)) k = Some e \<and>
      has_prefix k (pm_Project (c_presence c) @ ''/'')}" by blast
  show ?thesis
    by (rule that [OF _ es])
      (use assms w mem_coord_Ready [OF assms(1,2), of G] mem_ThreadsForAgent [of s "c_AgentID c" "c_chat c"] in
        \<open>simp add: Prime_def open_handle_def mem_tasks_List\<close>)
qed

end
