(* ===== verification/Task_Views.thy ===== *)
theory Task_Views
  imports Task_Ready Leaf Lease
begin

text \<open>
  What the read-only task commands compute from the list of all tasks: the flags and filters of \<^verbatim>\<open>tasks list\<close>
  (\<^verbatim>\<open>cli/tasks_list.go\<close>), the grouping by slot (\<^verbatim>\<open>tasks_slot.go\<close>), \<^verbatim>\<open>tasks ready\<close>, \<^verbatim>\<open>tasks aggregate\<close>, the preview of
  \<^verbatim>\<open>tasks compact\<close>, the lines of \<^verbatim>\<open>tasks_format.go\<close>, the counts of \<^verbatim>\<open>tasks status\<close> and the rows of \<^verbatim>\<open>swarm status\<close> and
  \<^verbatim>\<open>swarm tasks\<close>. A map of the code whose entries are visited in any order and then sorted by key is an
  association list in the order of insertion.
\<close>

section \<open>Flags\<close>

definition parseStatus :: "string \<Rightarrow> err + Status" where
  "parseStatus s =
     (if s = ''open'' then Inr StatusOpen
      else if s = ''claimed'' then Inr StatusClaimed
      else if s = ''closed'' then Inr StatusClosed
      else Inl (EMsg ''invalid status (want open|claimed|closed)''))"

text \<open>\<^verbatim>\<open>strings.IndexRune(p, '=')\<close>, with \<open>None\<close> for -1.\<close>

definition index_of :: "char \<Rightarrow> string \<Rightarrow> nat option" where
  "index_of c p = (if c \<in> set p then Some (length (takeWhile (\<lambda>x. x \<noteq> c) p)) else None)"

definition split_pair :: "string \<Rightarrow> (string \<times> string) option" where
  "split_pair p =
     (case index_of CHR ''='' p of
        None \<Rightarrow> None
      | Some idx \<Rightarrow> if idx = 0 then None else Some (take idx p, drop (idx + 1) p))"

fun merge_pairs :: "strmap \<Rightarrow> string list \<Rightarrow> strmap" where
  "merge_pairs out [] = out"
| "merge_pairs out (p # ps) =
     (case split_pair p of
        None \<Rightarrow> merge_pairs out ps
      | Some (k, v) \<Rightarrow> merge_pairs (AList.update k v out) ps)"

definition applyContext :: "strmap \<Rightarrow> string list \<Rightarrow> strmap" where
  "applyContext existing pairs = (if pairs = [] then existing else merge_pairs existing pairs)"

fun validateContextPairs :: "string list \<Rightarrow> err + unit" where
  "validateContextPairs [] = Inr ()"
| "validateContextPairs (p # ps) =
     (if split_pair p = None then Inl (EMsg ''context: expected key=value with non-empty key'') else validateContextPairs ps)"

definition splitFiles :: "string \<Rightarrow> string list" where
  "splitFiles s = (if s = [] then [] else split_on CHR '','' s)"

text \<open>\<open>parse\<close> is \<^verbatim>\<open>time.Parse\<close> with the layout of RFC 3339.\<close>

definition parseRFC3339Flag :: "(string \<Rightarrow> time_ns option) \<Rightarrow> string \<Rightarrow> err + time_ns option" where
  "parseRFC3339Flag parse value =
     (if value = [] then Inr None
      else case parse value of
             None \<Rightarrow> Inl (EMsg ''invalid time'')
           | Some ts \<Rightarrow> Inr (Some ts))"

text \<open>The aliases of \<^verbatim>\<open>--status\<close>; which alias the code has seen last matters only where it is the only one.\<close>

definition resolveStatusFlags :: "string \<Rightarrow> bool \<Rightarrow> bool \<Rightarrow> bool \<Rightarrow> err + string" where
  "resolveStatusFlags status isClosed isOpen isClaimed =
     (let picked = (if isClosed then [''closed''] else []) @ (if isOpen then [''open''] else []) @ (if isClaimed then [''claimed''] else []);
          cnt = length picked
      in if cnt > 1 then Inl (EMsg ''--closed, --open, --claimed are mutually exclusive'')
         else if cnt = 1 \<and> status \<noteq> [] then Inl (EMsg ''the alias and --status are mutually exclusive'')
         else if cnt = 1 then Inr (hd picked)
         else Inr status)"

section \<open>Filters of the list\<close>

fun filterTasks :: "Task list \<Rightarrow> bool \<Rightarrow> Status \<Rightarrow> string \<Rightarrow> Task list" where
  "filterTasks [] al status claimedBy = []"
| "filterTasks (t # ts) al status claimedBy =
     (if status = [] \<and> \<not> al \<and> t_Status t = StatusClosed then filterTasks ts al status claimedBy
      else if status \<noteq> [] \<and> t_Status t \<noteq> status then filterTasks ts al status claimedBy
      else if claimedBy \<noteq> [] \<and> (if claimedBy = ''-'' then t_ClaimedBy t \<noteq> [] else t_ClaimedBy t \<noteq> claimedBy)
      then filterTasks ts al status claimedBy
      else t # filterTasks ts al status claimedBy)"

definition filterByIDSet :: "Task list \<Rightarrow> string set \<Rightarrow> Task list" where
  "filterByIDSet ts keep = filter (\<lambda>t. t_ID t \<in> keep) ts"

definition updated_before :: "Task \<Rightarrow> Task \<Rightarrow> bool" where
  "updated_before x y = (t_UpdatedAt x < t_UpdatedAt y)"

text \<open>A duration is a 64-bit count of nanoseconds: the product wraps around.\<close>

definition stale_cutoff :: "time_ns \<Rightarrow> int \<Rightarrow> time_ns" where
  "stale_cutoff now days = now + go_int (- (days * 24 * 3600 * second))"

definition selectStale :: "Task list \<Rightarrow> int \<Rightarrow> time_ns \<Rightarrow> Task list" where
  "selectStale ts days now =
     (if days \<le> 0 then []
      else slice_stable updated_before
             (filter (\<lambda>t. t_Status t \<noteq> StatusClosed \<and> \<not> t_UpdatedAt t > stale_cutoff now days) ts))"

definition selectByStatus :: "Task list \<Rightarrow> Status \<Rightarrow> Task list" where
  "selectByStatus ts status = (if status = [] then ts else filter (\<lambda>t. t_Status t = status) ts)"

definition filterOrphans :: "Task list \<Rightarrow> string set \<Rightarrow> Task list" where
  "filterOrphans ts liveAgents =
     slice_stable updated_before
       (filter (\<lambda>t. t_Status t = StatusClaimed \<and> t_ClaimedBy t \<noteq> [] \<and> t_ClaimedBy t \<notin> liveAgents) ts)"

definition countClosed :: "Task list \<Rightarrow> nat" where
  "countClosed ts = length (filter (\<lambda>t. t_Status t = StatusClosed) ts)"

section \<open>Slots\<close>

definition HotSlotThreshold :: nat where
  "HotSlotThreshold = 4"

definition unslottedSlotKey :: string where
  "unslottedSlotKey = ''(unslotted)''"

record slotGroup =
  sg_Slot :: string
  sg_OpenCount :: nat
  sg_Hot :: bool
  sg_TaskIDs :: "string list"

definition slot_key :: "Task \<Rightarrow> string" where
  "slot_key t = (let key = map_get (t_Context t) ''slot'' in if key = [] then unslottedSlotKey else key)"

definition count_in :: "Task \<Rightarrow> slotGroup \<Rightarrow> slotGroup" where
  "count_in t g = g\<lparr>sg_OpenCount := sg_OpenCount g + 1, sg_TaskIDs := sg_TaskIDs g @ [t_ID t]\<rparr>"

fun bucket_in :: "string \<Rightarrow> Task \<Rightarrow> slotGroup list \<Rightarrow> slotGroup list" where
  "bucket_in key t [] = [count_in t \<lparr>sg_Slot = key, sg_OpenCount = 0, sg_Hot = False, sg_TaskIDs = []\<rparr>]"
| "bucket_in key t (g # gs) = (if sg_Slot g = key then count_in t g # gs else g # bucket_in key t gs)"

definition add_to_slot :: "slotGroup list \<Rightarrow> Task \<Rightarrow> slotGroup list" where
  "add_to_slot buckets t = (if t_Status t = StatusClosed then buckets else bucket_in (slot_key t) t buckets)"

definition slot_before :: "slotGroup \<Rightarrow> slotGroup \<Rightarrow> bool" where
  "slot_before x y = (sg_Slot x < sg_Slot y)"

definition groupBySlot :: "Task list \<Rightarrow> slotGroup list" where
  "groupBySlot ts =
     (let out = map (\<lambda>g. g\<lparr>sg_Hot := sg_OpenCount g > HotSlotThreshold\<rparr>) (foldl add_to_slot [] ts)
      in slice_stable slot_before out)"

definition countOpenInSlot :: "Task list \<Rightarrow> string \<Rightarrow> nat" where
  "countOpenInSlot ts slot =
     (if slot = [] then 0
      else length (filter (\<lambda>t. t_Status t \<noteq> StatusClosed \<and> map_get (t_Context t) ''slot'' = slot) ts))"

definition maybeWarnHotSlot :: "string \<Rightarrow> nat \<Rightarrow> (string \<times> nat) option" where
  "maybeWarnHotSlot slot newDepth = (if slot = [] \<or> newDepth \<le> HotSlotThreshold then None else Some (slot, newDepth))"

text \<open>What the list command shows, in place of the text it prints.\<close>

datatype list_output = ListSlots "slotGroup list" | NoOpenTasks nat | ListRows "Task list"

definition list_render :: "bool \<Rightarrow> bool \<Rightarrow> bool \<Rightarrow> Task list \<Rightarrow> Task list \<Rightarrow> bool \<Rightarrow> list_output" where
  "list_render bySlot asJSON al out allTasks statusFilterActive =
     (if bySlot then ListSlots (groupBySlot out)
      else if \<not> asJSON \<and> out = [] \<and> \<not> al \<and> \<not> statusFilterActive \<and> countClosed allTasks > 0
      then NoOpenTasks (countClosed allTasks)
      else ListRows out)"

section \<open>Ready tasks\<close>

definition countOpen :: "Task list \<Rightarrow> nat" where
  "countOpen ts = length (filter (\<lambda>t. t_Status t \<noteq> StatusClosed) ts)"

definition filterReadyBySlot :: "Task list \<Rightarrow> string \<Rightarrow> Task list" where
  "filterReadyBySlot ts slot = filter (\<lambda>t. \<not> map_get (t_Context t) ''slot'' \<noteq> slot) ts"

definition filterReadyByAgent :: "Task list \<Rightarrow> string \<Rightarrow> Task list" where
  "filterReadyByAgent ts agentID = filter (\<lambda>t. \<not> (t_ClaimedBy t \<noteq> [] \<and> t_ClaimedBy t \<noteq> agentID)) ts"

definition selectReady :: "Task list \<Rightarrow> string \<Rightarrow> bool \<Rightarrow> string \<Rightarrow> int \<Rightarrow> time_ns \<Rightarrow> Task list" where
  "selectReady al slot mine agentID limit now =
     (let out = FilterReady al now;
          out1 = (if slot \<noteq> [] then filterReadyBySlot out slot else out);
          out2 = (if mine then filterReadyByAgent out1 agentID else out1);
          out3 = SortReady out2
      in if limit > 0 \<and> int (length out3) > limit then take (nat limit) out3 else out3)"

datatype ready_output = NoReadyTasks nat | ReadyRows "Task list"

definition ready_render :: "bool \<Rightarrow> Task list \<Rightarrow> Task list \<Rightarrow> ready_output" where
  "ready_render asJSON al ready =
     (if \<not> asJSON \<and> ready = [] \<and> countOpen al > 0 then NoReadyTasks (countOpen al) else ReadyRows ready)"

section \<open>Aggregate\<close>

record aggregateSlot =
  as_SlotID :: string
  as_Tasks :: nat
  as_Files :: "string list"
  as_Status :: string

definition resolvedAgent :: "Task \<Rightarrow> string" where
  "resolvedAgent t = (if t_ClosedBy t \<noteq> [] then t_ClosedBy t else t_ClaimedBy t)"

fun appendUniq :: "string list \<Rightarrow> string list \<Rightarrow> string list" where
  "appendUniq dst [] = dst"
| "appendUniq dst (x # xs) = appendUniq (if x \<in> set dst then dst else dst @ [x]) xs"

definition aggregate_in :: "Task \<Rightarrow> aggregateSlot \<Rightarrow> aggregateSlot" where
  "aggregate_in t g =
     g\<lparr>as_Tasks := as_Tasks g + 1, as_Files := appendUniq (as_Files g) (t_Files t),
       as_Status := (if t_Status t = StatusClaimed then ''active'' else as_Status g)\<rparr>"

fun agent_in :: "string \<Rightarrow> Task \<Rightarrow> aggregateSlot list \<Rightarrow> aggregateSlot list" where
  "agent_in agent t [] = [aggregate_in t \<lparr>as_SlotID = agent, as_Tasks = 0, as_Files = [], as_Status = ''closed''\<rparr>]"
| "agent_in agent t (g # gs) = (if as_SlotID g = agent then aggregate_in t g # gs else g # agent_in agent t gs)"

definition in_window :: "time_ns \<Rightarrow> Task \<Rightarrow> bool" where
  "in_window cutoff t = (\<not> (t_CreatedAt t < cutoff \<and> t_UpdatedAt t < cutoff))"

definition agent_before :: "aggregateSlot \<Rightarrow> aggregateSlot \<Rightarrow> bool" where
  "agent_before x y = (as_SlotID x < as_SlotID y)"

definition add_to_agent :: "time_ns \<Rightarrow> aggregateSlot list \<Rightarrow> Task \<Rightarrow> aggregateSlot list" where
  "add_to_agent cutoff slotMap t =
     (let agent = resolvedAgent t in if agent = [] \<or> \<not> in_window cutoff t then slotMap else agent_in agent t slotMap)"

definition buildAggregateSlots :: "Task list \<Rightarrow> duration \<Rightarrow> time_ns \<Rightarrow> aggregateSlot list \<times> nat \<times> nat" where
  "buildAggregateSlots allTasks since now =
     (let cutoff = now + go_int (- since);
          total = length (filter (\<lambda>t. resolvedAgent t \<noteq> [] \<and> in_window cutoff t) allTasks);
          slots = slice_stable agent_before
            (map (\<lambda>g. g\<lparr>as_Files := sort (as_Files g)\<rparr>) (foldl (add_to_agent cutoff) [] allTasks));
          activeSlots = length (filter (\<lambda>g. as_Status g = ''active'') slots)
      in (slots, total, activeSlots))"

definition base_name :: "string \<Rightarrow> string" where
  "base_name f = (case last_index CHR ''/'' f of None \<Rightarrow> f | Some idx \<Rightarrow> drop (idx + 1) f)"

definition summarizeFiles :: "string list \<Rightarrow> nat \<Rightarrow> string" where
  "summarizeFiles files mx =
     (if files = [] then ''(none)''
      else let names = map base_name files in
           if length names \<le> mx then join_with '', '' names
           else join_with '', '' (take mx names) @ '', +'' @ itoa (length names - mx) @ '' more'')"

text \<open>The hint \<^verbatim>\<open>hasOlder\<close> of the command.\<close>

definition aggregate_hasOlder :: "nat \<Rightarrow> Task list \<Rightarrow> bool" where
  "aggregate_hasOlder totalTasks allTasks \<longleftrightarrow> totalTasks = 0 \<and> length allTasks > 0"

section \<open>Preview of the compaction\<close>

fun preview_filter :: "Task list \<Rightarrow> time_ns \<Rightarrow> duration \<Rightarrow> Task list" where
  "preview_filter [] now minAge = []"
| "preview_filter (t # ts) now minAge =
     (if t_Status t \<noteq> StatusClosed \<or> t_ClosedAt t = None then preview_filter ts now minAge
      else if t_CompactLevel t \<noteq> 0 then preview_filter ts now minAge
      else if now - closed_at t < minAge then preview_filter ts now minAge
      else t # preview_filter ts now minAge)"

definition filterEligibleForCompact :: "Task list \<Rightarrow> time_ns \<Rightarrow> duration \<Rightarrow> int \<Rightarrow> Task list" where
  "filterEligibleForCompact al now minAge limit =
     (let out = slice_stable (\<lambda>x y. closed_at x < closed_at y) (preview_filter al now minAge)
      in if limit > 0 \<and> int (length out) > limit then take (nat limit) out else out)"

definition indexTasksByID :: "Task list \<Rightarrow> string \<Rightarrow> Task option" where
  "indexTasksByID ts i = map_of (map (\<lambda>t. (t_ID t, t)) (rev ts)) i"

definition compactInputFromTask :: "Task \<Rightarrow> CompactInput" where
  "compactInputFromTask t =
     \<lparr>ci_TaskID = t_ID t, ci_Title = t_Title t, ci_Files = t_Files t, ci_Context = t_Context t, ci_CreatedAt = t_CreatedAt t,
      ci_ClosedAt = (case t_ClosedAt t of None \<Rightarrow> zero_time | Some x \<Rightarrow> x), ci_ClosedBy = t_ClosedBy t,
      ci_ClosedReason = t_ClosedReason t, ci_CompactLevel = t_CompactLevel t\<rparr>"

definition noop_summarize :: "CompactInput \<Rightarrow> err + string" where
  "noop_summarize i = Inr (ci_Title i @ '': '' @ ci_ClosedReason i)"

definition buildSummarizer :: "string \<Rightarrow> err + (CompactInput \<Rightarrow> err + string)" where
  "buildSummarizer nm = (if nm = [] \<or> nm = ''noop'' then Inr noop_summarize else Inl (EMsg ''unknown summarizer (want one of: noop)''))"

definition taskJSONSize :: "'s sys \<Rightarrow> Task \<Rightarrow> nat" where
  "taskJSONSize js t = js_Len js (encode t)"

definition summarizerOutputBytes :: "(CompactInput \<Rightarrow> err + string) \<Rightarrow> Task \<Rightarrow> nat" where
  "summarizerOutputBytes summarize t = (case summarize (compactInputFromTask t) of Inl _ \<Rightarrow> 0 | Inr out \<Rightarrow> length out)"

section \<open>Lines\<close>

text \<open>The glyphs in UTF-8.\<close>

definition utf8 :: "nat list \<Rightarrow> string" where
  "utf8 bs = map char_of bs"

definition glyphFor :: "Status \<Rightarrow> string" where
  "glyphFor st =
     (if st = StatusOpen then utf8 [226, 151, 139]
      else if st = StatusClaimed then utf8 [226, 151, 144]
      else if st = StatusClosed then utf8 [226, 156, 147]
      else ''?'')"

definition formatListLine :: "Task \<Rightarrow> string" where
  "formatListLine t =
     (let claimed = (if t_ClaimedBy t = [] then ''-'' else t_ClaimedBy t)
      in glyphFor (t_Status t) @ '' '' @ t_ID t @ '' '' @ t_Status t @ '' claimed='' @ claimed @ '' '' @ t_Title t)"

definition show_field :: "string \<Rightarrow> string \<Rightarrow> string" where
  "show_field k v = (if v \<noteq> [] then k @ ''='' @ v @ nl else [])"

text \<open>\<open>logged_text\<close> is \<^verbatim>\<open>timefmt.Logged\<close>.\<close>

definition formatTime :: "(time_ns \<Rightarrow> string) \<Rightarrow> time_ns \<Rightarrow> string" where
  "formatTime logged_text ts = (if ts = zero_time then [] else logged_text ts)"

definition formatShowBlock :: "(time_ns \<Rightarrow> string) \<Rightarrow> Task \<Rightarrow> string" where
  "formatShowBlock logged_text t =
     show_field ''id'' (t_ID t) @ show_field ''title'' (t_Title t) @ show_field ''status'' (t_Status t) @
     show_field ''claimed_by'' (t_ClaimedBy t) @
     (if t_Files t \<noteq> [] then show_field ''files'' (join_with '','' (t_Files t)) else []) @
     show_field ''parent'' (t_Parent t) @
     concat (map (\<lambda>k. show_field (''context.'' @ k) (map_get (t_Context t) k)) (sort (map fst (t_Context t)))) @
     show_field ''created_at'' (formatTime logged_text (t_CreatedAt t)) @
     show_field ''updated_at'' (formatTime logged_text (t_UpdatedAt t)) @
     (case t_DeferUntil t of None \<Rightarrow> [] | Some d \<Rightarrow> show_field ''defer_until'' (formatTime logged_text d)) @
     (case t_ClosedAt t of None \<Rightarrow> [] | Some d \<Rightarrow> show_field ''closed_at'' (formatTime logged_text d)) @
     show_field ''closed_by'' (t_ClosedBy t) @ show_field ''closed_reason'' (t_ClosedReason t)"

text \<open>\<^verbatim>\<open>strings.SplitN(id, "-", 2)[0]\<close> is what precedes the first hyphen.\<close>

definition truncateID :: "string \<Rightarrow> nat \<Rightarrow> string" where
  "truncateID i n = (if length i \<le> n then i else takeWhile (\<lambda>c. c \<noteq> CHR ''-'') i)"

section \<open>Status of the backlog and of the swarm\<close>

definition closed_last_day :: "Task list \<Rightarrow> time_ns \<Rightarrow> nat" where
  "closed_last_day al now =
     length (filter (\<lambda>t. t_Status t = StatusClosed \<and>
       (case t_ClosedAt t of None \<Rightarrow> False | Some x \<Rightarrow> x > now - 24 * 3600 * second)) al)"

record statusRow =
  sr_Slot :: string
  sr_TaskID :: string
  sr_AgentID :: string
  sr_Host :: string
  sr_LeafPID :: int
  sr_StartedAt :: time_ns
  sr_LastRenewed :: time_ns
  sr_State :: string
  sr_StaleSeconds :: int

definition status_activeThresholdSec :: int where
  "status_activeThresholdSec = 90"

definition classifyState :: "Session \<Rightarrow> string \<Rightarrow> int \<Rightarrow> string" where
  "classifyState s host staleSec =
     (if sn_Host s \<noteq> host
      then (if staleSec > status_activeThresholdSec then ''remote-stale'' else ''remote'')
      else if staleSec > status_activeThresholdSec then ''stale'' else ''active'')"

definition buildStatusRows :: "Session list \<Rightarrow> string \<Rightarrow> time_ns \<Rightarrow> statusRow list" where
  "buildStatusRows sessions host now =
     map (\<lambda>s. let stale = whole_seconds (now - sn_LastRenewed s) in
       \<lparr>sr_Slot = sn_Slot s, sr_TaskID = sn_TaskID s, sr_AgentID = sn_AgentID s, sr_Host = sn_Host s, sr_LeafPID = sn_LeafPID s,
        sr_StartedAt = sn_StartedAt s, sr_LastRenewed = sn_LastRenewed s, sr_State = classifyState s host stale,
        sr_StaleSeconds = stale\<rparr>) sessions"

fun str_contains :: "string \<Rightarrow> string \<Rightarrow> bool" where
  "str_contains [] sub = (sub = [])"
| "str_contains (c # cs) sub = (has_prefix (c # cs) sub \<or> str_contains cs sub)"

definition taskBelongsToSlot :: "Task \<Rightarrow> string \<Rightarrow> bool" where
  "taskBelongsToSlot t slot =
     (if map_get (t_Context t) ''slot'' = slot then True
      else if str_contains (t_Title t) (''[slot: '' @ slot @ '']'') then True
      else list_ex (\<lambda>f. has_prefix f (slot @ ''/'') \<or> str_contains f (''/'' @ slot @ ''/'')) (t_Files t))"

definition swarm_tasks_select :: "Task list \<Rightarrow> coord_Task list \<Rightarrow> string \<Rightarrow> Task list" where
  "swarm_tasks_select al readies slot =
     (let readyIDs = set (map ct_id readies) in filter (\<lambda>t. t_ID t \<in> readyIDs \<and> taskBelongsToSlot t slot) al)"

end
