(* ===== verification/Host_Files.thy ===== *)
theory Host_Files
  imports Reap Task_Views
begin

text \<open>
  The files and processes of a host, as far as the code that keeps a workspace and the registry looks at them. A tree is
  the association of paths with files and folders; the folders above a path are not recorded, the code creates them before
  it writes. What the operating system may refuse is the function \<open>ho_fault\<close> of the name of a call and its path.
\<close>

section \<open>A host\<close>

datatype node = Folder | Doc string

type_synonym files = "(string \<times> node) list"

record host =
  ho_BonesDir :: string
  ho_Home :: string
  ho_abs :: "string \<Rightarrow> err + string"
  ho_alive :: "int \<Rightarrow> bool"
  ho_fault :: "string \<Rightarrow> string \<Rightarrow> string option"
  ho_parse :: "string \<Rightarrow> json option"
  ho_render :: "json \<Rightarrow> string"
  ho_linux :: bool

definition under :: "string \<Rightarrow> string \<Rightarrow> bool" where
  "under root p = has_prefix p (root @ ''/'')"

definition os_Stat :: "host \<Rightarrow> files \<Rightarrow> string \<Rightarrow> err + node" where
  "os_Stat h fs p =
     (case ho_fault h ''stat'' p of
        Some x \<Rightarrow> Inl (EOS (OSFailure x))
      | None \<Rightarrow> (case map_of fs p of None \<Rightarrow> Inl (EOS NotExist) | Some n \<Rightarrow> Inr n))"

definition os_ReadFile :: "host \<Rightarrow> files \<Rightarrow> string \<Rightarrow> err + string" where
  "os_ReadFile h fs p =
     (case ho_fault h ''read'' p of
        Some x \<Rightarrow> Inl (EOS (OSFailure x))
      | None \<Rightarrow>
          (case map_of fs p of
             None \<Rightarrow> Inl (EOS NotExist)
           | Some Folder \<Rightarrow> Inl (EOS (OSFailure ''is a directory''))
           | Some (Doc c) \<Rightarrow> Inr c))"

definition os_WriteFile :: "host \<Rightarrow> string \<Rightarrow> string \<Rightarrow> files \<Rightarrow> (err + unit) \<times> files" where
  "os_WriteFile h p c fs =
     (case ho_fault h ''write'' p of
        Some x \<Rightarrow> (Inl (EOS (OSFailure x)), fs)
      | None \<Rightarrow>
          (if map_of fs p = Some Folder then (Inl (EOS (OSFailure ''is a directory'')), fs)
           else (Inr (), AList.update p (Doc c) fs)))"

definition os_MkdirAll :: "host \<Rightarrow> string \<Rightarrow> files \<Rightarrow> (err + unit) \<times> files" where
  "os_MkdirAll h p fs =
     (case ho_fault h ''mkdir'' p of
        Some x \<Rightarrow> (Inl (EOS (OSFailure x)), fs)
      | None \<Rightarrow>
          (case map_of fs p of
             None \<Rightarrow> (Inr (), AList.update p Folder fs)
           | Some Folder \<Rightarrow> (Inr (), fs)
           | Some (Doc c) \<Rightarrow> (Inl (EOS (OSFailure ''not a directory'')), fs)))"

text \<open>A folder is removed, or replaced, only when nothing is below it.\<close>

definition empty_below :: "files \<Rightarrow> string \<Rightarrow> bool" where
  "empty_below fs p = list_all (\<lambda>(q, _). \<not> under p q) fs"

definition os_Remove :: "host \<Rightarrow> string \<Rightarrow> files \<Rightarrow> (err + unit) \<times> files" where
  "os_Remove h p fs =
     (case ho_fault h ''remove'' p of
        Some x \<Rightarrow> (Inl (EOS (OSFailure x)), fs)
      | None \<Rightarrow>
          (if map_of fs p = None then (Inl (EOS NotExist), fs)
           else if map_of fs p = Some Folder \<and> \<not> empty_below fs p then (Inl (EOS (OSFailure ''directory not empty'')), fs)
           else (Inr (), AList.delete p fs)))"

definition moved_path :: "string \<Rightarrow> string \<Rightarrow> string \<Rightarrow> string" where
  "moved_path src dst q = (if q = src \<or> under src q then dst @ drop (length src) q else q)"

definition os_Rename :: "host \<Rightarrow> string \<Rightarrow> string \<Rightarrow> files \<Rightarrow> (err + unit) \<times> files" where
  "os_Rename h src dst fs =
     (case ho_fault h ''rename'' src of
        Some x \<Rightarrow> (Inl (EOS (OSFailure x)), fs)
      | None \<Rightarrow>
          (if map_of fs src = None then (Inl (EOS NotExist), fs)
           else if src = dst then (Inr (), fs)
           else if under src dst then (Inl (EOS (OSFailure ''invalid argument'')), fs)
           else if \<not> empty_below fs dst then (Inl (EOS (OSFailure ''directory not empty'')), fs)
           else if map_of fs dst \<noteq> None \<and> (map_of fs dst = Some Folder) \<noteq> (map_of fs src = Some Folder)
           then (Inl (EOS (OSFailure ''not a directory'')), fs)
           else (Inr (), map (\<lambda>(q, n). (moved_path src dst q, n)) (AList.delete dst fs))))"

text \<open>\<^verbatim>\<open>filepath.Dir\<close> and \<^verbatim>\<open>filepath.Base\<close>.\<close>

definition path_Dir :: "string \<Rightarrow> string" where
  "path_Dir p = Clean (case last_index CHR ''/'' p of None \<Rightarrow> [] | Some i \<Rightarrow> take (i + 1) p)"

definition path_Base :: "string \<Rightarrow> string" where
  "path_Base p =
     (if p = [] then ''.''
      else let q = rev (dropWhile ((=) CHR ''/'') (rev p));
               r = (case last_index CHR ''/'' q of None \<Rightarrow> q | Some i \<Rightarrow> drop (i + 1) q)
           in if r = [] then ''/'' else r)"

text \<open>A file that holds the number of a process.\<close>

definition read_pid :: "host \<Rightarrow> files \<Rightarrow> string \<Rightarrow> int option" where
  "read_pid h fs p = (case os_ReadFile h fs p of Inl _ \<Rightarrow> None | Inr data \<Rightarrow> Atoi (TrimSpace data))"

section \<open>Lemmas\<close>

definition no_faults :: "host \<Rightarrow> bool" where
  "no_faults h \<longleftrightarrow> ho_fault h = (\<lambda>_ _. None)"

lemma no_faults_simps:
  assumes "no_faults h"
  shows "os_Stat h fs p = (case map_of fs p of None \<Rightarrow> Inl (EOS NotExist) | Some n \<Rightarrow> Inr n)"
    and "os_ReadFile h fs p = (case map_of fs p of None \<Rightarrow> Inl (EOS NotExist)
      | Some Folder \<Rightarrow> Inl (EOS (OSFailure ''is a directory'')) | Some (Doc c) \<Rightarrow> Inr c)"
  using assms by (simp_all add: no_faults_def os_Stat_def os_ReadFile_def)

lemma under_append [simp]: "under r (r @ CHR ''/'' # x)"
  by (simp add: under_def has_prefix_def)

lemma under_not_self [simp]: "\<not> under r r"
  by (auto simp: under_def has_prefix_iff)

lemma underE: "under r p \<Longrightarrow> (\<And>x. p = r @ CHR ''/'' # x \<Longrightarrow> P) \<Longrightarrow> P"
  by (auto simp: under_def has_prefix_iff)

lemma map_of_none_below: "empty_below fs p \<Longrightarrow> under p q \<Longrightarrow> map_of fs q = None"
  by (induction fs) (auto simp: empty_below_def)

text \<open>A path that neither the source nor the target of a call covers is not touched by it.\<close>

lemma map_of_moved:
  assumes "q \<noteq> src" and "\<not> under src q" and "q \<noteq> dst" and "\<not> under dst q"
  shows "map_of (map (\<lambda>(q, n). (moved_path src dst q, n)) fs) q = map_of fs q"
proof (induction fs)
  case (Cons e fs)
  obtain p n where e: "e = (p, n)" by (cases e)
  have "moved_path src dst p = q \<longleftrightarrow> p = q"
    using assms by (auto simp: moved_path_def elim!: underE)
  with Cons e show ?case by (cases "p = q") simp_all
qed simp

lemma map_of_moved_target:
  assumes "\<forall>(q, _) \<in> set fs. q \<noteq> dst \<and> \<not> under dst q" and "x = [] \<or> hd x = CHR ''/''"
  shows "map_of (map (\<lambda>(q, n). (moved_path src dst q, n)) fs) (dst @ x) = map_of fs (src @ x)"
  using assms(1)
proof (induction fs)
  case (Cons e fs)
  obtain p n where e: "e = (p, n)" by (cases e)
  have p: "p \<noteq> dst" "\<not> under dst p" using Cons.prems e by auto
  have "moved_path src dst p = dst @ x \<longleftrightarrow> p = src @ x"
  proof
    assume m: "moved_path src dst p = dst @ x"
    show "p = src @ x"
    proof (cases "p = src \<or> under src p")
      case True
      with m show ?thesis by (auto simp: moved_path_def elim!: underE)
    next
      case False
      then have "p = dst @ x" using m by (simp add: moved_path_def)
      with p assms(2) show ?thesis by (cases x) auto
    qed
  next
    assume "p = src @ x"
    with assms(2) show "moved_path src dst p = dst @ x" by (cases x) (auto simp: moved_path_def)
  qed
  with Cons e show ?case by (cases "p = src @ x") simp_all
qed simp

lemma map_of_moved_gone:
  assumes "src \<noteq> dst" and "\<not> under src dst" and "q = src \<or> under src q" and "\<not> under dst src"
  shows "map_of (map (\<lambda>(q, n). (moved_path src dst q, n)) fs) q = None"
proof (induction fs)
  case (Cons e fs)
  obtain p n where e: "e = (p, n)" by (cases e)
  have "moved_path src dst p \<noteq> q"
  proof (cases "p = src \<or> under src p")
    case True
    then obtain x where x: "moved_path src dst p = dst @ x" "x = [] \<or> hd x = CHR ''/''"
      by (auto simp: moved_path_def elim!: underE)
    have "dst @ x \<noteq> q"
    proof
      assume "dst @ x = q"
      with assms(3) obtain y where y: "dst @ x = src @ y" "y = [] \<or> hd y = CHR ''/''" by (auto elim!: underE)
      then consider z where "dst = src @ z" "z @ x = y" | z where "src = dst @ z" "z @ y = x" by (auto simp: append_eq_append_conv2)
      then show False
        using assms x(2) y(2) by cases (auto simp: neq_Nil_conv Cons_eq_append_conv hd_append split: if_splits)
    qed
    with x show ?thesis by simp
  next
    case False
    with assms(3) show ?thesis by (auto simp: moved_path_def)
  qed
  with Cons e show ?case by simp
qed simp

end
