(* ===== verification/Workspace.thy ===== *)
theory Workspace
  imports Host_Files
begin

text \<open>
  \<^verbatim>\<open>internal/workspace\<close>: finding the workspace above a directory (\<^verbatim>\<open>walk.go\<close>), its identity (\<^verbatim>\<open>agent_id.go\<close>,
  \<^verbatim>\<open>name.go\<close>), the migrations from older layouts (\<^verbatim>\<open>migrate.go\<close>) and the two entry points \<^verbatim>\<open>Init\<close> and \<^verbatim>\<open>Join\<close>
  (\<^verbatim>\<open>workspace.go\<close>). Starting a hub is an argument of \<^verbatim>\<open>Join\<close>, as is the answer of its health endpoint.
\<close>

section \<open>Identity\<close>

definition markerDirName :: string where
  "markerDirName = ''.bones''"

definition agentIDFile :: string where
  "agentIDFile = ''agent.id''"

definition bones_dir :: "host \<Rightarrow> string \<Rightarrow> string" where
  "bones_dir h root = BonesDir (ho_BonesDir h) (ho_abs h) root"

definition writeAgentID :: "host \<Rightarrow> string \<Rightarrow> string \<Rightarrow> files \<Rightarrow> (err + unit) \<times> files" where
  "writeAgentID h workspaceDir i fs =
     (let markerDir = bones_dir h workspaceDir in
      case os_MkdirAll h markerDir fs of
        (Inl e, fs1) \<Rightarrow> (Inl e, fs1)
      | (Inr _, fs1) \<Rightarrow> os_WriteFile h (Join markerDir agentIDFile) (i @ nl) fs1)"

definition readAgentID :: "host \<Rightarrow> files \<Rightarrow> string \<Rightarrow> err + string" where
  "readAgentID h fs workspaceDir =
     (case os_ReadFile h fs (Join (bones_dir h workspaceDir) agentIDFile) of
        Inl e \<Rightarrow> Inl e
      | Inr data \<Rightarrow> Inr (TrimSpace data))"

definition WriteName :: "host \<Rightarrow> string \<Rightarrow> string \<Rightarrow> files \<Rightarrow> (err + unit) \<times> files" where
  "WriteName h root nm fs = os_WriteFile h (Join (bones_dir h root) ''workspace_name'') (nm @ nl) fs"

definition ReadName :: "host \<Rightarrow> files \<Rightarrow> string \<Rightarrow> err + string" where
  "ReadName h fs root =
     (case os_ReadFile h fs (Join (bones_dir h root) ''workspace_name'') of
        Inl e \<Rightarrow> if e = EOS NotExist then Inr [] else Inl e
      | Inr data \<Rightarrow> Inr (TrimSpace data))"

section \<open>Exit codes\<close>

definition ExitCode :: "err option \<Rightarrow> nat" where
  "ExitCode x =
     (case x of
        None \<Rightarrow> 0
      | Some e \<Rightarrow>
          if e = EWorkspace ErrAlreadyInitialized then 2
          else if e = EWorkspace ErrNoWorkspace then 3
          else if e = EWorkspace ErrLeafUnreachable then 4
          else if e = EWorkspace ErrLeafStartTimeout then 5
          else if e = EWorkspace ErrLegacyLayout then 6
          else 1)"

section \<open>Walking up\<close>

definition maxWalkUpDepth :: nat where
  "maxWalkUpDepth = 64"

definition has_marker :: "host \<Rightarrow> files \<Rightarrow> string \<Rightarrow> bool" where
  "has_marker h fs cur =
     (case os_Stat h fs (Join (Join cur markerDirName) agentIDFile) of Inl _ \<Rightarrow> False | Inr _ \<Rightarrow> True)"

fun walk_loop :: "nat \<Rightarrow> host \<Rightarrow> files \<Rightarrow> string \<Rightarrow> err + string" where
  "walk_loop 0 h fs cur = Inl (EMsg ''workspace: walkUp exceeded 64 levels'')"
| "walk_loop (Suc n) h fs cur =
     (if has_marker h fs cur then Inr cur
      else if path_Dir cur = cur then Inl (EWorkspace ErrNoWorkspace)
      else walk_loop n h fs (path_Dir cur))"

definition walkUp :: "host \<Rightarrow> files \<Rightarrow> string \<Rightarrow> err + string" where
  "walkUp h fs start =
     (case ho_abs h start of
        Inl e \<Rightarrow> Inl e
      | Inr cur \<Rightarrow>
          if ho_BonesDir h \<noteq> [] \<and>
             (let envAbs = (case ho_abs h (ho_BonesDir h) of Inl _ \<Rightarrow> ho_BonesDir h | Inr a \<Rightarrow> a)
              in case os_Stat h fs (Join envAbs agentIDFile) of Inl _ \<Rightarrow> False | Inr _ \<Rightarrow> True)
          then Inr cur
          else walk_loop maxWalkUpDepth h fs cur)"

definition FindRoot :: "host \<Rightarrow> files \<Rightarrow> string \<Rightarrow> err + string" where
  "FindRoot h fs start = walkUp h fs start"

section \<open>Migrations\<close>

definition legacyMarkerDirName :: string where
  "legacyMarkerDirName = ''.agent-infra''"

definition legacyOrchDirName :: string where
  "legacyOrchDirName = ''.orchestrator''"

definition migrateLegacyMarker :: "host \<Rightarrow> string \<Rightarrow> files \<Rightarrow> (err + unit) \<times> files" where
  "migrateLegacyMarker h root fs =
     (let legacy = Join root legacyMarkerDirName; current = Join root markerDirName in
      case os_Stat h fs legacy of
        Inl e \<Rightarrow> (if e = EOS NotExist then Inr () else Inl e, fs)
      | Inr _ \<Rightarrow>
          (case os_Stat h fs current of
             Inr _ \<Rightarrow> (Inl (EMsg ''workspace: both .agent-infra/ and .bones/ exist''), fs)
           | Inl _ \<Rightarrow> os_Rename h legacy current fs))"

datatype legacyState = legacyAbsent | legacyDead | legacyLive

definition pidFileLive :: "host \<Rightarrow> files \<Rightarrow> string \<Rightarrow> bool" where
  "pidFileLive h fs p =
     (case read_pid h fs p of None \<Rightarrow> False | Some pid \<Rightarrow> if pid \<le> 0 then False else pidAlive (ho_alive h) pid)"

definition detectLegacyLayout :: "host \<Rightarrow> files \<Rightarrow> string \<Rightarrow> err + legacyState" where
  "detectLegacyLayout h fs workspaceDir =
     (let orchDir = Join workspaceDir legacyOrchDirName in
      case os_Stat h fs orchDir of
        Inl e \<Rightarrow> if e = EOS NotExist then Inr legacyAbsent else Inl e
      | Inr _ \<Rightarrow>
          if list_ex (\<lambda>name. pidFileLive h fs (Join (Join orchDir ''pids'') name)) [''fossil.pid'', ''nats.pid'', ''leaf.pid'']
          then Inr legacyLive else Inr legacyDead)"

definition moveIfExists :: "host \<Rightarrow> string \<Rightarrow> string \<Rightarrow> files \<Rightarrow> (err + unit) \<times> files" where
  "moveIfExists h src dst fs =
     (case os_Stat h fs src of
        Inl e \<Rightarrow> (if e = EOS NotExist then Inr () else Inl e, fs)
      | Inr _ \<Rightarrow>
          (case os_Stat h fs dst of
             Inr _ \<Rightarrow> (Inr (), fs)
           | Inl _ \<Rightarrow> os_Rename h src dst fs))"

text \<open>The fields of the old \<^verbatim>\<open>config.json\<close>: everything but the identity is skipped.\<close>

definition readLegacyAgentID :: "host \<Rightarrow> files \<Rightarrow> string \<Rightarrow> string" where
  "readLegacyAgentID h fs p =
     (case os_ReadFile h fs p of
        Inl _ \<Rightarrow> []
      | Inr data \<Rightarrow>
          (case ho_parse h data of
             None \<Rightarrow> []
           | Some j \<Rightarrow>
               (case into_struct (\<lambda>k v a. if k = ''agent_id'' then into_string a v else Some a) [] j of
                  None \<Rightarrow> []
                | Some a \<Rightarrow> a)))"

definition legacyHookCommand :: string where
  "legacyHookCommand = ''bash .orchestrator/scripts/hub-bootstrap.sh''"

definition newHookCommand :: string where
  "newHookCommand = ''bones hub start''"

text \<open>\<^verbatim>\<open>strings.ReplaceAll\<close> for a text \<open>old\<close> that is not empty.\<close>

function replace_all :: "string \<Rightarrow> string \<Rightarrow> string \<Rightarrow> string" where
  "replace_all old new s =
     (if s = [] \<or> old = [] then s
      else if has_prefix s old then new @ replace_all old new (drop (length old) s)
      else hd s # replace_all old new (tl s))"
  by pat_completeness auto
termination
  by (relation "measure (\<lambda>(old, new, s). length s)") auto

declare replace_all.simps [simp del]

definition rewriteHookForADR0041 :: "host \<Rightarrow> string \<Rightarrow> files \<Rightarrow> (err + unit) \<times> files" where
  "rewriteHookForADR0041 h workspaceDir fs =
     (let p = Join (Join workspaceDir ''.claude'') ''settings.json'' in
      case os_ReadFile h fs p of
        Inl e \<Rightarrow> (if e = EOS NotExist then Inr () else Inl e, fs)
      | Inr data \<Rightarrow>
          if \<not> str_contains data legacyHookCommand then (Inr (), fs)
          else os_WriteFile h p (replace_all legacyHookCommand newHookCommand data) fs)"

text \<open>The names below \<^verbatim>\<open>.orchestrator\<close> and their new names below \<^verbatim>\<open>.bones\<close>.\<close>

definition layout_moves :: "(string \<times> string) list" where
  "layout_moves =
     [(''hub.fossil'', ''hub.fossil''), (''hub-fossil-url'', ''hub-fossil-url''), (''hub-nats-url'', ''hub-nats-url''),
      (''nats-store'', ''coord''), (''fossil.log'', ''fossil.log''), (''nats.log'', ''nats.log''), (''hub.log'', ''hub.log''),
      (''pids'', ''pids'')]"

fun run_moves :: "host \<Rightarrow> string \<Rightarrow> string \<Rightarrow> (string \<times> string) list \<Rightarrow> files \<Rightarrow> (err + unit) \<times> files" where
  "run_moves h orch bones [] fs = (Inr (), fs)"
| "run_moves h orch bones ((a, b) # ms) fs =
     (case moveIfExists h (Join orch a) (Join bones b) fs of
        (Inl e, fs1) \<Rightarrow> (Inl e, fs1)
      | (Inr _, fs1) \<Rightarrow> run_moves h orch bones ms fs1)"

text \<open>Removals whose outcome the code ignores.\<close>

definition remove_quietly :: "host \<Rightarrow> string list \<Rightarrow> files \<Rightarrow> files" where
  "remove_quietly h ps fs = foldl (\<lambda>f p. snd (os_Remove h p f)) fs ps"

text \<open>\<open>uuid\<close> is the fresh identifier of \<^verbatim>\<open>uuid.NewString\<close>.\<close>

definition ensure_agent_id :: "host \<Rightarrow> string \<Rightarrow> string \<Rightarrow> string \<Rightarrow> files \<Rightarrow> (err + unit) \<times> files" where
  "ensure_agent_id h uuid cachedAgentID workspaceDir fs =
     (case readAgentID h fs workspaceDir of
        Inr existing \<Rightarrow>
          if existing = [] then writeAgentID h workspaceDir (if cachedAgentID = [] then uuid else cachedAgentID) fs else (Inr (), fs)
      | Inl _ \<Rightarrow> writeAgentID h workspaceDir (if cachedAgentID = [] then uuid else cachedAgentID) fs)"

definition finish_layout :: "host \<Rightarrow> string \<Rightarrow> string \<Rightarrow> string \<Rightarrow> files \<Rightarrow> (err + unit) \<times> files" where
  "finish_layout h workspaceDir orch bones fs =
     (let fs1 = remove_quietly h (map (Join bones) [''config.json'', ''repo.fossil'', ''leaf.pid'', ''leaf.log'']) fs in
      case rewriteHookForADR0041 h workspaceDir fs1 of
        (Inl e, fs2) \<Rightarrow> (Inl e, fs2)
      | (Inr _, fs2) \<Rightarrow>
          os_Remove h orch
            (remove_quietly h
               [Join (Join orch ''scripts'') ''hub-bootstrap.sh'', Join (Join orch ''scripts'') ''hub-shutdown.sh'',
                Join orch ''scripts''] fs2))"

definition migrateLegacyLayout :: "host \<Rightarrow> string \<Rightarrow> string \<Rightarrow> files \<Rightarrow> (err + unit) \<times> files" where
  "migrateLegacyLayout h uuid workspaceDir fs =
     (case detectLegacyLayout h fs workspaceDir of
        Inl e \<Rightarrow> (Inl e, fs)
      | Inr legacyAbsent \<Rightarrow> (Inr (), fs)
      | Inr legacyLive \<Rightarrow> (Inl (EWorkspace ErrLegacyLayout), fs)
      | Inr legacyDead \<Rightarrow>
          (let orch = Join workspaceDir legacyOrchDirName; bones = Join workspaceDir markerDirName in
           case os_MkdirAll h bones fs of
             (Inl e, fs1) \<Rightarrow> (Inl e, fs1)
           | (Inr _, fs1) \<Rightarrow>
               let cachedAgentID = readLegacyAgentID h fs1 (Join bones ''config.json'') in
               (case run_moves h orch bones layout_moves fs1 of
                  (Inl e, fs2) \<Rightarrow> (Inl e, fs2)
                | (Inr _, fs2) \<Rightarrow>
                    (case ensure_agent_id h uuid cachedAgentID workspaceDir fs2 of
                       (Inl e, fs3) \<Rightarrow> (Inl e, fs3)
                     | (Inr _, fs3) \<Rightarrow> finish_layout h workspaceDir orch bones fs3))))"

text \<open>A failure of the rename is reported on the error output only.\<close>

definition migrateNATSStoreToCoord :: "host \<Rightarrow> string \<Rightarrow> files \<Rightarrow> (err + unit) \<times> files" where
  "migrateNATSStoreToCoord h workspaceDir fs =
     (let bones = Join workspaceDir markerDirName; src = Join bones ''nats-store''; dst = Join bones ''coord'' in
      case os_Stat h fs src of
        Inl e \<Rightarrow> (if e = EOS NotExist then Inr () else Inl e, fs)
      | Inr _ \<Rightarrow>
          (case os_Stat h fs dst of
             Inr _ \<Rightarrow> (Inr (), fs)
           | Inl _ \<Rightarrow> (Inr (), snd (os_Rename h src dst fs))))"

section \<open>Init and Join\<close>

record ws_Info =
  wi_AgentID :: string
  wi_NATSURL :: string
  wi_LeafHTTPURL :: string
  wi_WorkspaceDir :: string

text \<open>The step both entry points share: bring an old layout up to date, or refuse.\<close>

definition upgrade_layout :: "host \<Rightarrow> string \<Rightarrow> string \<Rightarrow> files \<Rightarrow> (err + unit) \<times> files" where
  "upgrade_layout h uuid dir fs =
     (case detectLegacyLayout h fs dir of
        Inl e \<Rightarrow> (Inl e, fs)
      | Inr legacyLive \<Rightarrow> (Inl (EWorkspace ErrLegacyLayout), fs)
      | Inr legacyDead \<Rightarrow> migrateLegacyLayout h uuid dir fs
      | Inr legacyAbsent \<Rightarrow> (Inr (), fs))"

definition initLogic :: "host \<Rightarrow> string \<Rightarrow> string \<Rightarrow> files \<Rightarrow> (err + ws_Info) \<times> files" where
  "initLogic h uuid cwd fs =
     (case migrateLegacyMarker h cwd fs of
        (Inl e, fs1) \<Rightarrow> (Inl e, fs1)
      | (Inr _, fs1) \<Rightarrow>
          (case upgrade_layout h uuid cwd fs1 of
             (Inl e, fs2) \<Rightarrow> (Inl e, fs2)
           | (Inr _, fs2) \<Rightarrow>
               (case os_MkdirAll h (bones_dir h cwd) fs2 of
                  (Inl e, fs3) \<Rightarrow> (Inl e, fs3)
                | (Inr _, fs3) \<Rightarrow>
                    (case migrateNATSStoreToCoord h cwd fs3 of
                       (Inl e, fs4) \<Rightarrow> (Inl e, fs4)
                     | (Inr _, fs4) \<Rightarrow>
                         (case readAgentID h fs4 cwd of
                            Inr i \<Rightarrow> (Inr \<lparr>wi_AgentID = i, wi_NATSURL = [], wi_LeafHTTPURL = [], wi_WorkspaceDir = cwd\<rparr>, fs4)
                          | Inl e \<Rightarrow>
                              if e \<noteq> EOS NotExist then (Inl e, fs4)
                              else (case writeAgentID h cwd uuid fs4 of
                                      (Inl e', fs5) \<Rightarrow> (Inl e', fs5)
                                    | (Inr _, fs5) \<Rightarrow>
                                        (Inr \<lparr>wi_AgentID = uuid, wi_NATSURL = [], wi_LeafHTTPURL = [], wi_WorkspaceDir = cwd\<rparr>, fs5)))))))"

text \<open>\<^verbatim>\<open>hub.FossilURL\<close> and \<^verbatim>\<open>hub.NATSURL\<close>: the root must be a folder.\<close>

definition hub_url :: "host \<Rightarrow> files \<Rightarrow> string \<Rightarrow> string \<Rightarrow> string" where
  "hub_url h fs root name =
     (case ho_abs h root of
        Inl _ \<Rightarrow> []
      | Inr a \<Rightarrow>
          (case os_Stat h fs a of
             Inl _ \<Rightarrow> []
           | Inr (Doc _) \<Rightarrow> []
           | Inr Folder \<Rightarrow>
               (case os_ReadFile h fs (Join (bones_dir h a) name) of Inl _ \<Rightarrow> [] | Inr data \<Rightarrow> TrimSpace data)))"

definition HubIsHealthy :: "host \<Rightarrow> (string \<Rightarrow> bool) \<Rightarrow> files \<Rightarrow> string \<Rightarrow> bool" where
  "HubIsHealthy h healthzOK fs workspaceDir =
     (if \<not> pidFileLive h fs (Join (bones_dir h workspaceDir) ''hub.pid'') then False
      else let url = hub_url h fs workspaceDir ''hub-fossil-url''
           in if url = [] then False else healthzOK (url @ ''/healthz''))"

definition joinLogic ::
  "host \<Rightarrow> string \<Rightarrow> (string \<Rightarrow> bool) \<Rightarrow> (string \<Rightarrow> files \<Rightarrow> (err + unit) \<times> files) \<Rightarrow> string \<Rightarrow> files \<Rightarrow> (err + ws_Info) \<times> files" where
  "joinLogic h uuid healthzOK hubStart cwd fs =
     (case migrateLegacyMarker h cwd fs of
        (Inl e, fs1) \<Rightarrow> (Inl e, fs1)
      | (Inr _, fs1) \<Rightarrow>
          (case walkUp h fs1 cwd of
             Inl e \<Rightarrow> (Inl e, fs1)
           | Inr dir \<Rightarrow>
               (case upgrade_layout h uuid dir fs1 of
                  (Inl e, fs2) \<Rightarrow> (Inl e, fs2)
                | (Inr _, fs2) \<Rightarrow>
                    (case migrateNATSStoreToCoord h dir fs2 of
                       (Inl e, fs3) \<Rightarrow> (Inl e, fs3)
                     | (Inr _, fs3) \<Rightarrow>
                         (case readAgentID h fs3 dir of
                            Inl e \<Rightarrow> (Inl e, fs3)
                          | Inr i \<Rightarrow>
                              (case (if HubIsHealthy h healthzOK fs3 dir then (Inr (), fs3) else hubStart dir fs3) of
                                 (Inl e, fs4) \<Rightarrow> (Inl e, fs4)
                               | (Inr _, fs4) \<Rightarrow>
                                   let natsURL = hub_url h fs4 dir ''hub-nats-url''; fossilURL = hub_url h fs4 dir ''hub-fossil-url'' in
                                   if natsURL = [] \<or> fossilURL = [] then (Inl (EMsg ''hub URLs not recorded after start''), fs4)
                                   else (Inr \<lparr>wi_AgentID = i, wi_NATSURL = natsURL, wi_LeafHTTPURL = fossilURL,
                                              wi_WorkspaceDir = dir\<rparr>, fs4)))))))"

section \<open>Lemmas: walking up\<close>

lemma last_index_none: "c \<notin> set xs \<Longrightarrow> last_index c xs = None"
  by (induction xs) auto

lemma abs_path_snoc:
  "abs_path (ps @ [p]) = (if ps = [] then ''/'' else abs_path ps @ ''/'') @ p"
  using join_with_append [of ps "[p]" "''/''"] by (simp add: abs_path_def)

lemma Clean_slash: "list_all good_part ps \<Longrightarrow> Clean (if ps = [] then ''/'' else abs_path ps @ ''/'') = abs_path ps"
proof (cases "ps = []")
  case False
  assume g: "list_all good_part ps"
  have "clean_parts True [] (split_on CHR ''/'' (abs_path ps @ ''/'')) = ps"
    using split_abs_path [OF g, of "[]"] clean_parts_append [of True "[]" "split_on CHR ''/'' (abs_path ps)" "[[]]"]
      split_on_append [of "CHR ''/''" "abs_path ps" "[]"] by simp
  with False show ?thesis by (simp add: Clean_def abs_path_def)
qed (simp add: Clean_def abs_path_def)

lemma path_Dir_abs:
  assumes "list_all good_part cs"
  shows "path_Dir (abs_path cs) = abs_path (butlast cs)"
proof (cases cs rule: rev_cases)
  case Nil
  then show ?thesis by (simp add: path_Dir_def abs_path_def Clean_def)
next
  case (snoc ps p)
  let ?r = "if ps = [] then ''/'' else abs_path ps @ ''/''"
  have p: "CHR ''/'' \<notin> set p" "list_all good_part ps" using assms snoc by (simp_all add: good_part_def)
  have r: "\<exists>x. ?r = x @ ''/''" by auto
  then obtain x where x: "?r = x @ ''/''" by blast
  have "last_index CHR ''/'' (?r @ p) = Some (length x)"
    unfolding x using last_index_none [OF p(1)] by (simp add: last_index_append)
  then have "path_Dir (abs_path cs) = Clean ?r"
    unfolding path_Dir_def snoc abs_path_snoc x by simp
  then show ?thesis using Clean_slash [OF p(2)] snoc by simp
qed

lemma abs_path_butlast_neq: "list_all good_part cs \<Longrightarrow> abs_path (butlast cs) = abs_path cs \<longleftrightarrow> cs = []"
proof -
  assume g: "list_all good_part cs"
  then have "list_all good_part (butlast cs)" by (auto simp: list_all_iff dest: in_set_butlastD)
  then have "abs_path (butlast cs) = abs_path cs \<longleftrightarrow> butlast cs = cs" using abs_path_inj [OF _ g] by auto
  also have "\<dots> \<longleftrightarrow> cs = []" by (cases cs rule: rev_cases) auto
  finally show ?thesis .
qed

text \<open>The levels at which the loop looks: \<open>k\<close> components of the path, from all of them downward.\<close>

definition marked_levels :: "host \<Rightarrow> files \<Rightarrow> string list \<Rightarrow> nat set" where
  "marked_levels h fs cs = {k. k \<le> length cs \<and> has_marker h fs (abs_path (take k cs))}"

lemma marked_levels_snoc:
  "marked_levels h fs (ps @ [p]) =
     marked_levels h fs ps \<union> (if has_marker h fs (abs_path (ps @ [p])) then {Suc (length ps)} else {})"
  by (auto simp: marked_levels_def le_Suc_eq)

lemma finite_marked [simp]: "finite (marked_levels h fs cs)"
  by (simp add: marked_levels_def)

lemma marked_le: "k \<in> marked_levels h fs cs \<Longrightarrow> k \<le> length cs"
  by (simp add: marked_levels_def)

lemma walk_loop_nearest:
  assumes "list_all good_part cs"
  shows "walk_loop n h fs (abs_path cs) =
    (if \<exists>k \<in> marked_levels h fs cs. length cs < k + n
     then Inr (abs_path (take (Max (marked_levels h fs cs)) cs))
     else if length cs < n then Inl (EWorkspace ErrNoWorkspace)
     else Inl (EMsg ''workspace: walkUp exceeded 64 levels''))"
  using assms
proof (induction n arbitrary: cs)
  case 0
  have "\<not> (\<exists>k \<in> marked_levels h fs cs. length cs < k + 0)" by (auto simp: marked_levels_def)
  then show ?case by simp
next
  case (Suc n)
  show ?case
  proof (cases "has_marker h fs (abs_path cs)")
    case True
    then have m: "length cs \<in> marked_levels h fs cs" by (simp add: marked_levels_def)
    then have "Max (marked_levels h fs cs) = length cs"
      by (intro Max_eqI) (auto simp: marked_levels_def)
    moreover have "\<exists>k \<in> marked_levels h fs cs. length cs < k + Suc n" using m by force
    ultimately show ?thesis using True by simp
  next
    case False
    show ?thesis
    proof (cases cs rule: rev_cases)
      case Nil
      then have "marked_levels h fs cs = {}" using False by (auto simp: marked_levels_def)
      with False Nil path_Dir_abs [of "[]"] show ?thesis by simp
    next
      case (snoc ps p)
      then have g: "list_all good_part ps" using Suc.prems by simp
      have m: "marked_levels h fs cs = marked_levels h fs ps" using False snoc by (simp add: marked_levels_snoc)
      have d: "path_Dir (abs_path cs) = abs_path ps" "abs_path ps \<noteq> abs_path cs"
        using path_Dir_abs [OF Suc.prems] abs_path_butlast_neq [OF Suc.prems] snoc by simp_all
      have mx: "k \<in> marked_levels h fs ps \<Longrightarrow> Max (marked_levels h fs ps) \<le> length ps" for k
        using Max_in [of "marked_levels h fs ps"] marked_le by (metis empty_iff finite_marked)
      show ?thesis
        using Suc.IH [OF g] False d m snoc mx by fastforce
    qed
  qed
qed

text \<open>The directory of a workspace is the deepest marked one.\<close>

lemma walkUp_in_tree:
  assumes "ho_BonesDir h = []" and "ho_abs h start = Inr (abs_path cs)"
  shows "walkUp h fs start = walk_loop maxWalkUpDepth h fs (abs_path cs)"
  using assms by (simp add: walkUp_def)

section \<open>Lemmas: what a migration leaves alone\<close>

lemma Join_good: "list_all good_part cs \<Longrightarrow> good_part x \<Longrightarrow> Join (abs_path cs) x = abs_path (cs @ [x])"
proof -
  assume g: "list_all good_part cs" "good_part x"
  have "clean_parts True [] (split_on CHR ''/'' (abs_path cs @ ''/'' @ x)) = cs @ [x]"
    using split_abs_path [OF g(1), of "[]"] split_on_append [of "CHR ''/''" "abs_path cs" x] g(2)
      clean_parts_append [of True "[]" "split_on CHR ''/'' (abs_path cs)" "split_on CHR ''/'' x"] split_on_no_sep [of "CHR ''/''" x]
    by (simp add: good_part_def)
  then have "Clean (abs_path cs @ ''/'' @ x) = abs_path (cs @ [x])" by (simp add: Clean_def abs_path_def)
  with g(2) show ?thesis using Join_abs [of x cs] by (simp add: good_part_def)
qed

lemma good_names [simp]:
  "good_part markerDirName" "good_part legacyMarkerDirName" "good_part legacyOrchDirName" "good_part agentIDFile"
  by code_simp+

text \<open>Paths below the root of a workspace are told apart by their components.\<close>

lemma paths_eq:
  "list_all good_part (cs @ xs) \<Longrightarrow> list_all good_part (cs @ ys) \<Longrightarrow> abs_path (cs @ xs) = abs_path (cs @ ys) \<longleftrightarrow> xs = ys"
  using abs_path_inj [of "cs @ xs" "cs @ ys"] by auto

lemma paths_under:
  assumes "list_all good_part (cs @ xs)" and "list_all good_part (cs @ ys)" and "xs \<noteq> []"
  shows "under (abs_path (cs @ xs)) (abs_path (cs @ ys)) \<longleftrightarrow> (\<exists>zs. zs \<noteq> [] \<and> ys = xs @ zs)"
  using abs_path_prefix [OF assms(1,2)] abs_path_extend [of "cs @ xs"] assms(3) by (auto simp: under_def)

definition keeps :: "string set \<Rightarrow> files \<Rightarrow> files \<Rightarrow> bool" where
  "keeps Q fs fs' \<longleftrightarrow> (\<forall>q \<in> Q. map_of fs' q = map_of fs q)"

lemma keeps_refl [simp]: "keeps Q fs fs"
  by (simp add: keeps_def)

lemma keeps_trans: "keeps Q fs fs1 \<Longrightarrow> keeps Q fs1 fs2 \<Longrightarrow> keeps Q fs fs2"
  by (simp add: keeps_def)

lemma keeps_calls:
  "os_WriteFile h p c fs = (r, fs') \<Longrightarrow> p \<notin> Q \<Longrightarrow> keeps Q fs fs'"
  "os_MkdirAll h p fs = (r', fs') \<Longrightarrow> p \<notin> Q \<Longrightarrow> keeps Q fs fs'"
  "os_Remove h p fs = (r'', fs') \<Longrightarrow> p \<notin> Q \<Longrightarrow> keeps Q fs fs'"
  by (auto simp: keeps_def os_WriteFile_def os_MkdirAll_def os_Remove_def update_conv' delete_conv'
      split: option.splits node.splits if_splits)

lemma keeps_rename:
  "os_Rename h src dst fs = (r, fs') \<Longrightarrow> \<forall>q \<in> Q. q \<noteq> src \<and> \<not> under src q \<and> q \<noteq> dst \<and> \<not> under dst q \<Longrightarrow> keeps Q fs fs'"
  by (auto simp: keeps_def os_Rename_def map_of_moved delete_conv' split: option.splits if_splits)

lemma keeps_move:
  "moveIfExists h src dst fs = (r, fs') \<Longrightarrow> \<forall>q \<in> Q. q \<noteq> src \<and> \<not> under src q \<and> q \<noteq> dst \<and> \<not> under dst q \<Longrightarrow> keeps Q fs fs'"
  by (auto simp: moveIfExists_def split: sum.splits if_splits dest: keeps_rename)

lemma keeps_moves:
  "run_moves h orch bones ms fs = (r, fs') \<Longrightarrow>
   \<forall>(a, b) \<in> set ms. \<forall>q \<in> Q. q \<noteq> Join orch a \<and> \<not> under (Join orch a) q \<and> q \<noteq> Join bones b \<and> \<not> under (Join bones b) q \<Longrightarrow>
   keeps Q fs fs'"
proof (induction ms arbitrary: fs)
  case (Cons e ms)
  obtain a b where e: "e = (a, b)" by (cases e)
  obtain r1 fs1 where m: "moveIfExists h (Join orch a) (Join bones b) fs = (r1, fs1)" by (cases "moveIfExists h (Join orch a) (Join bones b) fs")
  have k: "keeps Q fs fs1" by (rule keeps_move [OF m]) (use Cons.prems(2) e in auto)
  show ?case
    using Cons.prems m e Cons.IH [of fs1] k by (auto split: sum.splits intro: keeps_trans)
qed simp

lemma keeps_remove_quietly: "set ps \<inter> Q = {} \<Longrightarrow> keeps Q fs (remove_quietly h ps fs)"
proof (induction ps arbitrary: fs)
  case (Cons p ps)
  have "keeps Q fs (snd (os_Remove h p fs))"
    by (rule keeps_calls(3) [where r'' = "fst (os_Remove h p fs)"]) (use Cons.prems in auto)
  with Cons show ?case by (simp add: remove_quietly_def keeps_def)
qed (simp add: remove_quietly_def)

lemma keeps_agent_id:
  assumes "ensure_agent_id h uuid c dir fs = (r, fs')" and "bones_dir h dir \<notin> Q" and "Join (bones_dir h dir) agentIDFile \<notin> Q"
  shows "keeps Q fs fs'"
proof -
  have "keeps Q fs fs'" if "writeAgentID h dir i fs = (r, fs')" for i r
    using that assms(2,3)
    by (auto simp: writeAgentID_def Let_def split: prod.splits sum.splits dest!: keeps_calls [where Q = Q] intro: keeps_trans)
  then show ?thesis using assms(1) by (auto simp: ensure_agent_id_def split: sum.splits if_splits)
qed

lemma keeps_hook:
  "rewriteHookForADR0041 h dir fs = (r, fs') \<Longrightarrow> Join (Join dir ''.claude'') ''settings.json'' \<notin> Q \<Longrightarrow> keeps Q fs fs'"
  by (auto simp: rewriteHookForADR0041_def Let_def split: sum.splits if_splits dest: keeps_calls)

text \<open>
  A file below \<^verbatim>\<open>.orchestrator\<close> that the migration does not know: every step leaves it where it is, so the folder cannot
  be removed in the end.
\<close>

definition known_names :: "string list" where
  "known_names = ''scripts'' # map fst layout_moves"

definition stray :: "string list \<Rightarrow> string \<Rightarrow> files \<Rightarrow> bool" where
  "stray cs x fs \<longleftrightarrow> map_of fs (abs_path (cs @ [legacyOrchDirName])) = Some Folder \<and>
     map_of fs (abs_path (cs @ [legacyOrchDirName, x])) \<noteq> None"

lemma stray_keeps:
  "keeps {abs_path (cs @ [legacyOrchDirName]), abs_path (cs @ [legacyOrchDirName, x])} fs fs' \<Longrightarrow> stray cs x fs \<Longrightarrow> stray cs x fs'"
  by (simp add: stray_def keeps_def)

lemma known_good: "list_all (\<lambda>(a, b). good_part a \<and> good_part b) layout_moves" "good_part ''scripts''" "good_part ''pids''"
  "good_part ''.claude''" "good_part ''settings.json''" "good_part ''hub-bootstrap.sh''" "good_part ''hub-shutdown.sh''"
  "list_all good_part [''config.json'', ''repo.fossil'', ''leaf.pid'', ''leaf.log'']" "good_part ''coord''" "good_part ''nats-store''"
  "markerDirName \<noteq> legacyOrchDirName" "''.claude'' \<noteq> legacyOrchDirName" "legacyMarkerDirName \<noteq> legacyOrchDirName"
  "legacyMarkerDirName \<noteq> markerDirName" "''.claude'' \<noteq> legacyMarkerDirName" "''.claude'' \<noteq> markerDirName"
  by code_simp+

lemma stray_not_empty:
  assumes "stray cs x fs" and "list_all good_part (cs @ [legacyOrchDirName, x])"
  shows "\<not> empty_below fs (abs_path (cs @ [legacyOrchDirName]))"
proof
  assume "empty_below fs (abs_path (cs @ [legacyOrchDirName]))"
  moreover have "under (abs_path (cs @ [legacyOrchDirName])) (abs_path (cs @ [legacyOrchDirName, x]))"
    using paths_under [of cs "[legacyOrchDirName]" "[legacyOrchDirName, x]"] assms(2) by simp
  ultimately show False using map_of_none_below assms(1) by (fastforce simp: stray_def)
qed

text \<open>
  The paths below the root the migration works on, by their components: everything below \<^verbatim>\<open>.bones\<close> and \<^verbatim>\<open>.claude\<close>, and the
  known names below \<^verbatim>\<open>.orchestrator\<close>. Every other path keeps its file.
\<close>

definition worked_on :: "string list \<Rightarrow> bool" where
  "worked_on ys =
     (case ys of
        [] \<Rightarrow> False
      | d # zs \<Rightarrow> d = markerDirName \<or> d = ''.claude'' \<or>
          (d = legacyOrchDirName \<and> (case zs of [] \<Rightarrow> False | a # _ \<Rightarrow> a \<in> set known_names)))"

definition aside :: "string list \<Rightarrow> string set \<Rightarrow> bool" where
  "aside cs Q \<longleftrightarrow> (\<forall>q \<in> Q. \<exists>ys. q = abs_path (cs @ ys) \<and> list_all good_part (cs @ ys) \<and> \<not> worked_on ys)"

lemma aside_path:
  assumes "aside cs Q" and "q \<in> Q" and "worked_on xs" and "list_all good_part (cs @ xs)"
  shows "q \<noteq> abs_path (cs @ xs)" and "\<not> under (abs_path (cs @ xs)) q"
proof -
  obtain ys where ys: "q = abs_path (cs @ ys)" "list_all good_part (cs @ ys)" "\<not> worked_on ys"
    using assms(1,2) by (auto simp: aside_def)
  have "xs \<noteq> []" using assms(3) by (auto simp: worked_on_def)
  have "worked_on (xs @ zs)" for zs
    using assms(3) by (auto simp: worked_on_def split: list.splits)
  then show "q \<noteq> abs_path (cs @ xs)" "\<not> under (abs_path (cs @ xs)) q"
    using ys paths_eq [OF ys(2) assms(4)] paths_under [OF assms(4) ys(2) \<open>xs \<noteq> []\<close>] assms(3) by auto
qed

lemma aside_keeps:
  assumes g: "list_all good_part cs" and Q: "aside cs Q" and env: "ho_BonesDir h = []"
    and dead: "detectLegacyLayout h fs (abs_path cs) = Inr legacyDead"
    and m: "migrateLegacyLayout h uuid (abs_path cs) fs = (r, fs')"
  obtains e where "r = Inl e" and "keeps Q fs fs'"
  | fs2 where "keeps Q fs fs2" and "os_Remove h (abs_path (cs @ [legacyOrchDirName])) fs2 = (r, fs')"
proof -
  let ?orch = "abs_path (cs @ [legacyOrchDirName])" and ?bones = "abs_path (cs @ [markerDirName])"
  have j: "Join (abs_path cs) legacyOrchDirName = ?orch" "Join (abs_path cs) markerDirName = ?bones"
    using Join_good [OF g] by simp_all
  have bd: "bones_dir h (abs_path cs) = ?bones" using env j(2) by (simp add: bones_dir_def BonesDir_def markerDirName_def)
  have gb: "list_all good_part (cs @ [markerDirName])" "list_all good_part (cs @ [legacyOrchDirName])" using g by simp_all
  have jb: "good_part x \<Longrightarrow> Join ?bones x = abs_path (cs @ [markerDirName, x])" for x
    using Join_good [OF gb(1)] by simp
  have jo: "good_part x \<Longrightarrow> Join ?orch x = abs_path (cs @ [legacyOrchDirName, x])" for x
    using Join_good [OF gb(2)] by simp
  have off: "abs_path (cs @ xs) \<notin> Q" if "worked_on xs" "list_all good_part xs" for xs
    using aside_path [OF Q _ that(1)] that(2) g by auto
  have wb: "worked_on (markerDirName # xs)" for xs by (simp add: worked_on_def)
  have wo: "a \<in> set known_names \<Longrightarrow> worked_on (legacyOrchDirName # a # xs)" for a xs by (simp add: worked_on_def)
  obtain r1 fs1 where s1: "os_MkdirAll h ?bones fs = (r1, fs1)" by (cases "os_MkdirAll h ?bones fs")
  have k1: "keeps Q fs fs1" by (rule keeps_calls(2) [OF s1 off]) (use wb in simp_all)
  obtain r2 fs2 where s2: "run_moves h ?orch ?bones layout_moves fs1 = (r2, fs2)" by (cases "run_moves h ?orch ?bones layout_moves fs1")
  have mv: "q \<noteq> Join ?orch a \<and> \<not> under (Join ?orch a) q \<and> q \<noteq> Join ?bones b \<and> \<not> under (Join ?bones b) q"
    if ab: "(a, b) \<in> set layout_moves" and q: "q \<in> Q" for a b q
  proof -
    have "good_part a" "good_part b" using ab known_good(1) by (auto simp: list_all_iff)
    moreover have "a \<in> set known_names" using ab by (force simp: known_names_def)
    ultimately show ?thesis
      using aside_path [OF Q q wo [of a "[]"]] aside_path [OF Q q wb [of "[b]"]] g jo [of a] jb [of b] by simp
  qed
  have k2: "keeps Q fs1 fs2" by (rule keeps_moves [OF s2]) (use mv in auto)
  define c where "c = readLegacyAgentID h fs1 (Join ?bones ''config.json'')"
  obtain r3 fs3 where s3: "ensure_agent_id h uuid c (abs_path cs) fs2 = (r3, fs3)" by (cases "ensure_agent_id h uuid c (abs_path cs) fs2")
  have k3: "keeps Q fs2 fs3"
    by (rule keeps_agent_id [OF s3]) (use bd jb [of agentIDFile] off wb in simp_all)
  define fs4 where "fs4 = remove_quietly h (map (Join ?bones) [''config.json'', ''repo.fossil'', ''leaf.pid'', ''leaf.log'']) fs3"
  have k4: "keeps Q fs3 fs4"
    unfolding fs4_def by (rule keeps_remove_quietly) (use jb known_good(8) off wb in simp)
  obtain r5 fs5 where s5: "rewriteHookForADR0041 h (abs_path cs) fs4 = (r5, fs5)" by (cases "rewriteHookForADR0041 h (abs_path cs) fs4")
  have "Join (Join (abs_path cs) ''.claude'') ''settings.json'' = abs_path (cs @ [''.claude'', ''settings.json''])"
    using Join_good [OF g known_good(4)] Join_good [of "cs @ [''.claude'']" "''settings.json''"] g known_good(4,5) by simp
  moreover have "abs_path (cs @ [''.claude'', ''settings.json'']) \<notin> Q"
    by (rule off) (use known_good(4,5) in \<open>simp_all add: worked_on_def\<close>)
  ultimately have k5: "keeps Q fs4 fs5" by (intro keeps_hook [OF s5]) simp
  let ?s = "abs_path (cs @ [legacyOrchDirName, ''scripts''])"
  have js: "Join ?orch ''scripts'' = ?s" "good_part x \<Longrightarrow> Join ?s x = abs_path (cs @ [legacyOrchDirName, ''scripts'', x])" for x
    using jo [OF known_good(2)] Join_good [of "cs @ [legacyOrchDirName, ''scripts'']" x] g known_good(2) by simp_all
  define fs6 where "fs6 = remove_quietly h [Join (Join ?orch ''scripts'') ''hub-bootstrap.sh'',
    Join (Join ?orch ''scripts'') ''hub-shutdown.sh'', Join ?orch ''scripts''] fs5"
  have k6: "keeps Q fs5 fs6"
    unfolding fs6_def by (rule keeps_remove_quietly) (use js known_good off wo in \<open>simp add: known_names_def\<close>)
  note ks = k1 keeps_trans [OF k1 k2] keeps_trans [OF keeps_trans [OF k1 k2] k3]
  have k5': "keeps Q fs fs5" "keeps Q fs fs6" using ks k4 k5 k6 keeps_trans by blast+
  have m': "migrateLegacyLayout h uuid (abs_path cs) fs =
    (case r1 of Inl e \<Rightarrow> (Inl e, fs1) | Inr _ \<Rightarrow> (case r2 of Inl e \<Rightarrow> (Inl e, fs2) | Inr _ \<Rightarrow>
       (case r3 of Inl e \<Rightarrow> (Inl e, fs3) | Inr _ \<Rightarrow>
          (case r5 of Inl e \<Rightarrow> (Inl e, fs5) | Inr _ \<Rightarrow> os_Remove h ?orch fs6))))"
    using dead s1 s2 s3 s5
    by (simp add: migrateLegacyLayout_def finish_layout_def j Let_def c_def [symmetric] fs4_def [symmetric] fs6_def [symmetric]
        del: list.map split: sum.splits)
  show ?thesis
    using m that ks k5' unfolding m' by (auto split: sum.splits)
qed

text \<open>Runs of \<^verbatim>\<open>bones up\<close>, each on a host of its own, one after another on the same files.\<close>

primrec init_runs :: "(host \<times> string) list \<Rightarrow> string \<Rightarrow> files \<Rightarrow> (err + ws_Info) list \<times> files" where
  "init_runs [] cwd fs = ([], fs)"
| "init_runs (r # rs) cwd fs =
     (let (o1, fs1) = initLogic (fst r) (snd r) cwd fs; (os, fs2) = init_runs rs cwd fs1 in (o1 # os, fs2))"

lemma stray_aside:
  assumes "list_all good_part (cs @ [legacyOrchDirName, x])" and "x \<notin> set known_names"
  shows "aside cs {abs_path (cs @ [legacyOrchDirName]), abs_path (cs @ [legacyOrchDirName, x])}"
proof -
  have "\<not> worked_on [legacyOrchDirName]" "\<not> worked_on [legacyOrchDirName, x]"
    using assms(2) known_good by (auto simp: worked_on_def)
  with assms(1) show ?thesis
    unfolding aside_def by (fastforce simp: list_all_append)
qed

lemma stray_marker:
  assumes "stray cs x fs" and "list_all good_part (cs @ [legacyOrchDirName, x])" and "migrateLegacyMarker h (abs_path cs) fs = (r, fs')"
  shows "stray cs x fs'"
proof -
  have g: "list_all good_part cs" using assms(2) by simp
  have j: "Join (abs_path cs) legacyMarkerDirName = abs_path (cs @ [legacyMarkerDirName])"
    "Join (abs_path cs) markerDirName = abs_path (cs @ [markerDirName])"
    using Join_good [OF g] by simp_all
  have n: "abs_path (cs @ ys) \<noteq> abs_path (cs @ [d]) \<and> \<not> under (abs_path (cs @ [d])) (abs_path (cs @ ys))"
    if "hd ys \<noteq> d" "ys \<noteq> []" "list_all good_part (cs @ ys)" "good_part d" for ys d
  proof -
    have gd: "list_all good_part (cs @ [d])" using that(4) g by simp
    show ?thesis
      using paths_eq [OF that(3) gd] paths_under [OF gd that(3)] that(1,2) by (cases ys) simp_all
  qed
  have "keeps {abs_path (cs @ [legacyOrchDirName]), abs_path (cs @ [legacyOrchDirName, x])} fs fs'"
  proof (cases "os_Rename h (abs_path (cs @ [legacyMarkerDirName])) (abs_path (cs @ [markerDirName])) fs = (r, fs')")
    case True
    show ?thesis
      by (rule keeps_rename [OF True])
        (use n [of "[legacyOrchDirName]"] n [of "[legacyOrchDirName, x]"] assms(2) known_good in simp)
  next
    case False
    then have "fs' = fs"
      using assms(3) j by (auto simp: migrateLegacyMarker_def Let_def split: sum.splits if_splits)
    then show ?thesis by simp
  qed
  with assms(1) show ?thesis by (rule stray_keeps [rotated])
qed

lemma stray_layout:
  assumes "stray cs x fs" and g: "list_all good_part (cs @ [legacyOrchDirName, x])" and "x \<notin> set known_names"
    and "ho_BonesDir h = []" and "upgrade_layout h uuid (abs_path cs) fs = (r, fs')"
  shows "stray cs x fs' \<and> (\<exists>e. r = Inl e)"
proof -
  let ?Q = "{abs_path (cs @ [legacyOrchDirName]), abs_path (cs @ [legacyOrchDirName, x])}"
  have gc: "list_all good_part cs" using g by simp
  have j: "Join (abs_path cs) legacyOrchDirName = abs_path (cs @ [legacyOrchDirName])"
    using Join_good [OF gc] by simp
  have there: "detectLegacyLayout h fs (abs_path cs) \<noteq> Inr legacyAbsent"
    using assms(1) j by (auto simp: detectLegacyLayout_def os_Stat_def stray_def Let_def split: sum.splits option.splits if_splits)
  show ?thesis
  proof (cases "detectLegacyLayout h fs (abs_path cs) = Inr legacyDead")
    case True
    then have m: "migrateLegacyLayout h uuid (abs_path cs) fs = (r, fs')" using assms(5) by (simp add: upgrade_layout_def)
    show ?thesis
    proof (rule aside_keeps [OF gc stray_aside [OF g assms(3)] assms(4) True m])
      fix e assume "r = Inl e" "keeps ?Q fs fs'"
      then show ?thesis using stray_keeps assms(1) by blast
    next
      fix fs2 assume k: "keeps ?Q fs fs2" and rm: "os_Remove h (abs_path (cs @ [legacyOrchDirName])) fs2 = (r, fs')"
      have s2: "stray cs x fs2" using k assms(1) by (rule stray_keeps)
      then show ?thesis
        using rm stray_not_empty [OF s2 g] by (auto simp: os_Remove_def stray_def split: option.splits if_splits)
    qed
  next
    case False
    with there show ?thesis
      using assms(1,5) by (auto simp: upgrade_layout_def split: sum.splits legacyState.splits)
  qed
qed

lemma stray_Init:
  assumes "stray cs x fs" and "list_all good_part (cs @ [legacyOrchDirName, x])" and "x \<notin> set known_names"
    and "ho_BonesDir h = []"
  shows "stray cs x (snd (initLogic h uuid (abs_path cs) fs)) \<and> (\<exists>e. fst (initLogic h uuid (abs_path cs) fs) = Inl e)"
proof -
  obtain r1 fs1 where m: "migrateLegacyMarker h (abs_path cs) fs = (r1, fs1)" by (cases "migrateLegacyMarker h (abs_path cs) fs")
  have s1: "stray cs x fs1" by (rule stray_marker [OF assms(1,2) m])
  obtain r2 fs2 where u: "upgrade_layout h uuid (abs_path cs) fs1 = (r2, fs2)" by (cases "upgrade_layout h uuid (abs_path cs) fs1")
  show ?thesis
    using stray_layout [OF s1 assms(2-4) u] s1 m u by (auto simp: initLogic_def split: sum.splits)
qed

end
