(* ===== verification/Registry.thy ===== *)
theory Registry
  imports Workspace
begin

text \<open>
  \<^verbatim>\<open>internal/registry\<close>: the records of the workspaces of a user below \<^verbatim>\<open>~/.bones/workspaces\<close>. One file per
  workspace, named by a digest of its directory (\<^verbatim>\<open>registry.go\<close>), the pruning every read does (\<^verbatim>\<open>prune.go\<close>), the listing
  (\<^verbatim>\<open>info.go\<close>, \<^verbatim>\<open>health.go\<close>), the hubs without a workspace (\<^verbatim>\<open>orphan.go\<close>) and the text of the process table
  (\<^verbatim>\<open>processes.go\<close>). \<open>sha\<close> is the hexadecimal SHA-256 digest; what the process table, the links of the file system and a
  probe of a hub answer are arguments.
\<close>

section \<open>Entries\<close>

record Entry =
  en_Cwd :: string
  en_Name :: string
  en_HubURL :: string
  en_NATSURL :: string
  en_HubPID :: int
  en_StartedAt :: time_ns

definition zero_Entry :: Entry where
  "zero_Entry = \<lparr>en_Cwd = [], en_Name = [], en_HubURL = [], en_NATSURL = [], en_HubPID = 0, en_StartedAt = zero_time\<rparr>"

definition encode_Entry :: "Entry \<Rightarrow> json" where
  "encode_Entry e = JObj
     (member ''cwd'' (JStr (en_Cwd e)) @ member ''name'' (JStr (en_Name e)) @ member ''hub_url'' (JStr (en_HubURL e)) @
      member ''nats_url'' (JStr (en_NATSURL e)) @ member ''hub_pid'' (JNum (en_HubPID e)) @
      member ''started_at'' (JTime (en_StartedAt e)))"

definition entry_field :: "string \<Rightarrow> json \<Rightarrow> Entry \<Rightarrow> Entry option" where
  "entry_field k v e =
     (if k = ''cwd'' then map_option (\<lambda>x. e\<lparr>en_Cwd := x\<rparr>) (into_string (en_Cwd e) v)
      else if k = ''name'' then map_option (\<lambda>x. e\<lparr>en_Name := x\<rparr>) (into_string (en_Name e) v)
      else if k = ''hub_url'' then map_option (\<lambda>x. e\<lparr>en_HubURL := x\<rparr>) (into_string (en_HubURL e) v)
      else if k = ''nats_url'' then map_option (\<lambda>x. e\<lparr>en_NATSURL := x\<rparr>) (into_string (en_NATSURL e) v)
      else if k = ''hub_pid'' then map_option (\<lambda>x. e\<lparr>en_HubPID := x\<rparr>) (into_int (en_HubPID e) v)
      else if k = ''started_at'' then map_option (\<lambda>x. e\<lparr>en_StartedAt := x\<rparr>) (into_time (en_StartedAt e) v)
      else Some e)"

definition decode_Entry :: "json \<Rightarrow> Entry option" where
  "decode_Entry j = into_struct entry_field zero_Entry j"

definition WorkspaceID :: "(string \<Rightarrow> string) \<Rightarrow> string \<Rightarrow> string" where
  "WorkspaceID sha cwd = take 16 (sha (Clean cwd))"

definition RegistryDir :: "host \<Rightarrow> string" where
  "RegistryDir h = Join (Join (ho_Home h) ''.bones'') ''workspaces''"

definition EntryPath :: "host \<Rightarrow> (string \<Rightarrow> string) \<Rightarrow> string \<Rightarrow> string" where
  "EntryPath h sha cwd = Join (RegistryDir h) (WorkspaceID sha cwd @ ''.json'')"

definition has_suffix :: "string \<Rightarrow> string \<Rightarrow> bool" where
  "has_suffix s x = has_prefix (rev s) (rev x)"

text \<open>
  \<^verbatim>\<open>filepath.Glob(dir/pre*post)\<close> for a folder whose own name has no pattern character: the names directly below it, in
  order. A folder that cannot be read gives none.
\<close>

definition names_in :: "files \<Rightarrow> string \<Rightarrow> string list" where
  "names_in fs dir =
     remdups (filter (\<lambda>x. x \<noteq> [] \<and> CHR ''/'' \<notin> set x)
       (map (\<lambda>(q, _). drop (length dir + 1) q) (filter (\<lambda>(q, _). under dir q) fs)))"

definition glob :: "host \<Rightarrow> files \<Rightarrow> string \<Rightarrow> string \<Rightarrow> string \<Rightarrow> string list" where
  "glob h fs dir pre post =
     (if ho_fault h ''readdir'' dir \<noteq> None then []
      else map (Join dir)
        (sort (filter (\<lambda>x. has_prefix x pre \<and> has_suffix (drop (length pre) x) post) (names_in fs dir))))"

definition is_tmp :: "string \<Rightarrow> bool" where
  "is_tmp p = str_contains (path_Base p) ''.tmp.''"

definition readEntryAtPath :: "host \<Rightarrow> files \<Rightarrow> string \<Rightarrow> err + Entry" where
  "readEntryAtPath h fs p =
     (case os_ReadFile h fs p of
        Inl e \<Rightarrow> Inl e
      | Inr data \<Rightarrow>
          (case Option.bind (ho_parse h data) decode_Entry of None \<Rightarrow> Inl EDecode | Some e \<Rightarrow> Inr e))"

section \<open>Writing and removing\<close>

text \<open>\<open>rnd\<close> is the random part of the name \<^verbatim>\<open>os.CreateTemp\<close> picks.\<close>

definition registry_Write :: "host \<Rightarrow> (string \<Rightarrow> string) \<Rightarrow> string \<Rightarrow> Entry \<Rightarrow> files \<Rightarrow> (err + unit) \<times> files" where
  "registry_Write h sha rnd e fs =
     (case os_MkdirAll h (RegistryDir h) fs of
        (Inl x, fs1) \<Rightarrow> (Inl x, fs1)
      | (Inr _, fs1) \<Rightarrow>
          let dst = EntryPath h sha (en_Cwd e); tmp = Join (RegistryDir h) (path_Base dst @ ''.tmp.'' @ rnd) in
          (case os_WriteFile h tmp (ho_render h (encode_Entry e)) fs1 of
             (Inl x, fs2) \<Rightarrow> (Inl x, snd (os_Remove h tmp fs2))
           | (Inr _, fs2) \<Rightarrow>
               let (r, fs3) = os_Rename h tmp dst fs2 in (r, snd (os_Remove h tmp fs3))))"

definition matchingPaths :: "host \<Rightarrow> (string \<Rightarrow> string) \<Rightarrow> files \<Rightarrow> string \<Rightarrow> err + string list" where
  "matchingPaths h sha fs cwd =
     (let out = filter (\<lambda>p. \<not> is_tmp p) (glob h fs (RegistryDir h) (WorkspaceID sha cwd @ ''-'') ''.json'');
          canonical = EntryPath h sha cwd
      in case os_Stat h fs canonical of
           Inr _ \<Rightarrow> Inr (out @ [canonical])
         | Inl e \<Rightarrow> if e = EOS NotExist then Inr out else Inl e)"

fun remove_all :: "host \<Rightarrow> string list \<Rightarrow> err option \<Rightarrow> files \<Rightarrow> err option \<times> files" where
  "remove_all h [] firstErr fs = (firstErr, fs)"
| "remove_all h (p # ps) firstErr fs =
     (case os_Remove h p fs of
        (Inl e, fs1) \<Rightarrow>
          remove_all h ps (if e = EOS NotExist then firstErr else if firstErr = None then Some e else firstErr) fs1
      | (Inr _, fs1) \<Rightarrow> remove_all h ps firstErr fs1)"

definition registry_Remove :: "host \<Rightarrow> (string \<Rightarrow> string) \<Rightarrow> string \<Rightarrow> files \<Rightarrow> (err + unit) \<times> files" where
  "registry_Remove h sha cwd fs =
     (case matchingPaths h sha fs cwd of
        Inl e \<Rightarrow> (Inl e, fs)
      | Inr matches \<Rightarrow>
          (case remove_all h matches None fs of
             (Some e, fs1) \<Rightarrow> (Inl e, fs1)
           | (None, fs1) \<Rightarrow> (Inr (), fs1)))"

section \<open>Reading\<close>

definition isStaleEntry :: "host \<Rightarrow> files \<Rightarrow> Entry \<Rightarrow> bool" where
  "isStaleEntry h fs e =
     (if os_Stat h fs (en_Cwd e) = Inl (EOS NotExist) then True
      else if en_HubPID e = 0 then False
      else \<not> pidAlive (ho_alive h) (en_HubPID e))"

definition better_entry :: "host \<Rightarrow> Entry \<Rightarrow> (Entry \<times> string) option \<Rightarrow> bool" where
  "better_entry h e best =
     (case best of
        None \<Rightarrow> True
      | Some (b, _) \<Rightarrow>
          (pidAlive (ho_alive h) (en_HubPID e) \<and> \<not> pidAlive (ho_alive h) (en_HubPID b)) \<or>
          (pidAlive (ho_alive h) (en_HubPID e) = pidAlive (ho_alive h) (en_HubPID b) \<and> en_StartedAt b < en_StartedAt e))"

fun read_loop :: "host \<Rightarrow> string list \<Rightarrow> (Entry \<times> string) option \<Rightarrow> files \<Rightarrow> (Entry \<times> string) option \<times> files" where
  "read_loop h [] best fs = (best, fs)"
| "read_loop h (p # ps) best fs =
     (case readEntryAtPath h fs p of
        Inl _ \<Rightarrow> read_loop h ps best fs
      | Inr e \<Rightarrow>
          if isStaleEntry h fs e then read_loop h ps best (snd (os_Remove h p fs))
          else read_loop h ps (if better_entry h e best then Some (e, p) else best) fs)"

definition migrateToCanonical :: "host \<Rightarrow> string list \<Rightarrow> string \<Rightarrow> string \<Rightarrow> files \<Rightarrow> files" where
  "migrateToCanonical h matches bestPath canonical fs =
     (let fs1 = (if bestPath \<noteq> canonical then snd (os_Rename h bestPath canonical fs) else fs)
      in remove_quietly h (filter (\<lambda>p. p \<noteq> canonical \<and> p \<noteq> bestPath) matches) fs1)"

definition registry_Read :: "host \<Rightarrow> (string \<Rightarrow> string) \<Rightarrow> string \<Rightarrow> files \<Rightarrow> (err + Entry) \<times> files" where
  "registry_Read h sha cwd fs =
     (case matchingPaths h sha fs cwd of
        Inl e \<Rightarrow> (Inl e, fs)
      | Inr matches \<Rightarrow>
          if matches = [] then (Inl (ERegistry RErrNotFound), fs)
          else (case read_loop h matches None fs of
                  (None, fs1) \<Rightarrow> (Inl (ERegistry RErrNotFound), fs1)
                | (Some (best, bestPath), fs1) \<Rightarrow>
                    (Inr best, migrateToCanonical h matches bestPath (EntryPath h sha cwd) fs1)))"

definition registry_Register :: "host \<Rightarrow> (string \<Rightarrow> string) \<Rightarrow> string \<Rightarrow> time_ns \<Rightarrow> string \<Rightarrow> string \<Rightarrow> files \<Rightarrow> (err + unit) \<times> files" where
  "registry_Register h sha rnd now cwd name fs =
     (let e = \<lparr>en_Cwd = cwd, en_Name = name, en_HubURL = [], en_NATSURL = [], en_HubPID = 0, en_StartedAt = now\<rparr> in
      case registry_Read h sha cwd fs of
        (Inr existing, fs1) \<Rightarrow> if en_HubPID existing > 0 then (Inr (), fs1) else registry_Write h sha rnd e fs1
      | (Inl x, fs1) \<Rightarrow> if x = ERegistry RErrNotFound then registry_Write h sha rnd e fs1 else (Inl x, fs1))"

section \<open>Listing\<close>

fun prune_loop :: "host \<Rightarrow> string list \<Rightarrow> files \<Rightarrow> (string \<times> Entry) list \<times> files" where
  "prune_loop h [] fs = ([], fs)"
| "prune_loop h (p # ps) fs =
     (if is_tmp p then prune_loop h ps fs
      else case readEntryAtPath h fs p of
             Inl _ \<Rightarrow> prune_loop h ps fs
           | Inr e \<Rightarrow>
               if isStaleEntry h fs e then prune_loop h ps (snd (os_Remove h p fs))
               else let (es, fs1) = prune_loop h ps fs in ((p, e) # es, fs1))"

definition pruneStale :: "host \<Rightarrow> files \<Rightarrow> (string \<times> Entry) list \<times> files" where
  "pruneStale h fs = prune_loop h (glob h fs (RegistryDir h) [] ''.json'') fs"

definition registry_List :: "host \<Rightarrow> files \<Rightarrow> Entry list \<times> files" where
  "registry_List h fs = map_prod (map snd) id (pruneStale h fs)"

datatype HubStatus = HubRunning | HubStopped | HubUnknown

record registry_Info =
  ri_Entry :: Entry
  ri_ID :: string
  ri_AgentID :: string
  ri_HubStatus :: HubStatus
  ri_LastTouched :: time_ns

definition IsAlive :: "host \<Rightarrow> (string \<Rightarrow> bool) \<Rightarrow> Entry \<Rightarrow> bool" where
  "IsAlive h http e = (pidAlive (ho_alive h) (en_HubPID e) \<and> http (en_HubURL e))"

definition probeStatus :: "host \<Rightarrow> (string \<Rightarrow> bool) \<Rightarrow> Entry \<Rightarrow> HubStatus" where
  "probeStatus h http e =
     (if en_HubURL e = [] \<or> en_HubPID e = 0 then HubUnknown
      else if IsAlive h http e then HubRunning
      else HubStopped)"

definition readAgentIDFile :: "host \<Rightarrow> files \<Rightarrow> string \<Rightarrow> string" where
  "readAgentIDFile h fs cwd =
     (if cwd = [] then []
      else case os_ReadFile h fs (Join (bones_dir h cwd) ''agent.id'') of Inl _ \<Rightarrow> [] | Inr data \<Rightarrow> TrimSpace data)"

definition TrimSuffix :: "string \<Rightarrow> string \<Rightarrow> string" where
  "TrimSuffix s x = (if has_suffix s x then take (length s - length x) s else s)"

definition idFromFilename :: "string \<Rightarrow> string" where
  "idFromFilename p = takeWhile (\<lambda>c. c \<noteq> CHR ''-'') (TrimSuffix (path_Base p) ''.json'')"

text \<open>\<open>mtime\<close> is the modification time of a file. \<^verbatim>\<open>sort.Slice\<close> leaves the order of equal rows open; here they keep theirs.\<close>

fun info_row :: "host \<Rightarrow> (string \<Rightarrow> bool) \<Rightarrow> (string \<Rightarrow> time_ns) \<Rightarrow> files \<Rightarrow> string \<times> Entry \<Rightarrow> registry_Info list" where
  "info_row h http mtime fs (p, e) =
     (case os_Stat h fs p of
        Inl _ \<Rightarrow> []
      | Inr _ \<Rightarrow> [\<lparr>ri_Entry = e, ri_ID = idFromFilename p, ri_AgentID = readAgentIDFile h fs (en_Cwd e),
                   ri_HubStatus = probeStatus h http e, ri_LastTouched = mtime p\<rparr>])"

definition info_before :: "registry_Info \<Rightarrow> registry_Info \<Rightarrow> bool" where
  "info_before x y =
     (if en_Name (ri_Entry x) \<noteq> en_Name (ri_Entry y) then en_Name (ri_Entry x) < en_Name (ri_Entry y)
      else en_Cwd (ri_Entry x) < en_Cwd (ri_Entry y))"

definition ListInfo :: "host \<Rightarrow> (string \<Rightarrow> bool) \<Rightarrow> (string \<Rightarrow> time_ns) \<Rightarrow> files \<Rightarrow> registry_Info list \<times> files" where
  "ListInfo h http mtime fs =
     (let (es, fs1) = pruneStale h fs in (slice_stable info_before (concat (map (info_row h http mtime fs1) es)), fs1))"

section \<open>Hubs without a workspace\<close>

definition isTrashed :: "host \<Rightarrow> string \<Rightarrow> bool" where
  "isTrashed h p =
     (if ho_Home h = [] then False
      else case ho_abs h p of
             Inl _ \<Rightarrow> False
           | Inr a \<Rightarrow>
               list_ex (\<lambda>c. has_prefix a (c @ ''/'') \<or> a = c)
                 (Join (ho_Home h) ''.Trash'' #
                  (if ho_linux h then [Join (Join (Join (ho_Home h) ''.local'') ''share'') ''Trash''] else [])))"

definition missing :: "host \<Rightarrow> files \<Rightarrow> string \<Rightarrow> bool" where
  "missing h fs p = (os_Stat h fs p = Inl (EOS NotExist))"

definition IsOrphan :: "host \<Rightarrow> files \<Rightarrow> Entry \<Rightarrow> bool" where
  "IsOrphan h fs e =
     (if \<not> pidAlive (ho_alive h) (en_HubPID e) then False
      else if missing h fs (en_Cwd e) then True
      else if missing h fs (Join (bones_dir h (en_Cwd e)) ''agent.id'') then True
      else isTrashed h (en_Cwd e))"

definition Orphans :: "host \<Rightarrow> files \<Rightarrow> Entry list \<times> files" where
  "Orphans h fs = (let (es, fs1) = registry_List h fs in (filter (IsOrphan h fs1) es, fs1))"

datatype OrphanSource = SourceRegistry | SourceProcess

record HubProcess =
  hp_PID :: int
  hp_ETime :: string
  hp_Cwd :: string
  hp_Cmd :: string

record OrphanHub =
  oh_Source :: OrphanSource
  oh_Entry :: Entry
  oh_Process :: HubProcess
  oh_PID :: int
  oh_Cwd :: string
  oh_Reason :: string

definition zero_HubProcess :: HubProcess where
  "zero_HubProcess = \<lparr>hp_PID = 0, hp_ETime = [], hp_Cwd = [], hp_Cmd = []\<rparr>"

definition registryOrphanReason :: "host \<Rightarrow> files \<Rightarrow> Entry \<Rightarrow> string" where
  "registryOrphanReason h fs e =
     (if missing h fs (en_Cwd e) then ''cwd no longer exists''
      else if missing h fs (Join (bones_dir h (en_Cwd e)) ''agent.id'') then ''workspace marker missing (.bones/agent.id)''
      else if isTrashed h (en_Cwd e) then ''cwd is in Trash''
      else ''registry entry orphaned'')"

definition processOrphanReason :: "host \<Rightarrow> files \<Rightarrow> HubProcess \<Rightarrow> string" where
  "processOrphanReason h fs p =
     (if hp_Cwd p = [] then ''cwd unknown (process introspection failed)''
      else if missing h fs (hp_Cwd p) then ''cwd no longer exists''
      else ''cwd missing from registry'')"

text \<open>\<open>links\<close> is \<^verbatim>\<open>filepath.EvalSymlinks\<close>.\<close>

definition ResolveCwd :: "(string \<Rightarrow> string option) \<Rightarrow> string \<Rightarrow> string" where
  "ResolveCwd links p = (case links p of Some r \<Rightarrow> r | None \<Rightarrow> Clean p)"

definition registry_orphan :: "host \<Rightarrow> files \<Rightarrow> Entry \<Rightarrow> OrphanHub" where
  "registry_orphan h fs e =
     \<lparr>oh_Source = SourceRegistry, oh_Entry = e, oh_Process = zero_HubProcess, oh_PID = en_HubPID e, oh_Cwd = en_Cwd e,
      oh_Reason = registryOrphanReason h fs e\<rparr>"

definition process_orphan :: "host \<Rightarrow> files \<Rightarrow> HubProcess \<Rightarrow> OrphanHub" where
  "process_orphan h fs p =
     \<lparr>oh_Source = SourceProcess, oh_Entry = zero_Entry, oh_Process = p, oh_PID = hp_PID p, oh_Cwd = hp_Cwd p,
      oh_Reason = processOrphanReason h fs p\<rparr>"

definition known_process :: "(string \<Rightarrow> string option) \<Rightarrow> Entry list \<Rightarrow> HubProcess \<Rightarrow> bool" where
  "known_process links es p =
     (list_ex (\<lambda>e. en_HubPID e > 0 \<and> en_HubPID e = hp_PID p) es \<or>
      (hp_Cwd p \<noteq> [] \<and> list_ex (\<lambda>e. ResolveCwd links (en_Cwd e) = ResolveCwd links (hp_Cwd p)) es))"

definition AllOrphanHubs ::
  "host \<Rightarrow> (string \<Rightarrow> string option) \<Rightarrow> err + HubProcess list \<Rightarrow> files \<Rightarrow> OrphanHub list \<times> err option \<times> files" where
  "AllOrphanHubs h links procs fs =
     (let (es, fs1) = registry_List h fs; out = map (registry_orphan h fs1) (filter (IsOrphan h fs1) es) in
      case procs of
        Inl e \<Rightarrow> (out, Some e, fs1)
      | Inr ps \<Rightarrow> (out @ map (process_orphan h fs1) (filter (\<lambda>p. \<not> known_process links es p) ps), None, fs1))"

text \<open>
  \<open>sig\<close> is the outcome of sending a signal, \<open>probes\<close> what the polls see until the grace period ends (true: still alive).
\<close>

datatype signal = SIGTERM | SIGKILL

definition killPID :: "(signal \<Rightarrow> err option) \<Rightarrow> bool list \<Rightarrow> err option" where
  "killPID sig probes =
     (case sig SIGTERM of
        Some e \<Rightarrow> Some e
      | None \<Rightarrow> if \<not> list_all id probes then None else sig SIGKILL)"

definition ReapEntry ::
  "host \<Rightarrow> (string \<Rightarrow> string) \<Rightarrow> (signal \<Rightarrow> err option) \<Rightarrow> bool list \<Rightarrow> Entry \<Rightarrow> files \<Rightarrow> (err + unit) \<times> files" where
  "ReapEntry h sha sig probes e fs =
     (if \<not> pidAlive (ho_alive h) (en_HubPID e) then registry_Remove h sha (en_Cwd e) fs
      else case killPID sig probes of Some x \<Rightarrow> (Inl x, fs) | None \<Rightarrow> registry_Remove h sha (en_Cwd e) fs)"

definition ReapPID :: "host \<Rightarrow> (signal \<Rightarrow> err option) \<Rightarrow> bool list \<Rightarrow> int \<Rightarrow> err option" where
  "ReapPID h sig probes pid = (if \<not> pidAlive (ho_alive h) pid then None else killPID sig probes)"

section \<open>The process table\<close>

text \<open>\<^verbatim>\<open>strings.Fields\<close>.\<close>

function fields_from :: "string \<Rightarrow> string \<Rightarrow> string list" where
  "fields_from cur s =
     (case s of
        [] \<Rightarrow> if cur = [] then [] else [cur]
      | c # cs \<Rightarrow>
          (case strip_any space_runes s of
             Some r \<Rightarrow> (if cur = [] then [] else [cur]) @ fields_from [] r
           | None \<Rightarrow> fields_from (cur @ [c]) cs))"
  by pat_completeness auto
termination
proof (relation "measure (\<lambda>(cur, s). length s)")
  fix cur s c cs r
  assume "s = c # cs" "strip_any space_runes s = Some r"
  then obtain p where "p \<in> set space_runes" "s = p @ r" using strip_any_Some by blast
  then show "(([], r), (cur, s)) \<in> measure (\<lambda>(cur, s). length s)"
    by (auto simp: space_runes_def)
qed auto

declare fields_from.simps [simp del]

definition Fields :: "string \<Rightarrow> string list" where
  "Fields s = fields_from [] s"

text \<open>The byte offset of a field of a line, the fields counted from one.\<close>

definition is_blank :: "char \<Rightarrow> bool" where
  "is_blank c = (c = CHR '' '' \<or> c = CHR 0x09)"

fun index_after :: "nat \<Rightarrow> nat \<Rightarrow> string \<Rightarrow> nat option" where
  "index_after 0 i line = (let r = dropWhile is_blank line in if r = [] then None else Some (i + (length line - length r)))"
| "index_after (Suc n) i line =
     (let r = dropWhile is_blank line; s = dropWhile (\<lambda>c. \<not> is_blank c) r
      in if r = [] then None else index_after n (i + (length line - length s)) s)"

definition indexAfterField :: "string \<Rightarrow> nat \<Rightarrow> nat option" where
  "indexAfterField line n = index_after n 0 line"

definition hubStartMarker :: string where
  "hubStartMarker = ''bones hub start''"

fun hub_start_pair :: "string list \<Rightarrow> bool" where
  "hub_start_pair (x # y # ys) = ((x = ''hub'' \<and> y = ''start'') \<or> hub_start_pair (y # ys))"
| "hub_start_pair _ = False"

definition looksLikeBonesHubStart :: "string \<Rightarrow> bool" where
  "looksLikeBonesHubStart cmd =
     (let tokens = Fields cmd in
      if length tokens < 3 then False
      else if path_Base (hd tokens) \<noteq> ''bones'' then False
      else hub_start_pair (tl tokens))"

text \<open>\<^verbatim>\<open>strings.ToUpper\<close> on the letters of ASCII, all the header of the table has.\<close>

definition upper :: "char \<Rightarrow> char" where
  "upper c = (if lower c then char_of ((of_char c :: nat) - 32) else c)"

definition is_header :: "string \<Rightarrow> bool" where
  "is_header line = (str_contains (map upper line) ''PID'' \<and> str_contains (map upper line) ''COMMAND'')"

definition ps_row :: "string \<Rightarrow> HubProcess list" where
  "ps_row line =
     (let fields = Fields line in
      if length fields < 3 then []
      else case Atoi (hd fields) of
             None \<Rightarrow> []
           | Some pid \<Rightarrow>
               (case indexAfterField line 2 of
                  None \<Rightarrow> []
                | Some idx \<Rightarrow>
                    let cmd = TrimSpace (drop idx line) in
                    if idx \<ge> length line \<or> \<not> str_contains cmd hubStartMarker \<or> \<not> looksLikeBonesHubStart cmd then []
                    else [\<lparr>hp_PID = pid, hp_ETime = fields ! 1, hp_Cwd = [], hp_Cmd = cmd\<rparr>]))"

text \<open>A line of a mebibyte or more stops the scanner with an error.\<close>

definition parsePsOutput :: "string \<Rightarrow> err + HubProcess list" where
  "parsePsOutput out =
     (let ls = split_on CHR 0x0A out;
          raw = (if last ls = [] then butlast ls else ls);
          lines = map drop_cr raw;
          body = (case lines of [] \<Rightarrow> [] | l # r \<Rightarrow> if is_header l then r else lines)
      in if list_ex (\<lambda>l. 1048576 \<le> int (length l)) raw then Inl (EMsg ''scan ps output'') else Inr (concat (map ps_row body)))"

fun lsof_block :: "string \<Rightarrow> bool \<Rightarrow> string list \<Rightarrow> string" where
  "lsof_block want inBlock [] = []"
| "lsof_block want inBlock (line # ls) =
     (if has_prefix line ''p'' then lsof_block want (line = want) ls
      else if \<not> inBlock then lsof_block want inBlock ls
      else if has_prefix line ''n/'' then (let p = drop 1 line in if p = ''/'' then [] else p)
      else lsof_block want inBlock ls)"

definition parseLsofCwdBlock :: "string \<Rightarrow> string \<Rightarrow> string" where
  "parseLsofCwdBlock out want = lsof_block want False (split_on CHR 0x0A out)"

text \<open>The link \<^verbatim>\<open>/proc/<pid>/cwd\<close> and the output of \<^verbatim>\<open>lsof\<close>, where it can be used.\<close>

definition discoverCwd :: "(int \<Rightarrow> string option) \<Rightarrow> (int \<Rightarrow> string option) \<Rightarrow> int \<Rightarrow> string" where
  "discoverCwd readlink lsof pid =
     (if pid \<le> 0 then []
      else let p = (case readlink pid of None \<Rightarrow> [] | Some t \<Rightarrow> t) in
           if p \<noteq> [] then p
           else case lsof pid of None \<Rightarrow> [] | Some out \<Rightarrow> parseLsofCwdBlock out (''p'' @ signed_itoa pid))"

definition LiveHubProcesses ::
  "err + string \<Rightarrow> (int \<Rightarrow> string option) \<Rightarrow> (int \<Rightarrow> string option) \<Rightarrow> err + HubProcess list" where
  "LiveHubProcesses ps readlink lsof =
     (case ps of
        Inl e \<Rightarrow> Inl e
      | Inr out \<Rightarrow>
          (case parsePsOutput out of
             Inl e \<Rightarrow> Inl e
           | Inr procs \<Rightarrow> Inr (map (\<lambda>p. p\<lparr>hp_Cwd := discoverCwd readlink lsof (hp_PID p)\<rparr>) procs)))"

section \<open>Lemmas: what a listing removes\<close>

definition registry_home :: "host \<Rightarrow> string list \<Rightarrow> bool" where
  "registry_home h ds \<longleftrightarrow> no_faults h \<and> RegistryDir h = abs_path ds \<and> list_all good_part ds"

lemma in_names_in:
  assumes "list_all good_part ds" and "good_part x" and "ds \<noteq> []"
  shows "x \<in> set (names_in fs (abs_path ds)) \<longleftrightarrow> map_of fs (abs_path (ds @ [x])) \<noteq> None"
proof -
  have x: "x \<noteq> []" "CHR ''/'' \<notin> set x" using assms(2) by (auto simp: good_part_def)
  have "x \<in> set (names_in fs (abs_path ds)) \<longleftrightarrow> (\<exists>n. (abs_path ds @ ''/'' @ x, n) \<in> set fs)"
    using x by (force simp: names_in_def elim!: underE)
  moreover have "(\<exists>n. (q, n) \<in> set fs) \<longleftrightarrow> map_of fs q \<noteq> None" for q
    by (force simp: map_of_eq_None_iff)
  moreover have "abs_path (ds @ [x]) = abs_path ds @ ''/'' @ x" using assms(3) by (simp add: abs_path_snoc)
  ultimately show ?thesis by simp
qed

lemma json_name_good: "CHR ''/'' \<notin> set x \<Longrightarrow> has_suffix x ''.json'' \<Longrightarrow> good_part x"
proof -
  assume "CHR ''/'' \<notin> set x" "has_suffix x ''.json''"
  moreover then obtain r where "rev x = rev ''.json'' @ r" by (auto simp: has_suffix_def has_prefix_iff)
  then have "x = rev r @ ''.json''" using rev_swap by force
  ultimately show ?thesis by (auto simp: good_part_def append_eq_Cons_conv)
qed

text \<open>The files of the registry: the names that end in \<^verbatim>\<open>.json\<close> directly below its folder, in order.\<close>

definition registry_names :: "files \<Rightarrow> string list \<Rightarrow> string set" where
  "registry_names fs ds = {x. CHR ''/'' \<notin> set x \<and> has_suffix x ''.json'' \<and> map_of fs (abs_path (ds @ [x])) \<noteq> None}"

lemma glob_json:
  assumes "registry_home h ds" and "ds \<noteq> []"
  shows "finite (registry_names fs ds)"
    and "glob h fs (RegistryDir h) [] ''.json'' = map (\<lambda>x. abs_path (ds @ [x])) (sorted_list_of_set (registry_names fs ds))"
proof -
  have g: "list_all good_part ds" "RegistryDir h = abs_path ds" "no_faults h" using assms(1) by (auto simp: registry_home_def)
  let ?ns = "filter (\<lambda>x. has_prefix x [] \<and> has_suffix (drop (length ([]::string)) x) ''.json'') (names_in fs (abs_path ds))"
  have s: "set ?ns = registry_names fs ds"
  proof (rule set_eqI)
    fix x
    have "x \<in> set (names_in fs (abs_path ds)) \<Longrightarrow> CHR ''/'' \<notin> set x" by (auto simp: names_in_def)
    then show "x \<in> set ?ns \<longleftrightarrow> x \<in> registry_names fs ds"
      using in_names_in [OF g(1) _ assms(2), of x fs] json_name_good [of x]
      by (auto simp: registry_names_def has_prefix_def)
  qed
  then show fin: "finite (registry_names fs ds)" by (metis List.finite_set)
  have d: "distinct ?ns" by (simp add: names_in_def)
  have "sort ?ns = sorted_list_of_set (set ?ns)"
    unfolding sorted_list_of_set_sort_remdups distinct_remdups_id [OF d] ..
  then have "glob h fs (RegistryDir h) [] ''.json'' = map (Join (abs_path ds)) (sorted_list_of_set (registry_names fs ds))"
    using g(3) s by (simp add: glob_def g(2) no_faults_def)
  also have "\<dots> = map (\<lambda>x. abs_path (ds @ [x])) (sorted_list_of_set (registry_names fs ds))"
  proof (rule map_cong [OF refl])
    fix x assume "x \<in> set (sorted_list_of_set (registry_names fs ds))"
    then have "x \<in> registry_names fs ds" using fin by simp
    then have "good_part x" by (auto simp: registry_names_def intro: json_name_good)
    then show "Join (abs_path ds) x = abs_path (ds @ [x])" by (rule Join_good [OF g(1)])
  qed
  finally show "glob h fs (RegistryDir h) [] ''.json'' = map (\<lambda>x. abs_path (ds @ [x])) (sorted_list_of_set (registry_names fs ds))" .
qed

definition kept_entry :: "host \<Rightarrow> files \<Rightarrow> string \<Rightarrow> Entry list" where
  "kept_entry h fs p =
     (if is_tmp p then []
      else case readEntryAtPath h fs p of Inl _ \<Rightarrow> [] | Inr e \<Rightarrow> if isStaleEntry h fs e then [] else [e])"

definition stale_file :: "host \<Rightarrow> files \<Rightarrow> string \<Rightarrow> bool" where
  "stale_file h fs p \<longleftrightarrow> \<not> is_tmp p \<and> (\<exists>e. readEntryAtPath h fs p = Inr e \<and> isStaleEntry h fs e)"

lemma set_kept: "e \<in> set (kept_entry h fs p) \<longleftrightarrow> \<not> is_tmp p \<and> readEntryAtPath h fs p = Inr e \<and> \<not> isStaleEntry h fs e"
  by (auto simp: kept_entry_def split: sum.splits)

lemma kept_filter: "concat (map (kept_entry h fs) (filter (\<lambda>p. \<not> stale_file h fs p) ps)) = concat (map (kept_entry h fs) ps)"
  by (induction ps) (auto simp: kept_entry_def stale_file_def split: sum.splits)

lemma read_same: "no_faults h \<Longrightarrow> map_of fs' p = map_of fs p \<Longrightarrow> readEntryAtPath h fs' p = readEntryAtPath h fs p"
  by (simp add: readEntryAtPath_def no_faults_simps)

lemma stale_same: "no_faults h \<Longrightarrow> map_of fs' (en_Cwd e) = map_of fs (en_Cwd e) \<Longrightarrow> isStaleEntry h fs' e = isStaleEntry h fs e"
  by (simp add: isStaleEntry_def no_faults_simps)

lemma remove_doc:
  "no_faults h \<Longrightarrow> readEntryAtPath h fs p = Inr e \<Longrightarrow> map_of (snd (os_Remove h p fs)) q = (if q = p then None else map_of fs q)"
  by (auto simp: readEntryAtPath_def no_faults_simps os_Remove_def no_faults_def delete_conv' split: option.splits node.splits)

lemma prune_loop_exact:
  assumes nf: "no_faults h" and "distinct ps"
    and "\<And>p e. p \<in> set ps \<Longrightarrow> readEntryAtPath h fs p = Inr e \<Longrightarrow> en_Cwd e \<notin> set ps"
  shows "map snd (fst (prune_loop h ps fs)) = concat (map (kept_entry h fs) ps) \<and>
    (\<forall>q. map_of (snd (prune_loop h ps fs)) q = (if q \<in> set ps \<and> stale_file h fs q then None else map_of fs q)) \<and>
    ((\<forall>p \<in> set ps. \<not> stale_file h fs p) \<longrightarrow> snd (prune_loop h ps fs) = fs)"
  using assms(2,3)
proof (induction ps arbitrary: fs)
  case (Cons p ps)
  have cwd: "\<And>q e. q \<in> set ps \<Longrightarrow> readEntryAtPath h fs q = Inr e \<Longrightarrow> en_Cwd e \<notin> set (p # ps)" using Cons.prems(2) by auto
  show ?case
  proof (cases "stale_file h fs p")
    case True
    then obtain e where e: "\<not> is_tmp p" "readEntryAtPath h fs p = Inr e" "isStaleEntry h fs e" by (auto simp: stale_file_def)
    define fs1 where "fs1 = snd (os_Remove h p fs)"
    have m: "map_of fs1 q = (if q = p then None else map_of fs q)" for q
      unfolding fs1_def by (rule remove_doc [OF nf e(2)])
    have r: "readEntryAtPath h fs1 q = readEntryAtPath h fs q" if "q \<in> set ps" for q
      by (rule read_same [OF nf]) (use that Cons.prems(1) m in auto)
    have st: "isStaleEntry h fs1 e' = isStaleEntry h fs e'" if "q \<in> set ps" "readEntryAtPath h fs q = Inr e'" for q e'
      by (rule stale_same [OF nf]) (use that cwd m in auto)
    have k: "kept_entry h fs1 q = kept_entry h fs q" "stale_file h fs1 q = stale_file h fs q" if "q \<in> set ps" for q
      using r [OF that] st [OF that] by (auto simp: kept_entry_def stale_file_def split: sum.splits)
    have "map snd (fst (prune_loop h ps fs1)) = concat (map (kept_entry h fs1) ps) \<and>
      (\<forall>q. map_of (snd (prune_loop h ps fs1)) q = (if q \<in> set ps \<and> stale_file h fs1 q then None else map_of fs1 q))"
      using Cons.IH [of fs1] Cons.prems(1) cwd r by fastforce
    moreover have "concat (map (kept_entry h fs1) ps) = concat (map (kept_entry h fs) ps)"
      using k(1) by (intro arg_cong [where f = concat] map_cong refl)
    moreover have "kept_entry h fs p = []" using e by (simp add: kept_entry_def)
    ultimately show ?thesis
      using e m k(2) Cons.prems(1) True by (auto simp: fs1_def [symmetric])
  next
    case False
    obtain es f where pl: "prune_loop h ps fs = (es, f)" by (cases "prune_loop h ps fs")
    have ih: "map snd es = concat (map (kept_entry h fs) ps) \<and>
      (\<forall>q. map_of f q = (if q \<in> set ps \<and> stale_file h fs q then None else map_of fs q)) \<and>
      ((\<forall>p \<in> set ps. \<not> stale_file h fs p) \<longrightarrow> f = fs)"
      using Cons.IH [of fs] Cons.prems(1) cwd pl by fastforce
    have "map snd (fst (prune_loop h (p # ps) fs)) = kept_entry h fs p @ map snd es" "snd (prune_loop h (p # ps) fs) = f"
      using False pl by (auto simp: kept_entry_def stale_file_def split: sum.splits)
    then show ?thesis using ih False by auto
  qed
qed simp

text \<open>A file of the registry, and what a listing keeps.\<close>

definition registry_file :: "host \<Rightarrow> files \<Rightarrow> string \<Rightarrow> bool" where
  "registry_file h fs p \<longleftrightarrow> p \<in> set (glob h fs (RegistryDir h) [] ''.json'')"

lemma registry_List_exact:
  assumes home: "registry_home h ds" "ds \<noteq> []"
    and apart: "\<And>p e. readEntryAtPath h fs p = Inr e \<Longrightarrow> \<not> under (RegistryDir h) (en_Cwd e)"
  shows "fst (registry_List h fs) = concat (map (kept_entry h fs) (glob h fs (RegistryDir h) [] ''.json''))"
    and "map_of (snd (registry_List h fs)) q = (if registry_file h fs q \<and> stale_file h fs q then None else map_of fs q)"
    and "registry_List h (snd (registry_List h fs)) = (fst (registry_List h fs), snd (registry_List h fs))"
proof -
  have nf: "no_faults h" and g: "list_all good_part ds" and dir: "RegistryDir h = abs_path ds" using home by (auto simp: registry_home_def)
  let ?gl = "\<lambda>fs. glob h fs (RegistryDir h) [] ''.json''"
  have good: "x \<in> registry_names f ds \<Longrightarrow> list_all good_part (ds @ [x])" for x f
    using g json_name_good by (auto simp: registry_names_def)
  have gl: "set (?gl f) = (\<lambda>x. abs_path (ds @ [x])) ` registry_names f ds" for f
    using glob_json [OF home] by simp
  have inj: "inj_on (\<lambda>x. abs_path (ds @ [x])) (registry_names f ds)" for f
    using good abs_path_inj by (intro inj_onI) blast
  have dist: "distinct (?gl f)" for f
    using glob_json [OF home] inj by (simp add: distinct_map)
  have below: "p \<in> set (?gl f) \<Longrightarrow> under (RegistryDir h) p" for p f
    using gl dir home(2) good paths_under [of "[]" ds] by (fastforce simp: g)
  have apart': "en_Cwd e \<notin> set (?gl f)" if "readEntryAtPath h fs p = Inr e" for p e f
    using apart [OF that] below by blast
  note ex = prune_loop_exact [OF nf dist [of fs] apart']
  have L: "fst (registry_List h f) = map snd (fst (prune_loop h (?gl f) f))" "snd (registry_List h f) = snd (prune_loop h (?gl f) f)" for f
    by (simp_all add: registry_List_def pruneStale_def)
  show 1: "fst (registry_List h fs) = concat (map (kept_entry h fs) (?gl fs))" using ex L by simp
  have 2: "map_of (snd (registry_List h fs)) q = (if registry_file h fs q \<and> stale_file h fs q then None else map_of fs q)" for q
    using ex L by (simp add: registry_file_def)
  then show "map_of (snd (registry_List h fs)) q = (if registry_file h fs q \<and> stale_file h fs q then None else map_of fs q)" .
  define fs1 where "fs1 = snd (registry_List h fs)"
  have m: "map_of fs1 q = (if registry_file h fs q \<and> stale_file h fs q then None else map_of fs q)" for q
    unfolding fs1_def by (rule 2)
  have names: "registry_names fs1 ds = {x \<in> registry_names fs ds. \<not> stale_file h fs (abs_path (ds @ [x]))}"
    using m gl by (auto simp: registry_names_def registry_file_def)
  have "sorted_list_of_set (registry_names fs1 ds) = filter (\<lambda>x. \<not> stale_file h fs (abs_path (ds @ [x]))) (sorted_list_of_set (registry_names fs ds))"
    unfolding names using glob_json(1) [OF home, of fs]
    by (intro sorted_distinct_set_unique) (auto simp: sorted_filter [where f = id, simplified])
  then have gl1: "?gl fs1 = filter (\<lambda>p. \<not> stale_file h fs p) (?gl fs)"
    using glob_json(2) [OF home] by (simp add: filter_map o_def)
  have r: "readEntryAtPath h fs1 p = readEntryAtPath h fs p" if "p \<in> set (?gl fs1)" for p
    by (rule read_same [OF nf]) (use that m gl1 in auto)
  have st: "isStaleEntry h fs1 e = isStaleEntry h fs e" if "readEntryAtPath h fs p = Inr e" for p e
    by (rule stale_same [OF nf]) (use apart' [OF that] m in \<open>auto simp: registry_file_def\<close>)
  have k: "kept_entry h fs1 p = kept_entry h fs p" "\<not> stale_file h fs1 p" if "p \<in> set (?gl fs1)" for p
    using r [OF that] st [of p] that gl1 by (auto simp: kept_entry_def stale_file_def split: sum.splits)
  have ex1: "map snd (fst (prune_loop h (?gl fs1) fs1)) = concat (map (kept_entry h fs1) (?gl fs1)) \<and>
      ((\<forall>p \<in> set (?gl fs1). \<not> stale_file h fs1 p) \<longrightarrow> snd (prune_loop h (?gl fs1) fs1) = fs1)"
    using prune_loop_exact [OF nf dist [of fs1], of fs1] r apart' by metis
  have "concat (map (kept_entry h fs1) (?gl fs1)) = concat (map (kept_entry h fs) (filter (\<lambda>p. \<not> stale_file h fs p) (?gl fs)))"
    unfolding gl1 [symmetric] using k(1) by (intro arg_cong [where f = concat] map_cong refl)
  also have "\<dots> = concat (map (kept_entry h fs) (?gl fs))"
    by (rule kept_filter)
  finally show "registry_List h (snd (registry_List h fs)) = (fst (registry_List h fs), snd (registry_List h fs))"
    using ex1 k(2) L 1 unfolding fs1_def [symmetric] by (simp add: prod_eq_iff)
qed

end
