(* ===== verification/Workspace_Lock.thy ===== *)
theory Workspace_Lock
  imports Registry
begin

text \<open>
  \<^verbatim>\<open>internal/registry/lock.go\<close>: the lock of a workspace, taken by \<^verbatim>\<open>bones hub start\<close>. \<open>acquire_step\<close> is what a process
  does between two points at which another process can act; \<open>AcquireWorkspaceLock\<close> runs it undisturbed, \<open>lock_step\<close>
  interleaves any number of processes, which may also die at any point. The kernel's lock of the file \<^verbatim>\<open>hub.lock\<close> is the
  process that holds it.
\<close>

section \<open>The code\<close>

definition LockFileName :: string where
  "LockFileName = ''hub.lock''"

definition LockPidFileName :: string where
  "LockPidFileName = ''hub.lock.pid''"

definition LockPath :: "host \<Rightarrow> string \<Rightarrow> string" where
  "LockPath h root = Join (bones_dir h root) LockFileName"

definition LockPidPath :: "host \<Rightarrow> string \<Rightarrow> string" where
  "LockPidPath h root = Join (bones_dir h root) LockPidFileName"

definition readLockHolderPID :: "host \<Rightarrow> files \<Rightarrow> string \<Rightarrow> int option" where
  "readLockHolderPID h fs p = read_pid h fs p"

definition writeLockHolderPID :: "host \<Rightarrow> string \<Rightarrow> string \<Rightarrow> int \<Rightarrow> files \<Rightarrow> (err + unit) \<times> files" where
  "writeLockHolderPID h rnd p pid fs =
     (let tmp = Join (path_Dir p) (path_Base p @ ''.tmp.'' @ rnd) in
      case os_WriteFile h tmp (signed_itoa pid @ nl) fs of
        (Inl e, fs1) \<Rightarrow> (Inl e, snd (os_Remove h tmp fs1))
      | (Inr _, fs1) \<Rightarrow> let (r, fs2) = os_Rename h tmp p fs1 in (r, snd (os_Remove h tmp fs2)))"

text \<open>\<^verbatim>\<open>os.OpenFile\<close> with \<^verbatim>\<open>O_CREATE\<close> and \<^verbatim>\<open>O_RDWR\<close>.\<close>

definition os_OpenCreate :: "host \<Rightarrow> string \<Rightarrow> files \<Rightarrow> (err + unit) \<times> files" where
  "os_OpenCreate h p fs =
     (case ho_fault h ''open'' p of
        Some x \<Rightarrow> (Inl (EOS (OSFailure x)), fs)
      | None \<Rightarrow>
          (case map_of fs p of
             None \<Rightarrow> (Inr (), AList.update p (Doc []) fs)
           | Some Folder \<Rightarrow> (Inl (EOS (OSFailure ''is a directory'')), fs)
           | Some (Doc _) \<Rightarrow> (Inr (), fs)))"

text \<open>
  Where a process is: in the code of \<^verbatim>\<open>AcquireWorkspaceLock\<close> (\<open>Begin\<close> to \<open>WritePid\<close>, with \<open>Undo\<close> after a failed write of
  the pid file), holding the lock, in \<^verbatim>\<open>release\<close>, or outside. \<open>Gone\<close> is a process that has exited.
\<close>

datatype phase =
    Outside
  | Begin
  | Probe
  | RemoveStale
  | Open
  | TryLock
  | Contended
  | CleanStale int
  | Reopen int
  | Retry int
  | WritePid
  | Undo err
  | Held
  | RemovePid
  | Unlock
  | Failed err
  | Gone

record shared =
  sh_files :: files
  sh_owner :: "int option"

definition acquire_step :: "host \<Rightarrow> string \<Rightarrow> string \<Rightarrow> int \<Rightarrow> phase \<Rightarrow> shared \<Rightarrow> phase \<times> shared" where
  "acquire_step h root rnd pid ph s =
     (let pidPath = LockPidPath h root; path = LockPath h root; fs = sh_files s in
      case ph of
        Begin \<Rightarrow>
          (case os_MkdirAll h (bones_dir h root) fs of
             (Inl e, fs1) \<Rightarrow> (Failed e, s\<lparr>sh_files := fs1\<rparr>)
           | (Inr _, fs1) \<Rightarrow> (Probe, s\<lparr>sh_files := fs1\<rparr>))
      | Probe \<Rightarrow>
          (case readLockHolderPID h fs pidPath of
             None \<Rightarrow> (Open, s)
           | Some holder \<Rightarrow>
               if holder = pid then (Open, s)
               else if pidAlive (ho_alive h) holder then (Failed (ERegistry (ErrLockHeld holder)), s)
               else (RemoveStale, s))
      | RemoveStale \<Rightarrow> (Open, s\<lparr>sh_files := snd (os_Remove h pidPath fs)\<rparr>)
      | Open \<Rightarrow>
          (case os_OpenCreate h path fs of
             (Inl e, fs1) \<Rightarrow> (Failed e, s\<lparr>sh_files := fs1\<rparr>)
           | (Inr _, fs1) \<Rightarrow> (TryLock, s\<lparr>sh_files := fs1\<rparr>))
      | TryLock \<Rightarrow> if sh_owner s = None then (WritePid, s\<lparr>sh_owner := Some pid\<rparr>) else (Contended, s)
      | Contended \<Rightarrow>
          (let holder = (case readLockHolderPID h fs pidPath of None \<Rightarrow> 0 | Some p \<Rightarrow> p) in
           if holder > 0 \<and> \<not> pidAlive (ho_alive h) holder then (CleanStale holder, s)
           else (Failed (ERegistry (ErrLockHeld holder)), s))
      | CleanStale holder \<Rightarrow> (Reopen holder, s\<lparr>sh_files := snd (os_Remove h pidPath fs)\<rparr>)
      | Reopen holder \<Rightarrow>
          (case os_OpenCreate h path fs of
             (Inl e, fs1) \<Rightarrow> (Failed e, s\<lparr>sh_files := fs1\<rparr>)
           | (Inr _, fs1) \<Rightarrow> (Retry holder, s\<lparr>sh_files := fs1\<rparr>))
      | Retry holder \<Rightarrow>
          if sh_owner s = None then (WritePid, s\<lparr>sh_owner := Some pid\<rparr>)
          else (Failed (ERegistry (ErrLockHeld holder)), s)
      | WritePid \<Rightarrow>
          (case writeLockHolderPID h rnd pidPath pid fs of
             (Inl e, fs1) \<Rightarrow> (Undo e, s\<lparr>sh_files := fs1\<rparr>)
           | (Inr _, fs1) \<Rightarrow> (Held, s\<lparr>sh_files := fs1\<rparr>))
      | Undo e \<Rightarrow> (Failed e, s\<lparr>sh_owner := None\<rparr>)
      | RemovePid \<Rightarrow> (Unlock, s\<lparr>sh_files := snd (os_Remove h pidPath fs)\<rparr>)
      | Unlock \<Rightarrow> (Outside, s\<lparr>sh_owner := None\<rparr>)
      | _ \<Rightarrow> (ph, s))"

definition phase_settled :: "phase \<Rightarrow> bool" where
  "phase_settled ph = (case ph of Held \<Rightarrow> True | Failed _ \<Rightarrow> True | Outside \<Rightarrow> True | Gone \<Rightarrow> True | _ \<Rightarrow> False)"

fun run_phases :: "nat \<Rightarrow> host \<Rightarrow> string \<Rightarrow> string \<Rightarrow> int \<Rightarrow> phase \<Rightarrow> shared \<Rightarrow> phase \<times> shared" where
  "run_phases 0 h root rnd pid ph s = (ph, s)"
| "run_phases (Suc n) h root rnd pid ph s =
     (if phase_settled ph then (ph, s)
      else let (ph', s') = acquire_step h root rnd pid ph s in run_phases n h root rnd pid ph' s')"

text \<open>No path through the code has more than eleven steps (\<open>acquire_settles\<close>).\<close>

definition AcquireWorkspaceLock :: "host \<Rightarrow> string \<Rightarrow> string \<Rightarrow> int \<Rightarrow> shared \<Rightarrow> (err + unit) \<times> shared" where
  "AcquireWorkspaceLock h root rnd pid s =
     (case run_phases 11 h root rnd pid Begin s of
        (Failed e, s') \<Rightarrow> (Inl e, s')
      | (_, s') \<Rightarrow> (Inr (), s'))"

definition lock_release :: "host \<Rightarrow> string \<Rightarrow> int \<Rightarrow> shared \<Rightarrow> shared" where
  "lock_release h root pid s = snd (run_phases 2 h root [] pid RemovePid s)"

section \<open>Processes\<close>

record lock_world =
  lw_shared :: shared
  lw_phase :: "int \<Rightarrow> phase"

definition host_of :: "host \<Rightarrow> lock_world \<Rightarrow> host" where
  "host_of h w = h\<lparr>ho_alive := \<lambda>p. lw_phase w p \<noteq> Gone\<rparr>"

definition lock_advance :: "host \<Rightarrow> string \<Rightarrow> string \<Rightarrow> int \<Rightarrow> lock_world \<Rightarrow> lock_world" where
  "lock_advance h root rnd p w =
     (let (ph, s) = acquire_step (host_of h w) root rnd p (lw_phase w p) (lw_shared w)
      in w\<lparr>lw_shared := s, lw_phase := (lw_phase w)(p := ph)\<rparr>)"

definition set_phase :: "int \<Rightarrow> phase \<Rightarrow> lock_world \<Rightarrow> lock_world" where
  "set_phase p ph w = w\<lparr>lw_phase := (lw_phase w)(p := ph)\<rparr>"

text \<open>The kernel drops the lock of a process that exits.\<close>

definition lock_crash :: "int \<Rightarrow> lock_world \<Rightarrow> lock_world" where
  "lock_crash p w =
     set_phase p Gone (if sh_owner (lw_shared w) = Some p then w\<lparr>lw_shared := (lw_shared w)\<lparr>sh_owner := None\<rparr>\<rparr> else w)"

definition valid_pid :: "int \<Rightarrow> bool" where
  "valid_pid p = (0 < p \<and> p < 2 ^ 63)"

inductive lock_step :: "host \<Rightarrow> string \<Rightarrow> lock_world \<Rightarrow> lock_world \<Rightarrow> bool" for h root where
  call: "valid_pid p \<Longrightarrow> lw_phase w p = Outside \<Longrightarrow> lock_step h root w (set_phase p Begin w)"
| lock_advance: "valid_pid p \<Longrightarrow> CHR ''/'' \<notin> set rnd \<Longrightarrow> \<not> phase_settled (lw_phase w p) \<Longrightarrow> lock_step h root w (lock_advance h root rnd p w)"
| lock_release: "valid_pid p \<Longrightarrow> lw_phase w p = Held \<Longrightarrow> lock_step h root w (set_phase p RemovePid w)"
| again: "valid_pid p \<Longrightarrow> lw_phase w p = Failed e \<Longrightarrow> lock_step h root w (set_phase p Outside w)"
| lock_crash: "valid_pid p \<Longrightarrow> lw_phase w p \<noteq> Gone \<Longrightarrow> lock_step h root w (lock_crash p w)"

inductive lock_reachable :: "host \<Rightarrow> string \<Rightarrow> lock_world \<Rightarrow> lock_world \<Rightarrow> bool" for h root w0 where
  start: "lock_reachable h root w0 w0"
| step: "lock_reachable h root w0 w \<Longrightarrow> lock_step h root w w' \<Longrightarrow> lock_reachable h root w0 w'"

inductive_cases lock_stepE: "lock_step h root w w'"

section \<open>The lock file decides\<close>

text \<open>A process between taking and dropping the kernel's lock.\<close>

definition critical :: "phase \<Rightarrow> bool" where
  "critical ph = (case ph of WritePid \<Rightarrow> True | Undo _ \<Rightarrow> True | Held \<Rightarrow> True | RemovePid \<Rightarrow> True | Unlock \<Rightarrow> True | _ \<Rightarrow> False)"

lemma critical_simps [simp]:
  "\<not> critical Outside" "\<not> critical Begin" "\<not> critical Probe" "\<not> critical RemoveStale" "\<not> critical Open" "\<not> critical TryLock"
  "\<not> critical Contended" "\<not> critical (CleanStale i)" "\<not> critical (Reopen i)" "\<not> critical (Retry i)" "critical WritePid"
  "critical (Undo e)" "critical Held" "critical RemovePid" "critical Unlock" "\<not> critical (Failed e)" "\<not> critical Gone"
  by (simp_all add: critical_def)

lemma phase_settled_simps [simp]:
  "phase_settled Outside" "\<not> phase_settled Begin" "\<not> phase_settled Probe" "\<not> phase_settled RemoveStale" "\<not> phase_settled Open" "\<not> phase_settled TryLock"
  "\<not> phase_settled Contended" "\<not> phase_settled (CleanStale i)" "\<not> phase_settled (Reopen i)" "\<not> phase_settled (Retry i)" "\<not> phase_settled WritePid"
  "\<not> phase_settled (Undo e)" "phase_settled Held" "\<not> phase_settled RemovePid" "\<not> phase_settled Unlock" "phase_settled (Failed e)" "phase_settled Gone"
  by (simp_all add: phase_settled_def)

text \<open>How many steps a call still has at most.\<close>

definition rank :: "phase \<Rightarrow> nat" where
  "rank ph =
     (case ph of
        Begin \<Rightarrow> 11 | Probe \<Rightarrow> 10 | RemoveStale \<Rightarrow> 9 | Open \<Rightarrow> 8 | TryLock \<Rightarrow> 7 | Contended \<Rightarrow> 6 | CleanStale _ \<Rightarrow> 5 | Reopen _ \<Rightarrow> 4
      | Retry _ \<Rightarrow> 3 | WritePid \<Rightarrow> 2 | Undo _ \<Rightarrow> 1 | RemovePid \<Rightarrow> 2 | Unlock \<Rightarrow> 1 | _ \<Rightarrow> 0)"

lemma acquire_rank: "acquire_step h root rnd p ph s = (ph', s') \<Longrightarrow> \<not> phase_settled ph \<Longrightarrow> rank ph' < rank ph"
  by (cases ph; auto simp: acquire_step_def rank_def Let_def split: prod.splits sum.splits option.splits if_splits)

lemma run_phases_settles: "rank ph \<le> n \<Longrightarrow> phase_settled (fst (run_phases n h root rnd p ph s))"
proof (induction n arbitrary: ph s)
  case 0
  then show ?case by (cases ph) (simp_all add: rank_def)
next
  case (Suc n)
  then show ?case
    using acquire_rank [of h root rnd p ph s] by (cases "acquire_step h root rnd p ph s") fastforce
qed

lemma acquire_settles: "phase_settled (fst (run_phases 11 h root rnd p Begin s))"
  by (rule run_phases_settles) (simp add: rank_def)

definition owner_ok :: "lock_world \<Rightarrow> bool" where
  "owner_ok w \<longleftrightarrow> (\<forall>p. sh_owner (lw_shared w) = Some p \<longleftrightarrow> critical (lw_phase w p))"

lemma acquire_owner:
  assumes "acquire_step h root rnd p ph s = (ph', s')" and "\<not> phase_settled ph" and "sh_owner s = Some p \<longleftrightarrow> critical ph"
  shows "sh_owner s' = Some p \<longleftrightarrow> critical ph'" and "q \<noteq> p \<Longrightarrow> sh_owner s' = Some q \<longleftrightarrow> sh_owner s = Some q"
  using assms
  by (cases ph; auto simp: acquire_step_def Let_def split: prod.splits sum.splits option.splits if_splits)+

lemma owner_ok_step: "lock_step h root w w' \<Longrightarrow> owner_ok w \<Longrightarrow> owner_ok w'"
proof (induction rule: lock_step.induct)
  case (lock_advance p rnd w)
  obtain ph s where a: "acquire_step (host_of h w) root rnd p (lw_phase w p) (lw_shared w) = (ph, s)"
    by (cases "acquire_step (host_of h w) root rnd p (lw_phase w p) (lw_shared w)")
  show ?case
    using acquire_owner [OF a lock_advance(3)] lock_advance(4) a by (auto simp: owner_ok_def lock_advance_def)
next
  case (lock_crash p w)
  have "critical (lw_phase w p) \<Longrightarrow> critical (lw_phase w q) \<Longrightarrow> q = p" for q
    using lock_crash(3) unfolding owner_ok_def by (metis option.inject)
  with lock_crash show ?case by (auto simp: owner_ok_def set_phase_def lock_crash_def)
qed (auto simp: owner_ok_def set_phase_def)

lemma owner_ok_reachable: "lock_reachable h root w0 w \<Longrightarrow> owner_ok w0 \<Longrightarrow> owner_ok w"
  by (induction rule: lock_reachable.induct) (auto intro: owner_ok_step)

section \<open>The pid file names the holder\<close>

definition pid_names :: "host \<Rightarrow> string \<Rightarrow> files \<Rightarrow> int option" where
  "pid_names h root fs = readLockHolderPID h fs (LockPidPath h root)"

text \<open>Where the files of the lock are: a folder of its own, and calls that do not fail.\<close>

definition lock_place :: "host \<Rightarrow> string \<Rightarrow> string list \<Rightarrow> bool" where
  "lock_place h root cs \<longleftrightarrow> no_faults h \<and> bones_dir h root = abs_path cs \<and> list_all good_part cs"

lemma lock_names [simp]: "good_part LockFileName" "good_part LockPidFileName" "LockFileName \<noteq> LockPidFileName" "LockPidFileName \<noteq> LockFileName"
  by code_simp+

lemma path_Base_abs: "list_all good_part (cs @ [x]) \<Longrightarrow> path_Base (abs_path (cs @ [x])) = x"
proof -
  assume g: "list_all good_part (cs @ [x])"
  then have x: "x \<noteq> []" "CHR ''/'' \<notin> set x" by (auto simp: good_part_def)
  let ?r = "if cs = [] then ''/'' else abs_path cs @ ''/''"
  obtain y where y: "?r = y @ ''/''" by (cases "cs = []") auto
  have e: "abs_path (cs @ [x]) = y @ CHR ''/'' # x" unfolding abs_path_snoc y by simp
  have "dropWhile ((=) CHR ''/'') (rev (abs_path (cs @ [x]))) = rev (abs_path (cs @ [x]))"
    using x unfolding e by (cases x rule: rev_cases) auto
  moreover have "last_index CHR ''/'' (y @ CHR ''/'' # x) = Some (length y)"
    using last_index_none [OF x(2)] by (simp add: last_index_append)
  ultimately show ?thesis using x e by (simp add: path_Base_def Let_def)
qed

lemma lock_paths:
  assumes "lock_place h root cs"
  shows "LockPath h root = abs_path (cs @ [LockFileName])" and "LockPidPath h root = abs_path (cs @ [LockPidFileName])"
    and "LockPath h root \<noteq> LockPidPath h root" and "bones_dir h root \<noteq> LockPidPath h root"
proof -
  have g: "list_all good_part cs" and b: "bones_dir h root = abs_path cs" using assms by (auto simp: lock_place_def)
  show 1: "LockPath h root = abs_path (cs @ [LockFileName])" and 2: "LockPidPath h root = abs_path (cs @ [LockPidFileName])"
    using Join_good [OF g] b by (simp_all add: LockPath_def LockPidPath_def)
  have g1: "list_all good_part (cs @ [LockFileName])" "list_all good_part (cs @ [LockPidFileName])" using g by simp_all
  show "LockPath h root \<noteq> LockPidPath h root" "bones_dir h root \<noteq> LockPidPath h root"
    unfolding 1 2 b using abs_path_inj [OF g1] abs_path_inj [OF g g1(2)] by auto
qed

lemma pid_names_map_of:
  assumes "no_faults h" and "map_of fs' (LockPidPath h root) = map_of fs (LockPidPath h root)"
  shows "pid_names h root fs' = pid_names h root fs"
  using assms by (simp add: pid_names_def readLockHolderPID_def read_pid_def no_faults_simps)

lemma pid_names_other:
  assumes l: "lock_place h root cs"
  shows "pid_names h root (snd (os_MkdirAll h (bones_dir h root) fs)) = pid_names h root fs"
    and "pid_names h root (snd (os_OpenCreate h (LockPath h root) fs)) = pid_names h root fs"
  using lock_paths [OF l] l
  by (auto intro!: pid_names_map_of simp: lock_place_def os_MkdirAll_def os_OpenCreate_def split: option.splits node.splits)

lemma pid_names_removed: "lock_place h root cs \<Longrightarrow> pid_names h root (snd (os_Remove h (LockPidPath h root) fs)) = None"
  by (auto simp: lock_place_def pid_names_def readLockHolderPID_def read_pid_def no_faults_simps os_Remove_def no_faults_def
      delete_conv' split: option.splits node.splits)

lemma pid_written:
  assumes l: "lock_place h root cs" and p: "valid_pid p" and rnd: "CHR ''/'' \<notin> set rnd"
    and w: "writeLockHolderPID h rnd (LockPidPath h root) p fs = (r, fs')"
  shows "pid_names h root fs' = (if is_ok r then Some p else pid_names h root fs)"
proof -
  let ?pid = "LockPidPath h root" and ?n = "LockPidFileName @ ''.tmp.'' @ rnd"
  have nf: "ho_fault h = (\<lambda>_ _. None)" and g: "list_all good_part cs" using l by (auto simp: lock_place_def no_faults_def)
  have gn: "good_part ?n" using rnd by (auto simp: good_part_def LockPidFileName_def)
  have g1: "list_all good_part (cs @ [LockPidFileName])" "list_all good_part (cs @ [?n])" using g gn by simp_all
  have tmp: "Join (path_Dir ?pid) (path_Base ?pid @ ''.tmp.'' @ rnd) = abs_path (cs @ [?n])"
    using path_Dir_abs [OF g1(1)] path_Base_abs [OF g1(1)] Join_good [OF g gn] lock_paths(2) [OF l] by simp
  have neq: "abs_path (cs @ [?n]) \<noteq> ?pid"
    using abs_path_inj [OF g1(2,1)] lock_paths(2) [OF l] by auto
  have w': "(case os_WriteFile h (abs_path (cs @ [?n])) (signed_itoa p @ nl) fs of
        (Inl e, fs1) \<Rightarrow> (Inl e, snd (os_Remove h (abs_path (cs @ [?n])) fs1))
      | (Inr _, fs1) \<Rightarrow> (case os_Rename h (abs_path (cs @ [?n])) ?pid fs1 of
          (r, fs2) \<Rightarrow> (r, snd (os_Remove h (abs_path (cs @ [?n])) fs2)))) = (r, fs')"
    using w unfolding writeLockHolderPID_def Let_def tmp .
  have rm: "map_of (snd (os_Remove h (abs_path (cs @ [?n])) f)) ?pid = map_of f ?pid" for f
    using neq by (auto simp: os_Remove_def nf delete_conv' split: option.splits)
  have ren: "map_of f2 ?pid = (if is_ok q then map_of f (abs_path (cs @ [?n])) else map_of f ?pid)"
    if "os_Rename h (abs_path (cs @ [?n])) ?pid f = (q, f2)" for f q f2
  proof (cases "is_ok q")
    case True
    then have f2: "f2 = map (\<lambda>(q, n). (moved_path (abs_path (cs @ [?n])) ?pid q, n)) (AList.delete ?pid f)" and e: "empty_below f ?pid"
      using that neq by (auto simp: os_Rename_def nf split: if_splits)
    have "\<forall>(q, _) \<in> set (AList.delete ?pid f). q \<noteq> ?pid \<and> \<not> under ?pid q"
      using e by (auto simp: empty_below_def list_all_iff AList.delete_eq)
    then show ?thesis
      using map_of_moved_target [of "AList.delete ?pid f" ?pid "[]" "abs_path (cs @ [?n])"] True neq by (simp add: f2 delete_conv')
  next
    case False
    then show ?thesis using that by (auto simp: os_Rename_def nf split: if_splits)
  qed
  show ?thesis
  proof (cases "map_of fs (abs_path (cs @ [?n])) = Some Folder")
    case True
    then have wf: "os_WriteFile h (abs_path (cs @ [?n])) (signed_itoa p @ nl) fs = (Inl (EOS (OSFailure ''is a directory'')), fs)"
      by (simp add: os_WriteFile_def nf)
    have "fs' = snd (os_Remove h (abs_path (cs @ [?n])) fs)" and r: "\<not> is_ok r"
      using w' unfolding wf by auto
    then have "map_of fs' ?pid = map_of fs ?pid" using rm by simp
    then show ?thesis using pid_names_map_of [of h fs' root fs] l r by (simp add: lock_place_def)
  next
    case False
    let ?f = "AList.update (abs_path (cs @ [?n])) (Doc (signed_itoa p @ nl)) fs"
    have wf: "os_WriteFile h (abs_path (cs @ [?n])) (signed_itoa p @ nl) fs = (Inr (), ?f)"
      using False by (simp add: os_WriteFile_def nf)
    obtain f2 where f2: "os_Rename h (abs_path (cs @ [?n])) ?pid ?f = (r, f2)" and f': "fs' = snd (os_Remove h (abs_path (cs @ [?n])) f2)"
      using w' unfolding wf by (cases "os_Rename h (abs_path (cs @ [?n])) ?pid ?f") simp
    have m: "map_of fs' ?pid = (if is_ok r then Some (Doc (signed_itoa p @ nl)) else map_of fs ?pid)"
      using ren [OF f2] rm neq by (simp add: f')
    have "nat p < 2 ^ 63" using p by (simp add: valid_pid_def nat_less_iff)
    moreover have "TrimSpace (itoa (nat p) @ nl) = itoa (nat p)" by (rule TrimSpace_line) (auto intro: itoa_digits)
    ultimately have "Atoi (TrimSpace (signed_itoa p @ nl)) = Some p"
      using p Atoi_itoa [of "nat p"] by (simp add: signed_itoa_def valid_pid_def)
    then have "map_of fs' ?pid = Some (Doc (signed_itoa p @ nl)) \<Longrightarrow> pid_names h root fs' = Some p"
      using l by (simp add: lock_place_def pid_names_def readLockHolderPID_def read_pid_def no_faults_simps)
    with m pid_names_map_of [of h fs' root fs] l show ?thesis by (simp add: lock_place_def)
  qed
qed

lemma host_of_place [simp]: "lock_place (host_of h w) root cs = lock_place h root cs" "pid_names (host_of h w) root fs = pid_names h root fs"
  by (simp_all add: lock_place_def host_of_def no_faults_def bones_dir_def pid_names_def readLockHolderPID_def read_pid_def
      LockPidPath_def os_ReadFile_def)

lemma acquire_pid:
  assumes l: "lock_place h root cs" and p: "valid_pid p" "CHR ''/'' \<notin> set rnd" and "\<not> phase_settled ph"
    and a: "acquire_step h root rnd p ph s = (ph', s')"
  shows "pid_names h root (sh_files s') = None \<or> (pid_names h root (sh_files s') = Some p \<and> ph' = Held) \<or>
    (pid_names h root (sh_files s') = pid_names h root (sh_files s) \<and> ph \<noteq> RemovePid)"
proof (cases ph)
  case WritePid
  obtain r f where w: "writeLockHolderPID h rnd (LockPidPath h root) p (sh_files s) = (r, f)"
    by (cases "writeLockHolderPID h rnd (LockPidPath h root) p (sh_files s)")
  show ?thesis using pid_written [OF l p w] a w WritePid by (cases r) (auto simp: acquire_step_def)
qed (use a assms(4) pid_names_other [OF l, of "sh_files s"] pid_names_removed [OF l, of "sh_files s"] in
    \<open>auto simp: acquire_step_def Let_def split: prod.splits sum.splits option.splits if_splits\<close>)

definition holder_ok :: "host \<Rightarrow> string \<Rightarrow> lock_world \<Rightarrow> bool" where
  "holder_ok h root w \<longleftrightarrow>
     (\<forall>q. pid_names h root (sh_files (lw_shared w)) = Some q \<longrightarrow> lw_phase w q \<in> {Gone, Held, RemovePid})"

lemma holder_ok_step:
  assumes l: "lock_place h root cs"
  shows "lock_step h root w w' \<Longrightarrow> holder_ok h root w \<Longrightarrow> holder_ok h root w'"
proof (induction rule: lock_step.induct)
  case (lock_advance p rnd w)
  obtain ph s where a: "acquire_step (host_of h w) root rnd p (lw_phase w p) (lw_shared w) = (ph, s)"
    by (cases "acquire_step (host_of h w) root rnd p (lw_phase w p) (lw_shared w)")
  show ?case
    using acquire_pid [OF _ lock_advance(1-3) a, of cs] lock_advance(3,4) l a by (fastforce simp: holder_ok_def lock_advance_def)
qed (auto simp: holder_ok_def set_phase_def lock_crash_def split: if_splits)

definition lock_start :: "host \<Rightarrow> string \<Rightarrow> lock_world \<Rightarrow> bool" where
  "lock_start h root w \<longleftrightarrow>
     sh_owner (lw_shared w) = None \<and> (\<forall>p. lw_phase w p \<in> {Outside, Gone}) \<and>
     (\<forall>q. pid_names h root (sh_files (lw_shared w)) = Some q \<longrightarrow> lw_phase w q = Gone)"

lemma lock_reachable_ok:
  assumes "lock_place h root cs"
  shows "lock_reachable h root w0 w \<Longrightarrow> lock_start h root w0 \<Longrightarrow> owner_ok w \<and> holder_ok h root w"
proof (induction rule: lock_reachable.induct)
  case start
  have "lw_phase w0 p = Outside \<or> lw_phase w0 p = Gone" for p
    using start by (simp add: lock_start_def)
  then have "\<not> critical (lw_phase w0 p)" for p by (metis critical_simps(1,17))
  with start show ?case by (simp add: lock_start_def owner_ok_def holder_ok_def)
qed (use owner_ok_step holder_ok_step [OF assms] in blast)

text \<open>A live process the pid file names holds the lock.\<close>

lemma named_is_owner:
  assumes "lock_place h root cs" and "lock_reachable h root w0 w" and "lock_start h root w0"
    and "pid_names h root (sh_files (lw_shared w)) = Some q" and "lw_phase w q \<noteq> Gone"
  shows "sh_owner (lw_shared w) = Some q"
  using lock_reachable_ok [OF assms(1-3)] assms(4,5) by (force simp: owner_ok_def holder_ok_def)

section \<open>A free lock can be taken\<close>

definition plain_files :: "host \<Rightarrow> string \<Rightarrow> string \<Rightarrow> files \<Rightarrow> bool" where
  "plain_files h root rnd fs \<longleftrightarrow>
     map_of fs (bones_dir h root) \<in> {None, Some Folder} \<and> map_of fs (LockPath h root) \<noteq> Some Folder \<and>
     map_of fs (LockPidPath h root) \<noteq> Some Folder \<and>
     map_of fs (Join (bones_dir h root) (LockPidFileName @ ''.tmp.'' @ rnd)) \<noteq> Some Folder \<and>
     (\<forall>q. under (LockPidPath h root) q \<longrightarrow> map_of fs q = None)"

lemma empty_below_iff: "empty_below fs p \<longleftrightarrow> (\<forall>q. under p q \<longrightarrow> map_of fs q = None)"
proof
  assume "\<forall>q. under p q \<longrightarrow> map_of fs q = None"
  then show "empty_below fs p"
    unfolding empty_below_def list_all_iff by (auto simp: map_of_eq_None_iff) force
qed (blast intro: map_of_none_below)

lemma plain_steps:
  assumes l: "lock_place h root cs" and rnd: "CHR ''/'' \<notin> set rnd" and pl: "plain_files h root rnd fs"
  shows "\<exists>f. os_MkdirAll h (bones_dir h root) fs = (Inr (), f) \<and> plain_files h root rnd f"
    and "\<exists>f. os_OpenCreate h (LockPath h root) fs = (Inr (), f) \<and> plain_files h root rnd f"
    and "plain_files h root rnd (snd (os_Remove h (LockPidPath h root) fs))"
    and "\<exists>f. writeLockHolderPID h rnd (LockPidPath h root) p fs = (Inr (), f)"
proof -
  let ?pid = "LockPidPath h root" and ?n = "LockPidFileName @ ''.tmp.'' @ rnd"
  have nf: "ho_fault h = (\<lambda>_ _. None)" and b: "bones_dir h root = abs_path cs" and g: "list_all good_part cs"
    using l by (auto simp: lock_place_def no_faults_def)
  have gn: "good_part ?n" using rnd by (auto simp: good_part_def LockPidFileName_def)
  have g1: "list_all good_part (cs @ [LockPidFileName])" "list_all good_part (cs @ [?n])" "list_all good_part (cs @ [LockFileName])"
    using g gn by simp_all
  have tmp: "Join (abs_path cs) ?n = abs_path (cs @ [?n])" by (rule Join_good [OF g gn])
  have tmp': "Join (path_Dir ?pid) (path_Base ?pid @ ''.tmp.'' @ rnd) = abs_path (cs @ [?n])"
    using path_Dir_abs [OF g1(1)] path_Base_abs [OF g1(1)] Join_good [OF g gn] lock_paths(2) [OF l] by simp
  have neq: "abs_path (cs @ [?n]) \<noteq> ?pid" "abs_path cs \<noteq> abs_path (cs @ [?n])" "LockPath h root \<noteq> ?pid"
    "LockPath h root \<noteq> abs_path (cs @ [?n])" "LockPath h root \<noteq> abs_path cs" "?pid \<noteq> abs_path cs"
    using abs_path_inj [OF g1(2,1)] abs_path_inj [OF g g1(2)] abs_path_inj [OF g1(3,1)] abs_path_inj [OF g1(3,2)]
      abs_path_inj [OF g1(3) g] abs_path_inj [OF g1(1) g] lock_paths(1,2) [OF l]
    by (auto simp: LockFileName_def LockPidFileName_def)
  have un: "\<not> under ?pid (LockPath h root)" "\<not> under ?pid (abs_path cs)" "\<not> under ?pid (abs_path (cs @ [?n]))"
    using paths_under [OF g1(1), of "[LockFileName]"] paths_under [OF g1(1), of "[]"] paths_under [OF g1(1), of "[?n]"] g1 g
      lock_paths(1,2) [OF l] by (auto simp: Cons_eq_append_conv)
  note pl' = pl [unfolded plain_files_def b tmp]
  show "\<exists>f. os_MkdirAll h (bones_dir h root) fs = (Inr (), f) \<and> plain_files h root rnd f"
    using pl' neq un unfolding plain_files_def b tmp
    by (cases "map_of fs (abs_path cs)") (auto simp: os_MkdirAll_def nf)
  show "\<exists>f. os_OpenCreate h (LockPath h root) fs = (Inr (), f) \<and> plain_files h root rnd f"
    using pl' neq un unfolding plain_files_def b tmp
    by (cases "map_of fs (LockPath h root)") (auto simp: os_OpenCreate_def nf split: node.splits)
  show "plain_files h root rnd (snd (os_Remove h ?pid fs))"
    using pl' unfolding plain_files_def b tmp by (auto simp: os_Remove_def nf delete_conv')
  have wf: "os_WriteFile h (abs_path (cs @ [?n])) (signed_itoa p @ nl) fs = (Inr (), AList.update (abs_path (cs @ [?n])) (Doc (signed_itoa p @ nl)) fs)"
    using pl' by (simp add: os_WriteFile_def nf)
  have "empty_below (AList.update (abs_path (cs @ [?n])) (Doc (signed_itoa p @ nl)) fs) ?pid"
    using pl' un(3) by (auto simp: empty_below_iff)
  moreover have "\<not> under (abs_path (cs @ [?n])) ?pid"
    using paths_under [OF g1(2), of "[LockPidFileName]"] g1 lock_paths(2) [OF l] by (auto simp: Cons_eq_append_conv)
  ultimately have "\<exists>f. os_Rename h (abs_path (cs @ [?n])) ?pid (AList.update (abs_path (cs @ [?n])) (Doc (signed_itoa p @ nl)) fs) = (Inr (), f)"
    using pl' neq(1) by (auto simp: os_Rename_def nf)
  then show "\<exists>f. writeLockHolderPID h rnd ?pid p fs = (Inr (), f)"
    unfolding writeLockHolderPID_def Let_def tmp' wf by auto
qed

lemma acquire_free:
  assumes l: "lock_place h root cs" and p: "valid_pid p" and rnd: "CHR ''/'' \<notin> set rnd"
    and pl: "plain_files h root rnd (sh_files s)" and free: "sh_owner s = None"
    and dead: "\<And>q. pid_names h root (sh_files s) = Some q \<Longrightarrow> q \<noteq> p \<Longrightarrow> \<not> pidAlive (ho_alive h) q"
  obtains f where "AcquireWorkspaceLock h root rnd p s = (Inr (), \<lparr>sh_files = f, sh_owner = Some p\<rparr>)" and "pid_names h root f = Some p"
proof -
  note st = plain_steps [OF l rnd]
  obtain f1 where f1: "os_MkdirAll h (bones_dir h root) (sh_files s) = (Inr (), f1)" "plain_files h root rnd f1"
    using st(1) [OF pl] by blast
  have n1: "pid_names h root f1 = pid_names h root (sh_files s)"
    using pid_names_other(1) [OF l, of "sh_files s"] f1 by simp
  define q where "q = (case pid_names h root f1 of None \<Rightarrow> False | Some i \<Rightarrow> i \<noteq> p)"
  define f2 where "f2 = (if q then snd (os_Remove h (LockPidPath h root) f1) else f1)"
  have p2: "plain_files h root rnd f2" using st(3) [OF f1(2)] f1(2) by (simp add: f2_def)
  obtain f3 where f3: "os_OpenCreate h (LockPath h root) f2 = (Inr (), f3)" "plain_files h root rnd f3"
    using st(2) [OF p2] by blast
  obtain f4 where f4: "writeLockHolderPID h rnd (LockPidPath h root) p f3 = (Inr (), f4)"
    using st(4) [OF f3(2)] by blast
  have s0: "s = \<lparr>sh_files = sh_files s, sh_owner = None\<rparr>" using free by simp
  have go: "acquire_step h root rnd p Begin s = (Probe, \<lparr>sh_files = f1, sh_owner = None\<rparr>)"
    "acquire_step h root rnd p Probe \<lparr>sh_files = f1, sh_owner = None\<rparr> =
       (if q then RemoveStale else Open, \<lparr>sh_files = f1, sh_owner = None\<rparr>)"
    "acquire_step h root rnd p RemoveStale \<lparr>sh_files = f1, sh_owner = None\<rparr> =
       (Open, \<lparr>sh_files = snd (os_Remove h (LockPidPath h root) f1), sh_owner = None\<rparr>)"
    "acquire_step h root rnd p Open \<lparr>sh_files = f2, sh_owner = None\<rparr> = (TryLock, \<lparr>sh_files = f3, sh_owner = None\<rparr>)"
    "acquire_step h root rnd p TryLock \<lparr>sh_files = f3, sh_owner = None\<rparr> = (WritePid, \<lparr>sh_files = f3, sh_owner = Some p\<rparr>)"
    "acquire_step h root rnd p WritePid \<lparr>sh_files = f3, sh_owner = Some p\<rparr> = (Held, \<lparr>sh_files = f4, sh_owner = Some p\<rparr>)"
    using f1(1) f3(1) f4 dead n1 free
    by (auto simp: acquire_step_def q_def pid_names_def split: option.splits)
  have run: "run_phases (Suc n) h root rnd p ph t = run_phases n h root rnd p ph' t'"
    if "\<not> phase_settled ph" "acquire_step h root rnd p ph t = (ph', t')" for n ph ph' t t'
    using that by simp
  have eleven: "(11::nat) = Suc (Suc (Suc (Suc (Suc (Suc 5)))))" by simp
  have held: "run_phases n h root rnd p Held t = (Held, t)" for n t by (cases n) simp_all
  have o: "run_phases (Suc (Suc (Suc n))) h root rnd p Open \<lparr>sh_files = f2, sh_owner = None\<rparr> = (Held, \<lparr>sh_files = f4, sh_owner = Some p\<rparr>)" for n
    by (simp only: run [OF _ go(4)] run [OF _ go(5)] run [OF _ go(6)] held phase_settled_simps not_False_eq_True)
  have "run_phases 11 h root rnd p Begin s = (Held, \<lparr>sh_files = f4, sh_owner = Some p\<rparr>)"
  proof (cases q)
    case True
    then have f2': "snd (os_Remove h (LockPidPath h root) f1) = f2" by (simp add: f2_def)
    show ?thesis
      unfolding eleven using True go(2,3)
      by (simp only: run [OF _ go(1)] run [OF _ go(2)] if_True run [OF _ go(3)] f2' o phase_settled_simps not_False_eq_True)
  next
    case False
    then have f2': "f1 = f2" by (simp add: f2_def)
    have g2: "acquire_step h root rnd p Probe \<lparr>sh_files = f2, sh_owner = None\<rparr> = (Open, \<lparr>sh_files = f2, sh_owner = None\<rparr>)"
      using go(2) False f2' by simp
    show ?thesis
      unfolding eleven by (simp only: run [OF _ go(1)] f2' run [OF _ g2] o phase_settled_simps not_False_eq_True)
  qed
  then have "AcquireWorkspaceLock h root rnd p s = (Inr (), \<lparr>sh_files = f4, sh_owner = Some p\<rparr>)"
    by (simp add: AcquireWorkspaceLock_def)
  moreover have "pid_names h root f4 = Some p" using pid_written [OF l p rnd f4] by simp
  ultimately show ?thesis by (rule that)
qed

end
