(* ===== verification/Logs.thy ===== *)
theory Logs
  imports Workspace_Lock
begin

text \<open>
  \<^verbatim>\<open>internal/logwriter\<close> and the log of the hub (\<^verbatim>\<open>hub_log.go\<close>, \<^verbatim>\<open>logentry.go\<close>, \<^verbatim>\<open>middleware.go\<close>, \<^verbatim>\<open>rpc_projector.go\<close> of
  \<^verbatim>\<open>internal/hub\<close>): lines of JSON appended to a file, which is moved into a numbered series when it has grown too long.
  \<open>text\<close>, where it is an argument, is \<^verbatim>\<open>json.Marshal\<close> of a value.
\<close>

section \<open>Files that grow\<close>

text \<open>\<^verbatim>\<open>os.OpenFile\<close> with \<^verbatim>\<open>O_APPEND\<close> and \<^verbatim>\<open>O_CREATE\<close>, and one write.\<close>

definition os_Append :: "host \<Rightarrow> string \<Rightarrow> string \<Rightarrow> files \<Rightarrow> (err + unit) \<times> files" where
  "os_Append h p data fs =
     (case ho_fault h ''append'' p of
        Some x \<Rightarrow> (Inl (EOS (OSFailure x)), fs)
      | None \<Rightarrow>
          (case map_of fs p of
             None \<Rightarrow> (Inr (), AList.update p (Doc data) fs)
           | Some Folder \<Rightarrow> (Inl (EOS (OSFailure ''is a directory'')), fs)
           | Some (Doc c) \<Rightarrow> (Inr (), AList.update p (Doc (c @ data)) fs)))"

text \<open>\<^verbatim>\<open>info.Size\<close>; of a folder it is the host's affair, here none.\<close>

definition node_size :: "node \<Rightarrow> int" where
  "node_size n = (case n of Folder \<Rightarrow> 0 | Doc c \<Rightarrow> int (length c))"

section \<open>Writers\<close>

definition defaultMaxSize :: int where
  "defaultMaxSize = 10 * 1024 * 1024"

definition defaultMaxFiles :: nat where
  "defaultMaxFiles = 5"

record Writer =
  wr_path :: string
  wr_maxSize :: int
  wr_maxFiles :: nat

definition positive_env :: "string \<Rightarrow> int \<Rightarrow> int" where
  "positive_env v dflt = (case Atoi v of Some n \<Rightarrow> if n > 0 then n else dflt | None \<Rightarrow> dflt)"

definition logwriter_Open :: "string \<Rightarrow> string \<Rightarrow> string \<Rightarrow> Writer" where
  "logwriter_Open envSize envFiles path =
     \<lparr>wr_path = path, wr_maxSize = positive_env envSize defaultMaxSize,
      wr_maxFiles = nat (positive_env envFiles (int defaultMaxFiles))\<rparr>"

definition OpenSlot :: "string \<Rightarrow> Writer" where
  "OpenSlot dir = \<lparr>wr_path = Join dir ''log'', wr_maxSize = 0, wr_maxFiles = 0\<rparr>"

definition SlotLogPath :: "string \<Rightarrow> string" where
  "SlotLogPath dir = Join dir ''log''"

definition AppendJSONOnce :: "host \<Rightarrow> (json \<Rightarrow> string) \<Rightarrow> string \<Rightarrow> json \<Rightarrow> files \<Rightarrow> (err + unit) \<times> files" where
  "AppendJSONOnce h text path v fs =
     (case os_MkdirAll h (path_Dir path) fs of
        (Inl e, fs1) \<Rightarrow> (Inl e, fs1)
      | (Inr _, fs1) \<Rightarrow> os_Append h path (text v @ nl) fs1)"

definition backup :: "string \<Rightarrow> nat \<Rightarrow> string" where
  "backup path i = path @ ''.'' @ itoa i"

text \<open>The loop from \<open>i\<close> down to one.\<close>

fun shift_backups :: "host \<Rightarrow> string \<Rightarrow> nat \<Rightarrow> files \<Rightarrow> (err + unit) \<times> files" where
  "shift_backups h path 0 fs = (Inr (), fs)"
| "shift_backups h path (Suc i) fs =
     (case os_Rename h (backup path (Suc i)) (backup path (Suc (Suc i))) fs of
        (Inl e, fs1) \<Rightarrow> if e = EOS NotExist then shift_backups h path i fs1 else (Inl e, fs1)
      | (Inr _, fs1) \<Rightarrow> shift_backups h path i fs1)"

definition rotateIfNeeded :: "host \<Rightarrow> Writer \<Rightarrow> files \<Rightarrow> (err + unit) \<times> files" where
  "rotateIfNeeded h w fs =
     (case os_Stat h fs (wr_path w) of
        Inl e \<Rightarrow> (if e = EOS NotExist then Inr () else Inl e, fs)
      | Inr n \<Rightarrow>
          if node_size n \<le> wr_maxSize w then (Inr (), fs)
          else case shift_backups h (wr_path w) (wr_maxFiles w - 1) (snd (os_Remove h (backup (wr_path w) (wr_maxFiles w)) fs)) of
                 (Inl e, fs1) \<Rightarrow> (Inl e, fs1)
               | (Inr _, fs1) \<Rightarrow>
                   (case os_Rename h (wr_path w) (backup (wr_path w) 1) fs1 of
                      (Inl e, fs2) \<Rightarrow> (if e = EOS NotExist then Inr () else Inl e, fs2)
                    | (Inr _, fs2) \<Rightarrow> (Inr (), fs2)))"

definition AppendJSON :: "host \<Rightarrow> (json \<Rightarrow> string) \<Rightarrow> Writer \<Rightarrow> json \<Rightarrow> files \<Rightarrow> (err + unit) \<times> files" where
  "AppendJSON h text w v fs =
     (if wr_maxSize w > 0
      then case os_MkdirAll h (path_Dir (wr_path w)) fs of
             (Inl e, fs1) \<Rightarrow> (Inl e, fs1)
           | (Inr _, fs1) \<Rightarrow>
               (case rotateIfNeeded h w fs1 of
                  (Inl e, fs2) \<Rightarrow> (Inl e, fs2)
                | (Inr _, fs2) \<Rightarrow> AppendJSONOnce h text (wr_path w) v fs2)
      else AppendJSONOnce h text (wr_path w) v fs)"

text \<open>The events of a workspace and its slots. Reserved keys win over the fields of the caller; the keys are written sorted.\<close>

record log_Event =
  lg_Timestamp :: time_ns
  lg_Slot :: string
  lg_Event :: string
  lg_Fields :: "(string \<times> json) list"

definition log_Event_json :: "log_Event \<Rightarrow> json" where
  "log_Event_json e =
     (let m1 = AList.update ''event'' (JStr (lg_Event e)) (AList.update ''ts'' (JTime (logged (lg_Timestamp e))) (lg_Fields e));
          m2 = (if lg_Slot e \<noteq> [] then AList.update ''slot'' (JStr (lg_Slot e)) m1 else m1)
      in JObj (sort_key fst m2))"

definition log_Append :: "host \<Rightarrow> (json \<Rightarrow> string) \<Rightarrow> Writer \<Rightarrow> log_Event \<Rightarrow> files \<Rightarrow> (err + unit) \<times> files" where
  "log_Append h text w e fs = AppendJSON h text w (log_Event_json e) fs"

definition AppendOnce :: "host \<Rightarrow> (json \<Rightarrow> string) \<Rightarrow> string \<Rightarrow> log_Event \<Rightarrow> files \<Rightarrow> (err + unit) \<times> files" where
  "AppendOnce h text path e fs = AppendJSONOnce h text path (log_Event_json e) fs"

section \<open>The log of the hub\<close>

datatype LogLevel = LevelDebug | LevelInfo | LevelWarn | LevelError

fun level_rank :: "LogLevel \<Rightarrow> nat" where
  "level_rank LevelDebug = 0"
| "level_rank LevelInfo = 1"
| "level_rank LevelWarn = 2"
| "level_rank LevelError = 3"

fun level_String :: "LogLevel \<Rightarrow> string" where
  "level_String LevelDebug = ''DEBUG''"
| "level_String LevelInfo = ''INFO''"
| "level_String LevelWarn = ''WARN''"
| "level_String LevelError = ''ERROR''"

definition parseLevel :: "string \<Rightarrow> LogLevel" where
  "parseLevel s =
     (if s \<in> {''debug'', ''DEBUG'', ''Debug''} then LevelDebug
      else if s \<in> {''warn'', ''WARN'', ''Warn'', ''warning'', ''WARNING''} then LevelWarn
      else if s \<in> {''error'', ''ERROR'', ''Error''} then LevelError
      else LevelInfo)"

definition chooseLogLevel :: "string \<Rightarrow> string \<Rightarrow> LogLevel" where
  "chooseLogLevel env flag = (if flag \<noteq> [] then parseLevel flag else if env \<noteq> [] then parseLevel env else LevelInfo)"

record LogEntry =
  le_Ts :: time_ns
  le_Level :: LogLevel
  le_Event :: string
  le_RPC :: string
  le_Agent :: string
  le_Task :: string
  le_Session :: string
  le_Hook :: string
  le_Matcher :: string
  le_TookMs :: int
  le_ResultCount :: int
  le_Err :: string
  le_Msg :: string

definition zero_LogEntry :: LogEntry where
  "zero_LogEntry = \<lparr>le_Ts = zero_time, le_Level = LevelDebug, le_Event = [], le_RPC = [], le_Agent = [], le_Task = [], le_Session = [],
     le_Hook = [], le_Matcher = [], le_TookMs = 0, le_ResultCount = 0, le_Err = [], le_Msg = []\<rparr>"

definition LogEntry_json :: "LogEntry \<Rightarrow> json" where
  "LogEntry_json e = JObj
     (member ''ts'' (JTime (le_Ts e)) @ member ''level'' (JStr (level_String (le_Level e))) @ member ''event'' (JStr (le_Event e)) @
      member_omit (le_RPC e = []) ''rpc'' (JStr (le_RPC e)) @ member_omit (le_Agent e = []) ''agent'' (JStr (le_Agent e)) @
      member_omit (le_Task e = []) ''task'' (JStr (le_Task e)) @ member_omit (le_Session e = []) ''session'' (JStr (le_Session e)) @
      member_omit (le_Hook e = []) ''hook'' (JStr (le_Hook e)) @ member_omit (le_Matcher e = []) ''matcher'' (JStr (le_Matcher e)) @
      member_omit (le_TookMs e = 0) ''took_ms'' (JNum (le_TookMs e)) @
      member_omit (le_ResultCount e = 0) ''result_count'' (JNum (le_ResultCount e)) @
      member_omit (le_Err e = []) ''err'' (JStr (le_Err e)) @ member_omit (le_Msg e = []) ''msg'' (JStr (le_Msg e)))"

record hubLogger =
  hl_w :: "Writer option"
  hl_minLevel :: LogLevel

definition openHubLogWithLevel :: "host \<Rightarrow> string \<Rightarrow> string \<Rightarrow> string \<Rightarrow> LogLevel \<Rightarrow> files \<Rightarrow> hubLogger \<times> files" where
  "openHubLogWithLevel h envSize envFiles orchDir lvl fs =
     (\<lparr>hl_w = Some (logwriter_Open envSize envFiles (Join orchDir ''hub.log'')), hl_minLevel = lvl\<rparr>, snd (os_MkdirAll h orchDir fs))"

definition hubLogger_Close :: "hubLogger \<Rightarrow> hubLogger" where
  "hubLogger_Close l = l\<lparr>hl_w := None\<rparr>"

definition shouldEmit :: "hubLogger \<Rightarrow> LogEntry \<Rightarrow> bool" where
  "shouldEmit l e =
     (if le_Level e = LevelError then True
      else if le_Err e \<noteq> [] then True
      else level_rank (hl_minLevel l) \<le> level_rank (le_Level e))"

definition hubLogger_Log :: "host \<Rightarrow> (json \<Rightarrow> string) \<Rightarrow> time_ns \<Rightarrow> hubLogger \<Rightarrow> LogEntry \<Rightarrow> files \<Rightarrow> files" where
  "hubLogger_Log h text now l e fs =
     (case hl_w l of
        None \<Rightarrow> fs
      | Some w \<Rightarrow>
          if \<not> shouldEmit l e then fs
          else let e' = (if le_Ts e = zero_time then e\<lparr>le_Ts := logged now\<rparr> else e)
               in snd (AppendJSON h text w (LogEntry_json e') fs))"

definition lifecycle_entry :: "LogLevel \<Rightarrow> string \<Rightarrow> LogEntry" where
  "lifecycle_entry lvl msg = zero_LogEntry\<lparr>le_Level := lvl, le_Event := ''lifecycle'', le_Msg := msg\<rparr>"

text \<open>What the hub writes for an event on the log of the tasks.\<close>

definition rpcNameFromEventType :: "string \<Rightarrow> string" where
  "rpcNameFromEventType t =
     (if t = ''created'' then ''tasks.create''
      else if t = ''claimed'' then ''tasks.claim''
      else if t = ''unclaimed'' then ''tasks.unclaim''
      else if t = ''updated'' then ''tasks.update''
      else if t = ''linked'' then ''tasks.link''
      else if t = ''slot_changed'' then ''tasks.slot''
      else if t = ''closed'' then ''tasks.close''
      else ''tasks.'' @ t)"

definition agentFromPayload :: "EventEnvelope \<Rightarrow> string" where
  "agentFromPayload env =
     (case DecodePayload env of
        Inr (PClaimed p) \<Rightarrow> if clp_AgentID p \<noteq> [] then clp_AgentID p else ''system''
      | Inr (PClosed p) \<Rightarrow> if clo_AgentID p \<noteq> [] then clo_AgentID p else ''system''
      | _ \<Rightarrow> ''system'')"

definition projectOne :: "host \<Rightarrow> (json \<Rightarrow> string) \<Rightarrow> time_ns \<Rightarrow> hubLogger \<Rightarrow> json \<Rightarrow> files \<Rightarrow> files" where
  "projectOne h text now l raw fs =
     (case UnmarshalEnvelope raw of
        None \<Rightarrow> fs
      | Some env \<Rightarrow>
          if \<not> EventType_Valid (ev_Type env) then fs
          else hubLogger_Log h text now l
                 (zero_LogEntry\<lparr>le_Level := LevelInfo, le_Event := ''rpc'', le_RPC := rpcNameFromEventType (EventType_String (ev_Type env)),
                    le_Agent := agentFromPayload env, le_Task := ev_TaskID env\<rparr>) fs)"

section \<open>Rotation\<close>

text \<open>The text in a file, and in a log with its backups, the oldest first.\<close>

definition content :: "files \<Rightarrow> string \<Rightarrow> string" where
  "content fs p = (case map_of fs p of Some (Doc c) \<Rightarrow> c | _ \<Rightarrow> [])"

definition seg :: "Writer \<Rightarrow> files \<Rightarrow> nat \<Rightarrow> string" where
  "seg w fs i = content fs (if i = 0 then wr_path w else backup (wr_path w) i)"

definition segs_text :: "nat \<Rightarrow> (nat \<Rightarrow> string) \<Rightarrow> string" where
  "segs_text n f = concat (map f (rev [0..<Suc n]))"

abbreviation log_text :: "Writer \<Rightarrow> files \<Rightarrow> string" where
  "log_text w fs \<equiv> segs_text (wr_maxFiles w) (seg w fs)"

text \<open>The paths of a log are files, and nothing lies below them.\<close>

definition plain_file :: "files \<Rightarrow> string \<Rightarrow> bool" where
  "plain_file fs p \<longleftrightarrow> map_of fs p \<noteq> Some Folder \<and> empty_below fs p"

definition log_files :: "Writer \<Rightarrow> files \<Rightarrow> bool" where
  "log_files w fs \<longleftrightarrow> plain_file fs (wr_path w) \<and> (\<forall>i. plain_file fs (backup (wr_path w) i)) \<and>
     (\<forall>c. map_of fs (path_Dir (wr_path w)) \<noteq> Some (Doc c))"

definition log_place :: "Writer \<Rightarrow> string list \<Rightarrow> bool" where
  "log_place w ds \<longleftrightarrow> wr_path w = abs_path ds \<and> list_all good_part ds \<and> ds \<noteq> [] \<and> wr_maxSize w > 0 \<and> wr_maxFiles w > 0"

lemma itoa_inj: "itoa i = itoa j \<Longrightarrow> i = j"
  by (metis digits_value_itoa of_nat_eq_iff)

lemma backup_simps [simp]:
  "backup p i = backup p j \<longleftrightarrow> i = j" "backup p i \<noteq> p" "p \<noteq> backup p i" "\<not> under (backup p i) p"
  by (auto simp: backup_def under_def has_prefix_iff dest: itoa_inj)

lemma not_under_backup [simp]: "\<not> under p (backup p i)" "\<not> under (backup p i) (backup p j)"
proof -
  show "\<not> under p (backup p i)" by (auto simp: backup_def under_def has_prefix_iff)
  show "\<not> under (backup p i) (backup p j)"
  proof
    assume "under (backup p i) (backup p j)"
    then obtain x where "itoa j = itoa i @ CHR ''/'' # x" by (auto simp: backup_def under_def has_prefix_iff)
    then have "CHR ''/'' \<in> set (itoa j)" by simp
    then show False using itoa_digits by (fastforce simp: is_digit_def)
  qed
qed

lemma below_moved: "empty_below fs src \<Longrightarrow> empty_below fs dst \<Longrightarrow> \<not> under p src \<Longrightarrow> \<not> under p dst \<Longrightarrow> src \<noteq> p \<Longrightarrow>
   empty_below fs p \<Longrightarrow> empty_below (map (\<lambda>(q, n). (moved_path src dst q, n)) (AList.delete dst fs)) p"
  by (fastforce simp: empty_below_def list_all_iff moved_path_def AList.delete_eq)

text \<open>A file moved over another one, or to a place that is free.\<close>

lemma rename_over:
  assumes "no_faults h" and "map_of fs src = Some (Doc c)" and "map_of fs dst \<noteq> Some Folder" and "empty_below fs src" and "empty_below fs dst"
    and "src \<noteq> dst" and "\<not> under src dst" and "\<not> under dst src"
  obtains fs' where "os_Rename h src dst fs = (Inr (), fs')"
    and "\<And>q. map_of fs' q = (if q = dst then Some (Doc c) else if q = src then None else map_of fs q)"
    and "\<And>p. \<not> under p src \<Longrightarrow> \<not> under p dst \<Longrightarrow> empty_below fs p \<Longrightarrow> empty_below fs' p"
proof -
  let ?fs' = "map (\<lambda>(q, n). (moved_path src dst q, n)) (AList.delete dst fs)"
  have "os_Rename h src dst fs = (Inr (), ?fs')"
    using assms by (simp add: os_Rename_def no_faults_def)
  moreover have "map_of ?fs' q = (if q = dst then Some (Doc c) else if q = src then None else map_of fs q)" for q
  proof -
    consider "q = dst" | "q = src" | "q \<noteq> dst" "q \<noteq> src" by blast
    then show ?thesis
    proof cases
      case 1
      have "\<forall>(q, _) \<in> set (AList.delete dst fs). q \<noteq> dst \<and> \<not> under dst q"
        using assms(5) by (auto simp: empty_below_def list_all_iff AList.delete_eq)
      from map_of_moved_target [OF this, of "[]" src] show ?thesis using 1 assms(2,6) by (simp add: AList.delete_conv')
    next
      case 2
      then show ?thesis using map_of_moved_gone [OF assms(6,7) _ assms(8), of q] assms(6) by simp
    next
      case 3
      show ?thesis
      proof (cases "under src q \<or> under dst q")
        case False
        with 3 show ?thesis using map_of_moved [of q src dst "AList.delete dst fs"] by (simp add: AList.delete_conv')
      next
        case True
        have n: "map_of fs q = None" using True assms(4,5) map_of_none_below by blast
        have "map_of ?fs' q = None"
        proof (cases "under src q")
          case True
          then show ?thesis using map_of_moved_gone [OF assms(6,7) _ assms(8), of q] by simp
        next
          case False
          with True obtain x where x: "q = dst @ CHR ''/'' # x" by (auto elim!: underE)
          have "\<forall>(q, _) \<in> set (AList.delete dst fs). q \<noteq> dst \<and> \<not> under dst q"
            using assms(5) by (auto simp: empty_below_def list_all_iff AList.delete_eq)
          from map_of_moved_target [OF this, of "CHR ''/'' # x" src]
          have "map_of ?fs' q = map_of (AList.delete dst fs) (src @ CHR ''/'' # x)" using x by simp
          also have "\<dots> = None"
            using map_of_none_below [OF assms(4), of "src @ CHR ''/'' # x"]
            by (cases "src @ CHR ''/'' # x = dst") (simp_all add: AList.delete_conv')
          finally show ?thesis .
        qed
        with n 3 show ?thesis by simp
      qed
    qed
  qed
  moreover have "\<not> under p src \<Longrightarrow> \<not> under p dst \<Longrightarrow> empty_below fs p \<Longrightarrow> empty_below ?fs' p" for p
    using assms(4,5)
    by (fastforce simp: empty_below_def list_all_iff moved_path_def AList.delete_eq under_append elim: underE)
  ultimately show ?thesis using that by blast
qed

lemma rename_file:
  assumes "no_faults h" and "map_of fs src = Some (Doc c)" and "map_of fs dst = None" and "empty_below fs src" and "empty_below fs dst"
    and "src \<noteq> dst" and "\<not> under src dst" and "\<not> under dst src"
  obtains fs' where "os_Rename h src dst fs = (Inr (), fs')"
    and "\<And>q. map_of fs' q = (if q = dst then Some (Doc c) else if q = src then None else map_of fs q)"
    and "\<And>p. \<not> under p src \<Longrightarrow> \<not> under p dst \<Longrightarrow> empty_below fs p \<Longrightarrow> empty_below fs' p"
proof (rule rename_over [OF assms(1,2) _ assms(4-8)])
  show "map_of fs dst \<noteq> Some Folder" using assms(3) by simp
qed (rule that)

lemma file_simps [simp]:
  "content fs p = [] \<longleftrightarrow> map_of fs p = None \<or> map_of fs p = Some Folder \<or> map_of fs p = Some (Doc [])"
  by (auto simp: content_def split: option.splits node.splits)

text \<open>One step of the series: what stood at \<open>src\<close> stands at \<open>dst\<close>, which was free.\<close>

lemma move_log:
  assumes "no_faults h" and "plain_file fs src" and "plain_file fs dst" and "map_of fs dst = None"
    and "src \<noteq> dst" and "\<not> under src dst" and "\<not> under dst src"
  obtains r fs' where "os_Rename h src dst fs = (r, fs')" and "r = Inr () \<or> r = Inl (EOS NotExist)"
    and "\<And>q. q \<noteq> src \<Longrightarrow> q \<noteq> dst \<Longrightarrow> map_of fs' q = map_of fs q"
    and "map_of fs' src = None" and "content fs' dst = content fs src"
    and "\<And>p. \<not> under p src \<Longrightarrow> \<not> under p dst \<Longrightarrow> plain_file fs p \<Longrightarrow> plain_file fs' p"
proof (cases "map_of fs src")
  case None
  then have "os_Rename h src dst fs = (Inl (EOS NotExist), fs)" using assms(1) by (simp add: os_Rename_def no_faults_def)
  with None assms(4) that show ?thesis by (simp add: content_def)
next
  case (Some n)
  then obtain c where c: "map_of fs src = Some (Doc c)" using assms(2) by (cases n) (auto simp: plain_file_def)
  obtain fs' where r: "os_Rename h src dst fs = (Inr (), fs')"
    and m: "\<And>q. map_of fs' q = (if q = dst then Some (Doc c) else if q = src then None else map_of fs q)"
    and e: "\<And>p. \<not> under p src \<Longrightarrow> \<not> under p dst \<Longrightarrow> empty_below fs p \<Longrightarrow> empty_below fs' p"
    by (rule rename_file [OF assms(1) c assms(4)]) (use assms in \<open>auto simp: plain_file_def\<close>)
  show ?thesis
    by (rule that [OF r]) (use m e assms(5) c in \<open>auto simp: plain_file_def content_def\<close>)
qed

lemma shift_backups_exact:
  assumes "no_faults h" and "\<forall>j. plain_file fs (backup p j)" and "plain_file fs p" and "map_of fs (backup p (Suc i)) = None"
  shows "\<exists>fs'. shift_backups h p i fs = (Inr (), fs') \<and> map_of fs' (backup p 1) = None \<and>
    (\<forall>j. plain_file fs' (backup p j)) \<and> plain_file fs' p \<and>
    (\<forall>j. 1 \<le> j \<and> j \<le> i \<longrightarrow> content fs' (backup p (Suc j)) = content fs (backup p j)) \<and>
    (\<forall>q. (\<forall>j. 1 \<le> j \<and> j \<le> Suc i \<longrightarrow> q \<noteq> backup p j) \<longrightarrow> map_of fs' q = map_of fs q)"
  using assms
proof (induction i arbitrary: fs)
  case 0
  then show ?case by simp
next
  case (Suc i)
  let ?a = "backup p (Suc i)" and ?b = "backup p (Suc (Suc i))"
  obtain r fs1 where r: "os_Rename h ?a ?b fs = (r, fs1)" "r = Inr () \<or> r = Inl (EOS NotExist)"
    and o: "\<And>q. q \<noteq> ?a \<Longrightarrow> q \<noteq> ?b \<Longrightarrow> map_of fs1 q = map_of fs q"
    and n: "map_of fs1 ?a = None" and c: "content fs1 ?b = content fs ?a"
    and pl: "\<And>x. \<not> under x ?a \<Longrightarrow> \<not> under x ?b \<Longrightarrow> plain_file fs x \<Longrightarrow> plain_file fs1 x"
    by (rule move_log [of h fs ?a ?b]) (use Suc.prems in auto)
  have "\<forall>j. plain_file fs1 (backup p j)" "plain_file fs1 p" using pl Suc.prems(2,3) by simp_all
  from Suc.IH [OF Suc.prems(1) this n]
  obtain fs' where f: "shift_backups h p i fs1 = (Inr (), fs')" "map_of fs' (backup p 1) = None"
    "\<forall>j. plain_file fs' (backup p j)" "plain_file fs' p"
    "\<forall>j. 1 \<le> j \<and> j \<le> i \<longrightarrow> content fs' (backup p (Suc j)) = content fs1 (backup p j)"
    "\<forall>q. (\<forall>j. 1 \<le> j \<and> j \<le> Suc i \<longrightarrow> q \<noteq> backup p j) \<longrightarrow> map_of fs' q = map_of fs1 q" by blast
  have s: "shift_backups h p (Suc i) fs = (Inr (), fs')" using r f(1) by auto
  have "content fs' (backup p (Suc j)) = content fs (backup p j)" if "1 \<le> j" "j \<le> Suc i" for j
  proof (cases "j = Suc i")
    case True
    have "map_of fs' ?b = map_of fs1 ?b" using f(6) by simp
    then show ?thesis using c True by (simp add: content_def)
  next
    case False
    then have "content fs' (backup p (Suc j)) = content fs1 (backup p j)" using f(5) that by simp
    also have "\<dots> = content fs (backup p j)" using o [of "backup p j"] False that by (simp add: content_def)
    finally show ?thesis .
  qed
  moreover have "map_of fs' q = map_of fs q" if "\<forall>j. 1 \<le> j \<and> j \<le> Suc (Suc i) \<longrightarrow> q \<noteq> backup p j" for q
    using that f(6) o [of q] by simp
  ultimately show ?case using s f(2-4) by blast
qed

text \<open>What one append does to the log: the line is added at its end; when the file had grown too long, the oldest backup is
  dropped and everything else moves up.\<close>

definition appended :: "int \<Rightarrow> nat \<Rightarrow> (nat \<Rightarrow> string) \<Rightarrow> string \<Rightarrow> (nat \<Rightarrow> string) \<Rightarrow> bool" where
  "appended cap n f line g \<longleftrightarrow>
     (if int (length (f 0)) > cap then g 0 = line \<and> (\<forall>i < n. g (Suc i) = f i)
      else g 0 = f 0 @ line \<and> (\<forall>i < n. g (Suc i) = f (Suc i)))"

lemma log_dir:
  assumes "log_place w ds"
  shows "path_Dir (wr_path w) \<noteq> wr_path w" "path_Dir (wr_path w) \<noteq> backup (wr_path w) i"
    "\<not> under (wr_path w) (path_Dir (wr_path w))" "\<not> under (backup (wr_path w) i) (path_Dir (wr_path w))"
proof -
  obtain ps d where ds: "ds = ps @ [d]" "d \<noteq> []"
    using assms by (cases ds rule: rev_cases) (auto simp: log_place_def good_part_def)
  have "path_Dir (wr_path w) = abs_path ps" using assms path_Dir_abs [of ds] ds(1) by (simp add: log_place_def)
  then have l: "length (path_Dir (wr_path w)) < length (wr_path w)"
    using assms ds by (cases "ps = []") (simp_all add: log_place_def abs_path_def join_with_append)
  then show "path_Dir (wr_path w) \<noteq> wr_path w" "path_Dir (wr_path w) \<noteq> backup (wr_path w) i"
    "\<not> under (wr_path w) (path_Dir (wr_path w))" "\<not> under (backup (wr_path w) i) (path_Dir (wr_path w))"
    by (auto simp: backup_def under_def has_prefix_iff)
qed

lemma mkdir_log:
  assumes "no_faults h" and "log_place w ds" and "log_files w fs"
  obtains fs' where "os_MkdirAll h (path_Dir (wr_path w)) fs = (Inr (), fs')" and "log_files w fs'" and "seg w fs' = seg w fs"
    and "map_of fs' (path_Dir (wr_path w)) = Some Folder"
proof (cases "map_of fs (path_Dir (wr_path w))")
  case None
  let ?fs' = "AList.update (path_Dir (wr_path w)) Folder fs"
  note d = log_dir [OF assms(2)]
  have e: "empty_below fs p \<Longrightarrow> \<not> under p (path_Dir (wr_path w)) \<Longrightarrow> empty_below ?fs' p" for p
    by (auto simp: empty_below_iff)
  have "plain_file fs p \<Longrightarrow> p \<noteq> path_Dir (wr_path w) \<Longrightarrow> \<not> under p (path_Dir (wr_path w)) \<Longrightarrow> plain_file ?fs' p" for p
    using e by (auto simp: plain_file_def map_of_update)
  then have "log_files w ?fs'" using assms(3) d unfolding log_files_def by simp metis
  moreover have "seg w ?fs' = seg w fs" using d by (intro ext) (simp add: seg_def content_def d(1,2) [symmetric])
  ultimately show ?thesis using that [of ?fs'] None assms(1) by (simp add: os_MkdirAll_def no_faults_def map_of_update)
next
  case (Some n)
  then have "n = Folder" using assms(3) by (cases n) (auto simp: log_files_def)
  then show ?thesis using that [of fs] Some assms by (simp add: os_MkdirAll_def no_faults_def)
qed

lemma append_log:
  assumes "no_faults h" and "log_place w ds" and "log_files w fs"
  obtains fs' where "os_Append h (wr_path w) line fs = (Inr (), fs')" and "log_files w fs'"
    and "seg w fs' = (seg w fs)(0 := seg w fs 0 @ line)"
proof -
  have p: "map_of fs (wr_path w) \<noteq> Some Folder" using assms(3) by (simp add: log_files_def plain_file_def)
  let ?fs' = "AList.update (wr_path w) (Doc (seg w fs 0 @ line)) fs"
  have a: "os_Append h (wr_path w) line fs = (Inr (), ?fs')"
    using p assms(1) by (auto simp: os_Append_def no_faults_def seg_def content_def split: option.splits node.splits)
  have "plain_file fs q \<Longrightarrow> \<not> under q (wr_path w) \<Longrightarrow> plain_file ?fs' q" for q
    by (auto simp: plain_file_def empty_below_iff)
  then have l: "log_files w ?fs'"
    using assms(3) log_dir(1) [OF assms(2)] by (simp add: log_files_def)
  show ?thesis using that [OF a l] by (auto simp: seg_def content_def fun_eq_iff)
qed

lemma remove_file:
  assumes "no_faults h" and "plain_file fs q"
  shows "map_of (snd (os_Remove h q fs)) k = (if k = q then None else map_of fs k)"
    and "plain_file fs x \<Longrightarrow> plain_file (snd (os_Remove h q fs)) x"
proof -
  show m: "map_of (snd (os_Remove h q fs)) k = (if k = q then None else map_of fs k)" for k
    using assms by (simp add: os_Remove_def no_faults_def plain_file_def AList.delete_conv')
  show "plain_file fs x \<Longrightarrow> plain_file (snd (os_Remove h q fs)) x"
    by (auto simp: plain_file_def empty_below_iff m)
qed

lemma rotate_log:
  assumes "no_faults h" and "log_place w ds" and "log_files w fs"
  obtains fs' where "rotateIfNeeded h w fs = (Inr (), fs')" and "log_files w fs'"
    and "if int (length (seg w fs 0)) > wr_maxSize w then seg w fs' 0 = [] \<and> (\<forall>i < wr_maxFiles w. seg w fs' (Suc i) = seg w fs i)
         else fs' = fs"
proof (cases "int (length (seg w fs 0)) > wr_maxSize w")
  case False
  have "rotateIfNeeded h w fs = (Inr (), fs)"
    using False assms(1) assms(3)
    by (auto simp: rotateIfNeeded_def no_faults_simps seg_def content_def node_size_def log_files_def plain_file_def
        split: option.splits node.splits)
  then show ?thesis using that [of fs] False assms(3) by simp
next
  case True
  let ?p = "wr_path w"
  obtain n where n: "wr_maxFiles w = Suc n" using assms(2) by (cases "wr_maxFiles w") (auto simp: log_place_def)
  have pl: "plain_file fs ?p" "\<And>i. plain_file fs (backup ?p i)" using assms(3) by (auto simp: log_files_def)
  have pos: "wr_maxSize w > 0" using assms(2) by (simp add: log_place_def)
  obtain c where c: "map_of fs ?p = Some (Doc c)" "c = seg w fs 0" "int (length c) > wr_maxSize w"
    using True pos by (auto simp: seg_def content_def split: option.splits node.splits)
  define fs1 where "fs1 = snd (os_Remove h (backup ?p (Suc n)) fs)"
  note rm = remove_file [OF assms(1) pl(2) [of "Suc n"], folded fs1_def]
  have "\<forall>j. plain_file fs1 (backup ?p j)" "plain_file fs1 ?p" "map_of fs1 (backup ?p (Suc n)) = None" using rm pl by simp_all
  from shift_backups_exact [OF assms(1) this]
  obtain fs2 where s: "shift_backups h ?p n fs1 = (Inr (), fs2)" "map_of fs2 (backup ?p 1) = None"
    "\<forall>j. plain_file fs2 (backup ?p j)" "plain_file fs2 ?p"
    "\<forall>j. 1 \<le> j \<and> j \<le> n \<longrightarrow> content fs2 (backup ?p (Suc j)) = content fs1 (backup ?p j)"
    "\<forall>q. (\<forall>j. 1 \<le> j \<and> j \<le> Suc n \<longrightarrow> q \<noteq> backup ?p j) \<longrightarrow> map_of fs2 q = map_of fs1 q" by blast
  obtain r fs3 where m: "os_Rename h ?p (backup ?p 1) fs2 = (r, fs3)" "r = Inr () \<or> r = Inl (EOS NotExist)"
    and o: "\<And>q. q \<noteq> ?p \<Longrightarrow> q \<noteq> backup ?p 1 \<Longrightarrow> map_of fs3 q = map_of fs2 q"
    and z: "map_of fs3 ?p = None" "content fs3 (backup ?p 1) = content fs2 ?p"
    and pl3: "\<And>x. \<not> under x ?p \<Longrightarrow> \<not> under x (backup ?p 1) \<Longrightarrow> plain_file fs2 x \<Longrightarrow> plain_file fs3 x"
    by (rule move_log [of h fs2 ?p "backup ?p 1"]) (use assms(1) s in auto)
  have "rotateIfNeeded h w fs = (Inr (), fs3)"
    using c s(1) m n assms(1) by (auto simp: rotateIfNeeded_def no_faults_simps node_size_def fs1_def)
  moreover have "log_files w fs3"
  proof -
    have "map_of fs3 (path_Dir ?p) = map_of fs (path_Dir ?p)"
      using o [of "path_Dir ?p"] s(6) rm(1) log_dir(1,2) [OF assms(2)] by simp
    then show ?thesis using assms(3) pl3 s(3,4) by (simp add: log_files_def)
  qed
  moreover have "seg w fs3 (Suc i) = seg w fs i" if "i < Suc n" for i
  proof (cases i)
    case 0
    have "map_of fs2 ?p = map_of fs ?p" using s(6) rm(1) by simp
    then show ?thesis using 0 z(2) by (simp add: seg_def content_def)
  next
    case (Suc j)
    have "content fs3 (backup ?p (Suc i)) = content fs2 (backup ?p (Suc i))" using o [of "backup ?p (Suc i)"] Suc by (simp add: content_def)
    also have "\<dots> = content fs1 (backup ?p i)" using s(5) that Suc by simp
    also have "\<dots> = content fs (backup ?p i)" using rm(1) that by (simp add: content_def)
    finally show ?thesis using Suc by (simp add: seg_def)
  qed
  ultimately show ?thesis using that [of fs3] True z(1) n by (simp add: seg_def)
qed

lemma AppendJSON_exact:
  assumes "no_faults h" and "log_place w ds" and "log_files w fs"
  obtains fs' where "AppendJSON h text w v fs = (Inr (), fs')" and "log_files w fs'"
    and "appended (wr_maxSize w) (wr_maxFiles w) (seg w fs) (text v @ nl) (seg w fs')"
proof -
  obtain fs1 where a: "os_MkdirAll h (path_Dir (wr_path w)) fs = (Inr (), fs1)" "log_files w fs1" "seg w fs1 = seg w fs"
    using mkdir_log [OF assms] by blast
  obtain fs2 where b: "rotateIfNeeded h w fs1 = (Inr (), fs2)" "log_files w fs2"
    "if int (length (seg w fs1 0)) > wr_maxSize w then seg w fs2 0 = [] \<and> (\<forall>i < wr_maxFiles w. seg w fs2 (Suc i) = seg w fs1 i)
     else fs2 = fs1"
    using rotate_log [OF assms(1,2) a(2)] by blast
  obtain fs3 where c: "os_MkdirAll h (path_Dir (wr_path w)) fs2 = (Inr (), fs3)" "log_files w fs3" "seg w fs3 = seg w fs2"
    using mkdir_log [OF assms(1,2) b(2)] by blast
  obtain fs4 where d: "os_Append h (wr_path w) (text v @ nl) fs3 = (Inr (), fs4)" "log_files w fs4"
    "seg w fs4 = (seg w fs3)(0 := seg w fs3 0 @ (text v @ nl))"
    using append_log [OF assms(1,2) c(2)] by blast
  have "AppendJSON h text w v fs = (Inr (), fs4)"
    using a(1) b(1) c(1) d(1) assms(2) by (simp add: AppendJSON_def AppendJSONOnce_def log_place_def)
  moreover have "appended (wr_maxSize w) (wr_maxFiles w) (seg w fs) (text v @ nl) (seg w fs4)"
    using a(3) b(3) c(3) d(3) by (simp add: appended_def split: if_splits)
  ultimately show ?thesis using that d(2) by blast
qed

section \<open>Runs\<close>

text \<open>The series of an undisturbed log: backups are there from the first on, each longer than the limit; nothing is longer
  than the limit and one line.\<close>

definition series :: "int \<Rightarrow> nat \<Rightarrow> int \<Rightarrow> (nat \<Rightarrow> string) \<Rightarrow> bool" where
  "series cap n line_max f \<longleftrightarrow>
     (\<forall>i \<le> n. int (length (f i)) \<le> cap + line_max) \<and>
     (\<forall>i < n. f (Suc i) \<noteq> [] \<longrightarrow> int (length (f (Suc i))) > cap \<and> (i > 0 \<longrightarrow> f i \<noteq> []))"

lemma segs_text_Suc: "segs_text (Suc n) f = f (Suc n) @ segs_text n f"
  by (simp add: segs_text_def)

lemma segs_text_shift: "\<forall>i < n. g (Suc i) = f i \<Longrightarrow> g 0 = line \<Longrightarrow> n > 0 \<Longrightarrow> f n @ segs_text n g = segs_text n f @ line"
proof (induction n)
  case (Suc n)
  show ?case
  proof (cases "n = 0")
    case True
    then show ?thesis using Suc.prems by (simp add: segs_text_def)
  next
    case False
    then have "f n @ segs_text n g = segs_text n f @ line" using Suc by simp
    moreover have "g (Suc n) = f n" using Suc.prems(1) by simp
    ultimately show ?thesis by (simp add: segs_text_Suc)
  qed
qed simp

lemma segs_text_long:
  assumes "\<forall>i < n. int (length (f (Suc i))) > cap" and "cap \<ge> 0"
  shows "int (length (segs_text n f)) \<ge> int n * cap"
  using assms(1)
proof (induction n)
  case (Suc n)
  then have "int (length (f (Suc n))) > cap" "int (length (segs_text n f)) \<ge> int n * cap" by simp_all
  then show ?case by (simp add: segs_text_Suc algebra_simps)
qed simp

lemma appended_series:
  assumes "appended cap n f line g" and "series cap n m f" and "int (length line) \<le> m" and "cap > 0" and "n > 0"
  shows "series cap n m g"
    and "segs_text n f @ line = (if int (length (f 0)) > cap then f n else []) @ segs_text n g"
    and "int (length (f 0)) > cap \<and> f n \<noteq> [] \<Longrightarrow> \<forall>i < n. int (length (g (Suc i))) > cap"
    and "\<forall>i < n. int (length (f (Suc i))) > cap \<Longrightarrow> \<forall>i < n. int (length (g (Suc i))) > cap"
proof -
  have s: "\<And>i. i \<le> n \<Longrightarrow> int (length (f i)) \<le> cap + m" "\<And>i. i < n \<Longrightarrow> f (Suc i) \<noteq> [] \<Longrightarrow> int (length (f (Suc i))) > cap"
    "\<And>i. i < n \<Longrightarrow> i > 0 \<Longrightarrow> f (Suc i) \<noteq> [] \<Longrightarrow> f i \<noteq> []"
    using assms(2) by (auto simp: series_def)
  have prev: "f (Suc i) \<noteq> []" if "i < n" "f n \<noteq> []" for i
    using that
  proof (induction "n - Suc i" arbitrary: i)
    case 0
    then have "Suc i = n" by simp
    then show ?case using 0 by simp
  next
    case (Suc k)
    then have "f (Suc (Suc i)) \<noteq> []" by simp
    then show ?case using s(3) [of "Suc i"] Suc by simp
  qed
  show "series cap n m g"
  proof (cases "int (length (f 0)) > cap")
    case True
    then have g: "g 0 = line" "\<And>i. i < n \<Longrightarrow> g (Suc i) = f i" using assms(1) by (auto simp: appended_def)
    have "int (length (g i)) \<le> cap + m" if "i \<le> n" for i using g that s(1) assms(3,4) by (cases i) auto
    moreover have "int (length (g (Suc i))) > cap \<and> (i > 0 \<longrightarrow> g i \<noteq> [])" if "i < n" "g (Suc i) \<noteq> []" for i
    proof (cases i)
      case 0
      then show ?thesis using g(2) [of 0] True that by simp
    next
      case (Suc j)
      have fi: "f (Suc j) \<noteq> []" "j < n" using g(2) that Suc by auto
      have "int (length (f (Suc j))) > cap" using s(2) fi by simp
      moreover have "g i = f j" using g(2) [of j] Suc fi by simp
      moreover have "f j \<noteq> []" using s(3) [of j] fi True assms(4) by (cases "j = 0") auto
      ultimately show ?thesis using g(2) [of i] that Suc by simp
    qed
    ultimately show ?thesis by (simp add: series_def)
  next
    case False
    then have g: "g 0 = f 0 @ line" "\<And>i. i < n \<Longrightarrow> g (Suc i) = f (Suc i)" using assms(1) by (auto simp: appended_def)
    have "int (length (g i)) \<le> cap + m" if "i \<le> n" for i using g that s(1) assms(3) False by (cases i) auto
    moreover have "int (length (g (Suc i))) > cap \<and> (i > 0 \<longrightarrow> g i \<noteq> [])" if "i < n" "g (Suc i) \<noteq> []" for i
      using g that s(2) [of i] s(3) [of i] by (cases i) auto
    ultimately show ?thesis by (simp add: series_def)
  qed
  show "segs_text n f @ line = (if int (length (f 0)) > cap then f n else []) @ segs_text n g"
  proof (cases "int (length (f 0)) > cap")
    case True
    then show ?thesis using assms(1,5) segs_text_shift [of n g f line] by (simp add: appended_def)
  next
    case False
    then have g: "g 0 = f 0 @ line" "\<forall>i < n. g (Suc i) = f (Suc i)" using assms(1) by (auto simp: appended_def)
    then have "segs_text n g = segs_text n f @ line" by (induction n) (simp_all add: segs_text_def)
    then show ?thesis using False by simp
  qed
  show "\<forall>i < n. int (length (g (Suc i))) > cap" if "int (length (f 0)) > cap \<and> f n \<noteq> []"
  proof (intro allI impI)
    fix i assume i: "i < n"
    have "g (Suc i) = f i" using assms(1) that i by (simp add: appended_def)
    moreover have "int (length (f i)) > cap" using that i prev s(2) by (cases i) auto
    ultimately show "int (length (g (Suc i))) > cap" by simp
  qed
  show "\<forall>i < n. int (length (g (Suc i))) > cap" if "\<forall>i < n. int (length (f (Suc i))) > cap"
  proof (intro allI impI)
    fix i assume i: "i < n"
    show "int (length (g (Suc i))) > cap"
      using assms(1) that i by (cases "int (length (f 0)) > cap"; cases i) (auto simp: appended_def)
  qed
qed

text \<open>Any number of lines.\<close>

fun append_all :: "host \<Rightarrow> (json \<Rightarrow> string) \<Rightarrow> Writer \<Rightarrow> json list \<Rightarrow> files \<Rightarrow> files" where
  "append_all h text w [] fs = fs"
| "append_all h text w (v # vs) fs = append_all h text w vs (snd (AppendJSON h text w v fs))"

definition log_lines :: "(json \<Rightarrow> string) \<Rightarrow> json list \<Rightarrow> string" where
  "log_lines text vs = concat (map (\<lambda>v. text v @ nl) vs)"

lemma append_all_series:
  assumes "no_faults h" and "log_place w ds" and "log_files w fs" and "\<forall>v \<in> set vs. int (length (text v @ nl)) \<le> m"
    and "series (wr_maxSize w) (wr_maxFiles w) m (seg w fs)"
  shows "\<exists>older. log_text w fs @ log_lines text vs = older @ log_text w (append_all h text w vs fs) \<and>
    series (wr_maxSize w) (wr_maxFiles w) m (seg w (append_all h text w vs fs)) \<and>
    (older \<noteq> [] \<or> (\<forall>i < wr_maxFiles w. int (length (seg w fs (Suc i))) > wr_maxSize w) \<longrightarrow>
       (\<forall>i < wr_maxFiles w. int (length (seg w (append_all h text w vs fs) (Suc i))) > wr_maxSize w))"
  using assms(3-5)
proof (induction vs arbitrary: fs)
  case Nil
  then show ?case by (intro exI [of _ "[]"]) (simp add: log_lines_def)
next
  case (Cons v vs)
  let ?n = "wr_maxFiles w" and ?cap = "wr_maxSize w"
  have pos: "?cap > 0" "?n > 0" using assms(2) by (simp_all add: log_place_def)
  obtain fs1 where a: "AppendJSON h text w v fs = (Inr (), fs1)" "log_files w fs1" "appended ?cap ?n (seg w fs) (text v @ nl) (seg w fs1)"
    using AppendJSON_exact [OF assms(1,2) Cons.prems(1)] by blast
  have l: "int (length (text v @ nl)) \<le> m" using Cons.prems(2) by simp
  note s = appended_series [OF a(3) Cons.prems(3) l pos]
  let ?d = "if int (length (seg w fs 0)) > ?cap then seg w fs ?n else []"
  obtain older where o: "log_text w fs1 @ log_lines text vs = older @ log_text w (append_all h text w vs fs1)"
    "series ?cap ?n m (seg w (append_all h text w vs fs1))"
    "older \<noteq> [] \<or> (\<forall>i < ?n. int (length (seg w fs1 (Suc i))) > ?cap) \<longrightarrow>
       (\<forall>i < ?n. int (length (seg w (append_all h text w vs fs1) (Suc i))) > ?cap)"
    using Cons.IH [OF a(2) _ s(1)] Cons.prems(2) by auto
  have new: "append_all h text w (v # vs) fs = append_all h text w vs fs1" using a(1) by simp
  have "log_text w fs @ log_lines text (v # vs) = (log_text w fs @ (text v @ nl)) @ log_lines text vs" by (simp add: log_lines_def)
  also have "\<dots> = (?d @ log_text w fs1) @ log_lines text vs" by (simp only: s(2))
  also have "\<dots> = ?d @ (log_text w fs1 @ log_lines text vs)" by simp
  also have "\<dots> = (?d @ older) @ log_text w (append_all h text w vs fs1)" by (simp only: o(1) append.assoc)
  finally have t: "log_text w fs @ log_lines text (v # vs) = (?d @ older) @ log_text w (append_all h text w vs fs1)" .
  have c: "\<forall>i < ?n. int (length (seg w fs1 (Suc i))) > ?cap" if "?d \<noteq> [] \<or> (\<forall>i < ?n. int (length (seg w fs (Suc i))) > ?cap)"
    using that
  proof
    assume "?d \<noteq> []"
    then have "int (length (seg w fs 0)) > ?cap \<and> seg w fs ?n \<noteq> []" by (simp split: if_splits)
    then show ?thesis by (rule s(3))
  qed (rule s(4))
  show ?case
    unfolding new
  proof (intro exI [of _ "?d @ older"] conjI impI t o(2))
    assume "?d @ older \<noteq> [] \<or> (\<forall>i < ?n. int (length (seg w fs (Suc i))) > ?cap)"
    then have "older \<noteq> [] \<or> (?d \<noteq> [] \<or> (\<forall>i < ?n. int (length (seg w fs (Suc i))) > ?cap))" by auto
    then show "\<forall>i < ?n. int (length (seg w (append_all h text w vs fs1) (Suc i))) > ?cap" using c o(3) by blast
  qed
qed

end
