(* ===== verification/Host_Tools.thy ===== *)
theory Host_Tools
  imports Logs
begin

text \<open>
  Smaller packages that keep files on the host: the hook before commits (\<^verbatim>\<open>internal/githook\<close>), the markers of the sessions of
  Claude Code (\<^verbatim>\<open>internal/sessions\<close>), the stamp of the version that scaffolded a workspace (\<^verbatim>\<open>internal/scaffoldver\<close>), and
  \<^verbatim>\<open>slotgc.Kill\<close>.
\<close>

section \<open>The hook before commits\<close>

definition Marker :: string where
  "Marker = ''# bones-managed pre-commit (ADR 0034)''"

definition SavedSuffix :: string where
  "SavedSuffix = ''.bones-saved''"

definition hookScript :: string where
  \<open>hookScript = concat (map (\<lambda>l. l @ nl)
      [''#!/bin/sh'',
       Marker,
       ''# Refuses commits when a bones leaf is running and the commit was not'',
       ''# initiated by the leaf itself. Set BONES_INTERNAL_COMMIT=1 to bypass'',
       ''# (the leaf sets this when it forks git). Use git commit --no-verify'',
       ''# as a deliberate, audited escape hatch.'',
       [],
       ''set -e'',
       [],
       ''repo_root="$(git rev-parse --show-toplevel 2>/dev/null || true)"'',
       ''if [ -z "$repo_root" ]; then'',
       ''  exit 0'',
       ''fi'',
       [],
       ''leaf_pid_file="$repo_root/.bones/leaf.pid"'',
       ''if [ ! -f "$leaf_pid_file" ]; then'',
       ''  exit 0'',
       ''fi'',
       [],
       ''leaf_pid="$(cat "$leaf_pid_file" 2>/dev/null | tr -d '' @ [CHR 0x27] @ ''[:space:]'' @ [CHR 0x27] @ '')"'',
       ''if [ -z "$leaf_pid" ] || ! kill -0 "$leaf_pid" 2>/dev/null; then'',
       ''  exit 0'',
       ''fi'',
       [],
       ''if [ "${BONES_INTERNAL_COMMIT:-}" = "1" ]; then'',
       ''  saved="$repo_root/.git/hooks/pre-commit'' @ SavedSuffix @ ''"'',
       ''  if [ -x "$saved" ]; then'',
       ''    exec "$saved" "$@"'',
       ''  fi'',
       ''  exit 0'',
       ''fi'',
       [],
       ''cat >&2 <<'' @ [CHR 0x27] @ ''BONES_REFUSE'' @ [CHR 0x27],
       ''bones: refusing direct git commit while a bones leaf is running.'',
       [],
       ''A bones swarm session is active in this workspace. Direct git commits'',
       ''bypass the shadow trunk and break the autosync invariant. Use:'',
       [],
       ''  bones swarm commit -m "your message"'',
       [],
       ''to land work through bones. If you genuinely need to bypass (rare),'',
       ''re-run with --no-verify; the bypass is then explicit and audited.'',
       [],
       ''If bones is broken or stale, run:'',
       [],
       ''  bones doctor'',
       [],
       ''to diagnose. Do not bypass silently.'',
       ''BONES_REFUSE'',
       ''exit 1''])\<close>

text \<open>What the script decides, in terms of the files of the workspace at \<open>root\<close>.\<close>

definition blanks :: string where
  "blanks = [CHR '' '', CHR 0x09, CHR 0x0A, CHR 0x0B, CHR 0x0C, CHR 0x0D]"

datatype hook_verdict = HookPasses | HookRunsSaved string | HookRefuses

definition hook_decides :: "host \<Rightarrow> files \<Rightarrow> string \<Rightarrow> bool \<Rightarrow> (string \<Rightarrow> int option) \<Rightarrow> hook_verdict" where
  "hook_decides h fs root internal number =
     (if root = [] then HookPasses
      else case map_of fs (root @ ''/.bones/leaf.pid'') of
             Some (Doc c) \<Rightarrow>
               (let leaf_pid = filter (\<lambda>x. x \<notin> set blanks) c in
                if leaf_pid = [] \<or> (case number leaf_pid of None \<Rightarrow> True | Some p \<Rightarrow> \<not> ho_alive h p) then HookPasses
                else if internal
                then (case map_of fs (root @ ''/.git/hooks/pre-commit'' @ SavedSuffix) of
                        Some (Doc saved) \<Rightarrow> HookRunsSaved saved
                      | _ \<Rightarrow> HookPasses)
                else HookRefuses)
           | _ \<Rightarrow> HookPasses)"

definition hook_path :: "string \<Rightarrow> string" where
  "hook_path gitDir = Join (Join gitDir ''hooks'') ''pre-commit''"

definition restoreSaved :: "host \<Rightarrow> string \<Rightarrow> files \<Rightarrow> (err + unit) \<times> files" where
  "restoreSaved h hookPath fs =
     (case os_Stat h fs (hookPath @ SavedSuffix) of
        Inl e \<Rightarrow> (if e = EOS NotExist then Inr () else Inl e, fs)
      | Inr _ \<Rightarrow> os_Rename h (hookPath @ SavedSuffix) hookPath fs)"

definition hook_Install :: "host \<Rightarrow> string \<Rightarrow> files \<Rightarrow> (err + unit) \<times> files" where
  "hook_Install h gitDir fs =
     (case os_MkdirAll h (Join gitDir ''hooks'') fs of
        (Inl e, fs1) \<Rightarrow> (Inl e, fs1)
      | (Inr _, fs1) \<Rightarrow>
          let hookPath = hook_path gitDir; savedPath = hookPath @ SavedSuffix in
          (case os_ReadFile h fs1 hookPath of
             Inl e \<Rightarrow> if e \<noteq> EOS NotExist then (Inl e, fs1) else os_WriteFile h hookPath hookScript fs1
           | Inr existing \<Rightarrow>
               if str_contains existing Marker then (Inr (), fs1)
               else if existing \<noteq> [] \<and> os_Stat h fs1 savedPath = Inl (EOS NotExist)
               then (case os_Rename h hookPath savedPath fs1 of
                       (Inl e, fs2) \<Rightarrow> (Inl e, fs2)
                     | (Inr _, fs2) \<Rightarrow> os_WriteFile h hookPath hookScript fs2)
               else os_WriteFile h hookPath hookScript fs1))"

definition hook_Uninstall :: "host \<Rightarrow> string \<Rightarrow> files \<Rightarrow> (err + unit) \<times> files" where
  "hook_Uninstall h gitDir fs =
     (let hookPath = hook_path gitDir in
      case os_ReadFile h fs hookPath of
        Inl e \<Rightarrow> if e = EOS NotExist then restoreSaved h hookPath fs else (Inl e, fs)
      | Inr existing \<Rightarrow>
          if \<not> str_contains existing Marker then (Inr (), fs)
          else (case os_Remove h hookPath fs of
                  (Inl e, fs1) \<Rightarrow> (Inl e, fs1)
                | (Inr _, fs1) \<Rightarrow> restoreSaved h hookPath fs1))"

definition hook_IsInstalled :: "host \<Rightarrow> files \<Rightarrow> string \<Rightarrow> err + bool" where
  "hook_IsInstalled h fs gitDir =
     (case os_ReadFile h fs (hook_path gitDir) of
        Inl e \<Rightarrow> if e = EOS NotExist then Inr False else Inl e
      | Inr data \<Rightarrow> Inr (str_contains data Marker))"

text \<open>
  \<^verbatim>\<open>FindGitDir\<close>: the loop ends at the root of the tree, which is its own parent. The paths get shorter, so the length of
  the path is enough fuel.
\<close>

fun find_git :: "nat \<Rightarrow> host \<Rightarrow> files \<Rightarrow> string \<Rightarrow> string option" where
  "find_git 0 h fs dir = None"
| "find_git (Suc n) h fs dir =
     (case os_Stat h fs (Join dir ''.git'') of
        Inr _ \<Rightarrow> Some (Join dir ''.git'')
      | Inl _ \<Rightarrow> if path_Dir dir = dir then Some [] else find_git n h fs (path_Dir dir))"

definition FindGitDir :: "host \<Rightarrow> files \<Rightarrow> string \<Rightarrow> string option" where
  "FindGitDir h fs start = find_git (Suc (length start)) h fs start"

section \<open>Markers of sessions\<close>

record session_Marker =
  mk_SessionID :: string
  mk_WorkspaceCwd :: string
  mk_ClaudePID :: int
  mk_StartedAt :: time_ns

definition zero_Marker :: session_Marker where
  "zero_Marker = \<lparr>mk_SessionID = [], mk_WorkspaceCwd = [], mk_ClaudePID = 0, mk_StartedAt = zero_time\<rparr>"

definition encode_Marker :: "session_Marker \<Rightarrow> json" where
  "encode_Marker m = JObj
     (member ''session_id'' (JStr (mk_SessionID m)) @ member ''workspace_cwd'' (JStr (mk_WorkspaceCwd m)) @
      member ''claude_pid'' (JNum (mk_ClaudePID m)) @ member ''started_at'' (JTime (mk_StartedAt m)))"

definition marker_field :: "string \<Rightarrow> json \<Rightarrow> session_Marker \<Rightarrow> session_Marker option" where
  "marker_field k v m =
     (if k = ''session_id'' then map_option (\<lambda>x. m\<lparr>mk_SessionID := x\<rparr>) (into_string (mk_SessionID m) v)
      else if k = ''workspace_cwd'' then map_option (\<lambda>x. m\<lparr>mk_WorkspaceCwd := x\<rparr>) (into_string (mk_WorkspaceCwd m) v)
      else if k = ''claude_pid'' then map_option (\<lambda>x. m\<lparr>mk_ClaudePID := x\<rparr>) (into_int (mk_ClaudePID m) v)
      else if k = ''started_at'' then map_option (\<lambda>x. m\<lparr>mk_StartedAt := x\<rparr>) (into_time (mk_StartedAt m) v)
      else Some m)"

definition decode_Marker :: "json \<Rightarrow> session_Marker option" where
  "decode_Marker j = into_struct marker_field zero_Marker j"

definition SessionsDir :: "host \<Rightarrow> string" where
  "SessionsDir h = Join (Join (ho_Home h) ''.bones'') ''sessions''"

definition MarkerPath :: "host \<Rightarrow> string \<Rightarrow> string" where
  "MarkerPath h sessionID = Join (SessionsDir h) (sessionID @ ''.json'')"

text \<open>\<open>rnd\<close> is the part of the name that \<^verbatim>\<open>os.CreateTemp\<close> chooses.\<close>

definition marker_Register :: "host \<Rightarrow> string \<Rightarrow> session_Marker \<Rightarrow> files \<Rightarrow> (err + unit) \<times> files" where
  "marker_Register h rnd m fs =
     (case os_MkdirAll h (SessionsDir h) fs of
        (Inl x, fs1) \<Rightarrow> (Inl x, fs1)
      | (Inr _, fs1) \<Rightarrow>
          let dst = MarkerPath h (mk_SessionID m); tmp = Join (SessionsDir h) (path_Base dst @ ''.tmp.'' @ rnd) in
          (case os_WriteFile h tmp (ho_render h (encode_Marker m)) fs1 of
             (Inl x, fs2) \<Rightarrow> (Inl x, snd (os_Remove h tmp fs2))
           | (Inr _, fs2) \<Rightarrow> (case os_Rename h tmp dst fs2 of (r, fs3) \<Rightarrow> (r, snd (os_Remove h tmp fs3)))))"

definition marker_Unregister :: "host \<Rightarrow> string \<Rightarrow> files \<Rightarrow> (err + unit) \<times> files" where
  "marker_Unregister h sessionID fs =
     (case os_Remove h (MarkerPath h sessionID) fs of
        (Inr _, fs1) \<Rightarrow> (Inr (), fs1)
      | (Inl e, fs1) \<Rightarrow> (if e = EOS NotExist then Inr () else Inl e, fs1))"

fun marker_loop :: "host \<Rightarrow> string \<Rightarrow> string list \<Rightarrow> files \<Rightarrow> session_Marker list \<times> files" where
  "marker_loop h cwd [] fs = ([], fs)"
| "marker_loop h cwd (p # ps) fs =
     (case os_ReadFile h fs p of
        Inl _ \<Rightarrow> marker_loop h cwd ps fs
      | Inr data \<Rightarrow>
          (case Option.bind (ho_parse h data) decode_Marker of
             None \<Rightarrow> marker_loop h cwd ps fs
           | Some m \<Rightarrow>
               if \<not> pidAlive (ho_alive h) (mk_ClaudePID m) then marker_loop h cwd ps (snd (os_Remove h p fs))
               else (case marker_loop h cwd ps fs of (ms, fs1) \<Rightarrow> (if mk_WorkspaceCwd m = cwd then m # ms else ms, fs1))))"

definition ListByWorkspace :: "host \<Rightarrow> string \<Rightarrow> files \<Rightarrow> session_Marker list \<times> files" where
  "ListByWorkspace h cwd fs = marker_loop h cwd (glob h fs (SessionsDir h) [] ''.json'') fs"

definition CountByWorkspace :: "host \<Rightarrow> string \<Rightarrow> files \<Rightarrow> nat \<times> files" where
  "CountByWorkspace h cwd fs = map_prod length id (ListByWorkspace h cwd fs)"

section \<open>The version of the scaffold\<close>

definition stamp_Path :: "host \<Rightarrow> string \<Rightarrow> string" where
  "stamp_Path h root = Join (bones_dir h root) ''scaffold_version''"

definition stamp_Read :: "host \<Rightarrow> files \<Rightarrow> string \<Rightarrow> err + string" where
  "stamp_Read h fs root =
     (case os_ReadFile h fs (stamp_Path h root) of
        Inl e \<Rightarrow> if e = EOS NotExist then Inr [] else Inl e
      | Inr data \<Rightarrow> Inr (TrimSpace data))"

definition stamp_Write :: "host \<Rightarrow> string \<Rightarrow> string \<Rightarrow> files \<Rightarrow> (err + unit) \<times> files" where
  "stamp_Write h root ver fs =
     (case os_MkdirAll h (path_Dir (stamp_Path h root)) fs of
        (Inl e, fs1) \<Rightarrow> (Inl e, fs1)
      | (Inr _, fs1) \<Rightarrow> os_WriteFile h (stamp_Path h root) (ver @ nl) fs1)"

definition Drifted :: "string \<Rightarrow> string \<Rightarrow> bool" where
  "Drifted stmp binary = (if stmp = [] then False else if binary = [] \<or> binary = ''dev'' then False else stmp \<noteq> binary)"

section \<open>Ending a process\<close>

text \<open>
  The code signals, looks at the process until it is gone or the time is over, and signals again. \<open>probes\<close> and \<open>probes2\<close> are
  what it sees after the two signals; the last look is \<open>final\<close>. The result lists the signals it sent.
\<close>

definition slot_Kill :: "host \<Rightarrow> bool list \<Rightarrow> bool list \<Rightarrow> bool \<Rightarrow> int \<Rightarrow> bool \<times> signal list" where
  "slot_Kill h probes probes2 final pid =
     (if \<not> pidAlive (ho_alive h) pid then (True, [])
      else if \<not> list_all id probes then (True, [SIGTERM])
      else if \<not> list_all id probes2 then (True, [SIGTERM, SIGKILL])
      else (\<not> final, [SIGTERM, SIGKILL]))"

end
