(* ===== verification/Hub.thy ===== *)
theory Hub
  imports Host_Tools Dispatch
begin

text \<open>
  \<^verbatim>\<open>internal/hub\<close>: the process that serves the repository and the substrate of a workspace. Its state is the substrate, the
  files of the host with the lock of the workspace, and the directories of the slots. \<open>hub_env\<close> has what the code gets from
  outside: the outcomes of the repository server of EdgeSync, of \<^verbatim>\<open>git\<close>, of dialling and of the child process, and what other
  processes do meanwhile.
\<close>

section \<open>Layout\<close>

record paths =
  pa_root :: string
  pa_orchDir :: string
  pa_hubRepo :: string
  pa_hubPid :: string
  pa_fossilURL :: string
  pa_natsURL :: string
  pa_coordStore :: string
  pa_fslckout :: string
  pa_fslSettings :: string

definition newPaths :: "host \<Rightarrow> files \<Rightarrow> string \<Rightarrow> err + paths" where
  "newPaths h fs root =
     (case ho_abs h root of
        Inl e \<Rightarrow> Inl e
      | Inr a \<Rightarrow>
          (case os_Stat h fs a of
             Inl e \<Rightarrow> Inl e
           | Inr (Doc _) \<Rightarrow> Inl (EMsg ''hub: root is not a directory'')
           | Inr Folder \<Rightarrow>
               let orch = bones_dir h a in
               Inr \<lparr>pa_root = a, pa_orchDir = orch, pa_hubRepo = Join orch ''hub.fossil'', pa_hubPid = Join orch ''hub.pid'',
                    pa_fossilURL = Join orch ''hub-fossil-url'', pa_natsURL = Join orch ''hub-nats-url'',
                    pa_coordStore = Join orch ''coord'', pa_fslckout = Join a ''.fslckout'',
                    pa_fslSettings = Join a ''.fossil-settings''\<rparr>))"

definition HubFossilPath :: "host \<Rightarrow> string \<Rightarrow> string" where
  "HubFossilPath h root = Join (bones_dir h root) ''hub.fossil''"

section \<open>Process files\<close>

definition hub_readPid :: "host \<Rightarrow> files \<Rightarrow> string \<Rightarrow> int option" where
  "hub_readPid h fs p = read_pid h fs p"

definition pidIntIsLive :: "host \<Rightarrow> int \<Rightarrow> bool" where
  "pidIntIsLive h pid = (if pid \<le> 0 then False else ho_alive h pid)"

definition pidIsLive :: "host \<Rightarrow> files \<Rightarrow> string \<Rightarrow> bool" where
  "pidIsLive h fs p = (case hub_readPid h fs p of None \<Rightarrow> False | Some pid \<Rightarrow> pidIntIsLive h pid)"

definition hub_writePid :: "host \<Rightarrow> string \<Rightarrow> int \<Rightarrow> files \<Rightarrow> (err + unit) \<times> files" where
  "hub_writePid h p pid fs = os_WriteFile h p (signed_itoa pid @ nl) fs"

definition IsRunning :: "host \<Rightarrow> files \<Rightarrow> string \<Rightarrow> int \<times> bool" where
  "IsRunning h fs root =
     (case newPaths h fs root of
        Inl _ \<Rightarrow> (0, False)
      | Inr p \<Rightarrow>
          (case hub_readPid h fs (pa_hubPid p) of
             None \<Rightarrow> (0, False)
           | Some pid \<Rightarrow> if \<not> pidIntIsLive h pid then (0, False) else (pid, True)))"

text \<open>\<^verbatim>\<open>os.RemoveAll\<close>: a path and everything below it.\<close>

definition os_RemoveAll :: "host \<Rightarrow> string \<Rightarrow> files \<Rightarrow> (err + unit) \<times> files" where
  "os_RemoveAll h p fs =
     (case ho_fault h ''removeall'' p of
        Some x \<Rightarrow> (Inl (EOS (OSFailure x)), fs)
      | None \<Rightarrow> (Inr (), filter (\<lambda>(q, _). q \<noteq> p \<and> \<not> under p q) fs))"

definition repo_files :: "paths \<Rightarrow> string list" where
  "repo_files p = [pa_hubRepo p, pa_hubRepo p @ ''-shm'', pa_hubRepo p @ ''-wal'', pa_fslckout p, pa_fslSettings p]"

definition removeRepoAndSidecars :: "host \<Rightarrow> paths \<Rightarrow> files \<Rightarrow> files" where
  "removeRepoAndSidecars h p fs = foldl (\<lambda>f q. snd (os_RemoveAll h q f)) fs (repo_files p)"

section \<open>Recorded addresses\<close>

definition readURLFile :: "host \<Rightarrow> files \<Rightarrow> string \<Rightarrow> string" where
  "readURLFile h fs p = (case os_ReadFile h fs p of Inl _ \<Rightarrow> [] | Inr data \<Rightarrow> TrimSpace data)"

definition FossilURL :: "host \<Rightarrow> files \<Rightarrow> string \<Rightarrow> string" where
  "FossilURL h fs root = (case newPaths h fs root of Inl _ \<Rightarrow> [] | Inr p \<Rightarrow> readURLFile h fs (pa_fossilURL p))"

definition NATSURL :: "host \<Rightarrow> files \<Rightarrow> string \<Rightarrow> string" where
  "NATSURL h fs root = (case newPaths h fs root of Inl _ \<Rightarrow> [] | Inr p \<Rightarrow> readURLFile h fs (pa_natsURL p))"

text \<open>
  \<^verbatim>\<open>fmt.Sscanf(s, "%d", &port)\<close>: blanks but no line break, a sign, and as many digits as there are; the rest is not read. A value
  outside of 64 bits is an error.
\<close>

definition scan_int :: "string \<Rightarrow> int option" where
  "scan_int s =
     (let t = dropWhile (\<lambda>c. c \<in> {CHR '' '', CHR 0x09, CHR 0x0B, CHR 0x0C, CHR 0x0D}) s;
          sign = (case t of c # _ \<Rightarrow> if c = CHR ''-'' \<or> c = CHR ''+'' then [c] else [] | [] \<Rightarrow> []);
          ds = takeWhile is_digit (drop (length sign) t)
      in if ds = [] then None else Atoi (sign @ ds))"

definition portFromURL :: "string \<Rightarrow> int" where
  "portFromURL url =
     (case last_index CHR '':'' url of
        None \<Rightarrow> 0
      | Some i \<Rightarrow>
          if i = length url - 1 then 0
          else case scan_int (drop (i + 1) url) of None \<Rightarrow> 0 | Some n \<Rightarrow> n)"

record hub_opts =
  ho_repoPort :: int
  ho_coordPort :: int
  ho_detach :: bool
  ho_drainTimeout :: duration
  ho_logLevel :: string

definition defaultDrainTimeout :: duration where
  "defaultDrainTimeout = 30 * 1000000000"

definition hub_defaults :: hub_opts where
  "hub_defaults = \<lparr>ho_repoPort = 0, ho_coordPort = 0, ho_detach = False, ho_drainTimeout = defaultDrainTimeout, ho_logLevel = []\<rparr>"

definition effectiveDrainTimeout :: "duration \<Rightarrow> duration" where
  "effectiveDrainTimeout d = (if d \<le> 0 then defaultDrainTimeout else d)"

definition writeURLFiles :: "host \<Rightarrow> paths \<Rightarrow> hub_opts \<Rightarrow> files \<Rightarrow> (err + unit) \<times> files" where
  "writeURLFiles h p oc fs =
     (case os_WriteFile h (pa_fossilURL p) (''http://127.0.0.1:'' @ signed_itoa (ho_repoPort oc) @ nl) fs of
        (Inl e, fs1) \<Rightarrow> (Inl e, fs1)
      | (Inr _, fs1) \<Rightarrow> os_WriteFile h (pa_natsURL p) (''nats://127.0.0.1:'' @ signed_itoa (ho_coordPort oc) @ nl) fs1)"

text \<open>\<open>free\<close> is \<^verbatim>\<open>pickFreePort\<close>, asked for the port of the repository (\<open>False\<close>) and of the substrate (\<open>True\<close>).\<close>

definition resolve_port :: "host \<Rightarrow> files \<Rightarrow> string \<Rightarrow> err + int \<Rightarrow> int \<Rightarrow> err + int" where
  "resolve_port h fs urlFile free given =
     (if given \<noteq> 0 then Inr given
      else let recorded = portFromURL (readURLFile h fs urlFile) in if recorded \<noteq> 0 then Inr recorded else free)"

definition resolvePorts :: "host \<Rightarrow> (bool \<Rightarrow> err + int) \<Rightarrow> paths \<Rightarrow> hub_opts \<Rightarrow> files \<Rightarrow> (err + hub_opts) \<times> files" where
  "resolvePorts h free p oc fs =
     (case resolve_port h fs (pa_fossilURL p) (free False) (ho_repoPort oc) of
        Inl e \<Rightarrow> (Inl e, fs)
      | Inr a \<Rightarrow>
          (case resolve_port h fs (pa_natsURL p) (free True) (ho_coordPort oc) of
             Inl e \<Rightarrow> (Inl e, fs)
           | Inr b \<Rightarrow>
               let oc' = oc\<lparr>ho_repoPort := a, ho_coordPort := b\<rparr> in
               (case writeURLFiles h p oc' fs of (Inl e, fs1) \<Rightarrow> (Inl e, fs1) | (Inr _, fs1) \<Rightarrow> (Inr oc', fs1))))"

section \<open>Seeding\<close>

text \<open>The output of \<^verbatim>\<open>git ls-files\<close>; \<open>None\<close>: there is no \<^verbatim>\<open>git\<close>.\<close>

definition git_lines :: "string \<Rightarrow> string list" where
  "git_lines out =
     (let ls = split_on CHR 0x0A (rev (dropWhile (\<lambda>c. c = CHR 0x0A) (rev out))) in if ls = [[]] then [] else ls)"

definition gitTrackedFiles :: "(err + string) option \<Rightarrow> err + string list" where
  "gitTrackedFiles ls =
     (case ls of
        None \<Rightarrow> Inl (EOS (OSFailure ''executable file not found''))
      | Some (Inl e) \<Rightarrow> Inl e
      | Some (Inr out) \<Rightarrow> Inr (git_lines out))"

definition ErrSeedPrecondition :: err where
  "ErrSeedPrecondition = EMsg ''no git-tracked files to seed hub fossil from''"

definition checkSeedPrecondition :: "(err + string) option \<Rightarrow> err + unit" where
  "checkSeedPrecondition ls =
     (case gitTrackedFiles ls of
        Inl _ \<Rightarrow> Inl (if ls = None then EMsg ''hub: git binary not found on PATH'' else ErrSeedPrecondition)
      | Inr files \<Rightarrow> if files = [] then Inl ErrSeedPrecondition else Inr ())"

text \<open>A file to commit: its name, its text, and whether it can be executed. \<open>kind\<close> tells regular files from links and sockets.\<close>

fun collectSeedFiles ::
  "host \<Rightarrow> (string \<Rightarrow> bool) \<Rightarrow> (string \<Rightarrow> bool) \<Rightarrow> files \<Rightarrow> string \<Rightarrow> string list \<Rightarrow> err + (string \<times> string \<times> string) list" where
  "collectSeedFiles h regular exec fs root [] = Inr []"
| "collectSeedFiles h regular exec fs root (rel # rels) =
     (let p = Join root rel in
      case os_Stat h fs p of
        Inl e \<Rightarrow> if e = EOS NotExist then collectSeedFiles h regular exec fs root rels else Inl e
      | Inr n \<Rightarrow>
          if n = Folder \<or> \<not> regular p then collectSeedFiles h regular exec fs root rels
          else case os_ReadFile h fs p of
                 Inl e \<Rightarrow> Inl e
               | Inr data \<Rightarrow>
                   (case collectSeedFiles h regular exec fs root rels of
                      Inl e \<Rightarrow> Inl e
                    | Inr out \<Rightarrow> Inr ((rel, data, if exec p then ''x'' else []) # out)))"

section \<open>The world of a hub\<close>

record 's hub_world =
  hb_kv :: 's
  hb_shared :: shared
  hb_disk :: disk

record 's hub_env =
  hv_host :: host
  hv_sha :: "string \<Rightarrow> string"
  hv_rnd :: string
  hv_pid :: int
  hv_clock :: "'s \<Rightarrow> time_ns"
  hv_git :: "(err + string) option"
  hv_gitSHA :: "err + string"
  hv_regular :: "string \<Rightarrow> bool"
  hv_exec :: "string \<Rightarrow> bool"
  hv_free :: "bool \<Rightarrow> err + int"
  hv_readSwarm :: "err option"
  hv_rmSlot :: "string \<Rightarrow> err option"
  hv_NewHub :: "hub_opts \<Rightarrow> files \<Rightarrow> (err + unit) \<times> files"
  hv_Commit :: "(string \<times> string \<times> string) list \<Rightarrow> string \<Rightarrow> err + unit"
  hv_js :: "'s sys"
  hv_dial :: dial_outcome
  hv_between :: "'s hub_world \<Rightarrow> 's hub_world"
  hv_serving :: "'s hub_world \<Rightarrow> 's hub_world"
  hv_drained :: bool
  hv_executable :: "err option"
  hv_openLog :: "err option"
  hv_spawn :: "err option"
  hv_childPid :: int
  hv_child :: "'s hub_world \<Rightarrow> 's hub_world"
  hv_fossilUp :: bool
  hv_natsUp :: bool
  hv_polls :: "(files \<Rightarrow> files) list"
  hv_release :: "err option"

definition on_files :: "(files \<Rightarrow> 'a \<times> files) \<Rightarrow> 's hub_world \<Rightarrow> 'a \<times> 's hub_world" where
  "on_files f w =
     (case f (sh_files (hb_shared w)) of (r, fs) \<Rightarrow> (r, w\<lparr>hb_shared := (hb_shared w)\<lparr>sh_files := fs\<rparr>\<rparr>))"

definition upd_files :: "(files \<Rightarrow> files) \<Rightarrow> 's hub_world \<Rightarrow> 's hub_world" where
  "upd_files f w = w\<lparr>hb_shared := (hb_shared w)\<lparr>sh_files := f (sh_files (hb_shared w))\<rparr>\<rparr>"

abbreviation hb_files :: "'s hub_world \<Rightarrow> files" where
  "hb_files w \<equiv> sh_files (hb_shared w)"

section \<open>Recovery at the start\<close>

definition recovery_config :: Config where
  "recovery_config = \<lparr>cfg_BucketName = DefaultBucketName, cfg_HistoryDepth = 8, cfg_MaxValueSize = 64 * 1024, cfg_ChanBuffer = 0,
     cfg_EnableEventLog = True, cfg_RecoverOnOpen = True\<rparr>"

text \<open>The result is what the log of the hub is told; the start goes on whatever it is.\<close>

definition runTaskRecovery :: "'s sys \<Rightarrow> dial_outcome \<Rightarrow> 's \<Rightarrow> err option \<times> 's" where
  "runTaskRecovery js d s =
     (case do_nats d of
        Some x \<Rightarrow> (Some (EKV x), s)
      | None \<Rightarrow> (case tasks_Open js (do_bucket d) (do_stream d) recovery_config s of (Inl e, s1) \<Rightarrow> (Some e, s1) | (Inr _, s1) \<Rightarrow> (None, s1)))"

section \<open>A hub in the foreground\<close>

definition seedHubRepo :: "'s hub_env \<Rightarrow> paths \<Rightarrow> files \<Rightarrow> err + unit" where
  "seedHubRepo env p fs =
     (case gitTrackedFiles (hv_git env) of
        Inl e \<Rightarrow> Inl e
      | Inr rels \<Rightarrow>
          if rels = [] then Inl (EMsg ''no git-tracked files to seed from'')
          else (case hv_gitSHA env of
                  Inl e \<Rightarrow> Inl e
                | Inr sha \<Rightarrow>
                    (case collectSeedFiles (hv_host env) (hv_regular env) (hv_exec env) fs (pa_root p) rels of
                       Inl e \<Rightarrow> Inl e
                     | Inr out \<Rightarrow> hv_Commit env out (''session base: '' @ TrimSpace sha))))"

definition openAndSeedHub :: "'s hub_env \<Rightarrow> paths \<Rightarrow> hub_opts \<Rightarrow> bool \<Rightarrow> files \<Rightarrow> (err + unit) \<times> files" where
  "openAndSeedHub env p oc freshSeed fs =
     (case hv_NewHub env oc fs of
        (Inl e, fs1) \<Rightarrow> (Inl e, removeRepoAndSidecars (hv_host env) p fs1)
      | (Inr _, fs1) \<Rightarrow>
          if \<not> freshSeed then (Inr (), fs1)
          else (case seedHubRepo env p fs1 of
                  Inl e \<Rightarrow> (Inl e, removeRepoAndSidecars (hv_host env) p fs1)
                | Inr _ \<Rightarrow> (Inr (), fs1)))"

definition hub_entry :: "'s hub_env \<Rightarrow> paths \<Rightarrow> hub_opts \<Rightarrow> time_ns \<Rightarrow> Entry" where
  "hub_entry env p oc now =
     \<lparr>en_Cwd = pa_root p, en_Name = path_Base (pa_root p), en_HubURL = ''http://127.0.0.1:'' @ signed_itoa (ho_repoPort oc),
      en_NATSURL = ''nats://127.0.0.1:'' @ signed_itoa (ho_coordPort oc), en_HubPID = hv_pid env, en_StartedAt = now\<rparr>"

text \<open>
  The hub from its bring-up to its end. Between the two it serves: \<open>hv_serving\<close> is what everyone does until the context is
  cancelled, and \<open>hv_drained\<close> whether the servers stop in time. The notices in the log of the hub are left out.
\<close>

definition runForeground :: "'s hub_env \<Rightarrow> paths \<Rightarrow> hub_opts \<Rightarrow> 's hub_world \<Rightarrow> (err + unit) \<times> 's hub_world" where
  "runForeground env p oc w =
     (let h = hv_host env;
          w1 = (if \<not> pidIsLive h (hb_files w) (pa_hubPid p) then upd_files (removeRepoAndSidecars h p) w else w)
      in case on_files (os_MkdirAll h (pa_coordStore p)) w1 of
           (Inl e, w2) \<Rightarrow> (Inl e, w2)
         | (Inr _, w2) \<Rightarrow>
             (case on_files (hub_writePid h (pa_hubPid p) (hv_pid env)) w2 of
                (Inl e, w3) \<Rightarrow> (Inl e, w3)
              | (Inr _, w3) \<Rightarrow>
                  let freshSeed = (os_Stat h (hb_files w3) (pa_hubRepo p) = Inl (EOS NotExist)) in
                  (case on_files (openAndSeedHub env p oc freshSeed) w3 of
                     (Inl e, w4) \<Rightarrow> (Inl e, upd_files (\<lambda>f. snd (os_Remove h (pa_hubPid p) f)) w4)
                   | (Inr _, w4) \<Rightarrow>
                       let w5 = w4\<lparr>hb_kv := snd (runTaskRecovery (hv_js env) (hv_dial env) (hb_kv w4))\<rparr>;
                           e = hub_entry env p oc (hv_clock env (hb_kv w5));
                           w6 = snd (on_files (registry_Write h (hv_sha env) (hv_rnd env) e) w5);
                           w7 = hv_serving env w6;
                           w8 = upd_files (\<lambda>f. snd (os_Remove h (pa_hubPid p) f)) w7;
                           w9 = snd (on_files (registry_Remove h (hv_sha env) (pa_root p)) w8)
                       in (if hv_drained env then Inr () else Inl (EMsg ''hub: drain timeout exceeded''), w9))))"

section \<open>A hub in the background\<close>

text \<open>
  Each element of \<open>polls\<close> is what other processes do to the files before the next look at the registry; there are as many
  looks as fit into the time.
\<close>

fun waitForRegistry ::
  "host \<Rightarrow> (string \<Rightarrow> string) \<Rightarrow> string \<Rightarrow> int \<Rightarrow> (files \<Rightarrow> files) list \<Rightarrow> files \<Rightarrow> (err + unit) \<times> files" where
  "waitForRegistry h sha root childPID [] fs = (Inl (EMsg ''timeout waiting for registry to record hub pid''), fs)"
| "waitForRegistry h sha root childPID (poll # polls) fs =
     (case registry_Read h sha root (poll fs) of
        (Inl _, fs1) \<Rightarrow> waitForRegistry h sha root childPID polls fs1
      | (Inr e, fs1) \<Rightarrow>
          if en_HubPID e = childPID then (Inr (), fs1) else waitForRegistry h sha root childPID polls fs1)"

definition finalizeDetachedChild :: "'s hub_env \<Rightarrow> paths \<Rightarrow> files \<Rightarrow> ((err + unit) \<times> bool) \<times> files" where
  "finalizeDetachedChild env p fs =
     (case waitForRegistry (hv_host env) (hv_sha env) (pa_root p) (hv_childPid env) (hv_polls env) fs of
        (Inl e, fs1) \<Rightarrow> ((Inl e, True), fs1)
      | (Inr _, fs1) \<Rightarrow> ((case hv_release env of Some e \<Rightarrow> Inl e | None \<Rightarrow> Inr (), False), fs1))"

text \<open>
  The parent of a child: \<open>hv_child\<close> is what the child does until the ports answer. The truth value tells whether the
  parent has killed the child.
\<close>

definition spawnDetachedChild :: "'s hub_env \<Rightarrow> paths \<Rightarrow> hub_opts \<Rightarrow> 's hub_world \<Rightarrow> (err + unit) \<times> bool \<times> 's hub_world" where
  "spawnDetachedChild env p oc w =
     (case (if hv_executable env \<noteq> None then hv_executable env
            else if hv_openLog env \<noteq> None then hv_openLog env else hv_spawn env) of
        Some e \<Rightarrow> (Inl e, False, w)
      | None \<Rightarrow>
          let w1 = hv_child env w in
          if \<not> hv_fossilUp env then (Inl (EMsg ''hub: fossil child not ready''), True, w1)
          else if \<not> hv_natsUp env then (Inl (EMsg ''hub: nats child not ready''), True, w1)
          else if hub_readPid (hv_host env) (hb_files w1) (pa_hubPid p) \<noteq> Some (hv_childPid env)
          then (Inl (EMsg ''hub: fossil port responded but the pid file does not name our child''), True, w1)
          else (case on_files (finalizeDetachedChild env p) w1 of ((r, killed), w2) \<Rightarrow> (r, killed, w2)))"

section \<open>Start\<close>

definition ErrStaleClaudeWorktrees :: err where
  "ErrStaleClaudeWorktrees = EMsg ''bones: refusing to start: legacy .claude/worktrees/agent-*/ dirs present''"

definition checkStaleClaudeWorktrees :: "host \<Rightarrow> files \<Rightarrow> string \<Rightarrow> err + unit" where
  "checkStaleClaudeWorktrees h fs root =
     (if glob h fs (Join (Join root ''.claude'') ''worktrees'') ''agent-'' [] = [] then Inr () else Inl ErrStaleClaudeWorktrees)"

definition gateStaleWorktrees :: "host \<Rightarrow> files \<Rightarrow> string \<Rightarrow> bool \<Rightarrow> err + unit" where
  "gateStaleWorktrees h fs root isDetachChild = (if isDetachChild then Inr () else checkStaleClaudeWorktrees h fs root)"

definition acquireStartLock :: "'s hub_env \<Rightarrow> string \<Rightarrow> bool \<Rightarrow> 's hub_world \<Rightarrow> (err + unit) \<times> 's hub_world" where
  "acquireStartLock env root isDetachChild w =
     (if isDetachChild then (Inr (), w)
      else case AcquireWorkspaceLock (hv_host env) root (hv_rnd env) (hv_pid env) (hb_shared w) of
             (r, s) \<Rightarrow> (r, w\<lparr>hb_shared := s\<rparr>))"

definition release_start :: "'s hub_env \<Rightarrow> string \<Rightarrow> bool \<Rightarrow> 's hub_world \<Rightarrow> 's hub_world" where
  "release_start env root isDetachChild w =
     (if isDetachChild then w else w\<lparr>hb_shared := lock_release (hv_host env) root (hv_pid env) (hb_shared w)\<rparr>)"

datatype start_result = AlreadyRunning | HubEnded | HubDetached

text \<open>What a start does under the lock.\<close>

definition start_locked :: "'s hub_env \<Rightarrow> paths \<Rightarrow> hub_opts \<Rightarrow> bool \<Rightarrow> 's hub_world \<Rightarrow> (err + start_result) \<times> 's hub_world" where
  "start_locked env p oc isDetachChild w =
     (let h = hv_host env;
          seed = (if \<not> isDetachChild \<and> os_Stat h (hb_files w) (pa_hubRepo p) = Inl (EOS NotExist)
                  then checkSeedPrecondition (hv_git env) else Inr ())
      in case seed of
           Inl e \<Rightarrow> (Inl e, w)
         | Inr _ \<Rightarrow>
             (case PruneDead (hv_readSwarm env) (hv_rmSlot env) (ho_alive h) (hb_disk w) of
                (_, d) \<Rightarrow>
                  (case on_files (resolvePorts h (hv_free env) p oc) (w\<lparr>hb_disk := d\<rparr>) of
                     (Inl e, w1) \<Rightarrow> (Inl e, w1)
                   | (Inr oc', w1) \<Rightarrow>
                       if ho_detach oc'
                       then (case spawnDetachedChild env p oc' w1 of
                               (Inl e, _, w2) \<Rightarrow> (Inl e, w2)
                             | (Inr _, _, w2) \<Rightarrow> (Inr HubDetached, w2))
                       else (case runForeground env p oc' w1 of
                               (Inl e, w2) \<Rightarrow> (Inl e, w2)
                             | (Inr _, w2) \<Rightarrow> (Inr HubEnded, w2)))))"

text \<open>Other processes may act between the look at the pid file and the lock.\<close>

definition hub_Start :: "'s hub_env \<Rightarrow> string \<Rightarrow> bool \<Rightarrow> hub_opts \<Rightarrow> 's hub_world \<Rightarrow> (err + start_result) \<times> 's hub_world" where
  "hub_Start env root isDetachChild o0 w =
     (let h = hv_host env; oc = (if isDetachChild then o0\<lparr>ho_detach := False\<rparr> else o0) in
      case gateStaleWorktrees h (hb_files w) root isDetachChild of
        Inl e \<Rightarrow> (Inl e, w)
      | Inr _ \<Rightarrow>
          (case newPaths h (hb_files w) root of
             Inl e \<Rightarrow> (Inl e, w)
           | Inr p \<Rightarrow>
               (case on_files (os_MkdirAll h (pa_orchDir p)) w of
                  (Inl e, w1) \<Rightarrow> (Inl e, w1)
                | (Inr _, w1) \<Rightarrow>
                    let w2 = upd_files (\<lambda>f. snd (os_RemoveAll h (Join (pa_orchDir p) ''pids'') f)) w1 in
                    if pidIsLive h (hb_files w2) (pa_hubPid p) then (Inr AlreadyRunning, w2)
                    else (case acquireStartLock env (pa_root p) isDetachChild (hv_between env w2) of
                            (Inl e, w3) \<Rightarrow> (Inl e, w3)
                          | (Inr _, w3) \<Rightarrow>
                              (case start_locked env p oc isDetachChild w3 of
                                 (r, w4) \<Rightarrow> (r, release_start env (pa_root p) isDetachChild w4))))))"

section \<open>Stop\<close>

definition ErrActiveSlots :: err where
  "ErrActiveSlots = EMsg ''hub: active swarm slots present''"

definition activeSlotNames :: "err option \<Rightarrow> (int \<Rightarrow> bool) \<Rightarrow> disk \<Rightarrow> err + string list" where
  "activeSlotNames rd alive d = (case LiveSlots rd alive d of Inl e \<Rightarrow> Inl e | Inr xs \<Rightarrow> Inr (map fst xs))"

text \<open>The signals \<^verbatim>\<open>terminateProcess\<close> sends, with what it sees of the process between them.\<close>

definition terminateProcess :: "host \<Rightarrow> bool list \<Rightarrow> int \<Rightarrow> signal list" where
  "terminateProcess h probes pid =
     (if \<not> pidIntIsLive h pid then []
      else if \<not> list_all id probes then [SIGTERM]
      else [SIGTERM, SIGKILL])"

definition hub_Stop ::
  "'s hub_env \<Rightarrow> bool list \<Rightarrow> bool \<Rightarrow> string \<Rightarrow> 's hub_world \<Rightarrow> (err + (int \<times> signal list) option) \<times> 's hub_world" where
  "hub_Stop env probes force root w =
     (let h = hv_host env in
      case newPaths h (hb_files w) root of
        Inl e \<Rightarrow> (Inl e, w)
      | Inr p \<Rightarrow>
          let active = (if force then [] else case activeSlotNames (hv_readSwarm env) (ho_alive h) (hb_disk w) of
                                                Inl _ \<Rightarrow> [] | Inr names \<Rightarrow> names)
          in if active \<noteq> [] then (Inl ErrActiveSlots, w)
             else (Inr (case hub_readPid h (hb_files w) (pa_hubPid p) of
                          Some pid \<Rightarrow> if pid \<noteq> hv_pid env then Some (pid, terminateProcess h probes pid) else None
                        | None \<Rightarrow> None),
                   upd_files (\<lambda>f. snd (os_Remove h (pa_hubPid p) f)) w))"

section \<open>The watcher of the leases\<close>

definition startLeaseWatcher :: "'s lease_env \<Rightarrow> Info \<Rightarrow> err + 's TTLWatcher" where
  "startLeaseWatcher env info =
     (case le_connect env of
        Some x \<Rightarrow> Inl (EKV x)
      | None \<Rightarrow>
          (case swarm_Open (le_bucket env) \<lparr>sc_connected = True, sc_BucketName = [], sc_TTL = 0\<rparr> of
             Inl e \<Rightarrow> Inl e
           | Inr ss \<Rightarrow> NewTTLWatcher env \<lparr>wc_Info = info, wc_Sessions = Some ss, wc_TTL = 0, wc_Tick = 0, wc_Now = None,
                         wc_LocalHostOnly = True\<rparr>))"

end
