(* ===== verification/Workspace_Guarantees.thy ===== *)
theory Workspace_Guarantees
  imports Workspace_Lock
begin

text \<open>
  What the workspace promises: the directory a walk finds, the migration that a leftover blocks for good, the listing of the
  registry, and the lock of a workspace under any interleaving of starts, stops and crashes.
\<close>

section \<open>Samples\<close>

definition sample_host :: host where
  "sample_host = \<lparr>ho_BonesDir = [], ho_Home = ''/h'', ho_abs = Inr, ho_alive = (\<lambda>p. p = 7), ho_fault = (\<lambda>_ _. None),
     ho_parse = (\<lambda>x. if x = ''E7'' then Some (encode_Entry (zero_Entry\<lparr>en_Cwd := ''/w'', en_HubPID := 7\<rparr>))
                      else if x = ''E8'' then Some (encode_Entry (zero_Entry\<lparr>en_Cwd := ''/w'', en_HubPID := 8\<rparr>)) else None),
     ho_render = (\<lambda>_. []), ho_linux = True\<rparr>"

lemma sample_host_simps [simp]:
  "ho_BonesDir sample_host = []" "ho_Home sample_host = ''/h''" "ho_abs sample_host x = Inr x" "no_faults sample_host"
  by (simp_all add: sample_host_def no_faults_def)

definition sample_marked :: files where
  "sample_marked = [(''/a/.bones/agent.id'', Doc ''x'')]"

definition sample_stray :: files where
  "sample_stray = [(''/w/.orchestrator'', Folder), (''/w/.orchestrator/notes.txt'', Doc ''x'')]"

definition sample_registry :: files where
  "sample_registry =
     [(''/w'', Folder), (''/h/.bones/workspaces/a.json'', Doc ''E7''), (''/h/.bones/workspaces/b.json'', Doc ''E8''),
      (''/h/.bones/workspaces/c.json'', Doc ''garbage'')]"

section \<open>The directory of a workspace\<close>

text \<open>C28: The walk from a directory upwards always ends: with the nearest directory above it that has a marker, if that is
  less than 64 levels away; else with the error of a missing workspace, or, from 64 levels below the root on, with the
  error of a walk that is too long.\<close>

theorem FindRoot_nearest:
  assumes "ho_BonesDir h = []" and "ho_abs h start = Inr (abs_path cs)" and "list_all good_part cs"
  shows "FindRoot h fs start =
    (let marked = {k. k \<le> length cs \<and> has_marker h fs (abs_path (take k cs))} in
     if \<exists>k \<in> marked. length cs < k + 64 then Inr (abs_path (take (Max marked) cs))
     else if length cs < 64 then Inl (EWorkspace ErrNoWorkspace)
     else Inl (EMsg ''workspace: walkUp exceeded 64 levels''))"
proof -
  have "FindRoot h fs start = walk_loop 64 h fs (abs_path cs)"
    using walkUp_in_tree [OF assms(1,2)] by (simp add: FindRoot_def maxWalkUpDepth_def)
  then show ?thesis
    unfolding Let_def marked_levels_def [symmetric] by (simp only: walk_loop_nearest [OF assms(3)])
qed

theorem FindRoot_nearest_witness: "FindRoot sample_host sample_marked ''/a/b/c'' = Inr ''/a''"
proof -
  have c: "abs_path [''a'', ''b'', ''c''] = ''/a/b/c''" "list_all good_part [''a'', ''b'', ''c'']" by code_simp+
  have "list_all (\<lambda>k. has_marker sample_host sample_marked (abs_path (take k [''a'', ''b'', ''c''])) = (k = 1)) [0, 1, 2, 3]"
    by code_simp
  then have "{k. k \<le> length [''a'', ''b'', ''c''] \<and> has_marker sample_host sample_marked (abs_path (take k [''a'', ''b'', ''c'']))} = {1}"
    by (auto simp: le_Suc_eq numeral_3_eq_3 numeral_2_eq_2)
  then show ?thesis
    using FindRoot_nearest [of sample_host "''/a/b/c''" "[''a'', ''b'', ''c'']" sample_marked] c
    by (simp add: abs_path_def)
qed

text \<open>A file below .orchestrator that the migration does not know makes every later run of Init fail: each run leaves the
  file and the folder where they are and ends in an error, whichever calls the operating system refuses and whichever
  processes are alive at each run.\<close>

theorem stray_file_blocks_init:
  assumes "map_of fs (abs_path (cs @ [legacyOrchDirName])) = Some Folder"
    and "map_of fs (abs_path (cs @ [legacyOrchDirName, x])) \<noteq> None"
    and "list_all good_part (cs @ [legacyOrchDirName, x])" and "x \<notin> set (''scripts'' # map fst layout_moves)"
    and "\<forall>(h, uuid) \<in> set runs. ho_BonesDir h = []"
  shows "list_all (\<lambda>r. \<not> is_ok r) (fst (init_runs runs (abs_path cs) fs)) \<and>
    map_of (snd (init_runs runs (abs_path cs) fs)) (abs_path (cs @ [legacyOrchDirName, x])) \<noteq> None"
proof -
  have "stray cs x fs" using assms(1,2) by (simp add: stray_def)
  then have "list_all (\<lambda>r. \<not> is_ok r) (fst (init_runs runs (abs_path cs) fs)) \<and> stray cs x (snd (init_runs runs (abs_path cs) fs))"
    using assms(5)
  proof (induction runs arbitrary: fs)
    case (Cons r runs)
    obtain o1 fs1 where i: "initLogic (fst r) (snd r) (abs_path cs) fs = (o1, fs1)" by (cases "initLogic (fst r) (snd r) (abs_path cs) fs")
    have "stray cs x fs1 \<and> (\<exists>e. o1 = Inl e)"
      using stray_Init [OF Cons.prems(1) assms(3), of "fst r" "snd r"] assms(4) Cons.prems(2) i by (auto simp: known_names_def)
    with Cons.IH [of fs1] Cons.prems(2) i show ?case by (auto simp: case_prod_beta)
  qed simp
  then show ?thesis by (simp add: stray_def)
qed

theorem stray_file_blocks_init_witness:
  "list_all (\<lambda>r. \<not> is_ok r) (fst (init_runs [(sample_host, ''u1''), (sample_host, ''u2'')] ''/w'' sample_stray))"
proof -
  have p: "abs_path [''w''] = ''/w''" by code_simp
  have "map_of sample_stray (abs_path ([''w''] @ [legacyOrchDirName])) = Some Folder"
    "map_of sample_stray (abs_path ([''w''] @ [legacyOrchDirName, ''notes.txt''])) = Some (Doc ''x'')"
    "list_all good_part ([''w''] @ [legacyOrchDirName, ''notes.txt''])" "''notes.txt'' \<notin> set (''scripts'' # map fst layout_moves)"
    by code_simp+
  then show ?thesis
    using stray_file_blocks_init [of sample_stray "[''w'']" "''notes.txt''" "[(sample_host, ''u1''), (sample_host, ''u2'')]"] p
    by simp
qed

section \<open>The registry\<close>

text \<open>C27: A listing of the registry returns the entries of exactly the readable files whose workspace exists and whose hub, if
  they name one, is alive; it removes exactly the other readable files, leaves every further path as it was, and a second
  listing returns the same and removes nothing.\<close>

theorem List_prunes:
  assumes "no_faults h" and "ho_Home h = abs_path hs" and "list_all good_part hs"
    and "\<And>p e. readEntryAtPath h fs p = Inr e \<Longrightarrow> \<not> under (RegistryDir h) (en_Cwd e)"
  shows "set (fst (registry_List h fs)) =
      {e. \<exists>p. registry_file h fs p \<and> \<not> is_tmp p \<and> readEntryAtPath h fs p = Inr e \<and> \<not> isStaleEntry h fs e} \<and>
    map_of (snd (registry_List h fs)) =
      (\<lambda>q. if registry_file h fs q \<and> \<not> is_tmp q \<and> (\<exists>e. readEntryAtPath h fs q = Inr e \<and> isStaleEntry h fs e) then None else map_of fs q) \<and>
    registry_List h (snd (registry_List h fs)) = registry_List h fs"
proof -
  have n: "good_part ''.bones''" "good_part ''workspaces''" by code_simp+
  have "RegistryDir h = abs_path (hs @ [''.bones'', ''workspaces''])"
    using Join_good [OF assms(3) n(1)] Join_good [of "hs @ [''.bones'']" "''workspaces''"] assms(2,3) n by (simp add: RegistryDir_def)
  then have home: "registry_home h (hs @ [''.bones'', ''workspaces''])" "hs @ [''.bones'', ''workspaces''] \<noteq> []"
    using assms(1,3) n by (simp_all add: registry_home_def)
  have ex: "fst (registry_List h fs) = concat (map (kept_entry h fs) (glob h fs (RegistryDir h) [] ''.json''))"
    "map_of (snd (registry_List h fs)) q = (if registry_file h fs q \<and> stale_file h fs q then None else map_of fs q)"
    "registry_List h (snd (registry_List h fs)) = (fst (registry_List h fs), snd (registry_List h fs))" for q
    by (rule registry_List_exact [OF home], rule assms(4), assumption)+
  have "set (fst (registry_List h fs)) =
      {e. \<exists>p. registry_file h fs p \<and> \<not> is_tmp p \<and> readEntryAtPath h fs p = Inr e \<and> \<not> isStaleEntry h fs e}"
    using ex(1) by (auto simp: registry_file_def set_kept)
  with ex(2,3) show ?thesis by (simp add: fun_eq_iff stale_file_def conj_ac)
qed

theorem List_prunes_witness:
  "registry_List sample_host (snd (registry_List sample_host sample_registry)) = registry_List sample_host sample_registry \<and>
   map_of (snd (registry_List sample_host sample_registry)) ''/h/.bones/workspaces/b.json'' = None"
proof -
  have home: "ho_Home sample_host = abs_path [''h'']" "list_all good_part [''h'']" by code_simp+
  have dir: "RegistryDir sample_host = ''/h/.bones/workspaces''" by code_simp
  have cwd: "en_Cwd e = ''/w''" if "readEntryAtPath sample_host sample_registry p = Inr e" for p e
  proof -
    have "decode_Entry (encode_Entry (zero_Entry\<lparr>en_Cwd := ''/w'', en_HubPID := i\<rparr>)) = Some (zero_Entry\<lparr>en_Cwd := ''/w'', en_HubPID := i\<rparr>)" for i
      by (simp add: decode_Entry_def encode_Entry_def entry_field_def member_def zero_Entry_def)
    then show ?thesis
      using that by (auto simp: readEntryAtPath_def sample_host_def zero_Entry_def split: sum.splits option.splits if_splits)
  qed
  have apart: "\<not> under (RegistryDir sample_host) (en_Cwd e)" if "readEntryAtPath sample_host sample_registry p = Inr e" for p e
    unfolding cwd [OF that] dir by code_simp
  have "map_of (snd (registry_List sample_host sample_registry)) ''/h/.bones/workspaces/b.json'' = None" by code_simp
  with List_prunes [OF _ home apart] show ?thesis by simp
qed

section \<open>The lock\<close>

text \<open>C23: However starts, releases and crashes of any number of processes interleave, and whatever calls to the operating
  system fail, at most one process is between taking the lock of the workspace and dropping it.\<close>

theorem lock_exclusive:
  assumes "lock_reachable h root w0 w" and "sh_owner (lw_shared w0) = None" and "\<forall>p. \<not> critical (lw_phase w0 p)"
    and "critical (lw_phase w p)" and "critical (lw_phase w q)"
  shows "p = q"
proof -
  have "owner_ok w" using owner_ok_reachable [OF assms(1)] assms(2,3) by (simp add: owner_ok_def)
  then show ?thesis using assms(4,5) unfolding owner_ok_def by (metis option.inject)
qed

text \<open>A world with two processes, and the run in which the first of them takes the lock.\<close>

definition two_procs :: "files \<Rightarrow> int option \<Rightarrow> phase \<Rightarrow> phase \<Rightarrow> lock_world" where
  "two_procs fs own a b = \<lparr>lw_shared = \<lparr>sh_files = fs, sh_owner = own\<rparr>,
     lw_phase = (\<lambda>p. if p = 7 then a else if p = 8 then b else Outside)\<rparr>"

lemma two_procs_simps [simp]:
  "lw_phase (two_procs fs own a b) 7 = a" "lw_phase (two_procs fs own a b) 8 = b"
  "sh_files (lw_shared (two_procs fs own a b)) = fs" "sh_owner (lw_shared (two_procs fs own a b)) = own"
  "set_phase 7 c (two_procs fs own a b) = two_procs fs own c b" "set_phase 8 c (two_procs fs own a b) = two_procs fs own a c"
  by (auto simp: two_procs_def set_phase_def)

lemma two_procs_advance:
  "acquire_step (host_of sample_host (two_procs fs own a b)) ''/w'' ''1'' 7 a \<lparr>sh_files = fs, sh_owner = own\<rparr> = (c, \<lparr>sh_files = fs', sh_owner = own'\<rparr>) \<Longrightarrow>
   lock_advance sample_host ''/w'' ''1'' 7 (two_procs fs own a b) = two_procs fs' own' c b"
  "acquire_step (host_of sample_host (two_procs fs own a b)) ''/w'' ''1'' 8 b \<lparr>sh_files = fs, sh_owner = own\<rparr> = (c, \<lparr>sh_files = fs', sh_owner = own'\<rparr>) \<Longrightarrow>
   lock_advance sample_host ''/w'' ''1'' 8 (two_procs fs own a b) = two_procs fs' own' a c"
  by (auto simp: two_procs_def lock_advance_def)

definition lock_folder :: files where
  "lock_folder = [(''/w/.bones'', Folder)]"

definition lock_file :: files where
  "lock_file = [(''/w/.bones'', Folder), (''/w/.bones/hub.lock'', Doc [])]"

definition lock_named :: files where
  "lock_named = [(''/w/.bones'', Folder), (''/w/.bones/hub.lock'', Doc []), (''/w/.bones/hub.lock.pid'', Doc (''7'' @ nl))]"

lemma lock_run:
  "acquire_step (host_of sample_host (two_procs [] None Begin Outside)) ''/w'' ''1'' 7 Begin \<lparr>sh_files = [], sh_owner = None\<rparr> =
     (Probe, \<lparr>sh_files = lock_folder, sh_owner = None\<rparr>)"
  "acquire_step (host_of sample_host (two_procs lock_folder None Probe Outside)) ''/w'' ''1'' 7 Probe \<lparr>sh_files = lock_folder, sh_owner = None\<rparr> =
     (Open, \<lparr>sh_files = lock_folder, sh_owner = None\<rparr>)"
  "acquire_step (host_of sample_host (two_procs lock_folder None Open Outside)) ''/w'' ''1'' 7 Open \<lparr>sh_files = lock_folder, sh_owner = None\<rparr> =
     (TryLock, \<lparr>sh_files = lock_file, sh_owner = None\<rparr>)"
  "acquire_step (host_of sample_host (two_procs lock_file None TryLock Outside)) ''/w'' ''1'' 7 TryLock \<lparr>sh_files = lock_file, sh_owner = None\<rparr> =
     (WritePid, \<lparr>sh_files = lock_file, sh_owner = Some 7\<rparr>)"
  "acquire_step (host_of sample_host (two_procs lock_file (Some 7) WritePid Outside)) ''/w'' ''1'' 7 WritePid \<lparr>sh_files = lock_file, sh_owner = Some 7\<rparr> =
     (Held, \<lparr>sh_files = lock_named, sh_owner = Some 7\<rparr>)"
  "acquire_step (host_of sample_host (two_procs lock_named (Some 7) Held Begin)) ''/w'' ''1'' 8 Begin \<lparr>sh_files = lock_named, sh_owner = Some 7\<rparr> =
     (Probe, \<lparr>sh_files = lock_named, sh_owner = Some 7\<rparr>)"
  "acquire_step (host_of sample_host (two_procs lock_named (Some 7) Held Probe)) ''/w'' ''1'' 8 Probe \<lparr>sh_files = lock_named, sh_owner = Some 7\<rparr> =
     (Failed (ERegistry (ErrLockHeld 7)), \<lparr>sh_files = lock_named, sh_owner = Some 7\<rparr>)"
  by code_simp+

lemma reach_step:
  assumes "lock_reachable sample_host ''/w'' w0 w" and "valid_pid p" and "\<not> phase_settled (lw_phase w p)"
    and "lock_advance sample_host ''/w'' ''1'' p w = w'"
  shows "lock_reachable sample_host ''/w'' w0 w'"
proof -
  have "lock_step sample_host ''/w'' w (lock_advance sample_host ''/w'' ''1'' p w)"
    by (rule lock_step.lock_advance [OF assms(2) _ assms(3)]) simp
  then show ?thesis using assms(1,4) by (auto intro: lock_reachable.step)
qed

lemma sample_pids [simp]: "valid_pid 7" "valid_pid 8"
  by (simp_all add: valid_pid_def)

lemma lock_held_reachable:
  "lock_reachable sample_host ''/w'' (two_procs [] None Outside Outside) (two_procs lock_named (Some 7) Held Outside)"
proof -
  have "lock_reachable sample_host ''/w'' (two_procs [] None Outside Outside) (two_procs [] None Begin Outside)"
    using lock_reachable.step [OF lock_reachable.start lock_step.call [OF sample_pids(1)], of "two_procs [] None Outside Outside"] by simp
  note 1 = reach_step [OF this sample_pids(1) _ two_procs_advance(1) [OF lock_run(1)], simplified]
  note 2 = reach_step [OF 1 sample_pids(1) _ two_procs_advance(1) [OF lock_run(2)], simplified]
  note 3 = reach_step [OF 2 sample_pids(1) _ two_procs_advance(1) [OF lock_run(3)], simplified]
  note 4 = reach_step [OF 3 sample_pids(1) _ two_procs_advance(1) [OF lock_run(4)], simplified]
  show ?thesis by (rule reach_step [OF 4 sample_pids(1) _ two_procs_advance(1) [OF lock_run(5)], simplified])
qed

theorem lock_exclusive_witness: "{q. critical (lw_phase (two_procs lock_named (Some 7) Held Outside) q)} = {7}"
proof -
  have s: "sh_owner (lw_shared (two_procs [] None Outside Outside)) = None" "\<forall>p. \<not> critical (lw_phase (two_procs [] None Outside Outside) p)"
    by (simp_all add: two_procs_def)
  show ?thesis using lock_exclusive [OF lock_held_reachable s, of 7] by auto
qed

text \<open>Where calls do not fail and no process number is used twice, the early refusal by the pid file tells the truth: the
  process it names holds the lock at that moment, and it is another one.\<close>

theorem lock_refusal_sound:
  assumes "lock_place h root cs" and "lock_reachable h root w0 w" and "lock_start h root w0"
    and "lw_phase w p = Probe" and "lw_phase (lock_advance h root rnd p w) p = Failed (ERegistry (ErrLockHeld q))"
  shows "sh_owner (lw_shared w) = Some q \<and> critical (lw_phase w q) \<and> q \<noteq> p"
proof -
  have n: "pid_names h root (sh_files (lw_shared w)) = Some q" "lw_phase w q \<noteq> Gone" "q \<noteq> p"
    using assms(4,5) host_of_place(2) [of h w root "sh_files (lw_shared w)"]
    by (auto simp: lock_advance_def acquire_step_def pid_names_def host_of_def pidAlive_def Let_def
        split: option.splits if_splits prod.splits)
  have o: "sh_owner (lw_shared w) = Some q" by (rule named_is_owner [OF assms(1-3) n(1,2)])
  then have "critical (lw_phase w q)" using lock_reachable_ok [OF assms(1-3)] by (auto simp: owner_ok_def)
  with o n(3) show ?thesis by simp
qed

lemma sample_place: "lock_place sample_host ''/w'' [''w'', ''.bones'']"
proof -
  have "bones_dir sample_host ''/w'' = abs_path [''w'', ''.bones'']" "list_all good_part [''w'', ''.bones'']" by code_simp+
  then show ?thesis by (simp add: lock_place_def)
qed

lemma two_procs_start: "lock_start sample_host ''/w'' (two_procs [] None Outside Outside)"
  by (auto simp: lock_start_def two_procs_def pid_names_def readLockHolderPID_def read_pid_def no_faults_simps)

theorem lock_refusal_sound_witness:
  "lw_phase (lock_advance sample_host ''/w'' ''1'' 8 (two_procs lock_named (Some 7) Held Probe)) 8 = Failed (ERegistry (ErrLockHeld 7)) \<and>
   sh_owner (lw_shared (two_procs lock_named (Some 7) Held Probe)) = Some 7"
proof -
  have "lock_reachable sample_host ''/w'' (two_procs [] None Outside Outside) (two_procs lock_named (Some 7) Held Begin)"
    using lock_reachable.step [OF lock_held_reachable lock_step.call [OF sample_pids(2)]] by simp
  note r = reach_step [OF this sample_pids(2) _ two_procs_advance(2) [OF lock_run(6)], simplified]
  have f: "lw_phase (lock_advance sample_host ''/w'' ''1'' 8 (two_procs lock_named (Some 7) Held Probe)) 8 = Failed (ERegistry (ErrLockHeld 7))"
    by (simp add: two_procs_advance(2) [OF lock_run(7)])
  show ?thesis using lock_refusal_sound [OF sample_place r two_procs_start _ f] f by simp
qed

text \<open>A lock that no process holds can be taken: a live process that runs alone from any reachable state, also one where a
  holder has crashed and left its number in the pid file, gets the lock and is named by the pid file.\<close>

theorem lock_recovers:
  assumes "lock_place h root cs" and "lock_reachable h root w0 w" and "lock_start h root w0"
    and "sh_owner (lw_shared w) = None" and "valid_pid p" and "CHR ''/'' \<notin> set rnd"
    and "plain_files h root rnd (sh_files (lw_shared w))"
  shows "\<exists>fs. AcquireWorkspaceLock (host_of h w) root rnd p (lw_shared w) = (Inr (), \<lparr>sh_files = fs, sh_owner = Some p\<rparr>) \<and>
    pid_names h root fs = Some p"
proof -
  have l: "lock_place (host_of h w) root cs" using assms(1) by simp
  have pl: "plain_files (host_of h w) root rnd (sh_files (lw_shared w))"
    using assms(7) by (simp add: plain_files_def host_of_def bones_dir_def LockPath_def LockPidPath_def)
  have dead: "\<not> pidAlive (ho_alive (host_of h w)) q"
    if "pid_names (host_of h w) root (sh_files (lw_shared w)) = Some q" for q
    using named_is_owner [OF assms(1-3), of q] that assms(4) unfolding host_of_place(2) by (auto simp: pidAlive_def host_of_def)
  show ?thesis
    by (rule acquire_free [OF l assms(5,6) pl assms(4)]) (use dead in auto)
qed

theorem lock_recovers_witness:
  "lw_phase (lock_crash 7 (two_procs lock_named (Some 7) Held Outside)) 7 = Gone \<and> pid_names sample_host ''/w'' lock_named = Some 7 \<and>
   (\<exists>fs. AcquireWorkspaceLock (host_of sample_host (two_procs lock_named None Gone Outside)) ''/w'' ''1'' 8
      \<lparr>sh_files = lock_named, sh_owner = None\<rparr> = (Inr (), \<lparr>sh_files = fs, sh_owner = Some 8\<rparr>))"
proof -
  have c: "lock_crash 7 (two_procs lock_named (Some 7) Held Outside) = two_procs lock_named None Gone Outside"
    by (auto simp: lock_crash_def two_procs_def set_phase_def)
  have r: "lock_reachable sample_host ''/w'' (two_procs [] None Outside Outside) (two_procs lock_named None Gone Outside)"
    using lock_reachable.step [OF lock_held_reachable lock_step.lock_crash [OF sample_pids(1)]] c by simp
  have paths: "bones_dir sample_host ''/w'' = ''/w/.bones''" "LockPath sample_host ''/w'' = ''/w/.bones/hub.lock''"
    "LockPidPath sample_host ''/w'' = ''/w/.bones/hub.lock.pid''"
    "Join ''/w/.bones'' (LockPidFileName @ ''.tmp.'' @ ''1'') = ''/w/.bones/hub.lock.pid.tmp.1''"
    by code_simp+
  have shared: "lw_shared (two_procs lock_named None Gone Outside) = \<lparr>sh_files = lock_named, sh_owner = None\<rparr>"
    by (simp add: two_procs_def)
  have "plain_files sample_host ''/w'' ''1'' lock_named"
    unfolding plain_files_def paths lock_named_def by (auto elim!: underE)
  moreover have "pid_names sample_host ''/w'' lock_named = Some 7" by code_simp
  ultimately show ?thesis
    using lock_recovers [OF sample_place r two_procs_start _ sample_pids(2), of "''1''"] c by (auto simp: shared)
qed

end
