(* ===== verification/Task_Commands.thy ===== *)
theory Task_Commands
  imports Dispatch_Guarantees Workspace_Guarantees Coord_Chat Lease_Guarantees
begin

text \<open>
  The commands of \<^verbatim>\<open>bones tasks\<close> that change tasks: \<^verbatim>\<open>create\<close>, \<^verbatim>\<open>claim\<close>, \<^verbatim>\<open>update\<close>, \<^verbatim>\<open>close\<close>, \<^verbatim>\<open>link\<close>, \<^verbatim>\<open>autoclaim\<close> and the two
  sides of \<^verbatim>\<open>dispatch\<close> (\<^verbatim>\<open>cli/tasks_*.go\<close>). A command starts where the workspace has been joined, with the \<open>Info\<close> of the
  workspace. In place of the text it prints it returns the values that go into the text; a task among them is the record
  as stored, of which the text has the identifier and the claimant.
\<close>

section \<open>Exit codes\<close>

definition toExitCode :: "err option \<Rightarrow> nat" where
  "toExitCode x =
     (if x = None then 0
      else if x = Some (ETasks ErrNotFound) then 6
      else if x = Some (ETasks ErrInvalidTransition) then 7
      else if x = Some (ETasks ErrCASConflict) then 8
      else if x = Some (ETasks ErrValueTooLarge) then 9
      else ExitCode x)"

section \<open>create\<close>

record create_flags =
  cf_Title :: string
  cf_Files :: string
  cf_Parent :: string
  cf_DeferUntil :: string
  cf_Slot :: string
  cf_Context :: "string list"

definition new_task :: "create_flags \<Rightarrow> string \<Rightarrow> time_ns option \<Rightarrow> time_ns \<Rightarrow> Task" where
  "new_task f uuid deferUntil now =
     (let ctxMap = applyContext [] (cf_Context f);
          ctxMap1 = (if cf_Slot f \<noteq> [] then AList.update ''slot'' (cf_Slot f) ctxMap else ctxMap)
      in zero_Task\<lparr>t_ID := uuid, t_Title := cf_Title f, t_Status := StatusOpen, t_Files := splitFiles (cf_Files f),
           t_Parent := cf_Parent f, t_DeferUntil := deferUntil, t_Context := ctxMap1, t_CreatedAt := now, t_UpdatedAt := now,
           t_SchemaVersion := SchemaVersion\<rparr>)"

definition cmd_create ::
  "'s sys \<Rightarrow> dial_outcome \<Rightarrow> (string \<Rightarrow> time_ns option) \<Rightarrow> string \<Rightarrow> create_flags \<Rightarrow> 's \<Rightarrow>
   (err + Task \<times> (string \<times> nat) option) \<times> 's" where
  "cmd_create js d parse uuid f s0 =
     (case validateContextPairs (cf_Context f) of
        Inl e \<Rightarrow> (Inl e, s0)
      | Inr _ \<Rightarrow>
          (case openManager js d s0 of
             (Inl e, s) \<Rightarrow> (Inl e, s)
           | (Inr mgr, s) \<Rightarrow>
               (case parseRFC3339Flag parse (cf_DeferUntil f) of
                  Inl e \<Rightarrow> (Inl e, s)
                | Inr deferUntil \<Rightarrow>
                    let t = new_task f uuid deferUntil (js_Now js s) in
                    (case Manager_Tx mgr (t_ID t) (Tx_Create js mgr (t_ID t) t) s of
                       (Inl e, s1) \<Rightarrow> (Inl e, s1)
                     | (Inr _, s1) \<Rightarrow>
                         if cf_Slot f = [] then (Inr (t, None), s1)
                         else (case tasks_List js mgr s1 of
                                 (Inl _, s2) \<Rightarrow> (Inr (t, None), s2)
                               | (Inr al, s2) \<Rightarrow> (Inr (t, maybeWarnHotSlot (cf_Slot f) (countOpenInSlot al (cf_Slot f))), s2))))))"

section \<open>claim\<close>

text \<open>\<^verbatim>\<open>errClaimConflict\<close> wraps \<^verbatim>\<open>tasks.ErrInvalidTransition\<close>.\<close>

definition cli_claimMutator :: "string \<Rightarrow> mutator" where
  "cli_claimMutator agent now t =
     (if t_Status t = StatusClaimed \<and> t_ClaimedBy t = agent then Inr t
      else if t_Status t = StatusClaimed then Inl (ETasks ErrInvalidTransition)
      else if t_Status t = StatusClosed then Inl (ETasks ErrInvalidTransition)
      else Inr (t\<lparr>t_Status := StatusClaimed, t_ClaimedBy := agent, t_UpdatedAt := now\<rparr>))"

definition cmd_claim :: "'s sys \<Rightarrow> dial_outcome \<Rightarrow> string \<Rightarrow> string \<Rightarrow> 's \<Rightarrow> (err + Task) \<times> 's" where
  "cmd_claim js d agent taskID s0 =
     (case openManager js d s0 of
        (Inl e, s) \<Rightarrow> (Inl e, s)
      | (Inr mgr, s) \<Rightarrow>
          Manager_Tx mgr taskID
            (Tx_Claim js mgr taskID
               \<lparr>ca_AgentID = agent, ca_Slot = [], ca_ClaimEpoch = 0, ca_PrevAgent = [], ca_Mutate = Some (cli_claimMutator agent)\<rparr>) s)"

section \<open>update\<close>

record update_flags =
  uf_Status :: string
  uf_Title :: "string option"
  uf_Files :: "string option"
  uf_Parent :: "string option"
  uf_DeferUntil :: "string option"
  uf_Context :: "string list"
  uf_ClaimedBy :: "string option"

definition filesEqual :: "string list \<Rightarrow> string list \<Rightarrow> bool" where
  "filesEqual a b = (length a = length b \<and> list_all (\<lambda>(x, y). x = y) (zip a b))"

definition contextEqual :: "strmap \<Rightarrow> strmap \<Rightarrow> bool" where
  "contextEqual a b = (length a = length b \<and> list_all (\<lambda>(k, v). map_get b k = v) a)"

definition deferUntilEqual :: "time_ns option \<Rightarrow> time_ns option \<Rightarrow> bool" where
  "deferUntilEqual a b =
     (case (a, b) of (None, None) \<Rightarrow> True | (Some x, Some y) \<Rightarrow> x = y | _ \<Rightarrow> False)"

text \<open>A nil slice or map is marshalled as \<^verbatim>\<open>null\<close>.\<close>

definition json_files :: "string list \<Rightarrow> json" where
  "json_files fs = (if fs = [] then JNull else json_strings fs)"

definition json_context :: "strmap \<Rightarrow> json" where
  "json_context m = (if m = [] then JNull else json_strmap m)"

definition diffTaskFields :: "Task \<Rightarrow> Task \<Rightarrow> FieldChange list" where
  "diffTaskFields before after =
     (if t_Title before \<noteq> t_Title after then [FieldChangeFromAny ''title'' (JStr (t_Title before)) (JStr (t_Title after))] else []) @
     (if t_Status before \<noteq> t_Status after then [FieldChangeFromAny ''status'' (JStr (t_Status before)) (JStr (t_Status after))] else []) @
     (if t_ClaimedBy before \<noteq> t_ClaimedBy after
      then [FieldChangeFromAny ''claimed_by'' (JStr (t_ClaimedBy before)) (JStr (t_ClaimedBy after))] else []) @
     (if t_Parent before \<noteq> t_Parent after then [FieldChangeFromAny ''parent'' (JStr (t_Parent before)) (JStr (t_Parent after))] else []) @
     (if \<not> filesEqual (t_Files before) (t_Files after)
      then [FieldChangeFromAny ''files'' (json_files (t_Files before)) (json_files (t_Files after))] else []) @
     (if \<not> contextEqual (t_Context before) (t_Context after)
      then [FieldChangeFromAny ''context'' (json_context (t_Context before)) (json_context (t_Context after))] else []) @
     (if \<not> deferUntilEqual (t_DeferUntil before) (t_DeferUntil after)
      then [FieldChangeFromAny ''defer_until'' (json_time_ptr (t_DeferUntil before)) (json_time_ptr (t_DeferUntil after))] else [])"

definition set_if :: "'a option \<Rightarrow> ('a \<Rightarrow> Task \<Rightarrow> Task) \<Rightarrow> Task \<Rightarrow> Task" where
  "set_if x f t = (case x of None \<Rightarrow> t | Some v \<Rightarrow> f v t)"

definition set_claimant :: "Status \<Rightarrow> string \<Rightarrow> Task \<Rightarrow> Task" where
  "set_claimant statusUpdate agent t =
     (let t1 = t\<lparr>t_ClaimedBy := agent\<rparr> in
      if statusUpdate \<noteq> [] then t1
      else if agent \<noteq> [] then t1\<lparr>t_Status := StatusClaimed\<rparr>
      else if t_Status t1 = StatusClaimed then t1\<lparr>t_Status := StatusOpen\<rparr>
      else t1)"

definition buildUpdateMutator :: "update_flags \<Rightarrow> Status \<Rightarrow> time_ns option \<Rightarrow> mutator" where
  "buildUpdateMutator f statusUpdate deferUntil now t =
     (let t1 = (if statusUpdate \<noteq> [] then t\<lparr>t_Status := statusUpdate\<rparr> else t);
          t2 = set_if (uf_Title f) (\<lambda>x. t_Title_update (\<lambda>_. x)) t1;
          t3 = set_if (uf_Files f) (\<lambda>x. t_Files_update (\<lambda>_. splitFiles x)) t2;
          t4 = set_if (uf_Parent f) (\<lambda>x. t_Parent_update (\<lambda>_. x)) t3;
          t5 = set_if (uf_DeferUntil f) (\<lambda>_. t_DeferUntil_update (\<lambda>_. deferUntil)) t4;
          t6 = set_if (uf_ClaimedBy f) (set_claimant statusUpdate) t5
      in Inr (t6\<lparr>t_Context := applyContext (t_Context t6) (uf_Context f), t_UpdatedAt := now\<rparr>))"

definition applyAndEmit ::
  "'s sys \<Rightarrow> Manager \<Rightarrow> string \<Rightarrow> update_flags \<Rightarrow> Status \<Rightarrow> time_ns option \<Rightarrow> 's \<Rightarrow> (err + Task \<times> FieldChange list) \<times> 's" where
  "applyAndEmit js mgr taskID f statusUpdate deferUntil s =
     (case tasks_Get js mgr taskID s of
        (Inl e, s1) \<Rightarrow> (Inl e, s1)
      | (Inr (before, _), s1) \<Rightarrow>
          let mutate = buildUpdateMutator f statusUpdate deferUntil in
          (case mutate (js_Now js s1) before of
             Inl e \<Rightarrow> (Inl e, s1)
           | Inr afterPreview \<Rightarrow>
               let changes = diffTaskFields before afterPreview in
               if changes = [] then (Inr (before, []), s1)
               else (case Manager_Tx mgr taskID (Tx_Update js mgr taskID (Some mutate) changes) s1 of
                       (Inl e, s2) \<Rightarrow> (Inl e, s2)
                     | (Inr t, s2) \<Rightarrow> (Inr (t, changes), s2))))"

definition cmd_update ::
  "'s sys \<Rightarrow> dial_outcome \<Rightarrow> (string \<Rightarrow> time_ns option) \<Rightarrow> string \<Rightarrow> update_flags \<Rightarrow> 's \<Rightarrow>
   (err + Task \<times> FieldChange list) \<times> 's" where
  "cmd_update js d parse taskID f s0 =
     (case validateContextPairs (uf_Context f) of
        Inl e \<Rightarrow> (Inl e, s0)
      | Inr _ \<Rightarrow>
          (case (if uf_Status f = [] then Inr [] else parseStatus (uf_Status f)) of
             Inl e \<Rightarrow> (Inl e, s0)
           | Inr statusUpdate \<Rightarrow>
               (case openManager js d s0 of
                  (Inl e, s) \<Rightarrow> (Inl e, s)
                | (Inr mgr, s) \<Rightarrow>
                    (case parseRFC3339Flag parse (case uf_DeferUntil f of None \<Rightarrow> [] | Some x \<Rightarrow> x) of
                       Inl e \<Rightarrow> (Inl e, s)
                     | Inr deferUntil \<Rightarrow> applyAndEmit js mgr taskID f statusUpdate deferUntil s))))"

section \<open>close\<close>

definition legacy_close_mutator :: "string \<Rightarrow> string \<Rightarrow> mutator" where
  "legacy_close_mutator agent reason now t =
     Inr (t\<lparr>t_Status := StatusClosed, t_ClosedAt := Some now,
            t_ClosedBy := (if t_ClaimedBy t \<noteq> [] then t_ClaimedBy t else agent), t_ClosedReason := reason,
            t_UpdatedAt := now, t_ClaimedBy := []\<rparr>)"

definition legacyClose :: "'s sys \<Rightarrow> Manager \<Rightarrow> string \<Rightarrow> string \<Rightarrow> string \<Rightarrow> 's \<Rightarrow> (err + Task) \<times> 's" where
  "legacyClose js mgr agent taskID reason s =
     Manager_Tx mgr taskID (Tx_Close js mgr taskID agent reason (Some (legacy_close_mutator agent reason))) s"

definition slotFromClaim :: "string \<Rightarrow> string" where
  "slotFromClaim claimedBy =
     (if claimedBy = [] \<or> \<not> has_suffix claimedBy ''-leaf'' then [] else TrimSuffix claimedBy ''-leaf'')"

definition openSwarmSessions :: "'s lease_env \<Rightarrow> err + Sessions" where
  "openSwarmSessions env =
     (case le_connect env of
        Some x \<Rightarrow> Inl (EKV x)
      | None \<Rightarrow> swarm_Open (le_bucket env) \<lparr>sc_connected = True, sc_BucketName = [], sc_TTL = 0\<rparr>)"

definition first_bound :: "string \<Rightarrow> Session list \<Rightarrow> string option" where
  "first_bound taskID ss = map_option sn_Slot (find (\<lambda>x. sn_TaskID x = taskID) ss)"

definition scan_sessions :: "'s lease_env \<Rightarrow> Sessions \<Rightarrow> string \<Rightarrow> 's \<Rightarrow> (err + string option) \<times> 's" where
  "scan_sessions env ss taskID s =
     (case sessions_List (le_js env) ss s of
        (Inl e, s') \<Rightarrow> (Inl e, s')
      | (Inr al, s') \<Rightarrow> (Inr (first_bound taskID al), s'))"

definition lookupSlotForTask :: "'s lease_env \<Rightarrow> string \<Rightarrow> string \<Rightarrow> 's \<Rightarrow> (err + string option) \<times> 's" where
  "lookupSlotForTask env taskID claimedBy s =
     (case openSwarmSessions env of
        Inl e \<Rightarrow> (Inl e, s)
      | Inr ss \<Rightarrow>
          let hint = slotFromClaim claimedBy in
          if hint = [] then scan_sessions env ss taskID s
          else (case sessions_Get (le_js env) ss hint s of
                  (Inr (x, _), s1) \<Rightarrow> if sn_TaskID x = taskID then (Inr (Some hint), s1) else scan_sessions env ss taskID s1
                | (Inl e, s1) \<Rightarrow> if e \<noteq> ESwarm SErrNotFound then (Inl e, s1) else scan_sessions env ss taskID s1))"

definition readTaskAfterClose :: "'s sys \<Rightarrow> dial_outcome \<Rightarrow> string \<Rightarrow> 's \<Rightarrow> (err + Task) \<times> 's" where
  "readTaskAfterClose js d taskID s0 =
     (case openManager js d s0 of
        (Inl e, s) \<Rightarrow> (Inl e, s)
      | (Inr mgr, s) \<Rightarrow>
          (case tasks_Get js mgr taskID s of (Inl e, s1) \<Rightarrow> (Inl e, s1) | (Inr (t, _), s1) \<Rightarrow> (Inr t, s1)))"

text \<open>
  A close on the path of the slot, the lease resumed: a refusal for want of an artifact is an error of its own, which
  \<^verbatim>\<open>errors.Is\<close> no longer recognises.
\<close>

definition close_slot_and_task ::
  "'s lease_env \<Rightarrow> dial_outcome \<Rightarrow> string \<Rightarrow> bool \<Rightarrow> 's leaseBase \<Rightarrow> 's world \<Rightarrow> (err + unit) \<times> 's world" where
  "close_slot_and_task env d taskID asJSON l w =
     (case lease_Close env \<lparr>cp_CloseTaskOnSuccess = True, cp_NoArtifact = False, cp_Reaped = False, cp_KeepWT = False\<rparr> l w of
        (None, _, w1) \<Rightarrow>
          if asJSON
          then (case on_kv (readTaskAfterClose (le_js env) d taskID) w1 of (Inl e, w2) \<Rightarrow> (Inl e, w2) | (Inr _, w2) \<Rightarrow> (Inr (), w2))
          else (Inr (), w1)
      | (Some e, _, w1) \<Rightarrow>
          (Inl (if e = ESwarm ErrCloseRequiresArtifact then EMsg ''tasks close: refusing: no commit since join'' else e), w1))"

record close_flags =
  cl_Reason :: string
  cl_KeepSlot :: bool
  cl_JSON :: bool

text \<open>
  \<^verbatim>\<open>runClose\<close> and \<^verbatim>\<open>autoReleaseAndClose\<close> call each other as long as the session is seen and gone a moment later: \<open>None\<close> is a
  run that has not ended after as many rounds.
\<close>

fun runClose ::
  "nat \<Rightarrow> 's lease_env \<Rightarrow> dial_outcome \<Rightarrow> Info \<Rightarrow> 's AcquireOpts \<Rightarrow> string \<Rightarrow> close_flags \<Rightarrow> 's world \<Rightarrow> (err + unit) option \<times> 's world" where
  "runClose 0 env d info opts taskID f w = (None, w)"
| "runClose (Suc n) env d info opts taskID f w =
     (case on_kv (openManager (le_js env) d) w of
        (Inl e, w1) \<Rightarrow> (Some (Inl e), w1)
      | (Inr mgr, w1) \<Rightarrow>
          (case on_kv (tasks_Get (le_js env) mgr taskID) w1 of
             (Inl e, w2) \<Rightarrow> (Some (Inl e), w2)
           | (Inr (cur, _), w2) \<Rightarrow>
               (case (if cl_KeepSlot f then (Inr None, w2) else on_kv (lookupSlotForTask env taskID (t_ClaimedBy cur)) w2) of
                  (Inl e, w3) \<Rightarrow> (Some (Inl e), w3)
                | (Inr (Some slot), w3) \<Rightarrow>
                    (case Resume env info slot opts w3 of
                       (Inl e, w4) \<Rightarrow>
                         if e = ESwarm ErrSessionNotFound then runClose n env d info opts taskID f w4 else (Some (Inl e), w4)
                     | (Inr l, w4) \<Rightarrow> map_prod Some id (close_slot_and_task env d taskID (cl_JSON f) l w4))
                | (Inr None, w3) \<Rightarrow>
                    (case on_kv (legacyClose (le_js env) mgr (in_AgentID info) taskID (cl_Reason f)) w3 of
                       (Inl e, w4) \<Rightarrow> (Some (Inl e), w4)
                     | (Inr _, w4) \<Rightarrow> (Some (Inr ()), w4)))))"

section \<open>link\<close>

definition newCoordConfig :: "Info \<Rightarrow> CoordConfig" where
  "newCoordConfig info = \<lparr>cc_AgentID = in_AgentID info, cc_NATSURL = in_NATSURL info, cc_CheckoutRoot = in_WorkspaceDir info,
     cc_ProjectPrefix = [], cc_Tuning = zero_Tuning\<rparr>"

definition parse_edge_type :: "string \<Rightarrow> err + string" where
  "parse_edge_type ty =
     (if ty = [] then Inl (EMsg ''--type is required'')
      else if ty = ''blocks'' then Inr EdgeBlocks
      else if ty = ''supersedes'' then Inr EdgeSupersedes
      else if ty = ''duplicates'' then Inr EdgeDuplicates
      else if ty = ''discovered-from'' then Inr EdgeDiscoveredFrom
      else Inl (EMsg ''invalid edge type''))"

definition cmd_link :: "'s sys \<Rightarrow> dial \<Rightarrow> Info \<Rightarrow> string \<Rightarrow> string \<Rightarrow> string \<Rightarrow> 's \<Rightarrow> (err + unit) \<times> 's" where
  "cmd_link js d info from to ty s =
     (case parse_edge_type ty of
        Inl e \<Rightarrow> (Inl e, s)
      | Inr edgeType \<Rightarrow>
          (case coord_Open js d (newCoordConfig info) s of
             (Inl e, s1) \<Rightarrow> (Inl e, s1)
           | (Inr c, s1) \<Rightarrow>
               (case coord_Link js from to edgeType c s1 of
                  (r, s2) \<Rightarrow> (r, snd (coord_Close js c s2)))))"

section \<open>autoclaim\<close>

datatype autoclaimAction =
  autoclaimDisabled | autoclaimBusy | autoclaimAlreadyClaimed | autoclaimNoReady | autoclaimClaimed | autoclaimRaceLost

record autoclaimResult =
  ac_Action :: autoclaimAction
  ac_TaskID :: string
  ac_Release :: "ReleaseClosure option"

record autoclaimOpts =
  ao_Enabled :: bool
  ao_Idle :: bool
  ao_ClaimTTL :: duration
  ao_AgentID :: string

definition ac_none :: "autoclaimAction \<Rightarrow> autoclaimResult" where
  "ac_none a = \<lparr>ac_Action = a, ac_TaskID = [], ac_Release = None\<rparr>"

definition postAutoclaimNotice :: "'s sys \<Rightarrow> 's chat_env \<Rightarrow> string \<Rightarrow> string \<Rightarrow> Coord \<Rightarrow> 's \<Rightarrow> (err + unit) \<times> 's" where
  "postAutoclaimNotice js cv taskID agentID c s = Post js cv taskID (''claimed by '' @ agentID) c s"

text \<open>\<open>None\<close>: the scan of the chat does not end.\<close>

definition runAutoclaimTick ::
  "'s sys \<Rightarrow> 's chat_env \<Rightarrow> autoclaimOpts \<Rightarrow> Coord \<Rightarrow> 's \<Rightarrow> (err + autoclaimResult) option \<times> Coord \<times> 's" where
  "runAutoclaimTick js cv opts c s =
     (if \<not> ao_Enabled opts then (Some (Inr (ac_none autoclaimDisabled)), c, s)
      else if \<not> ao_Idle opts then (Some (Inr (ac_none autoclaimBusy)), c, s)
      else case Prime js cv c s of
             (None, s1) \<Rightarrow> (None, c, s1)
           | (Some (Inl e), s1) \<Rightarrow> (Some (Inl e), c, s1)
           | (Some (Inr prime), s1) \<Rightarrow>
               if pr_ClaimedTasks prime \<noteq> [] then (Some (Inr (ac_none autoclaimAlreadyClaimed)), c, s1)
               else (case pr_ReadyTasks prime of
                       [] \<Rightarrow> (Some (Inr (ac_none autoclaimNoReady)), c, s1)
                     | task # _ \<Rightarrow>
                         (case coord_Claim js (ct_id task) (ao_ClaimTTL opts) c s1 of
                            (Inl e, c2, s2) \<Rightarrow>
                              if e = ECoord ErrTaskAlreadyClaimed
                              then (Some (Inr \<lparr>ac_Action = autoclaimRaceLost, ac_TaskID = ct_id task, ac_Release = None\<rparr>), c2, s2)
                              else (Some (Inl e), c2, s2)
                          | (Inr held, c2, s2) \<Rightarrow>
                              let rel = releaseClosure (ct_id task) held in
                              (case postAutoclaimNotice js cv (ct_id task) (ao_AgentID opts) c2 s2 of
                                 (Inl e, s3) \<Rightarrow>
                                   if is_panic e then (Some (Inl e), c2, s3)
                                   else (case call_release js rel c2 s3 of (_, _, c4, s4) \<Rightarrow> (Some (Inl e), c4, s4))
                               | (Inr _, s3) \<Rightarrow>
                                   (Some (Inr \<lparr>ac_Action = autoclaimClaimed, ac_TaskID = ct_id task, ac_Release = Some rel\<rparr>), c2, s3)))))"

definition to_lower :: "char \<Rightarrow> char" where
  "to_lower c = (if 65 \<le> (of_char c :: nat) \<and> (of_char c :: nat) \<le> 90 then char_of ((of_char c :: nat) + 32) else c)"

text \<open>\<^verbatim>\<open>strings.ToLower\<close> on ASCII: no other letter is mapped into the words compared here.\<close>

definition parseAutoClaimEnv :: "string \<Rightarrow> bool" where
  "parseAutoClaimEnv v = (map to_lower (TrimSpace v) \<notin> {''0'', ''false'', ''no'', ''off''})"

definition action_name :: "autoclaimAction \<Rightarrow> string" where
  "action_name a =
     (case a of autoclaimDisabled \<Rightarrow> ''disabled'' | autoclaimBusy \<Rightarrow> ''busy'' | autoclaimAlreadyClaimed \<Rightarrow> ''already-claimed''
      | autoclaimNoReady \<Rightarrow> ''no-ready'' | autoclaimClaimed \<Rightarrow> ''claimed'' | autoclaimRaceLost \<Rightarrow> ''race-lost'')"

definition formatAutoclaimResult :: "autoclaimResult \<Rightarrow> string" where
  "formatAutoclaimResult r =
     (if ac_TaskID r = [] then ''action='' @ action_name (ac_Action r) @ nl
      else ''action='' @ action_name (ac_Action r) @ '' task='' @ ac_TaskID r @ nl)"

text \<open>The command: the handle is closed at its end, the claim is kept.\<close>

definition cmd_autoclaim ::
  "'s sys \<Rightarrow> dial \<Rightarrow> 's chat_env \<Rightarrow> Info \<Rightarrow> string \<Rightarrow> bool option \<Rightarrow> bool \<Rightarrow> duration \<Rightarrow> 's \<Rightarrow> (err + string) option \<times> 's" where
  "cmd_autoclaim js d cv info envVar enabledFlag idle ttl s =
     (let enabled = (case enabledFlag of None \<Rightarrow> parseAutoClaimEnv envVar | Some b \<Rightarrow> b) in
      case coord_Open js d (newCoordConfig info) s of
        (Inl e, s1) \<Rightarrow> (Some (Inl e), s1)
      | (Inr c, s1) \<Rightarrow>
          (case runAutoclaimTick js cv \<lparr>ao_Enabled = enabled, ao_Idle = idle, ao_ClaimTTL = ttl, ao_AgentID = in_AgentID info\<rparr> c s1 of
             (None, _, s2) \<Rightarrow> (None, s2)
           | (Some r, c2, s2) \<Rightarrow>
               (Some (case r of Inl e \<Rightarrow> Inl e | Inr res \<Rightarrow> Inr (formatAutoclaimResult res)), snd (coord_Close js c2 s2))))"

section \<open>dispatch\<close>

text \<open>A claimed task of the agent becomes the specification of a worker.\<close>

definition claimedDispatchSpec ::
  "'s sys \<Rightarrow> 's chat_env \<Rightarrow> Coord \<Rightarrow> Info \<Rightarrow> string \<Rightarrow> 's \<Rightarrow> (err + Spec) option \<times> 's" where
  "claimedDispatchSpec js cv c info taskID s =
     (case Prime js cv c s of
        (None, s1) \<Rightarrow> (None, s1)
      | (Some (Inl e), s1) \<Rightarrow> (Some (Inl e), s1)
      | (Some (Inr prime), s1) \<Rightarrow>
          (case find (\<lambda>t. ct_id t = taskID) (pr_ClaimedTasks prime) of
             Some t \<Rightarrow> (Some (Inr (BuildSpec (in_AgentID info) (in_WorkspaceDir info) (ct_id t) (ct_title t) (ct_files t))), s1)
           | None \<Rightarrow> (Some (Inl (EMsg ''claimed task not found'')), s1)))"

text \<open>
  What the parent's \<^verbatim>\<open>select\<close> receives; \<open>PNothing\<close> is the zero value of a closed channel. \<open>None\<close>: it still waits.
\<close>

datatype parent_event = PCtxDone err | PTimeout | PEvent chat_event | PNothing

fun waitDispatchResult :: "parent_event list \<Rightarrow> (err + ResultMessage) option" where
  "waitDispatchResult [] = None"
| "waitDispatchResult (PCtxDone e # evs) = Some (Inl e)"
| "waitDispatchResult (PTimeout # evs) = Some (Inl (EMsg ''timeout waiting for dispatch result''))"
| "waitDispatchResult (PNothing # evs) = waitDispatchResult evs"
| "waitDispatchResult (PEvent (EvMedia m) # evs) = waitDispatchResult evs"
| "waitDispatchResult (PEvent (EvChat m) # evs) =
     (case ParseResult (cm_body m) of Some res \<Rightarrow> Some (Inr res) | None \<Rightarrow> waitDispatchResult evs)"

datatype dispatch_end = WorkerClosed | ParentClosed | LeftFork string | LeftOpen

definition handleDispatchSuccess ::
  "'s sys \<Rightarrow> 's chat_env \<Rightarrow> Spec \<Rightarrow> ResultMessage \<Rightarrow> bool \<Rightarrow> Coord \<Rightarrow> 's \<Rightarrow> (err + dispatch_end) \<times> 's" where
  "handleDispatchSuccess js cv spec result workerOwnsClaim c s =
     (if workerOwnsClaim then (Inr WorkerClosed, s)
      else case CloseTask js (sp_TaskID spec) (rm_Summary result) c s of
             (Inl e, s1) \<Rightarrow> (Inl e, s1)
           | (Inr _, s1) \<Rightarrow>
               (case Post js cv (sp_Thread spec) (''parent closed: '' @ rm_Summary result) c s1 of
                  (Inl e, s2) \<Rightarrow> (Inl e, s2)
                | (Inr _, s2) \<Rightarrow> (Inr ParentClosed, s2)))"

definition handleDispatchFork :: "'s sys \<Rightarrow> 's chat_env \<Rightarrow> Spec \<Rightarrow> ResultMessage \<Rightarrow> Coord \<Rightarrow> 's \<Rightarrow> (err + dispatch_end) \<times> 's" where
  "handleDispatchFork js cv spec result c s =
     (case Post js cv (sp_Thread spec) (''parent left open: fork '' @ rm_Branch result) c s of
        (Inl e, s1) \<Rightarrow> (Inl e, s1)
      | (Inr _, s1) \<Rightarrow> (Inr (LeftFork (rm_Branch result)), s1))"

definition handleDispatchFailure :: "'s sys \<Rightarrow> 's chat_env \<Rightarrow> Spec \<Rightarrow> ResultMessage \<Rightarrow> Coord \<Rightarrow> 's \<Rightarrow> (err + dispatch_end) \<times> 's" where
  "handleDispatchFailure js cv spec result c s =
     (case Post js cv (sp_Thread spec) (''parent left open: '' @ rm_Summary result) c s of
        (Inl e, s1) \<Rightarrow> (Inl e, s1)
      | (Inr _, s1) \<Rightarrow> (Inr LeftOpen, s1))"

definition handleDispatchResult ::
  "'s sys \<Rightarrow> 's chat_env \<Rightarrow> Spec \<Rightarrow> ResultMessage \<Rightarrow> bool \<Rightarrow> Coord \<Rightarrow> 's \<Rightarrow> (err + dispatch_end) \<times> 's" where
  "handleDispatchResult js cv spec result workerOwnsClaim c s =
     (if rm_Kind result = ResultSuccess then handleDispatchSuccess js cv spec result workerOwnsClaim c s
      else if rm_Kind result = ResultFork then handleDispatchFork js cv spec result c s
      else handleDispatchFailure js cv spec result c s)"

text \<open>The arguments of the worker process.\<close>

definition worker_args :: "string \<Rightarrow> string \<Rightarrow> bool \<Rightarrow> Spec \<Rightarrow> string list" where
  "worker_args result summary handoff spec =
     [''--result='' @ result, ''--summary='' @ summary] @
     (if handoff then [''--claim-from-agent-id='' @ sp_ParentAgentID spec] else [])"

text \<open>
  The parent. The subscription and the start of the process answer with \<open>subErr\<close> and \<open>startErr\<close>; \<open>others\<close> is what the
  worker and everyone else do to the substrate until the result has been received.
\<close>

definition cmd_dispatch_parent ::
  "'s sys \<Rightarrow> dial \<Rightarrow> 's chat_env \<Rightarrow> Info \<Rightarrow> string \<Rightarrow> bool \<Rightarrow> err option \<Rightarrow> err option \<Rightarrow> parent_event list \<Rightarrow> ('s \<Rightarrow> 's) \<Rightarrow> 's \<Rightarrow>
   (err + dispatch_end) option \<times> 's" where
  "cmd_dispatch_parent js d cv info taskID handoff subErr startErr evs others s =
     (case coord_Open js d (newCoordConfig info) s of
        (Inl e, s1) \<Rightarrow> (Some (Inl e), s1)
      | (Inr c, s1) \<Rightarrow>
          let close = (\<lambda>r s'. (Some r, snd (coord_Close js c s'))) in
          (case claimedDispatchSpec js cv c info taskID s1 of
             (None, s2) \<Rightarrow> (None, s2)
           | (Some (Inl e), s2) \<Rightarrow> close (Inl e) s2
           | (Some (Inr spec), s2) \<Rightarrow>
               (case (if subErr \<noteq> None then subErr else startErr) of
                  Some e \<Rightarrow> close (Inl e) s2
                | None \<Rightarrow>
                    (case waitDispatchResult evs of
                       None \<Rightarrow> (None, others s2)
                     | Some (Inl e) \<Rightarrow> close (Inl e) (others s2)
                     | Some (Inr result) \<Rightarrow>
                         (case handleDispatchResult js cv spec result handoff c (others s2) of (r, s3) \<Rightarrow> close r s3)))))"

definition maybeHandoffClaim ::
  "'s sys \<Rightarrow> string \<Rightarrow> string \<Rightarrow> duration \<Rightarrow> Coord \<Rightarrow> 's \<Rightarrow> (err + ReleaseClosure option) \<times> Coord \<times> 's" where
  "maybeHandoffClaim js taskID fromAgentID ttl c s =
     (if fromAgentID = [] then (Inr None, c, s)
      else case HandoffClaim js taskID fromAgentID ttl c s of
             (Inl e, c1, s1) \<Rightarrow> (Inl e, c1, s1)
           | (Inr held, c1, s1) \<Rightarrow> (Inr (Some (releaseClosure taskID held)), c1, s1))"

definition releaseDispatchClaim :: "'s sys \<Rightarrow> ReleaseClosure option \<Rightarrow> Coord \<Rightarrow> 's \<Rightarrow> Coord \<times> 's" where
  "releaseDispatchClaim js rel c s =
     (case rel of None \<Rightarrow> (c, s) | Some r \<Rightarrow> (case call_release js r c s of (_, _, c1, s1) \<Rightarrow> (c1, s1)))"

definition maybeWorkerClose ::
  "'s sys \<Rightarrow> string \<Rightarrow> ResultMessage \<Rightarrow> string \<Rightarrow> Coord \<Rightarrow> 's \<Rightarrow> (err + unit) \<times> 's" where
  "maybeWorkerClose js taskID msg fromAgentID c s =
     (if fromAgentID = [] \<or> rm_Kind msg \<noteq> ResultSuccess then (Inr (), s) else CloseTask js taskID (rm_Summary msg) c s)"

record worker_flags =
  wk_TaskID :: string
  wk_TaskThread :: string
  wk_WorkerAgentID :: string
  wk_ClaimFromAgentID :: string
  wk_HandoffTTL :: duration
  wk_Result :: ResultKind
  wk_Summary :: string
  wk_Branch :: string
  wk_Rev :: string

definition worker_posts ::
  "'s sys \<Rightarrow> 's chat_env \<Rightarrow> worker_flags \<Rightarrow> Coord \<Rightarrow> 's \<Rightarrow> (err + unit) \<times> 's" where
  "worker_posts js cv f c s =
     (case Post js cv (wk_TaskThread f) (''worker started: '' @ wk_WorkerAgentID f) c s of
        (Inl e, s1) \<Rightarrow> (Inl e, s1)
      | (Inr _, s1) \<Rightarrow>
          let msg = \<lparr>rm_Kind = wk_Result f, rm_Summary = wk_Summary f, rm_Branch = wk_Branch f, rm_Rev = wk_Rev f,
                     rm_SubstrateError = [], rm_SubstrateFault = []\<rparr> in
          (case maybeWorkerClose js (wk_TaskID f) msg (wk_ClaimFromAgentID f) c s1 of
             (Inl e, s2) \<Rightarrow> (Inl e, s2)
           | (Inr _, s2) \<Rightarrow> Post js cv (wk_TaskThread f) (FormatResult msg) c s2))"

text \<open>The worker. Its claim is released, and its handle closed, whatever happens after they were taken.\<close>

definition cmd_dispatch_worker ::
  "'s sys \<Rightarrow> dial \<Rightarrow> 's chat_env \<Rightarrow> Info \<Rightarrow> worker_flags \<Rightarrow> 's \<Rightarrow> (err + unit) \<times> 's" where
  "cmd_dispatch_worker js d cv info f s =
     (case projectPrefix (in_AgentID info) of
        Inl e \<Rightarrow> (Inl e, s)
      | Inr pfx \<Rightarrow>
          (case coord_Open js d ((newCoordConfig info)\<lparr>cc_ProjectPrefix := pfx, cc_AgentID := wk_WorkerAgentID f\<rparr>) s of
             (Inl e, s1) \<Rightarrow> (Inl e, s1)
           | (Inr c, s1) \<Rightarrow>
               (case maybeHandoffClaim js (wk_TaskID f) (wk_ClaimFromAgentID f) (wk_HandoffTTL f) c s1 of
                  (Inl e, c2, s2) \<Rightarrow> (Inl e, snd (coord_Close js c2 s2))
                | (Inr rel, c2, s2) \<Rightarrow>
                    (case worker_posts js cv f c2 s2 of
                       (r, s3) \<Rightarrow> (case releaseDispatchClaim js rel c2 s3 of (c4, s4) \<Rightarrow> (r, snd (coord_Close js c4 s4)))))))"

end
