(* ===== verification/Command_Guarantees.thy ===== *)
theory Command_Guarantees
  imports Task_Commands
begin

text \<open>
  What the commands that change tasks promise: the event of an update replays to the record the update wrote, a refused
  update or claim stays on the log and is replayed, a close is attributed to the claimant.
\<close>

section \<open>The event of an update\<close>

lemma applyFieldChanges_append:
  "applyFieldChanges t (xs @ ys) = (case applyFieldChanges t xs of None \<Rightarrow> None | Some t' \<Rightarrow> applyFieldChanges t' ys)"
  by (induction t xs rule: applyFieldChanges.induct) (auto split: option.splits)

lemma into_files [simp]: "into_slice into_string [] olds (json_files xs) = Some xs"
  by (simp add: json_files_def)

lemma filesEqual_iff [simp]: "filesEqual a b \<longleftrightarrow> a = b"
  by (auto simp: filesEqual_def list_all_iff list_eq_iff_zip_eq)

lemma deferUntilEqual_iff [simp]: "deferUntilEqual a b \<longleftrightarrow> a = b"
  by (auto simp: deferUntilEqual_def split: option.splits)

lemma map_of_rev_distinct: "distinct (map fst n) \<Longrightarrow> map_of (rev n) = map_of n"
  by (subst map_of_inject_set) (simp_all add: rev_map [symmetric])

text \<open>A map that has all keys of another: what replaying the change of the context gives.\<close>

lemma context_replay:
  assumes "distinct (map fst old)" and "distinct (map fst new)" and "fst ` set old \<subseteq> fst ` set new"
  shows "contextEqual old new \<Longrightarrow> map_of old = map_of new"
    and "\<exists>m. into_strmap old (json_context new) = Some m \<and> map_of m = map_of new"
proof -
  assume e: "contextEqual old new"
  have "card (fst ` set old) = card (fst ` set new)"
    using e assms(1,2) by (metis contextEqual_def distinct_card length_map set_map)
  then have d: "fst ` set old = fst ` set new" using assms(3) by (simp add: card_subset_eq)
  show "map_of old = map_of new"
  proof
    fix k
    show "map_of old k = map_of new k"
    proof (cases "map_of old k")
      case None
      then show ?thesis using d by (metis map_of_eq_None_iff)
    next
      case (Some v)
      then have "(k, v) \<in> set old" by (rule map_of_SomeD)
      then have "map_get new k = v" using e by (auto simp: contextEqual_def list_all_iff)
      moreover have "k \<in> fst ` set new" using \<open>(k, v) \<in> set old\<close> d by force
      ultimately show ?thesis using Some by (auto simp: map_get_def map_of_eq_None_iff split: option.splits)
    qed
  qed
next
  show "\<exists>m. into_strmap old (json_context new) = Some m \<and> map_of m = map_of new"
  proof (cases "new = []")
    case True
    then show ?thesis by (simp add: json_context_def)
  next
    case False
    obtain m where m: "into_entries old (map (\<lambda>(k, v). (k, JStr v)) new) = Some m" using into_entries_total by blast
    have "map_of m = map_of old ++ map_of new"
      using map_of_into_entries [OF m] assms(2)
      by (simp add: map_upds_def zip_map_fst_snd map_of_rev_distinct)
    also have "\<dots> = map_of new"
    proof
      fix k
      have "map_of new k = None \<Longrightarrow> map_of old k = None" using assms(3) by (auto simp: map_of_eq_None_iff)
      then show "(map_of old ++ map_of new) k = map_of new k" by (cases "map_of new k") (simp_all add: map_add_def)
    qed
    finally show ?thesis using m False by (simp add: json_context_def json_strmap_def)
  qed
qed

definition same_but_context :: "Task \<Rightarrow> Task \<Rightarrow> bool" where
  "same_but_context x y \<longleftrightarrow> x\<lparr>t_Context := t_Context y\<rparr> = y \<and> map_of (t_Context x) = map_of (t_Context y)"

text \<open>The changes an update may make to a record: the seven fields of \<^verbatim>\<open>diffTaskFields\<close>, the keys of the context kept.\<close>

definition edited :: "Task \<Rightarrow> Task \<Rightarrow> bool" where
  "edited t u \<longleftrightarrow>
     u = t\<lparr>t_Title := t_Title u, t_Status := t_Status u, t_ClaimedBy := t_ClaimedBy u, t_Parent := t_Parent u, t_Files := t_Files u,
           t_Context := t_Context u, t_DeferUntil := t_DeferUntil u, t_UpdatedAt := t_UpdatedAt u\<rparr> \<and>
     wf_Task t \<and> wf_Task u \<and> fst ` set (t_Context t) \<subseteq> fst ` set (t_Context u)"

lemma replay_diff:
  assumes "edited t u"
  shows "\<exists>v. applyFieldChanges t (diffTaskFields t u) = Some v \<and> same_but_context v (u\<lparr>t_UpdatedAt := t_UpdatedAt t\<rparr>) \<and> wf_Task v"
proof -
  let ?x = "t\<lparr>t_Title := t_Title u, t_Status := t_Status u, t_ClaimedBy := t_ClaimedBy u, t_Parent := t_Parent u, t_Files := t_Files u\<rparr>"
  note fc = FieldChangeFromAny_def applyFieldChange_def jsonInto_def
  obtain m where m: "applyFieldChanges ?x (if \<not> contextEqual (t_Context t) (t_Context u)
      then [FieldChangeFromAny ''context'' (json_context (t_Context t)) (json_context (t_Context u))] else []) = Some (?x\<lparr>t_Context := m\<rparr>)"
    and mm: "map_of m = map_of (t_Context u)"
  proof (cases "contextEqual (t_Context t) (t_Context u)")
    case True
    then have "map_of (t_Context t) = map_of (t_Context u)"
      using context_replay(1) [of "t_Context t" "t_Context u"] assms by (simp add: edited_def wf_Task_def)
    then show ?thesis using that [of "t_Context t"] True by simp
  next
    case False
    obtain m where "into_strmap (t_Context t) (json_context (t_Context u)) = Some m" "map_of m = map_of (t_Context u)"
      using context_replay(2) [of "t_Context t" "t_Context u"] assms by (auto simp: edited_def wf_Task_def)
    then show ?thesis using that [of m] False by (simp add: fc)
  qed
  let ?v = "?x\<lparr>t_Context := m, t_DeferUntil := t_DeferUntil u\<rparr>"
  have p: "applyFieldChanges t (if t_Title t \<noteq> t_Title u then [FieldChangeFromAny ''title'' (JStr (t_Title t)) (JStr (t_Title u))] else []) =
      Some (t\<lparr>t_Title := t_Title u\<rparr>)"
    "applyFieldChanges (t\<lparr>t_Title := t_Title u\<rparr>)
       (if t_Status t \<noteq> t_Status u then [FieldChangeFromAny ''status'' (JStr (t_Status t)) (JStr (t_Status u))] else []) =
      Some (t\<lparr>t_Title := t_Title u, t_Status := t_Status u\<rparr>)"
    "applyFieldChanges (t\<lparr>t_Title := t_Title u, t_Status := t_Status u\<rparr>)
       (if t_ClaimedBy t \<noteq> t_ClaimedBy u then [FieldChangeFromAny ''claimed_by'' (JStr (t_ClaimedBy t)) (JStr (t_ClaimedBy u))] else []) =
      Some (t\<lparr>t_Title := t_Title u, t_Status := t_Status u, t_ClaimedBy := t_ClaimedBy u\<rparr>)"
    "applyFieldChanges (t\<lparr>t_Title := t_Title u, t_Status := t_Status u, t_ClaimedBy := t_ClaimedBy u\<rparr>)
       (if t_Parent t \<noteq> t_Parent u then [FieldChangeFromAny ''parent'' (JStr (t_Parent t)) (JStr (t_Parent u))] else []) =
      Some (t\<lparr>t_Title := t_Title u, t_Status := t_Status u, t_ClaimedBy := t_ClaimedBy u, t_Parent := t_Parent u\<rparr>)"
    "applyFieldChanges (t\<lparr>t_Title := t_Title u, t_Status := t_Status u, t_ClaimedBy := t_ClaimedBy u, t_Parent := t_Parent u\<rparr>)
       (if \<not> filesEqual (t_Files t) (t_Files u) then [FieldChangeFromAny ''files'' (json_files (t_Files t)) (json_files (t_Files u))] else []) =
      Some ?x"
    "applyFieldChanges (?x\<lparr>t_Context := m\<rparr>)
       (if \<not> deferUntilEqual (t_DeferUntil t) (t_DeferUntil u)
        then [FieldChangeFromAny ''defer_until'' (json_time_ptr (t_DeferUntil t)) (json_time_ptr (t_DeferUntil u))] else []) = Some ?v"
    by (cases t; simp add: fc)+
  have r: "applyFieldChanges t (diffTaskFields t u) = Some ?v"
    unfolding diffTaskFields_def by (simp only: applyFieldChanges_append p m option.case)
  have u: "u = t\<lparr>t_Title := t_Title u, t_Status := t_Status u, t_ClaimedBy := t_ClaimedBy u, t_Parent := t_Parent u, t_Files := t_Files u,
           t_Context := t_Context u, t_DeferUntil := t_DeferUntil u, t_UpdatedAt := t_UpdatedAt u\<rparr>"
    using assms by (simp only: edited_def)
  have "?v\<lparr>t_Context := t_Context u\<rparr> = u\<lparr>t_UpdatedAt := t_UpdatedAt t\<rparr>"
    using u by (cases t, cases u) simp
  then have "same_but_context ?v (u\<lparr>t_UpdatedAt := t_UpdatedAt t\<rparr>)" using mm by (simp add: same_but_context_def)
  moreover have "wf_Task ?v" using applyFieldChanges_wf [OF r] assms by (simp add: edited_def)
  ultimately show ?thesis using r by blast
qed

lemma merge_pairs_keys: "fst ` set m \<subseteq> fst ` set (merge_pairs m ps)" "distinct (map fst m) \<Longrightarrow> distinct (map fst (merge_pairs m ps))"
  by (induction m ps rule: merge_pairs.induct) (auto split: option.splits)

lemma set_if_keep: "(\<And>v t. sel (f v t) = sel t) \<Longrightarrow> sel (set_if x f t) = sel t"
  by (simp add: set_if_def split: option.splits)

lemmas set_if_keeps =
  set_if_keep [where sel = t_ID]
  set_if_keep [where sel = t_Edges]
  set_if_keep [where sel = t_CreatedAt]
  set_if_keep [where sel = t_ClosedAt]
  set_if_keep [where sel = t_ClosedBy]
  set_if_keep [where sel = t_ClosedReason]
  set_if_keep [where sel = t_ClaimEpoch]
  set_if_keep [where sel = t_OriginalSize]
  set_if_keep [where sel = t_CompactLevel]
  set_if_keep [where sel = t_CompactedAt]
  set_if_keep [where sel = t_SchemaVersion]
  set_if_keep [where sel = t_LastEventSeq]
  set_if_keep [where sel = t_Context]

lemma set_claimant_keeps:
  "t_ID (set_claimant st a t) = t_ID t"
  "t_Edges (set_claimant st a t) = t_Edges t"
  "t_CreatedAt (set_claimant st a t) = t_CreatedAt t"
  "t_ClosedAt (set_claimant st a t) = t_ClosedAt t"
  "t_ClosedBy (set_claimant st a t) = t_ClosedBy t"
  "t_ClosedReason (set_claimant st a t) = t_ClosedReason t"
  "t_ClaimEpoch (set_claimant st a t) = t_ClaimEpoch t"
  "t_OriginalSize (set_claimant st a t) = t_OriginalSize t"
  "t_CompactLevel (set_claimant st a t) = t_CompactLevel t"
  "t_CompactedAt (set_claimant st a t) = t_CompactedAt t"
  "t_SchemaVersion (set_claimant st a t) = t_SchemaVersion t"
  "t_LastEventSeq (set_claimant st a t) = t_LastEventSeq t"
  "t_Context (set_claimant st a t) = t_Context t"
  by (simp_all add: set_claimant_def Let_def)

lemma edited_update:
  assumes "wf_Task t" and "buildUpdateMutator f st df now t = Inr u"
  shows "edited t u"
proof -
  have "t_Context u = applyContext (t_Context t) (uf_Context f)"
    using assms(2) by (auto simp: buildUpdateMutator_def Let_def set_if_keeps set_claimant_keeps)
  then have "fst ` set (t_Context t) \<subseteq> fst ` set (t_Context u) \<and> wf_Task u"
    using assms(1) merge_pairs_keys [of "t_Context t" "uf_Context f"] by (simp add: applyContext_def wf_Task_def)
  moreover have "u = t\<lparr>t_Title := t_Title u, t_Status := t_Status u, t_ClaimedBy := t_ClaimedBy u, t_Parent := t_Parent u, t_Files := t_Files u,
           t_Context := t_Context u, t_DeferUntil := t_DeferUntil u, t_UpdatedAt := t_UpdatedAt u\<rparr>"
  proof -
    have "t_ID u = t_ID t \<and> t_Edges u = t_Edges t \<and> t_CreatedAt u = t_CreatedAt t \<and> t_ClosedAt u = t_ClosedAt t \<and>
      t_ClosedBy u = t_ClosedBy t \<and> t_ClosedReason u = t_ClosedReason t \<and> t_ClaimEpoch u = t_ClaimEpoch t \<and>
      t_OriginalSize u = t_OriginalSize t \<and> t_CompactLevel u = t_CompactLevel t \<and> t_CompactedAt u = t_CompactedAt t \<and>
      t_SchemaVersion u = t_SchemaVersion t \<and> t_LastEventSeq u = t_LastEventSeq t"
      using assms(2) by (auto simp: buildUpdateMutator_def Let_def set_if_keeps set_claimant_keeps)
    then show ?thesis by (intro Task.equality) simp_all
  qed
  ultimately show ?thesis using assms(1) by (simp only: edited_def)
qed

text \<open>C8: The event of an update replays to the update: for every record the flags of the command may meet, the changes it
  writes into its event, applied by recovery to that record, give the record its mutator makes, in every field but the
  time of the update.\<close>

theorem update_event_replays:
  assumes "wf_Task t" and "buildUpdateMutator f st df now t = Inr u"
  shows "\<exists>v. updated_replay env \<lparr>upd_Changes = diffTaskFields t u\<rparr> now' t = Inr v \<and>
    v\<lparr>t_Context := t_Context u\<rparr> = u\<lparr>t_UpdatedAt := ev_Timestamp env, t_LastEventSeq := ev_StreamSeq env\<rparr> \<and>
    map_of (t_Context v) = map_of (t_Context u)"
proof -
  obtain v where v: "applyFieldChanges t (diffTaskFields t u) = Some v" "same_but_context v (u\<lparr>t_UpdatedAt := t_UpdatedAt t\<rparr>)"
    using replay_diff [OF edited_update [OF assms]] by blast
  have "v\<lparr>t_Context := t_Context u\<rparr> = u\<lparr>t_UpdatedAt := t_UpdatedAt t\<rparr>" "map_of (t_Context v) = map_of (t_Context u)"
    using v(2) by (simp_all add: same_but_context_def)
  then have "v\<lparr>t_UpdatedAt := ev_Timestamp env, t_LastEventSeq := ev_StreamSeq env, t_Context := t_Context u\<rparr> =
      u\<lparr>t_UpdatedAt := ev_Timestamp env, t_LastEventSeq := ev_StreamSeq env\<rparr>"
    by (cases u, cases v) simp
  with v(1) \<open>map_of (t_Context v) = map_of (t_Context u)\<close> show ?thesis by (simp add: updated_replay_def)
qed

section \<open>Refused commands\<close>

lemma mem_tx_apply_invalid:
  assumes "quiet s" and "mem_view s (m_bucket m) i = Some e" and "e_Operation e = KeyValuePut"
    and "decode (e_Value e) = Some t" and "t_SchemaVersion t \<ge> SchemaVersion"
    and "i \<noteq> []" and "\<not> m_done m" and "m_stream m" and "EventType_Valid et"
    and "w (Suc (length (mem_stream s))) (mem_now s) t = Inr u" and "validateTransition t u = Inl y"
  shows "tx_apply (mem_sys G) m i et p w tx s = (Inl (ETasks y), recordErr tx (ETasks y), mem_published s et i p)"
  unfolding tx_apply_def mem_publish_event_quiet [OF assms(1,8,6,9)]
  using mem_tasks_update_rejected [of "mem_published s et i p" m i e t "w (Suc (length (mem_stream s)))" "ETasks y" G] assms
  by simp

lemma record_published: "record_at (mem_view (mem_published s et i p)) b k = record_at (mem_view s) b k"
  by (simp add: record_at_def)

definition status_flags :: "string \<Rightarrow> update_flags" where
  "status_flags st = \<lparr>uf_Status = st, uf_Title = None, uf_Files = None, uf_Parent = None, uf_DeferUntil = None, uf_Context = [],
     uf_ClaimedBy = None\<rparr>"

lemma tx_of_apply:
  assumes "i \<noteq> []" and "\<not> m_done m" and "\<And>tx. fn tx = tx_apply js m i et p w (markDirty tx)"
  shows "tx_apply js m i et p w (markDirty \<lparr>tx_dirty = False, tx_firstErr = None\<rparr>) s = (Inl x, recordErr (markDirty tx0) x, s') \<Longrightarrow>
      Manager_Tx m i fn s = (Inl x, s')"
    and "tx_apply js m i et p w (markDirty \<lparr>tx_dirty = False, tx_firstErr = None\<rparr>) s =
      (Inr u, markDirty \<lparr>tx_dirty = False, tx_firstErr = None\<rparr>, s') \<Longrightarrow> Manager_Tx m i fn s = (Inr u, s')"
  by (simp_all add: Manager_Tx_def assms markDirty_def)

definition status_change :: "Task \<Rightarrow> Status \<Rightarrow> UpdatedPayload" where
  "status_change t st = \<lparr>upd_Changes = [FieldChangeFromAny ''status'' (JStr (t_Status t)) (JStr st)]\<rparr>"

lemma status_update:
  "buildUpdateMutator (status_flags st) st df now t = Inr (if st = [] then t\<lparr>t_UpdatedAt := now\<rparr> else t\<lparr>t_Status := st, t_UpdatedAt := now\<rparr>)"
  by (simp add: buildUpdateMutator_def status_flags_def set_if_def applyContext_def Let_def)

lemma contextEqual_refl: "distinct (map fst m) \<Longrightarrow> contextEqual m m"
  by (auto simp: contextEqual_def list_all_iff map_get_def)

lemma status_diff:
  assumes "wf_Task t" and "st \<noteq> t_Status t"
  shows "diffTaskFields t (t\<lparr>t_Status := st, t_UpdatedAt := now\<rparr>) = upd_Changes (status_change t st)"
  using assms by (auto simp: diffTaskFields_def status_change_def contextEqual_refl wf_Task_def)

lemma status_replay:
  "updated_replay env (status_change t st) now t = Inr (t\<lparr>t_Status := st, t_UpdatedAt := ev_Timestamp env, t_LastEventSeq := ev_StreamSeq env\<rparr>)"
  by (simp add: updated_replay_def status_change_def FieldChangeFromAny_def applyFieldChange_def jsonInto_def)

text \<open>C10: Reopening or closing a claimed task with \<^verbatim>\<open>tasks update --status\<close>, the claimant not cleared, is refused, but
  not before its event is on the log: the record keeps its claim, and every later recovery stops at the event with the
  same error and replays nothing.\<close>

theorem refused_update_blocks_recovery:
  assumes "settled cli_manager s" and "record_at (mem_view s) DefaultBucketName migrationMarkerKey \<noteq> None"
    and "record_at (mem_view s) DefaultBucketName i = Some t" and "i \<noteq> []" and "i \<noteq> migrationMarkerKey"
    and "t_Status t = StatusClaimed" and "t_ClaimedBy t \<noteq> []" and "st = StatusOpen \<or> st = StatusClosed"
  shows "\<exists>s'. cmd_update (mem_sys G) connected parse i (status_flags st) s = (Inl (ETasks ErrInvariant11), s') \<and>
    record_at (mem_view s') DefaultBucketName i = Some t \<and>
    Recover (mem_sys G) cli_manager s' = ((0, Some (ETasks ErrInvariant11)), s')"
proof -
  let ?p = "PUpdated (status_change t st)"
  let ?s' = "mem_published s EventTypeUpdated i ?p"
  have rec: "record_at (mem_view s) (m_bucket cli_manager) i = Some t" using assms(3) by simp
  obtain e where e: "quiet s" "mem_view s (m_bucket cli_manager) i = Some e" "e_Operation e = KeyValuePut"
    "decode (e_Value e) = Some t" "t_SchemaVersion t \<ge> SchemaVersion" "wf_Task t"
    using assms(1) rec by (rule settled_record)
  obtain rv where g: "tasks_Get (mem_sys G) cli_manager i s = (Inr (t, rv), s)"
    using mem_tasks_Get_record [OF settledD(1,2) [OF assms(1)] rec assms(4)] by fastforce
  have st: "st \<noteq> []" "st \<noteq> t_Status t" "parseStatus st = Inr st" "st \<noteq> StatusClaimed" "validStatus st"
    using assms(6,8) by (auto simp: parseStatus_def StatusOpen_def StatusClosed_def StatusClaimed_def validStatus_def)
  have bad: "validateTransition t u = Inl ErrInvariant11" if "t_Status u = st" "t_ClaimedBy u = t_ClaimedBy t" for u
    using st(4,5) assms(7) that by (simp add: validateTransition_def checkInvariant11_def Let_def)
  let ?w = "stamped (buildUpdateMutator (status_flags st) st None)"
  have "tx_apply (mem_sys G) cli_manager i EventTypeUpdated ?p ?w tx s = (Inl (ETasks ErrInvariant11), recordErr tx (ETasks ErrInvariant11), ?s')" for tx
    by (rule mem_tx_apply_invalid [OF e(1-5) assms(4), where u = "stamp s (t\<lparr>t_Status := st\<rparr>)"])
      (simp_all add: stamped_def status_update st(1) bad)
  then have u: "applyAndEmit (mem_sys G) cli_manager i (status_flags st) st None s = (Inl (ETasks ErrInvariant11), ?s')"
    using status_diff [OF e(6) st(2)] assms(4)
    by (simp add: applyAndEmit_def g status_update st(1) Manager_Tx_def Tx_Update_def Let_def status_change_def)
  have "cmd_update (mem_sys G) connected parse i (status_flags st) s = (Inl (ETasks ErrInvariant11), ?s')"
    using mem_openManager [OF assms(1,2), of G] u st(1,3)
    by (simp add: cmd_update_def status_flags_def parseRFC3339Flag_def)
  moreover have "Recover (mem_sys G) cli_manager ?s' = ((0, Some (ETasks ErrInvariant11)), ?s')"
  proof -
    have w: "wf_payload ?p" by (simp add: wf_payload_def status_change_def FieldChangeFromAny_def)
    have r: "replay_mutator (replay_env s (event_type_of ?p) i ?p) ?p (mem_now s) t =
        Inr (t\<lparr>t_Status := st, t_UpdatedAt := logged (mem_now s), t_LastEventSeq := Suc (length (mem_stream s))\<rparr>)"
      by (simp add: replay_mutator_def status_replay)
    show ?thesis using Recover_rejects [OF assms(1) rec assms(4,5) _ _ _ w r bad, of G] by simp
  qed
  ultimately show ?thesis using assms(3) by (intro exI [of _ ?s']) (simp add: record_published)
qed

text \<open>A task the agent \<^verbatim>\<open>bob\<close> has claimed, after two creations and the migration of an empty bucket.\<close>

definition sample_taken :: Task where
  "sample_taken = sample_open\<lparr>t_Status := StatusClaimed, t_ClaimedBy := ''bob''\<rparr>"

definition taken_mem :: mem where
  "taken_mem = mem_write (mem_published migrated_mem EventTypeCreated ''1'' (PCreated sample_created))
     DefaultBucketName ''1'' KeyValuePut (encode sample_taken)"

lemma sample_taken_simps [simp]:
  "t_ID sample_taken = ''1''" "wf_Task sample_taken" "t_SchemaVersion sample_taken = SchemaVersion" "t_LastEventSeq sample_taken = 1"
  "t_Status sample_taken = StatusClaimed" "t_ClaimedBy sample_taken = ''bob''"
  by (simp_all add: sample_taken_def sample_open_def created_as_def slot_task_def zero_Task_def wf_Task_def)

lemma task_key: "''1'' \<noteq> migrationMarkerKey"
  by (simp add: migrationMarkerKey_def)

lemma taken_settled: "settled cli_manager taken_mem"
  using settled_commit [OF migrated_settled, of "''1''" sample_taken EventTypeCreated "PCreated sample_created"]
  by (simp add: taken_mem_def migrationMarkerKey_def migrated_mem_def mem_write_def mem_empty_def)

lemma taken_records:
  "record_at (mem_view taken_mem) DefaultBucketName ''1'' = Some sample_taken"
  "record_at (mem_view taken_mem) DefaultBucketName migrationMarkerKey = Some (migration_marker 0)"
  by (simp_all add: taken_mem_def record_at_write record_at_write_other migrated_record migrationMarkerKey_def)

theorem refused_update_blocks_recovery_witness:
  "\<exists>s'. cmd_update (mem_sys any_write) connected (\<lambda>_. None) ''1'' (status_flags StatusClosed) taken_mem = (Inl (ETasks ErrInvariant11), s') \<and>
    record_at (mem_view s') DefaultBucketName ''1'' = Some sample_taken \<and>
    Recover (mem_sys any_write) cli_manager s' = ((0, Some (ETasks ErrInvariant11)), s')"
  by (rule refused_update_blocks_recovery [OF taken_settled]) (simp_all add: taken_records task_key)

section \<open>Claims by command\<close>

definition claimed_payload :: "string \<Rightarrow> payload" where
  "claimed_payload agent = PClaimed \<lparr>clp_AgentID = agent, clp_Slot = [], clp_ClaimEpoch = 0, clp_PrevAgent = []\<rparr>"

abbreviation claimed_by :: "mem \<Rightarrow> string \<Rightarrow> Task \<Rightarrow> Task" where
  "claimed_by s agent t \<equiv> stamp s (t\<lparr>t_Status := StatusClaimed, t_ClaimedBy := agent\<rparr>)"

text \<open>C9: Claiming from the command line, by the state of the task: an open task becomes the agent's, its epoch unchanged; a
  second claim of the same agent succeeds and keeps the claim; a task of another agent is refused with the exit code of an
  invalid transition and keeps its claim. But the refused claim is on the log, and the next recovery gives the task to the
  refused agent.\<close>

theorem claim_command:
  assumes "settled cli_manager s" and "record_at (mem_view s) DefaultBucketName migrationMarkerKey \<noteq> None"
    and "record_at (mem_view s) DefaultBucketName i = Some t" and "i \<noteq> []" and "i \<noteq> migrationMarkerKey" and "agent \<noteq> []"
    and "fits G cli_manager (claimed_by s agent t)"
    and "fits G cli_manager (t\<lparr>t_Status := StatusClaimed, t_ClaimedBy := agent, t_UpdatedAt := logged (mem_now s),
      t_LastEventSeq := Suc (length (mem_stream s))\<rparr>)"
  shows "(t_Status t = StatusOpen \<or> t_Status t = StatusClaimed \<and> t_ClaimedBy t = agent \<longrightarrow>
      (\<exists>s'. cmd_claim (mem_sys G) connected agent i s = (Inr (claimed_by s agent t), s') \<and> settled cli_manager s' \<and>
        record_at (mem_view s') DefaultBucketName i = Some (claimed_by s agent t))) \<and>
    (t_Status t = StatusClaimed \<and> t_ClaimedBy t \<noteq> agent \<longrightarrow>
      (\<exists>s' s'' u. cmd_claim (mem_sys G) connected agent i s = (Inl (ETasks ErrInvalidTransition), s') \<and>
        toExitCode (Some (ETasks ErrInvalidTransition)) = 7 \<and> record_at (mem_view s') DefaultBucketName i = Some t \<and>
        Recover (mem_sys G) cli_manager s' = ((1, None), s'') \<and>
        record_at (mem_view s'') DefaultBucketName i = Some u \<and> t_ClaimedBy u = agent \<and> t_Status u = StatusClaimed))"
proof (intro conjI impI)
  let ?s1 = "mem_published s EventTypeClaimed i (claimed_payload agent)"
  let ?s' = "mem_write ?s1 (m_bucket cli_manager) i KeyValuePut (encode (claimed_by s agent t))"
  have rec: "record_at (mem_view s) (m_bucket cli_manager) i = Some t" using assms(3) by simp
  obtain e where e: "quiet s" "mem_view s (m_bucket cli_manager) i = Some e" "e_Operation e = KeyValuePut"
    "decode (e_Value e) = Some t" "t_SchemaVersion t \<ge> SchemaVersion" "wf_Task t" "t_ID t = i"
    using assms(1) rec by (rule settled_record)
  have c: "cmd_claim (mem_sys G) connected agent i s =
      Manager_Tx cli_manager i (\<lambda>tx. tx_apply (mem_sys G) cli_manager i EventTypeClaimed (claimed_payload agent)
        (stamped (cli_claimMutator agent)) (markDirty tx)) s"
    using mem_openManager [OF assms(1,2), of G] assms(6)
    by (simp add: cmd_claim_def Manager_Tx_def Tx_Claim_def claimed_payload_def Let_def)
  {
    assume a: "t_Status t = StatusOpen \<or> t_Status t = StatusClaimed \<and> t_ClaimedBy t = agent"
    have v: "valid_Task (claimed_by s agent t)" "lifecycle t (claimed_by s agent t)"
      using a assms(6) by (auto simp: valid_Task_def validStatus_def lifecycle_simps)
    have w: "stamped (cli_claimMutator agent) (Suc (length (mem_stream s))) (mem_now s) t = Inr (claimed_by s agent t)"
      using a by (cases t) (auto simp: stamped_def cli_claimMutator_def)
    note ok = tx_apply_settled [where et = EventTypeClaimed and p = "claimed_payload agent" and G = G and w = "stamped (cli_claimMutator agent)" and u = "claimed_by s agent t",
        OF assms(1) rec assms(4,5) _ _ _ w v assms(7)]
    have "cmd_claim (mem_sys G) connected agent i s = (Inr (claimed_by s agent t), ?s')"
      unfolding c using ok(1) e(6,7) assms(4) by (simp add: Manager_Tx_def markDirty_def wf_Task_def)
    moreover have "settled cli_manager ?s'" "record_at (mem_view ?s') DefaultBucketName i = Some (claimed_by s agent t)"
      using ok(2,3) e(6,7) by (simp_all add: wf_Task_def)
    ultimately show "\<exists>s'. cmd_claim (mem_sys G) connected agent i s = (Inr (claimed_by s agent t), s') \<and> settled cli_manager s' \<and>
        record_at (mem_view s') DefaultBucketName i = Some (claimed_by s agent t)" by blast
  next
    assume a: "t_Status t = StatusClaimed \<and> t_ClaimedBy t \<noteq> agent"
    have "tx_apply (mem_sys G) cli_manager i EventTypeClaimed (claimed_payload agent) (stamped (cli_claimMutator agent)) tx s =
        (Inl (ETasks ErrInvalidTransition), recordErr tx (ETasks ErrInvalidTransition), ?s1)" for tx
      by (rule mem_tx_apply_rejected [OF e(1-5) assms(4)]) (use a in \<open>simp_all add: stamped_def cli_claimMutator_def\<close>)
    then have r: "cmd_claim (mem_sys G) connected agent i s = (Inl (ETasks ErrInvalidTransition), ?s1)"
      unfolding c using assms(4) by (simp add: Manager_Tx_def)
    let ?u = "t\<lparr>t_Status := StatusClaimed, t_ClaimedBy := agent, t_UpdatedAt := logged (mem_now s), t_LastEventSeq := Suc (length (mem_stream s))\<rparr>"
    have u: "replay_mutator (replay_env s (event_type_of (claimed_payload agent)) i (claimed_payload agent)) (claimed_payload agent) (mem_now s) t = Inr ?u"
      by (cases t) (simp add: replay_mutator_def claimed_payload_def claimed_replay_def)
    have v: "valid_Task ?u" "lifecycle t ?u"
      using a assms(6) by (auto simp: valid_Task_def validStatus_def lifecycle_simps)
    have t: "event_type_of (claimed_payload agent) \<noteq> EventTypeCreated" "wf_payload (claimed_payload agent)"
      "event_type_of (claimed_payload agent) = EventTypeClaimed"
      by (simp_all add: claimed_payload_def wf_payload_def)
    obtain s'' where "Recover (mem_sys G) cli_manager ?s1 = ((1, None), s'')" "record_at (mem_view s'') DefaultBucketName i = Some ?u"
      using Recover_crash [OF assms(1) rec assms(4,5) _ _ t(1,2) u v assms(8)] t(3) by auto
    moreover have "toExitCode (Some (ETasks ErrInvalidTransition)) = 7" by (simp add: toExitCode_def)
    ultimately show "\<exists>s' s'' u. cmd_claim (mem_sys G) connected agent i s = (Inl (ETasks ErrInvalidTransition), s') \<and>
        toExitCode (Some (ETasks ErrInvalidTransition)) = 7 \<and> record_at (mem_view s') DefaultBucketName i = Some t \<and>
        Recover (mem_sys G) cli_manager s' = ((1, None), s'') \<and>
        record_at (mem_view s'') DefaultBucketName i = Some u \<and> t_ClaimedBy u = agent \<and> t_Status u = StatusClaimed"
      using r assms(3) by (intro exI [of _ ?s1] exI [of _ s''] exI [of _ ?u]) (simp add: record_published)
  }
qed

lemmas small_record =
  encodeBounded_ok cli_manager_def cli_config_def created_as_def slot_task_def encode_def member_def member_omit_def
  zero_Task_def json_strings_def json_strmap_def go_int32_id

lemma sample_taken_fits: "a \<in> {''amy'', ''bob'', []} \<Longrightarrow> fits any_write cli_manager
    (sample_taken\<lparr>t_Status := st, t_ClaimedBy := a, t_UpdatedAt := x, t_LastEventSeq := q\<rparr>)"
  by (auto simp: sample_taken_def sample_open_def small_record)

theorem claim_command_witness:
  "\<exists>s' s'' u. cmd_claim (mem_sys any_write) connected ''amy'' ''1'' taken_mem = (Inl (ETasks ErrInvalidTransition), s') \<and>
    Recover (mem_sys any_write) cli_manager s' = ((1, None), s'') \<and>
    record_at (mem_view s'') DefaultBucketName ''1'' = Some u \<and> t_ClaimedBy u = ''amy''"
proof -
  have "fits any_write cli_manager (claimed_by taken_mem ''amy'' sample_taken)"
    using sample_taken_fits [where a = "''amy''" and st = StatusClaimed] by simp
  then show ?thesis
    using claim_command [OF taken_settled, of "''1''" sample_taken "''amy''" any_write] sample_taken_fits [where a = "''amy''" and st = StatusClaimed]
    by (auto simp: taken_records task_key)
qed

section \<open>Closes by command\<close>

definition closed_payload :: "string \<Rightarrow> string \<Rightarrow> payload" where
  "closed_payload agent reason = PClosed \<lparr>clo_AgentID = agent, clo_Reason = reason\<rparr>"

abbreviation legacy_closed :: "mem \<Rightarrow> string \<Rightarrow> string \<Rightarrow> Task \<Rightarrow> Task" where
  "legacy_closed s agent reason t \<equiv>
     t\<lparr>t_Status := StatusClosed, t_ClosedAt := Some (mem_now s), t_ClosedBy := (if t_ClaimedBy t \<noteq> [] then t_ClaimedBy t else agent),
       t_ClosedReason := reason, t_UpdatedAt := mem_now s, t_ClaimedBy := [], t_LastEventSeq := Suc (length (mem_stream s))\<rparr>"

abbreviation replayed_closed :: "mem \<Rightarrow> string \<Rightarrow> string \<Rightarrow> Task \<Rightarrow> Task" where
  "replayed_closed s agent reason t \<equiv>
     t\<lparr>t_Status := StatusClosed, t_ClosedAt := Some (logged (mem_now s)), t_ClosedBy := agent, t_ClosedReason := reason,
       t_UpdatedAt := logged (mem_now s), t_ClaimedBy := [], t_LastEventSeq := Suc (length (mem_stream s))\<rparr>"

text \<open>Closing a task that no session is bound to closes it in the name of its claimant, or of the caller where nobody has
  claimed it, with the reason given. Where the process dies between its event and its write, recovery closes the task too, but
  in the name of the caller, whoever has claimed it.\<close>

theorem close_attribution:
  assumes "settled cli_manager s" and "record_at (mem_view s) DefaultBucketName i = Some t" and "i \<noteq> []" and "i \<noteq> migrationMarkerKey"
    and "t_Status t = StatusOpen \<or> t_Status t = StatusClaimed" and "agent \<noteq> []"
    and "fits G cli_manager (legacy_closed s agent reason t)" and "fits G cli_manager (replayed_closed s agent reason t)"
  shows "(\<exists>s'. legacyClose (mem_sys G) cli_manager agent i reason s = (Inr (legacy_closed s agent reason t), s') \<and>
      settled cli_manager s' \<and> record_at (mem_view s') DefaultBucketName i = Some (legacy_closed s agent reason t)) \<and>
    (\<exists>s'. Recover (mem_sys G) cli_manager (mem_published s EventTypeClosed i (closed_payload agent reason)) = ((1, None), s') \<and>
      settled cli_manager s' \<and> record_at (mem_view s') DefaultBucketName i = Some (replayed_closed s agent reason t))"
proof
  have rec: "record_at (mem_view s) (m_bucket cli_manager) i = Some t" using assms(2) by simp
  obtain e where e: "quiet s" "mem_view s (m_bucket cli_manager) i = Some e" "e_Operation e = KeyValuePut"
    "decode (e_Value e) = Some t" "t_SchemaVersion t \<ge> SchemaVersion" "wf_Task t" "t_ID t = i"
    using assms(1) rec by (rule settled_record)
  let ?u = "legacy_closed s agent reason t" and ?v = "replayed_closed s agent reason t"
  have v: "valid_Task ?u" "lifecycle t ?u" "valid_Task ?v" "lifecycle t ?v"
    using assms(5) by (auto simp: valid_Task_def validStatus_def lifecycle_simps)
  have w: "seq_stamped (legacy_close_mutator agent reason) (Suc (length (mem_stream s))) (mem_now s) t = Inr ?u"
    by (simp add: seq_stamped_def legacy_close_mutator_def)
  note ok = tx_apply_settled [where et = EventTypeClosed and p = "closed_payload agent reason" and G = G
      and w = "seq_stamped (legacy_close_mutator agent reason)" and u = ?u, OF assms(1) rec assms(3,4) _ _ _ w v(1,2) assms(7)]
  let ?s' = "mem_write (mem_published s EventTypeClosed i (closed_payload agent reason)) (m_bucket cli_manager) i KeyValuePut (encode ?u)"
  have "legacyClose (mem_sys G) cli_manager agent i reason s = (Inr ?u, ?s')"
    using ok(1) e(6,7) assms(3) by (simp add: legacyClose_def Manager_Tx_def Tx_Close_def closed_payload_def markDirty_def wf_Task_def)
  moreover have "settled cli_manager ?s'" "record_at (mem_view ?s') DefaultBucketName i = Some ?u"
    using ok(2,3) e(6,7) by (simp_all add: wf_Task_def)
  ultimately show "\<exists>s'. legacyClose (mem_sys G) cli_manager agent i reason s = (Inr ?u, s') \<and>
      settled cli_manager s' \<and> record_at (mem_view s') DefaultBucketName i = Some ?u" by blast
  have u: "replay_mutator (replay_env s (event_type_of (closed_payload agent reason)) i (closed_payload agent reason)) (closed_payload agent reason)
      (mem_now s) t = Inr ?v"
    using assms(5,6) by (cases t) (auto simp: replay_mutator_def closed_payload_def closed_replay_def Let_def)
  have t: "event_type_of (closed_payload agent reason) \<noteq> EventTypeCreated" "wf_payload (closed_payload agent reason)"
    "event_type_of (closed_payload agent reason) = EventTypeClosed"
    by (simp_all add: closed_payload_def wf_payload_def)
  show "\<exists>s'. Recover (mem_sys G) cli_manager (mem_published s EventTypeClosed i (closed_payload agent reason)) = ((1, None), s') \<and>
      settled cli_manager s' \<and> record_at (mem_view s') DefaultBucketName i = Some ?v"
    using Recover_crash [OF assms(1) rec assms(3,4) _ _ t(1,2) u v(3,4) assms(8)] t(3) by auto
qed

theorem close_attribution_witness:
  "(\<exists>s' u. legacyClose (mem_sys any_write) cli_manager ''amy'' ''1'' ''ok'' taken_mem = (Inr u, s') \<and> t_ClosedBy u = ''bob'') \<and>
   (\<exists>s' u. Recover (mem_sys any_write) cli_manager (mem_published taken_mem EventTypeClosed ''1'' (closed_payload ''amy'' ''ok'')) = ((1, None), s') \<and>
     record_at (mem_view s') DefaultBucketName ''1'' = Some u \<and> t_ClosedBy u = ''amy'')"
proof -
  have "fits any_write cli_manager (legacy_closed taken_mem ''amy'' ''ok'' sample_taken)"
    "fits any_write cli_manager (replayed_closed taken_mem ''amy'' ''ok'' sample_taken)"
    by (simp_all add: sample_taken_def sample_open_def small_record)
  then show ?thesis
    using close_attribution [OF taken_settled, of "''1''" sample_taken "''amy''" any_write "''ok''"]
    by (auto simp: taken_records task_key)
qed

theorem update_event_replays_witness:
  "\<exists>v. updated_replay (replay_env taken_mem EventTypeUpdated ''1'' (PUpdated (status_change sample_taken StatusClosed)))
      \<lparr>upd_Changes = diffTaskFields sample_taken (sample_taken\<lparr>t_Status := StatusClosed, t_UpdatedAt := 9\<rparr>)\<rparr> 9 sample_taken = Inr v \<and>
    t_Status v = StatusClosed"
proof -
  have "buildUpdateMutator (status_flags StatusClosed) StatusClosed None 9 sample_taken =
      Inr (sample_taken\<lparr>t_Status := StatusClosed, t_UpdatedAt := 9\<rparr>)"
    by (simp add: status_update StatusClosed_def)
  let ?env = "replay_env taken_mem EventTypeUpdated ''1'' (PUpdated (status_change sample_taken StatusClosed))"
  from update_event_replays [OF sample_taken_simps(2) \<open>buildUpdateMutator _ _ _ _ _ = _\<close>, of ?env 9]
  obtain v where "updated_replay (replay_env taken_mem EventTypeUpdated ''1'' (PUpdated (status_change sample_taken StatusClosed)))
      \<lparr>upd_Changes = diffTaskFields sample_taken (sample_taken\<lparr>t_Status := StatusClosed, t_UpdatedAt := 9\<rparr>)\<rparr> 9 sample_taken = Inr v"
    and v: "v\<lparr>t_Context := t_Context (sample_taken\<lparr>t_Status := StatusClosed, t_UpdatedAt := 9\<rparr>)\<rparr> =
      (sample_taken\<lparr>t_Status := StatusClosed, t_UpdatedAt := 9\<rparr>)\<lparr>t_UpdatedAt := ev_Timestamp ?env, t_LastEventSeq := ev_StreamSeq ?env\<rparr>"
    by blast
  moreover have "t_Status v = StatusClosed" using arg_cong [OF v, of t_Status] by simp
  ultimately show ?thesis by blast
qed

end
