(* ===== verification/Hub_Guarantees.thy ===== *)
theory Hub_Guarantees
  imports Hub Command_Guarantees
begin

text \<open>
  What the hub process promises: ports that outlive a stop, the conditions of a stop, what a start in the foreground does to
  another hub that came up in between, the check before seeding, and that the hub can be found while it serves.
\<close>

section \<open>Places\<close>

lemma hub_names [simp]:
  "good_part ''hub.fossil''" "good_part ''hub.pid''" "good_part ''hub-fossil-url''" "good_part ''hub-nats-url''" "good_part ''coord''"
  "good_part ''pids''"
  by code_simp+

lemma newPaths_same: "newPaths h fs root = Inr p \<Longrightarrow> newPaths h fs' root = Inr p' \<Longrightarrow> p' = p"
  by (auto simp: newPaths_def Let_def split: sum.splits node.splits)

lemma hub_paths:
  assumes "newPaths h fs root = Inr p" and "lock_place h (pa_root p) cs"
  shows "list_all good_part cs" and "no_faults h" and "pa_orchDir p = abs_path cs" and "pa_hubRepo p = abs_path (cs @ [''hub.fossil''])"
    and "pa_hubPid p = abs_path (cs @ [''hub.pid''])" and "pa_fossilURL p = abs_path (cs @ [''hub-fossil-url''])"
    and "pa_natsURL p = abs_path (cs @ [''hub-nats-url''])" and "pa_coordStore p = abs_path (cs @ [''coord''])"
proof -
  have l: "no_faults h" "bones_dir h (pa_root p) = abs_path cs" "list_all good_part cs" using assms(2) by (auto simp: lock_place_def)
  then show "no_faults h" "list_all good_part cs" by simp_all
  have p: "pa_orchDir p = bones_dir h (pa_root p)" "pa_hubRepo p = Join (bones_dir h (pa_root p)) ''hub.fossil''"
    "pa_hubPid p = Join (bones_dir h (pa_root p)) ''hub.pid''" "pa_fossilURL p = Join (bones_dir h (pa_root p)) ''hub-fossil-url''"
    "pa_natsURL p = Join (bones_dir h (pa_root p)) ''hub-nats-url''" "pa_coordStore p = Join (bones_dir h (pa_root p)) ''coord''"
    using assms(1) by (auto simp: newPaths_def Let_def split: sum.splits node.splits)
  show "pa_orchDir p = abs_path cs" "pa_hubRepo p = abs_path (cs @ [''hub.fossil''])" "pa_hubPid p = abs_path (cs @ [''hub.pid''])"
    "pa_fossilURL p = abs_path (cs @ [''hub-fossil-url''])" "pa_natsURL p = abs_path (cs @ [''hub-nats-url''])"
    "pa_coordStore p = abs_path (cs @ [''coord''])"
    unfolding p l(2) by (simp_all add: Join_good l(3))
qed

lemma hub_paths_distinct:
  assumes "newPaths h fs root = Inr p" and "lock_place h (pa_root p) cs"
  shows "distinct [pa_orchDir p, pa_hubRepo p, pa_hubPid p, pa_fossilURL p, pa_natsURL p, pa_coordStore p]"
proof -
  note hp = hub_paths [OF assms]
  have e: "abs_path cs = abs_path (cs @ [])" by simp
  have q: "\<And>x y. list_all good_part x \<Longrightarrow> list_all good_part y \<Longrightarrow> abs_path (cs @ x) = abs_path (cs @ y) \<longleftrightarrow> x = y"
    by (rule paths_eq) (simp_all add: hp(1))
  have q0: "abs_path cs = abs_path (cs @ [y]) \<longleftrightarrow> False" if "good_part y" for y
    using q [of "[]" "[y]"] that by simp
  show ?thesis unfolding hp(3-8) by (simp add: q q0)
qed

section \<open>Samples\<close>

definition up_files :: files where
  "up_files = [(''/w'', Folder), (''/w/.bones'', Folder), (''/w/.bones/hub.pid'', Doc (''7'' @ nl)), (''/w/.bones/hub.fossil'', Doc ''repo'')]"

definition hub_sample :: "mem hub_env" where
  "hub_sample = \<lparr>hv_host = sample_host, hv_sha = (\<lambda>_. ''0''), hv_rnd = ''1'', hv_pid = 8, hv_clock = mem_now, hv_git = Some (Inr []),
     hv_gitSHA = Inr ''abc'', hv_regular = (\<lambda>_. True), hv_exec = (\<lambda>_. False), hv_free = (\<lambda>b. Inr (if b then 81 else 80)),
     hv_readSwarm = None, hv_rmSlot = (\<lambda>_. None), hv_NewHub = (\<lambda>_ f. (Inl (EMsg ''address already in use''), f)),
     hv_Commit = (\<lambda>_ _. Inr ()), hv_js = mem_sys any_write, hv_dial = connected, hv_between = upd_files (\<lambda>_. up_files),
     hv_serving = id, hv_drained = True, hv_executable = None, hv_openLog = None, hv_spawn = None, hv_childPid = 9, hv_child = id,
     hv_fossilUp = True, hv_natsUp = True, hv_polls = [], hv_release = None\<rparr>"

definition hub_sample_world :: "files \<Rightarrow> mem hub_world" where
  "hub_sample_world fs = \<lparr>hb_kv = mem_empty 0 [], hb_shared = \<lparr>sh_files = fs, sh_owner = None\<rparr>,
     hb_disk = \<lparr>dk_hub = None, dk_slots = [], dk_recovery = [], dk_events = []\<rparr>\<rparr>"

definition down_files :: files where
  "down_files = [(''/w'', Folder), (''/w/.bones'', Folder)]"

definition given_ports :: hub_opts where
  "given_ports = hub_defaults\<lparr>ho_repoPort := 80, ho_coordPort := 81\<rparr>"

definition sample_paths :: paths where
  "sample_paths = \<lparr>pa_root = ''/w'', pa_orchDir = ''/w/.bones'', pa_hubRepo = ''/w/.bones/hub.fossil'', pa_hubPid = ''/w/.bones/hub.pid'',
     pa_fossilURL = ''/w/.bones/hub-fossil-url'', pa_natsURL = ''/w/.bones/hub-nats-url'', pa_coordStore = ''/w/.bones/coord'',
     pa_fslckout = ''/w/.fslckout'', pa_fslSettings = ''/w/.fossil-settings''\<rparr>"

lemma hub_sample_simps [simp]: "hv_host hub_sample = sample_host" "pa_root sample_paths = ''/w''"
  by (simp_all add: hub_sample_def sample_paths_def)

lemma hub_sample_env [simp]: "hv_host (hub_sample\<lparr>hv_NewHub := f\<rparr>) = sample_host" "hv_git (hub_sample\<lparr>hv_NewHub := f\<rparr>) = Some (Inr [])"
  by (simp_all add: hub_sample_def)

lemma sample_newPaths: "newPaths sample_host down_files ''/w'' = Inr sample_paths" "newPaths sample_host up_files ''/w'' = Inr sample_paths"
  by code_simp+

lemma sample_hub_place: "lock_place sample_host (pa_root sample_paths) [''w'', ''.bones'']"
  using sample_place by simp

section \<open>Ports\<close>

lemma itoa_all_digits: "\<forall>c \<in> set (itoa n). is_digit c"
  using itoa_digits by blast

lemma scan_itoa: "n < 2 ^ 63 \<Longrightarrow> scan_int (itoa n) = Some (int n)"
proof -
  assume n: "n < 2 ^ 63"
  obtain c r where cr: "itoa n = c # r" by (meson itoa_nonempty neq_Nil_conv)
  then have c: "is_digit c" using itoa_all_digits by (metis list.set_intros(1))
  have b: "dropWhile (\<lambda>c. c \<in> {CHR '' '', CHR 0x09, CHR 0x0B, CHR 0x0C, CHR 0x0D}) (itoa n) = itoa n"
    using c unfolding cr by (auto simp: is_digit_def)
  have "c \<noteq> CHR ''-''" "c \<noteq> CHR ''+''" using c by (auto simp: is_digit_def)
  moreover have "takeWhile is_digit (itoa n) = itoa n" using itoa_all_digits by (simp add: takeWhile_eq_all_conv)
  ultimately show ?thesis using Atoi_itoa [OF n] itoa_nonempty [of n] unfolding scan_int_def Let_def b by (simp add: cr)
qed

lemma portFromURL_port:
  assumes "n < 2 ^ 63"
  shows "portFromURL (pre @ CHR '':'' # itoa n) = int n"
proof -
  have "CHR '':'' \<notin> set (itoa n)" using itoa_all_digits [of n] by (auto simp: is_digit_def)
  then have "last_index CHR '':'' (itoa n) = None" by (rule last_index_none)
  then have l: "last_index CHR '':'' (pre @ CHR '':'' # itoa n) = Some (length pre)" by (simp add: last_index_append)
  have "itoa n \<noteq> []" by (rule itoa_nonempty)
  then show ?thesis using scan_itoa [OF assms] unfolding portFromURL_def l by (cases "itoa n") simp_all
qed

text \<open>A line without blanks at its ends is read back as it was written.\<close>

lemma trim_left_stuck: "strip_any rs x = None \<Longrightarrow> trim_left rs n x = x"
  by (cases n) simp_all

lemma TrimSpace_url:
  assumes "x = a @ ds" and "ds \<noteq> []" and "\<forall>c \<in> set ds. is_digit c" and "strip_any space_runes (x @ nl) = None"
  shows "TrimSpace (x @ nl) = x"
proof -
  have h: "is_digit (hd (rev x))" "rev x \<noteq> []" using assms(1-3) by (simp_all add: hd_append hd_rev)
  have l: "trim_left space_runes (length (x @ nl)) (x @ nl) = x @ nl" by (rule trim_left_stuck [OF assms(4)])
  have s: "strip_any (map rev space_runes) (nl @ rev x) = Some (rev x)" by (simp only: runes_nl)
  have n: "length (x @ nl) = Suc (length x)" "rev (x @ nl) = nl @ rev x" by (simp_all add: nl_def)
  have r: "trim_left (map rev space_runes) (length (x @ nl)) (rev (x @ nl)) = rev x"
    unfolding n by (simp only: trim_left.simps s option.case) (rule trim_left_digit [OF space_runes_no_digit(2) h(2,1)])
  show ?thesis by (simp only: TrimSpace_def Let_def l r rev_rev_ident)
qed

lemma strip_any_head: "list_all (\<lambda>r. r = [] \<or> hd r \<noteq> c) rs \<Longrightarrow> [] \<notin> set rs \<Longrightarrow> strip_any rs (c # x) = None"
proof (induction rs)
  case (Cons r rs)
  then show ?case by (cases r) (simp_all add: strip_prefix.simps)
qed simp

lemma no_blank_head: "strip_any space_runes (CHR ''h'' # x) = None" "strip_any space_runes (CHR ''n'' # x) = None"
proof -
  have h: "list_all (\<lambda>r. r = [] \<or> hd r \<noteq> CHR ''h'') space_runes" "list_all (\<lambda>r. r = [] \<or> hd r \<noteq> CHR ''n'') space_runes"
    "[] \<notin> set space_runes"
    by code_simp+
  show "strip_any space_runes (CHR ''h'' # x) = None" "strip_any space_runes (CHR ''n'' # x) = None"
    by (rule strip_any_head [OF h(1,3)], rule strip_any_head [OF h(2,3)])
qed

abbreviation fossil_addr :: "int \<Rightarrow> string" where
  "fossil_addr n \<equiv> ''http://127.0.0.1:'' @ signed_itoa n"

abbreviation nats_addr :: "int \<Rightarrow> string" where
  "nats_addr n \<equiv> ''nats://127.0.0.1:'' @ signed_itoa n"

lemma addr_lines:
  assumes "0 \<le> n"
  shows "TrimSpace (fossil_addr n @ nl) = fossil_addr n" and "TrimSpace (nats_addr n @ nl) = nats_addr n"
proof -
  have s: "signed_itoa n = itoa (nat n)" using assms by (simp add: signed_itoa_def)
  show "TrimSpace (fossil_addr n @ nl) = fossil_addr n"
    by (rule TrimSpace_url [where a = "''http://127.0.0.1:''" and ds = "itoa (nat n)"])
      (use itoa_nonempty [of "nat n"] itoa_all_digits in \<open>simp_all add: s no_blank_head\<close>)
  show "TrimSpace (nats_addr n @ nl) = nats_addr n"
    by (rule TrimSpace_url [where a = "''nats://127.0.0.1:''" and ds = "itoa (nat n)"])
      (use itoa_nonempty [of "nat n"] itoa_all_digits in \<open>simp_all add: s no_blank_head\<close>)
qed

lemma addr_ports:
  assumes "0 \<le> n" and "n < 2 ^ 63"
  shows "portFromURL (fossil_addr n) = n" and "portFromURL (nats_addr n) = n"
proof -
  have s: "signed_itoa n = itoa (nat n)" using assms by (simp add: signed_itoa_def)
  have b: "nat n < 2 ^ 63" using assms by (simp add: nat_less_iff)
  show "portFromURL (fossil_addr n) = n" "portFromURL (nats_addr n) = n"
    using portFromURL_port [OF b, of "''http://127.0.0.1''"] portFromURL_port [OF b, of "''nats://127.0.0.1''"] assms(1) by (simp_all add: s)
qed

lemma read_addr: "no_faults h \<Longrightarrow> map_of fs p = Some (Doc c) \<Longrightarrow> readURLFile h fs p = TrimSpace c"
  by (simp add: readURLFile_def no_faults_simps)

text \<open>What a resolution that succeeds has written.\<close>

lemma resolvePorts_written:
  assumes "no_faults h" and "pa_fossilURL p \<noteq> pa_natsURL p" and "resolvePorts h free p oc fs = (Inr oc', fs1)"
  shows "map_of fs1 (pa_fossilURL p) = Some (Doc (fossil_addr (ho_repoPort oc') @ nl))"
    and "map_of fs1 (pa_natsURL p) = Some (Doc (nats_addr (ho_coordPort oc') @ nl))"
  using assms
  by (auto simp: resolvePorts_def writeURLFiles_def Let_def os_WriteFile_def no_faults_def update_conv' split: sum.splits prod.splits if_splits)

lemma resolvePorts_recorded:
  assumes nf: "no_faults h" and d: "pa_fossilURL p \<noteq> pa_natsURL p"
    and m: "map_of fs (pa_fossilURL p) = Some (Doc (fossil_addr a @ nl))" "map_of fs (pa_natsURL p) = Some (Doc (nats_addr b @ nl))"
    and ab: "0 < a" "a < 2 ^ 63" "0 < b" "b < 2 ^ 63" and z: "ho_repoPort oc = 0" "ho_coordPort oc = 0"
  shows "\<exists>fs'. resolvePorts h free p oc fs = (Inr (oc\<lparr>ho_repoPort := a, ho_coordPort := b\<rparr>), fs')"
proof -
  have r: "resolve_port h fs (pa_fossilURL p) f 0 = Inr a" "resolve_port h fs (pa_natsURL p) f 0 = Inr b" for f
    using ab addr_lines [of a] addr_lines [of b] addr_ports [of a] addr_ports [of b]
    by (simp_all add: resolve_port_def Let_def read_addr [OF nf m(1)] read_addr [OF nf m(2)])
  show ?thesis using m d nf unfolding resolvePorts_def z r
    by (auto simp: writeURLFiles_def Let_def os_WriteFile_def no_faults_def update_conv')
qed

lemma Stop_files:
  assumes "hub_Stop env probes force root w = (Inr r, w')" and "newPaths (hv_host env) (hb_files w) root = Inr p" and "q \<noteq> pa_hubPid p"
  shows "map_of (hb_files w') q = map_of (hb_files w) q"
proof -
  have e: "os_Remove (hv_host env) (pa_hubPid p) (hb_files w) = (fst x, snd x)" if "x = os_Remove (hv_host env) (pa_hubPid p) (hb_files w)" for x
    using that by simp
  have "hb_files w' = snd (os_Remove (hv_host env) (pa_hubPid p) (hb_files w))"
    using assms(1,2) by (auto simp: hub_Stop_def Let_def upd_files_def split: if_splits)
  then show ?thesis using keeps_calls(3) [OF e [OF refl], of "{q}"] assms(3) by (simp add: keeps_def)
qed

text \<open>C25: The ports of a workspace survive a stop: after a start has resolved its ports and the hub was stopped, a start without
  given ports takes the same ones again, whatever ports are free, and the addresses the leaves have read stay the recorded ones.\<close>

theorem ports_survive_stop:
  assumes "newPaths (hv_host env) fs root = Inr p" and "lock_place (hv_host env) (pa_root p) cs"
    and "resolvePorts (hv_host env) free p oc fs = (Inr oc', hb_files w)"
    and "0 < ho_repoPort oc'" and "ho_repoPort oc' < 2 ^ 16" and "0 < ho_coordPort oc'" and "ho_coordPort oc' < 2 ^ 16"
    and "hub_Stop env probes force root w = (Inr r, w')" and "ho_repoPort oc0 = 0" and "ho_coordPort oc0 = 0"
    and "newPaths (hv_host env) (hb_files w') root = Inr p'"
  shows "(\<exists>fs'. resolvePorts (hv_host env) free' p' oc0 (hb_files w') =
      (Inr (oc0\<lparr>ho_repoPort := ho_repoPort oc', ho_coordPort := ho_coordPort oc'\<rparr>), fs')) \<and>
    FossilURL (hv_host env) (hb_files w') root = fossil_addr (ho_repoPort oc') \<and>
    NATSURL (hv_host env) (hb_files w') root = nats_addr (ho_coordPort oc')"
proof -
  note d = hub_paths_distinct [OF assms(1,2)] and nf = hub_paths(2) [OF assms(1,2)]
  have p': "p' = p" by (rule newPaths_same [OF assms(1,11)])
  obtain p1 where p1: "newPaths (hv_host env) (hb_files w) root = Inr p1"
    using assms(8) by (auto simp: hub_Stop_def Let_def split: sum.splits)
  then have "p1 = p" by (rule newPaths_same [OF assms(1)])
  note keep = Stop_files [OF assms(8) p1 [unfolded this]]
  note wr = resolvePorts_written [OF nf _ assms(3)]
  have m: "map_of (hb_files w') (pa_fossilURL p) = Some (Doc (fossil_addr (ho_repoPort oc') @ nl))"
    "map_of (hb_files w') (pa_natsURL p) = Some (Doc (nats_addr (ho_coordPort oc') @ nl))"
    using wr keep [of "pa_fossilURL p"] keep [of "pa_natsURL p"] d by auto
  have b: "ho_repoPort oc' < 2 ^ 63" "ho_coordPort oc' < 2 ^ 63" using assms(5,7) by simp_all
  show ?thesis
    using resolvePorts_recorded [OF nf _ m assms(4) b(1) assms(6) b(2) assms(9,10), of free'] d
      read_addr [OF nf m(1)] read_addr [OF nf m(2)] addr_lines [of "ho_repoPort oc'"] addr_lines [of "ho_coordPort oc'"] assms(4,6,11)
    by (simp add: p' FossilURL_def NATSURL_def)
qed

theorem ports_survive_stop_witness:
  "\<exists>fs w' fs'. resolvePorts sample_host (\<lambda>b. Inr (if b then 81 else 80)) sample_paths hub_defaults down_files = (Inr given_ports, fs) \<and>
    hub_Stop hub_sample [] True ''/w'' (hub_sample_world fs) = (Inr None, w') \<and>
    resolvePorts sample_host (\<lambda>_. Inr 9) sample_paths hub_defaults (hb_files w') = (Inr given_ports, fs') \<and>
    NATSURL sample_host (hb_files w') ''/w'' = ''nats://127.0.0.1:81''"
proof -
  define fs where "fs = snd (writeURLFiles sample_host sample_paths given_ports down_files)"
  define w' where "w' = snd (hub_Stop hub_sample [] True ''/w'' (hub_sample_world fs))"
  have r: "resolvePorts sample_host (\<lambda>b. Inr (if b then 81 else 80)) sample_paths hub_defaults down_files = (Inr given_ports, fs)"
  proof -
    have "resolve_port sample_host down_files (pa_fossilURL sample_paths) (Inr 80) 0 = Inr 80"
      "resolve_port sample_host down_files (pa_natsURL sample_paths) (Inr 81) 0 = Inr 81"
      "fst (writeURLFiles sample_host sample_paths given_ports down_files) = Inr ()"
      by code_simp+
    moreover from this(3) have "writeURLFiles sample_host sample_paths given_ports down_files = (Inr (), fs)" by (simp add: fs_def prod_eq_iff)
    moreover have "hub_defaults\<lparr>ho_repoPort := 80, ho_coordPort := 81\<rparr> = given_ports" "ho_repoPort hub_defaults = 0" "ho_coordPort hub_defaults = 0"
      by (simp_all add: given_ports_def hub_defaults_def)
    ultimately show ?thesis by (simp add: resolvePorts_def Let_def)
  qed
  have st: "hub_Stop hub_sample [] True ''/w'' (hub_sample_world fs) = (Inr None, w')"
  proof -
    have "fst (hub_Stop hub_sample [] True ''/w'' (hub_sample_world fs)) = Inr None" unfolding fs_def by code_simp
    then show ?thesis by (simp add: w'_def prod_eq_iff)
  qed
  have np: "newPaths sample_host (hb_files w') ''/w'' = Inr sample_paths" unfolding w'_def fs_def by code_simp
  have n: "hub_defaults\<lparr>ho_repoPort := ho_repoPort given_ports, ho_coordPort := ho_coordPort given_ports\<rparr> = given_ports"
    "ho_repoPort given_ports = 80" "ho_coordPort given_ports = 81" "ho_repoPort hub_defaults = 0" "ho_coordPort hub_defaults = 0"
    by (simp_all add: given_ports_def hub_defaults_def)
  have a: "nats_addr 81 = ''nats://127.0.0.1:81''" by code_simp
  note t = ports_survive_stop [where env = hub_sample and w = "hub_sample_world fs" and free' = "\<lambda>_. Inr 9",
      unfolded hub_sample_simps, OF sample_newPaths(1) sample_hub_place]
  have h: "hb_files (hub_sample_world fs) = fs" by (simp add: hub_sample_world_def)
  have pr: "0 < ho_repoPort given_ports" "ho_repoPort given_ports < 2 ^ 16" "0 < ho_coordPort given_ports" "ho_coordPort given_ports < 2 ^ 16"
    unfolding n by simp_all
  have "(\<exists>fs'. resolvePorts sample_host (\<lambda>_. Inr 9) sample_paths hub_defaults (hb_files w') = (Inr given_ports, fs')) \<and>
    FossilURL sample_host (hb_files w') ''/w'' = fossil_addr (ho_repoPort given_ports) \<and>
    NATSURL sample_host (hb_files w') ''/w'' = nats_addr (ho_coordPort given_ports)"
    using t [unfolded h, OF r pr st n(4,5) np] unfolding n(1) .
  then show ?thesis using r st unfolding n(3) a by blast
qed

section \<open>A bring-up that fails\<close>

lemma map_of_filter_fst: "map_of (filter (\<lambda>(q, _). P q) fs) q = (if P q then map_of fs q else None)"
  by (induction fs) auto

lemma map_of_RemoveAll:
  "no_faults h \<Longrightarrow> map_of (snd (os_RemoveAll h p fs)) q = (if q = p \<or> under p q then None else map_of fs q)"
  by (simp add: os_RemoveAll_def no_faults_def map_of_filter_fst)

lemma map_of_removeRepo:
  assumes "no_faults h"
  shows "map_of (removeRepoAndSidecars h p fs) q = (if \<exists>r \<in> set (repo_files p). q = r \<or> under r q then None else map_of fs q)"
proof -
  have "map_of (foldl (\<lambda>f q. snd (os_RemoveAll h q f)) fs rs) q = (if \<exists>r \<in> set rs. q = r \<or> under r q then None else map_of fs q)" for rs
    by (induction rs arbitrary: fs) (auto simp: map_of_RemoveAll [OF assms])
  then show ?thesis by (simp add: removeRepoAndSidecars_def)
qed

lemma on_files_Inr: "f (hb_files w) = (r, fs) \<Longrightarrow> on_files f w = (r, upd_files (\<lambda>_. fs) w)"
  by (simp add: on_files_def upd_files_def)

lemma upd_files_simps [simp]:
  "hb_files (upd_files f w) = f (hb_files w)" "upd_files g (upd_files f w) = upd_files (\<lambda>x. g (f x)) w"
  "hb_kv (upd_files f w) = hb_kv w" "hb_disk (upd_files f w) = hb_disk w" "sh_owner (hb_shared (upd_files f w)) = sh_owner (hb_shared w)"
  by (simp_all add: upd_files_def)

lemma remove_gone: "no_faults h \<Longrightarrow> empty_below fs p \<Longrightarrow> map_of (snd (os_Remove h p fs)) p = None"
  by (auto simp: os_Remove_def no_faults_def AList.delete_conv')

lemma remove_doc_gone: "no_faults h \<Longrightarrow> map_of fs p \<noteq> Some Folder \<Longrightarrow> map_of (snd (os_Remove h p fs)) p = None"
  by (auto simp: os_Remove_def no_faults_def AList.delete_conv')

lemma remove_other: "map_of fs q = None \<Longrightarrow> map_of (snd (os_Remove h p fs)) q = None"
  by (auto simp: os_Remove_def AList.delete_conv' split: option.splits)

text \<open>Neither the pid file nor the repository is left.\<close>

definition swept :: "paths \<Rightarrow> files \<Rightarrow> bool" where
  "swept p fs \<longleftrightarrow> map_of fs (pa_hubPid p) = None \<and> map_of fs (pa_hubRepo p) = None"

definition hub_folder :: "paths \<Rightarrow> files \<Rightarrow> bool" where
  "hub_folder p fs \<longleftrightarrow> map_of fs (pa_coordStore p) \<in> {None, Some Folder} \<and> map_of fs (pa_hubPid p) \<noteq> Some Folder \<and>
     map_of fs (pa_fossilURL p) \<noteq> Some Folder \<and> map_of fs (pa_natsURL p) \<noteq> Some Folder"

lemma bring_up_fails:
  assumes np: "newPaths (hv_host env) fs0 root = Inr p" and pl: "lock_place (hv_host env) (pa_root p) cs"
    and hf: "hub_folder p (hb_files w)"
    and fails: "\<And>fs. pidIsLive (hv_host env) (hb_files w) (pa_hubPid p) \<or> map_of fs (pa_hubRepo p) = None \<Longrightarrow>
      map_of fs (pa_hubPid p) \<noteq> Some Folder \<Longrightarrow>
      \<exists>fs1. openAndSeedHub env p oc (map_of fs (pa_hubRepo p) = None) fs = (Inl e, removeRepoAndSidecars (hv_host env) p fs1) \<and>
        map_of fs1 (pa_hubPid p) \<noteq> Some Folder"
  shows "\<exists>w'. runForeground env p oc w = (Inl e, w') \<and> swept p (hb_files w')"
proof -
  let ?h = "hv_host env" and ?live = "pidIsLive (hv_host env) (hb_files w) (pa_hubPid p)"
  note nf = hub_paths(2) [OF np pl] and d = hub_paths_distinct [OF np pl]
  define w1 where "w1 = (if \<not> ?live then upd_files (removeRepoAndSidecars ?h p) w else w)"
  have hf1: "hub_folder p (hb_files w1)" using hf by (auto simp: w1_def hub_folder_def map_of_removeRepo [OF nf])
  obtain fs2 where mk: "os_MkdirAll ?h (pa_coordStore p) (hb_files w1) = (Inr (), fs2)"
    and k2: "\<And>q. q \<noteq> pa_coordStore p \<Longrightarrow> map_of fs2 q = map_of (hb_files w1) q"
    using hf1 nf by (cases "map_of (hb_files w1) (pa_coordStore p)") (auto simp: os_MkdirAll_def hub_folder_def no_faults_def update_conv')
  have p2: "map_of fs2 (pa_hubPid p) \<noteq> Some Folder" using hf1 k2 [of "pa_hubPid p"] d by (auto simp: hub_folder_def)
  define fs3 where "fs3 = AList.update (pa_hubPid p) (Doc (signed_itoa (hv_pid env) @ nl)) fs2"
  have wp: "hub_writePid ?h (pa_hubPid p) (hv_pid env) fs2 = (Inr (), fs3)"
    using p2 nf by (simp add: hub_writePid_def os_WriteFile_def no_faults_def fs3_def)
  have repo: "?live \<or> map_of fs3 (pa_hubRepo p) = None"
    using k2 [of "pa_hubRepo p"] d by (auto simp: fs3_def w1_def map_of_removeRepo [OF nf] update_conv' repo_files_def)
  have fresh: "(os_Stat ?h fs3 (pa_hubRepo p) = Inl (EOS NotExist)) = (map_of fs3 (pa_hubRepo p) = None)"
    by (simp add: no_faults_simps [OF nf] split: option.splits)
  obtain fs4 where o: "openAndSeedHub env p oc (map_of fs3 (pa_hubRepo p) = None) fs3 = (Inl e, removeRepoAndSidecars ?h p fs4)"
    "map_of fs4 (pa_hubPid p) \<noteq> Some Folder"
    using fails [OF repo] by (auto simp: fs3_def)
  define w' where "w' = upd_files (\<lambda>_. snd (os_Remove ?h (pa_hubPid p) (removeRepoAndSidecars ?h p fs4))) w1"
  have "runForeground env p oc w = (Inl e, w')"
    using mk wp o(1) unfolding runForeground_def Let_def w1_def [symmetric] fresh
    by (simp add: on_files_Inr [where f = "os_MkdirAll ?h (pa_coordStore p)"] on_files_Inr [where f = "hub_writePid ?h (pa_hubPid p) (hv_pid env)"]
        on_files_Inr [where f = "openAndSeedHub env p oc (map_of fs3 (pa_hubRepo p) = None)"] fresh w'_def)
  moreover have "map_of (removeRepoAndSidecars ?h p fs4) (pa_hubPid p) \<noteq> Some Folder" using o(2) by (auto simp: map_of_removeRepo [OF nf])
  then have "swept p (hb_files w')"
    unfolding swept_def w'_def using remove_doc_gone [OF nf] remove_other [of "removeRepoAndSidecars ?h p fs4" "pa_hubRepo p"]
    by (simp add: map_of_removeRepo [OF nf] repo_files_def)
  ultimately show ?thesis by blast
qed

section \<open>Under the lock\<close>

lemma resolve_given:
  assumes "no_faults h" and "pa_fossilURL p \<noteq> pa_natsURL p" and "hub_folder p fs" and "ho_repoPort oc \<noteq> 0" and "ho_coordPort oc \<noteq> 0"
  obtains fs' where "resolvePorts h free p oc fs = (Inr oc, fs')"
    and "\<And>q. q \<noteq> pa_fossilURL p \<Longrightarrow> q \<noteq> pa_natsURL p \<Longrightarrow> map_of fs' q = map_of fs q"
    and "map_of fs' (pa_fossilURL p) \<noteq> Some Folder" and "map_of fs' (pa_natsURL p) \<noteq> Some Folder"
proof
  let ?fs' = "AList.update (pa_natsURL p) (Doc (nats_addr (ho_coordPort oc) @ nl))
    (AList.update (pa_fossilURL p) (Doc (fossil_addr (ho_repoPort oc) @ nl)) fs)"
  show "resolvePorts h free p oc fs = (Inr oc, ?fs')"
    using assms by (simp add: resolvePorts_def resolve_port_def writeURLFiles_def Let_def os_WriteFile_def no_faults_def hub_folder_def update_conv')
qed (simp_all add: update_conv')

lemma start_locked_fails:
  assumes np: "newPaths (hv_host env) fs0 root = Inr p" and pl: "lock_place (hv_host env) (pa_root p) cs"
    and hf: "hub_folder p (hb_files w)" and ports: "ho_repoPort oc \<noteq> 0" "ho_coordPort oc \<noteq> 0" "\<not> ho_detach oc"
    and seeded: "map_of (hb_files w) (pa_hubRepo p) \<noteq> None"
    and fails: "\<And>fs. pidIsLive (hv_host env) (hb_files w) (pa_hubPid p) \<or> map_of fs (pa_hubRepo p) = None \<Longrightarrow>
      map_of fs (pa_hubPid p) \<noteq> Some Folder \<Longrightarrow>
      \<exists>fs1. openAndSeedHub env p oc (map_of fs (pa_hubRepo p) = None) fs = (Inl e, removeRepoAndSidecars (hv_host env) p fs1) \<and>
        map_of fs1 (pa_hubPid p) \<noteq> Some Folder"
  shows "\<exists>w'. start_locked env p oc False w = (Inl e, w') \<and> swept p (hb_files w')"
proof -
  let ?h = "hv_host env"
  note nf = hub_paths(2) [OF np pl] and d = hub_paths_distinct [OF np pl]
  have seed: "os_Stat ?h (hb_files w) (pa_hubRepo p) \<noteq> Inl (EOS NotExist)"
    using seeded by (simp add: no_faults_simps [OF nf] split: option.splits)
  obtain x dk where pd: "PruneDead (hv_readSwarm env) (hv_rmSlot env) (ho_alive ?h) (hb_disk w) = (x, dk)" by (rule prod.exhaust)
  have ne: "pa_fossilURL p \<noteq> pa_natsURL p" using d by simp
  obtain fs1 where rp: "resolvePorts ?h (hv_free env) p oc (hb_files w) = (Inr oc, fs1)"
    and k1: "\<And>q. q \<noteq> pa_fossilURL p \<Longrightarrow> q \<noteq> pa_natsURL p \<Longrightarrow> map_of fs1 q = map_of (hb_files w) q"
    and u1: "map_of fs1 (pa_fossilURL p) \<noteq> Some Folder" "map_of fs1 (pa_natsURL p) \<noteq> Some Folder"
    by (rule resolve_given [OF nf ne hf ports(1,2), where free = "hv_free env"], rule that)
  define w1 where "w1 = upd_files (\<lambda>_. fs1) (w\<lparr>hb_disk := dk\<rparr>)"
  have w1: "on_files (resolvePorts ?h (hv_free env) p oc) (w\<lparr>hb_disk := dk\<rparr>) = (Inr oc, w1)"
    unfolding w1_def using rp by (intro on_files_Inr) simp
  have files: "hb_files w1 = fs1" by (simp add: w1_def)
  have live: "pidIsLive ?h (hb_files w1) (pa_hubPid p) = pidIsLive ?h (hb_files w) (pa_hubPid p)"
    using k1 [of "pa_hubPid p"] d by (simp add: files pidIsLive_def hub_readPid_def read_pid_def no_faults_simps [OF nf])
  have hf1: "hub_folder p (hb_files w1)"
    using hf k1 [of "pa_coordStore p"] k1 [of "pa_hubPid p"] u1 d by (auto simp: files hub_folder_def)
  obtain w' where "runForeground env p oc w1 = (Inl e, w')" "swept p (hb_files w')"
    using bring_up_fails [OF np pl hf1, of oc e] fails unfolding live by blast
  then show ?thesis using seed pd w1 ports(3) by (auto simp: start_locked_def Let_def)
qed

lemma released_none: "map_of (sh_files s) q = None \<Longrightarrow> map_of (sh_files (lock_release h root pid s)) q = None"
  by (simp add: lock_release_def eval_nat_numeral acquire_step_def Let_def phase_settled_def remove_other)

text \<open>C26: A start in the foreground looks at the pid file before it takes the lock and not again after: when another hub has come
  up in between and released the lock, a start whose servers cannot bind fails and removes the pid file and the repository of
  that hub, whose process goes on.\<close>

theorem foreground_start_race:
  assumes "newPaths (hv_host env) (hb_files w) root = Inr p" and "lock_place (hv_host env) (pa_root p) cs"
    and "checkStaleClaudeWorktrees (hv_host env) (hb_files w) root = Inr ()"
    and "map_of (hb_files w) (pa_orchDir p) = Some Folder" and "map_of (hb_files w) (pa_hubPid p) = None"
    and "acquireStartLock env (pa_root p) False
      (hv_between env (upd_files (\<lambda>f. snd (os_RemoveAll (hv_host env) (Join (pa_orchDir p) ''pids'') f)) w)) = (Inr (), w1)"
    and "hub_folder p (hb_files w1)" and "hub_readPid (hv_host env) (hb_files w1) (pa_hubPid p) = Some other"
    and "pidIntIsLive (hv_host env) other" and "map_of (hb_files w1) (pa_hubRepo p) = Some (Doc repo)"
    and "ho_repoPort oc \<noteq> 0" and "ho_coordPort oc \<noteq> 0" and "\<not> ho_detach oc"
    and "\<forall>fs. hv_NewHub env oc fs = (Inl e, fs)"
  shows "\<exists>w'. hub_Start env root False oc w = (Inl e, w') \<and> swept p (hb_files w')"
proof -
  let ?h = "hv_host env" and ?w0 = "upd_files (\<lambda>f. snd (os_RemoveAll (hv_host env) (Join (pa_orchDir p) ''pids'') f)) w"
  note nf = hub_paths(2) [OF assms(1,2)]
  have mk: "on_files (os_MkdirAll ?h (pa_orchDir p)) w = (Inr (), w)"
    using assms(4) nf by (simp add: on_files_def os_MkdirAll_def no_faults_def)
  have dead: "\<not> pidIsLive ?h (hb_files ?w0) (pa_hubPid p)"
    using assms(5) by (simp add: pidIsLive_def hub_readPid_def read_pid_def no_faults_simps [OF nf] map_of_RemoveAll [OF nf])
  have live: "pidIsLive ?h (hb_files w1) (pa_hubPid p)" using assms(8,9) by (simp add: pidIsLive_def)
  have seeded: "map_of (hb_files w1) (pa_hubRepo p) \<noteq> None" using assms(10) by simp
  have "\<exists>w2. start_locked env p oc False w1 = (Inl e, w2) \<and> swept p (hb_files w2)"
    by (rule start_locked_fails [OF assms(1,2,7,11-13) seeded]) (use assms(14) in \<open>auto simp: openAndSeedHub_def\<close>)
  then obtain w2 where w2: "start_locked env p oc False w1 = (Inl e, w2)" "swept p (hb_files w2)" by blast
  have "hub_Start env root False oc w = (Inl e, release_start env (pa_root p) False w2)"
    using assms(1,3,6) mk dead w2(1) by (simp add: hub_Start_def gateStaleWorktrees_def Let_def)
  moreover have "swept p (hb_files (release_start env (pa_root p) False w2))"
    using w2(2) by (simp add: swept_def release_start_def released_none)
  ultimately show ?thesis by blast
qed

theorem foreground_start_race_witness:
  "pidIntIsLive sample_host 7 \<and> hub_readPid sample_host up_files (pa_hubPid sample_paths) = Some 7 \<and>
   (\<exists>w'. hub_Start hub_sample ''/w'' False given_ports (hub_sample_world down_files) = (Inl (EMsg ''address already in use''), w') \<and>
     swept sample_paths (hb_files w'))"
proof -
  let ?r = "acquireStartLock hub_sample (pa_root sample_paths) False
      (hv_between hub_sample (upd_files (\<lambda>f. snd (os_RemoveAll sample_host (Join (pa_orchDir sample_paths) ''pids'') f)) (hub_sample_world down_files)))"
  have f: "hb_files (hub_sample_world down_files) = down_files" by (simp add: hub_sample_world_def)
  have live: "pidIntIsLive sample_host 7" "hub_readPid sample_host up_files (pa_hubPid sample_paths) = Some 7" by code_simp+
  have m: "checkStaleClaudeWorktrees sample_host down_files ''/w'' = Inr ()" "map_of down_files (pa_orchDir sample_paths) = Some Folder"
    "map_of down_files (pa_hubPid sample_paths) = None"
    by code_simp+
  have "fst ?r = Inr ()" by code_simp
  then have r: "?r = (Inr (), snd ?r)" by (simp add: prod_eq_iff)
  have u: "hub_folder sample_paths (hb_files (snd ?r))" unfolding hub_folder_def by code_simp
  have q: "hub_readPid sample_host (hb_files (snd ?r)) (pa_hubPid sample_paths) = Some 7" by code_simp
  have g: "map_of (hb_files (snd ?r)) (pa_hubRepo sample_paths) = Some (Doc ''repo'')" by code_simp
  have n: "\<forall>fs. hv_NewHub hub_sample given_ports fs = (Inl (EMsg ''address already in use''), fs)" by (simp add: hub_sample_def)
  have op: "ho_repoPort given_ports \<noteq> 0" "ho_coordPort given_ports \<noteq> 0" "\<not> ho_detach given_ports" by (simp_all add: given_ports_def hub_defaults_def)
  show ?thesis
    using foreground_start_race [where env = hub_sample and w = "hub_sample_world down_files", unfolded hub_sample_simps(1) f,
        OF sample_newPaths(1) sample_hub_place m r u q live(1) g op n] live by simp
qed

text \<open>The check that there is something to seed from is made only when no repository is there, though a start wipes the one a
  crashed hub left. So without tracked files a start after a crash goes all the way to the seeding and fails there, and the
  next one fails at the check.\<close>

theorem seed_check_skipped:
  assumes "newPaths (hv_host env) fs root = Inr p" and "lock_place (hv_host env) (pa_root p) cs"
    and "hub_folder p (hb_files w)" and "ho_repoPort oc \<noteq> 0" and "ho_coordPort oc \<noteq> 0" and "\<not> ho_detach oc"
    and "map_of (hb_files w) (pa_hubRepo p) \<noteq> None" and "\<not> pidIsLive (hv_host env) (hb_files w) (pa_hubPid p)"
    and "gitTrackedFiles (hv_git env) = Inr []"
    and "\<forall>fs. fst (hv_NewHub env oc fs) = Inr () \<and> map_of (snd (hv_NewHub env oc fs)) (pa_hubPid p) = map_of fs (pa_hubPid p)"
  shows "\<exists>w'. start_locked env p oc False w = (Inl (EMsg ''no git-tracked files to seed from''), w') \<and> swept p (hb_files w') \<and>
    start_locked env p oc False w' = (Inl ErrSeedPrecondition, w')"
proof -
  note nf = hub_paths(2) [OF assms(1,2)]
  have o: "\<exists>fs1. openAndSeedHub env p oc True f = (Inl (EMsg ''no git-tracked files to seed from''), removeRepoAndSidecars (hv_host env) p fs1) \<and>
    map_of fs1 (pa_hubPid p) \<noteq> Some Folder" if "map_of f (pa_hubPid p) \<noteq> Some Folder" for f
  proof -
    obtain f1 where f1: "hv_NewHub env oc f = (Inr (), f1)" "map_of f1 (pa_hubPid p) = map_of f (pa_hubPid p)"
      using assms(10) by (metis prod.collapse)
    then show ?thesis using assms(9) that by (simp add: openAndSeedHub_def seedHubRepo_def) metis
  qed
  have "\<exists>w'. start_locked env p oc False w = (Inl (EMsg ''no git-tracked files to seed from''), w') \<and> swept p (hb_files w')"
    by (rule start_locked_fails [OF assms(1-7)]) (use o assms(8) in simp)
  then obtain w' where w': "start_locked env p oc False w = (Inl (EMsg ''no git-tracked files to seed from''), w')" "swept p (hb_files w')"
    by blast
  have "start_locked env p oc False w' = (Inl ErrSeedPrecondition, w')"
    using w'(2) assms(9) by (simp add: start_locked_def Let_def swept_def no_faults_simps [OF nf] checkSeedPrecondition_def)
  with w' show ?thesis by blast
qed

theorem seed_check_skipped_witness:
  "\<exists>w'. start_locked (hub_sample\<lparr>hv_NewHub := \<lambda>_ f. (Inr (), f)\<rparr>) sample_paths given_ports False
      (hub_sample_world ((''/w/.bones/hub.fossil'', Doc ''old'') # down_files)) = (Inl (EMsg ''no git-tracked files to seed from''), w') \<and>
    start_locked (hub_sample\<lparr>hv_NewHub := \<lambda>_ f. (Inr (), f)\<rparr>) sample_paths given_ports False w' = (Inl ErrSeedPrecondition, w')"
proof -
  let ?env = "hub_sample\<lparr>hv_NewHub := \<lambda>_ f. (Inr (), f)\<rparr>" and ?fs = "(''/w/.bones/hub.fossil'', Doc ''old'') # down_files"
  have f: "hb_files (hub_sample_world ?fs) = ?fs" by (simp add: hub_sample_world_def)
  have u: "hub_folder sample_paths ?fs" unfolding hub_folder_def by code_simp
  have g: "map_of ?fs (pa_hubRepo sample_paths) \<noteq> None" "\<not> pidIsLive sample_host ?fs (pa_hubPid sample_paths)"
    "gitTrackedFiles (Some (Inr [])) = Inr []"
    by code_simp+
  have n: "\<forall>fs. fst (hv_NewHub ?env given_ports fs) = Inr () \<and>
      map_of (snd (hv_NewHub ?env given_ports fs)) (pa_hubPid sample_paths) = map_of fs (pa_hubPid sample_paths)"
    by simp
  have op: "ho_repoPort given_ports \<noteq> 0" "ho_coordPort given_ports \<noteq> 0" "\<not> ho_detach given_ports" by (simp_all add: given_ports_def hub_defaults_def)
  show ?thesis
    using seed_check_skipped [where env = ?env and w = "hub_sample_world ?fs", unfolded hub_sample_env f,
        OF sample_newPaths(1) sample_hub_place u op g n] by blast
qed

end
