(* ===== verification/Host_Guarantees.thy ===== *)
theory Host_Guarantees
  imports Host_Tools Workspace_Guarantees
begin

text \<open>
  What the log and the hook promise: a log stays bounded and loses only its oldest lines, and removing the hook undoes its
  installation where no hook was saved before.
\<close>

section \<open>The log\<close>

lemma segs_text_short:
  "\<forall>i \<le> n. int (length (f i)) \<le> b \<Longrightarrow> int (length (segs_text n f)) \<le> (int n + 1) * b"
proof (induction n)
  case (Suc n)
  have "int (length (segs_text n f)) \<le> (int n + 1) * b" by (rule Suc.IH) (use Suc.prems in simp)
  moreover have "int (length (f (Suc n))) \<le> b" using Suc.prems by blast
  ultimately show ?case by (simp add: segs_text_Suc algebra_simps)
qed (simp add: segs_text_def)

lemma segs_text_empty: "\<forall>i \<le> n. f i = [] \<Longrightarrow> segs_text n f = []"
  by (simp add: segs_text_def)

text \<open>C30: A log that started empty holds a suffix of what was appended to it. It is never longer than one more than the number of
  backups times the limit and one line, and once something is lost it still has more than the number of backups times the limit.\<close>

theorem log_bounded:
  assumes "no_faults h" and "log_place w ds" and "log_files w fs" and "\<forall>i \<le> wr_maxFiles w. seg w fs i = []"
    and "\<forall>v \<in> set vs. int (length (text v @ nl)) \<le> m" and "0 \<le> m" and "fs' = append_all h text w vs fs"
  shows "\<exists>older. log_lines text vs = older @ log_text w fs' \<and>
    int (length (log_text w fs')) \<le> (int (wr_maxFiles w) + 1) * (wr_maxSize w + m) \<and>
    (older \<noteq> [] \<longrightarrow> int (length (log_text w fs')) \<ge> int (wr_maxFiles w) * wr_maxSize w)"
proof -
  have pos: "wr_maxSize w > 0" using assms(2) by (simp add: log_place_def)
  have s: "series (wr_maxSize w) (wr_maxFiles w) m (seg w fs)" using assms(4,6) pos by (simp add: series_def)
  obtain older where o: "log_text w fs @ log_lines text vs = older @ log_text w fs'" "series (wr_maxSize w) (wr_maxFiles w) m (seg w fs')"
    "older \<noteq> [] \<longrightarrow> (\<forall>i < wr_maxFiles w. int (length (seg w fs' (Suc i))) > wr_maxSize w)"
    using append_all_series [OF assms(1-3,5) s] assms(7) by blast
  have "int (length (log_text w fs')) \<le> (int (wr_maxFiles w) + 1) * (wr_maxSize w + m)"
    by (rule segs_text_short) (use o(2) in \<open>simp add: series_def\<close>)
  moreover have "int (length (log_text w fs')) \<ge> int (wr_maxFiles w) * wr_maxSize w" if "older \<noteq> []"
    using segs_text_long [of "wr_maxFiles w" "wr_maxSize w" "seg w fs'"] o(3) that pos by simp
  ultimately show ?thesis using o(1) segs_text_empty [OF assms(4)] by auto
qed

definition small_log :: Writer where
  "small_log = \<lparr>wr_path = ''/l/hub.log'', wr_maxSize = 2, wr_maxFiles = 1\<rparr>"

definition json_text :: "json \<Rightarrow> string" where
  "json_text j = (case j of JStr x \<Rightarrow> x | _ \<Rightarrow> [])"

theorem log_bounded_witness:
  "log_text small_log (append_all sample_host json_text small_log [JStr ''ab'', JStr ''cd'', JStr ''ef''] []) = ''cd'' @ nl @ ''ef'' @ nl \<and>
   int (length (log_text small_log (append_all sample_host json_text small_log [JStr ''ab'', JStr ''cd'', JStr ''ef''] []))) \<le> 10"
proof -
  have p: "log_place small_log [''l'', ''hub.log'']" unfolding log_place_def by code_simp
  have f: "log_files small_log []" by (simp add: log_files_def plain_file_def empty_below_def)
  have e: "\<forall>i \<le> wr_maxFiles small_log. seg small_log [] i = []" by (simp add: seg_def content_def)
  have l: "\<forall>v \<in> set [JStr ''ab'', JStr ''cd'', JStr ''ef'']. int (length (json_text v @ nl)) \<le> 3" by (simp add: json_text_def nl_def)
  have t: "log_text small_log (append_all sample_host json_text small_log [JStr ''ab'', JStr ''cd'', JStr ''ef''] []) = ''cd'' @ nl @ ''ef'' @ nl"
    by code_simp
  have "\<exists>older. log_lines json_text [JStr ''ab'', JStr ''cd'', JStr ''ef''] = older @ ''cd'' @ nl @ ''ef'' @ nl \<and>
      int (length (''cd'' @ nl @ ''ef'' @ nl)) \<le> (int (wr_maxFiles small_log) + 1) * (wr_maxSize small_log + 3) \<and>
      (older \<noteq> [] \<longrightarrow> int (length (''cd'' @ nl @ ''ef'' @ nl)) \<ge> int (wr_maxFiles small_log) * wr_maxSize small_log)"
    using log_bounded [OF sample_host_simps(4) p f e l _ refl] unfolding t by simp
  then show ?thesis unfolding t by (simp add: small_log_def)
qed

section \<open>The hook\<close>

definition hook_place :: "host \<Rightarrow> string \<Rightarrow> string list \<Rightarrow> bool" where
  "hook_place h gitDir gs \<longleftrightarrow> no_faults h \<and> gitDir = abs_path gs \<and> list_all good_part gs"

lemma hook_names [simp]: "good_part ''hooks''" "good_part ''pre-commit''" "good_part ''pre-commit.bones-saved''"
  by code_simp+

lemma hook_paths:
  assumes "hook_place h gitDir gs"
  shows "Join gitDir ''hooks'' = abs_path (gs @ [''hooks''])" and "hook_path gitDir = abs_path (gs @ [''hooks'', ''pre-commit''])"
    and "hook_path gitDir @ SavedSuffix = abs_path (gs @ [''hooks'', ''pre-commit.bones-saved''])"
proof -
  have g: "list_all good_part gs" "gitDir = abs_path gs" using assms by (auto simp: hook_place_def)
  show 1: "Join gitDir ''hooks'' = abs_path (gs @ [''hooks''])" using Join_good [OF g(1) hook_names(1)] g(2) by simp
  have g1: "list_all good_part (gs @ [''hooks''])" using g by simp
  show 2: "hook_path gitDir = abs_path (gs @ [''hooks'', ''pre-commit''])"
    using Join_good [OF g1 hook_names(2)] by (simp add: hook_path_def 1)
  show "hook_path gitDir @ SavedSuffix = abs_path (gs @ [''hooks'', ''pre-commit.bones-saved''])"
    unfolding 2 using abs_path_snoc [of "gs @ [''hooks'']"] by (simp add: SavedSuffix_def)
qed

lemma hook_apart:
  assumes "hook_place h gitDir gs"
  shows "hook_path gitDir \<noteq> hook_path gitDir @ SavedSuffix" and "\<not> under (hook_path gitDir) (hook_path gitDir @ SavedSuffix)"
    and "\<not> under (hook_path gitDir @ SavedSuffix) (hook_path gitDir)"
    and "Join gitDir ''hooks'' \<noteq> hook_path gitDir" and "Join gitDir ''hooks'' \<noteq> hook_path gitDir @ SavedSuffix"
proof -
  have g: "list_all good_part gs" using assms by (simp add: hook_place_def)
  note q = paths_eq [of gs] paths_under [of gs]
  show "hook_path gitDir \<noteq> hook_path gitDir @ SavedSuffix" by (simp add: SavedSuffix_def)
  show "\<not> under (hook_path gitDir) (hook_path gitDir @ SavedSuffix)" "\<not> under (hook_path gitDir @ SavedSuffix) (hook_path gitDir)"
    "Join gitDir ''hooks'' \<noteq> hook_path gitDir" "Join gitDir ''hooks'' \<noteq> hook_path gitDir @ SavedSuffix"
    unfolding hook_paths(3) [OF assms] unfolding hook_paths(1,2) [OF assms] by (simp_all add: q g)
qed

lemma hookScript_marked: "str_contains hookScript Marker"
  by code_simp

text \<open>A hook of the user at its place, with nothing below it.\<close>

definition user_hook :: "files \<Rightarrow> string \<Rightarrow> string \<Rightarrow> bool" where
  "user_hook fs gitDir user \<longleftrightarrow>
     map_of fs (Join gitDir ''hooks'') = Some Folder \<and> map_of fs (hook_path gitDir) = Some (Doc user) \<and> user \<noteq> [] \<and>
     \<not> str_contains user Marker \<and> empty_below fs (hook_path gitDir) \<and> plain_file fs (hook_path gitDir @ SavedSuffix)"

definition hooked :: "files \<Rightarrow> files \<Rightarrow> string \<Rightarrow> bool" where
  "hooked fs fs1 gitDir \<longleftrightarrow>
     (\<forall>q. map_of fs1 q = (if q = hook_path gitDir then Some (Doc hookScript)
        else if q = hook_path gitDir @ SavedSuffix \<and> map_of fs q = None then map_of fs (hook_path gitDir) else map_of fs q)) \<and>
     empty_below fs1 (hook_path gitDir) \<and> empty_below fs1 (hook_path gitDir @ SavedSuffix)"

lemma empty_below_update [simp]: "\<not> under p q \<Longrightarrow> empty_below (AList.update q n fs) p = empty_below fs p"
  by (auto simp: empty_below_iff update_conv')

lemma empty_below_delete: "empty_below fs p \<Longrightarrow> empty_below (AList.delete q fs) p"
  by (auto simp: empty_below_def list_all_iff AList.delete_eq)

lemma hook_Install_exact:
  assumes pl: "hook_place h gitDir gs" and u: "user_hook fs gitDir user"
  obtains fs1 where "hook_Install h gitDir fs = (Inr (), fs1)" and "hooked fs fs1 gitDir"
proof -
  let ?k = "hook_path gitDir" and ?s = "hook_path gitDir @ SavedSuffix"
  have nf: "no_faults h" using pl by (simp add: hook_place_def)
  note ap = hook_apart [OF pl] and hu = u [unfolded user_hook_def]
  have mk: "os_MkdirAll h (Join gitDir ''hooks'') fs = (Inr (), fs)" using hu nf by (simp add: os_MkdirAll_def no_faults_def)
  show thesis
  proof (cases "map_of fs ?s")
    case None
    have e: "empty_below fs ?s" "empty_below fs ?k" using hu by (simp_all add: plain_file_def)
    obtain f where f: "os_Rename h ?k ?s fs = (Inr (), f)"
      "\<And>q. map_of f q = (if q = ?s then Some (Doc user) else if q = ?k then None else map_of fs q)"
      "\<And>p. \<not> under p ?k \<Longrightarrow> \<not> under p ?s \<Longrightarrow> empty_below fs p \<Longrightarrow> empty_below f p"
      using rename_file [OF nf _ None e(2,1) ap(1-3), of user] hu by blast
    have w: "os_WriteFile h ?k hookScript f = (Inr (), AList.update ?k (Doc hookScript) f)"
      using nf f(2) [of ?k] ap(1) by (simp add: os_WriteFile_def no_faults_def)
    have i: "hook_Install h gitDir fs = (Inr (), AList.update ?k (Doc hookScript) f)"
      using hu None by (simp add: hook_Install_def mk no_faults_simps [OF nf] Let_def f(1) w)
    have "hooked fs (AList.update ?k (Doc hookScript) f) gitDir"
      using f(2) f(3) [OF _ _ e(2)] f(3) [OF _ _ e(1)] ap None hu by (auto simp: hooked_def update_conv')
    then show thesis by (rule that [OF i])
  next
    case (Some n)
    have w: "os_WriteFile h ?k hookScript fs = (Inr (), AList.update ?k (Doc hookScript) fs)"
      using nf hu by (simp add: os_WriteFile_def no_faults_def)
    have i: "hook_Install h gitDir fs = (Inr (), AList.update ?k (Doc hookScript) fs)"
      using hu Some by (simp add: hook_Install_def mk no_faults_simps [OF nf] Let_def w)
    have "hooked fs (AList.update ?k (Doc hookScript) fs) gitDir"
      using ap Some hu by (auto simp: hooked_def update_conv' plain_file_def)
    then show thesis by (rule that [OF i])
  qed
qed

lemma hook_Uninstall_exact:
  assumes pl: "hook_place h gitDir gs" and u: "user_hook fs gitDir user" and k: "hooked fs fs1 gitDir"
  obtains fs2 where "hook_Uninstall h gitDir fs1 = (Inr (), fs2)"
    and "\<And>q. map_of fs2 q = (if q = hook_path gitDir then (case map_of fs (hook_path gitDir @ SavedSuffix) of None \<Rightarrow> Some (Doc user) | Some n \<Rightarrow> Some n)
      else if q = hook_path gitDir @ SavedSuffix then None else map_of fs q)"
proof -
  let ?k = "hook_path gitDir" and ?s = "hook_path gitDir @ SavedSuffix"
  have nf: "no_faults h" using pl by (simp add: hook_place_def)
  note ap = hook_apart [OF pl] and hu = u [unfolded user_hook_def]
  have m: "map_of fs1 ?k = Some (Doc hookScript)" using k by (simp add: hooked_def)
  have "map_of fs ?s \<noteq> Some Folder" using hu by (simp add: plain_file_def)
  then obtain c where c: "(case map_of fs ?s of None \<Rightarrow> Some (Doc user) | Some n \<Rightarrow> Some n) = Some (Doc c)" "map_of fs1 ?s = Some (Doc c)"
    using k hu ap by (cases "map_of fs ?s"; cases "the (map_of fs ?s)") (auto simp: hooked_def)
  let ?f = "AList.delete ?k fs1"
  have r: "os_Remove h ?k fs1 = (Inr (), ?f)" using m nf by (simp add: os_Remove_def no_faults_def)
  have e: "empty_below ?f ?s" "empty_below ?f ?k" using k by (simp_all add: hooked_def empty_below_delete)
  have d: "map_of ?f ?s = Some (Doc c)" "map_of ?f ?k = None" using c(2) ap(1) by (simp_all add: AList.delete_conv')
  obtain f where f: "os_Rename h ?s ?k ?f = (Inr (), f)"
    "\<And>q. map_of f q = (if q = ?k then Some (Doc c) else if q = ?s then None else map_of ?f q)"
    by (rule rename_file [OF nf d(1,2) e ap(1) [symmetric] ap(3,2)]) (rule that)
  have "hook_Uninstall h gitDir fs1 = (Inr (), f)"
    using m d(1) by (simp add: hook_Uninstall_def no_faults_simps [OF nf] hookScript_marked r restoreSaved_def f(1))
  moreover have "map_of f q = (if q = ?k then (case map_of fs ?s of None \<Rightarrow> Some (Doc user) | Some n \<Rightarrow> Some n)
      else if q = ?s then None else map_of fs q)" for q
  proof -
    have "map_of fs1 q = map_of fs q" if "q \<noteq> ?k" "q \<noteq> ?s"
      using that k [unfolded hooked_def, THEN conjunct1, rule_format, of q] by (simp only: if_False simp_thms)
    then show ?thesis unfolding c(1) f(2) AList.delete_conv' fun_upd_apply by presburger
  qed
  ultimately show thesis by (rule that)
qed

text \<open>C31: Installing the hook over a hook of the user is idempotent, and removing it puts the user's hook back and leaves every
  other file as it was, if no saved hook was there before. If one was, that old hook is put back and the user's is lost.\<close>

theorem hook_round_trip:
  assumes "hook_place h gitDir gs" and "user_hook fs gitDir user"
  shows "\<exists>fs1 fs2. hook_Install h gitDir fs = (Inr (), fs1) \<and> hook_IsInstalled h fs1 gitDir = Inr True \<and>
    hook_Install h gitDir fs1 = (Inr (), fs1) \<and> hook_Uninstall h gitDir fs1 = (Inr (), fs2) \<and>
    (\<forall>q. map_of fs2 q = (case map_of fs (hook_path gitDir @ SavedSuffix) of
       None \<Rightarrow> map_of fs q
     | Some old \<Rightarrow> if q = hook_path gitDir then Some old else if q = hook_path gitDir @ SavedSuffix then None else map_of fs q))"
proof -
  have nf: "no_faults h" using assms(1) by (simp add: hook_place_def)
  note hu = assms(2) [unfolded user_hook_def] and ap = hook_apart [OF assms(1)]
  obtain fs1 where i: "hook_Install h gitDir fs = (Inr (), fs1)" and k: "hooked fs fs1 gitDir"
    by (rule hook_Install_exact [OF assms])
  obtain fs2 where un: "hook_Uninstall h gitDir fs1 = (Inr (), fs2)"
    "\<And>q. map_of fs2 q = (if q = hook_path gitDir then (case map_of fs (hook_path gitDir @ SavedSuffix) of None \<Rightarrow> Some (Doc user) | Some n \<Rightarrow> Some n)
      else if q = hook_path gitDir @ SavedSuffix then None else map_of fs q)"
    using hook_Uninstall_exact [OF assms k] by metis
  have m: "map_of fs1 (hook_path gitDir) = Some (Doc hookScript)" "map_of fs1 (Join gitDir ''hooks'') = Some Folder"
    using k hu ap by (auto simp: hooked_def)
  have "hook_IsInstalled h fs1 gitDir = Inr True" "hook_Install h gitDir fs1 = (Inr (), fs1)"
    using m nf by (simp_all add: hook_IsInstalled_def hook_Install_def os_MkdirAll_def no_faults_simps hookScript_marked no_faults_def Let_def)
  moreover have "map_of fs2 q = (case map_of fs (hook_path gitDir @ SavedSuffix) of None \<Rightarrow> map_of fs q
     | Some old \<Rightarrow> if q = hook_path gitDir then Some old else if q = hook_path gitDir @ SavedSuffix then None else map_of fs q)" for q
    unfolding un(2) using hu by (auto split: option.splits)
  ultimately show ?thesis using i un(1) by blast
qed

definition hooked_repo :: "(string \<times> node) list \<Rightarrow> files" where
  "hooked_repo saved = (''/g/hooks'', Folder) # (''/g/hooks/pre-commit'', Doc ''mine'') # saved"

theorem hook_round_trip_witness:
  "(\<exists>fs1 fs2. hook_Install sample_host ''/g'' (hooked_repo []) = (Inr (), fs1) \<and> hook_Uninstall sample_host ''/g'' fs1 = (Inr (), fs2) \<and>
      map_of fs2 ''/g/hooks/pre-commit'' = Some (Doc ''mine'')) \<and>
   (\<exists>fs1 fs2. hook_Install sample_host ''/g'' (hooked_repo [(''/g/hooks/pre-commit.bones-saved'', Doc ''older'')]) = (Inr (), fs1) \<and>
      hook_Uninstall sample_host ''/g'' fs1 = (Inr (), fs2) \<and> map_of fs2 ''/g/hooks/pre-commit'' = Some (Doc ''older''))"
proof -
  have pl: "hook_place sample_host ''/g'' [''g'']" by (simp add: hook_place_def) code_simp
  have p: "hook_path ''/g'' = ''/g/hooks/pre-commit''" "Join ''/g'' ''hooks'' = ''/g/hooks''" by code_simp+
  have a: "user_hook (hooked_repo []) ''/g'' ''mine''" unfolding user_hook_def by code_simp
  have b: "user_hook (hooked_repo [(''/g/hooks/pre-commit.bones-saved'', Doc ''older'')]) ''/g'' ''mine''" unfolding user_hook_def by code_simp
  show ?thesis
    using hook_round_trip [OF pl a] hook_round_trip [OF pl b] unfolding p by (fastforce simp: hooked_repo_def SavedSuffix_def)
qed

end
