(* ===== verification/Hub_Life.thy ===== *)
theory Hub_Life
  imports Hub_Guarantees Host_Guarantees
begin

text \<open>
  A hub while it serves: what it has written to its folder and to the registry, and what others read from there.
\<close>

section \<open>Entries of the registry\<close>

lemma Entry_round_trip:
  "decode_Entry (encode_Entry e) = Some e"
  by (simp add: decode_Entry_def encode_Entry_def member_def entry_field_def zero_Entry_def)

text \<open>The place of the entry of a workspace: a name of its own, no file of the older layout, nothing in the way.\<close>

definition entry_place :: "host \<Rightarrow> (string \<Rightarrow> string) \<Rightarrow> string \<Rightarrow> string list \<Rightarrow> string \<Rightarrow> files \<Rightarrow> bool" where
  "entry_place h sha rnd ds cwd fs \<longleftrightarrow>
     registry_home h ds \<and> ds \<noteq> [] \<and> CHR ''/'' \<notin> set (WorkspaceID sha cwd) \<and> CHR ''/'' \<notin> set rnd \<and>
     map_of fs (RegistryDir h) \<in> {None, Some Folder} \<and> plain_file fs (EntryPath h sha cwd) \<and>
     map_of fs (abs_path (ds @ [WorkspaceID sha cwd @ ''.json.tmp.'' @ rnd])) = None \<and>
     empty_below fs (abs_path (ds @ [WorkspaceID sha cwd @ ''.json.tmp.'' @ rnd])) \<and>
     (\<forall>x. has_prefix x (WorkspaceID sha cwd @ ''-'') \<longrightarrow> map_of fs (abs_path (ds @ [x])) = None)"

lemma entry_paths:
  assumes "entry_place h sha rnd ds cwd fs"
  shows "good_part (WorkspaceID sha cwd @ ''.json'')" and "good_part (WorkspaceID sha cwd @ ''.json.tmp.'' @ rnd)"
    and "EntryPath h sha cwd = abs_path (ds @ [WorkspaceID sha cwd @ ''.json''])"
    and "Join (RegistryDir h) (path_Base (EntryPath h sha cwd) @ ''.tmp.'' @ rnd) = abs_path (ds @ [WorkspaceID sha cwd @ ''.json.tmp.'' @ rnd])"
proof -
  have g: "list_all good_part ds" "RegistryDir h = abs_path ds" using assms by (auto simp: entry_place_def registry_home_def)
  show 1: "good_part (WorkspaceID sha cwd @ ''.json'')" and 2: "good_part (WorkspaceID sha cwd @ ''.json.tmp.'' @ rnd)"
    using assms by (auto simp: entry_place_def good_part_def append_eq_Cons_conv)
  show 3: "EntryPath h sha cwd = abs_path (ds @ [WorkspaceID sha cwd @ ''.json''])"
    unfolding EntryPath_def g(2) by (rule Join_good [OF g(1) 1])
  have b: "path_Base (abs_path (ds @ [WorkspaceID sha cwd @ ''.json''])) = WorkspaceID sha cwd @ ''.json''"
    by (rule path_Base_abs) (use g 1 in simp)
  show "Join (RegistryDir h) (path_Base (EntryPath h sha cwd) @ ''.tmp.'' @ rnd) = abs_path (ds @ [WorkspaceID sha cwd @ ''.json.tmp.'' @ rnd])"
    unfolding 3 b g(2) using Join_good [OF g(1) 2] by simp
qed

lemma names_in_map_of:
  assumes "list_all good_part ds" and "ds \<noteq> []" and "x \<in> set (names_in fs (abs_path ds))"
  shows "map_of fs (abs_path (ds @ [x])) \<noteq> None"
proof -
  obtain q n where q: "(q, n) \<in> set fs" "under (abs_path ds) q" "x = drop (length (abs_path ds) + 1) q" "x \<noteq> []" "CHR ''/'' \<notin> set x"
    using assms(3) by (auto simp: names_in_def)
  then have "q = abs_path ds @ CHR ''/'' # x" by (auto elim!: underE)
  moreover have "abs_path (ds @ [x]) = abs_path ds @ CHR ''/'' # x" using assms(2) by (simp add: abs_path_snoc)
  ultimately show ?thesis using q(1) by (metis map_of_eq_None_iff fst_conv image_eqI)
qed

lemma registry_Write_exact:
  assumes ep: "entry_place h sha rnd ds (en_Cwd e) fs"
  obtains fs' where "registry_Write h sha rnd e fs = (Inr (), fs')"
    and "\<And>q. map_of fs' q = (if q = EntryPath h sha (en_Cwd e) then Some (Doc (ho_render h (encode_Entry e)))
      else if q = RegistryDir h then Some Folder else map_of fs q)"
proof -
  define i dst tmp c where "i = WorkspaceID sha (en_Cwd e)" and "dst = EntryPath h sha (en_Cwd e)"
    and "tmp = abs_path (ds @ [WorkspaceID sha (en_Cwd e) @ ''.json.tmp.'' @ rnd])" and "c = ho_render h (encode_Entry e)"
  note df = this
  note p = entry_paths [OF ep, folded df] and e = ep [unfolded entry_place_def, folded df]
  have g: "list_all good_part ds" "RegistryDir h = abs_path ds" "no_faults h" using e by (auto simp: registry_home_def)
  have gd: "list_all good_part (ds @ [i @ ''.json''])" "list_all good_part (ds @ [i @ ''.json.tmp.'' @ rnd])" using g p(1,2) by simp_all
  have tmp: "tmp = abs_path (ds @ [i @ ''.json.tmp.'' @ rnd])" by (simp add: df)
  have ne: "tmp \<noteq> dst" "tmp \<noteq> RegistryDir h" "dst \<noteq> RegistryDir h"
    unfolding p(3) g(2) tmp using abs_path_inj [OF gd] abs_path_inj [OF gd(2) g(1)] abs_path_inj [OF gd(1) g(1)] by auto
  have un: "\<not> under tmp dst" "\<not> under dst tmp" "\<not> under dst (RegistryDir h)" "\<not> under tmp (RegistryDir h)"
    unfolding p(3) g(2) tmp using paths_under [OF gd] paths_under [OF gd(2,1)] paths_under [of ds "[i @ ''.json'']" "[]"]
      paths_under [of ds "[i @ ''.json.tmp.'' @ rnd]" "[]"] gd g(1) by auto
  have f: "plain_file fs dst" "map_of fs tmp = None" "empty_below fs tmp" "map_of fs (RegistryDir h) \<in> {None, Some Folder}" using e by simp_all
  obtain fs1 where mk: "os_MkdirAll h (RegistryDir h) fs = (Inr (), fs1)"
    and m1: "\<And>q. map_of fs1 q = (if q = RegistryDir h then Some Folder else map_of fs q)"
    and e1: "empty_below fs1 tmp" "empty_below fs1 dst"
    using f g(3) un by (cases "map_of fs (RegistryDir h)") (auto simp: os_MkdirAll_def no_faults_def update_conv' plain_file_def)
  define fs2 where "fs2 = AList.update tmp (Doc c) fs1"
  have w: "os_WriteFile h tmp c fs1 = (Inr (), fs2)"
    using f ne(2) g(3) by (simp add: os_WriteFile_def no_faults_def m1 fs2_def)
  have m2: "map_of fs2 tmp = Some (Doc c)" "map_of fs2 dst \<noteq> Some Folder"
    using f ne by (auto simp: fs2_def update_conv' m1 plain_file_def)
  have e2: "empty_below fs2 tmp" "empty_below fs2 dst" using e1 un by (simp_all add: fs2_def)
  obtain fs3 where r: "os_Rename h tmp dst fs2 = (Inr (), fs3)"
    and m3: "\<And>q. map_of fs3 q = (if q = dst then Some (Doc c) else if q = tmp then None else map_of fs2 q)"
    by (rule rename_over [OF g(3) m2 e2 ne(1) un(1,2)]) (rule that)
  have rm: "snd (os_Remove h tmp fs3) = fs3" using m3 [of tmp] ne g(3) by (simp add: os_Remove_def no_faults_def)
  have "registry_Write h sha rnd e fs = (Inr (), fs3)"
    by (simp only: registry_Write_def mk Let_def prod.case sum.case df(2,4) [symmetric] p(4) w r rm)
  moreover have "map_of fs3 q = (if q = dst then Some (Doc c) else if q = RegistryDir h then Some Folder else map_of fs q)" for q
  proof (cases "q = tmp")
    case True
    then show ?thesis using f ne by (simp add: m3)
  next
    case False
    then show ?thesis by (simp add: m3 fs2_def update_conv' m1)
  qed
  ultimately show thesis unfolding df by (rule that)
qed

lemma registry_Read_exact:
  assumes ep: "entry_place h sha rnd ds cwd fs" and cwd: "en_Cwd e = cwd"
    and parse: "ho_parse h (ho_render h (encode_Entry e)) = Some (encode_Entry e)"
    and alive: "pidAlive (ho_alive h) (en_HubPID e)"
    and m: "\<And>q. map_of fs' q = (if q = EntryPath h sha cwd then Some (Doc (ho_render h (encode_Entry e)))
      else if q = RegistryDir h then Some Folder else map_of fs q)"
    and root: "map_of fs' cwd \<noteq> None"
  shows "registry_Read h sha cwd fs' = (Inr e, fs')"
proof -
  let ?id = "WorkspaceID sha cwd" and ?dst = "EntryPath h sha cwd"
  note p = entry_paths [OF ep] and e = ep [unfolded entry_place_def]
  have g: "list_all good_part ds" "RegistryDir h = abs_path ds" "no_faults h" "ds \<noteq> []" using e by (auto simp: registry_home_def)
  have "has_prefix x (?id @ ''-'') \<Longrightarrow> x \<notin> set (names_in fs' (abs_path ds))" for x
  proof
    assume a: "has_prefix x (?id @ ''-'')" "x \<in> set (names_in fs' (abs_path ds))"
    have s: "map_of fs' (abs_path (ds @ [x])) \<noteq> None" by (rule names_in_map_of [OF g(1,4) a(2)])
    have "x \<noteq> [] \<and> CHR ''/'' \<notin> set x" using a(2) by (auto simp: names_in_def)
    have "abs_path (ds @ [x]) = abs_path ds @ CHR ''/'' # x" "abs_path (ds @ [?id @ ''.json'']) = abs_path ds @ CHR ''/'' # ?id @ ''.json''"
      using g(4) by (simp_all add: abs_path_snoc)
    moreover have "x \<noteq> ?id @ ''.json''" using a(1) by (auto simp: has_prefix_iff)
    ultimately have "abs_path (ds @ [x]) \<noteq> ?dst" "abs_path (ds @ [x]) \<noteq> RegistryDir h" unfolding p(3) g(2) by simp_all
    then show False using s m e a(1) by simp
  qed
  then have n: "filter (\<lambda>x. has_prefix x (?id @ ''-'') \<and> has_suffix (drop (length (?id @ ''-'')) x) ''.json'') (names_in fs' (abs_path ds)) = []"
    unfolding filter_empty_conv by blast
  have gl: "glob h fs' (RegistryDir h) (?id @ ''-'') ''.json'' = []"
    unfolding glob_def g(2) n by simp
  have d: "map_of fs' ?dst = Some (Doc (ho_render h (encode_Entry e)))" by (simp add: m)
  have mp: "matchingPaths h sha fs' cwd = Inr [?dst]" by (simp add: matchingPaths_def gl d no_faults_simps [OF g(3)])
  have rd: "readEntryAtPath h fs' ?dst = Inr e"
    by (simp add: readEntryAtPath_def no_faults_simps [OF g(3)] d parse Entry_round_trip)
  have st: "\<not> isStaleEntry h fs' e"
    using root alive by (auto simp: isStaleEntry_def no_faults_simps [OF g(3)] cwd split: option.splits)
  show ?thesis
    by (simp add: registry_Read_def mp rd st better_entry_def migrateToCanonical_def remove_quietly_def)
qed

lemma under_trans: "under a b \<Longrightarrow> under b c \<Longrightarrow> under a c"
  by (auto elim!: underE)

lemma entry_place_same:
  assumes "entry_place h sha rnd ds cwd fs" and "\<And>q. q = RegistryDir h \<or> under (RegistryDir h) q \<Longrightarrow> map_of fs' q = map_of fs q"
  shows "entry_place h sha rnd ds cwd fs'"
proof -
  note p = entry_paths [OF assms(1)] and e = assms(1) [unfolded entry_place_def]
  have g: "RegistryDir h = abs_path ds" "ds \<noteq> []" using e by (auto simp: registry_home_def)
  have u: "under (RegistryDir h) (abs_path (ds @ [x]))" for x using g by (simp add: abs_path_snoc)
  have same: "map_of fs' (abs_path (ds @ [x])) = map_of fs (abs_path (ds @ [x]))" for x using assms(2) u by blast
  have below: "empty_below fs' (abs_path (ds @ [x])) = empty_below fs (abs_path (ds @ [x]))" for x
    unfolding empty_below_iff using assms(2) under_trans [OF u] by metis
  show ?thesis using e assms(2) [of "RegistryDir h"] unfolding entry_place_def plain_file_def p(3) same below by simp
qed

section \<open>A hub that serves\<close>

text \<open>The folders of the hub, the repository and the registry are apart.\<close>

definition hub_apart :: "host \<Rightarrow> paths \<Rightarrow> bool" where
  "hub_apart h p \<longleftrightarrow>
     (\<forall>q x. (q \<in> {RegistryDir h, pa_root p, pa_fossilURL p, pa_natsURL p} \<or> under (RegistryDir h) q) \<and>
        x \<in> set (pa_hubPid p # pa_coordStore p # repo_files p) \<longrightarrow> q \<noteq> x \<and> \<not> under x q) \<and>
     (\<forall>q \<in> {pa_root p, pa_fossilURL p, pa_natsURL p, pa_hubPid p}. q \<noteq> RegistryDir h \<and> \<not> under (RegistryDir h) q) \<and>
     \<not> under (pa_coordStore p) (pa_hubPid p) \<and> pa_hubPid p \<notin> set (repo_files p)"

text \<open>The servers come up, and write only the repository and the store.\<close>

definition server_up :: "'s hub_env \<Rightarrow> paths \<Rightarrow> hub_opts \<Rightarrow> bool" where
  "server_up env p oc \<longleftrightarrow>
     (\<forall>b fs. \<exists>fs1. openAndSeedHub env p oc b fs = (Inr (), fs1) \<and>
        (\<forall>q. q \<notin> set (repo_files p) \<and> \<not> under (pa_coordStore p) q \<longrightarrow> map_of fs1 q = map_of fs q))"

definition recovered :: "'s hub_env \<Rightarrow> 's hub_world \<Rightarrow> 's" where
  "recovered env w = snd (runTaskRecovery (hv_js env) (hv_dial env) (hb_kv w))"

lemma pid_line: "0 < n \<Longrightarrow> n < 2 ^ 63 \<Longrightarrow> Atoi (TrimSpace (signed_itoa n @ nl)) = Some n"
  using Atoi_itoa [of "nat n"] TrimSpace_line [OF itoa_nonempty itoa_all_digits, of "nat n"] by (simp add: signed_itoa_def nat_less_iff)

lemma bring_up_files:
  assumes np: "newPaths (hv_host env) fs0 root = Inr p" and pl: "lock_place (hv_host env) (pa_root p) cs"
    and hf: "hub_folder p (hb_files w)" and ap: "hub_apart (hv_host env) p" and up: "server_up env p oc"
    and ep: "entry_place (hv_host env) (hv_sha env) (hv_rnd env) ds (pa_root p) (hb_files w)"
    and e: "e = hub_entry env p oc (hv_clock env (recovered env w))"
  obtains w6 fs5 where "runForeground env p oc w =
      (if hv_drained env then Inr () else Inl (EMsg ''hub: drain timeout exceeded''),
       snd (on_files (registry_Remove (hv_host env) (hv_sha env) (pa_root p))
         (upd_files (\<lambda>f. snd (os_Remove (hv_host env) (pa_hubPid p) f)) (hv_serving env w6))))"
    and "hb_kv w6 = recovered env w"
    and "map_of (hb_files w6) (pa_hubPid p) = Some (Doc (signed_itoa (hv_pid env) @ nl))"
    and "\<And>q. q \<in> {pa_root p, pa_fossilURL p, pa_natsURL p} \<Longrightarrow> map_of (hb_files w6) q = map_of (hb_files w) q"
    and "entry_place (hv_host env) (hv_sha env) (hv_rnd env) ds (pa_root p) fs5"
    and "\<And>q. map_of (hb_files w6) q = (if q = EntryPath (hv_host env) (hv_sha env) (pa_root p) then Some (Doc (ho_render (hv_host env) (encode_Entry e)))
      else if q = RegistryDir (hv_host env) then Some Folder else map_of fs5 q)"
proof -
  let ?h = "hv_host env"
  note nf = hub_paths(2) [OF np pl] and d = hub_paths_distinct [OF np pl]
  define far where "far q \<longleftrightarrow> q \<in> {RegistryDir ?h, pa_root p, pa_fossilURL p, pa_natsURL p} \<or> under (RegistryDir ?h) q" for q
  have ap1: "q \<noteq> x \<and> \<not> under x q" if "far q" "x \<in> set (pa_hubPid p # pa_coordStore p # repo_files p)" for q x
    using ap that unfolding hub_apart_def far_def by blast
  have ap2: "\<not> under (pa_coordStore p) (pa_hubPid p)" "pa_hubPid p \<notin> set (repo_files p)"
    and ap3: "\<And>q. q \<in> {pa_root p, pa_fossilURL p, pa_natsURL p, pa_hubPid p} \<Longrightarrow> q \<noteq> RegistryDir ?h \<and> \<not> under (RegistryDir ?h) q"
    using ap [unfolded hub_apart_def, THEN conjunct2, THEN conjunct2] ap [unfolded hub_apart_def, THEN conjunct2, THEN conjunct1]
    by blast+
  define w1 where "w1 = (if \<not> pidIsLive ?h (hb_files w) (pa_hubPid p) then upd_files (removeRepoAndSidecars ?h p) w else w)"
  have w1: "map_of (hb_files w1) q = map_of (hb_files w) q" if "far q" for q
    using ap1 [OF that] by (auto simp: w1_def map_of_removeRepo [OF nf])
  have hf1: "hub_folder p (hb_files w1)" using hf by (auto simp: w1_def hub_folder_def map_of_removeRepo [OF nf])
  obtain fs2 where mk: "os_MkdirAll ?h (pa_coordStore p) (hb_files w1) = (Inr (), fs2)"
    and k2: "\<And>q. q \<noteq> pa_coordStore p \<Longrightarrow> map_of fs2 q = map_of (hb_files w1) q"
    using hf1 nf by (cases "map_of (hb_files w1) (pa_coordStore p)") (auto simp: os_MkdirAll_def hub_folder_def no_faults_def update_conv')
  have p2: "map_of fs2 (pa_hubPid p) \<noteq> Some Folder" using hf1 k2 [of "pa_hubPid p"] d by (auto simp: hub_folder_def)
  define fs3 where "fs3 = AList.update (pa_hubPid p) (Doc (signed_itoa (hv_pid env) @ nl)) fs2"
  have wp: "hub_writePid ?h (pa_hubPid p) (hv_pid env) fs2 = (Inr (), fs3)"
    using p2 nf by (simp add: hub_writePid_def os_WriteFile_def no_faults_def fs3_def)
  define fresh where "fresh = (os_Stat ?h fs3 (pa_hubRepo p) = Inl (EOS NotExist))"
  obtain fs4 where o4: "openAndSeedHub env p oc fresh fs3 = (Inr (), fs4)"
    and k4: "\<And>q. q \<notin> set (repo_files p) \<Longrightarrow> \<not> under (pa_coordStore p) q \<Longrightarrow> map_of fs4 q = map_of fs3 q"
    using up unfolding server_up_def by blast
  have pid4: "map_of fs4 (pa_hubPid p) = Some (Doc (signed_itoa (hv_pid env) @ nl))" using k4 ap2 by (simp add: fs3_def update_conv')
  have far4: "map_of fs4 q = map_of (hb_files w) q" if "far q" for q
  proof -
    note a = ap1 [OF that]
    have "map_of fs4 q = map_of fs3 q" using k4 a by auto
    also have "\<dots> = map_of fs2 q" using a by (simp add: fs3_def update_conv')
    also have "\<dots> = map_of (hb_files w) q" using k2 a w1 [OF that] by simp
    finally show ?thesis .
  qed
  have ep4: "entry_place ?h (hv_sha env) (hv_rnd env) ds (pa_root p) fs4"
    by (rule entry_place_same [OF ep]) (use far4 in \<open>auto simp: far_def\<close>)
  have cwd: "en_Cwd e = pa_root p" by (simp add: e hub_entry_def)
  obtain fs5 where rw: "registry_Write ?h (hv_sha env) (hv_rnd env) e fs4 = (Inr (), fs5)"
    and m5: "\<And>q. map_of fs5 q = (if q = EntryPath ?h (hv_sha env) (pa_root p) then Some (Doc (ho_render ?h (encode_Entry e)))
      else if q = RegistryDir ?h then Some Folder else map_of fs4 q)"
    by (rule registry_Write_exact [OF ep4 [folded cwd], unfolded cwd]) (rule that)
  have en: "under (RegistryDir ?h) (EntryPath ?h (hv_sha env) (pa_root p))"
    using ep4 unfolding entry_paths(3) [OF ep4] by (auto simp: entry_place_def registry_home_def abs_path_snoc)
  have other: "map_of fs5 q = map_of fs4 q" if "q \<in> {pa_root p, pa_fossilURL p, pa_natsURL p, pa_hubPid p}" for q
    using ap3 [OF that] en unfolding m5 by auto
  define w6 where "w6 = (upd_files (\<lambda>_. fs5) w1)\<lparr>hb_kv := recovered env w\<rparr>"
  have kv: "hb_kv w1 = hb_kv w" by (simp add: w1_def)
  have f6: "hb_files w6 = fs5" by (simp add: w6_def upd_files_def)
  show thesis
  proof (rule that [of w6 fs4])
    have s2: "on_files (os_MkdirAll ?h (pa_coordStore p)) w1 = (Inr (), upd_files (\<lambda>_. fs2) w1)" by (rule on_files_Inr [where f = "os_MkdirAll ?h (pa_coordStore p)", OF mk])
    have s3: "on_files (hub_writePid ?h (pa_hubPid p) (hv_pid env)) (upd_files (\<lambda>_. fs2) w1) = (Inr (), upd_files (\<lambda>_. fs3) w1)"
      using on_files_Inr [of "hub_writePid ?h (pa_hubPid p) (hv_pid env)" "upd_files (\<lambda>_. fs2) w1"] wp by simp
    have s4: "on_files (openAndSeedHub env p oc fresh) (upd_files (\<lambda>_. fs3) w1) = (Inr (), upd_files (\<lambda>_. fs4) w1)"
      using on_files_Inr [of "openAndSeedHub env p oc fresh" "upd_files (\<lambda>_. fs3) w1"] o4 by simp
    have r5: "snd (runTaskRecovery (hv_js env) (hv_dial env) (hb_kv w1)) = recovered env w" by (simp add: recovered_def kv)
    have s6: "snd (on_files (registry_Write ?h (hv_sha env) (hv_rnd env) e) ((upd_files (\<lambda>_. fs4) w1)\<lparr>hb_kv := recovered env w\<rparr>)) = w6"
      using rw by (simp add: on_files_def w6_def upd_files_def)
    show "runForeground env p oc w =
      (if hv_drained env then Inr () else Inl (EMsg ''hub: drain timeout exceeded''),
       snd (on_files (registry_Remove ?h (hv_sha env) (pa_root p))
         (upd_files (\<lambda>f. snd (os_Remove ?h (pa_hubPid p) f)) (hv_serving env w6))))"
      using s2 s3 s4 s6 unfolding runForeground_def Let_def w1_def [symmetric]
      by (simp add: fresh_def [symmetric] r5 e [symmetric])
    show "hb_kv w6 = recovered env w" by (simp add: w6_def)
    show "map_of (hb_files w6) (pa_hubPid p) = Some (Doc (signed_itoa (hv_pid env) @ nl))" unfolding f6 using other [of "pa_hubPid p"] pid4 by simp
    show "map_of (hb_files w6) q = map_of (hb_files w) q" if "q \<in> {pa_root p, pa_fossilURL p, pa_natsURL p}" for q
      unfolding f6 using other [of q] far4 [of q] that by (auto simp: far_def)
    show "entry_place ?h (hv_sha env) (hv_rnd env) ds (pa_root p) fs4" by (rule ep4)
    show "map_of (hb_files w6) q = (if q = EntryPath ?h (hv_sha env) (pa_root p) then Some (Doc (ho_render ?h (encode_Entry e)))
      else if q = RegistryDir ?h then Some Folder else map_of fs4 q)" for q
      unfolding f6 by (rule m5)
  qed
qed

text \<open>C24: A hub whose servers come up can be found while it serves: its pid file names its process, and a reader of the registry,
  also the parent that waits for its child, gets the entry with this process and with the addresses that are recorded in the
  folder. When the context ends the pid file and the entry are removed.\<close>

theorem hub_discoverable:
  assumes "newPaths (hv_host env) (hb_files w) root = Inr p" and "lock_place (hv_host env) (pa_root p) cs"
    and "hub_folder p (hb_files w)" and "hub_apart (hv_host env) p" and "server_up env p oc"
    and "entry_place (hv_host env) (hv_sha env) (hv_rnd env) ds (pa_root p) (hb_files w)"
    and "e = hub_entry env p oc (hv_clock env (recovered env w))"
    and "ho_parse (hv_host env) (ho_render (hv_host env) (encode_Entry e)) = Some (encode_Entry e)"
    and "0 < hv_pid env" and "hv_pid env < 2 ^ 63" and "ho_alive (hv_host env) (hv_pid env)"
    and "0 \<le> ho_repoPort oc" and "map_of (hb_files w) (pa_fossilURL p) = Some (Doc (fossil_addr (ho_repoPort oc) @ nl))"
    and "0 \<le> ho_coordPort oc" and "map_of (hb_files w) (pa_natsURL p) = Some (Doc (nats_addr (ho_coordPort oc) @ nl))"
  shows "\<exists>w6. runForeground env p oc w =
      (if hv_drained env then Inr () else Inl (EMsg ''hub: drain timeout exceeded''),
       snd (on_files (registry_Remove (hv_host env) (hv_sha env) (pa_root p))
         (upd_files (\<lambda>f. snd (os_Remove (hv_host env) (pa_hubPid p) f)) (hv_serving env w6)))) \<and>
    IsRunning (hv_host env) (hb_files w6) root = (hv_pid env, True) \<and>
    registry_Read (hv_host env) (hv_sha env) (pa_root p) (hb_files w6) = (Inr e, hb_files w6) \<and>
    waitForRegistry (hv_host env) (hv_sha env) (pa_root p) (hv_pid env) [id] (hb_files w6) = (Inr (), hb_files w6) \<and>
    en_HubPID e = hv_pid env \<and> en_HubURL e = FossilURL (hv_host env) (hb_files w6) root \<and>
    en_NATSURL e = NATSURL (hv_host env) (hb_files w6) root"
proof -
  let ?h = "hv_host env"
  note nf = hub_paths(2) [OF assms(1,2)]
  obtain w6 fs5 where run: "runForeground env p oc w =
      (if hv_drained env then Inr () else Inl (EMsg ''hub: drain timeout exceeded''),
       snd (on_files (registry_Remove ?h (hv_sha env) (pa_root p))
         (upd_files (\<lambda>f. snd (os_Remove ?h (pa_hubPid p) f)) (hv_serving env w6))))"
    and pid: "map_of (hb_files w6) (pa_hubPid p) = Some (Doc (signed_itoa (hv_pid env) @ nl))"
    and same: "\<And>q. q \<in> {pa_root p, pa_fossilURL p, pa_natsURL p} \<Longrightarrow> map_of (hb_files w6) q = map_of (hb_files w) q"
    and ep: "entry_place ?h (hv_sha env) (hv_rnd env) ds (pa_root p) fs5"
    and m: "\<And>q. map_of (hb_files w6) q = (if q = EntryPath ?h (hv_sha env) (pa_root p) then Some (Doc (ho_render ?h (encode_Entry e)))
      else if q = RegistryDir ?h then Some Folder else map_of fs5 q)"
    by (rule bring_up_files [OF assms(1-7)]) (rule that)
  have root: "ho_abs ?h root = Inr (pa_root p)" "map_of (hb_files w) (pa_root p) = Some Folder"
    using assms(1) by (auto simp: newPaths_def Let_def no_faults_simps [OF nf] split: sum.splits node.splits option.splits)
  have root6: "map_of (hb_files w6) (pa_root p) = Some Folder" using same root by simp
  have np: "newPaths ?h (hb_files w6) root = Inr p"
    using assms(1) root root6 by (simp add: newPaths_def no_faults_simps [OF nf])
  have url: "map_of (hb_files w6) (pa_fossilURL p) = Some (Doc (fossil_addr (ho_repoPort oc) @ nl))"
    "map_of (hb_files w6) (pa_natsURL p) = Some (Doc (nats_addr (ho_coordPort oc) @ nl))"
    using same assms(13,15) by simp_all
  have addrs: "FossilURL ?h (hb_files w6) root = fossil_addr (ho_repoPort oc)" "NATSURL ?h (hb_files w6) root = nats_addr (ho_coordPort oc)"
    unfolding FossilURL_def NATSURL_def np sum.case read_addr [OF nf url(1)] read_addr [OF nf url(2)]
    by (rule addr_lines(1) [OF assms(12)], rule addr_lines(2) [OF assms(14)])
  have run6: "IsRunning ?h (hb_files w6) root = (hv_pid env, True)"
    using assms(9,11) by (simp add: IsRunning_def np hub_readPid_def read_pid_def no_faults_simps [OF nf] pid pid_line [OF assms(9,10)] pidIntIsLive_def)
  have en: "en_Cwd e = pa_root p" "en_HubPID e = hv_pid env" "en_HubURL e = fossil_addr (ho_repoPort oc)" "en_NATSURL e = nats_addr (ho_coordPort oc)"
    by (simp_all add: assms(7) hub_entry_def)
  have alive: "pidAlive (ho_alive ?h) (en_HubPID e)" using assms(9,11) en(2) by (simp add: pidAlive_def)
  have rd: "registry_Read ?h (hv_sha env) (pa_root p) (hb_files w6) = (Inr e, hb_files w6)"
    by (rule registry_Read_exact [OF ep en(1) assms(8) alive m]) (simp add: root6)
  have "waitForRegistry ?h (hv_sha env) (pa_root p) (hv_pid env) [id] (hb_files w6) = (Inr (), hb_files w6)"
    by (simp add: rd en(2))
  with run run6 rd en addrs show ?thesis by metis
qed

section \<open>Sample\<close>

definition serving_host :: host where
  "serving_host = \<lparr>ho_BonesDir = [], ho_Home = ''/h'', ho_abs = Inr, ho_alive = (\<lambda>p. p = 8), ho_fault = (\<lambda>_ _. None),
     ho_parse = (\<lambda>x. if x = ''E'' then Some (encode_Entry
        \<lparr>en_Cwd = ''/w'', en_Name = ''w'', en_HubURL = ''http://127.0.0.1:80'', en_NATSURL = ''nats://127.0.0.1:81'', en_HubPID = 8, en_StartedAt = 5\<rparr>) else None),
     ho_render = (\<lambda>_. ''E''), ho_linux = True\<rparr>"

definition serving_env :: "mem hub_env" where
  "serving_env = hub_sample\<lparr>hv_host := serving_host, hv_clock := \<lambda>_. 5, hv_git := Some (Inr (''f'' @ nl)), hv_NewHub := \<lambda>_ f. (Inr (), f)\<rparr>"

definition resolved_files :: files where
  "resolved_files = [(''/w'', Folder), (''/w/.bones'', Folder), (''/w/.bones/hub-fossil-url'', Doc (''http://127.0.0.1:80'' @ nl)),
     (''/w/.bones/hub-nats-url'', Doc (''nats://127.0.0.1:81'' @ nl))]"

lemma serving_simps [simp]: "hv_host serving_env = serving_host" "hv_sha serving_env = (\<lambda>_. ''0'')" "hv_rnd serving_env = ''1''"
  "hv_pid serving_env = 8" "ho_alive serving_host 8" "hv_clock serving_env s = 5" "hv_drained serving_env"
  by (simp_all add: serving_env_def serving_host_def hub_sample_def)

theorem hub_discoverable_witness:
  "\<exists>w6 :: mem hub_world. fst (runForeground serving_env sample_paths given_ports (hub_sample_world resolved_files)) = Inr () \<and>
    IsRunning serving_host (hb_files w6) ''/w'' = (8, True) \<and> FossilURL serving_host (hb_files w6) ''/w'' = ''http://127.0.0.1:80''"
proof -
  let ?e = "hub_entry serving_env sample_paths given_ports (hv_clock serving_env (recovered serving_env (hub_sample_world resolved_files)))"
  have f: "hb_files (hub_sample_world resolved_files) = resolved_files" by (simp add: hub_sample_world_def)
  have np: "newPaths serving_host resolved_files ''/w'' = Inr sample_paths" by code_simp
  have nf: "no_faults serving_host" by (simp add: no_faults_def serving_host_def)
  have pl: "lock_place serving_host (pa_root sample_paths) [''w'', ''.bones'']"
  proof -
    have "bones_dir serving_host ''/w'' = abs_path [''w'', ''.bones'']" "list_all good_part [''w'', ''.bones'']" by code_simp+
    then show ?thesis using nf by (simp add: lock_place_def sample_paths_def)
  qed
  have hf: "hub_folder sample_paths resolved_files" unfolding hub_folder_def by code_simp
  have rd: "RegistryDir serving_host = ''/h/.bones/workspaces''" by code_simp
  have ap: "hub_apart serving_host sample_paths"
    unfolding hub_apart_def rd by (auto simp: sample_paths_def repo_files_def under_def has_prefix_iff)
  have up: "server_up serving_env sample_paths given_ports"
  proof -
    have g: "gitTrackedFiles (hv_git serving_env) = Inr [''f'']" by code_simp
    have coll: "\<exists>out. collectSeedFiles serving_host r x fs (pa_root sample_paths) [''f''] = Inr out" for r x fs
      by (auto simp: Let_def no_faults_simps [OF nf] split: sum.splits option.splits node.splits)
    have fld: "hv_NewHub serving_env = (\<lambda>_ f. (Inr (), f))" "hv_gitSHA serving_env = Inr ''abc''" "hv_Commit serving_env = (\<lambda>_ _. Inr ())"
      by (simp_all add: serving_env_def hub_sample_def)
    have "openAndSeedHub serving_env sample_paths given_ports b fs = (Inr (), fs)" for b fs
    proof -
      obtain out where "collectSeedFiles serving_host (hv_regular serving_env) (hv_exec serving_env) fs (pa_root sample_paths) [''f''] = Inr out"
        using coll by blast
      then show ?thesis using g fld by (simp add: openAndSeedHub_def seedHubRepo_def del: collectSeedFiles.simps)
    qed
    then show ?thesis by (simp add: server_up_def)
  qed
  have ep: "entry_place serving_host (hv_sha serving_env) (hv_rnd serving_env) [''h'', ''.bones'', ''workspaces''] (pa_root sample_paths) resolved_files"
  proof -
    have i: "WorkspaceID (\<lambda>_. ''0'') (pa_root sample_paths) = ''0''" "EntryPath serving_host (\<lambda>_. ''0'') (pa_root sample_paths) = ''/h/.bones/workspaces/0.json''"
      by code_simp+
    have a: "abs_path ([''h'', ''.bones'', ''workspaces''] @ [x]) = ''/h/.bones/workspaces/'' @ x" for x
      by (simp add: abs_path_def)
    have h: "list_all good_part [''h'', ''.bones'', ''workspaces'']" "abs_path [''h'', ''.bones'', ''workspaces''] = ''/h/.bones/workspaces''" by code_simp+
    show ?thesis
      unfolding entry_place_def registry_home_def serving_simps i a rd plain_file_def
      using nf h(1) by (simp add: h(2) resolved_files_def empty_below_def under_def has_prefix_def)
  qed
  have s: "signed_itoa 80 = ''80''" "signed_itoa 81 = ''81''" "path_Base ''/w'' = ''w''" by code_simp+
  have e: "?e = \<lparr>en_Cwd = ''/w'', en_Name = ''w'', en_HubURL = ''http://127.0.0.1:80'', en_NATSURL = ''nats://127.0.0.1:81'', en_HubPID = 8, en_StartedAt = 5\<rparr>"
    by (simp add: hub_entry_def s given_ports_def)
  have parse: "ho_parse serving_host (ho_render serving_host (encode_Entry ?e)) = Some (encode_Entry ?e)"
    unfolding e by (simp add: serving_host_def)
  have op: "0 \<le> ho_repoPort given_ports" "0 \<le> ho_coordPort given_ports" by (simp_all add: given_ports_def)
  have u: "map_of resolved_files (pa_fossilURL sample_paths) = Some (Doc (fossil_addr (ho_repoPort given_ports) @ nl))"
    "map_of resolved_files (pa_natsURL sample_paths) = Some (Doc (nats_addr (ho_coordPort given_ports) @ nl))"
    by (simp_all add: resolved_files_def sample_paths_def given_ports_def s)
  have pid: "0 < hv_pid serving_env" "hv_pid serving_env < 2 ^ 63" "ho_alive serving_host (hv_pid serving_env)" by simp_all
  have dr: "hv_drained serving_env = True" by simp
  obtain w6 where w6: "runForeground serving_env sample_paths given_ports (hub_sample_world resolved_files) =
      (Inr (), snd (on_files (registry_Remove serving_host (hv_sha serving_env) (pa_root sample_paths))
         (upd_files (\<lambda>f. snd (os_Remove serving_host (pa_hubPid sample_paths) f)) (hv_serving serving_env w6))))"
    "IsRunning serving_host (hb_files w6) ''/w'' = (hv_pid serving_env, True)" "en_HubURL ?e = FossilURL serving_host (hb_files w6) ''/w''"
    using hub_discoverable [where env = serving_env and w = "hub_sample_world resolved_files", unfolded serving_simps(1) f,
        OF np pl hf ap up ep refl parse pid op(1) u(1) op(2) u(2)] unfolding dr if_True by blast
  have "fst (runForeground serving_env sample_paths given_ports (hub_sample_world resolved_files)) = Inr ()" unfolding w6(1) by simp
  moreover have "FossilURL serving_host (hb_files w6) ''/w'' = ''http://127.0.0.1:80''" using w6(3) unfolding e by simp
  ultimately show ?thesis using w6(2) by auto
qed

end
