(* ===== verification/Swarm_Commands.thy ===== *)
theory Swarm_Commands
  imports Hub Task_Commands
begin

text \<open>
  The commands \<^verbatim>\<open>bones swarm join\<close>, \<^verbatim>\<open>commit\<close>, \<^verbatim>\<open>close\<close>, \<^verbatim>\<open>reap\<close>, \<^verbatim>\<open>fan-in\<close> and \<^verbatim>\<open>cwd\<close>: the flags, the inference of the
  slot and of the hub's address, the files of a commit, and the leases around them. The world of a command is the world of the
  lease and the files of the host, where the addresses of the hub and the logs of the slots are. What \<^verbatim>\<open>workspace.Join\<close> answers is
  an argument, and what is printed is left out.
\<close>

section \<open>The world of a command\<close>

record 's verb_env =
  ve_lease :: "'s lease_env"
  ve_chat :: "'s chat_env"
  ve_host :: host
  ve_text :: "json \<Rightarrow> string"
  ve_errText :: "err \<Rightarrow> string"
  ve_cwd :: "err + string"
  ve_join :: "err + Info"
  ve_readFile :: "string \<Rightarrow> err option"

record 's verb_world =
  vw_lease :: "'s world"
  vw_files :: files

definition on_lease :: "('s world \<Rightarrow> 'a \<times> 's world) \<Rightarrow> 's verb_world \<Rightarrow> 'a \<times> 's verb_world" where
  "on_lease f w = (case f (vw_lease w) of (r, x) \<Rightarrow> (r, w\<lparr>vw_lease := x\<rparr>))"

abbreviation verb_kv :: "('s \<Rightarrow> 'a \<times> 's) \<Rightarrow> 's verb_world \<Rightarrow> 'a \<times> 's verb_world" where
  "verb_kv f \<equiv> on_lease (on_kv f)"

text \<open>The time of an entry is the clock's.\<close>

definition verb_now :: "'s verb_env \<Rightarrow> 's verb_world \<Rightarrow> time_ns" where
  "verb_now env w = le_clock (ve_lease env) (w_kv (vw_lease w))"

definition appendSlotEvent ::
  "'s verb_env \<Rightarrow> Info \<Rightarrow> string \<Rightarrow> string \<Rightarrow> (string \<times> json) list \<Rightarrow> 's verb_world \<Rightarrow> 's verb_world" where
  "appendSlotEvent env info slot event kvs w =
     (let dir = Join (Join (bones_dir (ve_host env) (in_WorkspaceDir info)) ''swarm'') slot;
          e = \<lparr>lg_Timestamp = verb_now env w, lg_Slot = slot, lg_Event = event, lg_Fields = kvs\<rparr>
      in w\<lparr>vw_files := snd (AppendOnce (ve_host env) (ve_text env) (SlotLogPath dir) e (vw_files w))\<rparr>)"

section \<open>Where the hub is\<close>

definition resolveHubURL :: "'s verb_env \<Rightarrow> files \<Rightarrow> string \<Rightarrow> string" where
  "resolveHubURL env fs override =
     (if override \<noteq> [] then override
      else case ve_cwd env of
             Inl _ \<Rightarrow> DefaultHubFossilURL
           | Inr cwd \<Rightarrow>
               (case FindRoot (ve_host env) fs cwd of
                  Inl _ \<Rightarrow> DefaultHubFossilURL
                | Inr root \<Rightarrow> (let url = FossilURL (ve_host env) fs root in if url \<noteq> [] then url else DefaultHubFossilURL)))"

text \<open>What \<^verbatim>\<open>diagnoseSwarmFailure\<close> reports: the address of the connection, the recorded one, whether they differ, and the hub's process.\<close>

record swarm_diagnosis =
  dg_Connected :: string
  dg_OnDisk :: string
  dg_Mismatch :: bool
  dg_Hub :: "int option"

definition diagnoseSwarmFailure :: "host \<Rightarrow> files \<Rightarrow> string \<Rightarrow> string \<Rightarrow> swarm_diagnosis option" where
  "diagnoseSwarmFailure h fs workspaceDir connectedURL =
     (if workspaceDir = [] then None
      else let diskURL = NATSURL h fs workspaceDir; (pid, running) = IsRunning h fs workspaceDir in
           Some \<lparr>dg_Connected = connectedURL, dg_OnDisk = diskURL, dg_Mismatch = (connectedURL \<noteq> diskURL \<and> diskURL \<noteq> []),
                 dg_Hub = (if running then Some pid else None)\<rparr>)"

section \<open>Which slot\<close>

definition resolveSlot :: "'s lease_env \<Rightarrow> Sessions \<Rightarrow> string \<Rightarrow> 's \<Rightarrow> (err + string) \<times> 's" where
  "resolveSlot env ss flag s =
     (if flag \<noteq> [] then (Inr flag, s)
      else case sessions_List (le_js env) ss s of
             (Inl e, s1) \<Rightarrow> (Inl e, s1)
           | (Inr al, s1) \<Rightarrow>
               (case map sn_Slot (filter (\<lambda>x. sn_Host x = le_hostname env) al) of
                  [] \<Rightarrow> (Inl (EMsg ''no active swarm session on this host (pass --slot)''), s1)
                | [slot] \<Rightarrow> (Inr slot, s1)
                | _ \<Rightarrow> (Inl (EMsg ''multiple active swarm sessions on this host''), s1)))"

definition no_opts :: "'s AcquireOpts" where
  "no_opts = \<lparr>ao_HubURL = [], ao_Hub = None, ao_Caps = [], ao_ForceTakeover = False, ao_NATSConn = False, ao_Now = None, ao_NoAutosync = False\<rparr>"

definition bootstrapResume ::
  "'s verb_env \<Rightarrow> string \<Rightarrow> string \<Rightarrow> 's AcquireOpts \<Rightarrow> 's verb_world \<Rightarrow> (err + Info \<times> 's leaseBase) \<times> 's verb_world" where
  "bootstrapResume env preferredSlot hubURL opts w =
     (case ve_join env of
        Inl e \<Rightarrow> (Inl e, w)
      | Inr info \<Rightarrow>
          (case openSwarmSessions (ve_lease env) of
             Inl e \<Rightarrow> (Inl e, w)
           | Inr ss \<Rightarrow>
               (case verb_kv (resolveSlot (ve_lease env) ss preferredSlot) w of
                  (Inl e, w1) \<Rightarrow> (Inl e, w1)
                | (Inr slot, w1) \<Rightarrow>
                    (case on_lease (Resume (ve_lease env) info slot (opts\<lparr>ao_HubURL := resolveHubURL env (vw_files w1) hubURL\<rparr>)) w1 of
                       (Inl e, w2) \<Rightarrow> (Inl e, w2)
                     | (Inr l, w2) \<Rightarrow> (Inr (info, l), w2)))))"

section \<open>swarm close\<close>

record swarm_close_flags =
  sf_Slot :: string
  sf_Result :: string
  sf_Summary :: string
  sf_Branch :: string
  sf_Rev :: string
  sf_HubURL :: string
  sf_SubstrateError :: string
  sf_SubstrateFault :: string
  sf_NoArtifact :: bool
  sf_KeepWT :: bool

definition validateResult :: "swarm_close_flags \<Rightarrow> err + unit" where
  "validateResult f =
     (if sf_Result f \<in> {ResultSuccess, ResultFail, ResultFork} then Inr () else Inl (EMsg ''--result must be success|fail|fork''))"

text \<open>A message on the thread of the task, from the user of the slot.\<close>

definition post_as ::
  "'s lease_env \<Rightarrow> 's chat_env \<Rightarrow> Info \<Rightarrow> string \<Rightarrow> string \<Rightarrow> ResultMessage \<Rightarrow> 's \<Rightarrow> (err + unit) \<times> 's" where
  "post_as env cv info agentID taskID msg s =
     (case projectPrefix (in_AgentID info) of
        Inl e \<Rightarrow> (Inl e, s)
      | Inr pfx \<Rightarrow>
          (case coord_Open (le_js env) (le_dial env) ((newCoordConfig info)\<lparr>cc_AgentID := agentID, cc_ProjectPrefix := pfx\<rparr>) s of
             (Inl e, s1) \<Rightarrow> (Inl e, s1)
           | (Inr c, s1) \<Rightarrow>
               (case Post (le_js env) cv taskID (FormatResult msg) c s1 of (r, s2) \<Rightarrow> (r, snd (coord_Close (le_js env) c s2)))))"

definition postResult ::
  "'s lease_env \<Rightarrow> 's chat_env \<Rightarrow> Info \<Rightarrow> swarm_close_flags \<Rightarrow> string \<Rightarrow> string \<Rightarrow> 's \<Rightarrow> (err + unit) \<times> 's" where
  "postResult env cv info f agentID taskID s =
     post_as env cv info agentID taskID
       \<lparr>rm_Kind = sf_Result f, rm_Summary = sf_Summary f, rm_Branch = sf_Branch f, rm_Rev = sf_Rev f,
        rm_SubstrateError = sf_SubstrateError f, rm_SubstrateFault = sf_SubstrateFault f\<rparr> s"

text \<open>A failed post is only a warning; a panic ends the command.\<close>

definition swarm_close :: "'s verb_env \<Rightarrow> swarm_close_flags \<Rightarrow> 's verb_world \<Rightarrow> (err + unit) \<times> 's verb_world" where
  "swarm_close env f w =
     (case validateResult f of
        Inl e \<Rightarrow> (Inl e, w)
      | Inr _ \<Rightarrow>
          (case bootstrapResume env (sf_Slot f) (sf_HubURL f) no_opts w of
             (Inl e, w1) \<Rightarrow> (if e = ESwarm ErrSessionNotFound then Inr () else Inl e, w1)
           | (Inr (info, l), w1) \<Rightarrow>
               (case verb_kv (postResult (ve_lease env) (ve_chat env) info f (lb_fossilUser l) (lb_taskID l)) w1 of
                  (p, w2) \<Rightarrow>
                    (case panicked (case p of Inl e \<Rightarrow> Some e | Inr _ \<Rightarrow> None) of
                       Some e \<Rightarrow> (Inl e, w2)
                     | None \<Rightarrow>
                         (case lease_Close (ve_lease env) \<lparr>cp_CloseTaskOnSuccess = (sf_Result f = ResultSuccess), cp_NoArtifact = sf_NoArtifact f,
                                 cp_Reaped = False, cp_KeepWT = sf_KeepWT f\<rparr> l (vw_lease w2) of
                            (Some e, _, x) \<Rightarrow> (Inl e, w2\<lparr>vw_lease := x\<rparr>)
                          | (None, _, x) \<Rightarrow>
                              (Inr (), appendSlotEvent env info (lb_slot l) ''close''
                                 ([(''result'', JStr (sf_Result f)), (''summary'', JStr (sf_Summary f))] @
                                  (if sf_NoArtifact f then [(''no_artifact'', JBool True)] else [])) (w2\<lparr>vw_lease := x\<rparr>)))))))"

section \<open>swarm join\<close>

record swarm_join_flags =
  jf_Auto :: bool
  jf_Slot :: string
  jf_TaskID :: string
  jf_Caps :: string
  jf_ForceTakeover :: bool
  jf_HubURL :: string
  jf_NoAutosync :: bool

definition join_validateFlags :: "swarm_join_flags \<Rightarrow> err + unit" where
  "join_validateFlags f =
     (if jf_Auto f
      then (if jf_Slot f \<noteq> [] \<or> jf_TaskID f \<noteq> [] then Inl (EMsg ''swarm join: --auto is mutually exclusive with --slot / --task-id'')
            else Inr ())
      else if jf_Slot f = [] then Inl (EMsg ''swarm join: --slot is required'')
      else if jf_TaskID f = [] then Inl (EMsg ''swarm join: --task-id is required'')
      else Inr ())"

definition join_opts :: "'s verb_env \<Rightarrow> files \<Rightarrow> swarm_join_flags \<Rightarrow> 's AcquireOpts" where
  "join_opts env fs f = no_opts\<lparr>ao_HubURL := resolveHubURL env fs (jf_HubURL f), ao_Caps := jf_Caps f,
     ao_ForceTakeover := jf_ForceTakeover f, ao_NoAutosync := jf_NoAutosync f\<rparr>"

definition lease_worktree :: "'s lease_env \<Rightarrow> Info \<Rightarrow> string \<Rightarrow> string" where
  "lease_worktree env info slot = SlotWorktree (BonesDir (le_bonesEnv env) (le_abs env) (in_WorkspaceDir info)) slot"

text \<open>The lines for the shell are the result: the worktree, and the slot's name with \<^verbatim>\<open>--auto\<close>.\<close>

definition join_run :: "'s verb_env \<Rightarrow> Info \<Rightarrow> swarm_join_flags \<Rightarrow> 's verb_world \<Rightarrow> (err + string) \<times> 's verb_world" where
  "join_run env info f w =
     (case on_lease (Acquire (ve_lease env) info (jf_Slot f) (jf_TaskID f) (join_opts env (vw_files w) f)) w of
        (Inl e, w1) \<Rightarrow> (Inl e, w1)
      | (Inr l, w1) \<Rightarrow>
          let wt = lease_worktree (ve_lease env) info (lb_slot l);
              w2 = appendSlotEvent env info (lb_slot l) ''join'' [(''task_id'', JStr (lb_taskID l)), (''worktree'', JStr wt)] w1
          in (Inr wt, snd (on_lease (FreshLease_Release (le_js (ve_lease env)) l) w2)))"

definition join_runAuto ::
  "'s verb_env \<Rightarrow> 8 word list \<Rightarrow> Info \<Rightarrow> swarm_join_flags \<Rightarrow> 's verb_world \<Rightarrow> (err + string \<times> string) \<times> 's verb_world" where
  "join_runAuto env rnd info f w =
     (case on_lease (JoinAuto (ve_lease env) rnd info (join_opts env (vw_files w) f)) w of
        (Inl e, w1) \<Rightarrow> (Inl e, w1)
      | (Inr r, w1) \<Rightarrow>
          if jr_ReEntry r then (Inr (jr_WT r, jr_Slot r), w1)
          else let w2 = appendSlotEvent env info (jr_Slot r) ''join''
                          [(''task_id'', JStr (jr_TaskID r)), (''worktree'', JStr (jr_WT r)), (''agent_id'', JStr (jr_AgentID r)),
                           (''auto'', JBool True)] w1
               in (Inr (jr_WT r, jr_Slot r),
                   (case jr_Lease r of None \<Rightarrow> w2 | Some l \<Rightarrow> snd (on_lease (FreshLease_Release (le_js (ve_lease env)) l) w2))))"

definition swarm_join ::
  "'s verb_env \<Rightarrow> 8 word list \<Rightarrow> swarm_join_flags \<Rightarrow> 's verb_world \<Rightarrow> (err + string \<times> string option) \<times> 's verb_world" where
  "swarm_join env rnd f w =
     (case join_validateFlags f of
        Inl e \<Rightarrow> (Inl e, w)
      | Inr _ \<Rightarrow>
          (case ve_join env of
             Inl e \<Rightarrow> (Inl e, w)
           | Inr info \<Rightarrow>
               if jf_Auto f
               then (case join_runAuto env rnd info f w of (Inl e, w1) \<Rightarrow> (Inl e, w1) | (Inr (wt, slot), w1) \<Rightarrow> (Inr (wt, Some slot), w1))
               else (case join_run env info f w of (Inl e, w1) \<Rightarrow> (Inl e, w1) | (Inr wt, w1) \<Rightarrow> (Inr (wt, None), w1))))"

definition swarm_cwd :: "'s verb_env \<Rightarrow> string \<Rightarrow> err + string" where
  "swarm_cwd env slot = (case ve_join env of Inl e \<Rightarrow> Inl e | Inr info \<Rightarrow> Inr (lease_worktree (ve_lease env) info slot))"

section \<open>swarm commit\<close>

text \<open>
  A worktree is walked folder by folder, each in the order of its names, so the files come in the order of their components.
  Hidden folders are not entered; a name is hidden by its first dot.
\<close>

definition dirty_path :: "string \<Rightarrow> bool" where
  "dirty_path rel =
     (let parts = split_on CHR ''/'' rel in
      list_all (\<lambda>d. \<not> has_prefix d ''.'') (butlast parts) \<and> last parts \<noteq> ''.fslckout'')"

definition walk_order :: "worktree \<Rightarrow> worktree" where
  "walk_order wt = sort_key (\<lambda>(rel, _). split_on CHR ''/'' rel) wt"

fun collect_dirty :: "(string \<Rightarrow> err option) \<Rightarrow> string \<Rightarrow> string \<Rightarrow> worktree \<Rightarrow> err + File list" where
  "collect_dirty rd dir wt [] = Inr []"
| "collect_dirty rd dir wt ((rel, n) # es) =
     (case n of
        Irregular \<Rightarrow> collect_dirty rd dir wt es
      | Regular data \<Rightarrow>
          if \<not> dirty_path rel then collect_dirty rd dir wt es
          else (case rd (Join wt rel) of
                  Some e \<Rightarrow> Inl e
                | None \<Rightarrow>
                    (case NewRelative dir rel of
                       Inl e \<Rightarrow> Inl e
                     | Inr taskPath \<Rightarrow>
                         (case collect_dirty rd dir wt es of
                            Inl e \<Rightarrow> Inl e
                          | Inr out \<Rightarrow> Inr (\<lparr>f_Path = taskPath, f_Name = rel, f_Content = data\<rparr> # out)))))"

definition discoverDirtyFiles :: "(string \<Rightarrow> err option) \<Rightarrow> string \<Rightarrow> string \<Rightarrow> worktree option \<Rightarrow> err + File list" where
  "discoverDirtyFiles rd dir wt wtc =
     (case wtc of
        None \<Rightarrow> Inl (EOS NotExist)
      | Some es \<Rightarrow>
          (case collect_dirty rd dir wt (walk_order es) of
             Inl e \<Rightarrow> Inl e
           | Inr out \<Rightarrow> if out = [] then Inl (EMsg ''swarm commit: nothing to commit'') else Inr out))"

text \<open>A named file is looked up below the worktree by its cleaned path; a file elsewhere is \<open>other\<close>'s affair.\<close>

definition read_named :: "(string \<Rightarrow> err option) \<Rightarrow> (string \<Rightarrow> err + string) \<Rightarrow> string \<Rightarrow> worktree \<Rightarrow> string \<Rightarrow> err + string" where
  "read_named rd other wt es p =
     (case rd p of
        Some e \<Rightarrow> Inl e
      | None \<Rightarrow>
          if \<not> has_prefix p (wt @ ''/'') then other p
          else (case map_of es (drop (length wt + 1) p) of Some (Regular data) \<Rightarrow> Inr data | _ \<Rightarrow> other p))"

fun gather_named ::
  "(string \<Rightarrow> err option) \<Rightarrow> (string \<Rightarrow> err + string) \<Rightarrow> string \<Rightarrow> string \<Rightarrow> worktree \<Rightarrow> string list \<Rightarrow> err + File list" where
  "gather_named rd other dir wt es [] = Inr []"
| "gather_named rd other dir wt es (rel # rels) =
     (let clean = trim_prefix (trim_prefix rel (wt @ ''/'')) ''wt/'' in
      case read_named rd other wt es (Join wt clean) of
        Inl e \<Rightarrow> Inl e
      | Inr data \<Rightarrow>
          (case NewRelative dir clean of
             Inl e \<Rightarrow> Inl e
           | Inr taskPath \<Rightarrow>
               (case gather_named rd other dir wt es rels of
                  Inl e \<Rightarrow> Inl e
                | Inr out \<Rightarrow> Inr (\<lparr>f_Path = taskPath, f_Name = clean, f_Content = data\<rparr> # out))))"

definition gatherCommitFiles ::
  "(string \<Rightarrow> err option) \<Rightarrow> (string \<Rightarrow> err + string) \<Rightarrow> string \<Rightarrow> string list \<Rightarrow> string \<Rightarrow> worktree option \<Rightarrow> err + File list" where
  "gatherCommitFiles rd other dir explicit wt wtc =
     (if explicit = [] then discoverDirtyFiles rd dir wt wtc
      else gather_named rd other dir wt (case wtc of None \<Rightarrow> [] | Some es \<Rightarrow> es) explicit)"

record swarm_commit_flags =
  mf_Slot :: string
  mf_Message :: string
  mf_Files :: "string list"
  mf_HubURL :: string
  mf_NoAutosync :: bool

definition swarm_commit ::
  "'s verb_env \<Rightarrow> (string \<Rightarrow> err + string) \<Rightarrow> swarm_commit_flags \<Rightarrow> 's verb_world \<Rightarrow> (err + CommitResult) \<times> 's verb_world" where
  "swarm_commit env other f w =
     (case bootstrapResume env (mf_Slot f) (mf_HubURL f) (no_opts\<lparr>ao_NoAutosync := mf_NoAutosync f\<rparr>) w of
        (Inl e, w1) \<Rightarrow> (Inl e, w1)
      | (Inr (info, l), w1) \<Rightarrow>
          (case gatherCommitFiles (ve_readFile env) other (in_WorkspaceDir info) (mf_Files f) (lease_worktree (ve_lease env) info (lb_slot l))
                  (sd_wt (slot_dir_at (w_disk (vw_lease w1)) (lb_slot l))) of
             Inl e \<Rightarrow> (Inl e, snd (on_lease (lease_Release (le_js (ve_lease env)) l) w1))
           | Inr files \<Rightarrow>
               (case lease_Commit (ve_lease env) (mf_Message f) files l (vw_lease w1) of
                  (Inl e, l1, x) \<Rightarrow>
                    let w2 = w1\<lparr>vw_lease := x\<rparr> in
                    if is_panic e then (Inl e, snd (on_lease (lease_Release (le_js (ve_lease env)) l1) w2))
                    else (Inl e, snd (on_lease (lease_Release (le_js (ve_lease env)) l1)
                                   (appendSlotEvent env info (lb_slot l) ''commit_error'' [(''reason'', JStr (ve_errText env e))] w2)))
                | (Inr res, l1, x) \<Rightarrow>
                    (Inr res,
                     snd (on_lease (lease_Release (le_js (ve_lease env)) l1)
                       (appendSlotEvent env info (lb_slot l) ''commit''
                          [(''message'', JStr (mf_Message f)), (''sha'', JStr (cr_UUID res)), (''files'', JNum (int (length files)))]
                          (w1\<lparr>vw_lease := x\<rparr>)))))))"

section \<open>swarm reap\<close>

definition stale_here :: "'s lease_env \<Rightarrow> duration \<Rightarrow> time_ns \<Rightarrow> Session \<Rightarrow> bool" where
  "stale_here env threshold now x = (now - sn_LastRenewed x > threshold \<and> sn_Host x = le_hostname env)"

definition findStale :: "'s lease_env \<Rightarrow> duration \<Rightarrow> 's \<Rightarrow> (err + Session list) \<times> 's" where
  "findStale env threshold s =
     (case openSwarmSessions env of
        Inl e \<Rightarrow> (Inl e, s)
      | Inr ss \<Rightarrow>
          (case sessions_List (le_js env) ss s of
             (Inl e, s1) \<Rightarrow> (Inl e, s1)
           | (Inr al, s1) \<Rightarrow> (Inr (filter (stale_here env threshold (le_clock env s1)) al), s1)))"

definition reap_message :: ResultMessage where
  "reap_message = \<lparr>rm_Kind = ResultFail, rm_Summary = ''auto-reaped: stale'', rm_Branch = [], rm_Rev = [],
     rm_SubstrateError = [], rm_SubstrateFault = []\<rparr>"

definition postReapResult :: "'s lease_env \<Rightarrow> 's chat_env \<Rightarrow> Info \<Rightarrow> string \<Rightarrow> string \<Rightarrow> 's \<Rightarrow> (err + unit) \<times> 's" where
  "postReapResult env cv info agentID taskID s = post_as env cv info agentID taskID reap_message s"

definition swarm_reapOne :: "'s verb_env \<Rightarrow> Info \<Rightarrow> string \<Rightarrow> Session \<Rightarrow> 's verb_world \<Rightarrow> err option \<times> 's verb_world" where
  "swarm_reapOne env info hubURL x w =
     (case on_lease (Resume (ve_lease env) info (sn_Slot x) (no_opts\<lparr>ao_HubURL := resolveHubURL env (vw_files w) hubURL\<rparr>)) w of
        (Inl e, w1) \<Rightarrow> (if e = ESwarm ErrSessionNotFound then None else Some e, w1)
      | (Inr l, w1) \<Rightarrow>
          (case verb_kv (postReapResult (ve_lease env) (ve_chat env) info (lb_fossilUser l) (lb_taskID l)) w1 of
             (p, w2) \<Rightarrow>
               (case panicked (case p of Inl e \<Rightarrow> Some e | Inr _ \<Rightarrow> None) of
                  Some e \<Rightarrow> (Some e, snd (on_lease (lease_Release (le_js (ve_lease env)) l) w2))
                | None \<Rightarrow>
                    (case lease_Close (ve_lease env) \<lparr>cp_CloseTaskOnSuccess = False, cp_NoArtifact = False, cp_Reaped = True, cp_KeepWT = False\<rparr>
                            l (vw_lease w2) of
                       (r, l1, x1) \<Rightarrow> (r, snd (on_lease (lease_Release (le_js (ve_lease env)) l1) (w2\<lparr>vw_lease := x1\<rparr>)))))))"

text \<open>Each session is closed even if an earlier one failed; a panic ends the command.\<close>

fun reapAll :: "'s verb_env \<Rightarrow> Info \<Rightarrow> string \<Rightarrow> Session list \<Rightarrow> err option \<Rightarrow> 's verb_world \<Rightarrow> err option \<times> 's verb_world" where
  "reapAll env info hubURL [] firstErr w = (firstErr, w)"
| "reapAll env info hubURL (x # xs) firstErr w =
     (case swarm_reapOne env info hubURL x w of
        (None, w1) \<Rightarrow> reapAll env info hubURL xs firstErr w1
      | (Some e, w1) \<Rightarrow>
          if is_panic e then (Some e, w1)
          else reapAll env info hubURL xs (if firstErr = None then Some e else firstErr) w1)"

definition swarm_reap :: "'s verb_env \<Rightarrow> duration \<Rightarrow> bool \<Rightarrow> string \<Rightarrow> 's verb_world \<Rightarrow> (err option \<times> string list) \<times> 's verb_world" where
  "swarm_reap env threshold dryRun hubURL w =
     (case ve_join env of
        Inl e \<Rightarrow> ((Some e, []), w)
      | Inr info \<Rightarrow>
          (case verb_kv (findStale (ve_lease env) threshold) w of
             (Inl e, w1) \<Rightarrow> ((Some e, []), w1)
           | (Inr stale, w1) \<Rightarrow>
               if stale = [] \<or> dryRun then ((None, map sn_Slot stale), w1)
               else (case reapAll env info hubURL stale None w1 of (r, w2) \<Rightarrow> ((r, map sn_Slot stale), w2))))"

section \<open>swarm fan-in\<close>

text \<open>The leaves in the output of \<^verbatim>\<open>fossil leaves\<close>: what stands between the first brackets of a line.\<close>

definition leaf_of_line :: "string \<Rightarrow> string option" where
  "leaf_of_line line0 =
     (let line = TrimSpace line0 in
      if line = [] then None
      else case (index_of CHR ''['' line, index_of CHR '']'' line) of
             (Some a, Some b) \<Rightarrow> if b \<le> a then None else Some (take (b - (a + 1)) (drop (a + 1) line))
           | _ \<Rightarrow> None)"

definition openLeavesOnTrunk :: "err + string \<Rightarrow> err + string list" where
  "openLeavesOnTrunk out =
     (case out of Inl e \<Rightarrow> Inl e | Inr txt \<Rightarrow> Inr (List.map_filter leaf_of_line (split_on CHR 0x0A txt)))"

text \<open>The runs of \<^verbatim>\<open>fossil\<close>, one after the other, until one fails; the checkout is closed whatever happens after it is open.\<close>

definition fanin_steps :: "string \<Rightarrow> string \<Rightarrow> string \<Rightarrow> string \<Rightarrow> string list \<Rightarrow> string list list" where
  "fanin_steps hubRepo wt user message leaves =
     (let others = tl leaves;
          msg = (if message = [] then ''swarm fan-in: merge '' @ itoa (length others) @ '' leaves into trunk'' else message)
      in [''update'', hd leaves] # map (\<lambda>l. [''merge'', l]) others @
         [[''commit'', ''--no-warnings'', ''--user'', user, ''-m'', msg]])"

fun run_until :: "(string list \<Rightarrow> 'r \<Rightarrow> err option \<times> 'r) \<Rightarrow> string list list \<Rightarrow> 'r \<Rightarrow> err option \<times> 'r" where
  "run_until fossil [] r = (None, r)"
| "run_until fossil (args # rest) r =
     (case fossil args r of (Some e, r1) \<Rightarrow> (Some e, r1) | (None, r1) \<Rightarrow> run_until fossil rest r1)"

definition mergeLeaves ::
  "(string list \<Rightarrow> 'r \<Rightarrow> err option \<times> 'r) \<Rightarrow> err + string \<Rightarrow> string \<Rightarrow> string \<Rightarrow> string \<Rightarrow> string list \<Rightarrow> 'r \<Rightarrow> err option \<times> 'r" where
  "mergeLeaves fossil mkdirTemp hubRepo user message leaves r =
     (case mkdirTemp of
        Inl e \<Rightarrow> (Some e, r)
      | Inr wt \<Rightarrow>
          (case fossil [''open'', ''--force'', hubRepo, ''--workdir'', wt] r of
             (Some e, r1) \<Rightarrow> (Some e, r1)
           | (None, r1) \<Rightarrow>
               (case run_until fossil (fanin_steps hubRepo wt user message leaves) r1 of
                  (x, r2) \<Rightarrow> (x, snd (fossil [''close'', ''--force''] r2)))))"

definition fanin_prereqs :: "host \<Rightarrow> files \<Rightarrow> err + Info \<Rightarrow> err option \<Rightarrow> err + string" where
  "fanin_prereqs h fs joined fossilBin =
     (case joined of
        Inl e \<Rightarrow> Inl e
      | Inr info \<Rightarrow>
          (case os_Stat h fs (HubFossilPath h (in_WorkspaceDir info)) of
             Inl _ \<Rightarrow> Inl (EMsg ''hub repo not found'')
           | Inr _ \<Rightarrow>
               (case fossilBin of
                  Some _ \<Rightarrow> Inl (EMsg ''swarm fan-in requires the system fossil binary'')
                | None \<Rightarrow> Inr (HubFossilPath h (in_WorkspaceDir info)))))"

definition swarm_fanin ::
  "host \<Rightarrow> files \<Rightarrow> err + Info \<Rightarrow> err option \<Rightarrow> (string list \<Rightarrow> 'r \<Rightarrow> err option \<times> 'r) \<Rightarrow> ('r \<Rightarrow> err + string) \<Rightarrow> err + string \<Rightarrow>
   string \<Rightarrow> string \<Rightarrow> bool \<Rightarrow> 'r \<Rightarrow> err option \<times> 'r" where
  "swarm_fanin h fs joined fossilBin fossil leavesOut mkdirTemp user message dryRun r =
     (case fanin_prereqs h fs joined fossilBin of
        Inl e \<Rightarrow> (Some e, r)
      | Inr hubRepo \<Rightarrow>
          (case openLeavesOnTrunk (leavesOut r) of
             Inl e \<Rightarrow> (Some e, r)
           | Inr leaves \<Rightarrow>
               if length leaves \<le> 1 \<or> dryRun then (None, r)
               else mergeLeaves fossil mkdirTemp hubRepo user message leaves r))"

end
