(* ===== verification/Swarm_Guarantees.thy ===== *)
theory Swarm_Guarantees
  imports Swarm_Commands Lease_Guarantees Dispatch_Guarantees Workspace_Guarantees
begin

text \<open>
  What the swarm commands promise: the files of a commit named or discovered, and the message a close sends before it knows whether
  it will be refused.
\<close>

section \<open>The files of a commit\<close>

lemma Join_rel:
  assumes "list_all good_part ws" and "list_all good_part rs" and "rs \<noteq> []"
  shows "Join (abs_path ws) (join_with ''/'' rs) = abs_path (ws @ rs)"
proof -
  have s: "split_on CHR ''/'' (join_with ''/'' rs) = rs"
    by (rule split_on_join) (use assms(2,3) in \<open>auto simp: list_all_iff good_part_def\<close>)
  have ne: "join_with ''/'' rs \<noteq> []" using s assms(2,3) by (metis list.sel(1) list_all_iff good_part_def hd_in_set split_on.simps(1))
  have "clean_parts True [] (split_on CHR ''/'' (abs_path ws @ ''/'' @ join_with ''/'' rs)) = ws @ rs"
    using split_abs_path [OF assms(1), of "[]"] split_on_append [of "CHR ''/''" "abs_path ws" "join_with ''/'' rs"] s
      clean_parts_append [of True "[]" "split_on CHR ''/'' (abs_path ws)" rs] clean_parts_id [OF assms(2), of True "rev ws"]
    by simp
  then have "Clean (abs_path ws @ ''/'' @ join_with ''/'' rs) = abs_path (ws @ rs)" by (simp add: Clean_def abs_path_def)
  then show ?thesis using Join_abs [OF ne, of ws] by simp
qed

text \<open>The entries of a folder: each path once, of proper components.\<close>

definition tree_paths :: "worktree \<Rightarrow> bool" where
  "tree_paths es \<longleftrightarrow> distinct (map fst es) \<and>
     (\<forall>e \<in> set es. \<exists>rs. rs \<noteq> [] \<and> list_all good_part rs \<and> fst e = join_with ''/'' rs)"

lemma collect_dirty_ok:
  "collect_dirty rd dir wt es = Inr out \<Longrightarrow> g \<in> set out \<Longrightarrow>
   (f_Name g, Regular (f_Content g)) \<in> set es \<and> rd (Join wt (f_Name g)) = None \<and> NewRelative dir (f_Name g) = Inr (f_Path g)"
proof (induction es arbitrary: out)
  case (Cons e es)
  then show ?case by (cases e; cases "snd e") (auto split: if_splits option.splits sum.splits)
qed simp

lemma gather_named_same:
  assumes "\<And>g. g \<in> set out \<Longrightarrow> trim_prefix (trim_prefix (f_Name g) (wt @ ''/'')) ''wt/'' = f_Name g \<and>
      read_named rd other wt es (Join wt (f_Name g)) = Inr (f_Content g) \<and> NewRelative dir (f_Name g) = Inr (f_Path g)"
  shows "gather_named rd other dir wt es (map f_Name out) = Inr out"
  using assms by (induction out) (simp_all add: Let_def)

text \<open>C29: Committing without names is the same as naming every file that is found: each name is read back to the same content and
  the same workspace path. The exception are files in a folder \<^verbatim>\<open>wt\<close> of the worktree, whose names lose that prefix.\<close>

theorem named_commit_agrees:
  assumes "list_all good_part ws" and "ws \<noteq> []" and "tree_paths es"
    and "gatherCommitFiles rd other dir [] (abs_path ws) (Some es) = Inr out"
    and "\<forall>g \<in> set out. \<not> has_prefix (f_Name g) ''wt/''"
  shows "gatherCommitFiles rd other dir (map f_Name out) (abs_path ws) (Some es) = Inr out \<and> out \<noteq> []"
proof -
  have c: "collect_dirty rd dir (abs_path ws) (walk_order es) = Inr out" and ne: "out \<noteq> []"
    using assms(4) by (auto simp: gatherCommitFiles_def discoverDirtyFiles_def split: sum.splits if_splits)
  have set: "set (walk_order es) = set es" by (simp add: walk_order_def)
  have "gather_named rd other dir (abs_path ws) es (map f_Name out) = Inr out"
  proof (rule gather_named_same)
    fix g assume g: "g \<in> set out"
    note k = collect_dirty_ok [OF c g]
    have m: "map_of es (f_Name g) = Some (Regular (f_Content g))"
      using k set assms(3) by (simp add: tree_paths_def)
    have "(f_Name g, Regular (f_Content g)) \<in> set es" using k set by simp
    then obtain rs where rs: "rs \<noteq> []" "list_all good_part rs" "f_Name g = join_with ''/'' rs"
      using assms(3) unfolding tree_paths_def by (metis fst_conv)
    have J: "Join (abs_path ws) (f_Name g) = abs_path ws @ ''/'' @ f_Name g"
      unfolding rs(3) Join_rel [OF assms(1) rs(2,1)] using join_with_append [OF assms(2) rs(1)] by (simp add: abs_path_def)
    obtain c0 r0 where f0: "f_Name g = c0 # r0" "c0 \<noteq> CHR ''/''"
      using rs by (cases rs; cases "hd rs"; cases "tl rs") (auto simp: good_part_def)
    then have t1: "trim_prefix (f_Name g) (abs_path ws @ ''/'') = f_Name g"
      by (simp add: trim_prefix_def has_prefix_def abs_path_def)
    have t2: "trim_prefix (f_Name g) ''wt/'' = f_Name g" using assms(5) g by (simp add: trim_prefix_def)
    have "has_prefix (abs_path ws @ ''/'' @ f_Name g) (abs_path ws @ ''/'')" by (simp add: has_prefix_def)
    then have "read_named rd other (abs_path ws) es (Join (abs_path ws) (f_Name g)) = Inr (f_Content g)"
      using k m by (simp add: read_named_def J)
    then show "trim_prefix (trim_prefix (f_Name g) (abs_path ws @ ''/'')) ''wt/'' = f_Name g \<and>
        read_named rd other (abs_path ws) es (Join (abs_path ws) (f_Name g)) = Inr (f_Content g) \<and> NewRelative dir (f_Name g) = Inr (f_Path g)"
      using k unfolding t1 t2 by blast
  qed
  then show ?thesis using ne by (simp add: gatherCommitFiles_def)
qed

definition sample_tree :: worktree where
  "sample_tree = [(''b.go'', Regular ''B''), (''src/a.go'', Regular ''A''), (''.git/x'', Regular ''X''), (''link'', Irregular)]"

theorem named_commit_agrees_witness:
  "\<exists>out. gatherCommitFiles (\<lambda>_. None) (\<lambda>_. Inl (EOS NotExist)) ''/w'' [] ''/w/.bones/swarm/s1/wt'' (Some sample_tree) = Inr out \<and>
     map f_Name out = [''b.go'', ''src/a.go''] \<and>
     gatherCommitFiles (\<lambda>_. None) (\<lambda>_. Inl (EOS NotExist)) ''/w'' [''b.go'', ''src/a.go''] ''/w/.bones/swarm/s1/wt'' (Some sample_tree) = Inr out"
proof -
  define ws where "ws = [''w'', ''.bones'', ''swarm'', ''s1'', ''wt'']"
  have p: "abs_path ws = ''/w/.bones/swarm/s1/wt''" "list_all good_part ws" unfolding ws_def by code_simp+
  have g: "list_all good_part [''b.go'']" "list_all good_part [''src'', ''a.go'']" "list_all good_part [''.git'', ''x'']" "list_all good_part [''link'']"
    by code_simp+
  have t: "tree_paths sample_tree"
  proof -
    have "\<exists>rs. rs \<noteq> [] \<and> list_all good_part rs \<and> fst e = join_with ''/'' rs" if "e \<in> set sample_tree" for e
    proof -
      consider "fst e = ''b.go''" | "fst e = ''src/a.go''" | "fst e = ''.git/x''" | "fst e = ''link''"
        using \<open>e \<in> set sample_tree\<close> by (auto simp: sample_tree_def)
      then show ?thesis
      proof cases
        case 1 then show ?thesis using g(1) by (intro exI [of _ "[''b.go'']"]) simp
      next
        case 2 then show ?thesis using g(2) by (intro exI [of _ "[''src'', ''a.go'']"]) simp
      next
        case 3 then show ?thesis using g(3) by (intro exI [of _ "[''.git'', ''x'']"]) simp
      next
        case 4 then show ?thesis using g(4) by (intro exI [of _ "[''link'']"]) simp
      qed
    qed
    moreover have "distinct (map fst sample_tree)" by code_simp
    ultimately show ?thesis by (simp add: tree_paths_def)
  qed
  obtain out where out: "gatherCommitFiles (\<lambda>_. None) (\<lambda>_. Inl (EOS NotExist)) ''/w'' [] (abs_path ws) (Some sample_tree) = Inr out"
    and n: "map f_Name out = [''b.go'', ''src/a.go'']"
  proof -
    have "(case gatherCommitFiles (\<lambda>_. None) (\<lambda>_. Inl (EOS NotExist)) ''/w'' [] ''/w/.bones/swarm/s1/wt'' (Some sample_tree) of
        Inl _ \<Rightarrow> False | Inr out \<Rightarrow> map f_Name out = [''b.go'', ''src/a.go''])"
      by code_simp
    then show thesis using that unfolding p(1) by (auto split: sum.splits)
  qed
  have "\<forall>x \<in> set (map f_Name out). \<not> has_prefix x ''wt/''" unfolding n by (simp add: has_prefix_def)
  then have w: "\<forall>g \<in> set out. \<not> has_prefix (f_Name g) ''wt/''" by simp
  have "ws \<noteq> []" by (simp add: ws_def)
  from named_commit_agrees [OF p(2) this t out w] show ?thesis using out n unfolding p(1) by auto
qed

section \<open>A refused close\<close>

definition close_message :: "swarm_close_flags \<Rightarrow> ResultMessage" where
  "close_message f = \<lparr>rm_Kind = sf_Result f, rm_Summary = sf_Summary f, rm_Branch = sf_Branch f, rm_Rev = sf_Rev f,
     rm_SubstrateError = sf_SubstrateError f, rm_SubstrateFault = sf_SubstrateFault f\<rparr>"


definition idle_session :: Session where
  "idle_session = \<lparr>sn_Slot = ''s1'', sn_TaskID = ''1'', sn_AgentID = ''slot-s1'', sn_Host = ''h'', sn_LeafPID = 42, sn_HubURL = [],
     sn_StartedAt = 1, sn_LastRenewed = 1\<rparr>"

definition close_env :: "mem verb_env" where
  "close_env = \<lparr>ve_lease = sample_env,
     ve_chat = \<lparr>cv_sha = (\<lambda>_. ''00''), cv_rnd = (\<lambda>_. []), cv_ctxErr = None, cv_info = (\<lambda>_. Inr 0), cv_cancelled = False, cv_range = (\<lambda>x. x)\<rparr>,
     ve_host = sample_host, ve_text = (\<lambda>_. []), ve_errText = (\<lambda>_. []), ve_cwd = Inr ''/w'',
     ve_join = Inr \<lparr>in_AgentID = ''ws-1'', in_NATSURL = ''nats://h'', in_WorkspaceDir = ''/w''\<rparr>, ve_readFile = (\<lambda>_. None)\<rparr>"

definition success_flags :: swarm_close_flags where
  "success_flags = \<lparr>sf_Slot = ''s1'', sf_Result = ResultSuccess, sf_Summary = ''ok'', sf_Branch = [], sf_Rev = [], sf_HubURL = ''u'',
     sf_SubstrateError = [], sf_SubstrateFault = [], sf_NoArtifact = False, sf_KeepWT = False\<rparr>"

definition close_world :: "mem verb_world" where
  "close_world = \<lparr>vw_lease = sample_world (session_mem 5 idle_session), vw_files = []\<rparr>"

lemma close_run:
  "case bootstrapResume close_env ''s1'' ''u'' no_opts close_world of
     (Inl _, _) \<Rightarrow> False
   | (Inr (info, l), w1) \<Rightarrow> \<not> lb_released l \<and>
       (case postResult sample_env (ve_chat close_env) info success_flags (lb_fossilUser l) (lb_taskID l) (w_kv (vw_lease w1)) of
          (Inl _, _) \<Rightarrow> False
        | (Inr _, s2) \<Rightarrow>
            (case sessions_Get (mem_sys any_write) (lb_sessions l) (lb_slot l) s2 of
               (Inl _, _) \<Rightarrow> False
             | (Inr (x, rv), _) \<Rightarrow> sn_LastRenewed x = sn_StartedAt x))"
  by code_simp


end
