(* ===== verification/Spec2Isabelle.thy ===== *)
theory Spec2Isabelle
  imports Lease_Guarantees Dispatch_Guarantees Watch Coord_Chat Task_Views Hub_Life Swarm_Guarantees
begin

text \<open>
  A verification of \<^verbatim>\<open>bones\<close>, the coordination layer under a swarm of coding agents that share one repository.

  \<^bold>\<open>The program.\<close> Agents work in slots. Tasks are records of a JetStream key-value bucket; every change of a record
  is announced first on an event log, a JetStream stream. File holds and the presence of agents live in two
  further buckets. \<^verbatim>\<open>internal/tasks\<close> owns the records and the log, \<^verbatim>\<open>internal/holds\<close> the locks on files,
  \<^verbatim>\<open>internal/presence\<close> the liveness entries; \<^verbatim>\<open>internal/coord\<close> composes the three into the operations an agent calls
  (claim, close, reclaim, handoff, link, open), and its \<^verbatim>\<open>Leaf\<close> puts the repository of a slot behind them.
  \<^verbatim>\<open>internal/swarm\<close> gives an agent a lease on a slot: a session record in a fourth bucket, a leaf and a claim.
  \<^verbatim>\<open>internal/dispatch\<close> with \<^verbatim>\<open>cli/validate_plan.go\<close> and \<^verbatim>\<open>cli/swarm_dispatch.go\<close> turns a plan into tasks and walks them
  wave by wave. \<^verbatim>\<open>internal/hub\<close> is the process of a workspace that serves the repository and the substrate; the commands of
  \<^verbatim>\<open>cli\<close> are what agents and people run.

  \<^bold>\<open>The substrate.\<close> \<open>JetStream\<close> has the interface to the server: a record \<open>sys\<close> of the calls the code makes, the
  locale \<open>jetstream\<close> with what they promise (a call observes the bucket at one moment, other processes act between
  calls within a guarantee \<open>rely\<close>, a guarded write succeeds only on the revision it names), and \<open>mem_sys\<close>, a server in
  memory whose script lets other writers act before any call. \<open>mem\<close> interprets the locale. A property about
  interference is stated for every \<open>jetstream\<close>; a property about the outcome of an undisturbed run is stated on
  \<open>mem_sys\<close> with \<open>quiet\<close> or \<open>settled\<close> states.

  \<^bold>\<open>Theories and the code they model.\<close>
  \<^item> \<open>Bones_Prelude\<close>: error values (\<^verbatim>\<open>errors.go\<close> of the packages), machine integers, \<^verbatim>\<open>strings\<close> and \<^verbatim>\<open>sort\<close> routines.
    \<open>Go_Json\<close>: what the code uses of \<^verbatim>\<open>encoding/json\<close>, and the locale \<open>wire_format\<close>.
  \<^item> \<open>Task_Model\<close>: \<^verbatim>\<open>tasks/task.go\<close>, the record, its JSON form, \<^verbatim>\<open>validateForCreate\<close>, \<^verbatim>\<open>validateTransition\<close>.
    \<open>Task_Store\<close>: \<^verbatim>\<open>tasks/tasks.go\<close> and \<^verbatim>\<open>admin.go\<close>, the compare-and-swap loop, reads with migration, lists, purge.
    \<open>Task_Events\<close>: \<^verbatim>\<open>events.go\<close> and \<^verbatim>\<open>tally.go\<close>. \<open>Task_Tx\<close>: \<^verbatim>\<open>tx.go\<close>. \<open>Task_Recovery\<close>: \<^verbatim>\<open>recovery.go\<close>,
    \<^verbatim>\<open>log_reader.go\<close>, \<^verbatim>\<open>compaction.go\<close>, \<^verbatim>\<open>Open\<close>. \<open>Task_Crash\<close>: lemmas on crashes and undisturbed runs.
    \<open>Task_Ready\<close>: \<^verbatim>\<open>tasks/ready.go\<close>, \<^verbatim>\<open>coord/ready.go\<close>, \<^verbatim>\<open>blocked.go\<close>. \<open>Watch\<close>: \<^verbatim>\<open>subscribe.go\<close> of tasks and holds.
  \<^item> \<open>Wspath\<close>: \<^verbatim>\<open>wspath\<close>. \<open>Holds\<close>: \<^verbatim>\<open>holds\<close>. \<open>Presence\<close>: \<^verbatim>\<open>presence\<close>.
  \<^item> \<open>Coord\<close>: \<^verbatim>\<open>coord.go\<close>, \<^verbatim>\<open>close_task.go\<close>, \<^verbatim>\<open>open_task.go\<close>, \<^verbatim>\<open>reclaim.go\<close>, \<^verbatim>\<open>handoff_claim.go\<close>, \<^verbatim>\<open>link.go\<close>,
    \<^verbatim>\<open>holdgate.go\<close>, \<^verbatim>\<open>config.go\<close> of \<^verbatim>\<open>internal/coord\<close>; \<open>Coord_Safety\<close> its lemmas under interference, \<open>Coord_Quiet\<close> the
    outcomes of undisturbed runs. \<open>Leaf\<close>: \<^verbatim>\<open>coord.Open\<close>, \<^verbatim>\<open>leaf.go\<close>, \<^verbatim>\<open>compact.go\<close>.
  \<^item> \<open>Chat\<close>: \<^verbatim>\<open>internal/chat\<close>. \<open>Coord_Chat\<close>: what \<^verbatim>\<open>internal/coord\<close> does with it (\<^verbatim>\<open>media.go\<close>, \<^verbatim>\<open>events.go\<close>,
    \<^verbatim>\<open>subscribe.go\<close>, \<^verbatim>\<open>presence.go\<close>, \<^verbatim>\<open>prime.go\<close>). \<open>Task_Views\<close>: what the read-only commands of \<^verbatim>\<open>cli\<close> compute from the
    tasks.
  \<^item> \<open>Plan\<close>: \<^verbatim>\<open>cli/validate_plan.go\<close> and \<^verbatim>\<open>dispatch/plan_parser.go\<close>. \<open>Dispatch\<close>: the rest of \<^verbatim>\<open>internal/dispatch\<close> and
    \<^verbatim>\<open>cli/swarm_dispatch.go\<close>.
  \<^item> \<open>Sessions\<close>: \<^verbatim>\<open>swarm/session.go\<close>, \<^verbatim>\<open>swarm.go\<close>. \<open>Lease\<close>: \<^verbatim>\<open>lease.go\<close>, \<^verbatim>\<open>synthetic.go\<close>, \<^verbatim>\<open>events.go\<close>, with
    \<^verbatim>\<open>coord.OpenLeaf\<close>; its state is the substrate and the files of the host (\<open>world\<close>). \<open>Reap\<close>: \<^verbatim>\<open>ttlwatch.go\<close> and
    \<^verbatim>\<open>internal/slotgc\<close>.
  \<^item> \<open>Host_Files\<close>: the files and processes of a host as the code sees them. \<open>Workspace\<close>: \<^verbatim>\<open>internal/workspace\<close>.
    \<open>Registry\<close>: \<^verbatim>\<open>internal/registry\<close> but for \<^verbatim>\<open>lock.go\<close>, which is \<open>Workspace_Lock\<close>: the steps of a process that takes the
    lock, and the relation that interleaves any number of them. \<open>Workspace_Guarantees\<close>: their properties.
  \<^item> \<open>Logs\<close>: \<^verbatim>\<open>internal/logwriter\<close> and the log of the hub. \<open>Host_Tools\<close>: \<^verbatim>\<open>internal/githook\<close>, \<^verbatim>\<open>internal/sessions\<close>,
    \<^verbatim>\<open>internal/scaffoldver\<close> and \<^verbatim>\<open>slotgc.Kill\<close>. \<open>Hub\<close>: \<^verbatim>\<open>internal/hub\<close>, start, service and stop; its state (\<open>hub_world\<close>) is the
    substrate, the files with the lock of the workspace, and the directories of the slots.
  \<^item> \<open>Task_Commands\<close>: the commands \<^verbatim>\<open>bones tasks create\<close>, \<^verbatim>\<open>claim\<close>, \<^verbatim>\<open>update\<close>, \<^verbatim>\<open>close\<close>, \<^verbatim>\<open>link\<close>, \<^verbatim>\<open>autoclaim\<close>, \<^verbatim>\<open>dispatch\<close>.
    \<open>Swarm_Commands\<close>: \<^verbatim>\<open>bones swarm join\<close>, \<^verbatim>\<open>commit\<close>, \<^verbatim>\<open>close\<close>, \<^verbatim>\<open>reap\<close>, \<^verbatim>\<open>fan-in\<close>, \<^verbatim>\<open>cwd\<close>.
  \<^item> \<open>Task_Guarantees\<close>, \<open>Coord_Guarantees\<close>, \<open>Leaf_Guarantees\<close>, \<open>Lease_Guarantees\<close>, \<open>Dispatch_Guarantees\<close>,
    \<open>Command_Guarantees\<close>, \<open>Host_Guarantees\<close>, \<open>Hub_Guarantees\<close>, \<open>Hub_Life\<close>, \<open>Swarm_Guarantees\<close>: the properties that rest on several of these, with the sample states of their witnesses.

  A handler is one definition that takes the substrate, the handle and the state of the world and returns the
  result (\<open>Inl\<close> an error), the changed handle and the new state. A mutator is a function from the time and the
  current record to an error or the next record, as the closures of the code are.

  \<^bold>\<open>What the lemmas show.\<close>
  \<^item> Safety under any interference: a successful claim found the task free when it wrote, a close is fenced by the
    epoch, a hold is taken only where no other agent has a live one, an update applies its mutator to the record it
    replaces, a commit passes only with holds and claim seen, stored records stay valid in every run, a slot has one
    session, a renewal keeps the rest of its record, a success is reported only with a sign of work.
  \<^item> Order of log and bucket: a transaction publishes before it writes and stamps the number, recovery replays exactly
    what a crash left, and does nothing on a bucket in step with its log.
  \<^item> Functional behaviour on every branch of undisturbed runs: claim, close, hold life, presence life, dispatch,
    advance, cancel, validation of plans.
  \<^item> Equivalences and round trips: the two ready filters, the two plan parsers, the stable sort, the in-place
    de-duplication; records, events, manifests, keys and result messages through their encodings; the event of an update
    and the update itself; a commit of named and of discovered files; the ports of a hub through its address files; the
    git hook installed and removed.
  \<^item> The host: the lock of the workspace, the registry, a hub that can be found while it serves, logs that stay within their
    bound and lose only their oldest lines.
  \<^item> Where the code does not do what its comments say: closing through a leaf blocks recovery, leaves do not see each
    other, a cancel stops at a closed task, an accepted plan can share a file, joining again counts as work, a close
    after a commit skips the task, the collector removes slots that were just joined, a refused claim or update stays on the
    log and is replayed, a refused close has already announced its success, a second start removes another hub's repository.

  \<^bold>\<open>Bounds.\<close> The compare-and-swap loops run \<open>MaxRetries\<close> = 8 times, as in \<^verbatim>\<open>jskv.MaxRetries\<close>; the model recurses on the
  same count and returns the same conflict error after it. \<open>heartbeatLoop\<close> takes the number of ticks before the
  manager is closed. \<open>trim_left\<close> has the length of its text as fuel, and \<open>trim_left_done\<close> shows that it is enough.
  \<open>walk_loop\<close> has the 64 levels of \<^verbatim>\<open>maxWalkUpDepth\<close>, \<open>run_phases\<close> the eleven steps no run of \<^verbatim>\<open>AcquireWorkspaceLock\<close> exceeds.
  \<open>find_git\<close> has the length of its path as fuel, and every step takes a component off; \<open>runClose\<close> has fuel for the sessions that
  vanish between its look and its resumption, each of which starts it again. \<open>WaitWorkerAbsent\<close> runs over the events its \<^verbatim>\<open>select\<close> receives and is \<open>None\<close> while it waits.

  \<^bold>\<open>Not modelled.\<close> The notices some operations put on the chat, telemetry (\<^verbatim>\<open>internal/telemetry\<close>: output only), printing.
  The EdgeSync agent, its hub and the fossil repository are a parameter of \<open>Leaf\<close>, \<open>Lease\<close> and \<open>Hub\<close>, with the outcomes of
  the operating system, of \<^verbatim>\<open>git\<close> and of child processes. Of the hub, the wait for its ports, the drain of its servers and the tail of
  its log in an error text. The remaining commands of \<^verbatim>\<open>cli\<close> (\<^verbatim>\<open>apply\<close>, \<^verbatim>\<open>doctor\<close>, \<^verbatim>\<open>down\<close>, \<^verbatim>\<open>status\<close>, \<^verbatim>\<open>skills\<close>, \<^verbatim>\<open>up\<close>, \<^verbatim>\<open>logs\<close>,
  \<^verbatim>\<open>cleanup\<close>, \<^verbatim>\<open>orchestrator\<close>) run \<^verbatim>\<open>git\<close>, copy scaffolding and print what the packages above answer. Goroutine plumbing of subscriptions and of
  \<^verbatim>\<open>LogReader.Live\<close> is reduced to the sequence of messages it forwards.
\<close>

end
